(* ===== verification/Prelude.thy ===== *)
theory Prelude
  imports Complex_Main "HOL-Library.AList"
begin

text \<open>
  Shared vocabulary of the development: Python exceptions as values, SQL tables as lists of
  rows with the four statements the stores use (SELECT by key, guarded UPDATE, INSERT,
  DELETE), Python's \<open>round\<close>, \<open>max\<close>/\<open>min\<close> clamps and floating \<open>%\<close>, and the lemmas on them that
  the component theories share. Floating-point numbers (instants, dollars, scores) are read as
  exact reals throughout.
\<close>

named_theorems wq_defs \<open>operations of the work queue, for unfolding\<close>
named_theorems tbl \<open>facts on table reads after table writes\<close>

section \<open>Exceptions as values\<close>

text \<open>
  An operation that may raise and that changes the store returns the exception or the value
  together with the store as it is committed when the call ends.
\<close>

datatype exc =
    IllegalTransition string string string string
  | TransitionRefused string string
  | EntityNotFound string string
  | ValueError string
  | IntegrityError
  | OperationalError
  | OverflowError string

section \<open>Column values\<close>

datatype col = CNull | CText string | CReal real | CInt int

section \<open>Tables as lists of rows\<close>

definition row_of :: "('r \<Rightarrow> 'k) \<Rightarrow> 'k \<Rightarrow> 'r list \<Rightarrow> 'r option" where
  "row_of key k rows = find (\<lambda>r. key r = k) rows"

definition upd_where :: "('r \<Rightarrow> bool) \<Rightarrow> ('r \<Rightarrow> 'r) \<Rightarrow> 'r list \<Rightarrow> 'r list" where
  "upd_where P f rows = map (\<lambda>r. if P r then f r else r) rows"

definition rowcount :: "('r \<Rightarrow> bool) \<Rightarrow> 'r list \<Rightarrow> nat" where
  "rowcount P rows = length (filter P rows)"

abbreviation keys_distinct :: "('r \<Rightarrow> 'k) \<Rightarrow> 'r list \<Rightarrow> bool" where
  "keys_distinct key rows \<equiv> distinct (map key rows)"

lemma row_of_Nil [simp]: "row_of key k [] = None"
  by (simp add: row_of_def)

lemma row_of_Cons [simp]:
  "row_of key k (r # rs) = (if key r = k then Some r else row_of key k rs)"
  by (simp add: row_of_def)

lemma upd_where_Nil [simp]: "upd_where P f [] = []"
  by (simp add: upd_where_def)

lemma upd_where_Cons [simp]:
  "upd_where P f (r # rs) = (if P r then f r else r) # upd_where P f rs"
  by (simp add: upd_where_def)

lemma row_of_SomeD: "row_of key k rows = Some r \<Longrightarrow> r \<in> set rows \<and> key r = k"
  by (induction rows) (auto split: if_splits)

lemma row_of_None_iff: "row_of key k rows = None \<longleftrightarrow> k \<notin> key ` set rows"
  by (induction rows) auto

lemma row_of_Some_iff:
  "keys_distinct key rows \<Longrightarrow> row_of key k rows = Some r \<longleftrightarrow> r \<in> set rows \<and> key r = k"
  by (induction rows) (auto simp: rev_image_eqI)

lemma row_of_append [simp]:
  "row_of key k (xs @ ys) = (case row_of key k xs of None \<Rightarrow> row_of key k ys | Some r \<Rightarrow> Some r)"
  by (induction xs) auto

lemma set_upd_where: "set (upd_where P f rows) = (\<lambda>r. if P r then f r else r) ` set rows"
  by (simp add: upd_where_def)

lemma length_upd_where [simp]: "length (upd_where P f rows) = length rows"
  by (simp add: upd_where_def)

lemma map_key_upd_where:
  "(\<And>r. key (f r) = key r) \<Longrightarrow> map key (upd_where P f rows) = map key rows"
  by (simp add: upd_where_def)

lemma row_of_upd_where:
  assumes "\<And>r. key (f r) = key r"
  shows "row_of key k (upd_where P f rows) =
    map_option (\<lambda>r. if P r then f r else r) (row_of key k rows)"
  using assms by (induction rows) auto

lemma rowcount_key:
  assumes "keys_distinct key rows"
  shows "rowcount (\<lambda>r. key r = k \<and> Q r) rows =
    (case row_of key k rows of None \<Rightarrow> 0 | Some r \<Rightarrow> if Q r then 1 else 0)"
  using assms
proof (induction rows)
  case Nil
  then show ?case by (simp add: rowcount_def)
next
  case (Cons r rs)
  have "key r = k \<Longrightarrow> filter (\<lambda>r. key r = k \<and> Q r) rs = []"
    using Cons.prems by (auto simp: filter_empty_conv image_iff)
  with Cons show ?case by (auto simp: rowcount_def)
qed

lemma rowcount_key_1:
  "keys_distinct key rows \<Longrightarrow>
    rowcount (\<lambda>r. key r = k \<and> Q r) rows = 1 \<longleftrightarrow> (\<exists>r. row_of key k rows = Some r \<and> Q r)"
  by (simp add: rowcount_key split: option.split)

lemma upd_where_id: "(\<And>r. r \<in> set rows \<Longrightarrow> \<not> P r) \<Longrightarrow> upd_where P f rows = rows"
  by (induction rows) auto

section \<open>Sequences\<close>

text \<open>Python's slice \<open>xs[i:j]\<close>: negative bounds count from the end, bounds out of range are clamped.\<close>

definition py_idx :: "int \<Rightarrow> int \<Rightarrow> int" where
  "py_idx n i = (if i < 0 then max 0 (n + i) else min i n)"

definition py_slice :: "'a list \<Rightarrow> int \<Rightarrow> int \<Rightarrow> 'a list" where
  "py_slice xs i j =
    (let n = int (length xs); a = py_idx n i; b = py_idx n j
     in take (nat (b - a)) (drop (nat a) xs))"

section \<open>Strings\<close>

text \<open>Characters are the code points 0 to 255. \<open>str_or x d\<close> is Python's \<open>x or d\<close>.\<close>

definition str_or :: "string option \<Rightarrow> string \<Rightarrow> string" where
  "str_or x d = (case x of None \<Rightarrow> d | Some s \<Rightarrow> if s = [] then d else s)"

text \<open>White space and line boundaries of \<open>str.strip\<close> and \<open>str.splitlines\<close> among the characters of the model.\<close>

definition py_space :: "char \<Rightarrow> bool" where
  "py_space c \<longleftrightarrow> (let n = (of_char c :: nat) in 9 \<le> n \<and> n \<le> 13 \<or> 28 \<le> n \<and> n \<le> 32 \<or> n = 133 \<or> n = 160)"

definition line_break :: "char \<Rightarrow> bool" where
  "line_break c \<longleftrightarrow> (let n = (of_char c :: nat) in 10 \<le> n \<and> n \<le> 13 \<or> 28 \<le> n \<and> n \<le> 30 \<or> n = 133)"

definition py_strip :: "string \<Rightarrow> string" where
  "py_strip s = rev (dropWhile py_space (rev (dropWhile py_space s)))"

definition py_rstrip :: "char \<Rightarrow> string \<Rightarrow> string" where
  "py_rstrip c s = rev (dropWhile (\<lambda>d. d = c) (rev s))"

text \<open>
  \<open>str.upper\<close>: the sharp s becomes two letters; the two letters of the range whose capital is no
  code point below 256 are left as they are.
\<close>

definition py_upper_char :: "char \<Rightarrow> string" where
  "py_upper_char c =
    (let n = (of_char c :: nat)
     in if 97 \<le> n \<and> n \<le> 122 \<or> 224 \<le> n \<and> n \<le> 254 \<and> n \<noteq> 247 then [char_of (n - 32)]
        else if n = 223 then ''SS'' else [c])"

definition py_upper :: "string \<Rightarrow> string" where
  "py_upper s = concat (map py_upper_char s)"

text \<open>\<open>str\<close> of a number.\<close>

fun py_str_nat :: "nat \<Rightarrow> string" where
  "py_str_nat n = (if n < 10 then [char_of (48 + n)] else py_str_nat (n div 10) @ [char_of (48 + n mod 10)])"

definition py_str_int :: "int \<Rightarrow> string" where
  "py_str_int i = (if i < 0 then CHR ''-'' # py_str_nat (nat (- i)) else py_str_nat (nat i))"

text \<open>\<open>str.split(sep)\<close> for a separator of one character, \<open>str.partition\<close> and \<open>str.splitlines\<close>.\<close>

fun py_split :: "char \<Rightarrow> string \<Rightarrow> string list" where
  "py_split sep [] = [[]]"
| "py_split sep (c # s) =
    (if c = sep then [] # py_split sep s
     else case py_split sep s of [] \<Rightarrow> [[c]] | w # ws \<Rightarrow> (c # w) # ws)"

definition py_partition :: "char \<Rightarrow> string \<Rightarrow> string \<times> string" where
  "py_partition sep s =
    (takeWhile (\<lambda>c. c \<noteq> sep) s, drop 1 (dropWhile (\<lambda>c. c \<noteq> sep) s))"

fun py_splitlines :: "string \<Rightarrow> string list" where
  "py_splitlines [] = []"
| "py_splitlines (c # s) =
    (if line_break c then
       [] # (case s of
               [] \<Rightarrow> []
             | d # s' \<Rightarrow> if c = CHR 0x0D \<and> d = CHR 0x0A then py_splitlines s' else py_splitlines s)
     else case py_splitlines s of [] \<Rightarrow> [[c]] | l # ls \<Rightarrow> (c # l) # ls)"

definition starts_with :: "string \<Rightarrow> string \<Rightarrow> bool" where
  "starts_with p s \<longleftrightarrow> take (length p) s = p"

section \<open>Numbers\<close>

definition py_mod :: "real \<Rightarrow> real \<Rightarrow> real" where
  "py_mod x m = x - m * of_int \<lfloor>x / m\<rfloor>"

definition py_round :: "nat \<Rightarrow> real \<Rightarrow> real" where
  "py_round n x =
    (let y = x * 10 ^ n; f = \<lfloor>y\<rfloor>; d = y - of_int f
     in (if d < 1/2 then of_int f
         else if d > 1/2 then of_int (f + 1)
         else if even f then of_int f else of_int (f + 1)) / 10 ^ n)"

lemma py_mod_bounds: "0 < m \<Longrightarrow> 0 \<le> py_mod x m \<and> py_mod x m < m"
proof -
  assume m: "0 < m"
  have "m * of_int \<lfloor>x / m\<rfloor> \<le> m * (x / m)" and "m * (x / m) < m * (of_int \<lfloor>x / m\<rfloor> + 1)"
    using m by (simp_all add: mult_left_mono del: times_divide_eq_right)
  with m show ?thesis by (simp add: py_mod_def distrib_left)
qed

text \<open>Rounding a fraction gives a fraction.\<close>

lemma py_round_fraction:
  assumes "0 \<le> x" "x \<le> 1"
  shows "0 \<le> py_round n x \<and> py_round n x \<le> 1"
proof -
  define y :: real where "y = x * 10 ^ n"
  define r :: int where "r = (if y - of_int \<lfloor>y\<rfloor> < 1/2 then \<lfloor>y\<rfloor>
    else if y - of_int \<lfloor>y\<rfloor> > 1/2 then \<lfloor>y\<rfloor> + 1 else if even \<lfloor>y\<rfloor> then \<lfloor>y\<rfloor> else \<lfloor>y\<rfloor> + 1)"
  have y: "0 \<le> y" "y \<le> 10 ^ n" using assms by (simp_all add: y_def mult_left_le_one_le)
  have "0 \<le> \<lfloor>y\<rfloor>" using y by simp
  then have "0 \<le> r" by (auto simp: r_def)
  have "r \<le> 10 ^ n"
  proof (cases "y = 10 ^ n")
    case True
    then have "y = of_int (10 ^ n)" by simp
    then have "\<lfloor>y\<rfloor> = 10 ^ n" by (metis floor_of_int)
    with True show ?thesis by (simp add: r_def)
  next
    case False
    then have "y < of_int (10 ^ n)" using y by simp
    then have "\<lfloor>y\<rfloor> < 10 ^ n" by (simp only: floor_less_iff)
    then show ?thesis by (auto simp: r_def)
  qed
  then have "real_of_int r \<le> real_of_int (10 ^ n)" by (simp only: of_int_le_iff)
  moreover have "py_round n x = of_int r / 10 ^ n"
    by (simp add: py_round_def Let_def r_def y_def[symmetric])
  ultimately show ?thesis using \<open>0 \<le> r\<close> by (simp add: divide_le_eq)
qed

end
