(* ===== verification/Transitions.thy ===== *)
theory Transitions
  imports Prelude
begin

text \<open>
  The transition authority of \<^verbatim>\<open>common/transitions.py\<close>: finite state machines as data
  (\<open>vocabulary\<close>), the four verbs \<open>transition\<close>, \<open>advance\<close>, \<open>converge\<close> and \<open>cancel\<close>, each built
  from its \<open>decide\<close> closure and a \<open>LockedWriter\<close>, and the contract of a \<open>LockedWriter\<close> as the
  locale \<open>locked_writer\<close>, in which the guarantees of the verbs are proved once for every backend.
  A stored column holds a member of the enumeration; \<open>v_value\<close> is the member's \<open>.value\<close>.
\<close>

section \<open>Vocabularies\<close>

record 'e vocabulary =
  v_name :: string
  v_value :: "'e \<Rightarrow> string"
  v_column :: string
  v_edges :: "'e \<rightharpoonup> 'e set"
  v_terminal :: "'e set"
  v_universal :: "'e set"

definition edge_get :: "('e \<rightharpoonup> 'e set) \<Rightarrow> 'e \<Rightarrow> 'e set" where
  "edge_get m src = (case m src of None \<Rightarrow> {} | Some ds \<Rightarrow> ds)"

definition allowed :: "'e vocabulary \<Rightarrow> 'e \<Rightarrow> ('e \<rightharpoonup> 'e set) option \<Rightarrow> 'e set" where
  "allowed v src overlay =
    (let base = edge_get (v_edges v) src
     in if src \<notin> v_terminal v
        then base \<union> v_universal v \<union> (case overlay of None \<Rightarrow> {} | Some ov \<Rightarrow> edge_get ov src)
        else base)"

definition is_terminal :: "'e vocabulary \<Rightarrow> 'e \<Rightarrow> bool" where
  "is_terminal v s \<longleftrightarrow> s \<in> v_terminal v"

section \<open>Audit records and decisions\<close>

record transition_record =
  tr_vocabulary :: string
  tr_entity_id :: string
  tr_src :: string
  tr_dst :: string
  tr_outcome :: string
  tr_actor :: string
  tr_task_id :: "string option"
  tr_reason :: string
  tr_message :: "string option"

definition mk_record ::
  "'e vocabulary \<Rightarrow> string \<Rightarrow> 'e \<Rightarrow> 'e \<Rightarrow> string \<Rightarrow> string \<Rightarrow> string option \<Rightarrow> string \<Rightarrow> string option
    \<Rightarrow> transition_record" where
  "mk_record v eid src dst outcome actor task_id reason message =
    \<lparr>tr_vocabulary = v_name v, tr_entity_id = eid, tr_src = v_value v src, tr_dst = v_value v dst,
     tr_outcome = outcome, tr_actor = actor, tr_task_id = task_id, tr_reason = reason,
     tr_message = message\<rparr>"

definition default_message :: "transition_record \<Rightarrow> string" where
  "default_message r =
    (case tr_message r of Some m \<Rightarrow> m
     | None \<Rightarrow>
        if tr_outcome r = ''applied''
        then tr_vocabulary r @ '' '' @ tr_entity_id r @ '': '' @ tr_src r @ '' -> '' @ tr_dst r
             @ '' ('' @ tr_actor r @ '')''
        else tr_vocabulary r @ '' '' @ tr_entity_id r @ '': refused '' @ tr_src r @ '' -> '' @ tr_dst r
             @ '' ('' @ tr_reason r @ '')'')"

text \<open>
  What a \<open>decide\<close> closure answers: write these columns (the destination in the state column,
  the extra fields in the others), do not write, or raise.
\<close>

datatype 'e decision =
    Proceed 'e "(string \<times> col) list" "transition_record option"
  | Hold "transition_record option"
  | Raise exc

type_synonym 'e decide_fn = "'e option \<Rightarrow> 'e decision"

text \<open>
  A writer returns \<open>(applied, stored_value_after)\<close>, and beside it the members its calls of
  \<open>decide\<close> were given, in order: the list \<open>seen\<close> that the closure of \<open>cancel\<close> collects.
\<close>

type_synonym ('e, 's) locked_writer_fn =
  "string \<Rightarrow> 'e decide_fn \<Rightarrow> 's \<Rightarrow> (exc + (bool \<times> 'e option \<times> 'e list)) \<times> 's"

definition write_fields :: "'e vocabulary \<Rightarrow> (string \<times> col) list \<Rightarrow> (string \<times> col) list" where
  "write_fields v extra = AList.delete (v_column v) extra"

section \<open>The verbs\<close>

definition transition_decide ::
  "'e vocabulary \<Rightarrow> string \<Rightarrow> 'e \<Rightarrow> string \<Rightarrow> string option \<Rightarrow> (string \<times> col) list \<Rightarrow> 'e decide_fn" where
  "transition_decide v eid dst actor task_id extra current_raw =
    (case current_raw of
       None \<Rightarrow> Hold None
     | Some current \<Rightarrow>
         if current = dst then
           Hold (Some (mk_record v eid current dst ''noop'' actor task_id ''already at destination'' None))
         else if is_terminal v current then
           Hold (Some (mk_record v eid current dst ''refused'' actor task_id ''terminal state is final'' None))
         else if dst \<notin> allowed v current None then
           Raise (IllegalTransition (v_name v) eid (v_value v current) (v_value v dst))
         else
           Proceed dst (write_fields v extra)
             (Some (mk_record v eid current dst ''applied'' actor task_id '''' None)))"

definition transition ::
  "'e vocabulary \<Rightarrow> ('e, 's) locked_writer_fn \<Rightarrow> string \<Rightarrow> 'e \<Rightarrow> string \<Rightarrow> string option
    \<Rightarrow> (string \<times> col) list \<Rightarrow> 's \<Rightarrow> (exc + 'e) \<times> 's" where
  "transition v writer eid dst actor task_id extra s =
    (case writer eid (transition_decide v eid dst actor task_id extra) s of
       (Inl e, s') \<Rightarrow> (Inl e, s')
     | (Inr (applied, stored, seen), s') \<Rightarrow>
         (case stored of
            None \<Rightarrow> (Inl (EntityNotFound (v_name v) eid), s')
          | Some current \<Rightarrow>
              if applied \<or> current = dst then (Inr current, s')
              else (Inl (TransitionRefused eid (v_value v current)), s')))"

definition advance_decide ::
  "'e vocabulary \<Rightarrow> string \<Rightarrow> 'e \<Rightarrow> 'e set \<Rightarrow> string \<Rightarrow> string option \<Rightarrow> (string \<times> col) list
    \<Rightarrow> 'e decide_fn" where
  "advance_decide v eid dst only_from actor task_id extra current_raw =
    (case current_raw of
       None \<Rightarrow> Hold None
     | Some current \<Rightarrow>
         if current = dst \<or> is_terminal v current \<or> current \<notin> only_from then
           Hold (Some (mk_record v eid current dst ''noop'' actor task_id
                         ''not eligible for this advance'' None))
         else
           Proceed dst (write_fields v extra)
             (Some (mk_record v eid current dst ''applied'' actor task_id '''' None)))"

definition advance ::
  "'e vocabulary \<Rightarrow> ('e, 's) locked_writer_fn \<Rightarrow> string \<Rightarrow> 'e \<Rightarrow> 'e set \<Rightarrow> string \<Rightarrow> string option
    \<Rightarrow> (string \<times> col) list \<Rightarrow> 's \<Rightarrow> (exc + 'e option) \<times> 's" where
  "advance v writer eid dst only_from actor task_id extra s =
    (case writer eid (advance_decide v eid dst only_from actor task_id extra) s of
       (Inl e, s') \<Rightarrow> (Inl e, s')
     | (Inr (applied, stored, seen), s') \<Rightarrow> (Inr (if applied then Some dst else None), s'))"

definition converge_decide ::
  "'e vocabulary \<Rightarrow> string \<Rightarrow> 'e \<Rightarrow> string \<Rightarrow> ('e \<rightharpoonup> 'e set) option \<Rightarrow> string option
    \<Rightarrow> (string \<times> col) list \<Rightarrow> ('e \<Rightarrow> 'e \<Rightarrow> string) option \<Rightarrow> ('e \<Rightarrow> 'e \<Rightarrow> string) option
    \<Rightarrow> 'e decide_fn" where
  "converge_decide v eid dst actor overlay task_id extra on_applied on_refused current_raw =
    (case current_raw of
       None \<Rightarrow> Hold None
     | Some current \<Rightarrow>
         if current = dst then Hold None
         else if is_terminal v current then
           Hold (Some (mk_record v eid current dst ''refused'' actor task_id ''terminal state is final''
                         (map_option (\<lambda>f. f current dst) on_refused)))
         else if dst \<notin> allowed v current overlay then
           Hold (Some (mk_record v eid current dst ''refused'' actor task_id ''illegal edge''
                         (map_option (\<lambda>f. f current dst) on_refused)))
         else
           Proceed dst (write_fields v extra)
             (Some (mk_record v eid current dst ''applied'' actor task_id ''''
                      (map_option (\<lambda>f. f current dst) on_applied))))"

definition converge ::
  "'e vocabulary \<Rightarrow> ('e, 's) locked_writer_fn \<Rightarrow> string \<Rightarrow> 'e \<Rightarrow> string \<Rightarrow> ('e \<rightharpoonup> 'e set) option
    \<Rightarrow> string option \<Rightarrow> (string \<times> col) list \<Rightarrow> ('e \<Rightarrow> 'e \<Rightarrow> string) option
    \<Rightarrow> ('e \<Rightarrow> 'e \<Rightarrow> string) option \<Rightarrow> 's \<Rightarrow> (exc + (bool \<times> 'e option)) \<times> 's" where
  "converge v writer eid dst actor overlay task_id extra on_applied on_refused s =
    (case writer eid
        (converge_decide v eid dst actor overlay task_id extra on_applied on_refused) s of
       (Inl e, s') \<Rightarrow> (Inl e, s')
     | (Inr (applied, stored, seen), s') \<Rightarrow>
         (case stored of
            None \<Rightarrow> (Inr (False, None), s')
          | Some current \<Rightarrow> (Inr (applied, Some (if applied then dst else current)), s')))"

definition cancel_decide ::
  "'e vocabulary \<Rightarrow> string \<Rightarrow> 'e \<Rightarrow> string \<Rightarrow> string option \<Rightarrow> (string \<times> col) list \<Rightarrow> 'e decide_fn" where
  "cancel_decide v eid cancelled actor task_id extra current_raw =
    (case current_raw of
       None \<Rightarrow> Hold None
     | Some current \<Rightarrow>
         if current = cancelled then
           Hold (Some (mk_record v eid current cancelled ''noop'' actor task_id ''already cancelled'' None))
         else if is_terminal v current then
           Hold (Some (mk_record v eid current cancelled ''noop'' actor task_id ''already terminal'' None))
         else
           Proceed cancelled (write_fields v extra)
             (Some (mk_record v eid current cancelled ''applied'' actor task_id '''' None)))"

record 'e cancel_result =
  cr_entity_id :: string
  cr_applied :: bool
  cr_state :: 'e
  cr_already_terminal :: bool
  cr_previous_state :: "'e option"

definition cancel ::
  "'e vocabulary \<Rightarrow> ('e, 's) locked_writer_fn \<Rightarrow> string \<Rightarrow> 'e \<Rightarrow> string \<Rightarrow> string option
    \<Rightarrow> (string \<times> col) list \<Rightarrow> 's \<Rightarrow> (exc + 'e cancel_result) \<times> 's" where
  "cancel v writer eid cancelled actor task_id extra s =
    (case writer eid (cancel_decide v eid cancelled actor task_id extra) s of
       (Inl e, s') \<Rightarrow> (Inl e, s')
     | (Inr (applied, stored, seen), s') \<Rightarrow>
         (case stored of
            None \<Rightarrow> (Inl (EntityNotFound (v_name v) eid), s')
          | Some current \<Rightarrow>
              (let previous = (if seen \<noteq> [] then last seen else current)
               in (Inr (if applied
                        then \<lparr>cr_entity_id = eid, cr_applied = True, cr_state = cancelled,
                              cr_already_terminal = False, cr_previous_state = Some previous\<rparr>
                        else \<lparr>cr_entity_id = eid, cr_applied = False, cr_state = current,
                              cr_already_terminal = True, cr_previous_state = Some previous\<rparr>), s'))))"

lemmas decide_defs = transition_decide_def advance_decide_def converge_decide_def cancel_decide_def
lemmas verb_defs = transition_def advance_def converge_def cancel_def


text \<open>
  What a verb may do to the stored column: it moves by at most one step, of the named entity
  only, from a value that is stored at the moment of the update and by an edge in \<open>L\<close>.
\<close>

definition legal_step ::
  "('s \<Rightarrow> string \<Rightarrow> 'e option) \<Rightarrow> ('s \<Rightarrow> 's \<Rightarrow> bool) \<Rightarrow> ('e \<Rightarrow> 'e \<Rightarrow> bool) \<Rightarrow> string \<Rightarrow> 's \<Rightarrow> 's
    \<Rightarrow> bool" where
  "legal_step stored peers L eid s s' \<longleftrightarrow>
    (\<exists>x. peers s x \<and> (stored s' = stored x \<or>
      (\<exists>cur dst. stored x eid = Some cur \<and> L cur dst \<and> stored s' = (stored x)(eid \<mapsto> dst))))"

section \<open>The contract of a locked writer\<close>

text \<open>
  \<open>stored\<close> reads the state column, \<open>trail\<close> the audit rows, \<open>render\<close> the audit row a record
  becomes, and \<open>peers\<close> relates a store to the ones that writers of other processes may leave
  before this writer's next read or guarded update. A writer either applies a decision taken
  on a value that is still stored at the moment of its update, or holds, or gives up after
  misses and reports a value it observed.
\<close>

locale locked_writer =
  fixes stored :: "'s \<Rightarrow> string \<Rightarrow> 'e option"
    and trail :: "'s \<Rightarrow> 'l list"
    and render :: "'s \<Rightarrow> string \<Rightarrow> transition_record \<Rightarrow> 'l"
    and peers :: "'s \<Rightarrow> 's \<Rightarrow> bool"
    and ok :: "'s \<Rightarrow> bool"
    and writer :: "('e, 's) locked_writer_fn"
  assumes writer_applied:
    "ok s \<Longrightarrow> writer eid d s = (Inr (True, st, seen), s') \<Longrightarrow>
      \<exists>x cur dst ex r. peers s x \<and> stored x eid = Some cur \<and> d (Some cur) = Proceed dst ex r
        \<and> st = Some dst \<and> seen \<noteq> [] \<and> last seen = cur
        \<and> stored s' = (stored x)(eid \<mapsto> dst)
        \<and> trail s' = trail x @ (case r of None \<Rightarrow> [] | Some q \<Rightarrow> [render x eid q])"
    and writer_held:
    "ok s \<Longrightarrow> writer eid d s = (Inr (False, st, seen), s') \<Longrightarrow>
      (\<exists>x r. peers s x \<and> d (stored x eid) = Hold r \<and> st = stored x eid \<and> stored s' = stored x
        \<and> (st \<noteq> None \<longrightarrow> seen \<noteq> [] \<and> Some (last seen) = st)
        \<and> trail s' = trail x @ (case r of None \<Rightarrow> [] | Some q \<Rightarrow> [render x eid q]))
      \<or> (peers s s' \<and> (\<exists>y. peers s y \<and> st = stored y eid))"
    and writer_raised:
    "ok s \<Longrightarrow> writer eid d s = (Inl e, s') \<Longrightarrow> peers s s' \<and> d (stored s' eid) = Raise e"
begin

lemma writer_cases:
  assumes ok: "ok s" and w: "writer eid d s = (out, s')"
  obtains
    (raised) e where "out = Inl e" "peers s s'" "d (stored s' eid) = Raise e"
  | (applied) x cur dst ex r seen where "out = Inr (True, Some dst, seen)" "peers s x"
      "stored x eid = Some cur" "d (Some cur) = Proceed dst ex r" "seen \<noteq> []" "last seen = cur"
      "stored s' = (stored x)(eid \<mapsto> dst)"
      "trail s' = trail x @ (case r of None \<Rightarrow> [] | Some q \<Rightarrow> [render x eid q])"
  | (held) x r seen where "out = Inr (False, stored x eid, seen)" "peers s x"
      "d (stored x eid) = Hold r" "stored s' = stored x"
      "stored x eid \<noteq> None \<Longrightarrow> seen \<noteq> [] \<and> Some (last seen) = stored x eid"
      "trail s' = trail x @ (case r of None \<Rightarrow> [] | Some q \<Rightarrow> [render x eid q])"
  | (starved) y seen where "out = Inr (False, stored y eid, seen)" "peers s y" "peers s s'"
proof (cases out)
  case (Inl e)
  with w ok writer_raised [of s eid d e s'] show ?thesis by (auto intro: raised)
next
  case (Inr t)
  obtain a st seen where t: "t = (a, st, seen)" by (cases t)
  show ?thesis
  proof (cases a)
    case True
    with w Inr t have "writer eid d s = (Inr (True, st, seen), s')" by simp
    from writer_applied [OF ok this] show ?thesis using True Inr t by (auto intro: applied)
  next
    case False
    with w Inr t have "writer eid d s = (Inr (False, st, seen), s')" by simp
    from writer_held [OF ok this] show ?thesis
    proof (elim disjE exE conjE)
      fix x r
      assume *: "peers s x" "d (stored x eid) = Hold r" "st = stored x eid" "stored s' = stored x"
        "st \<noteq> None \<longrightarrow> seen \<noteq> [] \<and> Some (last seen) = st"
        "trail s' = trail x @ (case r of None \<Rightarrow> [] | Some q \<Rightarrow> [render x eid q])"
      then have "out = Inr (False, stored x eid, seen)" using Inr t False by simp
      from held [OF this *(1,2,4) _ *(6)] show thesis using *(3,5) by blast
    next
      fix y
      assume *: "peers s s'" "peers s y" "st = stored y eid"
      then have "out = Inr (False, stored y eid, seen)" using Inr t False by simp
      from starved [OF this *(2,1)] show thesis .
    qed
  qed
qed

lemma writer_step:
  assumes "ok s" and "\<And>cur dst ex r. d (Some cur) = Proceed dst ex r \<Longrightarrow> L cur dst"
  shows "legal_step stored peers L eid s (snd (writer eid d s))"
proof (cases "writer eid d s" rule: prod.exhaust)
  case (Pair out s')
  from assms(1) Pair show ?thesis
  proof (cases rule: writer_cases)
    case (applied x cur dst ex r seen)
    with assms have "L cur dst" by blast
    with applied Pair show ?thesis unfolding legal_step_def by auto
  qed (auto simp: legal_step_def Pair)
qed

lemma snd_verb:
  "snd (transition v writer eid dst actor tid ex s)
     = snd (writer eid (transition_decide v eid dst actor tid ex) s)"
  "snd (advance v writer eid dst from actor tid ex s)
     = snd (writer eid (advance_decide v eid dst from actor tid ex) s)"
  "snd (converge v writer eid dst actor ov tid ex fa fr s)
     = snd (writer eid (converge_decide v eid dst actor ov tid ex fa fr) s)"
  "snd (cancel v writer eid dst actor tid ex s)
     = snd (writer eid (cancel_decide v eid dst actor tid ex) s)"
  by (auto simp: verb_defs Let_def split: prod.splits sum.splits option.splits)

lemma transition_step:
  "ok s \<Longrightarrow> legal_step stored peers (\<lambda>cur d. d = dst \<and> cur \<notin> v_terminal v \<and> dst \<in> allowed v cur None) eid s
     (snd (transition v writer eid dst actor tid ex s))"
  unfolding snd_verb
  by (erule writer_step) (auto simp: transition_decide_def is_terminal_def split: if_splits)

lemma advance_step:
  "ok s \<Longrightarrow> legal_step stored peers (\<lambda>cur d. d = dst \<and> cur \<notin> v_terminal v \<and> cur \<in> from) eid s
     (snd (advance v writer eid dst from actor tid ex s))"
  unfolding snd_verb
  by (erule writer_step) (auto simp: advance_decide_def is_terminal_def split: if_splits)

lemma converge_step:
  "ok s \<Longrightarrow> legal_step stored peers (\<lambda>cur d. d = dst \<and> cur \<notin> v_terminal v \<and> dst \<in> allowed v cur ov) eid s
     (snd (converge v writer eid dst actor ov tid ex fa fr s))"
  unfolding snd_verb
  by (erule writer_step) (auto simp: converge_decide_def is_terminal_def split: if_splits)

lemma cancel_step:
  "ok s \<Longrightarrow> legal_step stored peers (\<lambda>cur d. d = dst \<and> cur \<notin> v_terminal v) eid s
     (snd (cancel v writer eid dst actor tid ex s))"
  unfolding snd_verb
  by (erule writer_step) (auto simp: cancel_decide_def is_terminal_def split: if_splits)

text \<open>Outcomes of the verbs.\<close>

lemma transition_returns:
  assumes ok: "ok s" and "transition v writer eid dst actor tid ex s = (Inr e, s')"
  shows "e = dst"
proof (cases "writer eid (transition_decide v eid dst actor tid ex) s" rule: prod.exhaust)
  case (Pair out s1)
  from ok Pair show ?thesis
  proof (cases rule: writer_cases)
    case (applied x cur d e r seen)
    then have "d = dst" by (auto simp: transition_decide_def split: if_splits)
    with applied Pair assms show ?thesis by (simp add: transition_def)
  qed (use assms Pair in \<open>auto simp: transition_def split: option.splits if_splits\<close>)
qed

lemma soft_verbs_never_raise:
  assumes ok: "ok s"
  shows "\<exists>r s'. advance v writer eid dst from actor tid ex s = (Inr r, s')"
  "\<exists>r s'. converge v writer eid dst actor ov tid ex fa fr s = (Inr r, s')"
proof -
  show "\<exists>r s'. advance v writer eid dst from actor tid ex s = (Inr r, s')"
  proof (cases "writer eid (advance_decide v eid dst from actor tid ex) s" rule: prod.exhaust)
    case (Pair out s1)
    from ok Pair show ?thesis
    proof (cases rule: writer_cases)
      case (raised e)
      then show ?thesis by (auto simp: advance_decide_def split: option.splits if_splits)
    qed (use Pair in \<open>auto simp: advance_def\<close>)
  qed
  show "\<exists>r s'. converge v writer eid dst actor ov tid ex fa fr s = (Inr r, s')"
  proof (cases "writer eid (converge_decide v eid dst actor ov tid ex fa fr) s" rule: prod.exhaust)
    case (Pair out s1)
    from ok Pair show ?thesis
    proof (cases rule: writer_cases)
      case (raised e)
      then show ?thesis by (auto simp: converge_decide_def split: option.splits if_splits)
    qed (use Pair in \<open>auto simp: converge_def split: option.splits\<close>)
  qed
qed

lemma cancel_outcome:
  assumes ok: "ok s"
  shows "(\<exists>s'. cancel v writer eid c actor tid ex s = (Inl (EntityNotFound (v_name v) eid), s')) \<or>
   (\<exists>r s'. cancel v writer eid c actor tid ex s = (Inr r, s') \<and>
      cr_applied r \<noteq> cr_already_terminal r \<and> (cr_applied r \<longrightarrow> cr_state r = c))"
proof (cases "writer eid (cancel_decide v eid c actor tid ex) s" rule: prod.exhaust)
  case (Pair out s1)
  from ok Pair show ?thesis
  proof (cases rule: writer_cases)
    case (raised e)
    then show ?thesis by (auto simp: cancel_decide_def split: option.splits if_splits)
  qed (use Pair in \<open>auto simp: cancel_def Let_def split: option.splits\<close>)
qed

text \<open>A write is never silent: whatever verb applied it, one audit row is appended with it.\<close>

lemma writer_audit:
  assumes ok: "ok s" and w: "writer eid d s = (Inr (True, st, seen), s')"
    and rec: "\<And>cur dst ex r. d (Some cur) = Proceed dst ex r \<Longrightarrow> r \<noteq> None"
  shows "\<exists>x q. peers s x \<and> trail s' = trail x @ [render x eid q]"
  using ok w
proof (cases rule: writer_cases)
  case (applied x cur dst ex r seen)
  with rec obtain q where "r = Some q" by blast
  with applied show ?thesis by auto
qed auto

end

end
