(* ===== verification/Task_State.thy ===== *)
theory Task_State
  imports Transitions
begin

text \<open>
  The task state machine of \<^verbatim>\<open>common/state.py\<close>: the enumeration \<open>TaskState\<close> of
  \<^verbatim>\<open>common/schemas.py\<close>, its edge table, the vocabulary registered with the transition
  authority, and the \<open>TaskFSM\<close> wrapper with the histories its runs can produce.
\<close>

datatype task_state =
    CREATED | CLASSIFIED | PRIVACY_CHECKED | ELIGIBLE_PROVIDERS_COMPUTED | QUEUED | DISPATCHED
  | RUNNING | ARTIFACTS_WRITTEN | CHECKS_RUN | REVIEW_READY | APPROVED | REJECTED | RETRY
  | COMPLETE | CANCELLED | FAILED

fun task_state_value :: "task_state \<Rightarrow> string" where
  "task_state_value CREATED = ''CREATED''"
| "task_state_value CLASSIFIED = ''CLASSIFIED''"
| "task_state_value PRIVACY_CHECKED = ''PRIVACY_CHECKED''"
| "task_state_value ELIGIBLE_PROVIDERS_COMPUTED = ''ELIGIBLE_PROVIDERS_COMPUTED''"
| "task_state_value QUEUED = ''QUEUED''"
| "task_state_value DISPATCHED = ''DISPATCHED''"
| "task_state_value RUNNING = ''RUNNING''"
| "task_state_value ARTIFACTS_WRITTEN = ''ARTIFACTS_WRITTEN''"
| "task_state_value CHECKS_RUN = ''CHECKS_RUN''"
| "task_state_value REVIEW_READY = ''REVIEW_READY''"
| "task_state_value APPROVED = ''APPROVED''"
| "task_state_value REJECTED = ''REJECTED''"
| "task_state_value RETRY = ''RETRY''"
| "task_state_value COMPLETE = ''COMPLETE''"
| "task_state_value CANCELLED = ''CANCELLED''"
| "task_state_value FAILED = ''FAILED''"

fun allowed_table :: "task_state \<Rightarrow> task_state set" where
  "allowed_table CREATED = {CLASSIFIED}"
| "allowed_table CLASSIFIED = {PRIVACY_CHECKED}"
| "allowed_table PRIVACY_CHECKED = {ELIGIBLE_PROVIDERS_COMPUTED, REJECTED}"
| "allowed_table ELIGIBLE_PROVIDERS_COMPUTED = {QUEUED, REJECTED}"
| "allowed_table QUEUED = {DISPATCHED}"
| "allowed_table DISPATCHED = {RUNNING}"
| "allowed_table RUNNING = {ARTIFACTS_WRITTEN, FAILED}"
| "allowed_table ARTIFACTS_WRITTEN = {CHECKS_RUN}"
| "allowed_table CHECKS_RUN = {REVIEW_READY}"
| "allowed_table REVIEW_READY = {APPROVED, REJECTED, RETRY}"
| "allowed_table APPROVED = {COMPLETE}"
| "allowed_table REJECTED = {COMPLETE, RETRY}"
| "allowed_table RETRY = {QUEUED}"
| "allowed_table COMPLETE = {}"
| "allowed_table CANCELLED = {}"
| "allowed_table FAILED = {}"

definition TERMINAL_STATES :: "task_state set" where
  "TERMINAL_STATES = {COMPLETE, CANCELLED, FAILED}"

definition TASK_STATE_VOCAB :: "task_state vocabulary" where
  "TASK_STATE_VOCAB =
    \<lparr>v_name = ''task_state'', v_value = task_state_value, v_column = ''state'',
     v_edges = (\<lambda>k. Some (allowed_table k)), v_terminal = TERMINAL_STATES,
     v_universal = {CANCELLED}\<rparr>"

definition allowed_transitions :: "task_state \<Rightarrow> task_state set" where
  "allowed_transitions state =
    (let base = allowed_table state
     in if state \<notin> TERMINAL_STATES then insert CANCELLED base else base)"

definition can_transition :: "task_state \<Rightarrow> task_state \<Rightarrow> bool" where
  "can_transition src dst \<longleftrightarrow> dst \<in> allowed_transitions src"

definition assert_transition :: "task_state \<Rightarrow> task_state \<Rightarrow> exc + unit" where
  "assert_transition src dst =
    (if \<not> can_transition src dst
     then Inl (IllegalTransition ''task_state'' ''<unbound>''
                 (task_state_value src) (task_state_value dst))
     else Inr ())"

record task_fsm =
  fsm_state :: task_state
  fsm_history :: "task_state list"

definition fsm_new :: "task_state \<Rightarrow> task_fsm" where
  "fsm_new state = \<lparr>fsm_state = state, fsm_history = [state]\<rparr>"

definition fsm_to :: "task_fsm \<Rightarrow> task_state \<Rightarrow> exc + task_fsm" where
  "fsm_to m dst =
    (case assert_transition (fsm_state m) dst of
       Inl e \<Rightarrow> Inl e
     | Inr _ \<Rightarrow> Inr (m\<lparr>fsm_state := dst, fsm_history := fsm_history m @ [dst]\<rparr>))"

definition fsm_is_terminal :: "task_fsm \<Rightarrow> bool" where
  "fsm_is_terminal m \<longleftrightarrow> fsm_state m \<in> TERMINAL_STATES"

fun fsm_run :: "task_fsm \<Rightarrow> task_state list \<Rightarrow> exc + task_fsm" where
  "fsm_run m [] = Inr m"
| "fsm_run m (d # ds) = (case fsm_to m d of Inl e \<Rightarrow> Inl e | Inr m' \<Rightarrow> fsm_run m' ds)"

lemma task_state_value_inj: "task_state_value a = task_state_value b \<longleftrightarrow> a = b"
  by (cases a; cases b) simp_all

lemma vocab_sel [simp]:
  "v_terminal TASK_STATE_VOCAB = TERMINAL_STATES" "v_universal TASK_STATE_VOCAB = {CANCELLED}"
  "v_edges TASK_STATE_VOCAB = (\<lambda>k. Some (allowed_table k))" "v_name TASK_STATE_VOCAB = ''task_state''"
  "v_value TASK_STATE_VOCAB = task_state_value" "v_column TASK_STATE_VOCAB = ''state''"
  by (simp_all add: TASK_STATE_VOCAB_def)

lemma terminal_simps [simp]:
  "s \<in> TERMINAL_STATES \<longleftrightarrow> s = COMPLETE \<or> s = CANCELLED \<or> s = FAILED"
  by (auto simp: TERMINAL_STATES_def)

lemma fsm_to_Inr_iff:
  "fsm_to m dst = Inr m' \<longleftrightarrow> dst \<in> allowed_transitions (fsm_state m)
     \<and> m' = m\<lparr>fsm_state := dst, fsm_history := fsm_history m @ [dst]\<rparr>"
  by (auto simp: fsm_to_def assert_transition_def can_transition_def)

lemma allowed_transitions_terminal [simp]:
  "s \<in> TERMINAL_STATES \<Longrightarrow> allowed_transitions s = {}"
  by (auto simp: allowed_transitions_def)

text \<open>
  \<open>P\<close> holds along a run of the machine when it holds at its start and every edge keeps it.
\<close>

lemma fsm_run_invariant:
  assumes "fsm_run m ds = Inr m'" and "P m"
    and "\<And>m d m'. fsm_to m d = Inr m' \<Longrightarrow> P m \<Longrightarrow> P m'"
  shows "P m'"
  using assms(1,2)
proof (induction ds arbitrary: m)
  case (Cons d ds)
  then show ?case using assms(3) by (auto split: sum.splits)
qed simp

definition gate_inv :: "task_fsm \<Rightarrow> bool" where
  "gate_inv m \<longleftrightarrow>
    fsm_history m \<noteq> [] \<and> last (fsm_history m) = fsm_state m
    \<and> (fsm_history m \<in> {[CREATED], [CREATED, CLASSIFIED], [CREATED, CANCELLED],
                         [CREATED, CLASSIFIED, CANCELLED]}
       \<or> take 3 (fsm_history m) = [CREATED, CLASSIFIED, PRIVACY_CHECKED])
    \<and> (\<forall>s \<in> set (butlast (fsm_history m)). s \<notin> TERMINAL_STATES)"

lemma fsm_to_gate_inv: "fsm_to m d = Inr m' \<Longrightarrow> gate_inv m \<Longrightarrow> gate_inv m'"
proof -
  assume to: "fsm_to m d = Inr m'" and inv: "gate_inv m"
  let ?h = "fsm_history m"
  have m': "fsm_history m' = ?h @ [d]" "fsm_state m' = d" and e: "d \<in> allowed_transitions (fsm_state m)"
    using to by (auto simp: fsm_to_Inr_iff)
  from e have nt: "fsm_state m \<notin> TERMINAL_STATES" by (cases "fsm_state m") (auto simp: allowed_transitions_def)
  have len: "take 3 (?h @ [d]) = take 3 ?h" if "take 3 ?h = [CREATED, CLASSIFIED, PRIVACY_CHECKED]"
  proof -
    from that have "length (take 3 ?h) = 3" by simp
    then show ?thesis by simp
  qed
  have "?h @ [d] \<in> {[CREATED], [CREATED, CLASSIFIED], [CREATED, CANCELLED],
                         [CREATED, CLASSIFIED, CANCELLED]}
       \<or> take 3 (?h @ [d]) = [CREATED, CLASSIFIED, PRIVACY_CHECKED]"
  proof -
    consider "?h = [CREATED]" | "?h = [CREATED, CLASSIFIED]" | "?h = [CREATED, CANCELLED]"
      | "?h = [CREATED, CLASSIFIED, CANCELLED]" | "take 3 ?h = [CREATED, CLASSIFIED, PRIVACY_CHECKED]"
      using inv unfolding gate_inv_def by blast
    then show ?thesis
    proof cases
      case 1
      with inv have "fsm_state m = CREATED" by (simp add: gate_inv_def)
      with e 1 show ?thesis by (auto simp: allowed_transitions_def)
    next
      case 2
      with inv have "fsm_state m = CLASSIFIED" by (simp add: gate_inv_def)
      with e 2 show ?thesis by (auto simp: allowed_transitions_def)
    qed (use inv nt len in \<open>simp_all add: gate_inv_def\<close>)
  qed
  moreover have "\<forall>s \<in> set ?h. s \<notin> TERMINAL_STATES"
    using inv nt by (cases ?h rule: rev_cases) (auto simp: gate_inv_def)
  ultimately show ?thesis by (simp add: gate_inv_def m')
qed

text \<open>
  The task machine gates execution on privacy: in every history a \<open>TaskFSM\<close> started at
  CREATED can have, each step is an edge of the table, a terminal state is only ever the last
  one, and a task that is anywhere but CREATED, CLASSIFIED or CANCELLED went through CREATED,
  CLASSIFIED and PRIVACY_CHECKED first, in this order.
\<close>

theorem task_fsm_privacy_gate:
  assumes "fsm_run (fsm_new CREATED) ds = Inr m"
  shows "last (fsm_history m) = fsm_state m
    \<and> (\<forall>s \<in> set (butlast (fsm_history m)). s \<notin> TERMINAL_STATES)
    \<and> (fsm_state m \<in> {CREATED, CLASSIFIED, CANCELLED}
       \<or> take 3 (fsm_history m) = [CREATED, CLASSIFIED, PRIVACY_CHECKED])"
proof -
  have "gate_inv (fsm_new CREATED)" by (simp add: gate_inv_def fsm_new_def)
  with assms have "gate_inv m" by (rule fsm_run_invariant) (rule fsm_to_gate_inv)
  then have l: "last (fsm_history m) = fsm_state m"
    and t: "\<forall>s \<in> set (butlast (fsm_history m)). s \<notin> TERMINAL_STATES"
    and d: "fsm_history m \<in> {[CREATED], [CREATED, CLASSIFIED], [CREATED, CANCELLED],
                              [CREATED, CLASSIFIED, CANCELLED]}
      \<or> take 3 (fsm_history m) = [CREATED, CLASSIFIED, PRIVACY_CHECKED]"
    unfolding gate_inv_def by blast+
  have "last (fsm_history m) \<in> {CREATED, CLASSIFIED, CANCELLED}"
    if "fsm_history m \<in> {[CREATED], [CREATED, CLASSIFIED], [CREATED, CANCELLED],
                          [CREATED, CLASSIFIED, CANCELLED]}"
    using that by (elim insertE) simp_all
  with l t d show ?thesis by metis
qed

theorem task_fsm_privacy_gate_witness:
  "\<exists>m. fsm_run (fsm_new CREATED) [CLASSIFIED, PRIVACY_CHECKED, ELIGIBLE_PROVIDERS_COMPUTED, QUEUED] = Inr m
    \<and> fsm_state m = QUEUED \<and> take 3 (fsm_history m) = [CREATED, CLASSIFIED, PRIVACY_CHECKED]"
proof -
  let ?ds = "[CLASSIFIED, PRIVACY_CHECKED, ELIGIBLE_PROVIDERS_COMPUTED, QUEUED]"
  have "\<exists>m. fsm_run (fsm_new CREATED) ?ds = Inr m \<and> fsm_state m = QUEUED"
    by (simp add: fsm_new_def fsm_to_def assert_transition_def can_transition_def allowed_transitions_def Let_def)
  then obtain m where m: "fsm_run (fsm_new CREATED) ?ds = Inr m" "fsm_state m = QUEUED" by blast
  from task_fsm_privacy_gate [OF m(1)] m show ?thesis by auto
qed

end
