(* ===== verification/Shared_Memory.thy ===== *)
theory Shared_Memory
  imports Task_State
begin

text \<open>
  The SQLite store of \<^verbatim>\<open>common/memory.py\<close>: its tables as lists of rows in insertion order,
  the operations of \<open>SharedMemory\<close>, and \<open>transition_task\<close>, the \<open>LockedWriter\<close> of the column
  \<open>tasks.state\<close>, with the writes that other processes may commit between its read and its
  guarded update as the parameter \<open>env\<close>. A store also carries the wall clock the call reads, the
  stream of \<open>uuid4\<close> values it draws from and the events handed to the bus bridge.
\<close>

section \<open>Rows and store\<close>

record task_row =
  t_id :: string
  t_state :: task_state
  t_cols :: "string \<rightharpoonup> col"

record artifact_row =
  a_id :: string
  a_task_id :: "string option"
  a_kind :: string
  a_mime :: string
  a_size :: int
  a_content :: string
  a_created :: real

record log_row =
  l_task_id :: string
  l_level :: string
  l_message :: string
  l_created :: real

record decision_row =
  d_task_id :: string
  d_decision :: string
  d_created :: real

record quota_row =
  q_provider :: string
  q_task_id :: string
  q_est_input :: int
  q_est_output :: int
  q_act_input :: int
  q_act_output :: int
  q_requests :: int
  q_est_cost_usd :: real
  q_act_cost_usd :: real
  q_status :: string
  q_failure_reason :: "string option"
  q_created :: real

record eval_row =
  e_provider :: string
  e_model :: "string option"
  e_task_id :: "string option"
  e_agent_type :: "string option"
  e_status :: string
  e_latency_ms :: "real option"
  e_input_tokens :: "int option"
  e_output_tokens :: "int option"
  e_cost_usd :: "real option"
  e_confidence :: "real option"
  e_retries :: "int option"
  e_created :: real

datatype ticket_status = TkOpen | TkClaimed | TkInReview | TkParked | TkDone | TkFailed | TkCancelled

datatype prov_event =
    PEnqueue string real
  | PPark string real
  | PClaim string "string option" real
  | PReport string "string option" string real
  | PReview string string "string option" real
  | PCascadeFail string real
  | PCancel string real

record ticket =
  ticket_id :: string
  dedup_key :: "string option"
  origin :: string
  task_id :: "string option"
  payload_ref :: "string option"
  privacy_class :: string
  allowed_tiers_col :: "string list"
  required_capabilities :: "string list"
  priority :: string
  status :: ticket_status
  assignee :: "string option"
  lease_holder :: "string option"
  lease_tier :: "string option"
  lease_token :: "string option"
  lease_expires_at :: "real option"
  attempts :: int
  max_attempts :: int
  result_ref :: "string option"
  result_status :: "string option"
  provenance :: "prov_event list"
  park_reason :: "string option"
  created_at :: real
  updated_at :: real
  claimed_at :: "real option"
  completed_at :: "real option"

record bus_event =
  b_event_id :: string
  b_type :: string
  b_outcome :: string
  b_actor :: string
  b_task_id :: "string option"
  b_entity_id :: string
  b_vocabulary :: string
  b_src :: string
  b_dst :: string

record db =
  tasks :: "task_row list"
  artifacts :: "artifact_row list"
  logs :: "log_row list"
  routing_decisions :: "decision_row list"
  quota_records :: "quota_row list"
  evaluations :: "eval_row list"
  settings :: "string \<rightharpoonup> (string \<times> col) list \<times> real"
  work_queue :: "ticket list"
  work_queue_deps :: "(string \<times> string) list"
  bus_bound :: bool
  bus :: "bus_event list"
  clock :: real
  uuids :: "nat \<Rightarrow> string"
  uuid_ctr :: nat

definition empty_db :: "real \<Rightarrow> (nat \<Rightarrow> string) \<Rightarrow> db" where
  "empty_db t us =
    \<lparr>tasks = [], artifacts = [], logs = [], routing_decisions = [], quota_records = [],
     evaluations = [], settings = Map.empty, work_queue = [], work_queue_deps = [],
     bus_bound = False, bus = [], clock = t, uuids = us, uuid_ctr = 0\<rparr>"

text \<open>The uniqueness constraints of the schema: primary keys and the partial index on \<open>dedup_key\<close>.\<close>

definition schema_ok :: "db \<Rightarrow> bool" where
  "schema_ok s \<longleftrightarrow>
    keys_distinct t_id (tasks s) \<and> keys_distinct a_id (artifacts s)
    \<and> keys_distinct ticket_id (work_queue s)
    \<and> distinct (filter (\<lambda>k. k \<noteq> None) (map dedup_key (work_queue s)))
    \<and> distinct (work_queue_deps s)"

section \<open>Identifiers and the bus bridge\<close>

definition draw :: "db \<Rightarrow> string \<times> db" where
  "draw s = (uuids s (uuid_ctr s), s\<lparr>uuid_ctr := Suc (uuid_ctr s)\<rparr>)"

definition new_id :: "string \<Rightarrow> db \<Rightarrow> string \<times> db" where
  "new_id prefix s = (case draw s of (h, s') \<Rightarrow> (prefix @ ''_'' @ take 12 h, s'))"

definition bind_event_bus :: "bool \<Rightarrow> db \<Rightarrow> db" where
  "bind_event_bus sink s = s\<lparr>bus_bound := sink\<rparr>"

definition emit_bus_event ::
  "string \<Rightarrow> string \<Rightarrow> string \<Rightarrow> string option \<Rightarrow> string \<Rightarrow> string \<Rightarrow> string \<Rightarrow> string \<Rightarrow> db \<Rightarrow> db" where
  "emit_bus_event typ outcome actor task entity vocab src dst s =
    (if \<not> bus_bound s then s
     else (case draw s of (h, s') \<Rightarrow>
       s'\<lparr>bus := bus s' @ [\<lparr>b_event_id = ''event_'' @ take 12 h, b_type = typ, b_outcome = outcome,
            b_actor = actor, b_task_id = task, b_entity_id = entity, b_vocabulary = vocab,
            b_src = src, b_dst = dst\<rparr>]\<rparr>))"

section \<open>Tasks\<close>

definition create_task :: "string \<Rightarrow> string option \<Rightarrow> db \<Rightarrow> (exc + string) \<times> db" where
  "create_task submission_json agent_type s =
    (case new_id ''task'' s of (tid, s1) \<Rightarrow>
       if tid \<in> t_id ` set (tasks s1) then (Inl IntegrityError, s1)
       else (Inr tid, s1\<lparr>tasks := tasks s1 @
         [\<lparr>t_id = tid, t_state = CREATED,
           t_cols = [''agent_type'' \<mapsto> (case agent_type of None \<Rightarrow> CNull | Some a \<Rightarrow> CText a),
                     ''submission'' \<mapsto> CText submission_json, ''risks'' \<mapsto> CText ''[]'',
                     ''created_at'' \<mapsto> CReal (clock s1), ''updated_at'' \<mapsto> CReal (clock s1)]\<rparr>]\<rparr>))"

definition set_cols :: "(string \<times> col) list \<Rightarrow> task_row \<Rightarrow> task_row" where
  "set_cols flds r = r\<lparr>t_cols := t_cols r ++ map_of flds\<rparr>"

definition update_task :: "string \<Rightarrow> (string \<times> col) list \<Rightarrow> db \<Rightarrow> (exc + unit) \<times> db" where
  "update_task tid flds s =
    (if flds = [] then (Inr (), s)
     else if ''state'' \<in> fst ` set flds then
       (Inl (ValueError ''tasks.state must go through TransitionAuthority (SharedMemory.transition_task), not update_task()''), s)
     else
       (let flds' = AList.update ''updated_at'' (CReal (clock s)) flds
        in (Inr (), s\<lparr>tasks := upd_where (\<lambda>r. t_id r = tid) (set_cols flds') (tasks s)\<rparr>)))"

definition get_task :: "db \<Rightarrow> string \<Rightarrow> task_row option" where
  "get_task s tid = row_of t_id tid (tasks s)"

definition task_state_of :: "db \<Rightarrow> string \<Rightarrow> task_state option" where
  "task_state_of s tid = map_option t_state (row_of t_id tid (tasks s))"

definition delete_task_cascade :: "string \<Rightarrow> db \<Rightarrow> db" where
  "delete_task_cascade tid s =
    s\<lparr>artifacts := filter (\<lambda>r. a_task_id r \<noteq> Some tid) (artifacts s),
      logs := filter (\<lambda>r. l_task_id r \<noteq> tid) (logs s),
      routing_decisions := filter (\<lambda>r. d_task_id r \<noteq> tid) (routing_decisions s),
      tasks := filter (\<lambda>r. t_id r \<noteq> tid) (tasks s)\<rparr>"

section \<open>The locked writer of \<open>tasks.state\<close>\<close>

definition transition_log_row :: "db \<Rightarrow> string \<Rightarrow> transition_record \<Rightarrow> log_row" where
  "transition_log_row s tid r =
    \<lparr>l_task_id = tid, l_level = (if tr_outcome r = ''refused'' then ''warn'' else ''info''),
     l_message = (case tr_message r of Some m \<Rightarrow> m | None \<Rightarrow> default_message r),
     l_created = clock s\<rparr>"

definition insert_transition_log :: "string \<Rightarrow> transition_record \<Rightarrow> db \<Rightarrow> db" where
  "insert_transition_log tid r s = s\<lparr>logs := logs s @ [transition_log_row s tid r]\<rparr>"

text \<open>A commit of another process that would break the schema is refused by the database.\<close>

definition peer_commit :: "(nat \<Rightarrow> db \<Rightarrow> db) \<Rightarrow> nat \<Rightarrow> db \<Rightarrow> db" where
  "peer_commit env n s = (let x = env n s in if schema_ok x then x else s)"

fun transition_task_loop ::
  "nat \<Rightarrow> (nat \<Rightarrow> db \<Rightarrow> db) \<Rightarrow> string \<Rightarrow> task_state decide_fn \<Rightarrow> task_state list \<Rightarrow> db
    \<Rightarrow> (exc + (bool \<times> task_state option \<times> task_state list)) \<times> db" where
  "transition_task_loop 0 env tid decide seen s = (Inr (False, task_state_of s tid, seen), s)"
| "transition_task_loop (Suc n) env tid decide seen s =
    (let current_raw = task_state_of s tid;
         seen' = seen @ (case current_raw of None \<Rightarrow> [] | Some c \<Rightarrow> [c])
     in case decide current_raw of
          Raise e \<Rightarrow> (Inl e, s)
        | Hold record \<Rightarrow>
            (Inr (False, current_raw, seen'),
             (case record of None \<Rightarrow> s | Some r \<Rightarrow> insert_transition_log tid r s))
        | Proceed dst flds record \<Rightarrow>
            (let s1 = peer_commit env n s;
                 write = AList.update ''updated_at'' (CReal (clock s1)) flds;
                 hit = (\<lambda>r. t_id r = tid \<and> Some (t_state r) = current_raw)
             in if rowcount hit (tasks s1) \<noteq> 1 then transition_task_loop n env tid decide seen' s1
                else
                  (let s2 = s1\<lparr>tasks := upd_where hit (\<lambda>r. set_cols write (r\<lparr>t_state := dst\<rparr>)) (tasks s1)\<rparr>;
                       s3 = (case record of None \<Rightarrow> s2 | Some r \<Rightarrow> insert_transition_log tid r s2);
                       s4 = (case record of None \<Rightarrow> s3
                             | Some r \<Rightarrow>
                                 if tr_outcome r = ''applied''
                                 then emit_bus_event ''state.changed'' (tr_outcome r) (tr_actor r)
                                        (Some tid) tid (tr_vocabulary r) (tr_src r) (tr_dst r) s3
                                 else s3)
                   in (Inr (True, Some dst, seen'), s4))))"

definition transition_task ::
  "(nat \<Rightarrow> db \<Rightarrow> db) \<Rightarrow> (task_state, db) locked_writer_fn" where
  "transition_task env tid decide s = transition_task_loop 3 env tid decide [] s"

text \<open>No other process writes: the store a single broker process sees.\<close>

definition no_peers :: "nat \<Rightarrow> db \<Rightarrow> db" where
  "no_peers n s = s"

section \<open>Artifacts\<close>

definition put_artifact ::
  "string option \<Rightarrow> string \<Rightarrow> string \<Rightarrow> string \<Rightarrow> db \<Rightarrow> (exc + string) \<times> db" where
  "put_artifact task kind content mime s =
    (case new_id ''artifact'' s of (aid, s1) \<Rightarrow>
       if aid \<in> a_id ` set (artifacts s1) then (Inl IntegrityError, s1)
       else (Inr aid, s1\<lparr>artifacts := artifacts s1 @
         [\<lparr>a_id = aid, a_task_id = task, a_kind = kind, a_mime = mime,
           a_size = int (length content), a_content = content, a_created = clock s1\<rparr>]\<rparr>))"

definition delete_artifact :: "string \<Rightarrow> db \<Rightarrow> db" where
  "delete_artifact aid s = s\<lparr>artifacts := filter (\<lambda>r. a_id r \<noteq> aid) (artifacts s)\<rparr>"

record artifact_chunk =
  ch_artifact_id :: string
  ch_offset :: int
  ch_max_chars :: int
  ch_content :: string
  ch_total_size :: int
  ch_next_offset :: "int option"

definition read_artifact_chunk :: "db \<Rightarrow> string \<Rightarrow> int \<Rightarrow> int \<Rightarrow> artifact_chunk option" where
  "read_artifact_chunk s aid offset max_chars =
    (case row_of a_id aid (artifacts s) of
       None \<Rightarrow> None
     | Some row \<Rightarrow>
         (let total = a_size row;
              off = max 0 offset;
              chunk = py_slice (a_content row) off (off + max_chars);
              next = off + int (length chunk)
          in Some \<lparr>ch_artifact_id = aid, ch_offset = off, ch_max_chars = max_chars,
                   ch_content = chunk, ch_total_size = total,
                   ch_next_offset = (if next < total then Some next else None)\<rparr>))"

definition task_artifacts :: "db \<Rightarrow> string \<Rightarrow> (string \<times> string) list" where
  "task_artifacts s tid =
    fold (\<lambda>r m. AList.update (a_kind r) (a_id r) m)
      (sort_key a_created (filter (\<lambda>r. a_task_id r = Some tid) (artifacts s))) []"

section \<open>Logs and routing decisions\<close>

definition append_log :: "string \<Rightarrow> string \<Rightarrow> string \<Rightarrow> db \<Rightarrow> db" where
  "append_log tid message level s =
    s\<lparr>logs := logs s @ [\<lparr>l_task_id = tid, l_level = level, l_message = message, l_created = clock s\<rparr>]\<rparr>"

definition record_routing_decision :: "string \<Rightarrow> string \<Rightarrow> db \<Rightarrow> db" where
  "record_routing_decision tid decision_json s =
    s\<lparr>routing_decisions := routing_decisions s @
        [\<lparr>d_task_id = tid, d_decision = decision_json, d_created = clock s\<rparr>]\<rparr>"

definition get_routing_decisions :: "db \<Rightarrow> string \<Rightarrow> string list" where
  "get_routing_decisions s tid =
    map d_decision (sort_key d_created (filter (\<lambda>r. d_task_id r = tid) (routing_decisions s)))"

section \<open>Evaluations\<close>

text \<open>The column \<open>provider\<close> is NOT NULL: a record without one raises.\<close>

record eval_record =
  ev_provider :: "string option"
  ev_model :: "string option"
  ev_task_id :: "string option"
  ev_agent_type :: "string option"
  ev_status :: string
  ev_latency_ms :: "real option"
  ev_input_tokens :: "int option"
  ev_output_tokens :: "int option"
  ev_cost_usd :: "real option"
  ev_confidence :: "real option"
  ev_retries :: "int option"

definition record_evaluation :: "eval_record \<Rightarrow> db \<Rightarrow> (exc + unit) \<times> db" where
  "record_evaluation r s =
    (case ev_provider r of
       None \<Rightarrow> (Inl IntegrityError, s)
     | Some p \<Rightarrow> (Inr (), s\<lparr>evaluations := evaluations s @
         [\<lparr>e_provider = p, e_model = ev_model r, e_task_id = ev_task_id r,
           e_agent_type = ev_agent_type r, e_status = ev_status r, e_latency_ms = ev_latency_ms r,
           e_input_tokens = ev_input_tokens r, e_output_tokens = ev_output_tokens r,
           e_cost_usd = ev_cost_usd r, e_confidence = ev_confidence r, e_retries = ev_retries r,
           e_created = clock s\<rparr>]\<rparr>))"

section \<open>Quota records and settings\<close>

definition record_quota_usage :: "(real \<Rightarrow> quota_row) \<Rightarrow> db \<Rightarrow> db" where
  "record_quota_usage row s = s\<lparr>quota_records := quota_records s @ [row (clock s)]\<rparr>"

record usage =
  u_requests :: int
  u_tokens :: int
  u_cost :: real

definition quota_usage_since :: "db \<Rightarrow> string \<Rightarrow> real \<Rightarrow> usage" where
  "quota_usage_since s provider since =
    (let rows = filter (\<lambda>r. q_provider r = provider \<and> q_created r \<ge> since
                          \<and> q_status r \<noteq> ''reserved'') (quota_records s)
     in \<lparr>u_requests = sum_list (map q_requests rows),
         u_tokens = sum_list (map (\<lambda>r. q_act_input r + q_act_output r) rows),
         u_cost = sum_list (map q_act_cost_usd rows)\<rparr>)"

definition total_spend_since :: "db \<Rightarrow> real \<Rightarrow> real" where
  "total_spend_since s since =
    sum_list (map q_act_cost_usd
      (filter (\<lambda>r. q_created r \<ge> since \<and> q_status r \<noteq> ''reserved'') (quota_records s)))"

definition set_setting :: "string \<Rightarrow> (string \<times> col) list \<Rightarrow> db \<Rightarrow> db" where
  "set_setting key val s = s\<lparr>settings := (settings s)(key \<mapsto> (val, clock s))\<rparr>"

definition get_setting :: "db \<Rightarrow> string \<Rightarrow> (string \<times> col) list option" where
  "get_setting s key = map_option fst (settings s key)"

section \<open>\<open>transition_task\<close> is a locked writer\<close>

definition peer_runs :: "(nat \<Rightarrow> db \<Rightarrow> db) \<Rightarrow> db \<Rightarrow> db \<Rightarrow> bool" where
  "peer_runs env s x \<longleftrightarrow> (\<exists>ns. x = fold (peer_commit env) ns s)"

lemma peer_runs_refl [simp]: "peer_runs env s s"
  unfolding peer_runs_def by (rule exI [of _ "[]"]) simp

lemma peer_runs_step: "peer_runs env (peer_commit env n s) x \<Longrightarrow> peer_runs env s x"
proof -
  assume "peer_runs env (peer_commit env n s) x"
  then obtain ns where "x = fold (peer_commit env) ns (peer_commit env n s)"
    unfolding peer_runs_def by blast
  then have "x = fold (peer_commit env) (n # ns) s" by simp
  then show ?thesis unfolding peer_runs_def by blast
qed

lemma peer_commit_ok: "schema_ok s \<Longrightarrow> schema_ok (peer_commit env n s)"
  by (simp add: peer_commit_def Let_def)

lemma task_state_of_set_cols [simp]: "t_id (set_cols w r) = t_id r" "t_state (set_cols w r) = t_state r"
  by (simp_all add: set_cols_def)

lemma db_frame_simps [simp]:
  "tasks (insert_transition_log tid r s) = tasks s"
  "tasks (emit_bus_event a b c d e f g h s) = tasks s"
  "logs (emit_bus_event a b c d e f g h s) = logs s"
  "logs (insert_transition_log tid r s) = logs s @ [transition_log_row s tid r]"
  by (simp_all add: insert_transition_log_def emit_bus_event_def draw_def)

lemma task_state_of_cong: "tasks s = tasks s' \<Longrightarrow> task_state_of s = task_state_of s'"
  by (auto simp: task_state_of_def)

lemma task_state_of_hit:
  assumes "schema_ok s" and "rowcount (\<lambda>r. t_id r = tid \<and> Some (t_state r) = cur) (tasks s) = 1"
  shows "task_state_of s tid = cur"
    and "task_state_of (s\<lparr>tasks := upd_where (\<lambda>r. t_id r = tid \<and> Some (t_state r) = cur)
           (\<lambda>r. set_cols w (r\<lparr>t_state := dst\<rparr>)) (tasks s)\<rparr>) = (task_state_of s)(tid \<mapsto> dst)"
proof -
  have d: "keys_distinct t_id (tasks s)" using assms(1) by (simp add: schema_ok_def)
  obtain r where r: "row_of t_id tid (tasks s) = Some r" "Some (t_state r) = cur"
    using assms(2) rowcount_key_1 [OF d, of tid "\<lambda>r. Some (t_state r) = cur"] by blast
  then show "task_state_of s tid = cur" by (simp add: task_state_of_def)
  show "task_state_of (s\<lparr>tasks := upd_where (\<lambda>r. t_id r = tid \<and> Some (t_state r) = cur)
           (\<lambda>r. set_cols w (r\<lparr>t_state := dst\<rparr>)) (tasks s)\<rparr>) = (task_state_of s)(tid \<mapsto> dst)"
  proof
    fix k
    show "task_state_of (s\<lparr>tasks := upd_where (\<lambda>r. t_id r = tid \<and> Some (t_state r) = cur)
           (\<lambda>r. set_cols w (r\<lparr>t_state := dst\<rparr>)) (tasks s)\<rparr>) k = ((task_state_of s)(tid \<mapsto> dst)) k"
    proof (cases "row_of t_id k (tasks s)")
      case None
      with r have "k \<noteq> tid" by auto
      with None show ?thesis by (simp add: task_state_of_def row_of_upd_where)
    next
      case (Some q)
      then have "t_id q = k" by (blast dest: row_of_SomeD)
      then show ?thesis using Some r by (cases "k = tid") (simp_all add: task_state_of_def row_of_upd_where)
    qed
  qed
qed


lemma transition_task_loop_applied:
  assumes "schema_ok s" and "transition_task_loop n env tid d seen s = (Inr (True, st, seen'), s')"
  shows "\<exists>x cur dst ex r. peer_runs env s x \<and> task_state_of x tid = Some cur
    \<and> d (Some cur) = Proceed dst ex r \<and> st = Some dst \<and> seen' \<noteq> [] \<and> last seen' = cur
    \<and> task_state_of s' = (task_state_of x)(tid \<mapsto> dst)
    \<and> logs s' = logs x @ (case r of None \<Rightarrow> [] | Some q \<Rightarrow> [transition_log_row x tid q])"
  using assms
proof (induction n arbitrary: s seen)
  case 0
  then show ?case by simp
next
  case (Suc n)
  let ?cur = "task_state_of s tid" and ?x = "peer_commit env n s"
  let ?hit = "\<lambda>r. t_id r = tid \<and> Some (t_state r) = ?cur"
  have ok: "schema_ok ?x" using Suc.prems(1) by (rule peer_commit_ok)
  from Suc.prems(2) obtain dst ex r where d: "d ?cur = Proceed dst ex r"
    by (cases "d ?cur") (simp_all add: Let_def)
  show ?case
  proof (cases "rowcount ?hit (tasks ?x) = 1")
    case False
    with Suc.prems d have "transition_task_loop n env tid d
        (seen @ (case ?cur of None \<Rightarrow> [] | Some c \<Rightarrow> [c])) ?x = (Inr (True, st, seen'), s')"
      by (simp add: Let_def)
    from Suc.IH [OF ok this] show ?thesis using peer_runs_step by blast
  next
    case True
    note h = task_state_of_hit [OF ok True]
    then obtain c where c: "?cur = Some c"
      using True by (cases ?cur) (auto simp: rowcount_def)
    have "seen' = seen @ [c] \<and> st = Some dst"
      and t: "tasks s' = upd_where ?hit (\<lambda>r. set_cols
             (AList.update ''updated_at'' (CReal (clock ?x)) ex) (r\<lparr>t_state := dst\<rparr>)) (tasks ?x)"
      and l: "logs s' = logs ?x @ (case r of None \<Rightarrow> [] | Some q \<Rightarrow> [transition_log_row ?x tid q])"
      using Suc.prems(2) d True c
      by (auto simp: Let_def transition_log_row_def split: option.splits if_splits)
    moreover have "peer_runs env s ?x" using peer_runs_step peer_runs_refl by blast
    moreover have "task_state_of s' = (task_state_of ?x)(tid \<mapsto> dst)"
      using h(2) [of "AList.update ''updated_at'' (CReal (clock ?x)) ex" dst] t
      by (simp add: task_state_of_def fun_eq_iff)
    ultimately show ?thesis using h(1) d c by (intro exI conjI) auto
  qed
qed

lemma transition_task_loop_held:
  assumes "schema_ok s" and "transition_task_loop n env tid d seen s = (Inr (False, st, seen'), s')"
  shows "(\<exists>x r. peer_runs env s x \<and> d (task_state_of x tid) = Hold r \<and> st = task_state_of x tid
      \<and> task_state_of s' = task_state_of x \<and> (st \<noteq> None \<longrightarrow> seen' \<noteq> [] \<and> Some (last seen') = st)
      \<and> logs s' = logs x @ (case r of None \<Rightarrow> [] | Some q \<Rightarrow> [transition_log_row x tid q]))
    \<or> (peer_runs env s s' \<and> (\<exists>y. peer_runs env s y \<and> st = task_state_of y tid))"
  using assms
proof (induction n arbitrary: s seen)
  case 0
  then have "s' = s" "st = task_state_of s tid" by auto
  then show ?case using peer_runs_refl by blast
next
  case (Suc n)
  let ?cur = "task_state_of s tid" and ?x = "peer_commit env n s"
  show ?case
  proof (cases "d ?cur")
    case (Proceed dst ex r)
    with Suc.prems have "transition_task_loop n env tid d
        (seen @ (case ?cur of None \<Rightarrow> [] | Some c \<Rightarrow> [c])) ?x = (Inr (False, st, seen'), s')"
      by (simp add: Let_def split: if_splits)
    from Suc.IH [OF peer_commit_ok [OF Suc.prems(1)] this] show ?thesis
      using peer_runs_step by blast
  next
    case (Hold r)
    with Suc.prems(2) have "st = ?cur" "seen' = seen @ (case ?cur of None \<Rightarrow> [] | Some c \<Rightarrow> [c])"
      "tasks s' = tasks s"
      "logs s' = logs s @ (case r of None \<Rightarrow> [] | Some q \<Rightarrow> [transition_log_row s tid q])"
      by (auto simp: Let_def split: option.splits)
    then show ?thesis using Hold peer_runs_refl task_state_of_cong [of s' s]
      by (intro disjI1 exI [of _ s] exI [of _ r]) (auto split: option.splits)
  next
    case (Raise e)
    with Suc.prems(2) show ?thesis by (simp add: Let_def)
  qed
qed

lemma transition_task_loop_raised:
  assumes "schema_ok s" and "transition_task_loop n env tid d seen s = (Inl e, s')"
  shows "peer_runs env s s' \<and> d (task_state_of s' tid) = Raise e"
  using assms
proof (induction n arbitrary: s seen)
  case 0
  then show ?case by simp
next
  case (Suc n)
  show ?case
  proof (cases "d (task_state_of s tid)")
    case (Proceed dst ex r)
    with Suc.prems have "\<exists>sn. transition_task_loop n env tid d sn (peer_commit env n s) = (Inl e, s')"
      by (auto simp: Let_def split: if_splits)
    then show ?thesis using Suc.IH peer_commit_ok [OF Suc.prems(1)] peer_runs_step by blast
  qed (use Suc.prems in \<open>auto simp: Let_def\<close>)
qed

interpretation tasks_writer: locked_writer task_state_of logs transition_log_row "peer_runs env"
    schema_ok "transition_task env" for env
proof
  fix s eid d st seen s'
  assume ok: "schema_ok s"
  show "transition_task env eid d s = (Inr (True, st, seen), s') \<Longrightarrow>
    \<exists>x cur dst ex r. peer_runs env s x \<and> task_state_of x eid = Some cur
      \<and> d (Some cur) = Proceed dst ex r \<and> st = Some dst \<and> seen \<noteq> [] \<and> last seen = cur
      \<and> task_state_of s' = (task_state_of x)(eid \<mapsto> dst)
      \<and> logs s' = logs x @ (case r of None \<Rightarrow> [] | Some q \<Rightarrow> [transition_log_row x eid q])"
    unfolding transition_task_def by (rule transition_task_loop_applied [OF ok])
  show "transition_task env eid d s = (Inr (False, st, seen), s') \<Longrightarrow>
    (\<exists>x r. peer_runs env s x \<and> d (task_state_of x eid) = Hold r \<and> st = task_state_of x eid
      \<and> task_state_of s' = task_state_of x \<and> (st \<noteq> None \<longrightarrow> seen \<noteq> [] \<and> Some (last seen) = st)
      \<and> logs s' = logs x @ (case r of None \<Rightarrow> [] | Some q \<Rightarrow> [transition_log_row x eid q]))
    \<or> (peer_runs env s s' \<and> (\<exists>y. peer_runs env s y \<and> st = task_state_of y eid))"
    unfolding transition_task_def by (rule transition_task_loop_held [OF ok])
next
  fix s eid d e s'
  assume "schema_ok s" and "transition_task env eid d s = (Inl e, s')"
  then show "peer_runs env s s' \<and> d (task_state_of s' eid) = Raise e"
    unfolding transition_task_def by (rule transition_task_loop_raised)
qed

section \<open>Properties of the task-state writer\<close>

lemma transition_task_quiet:
  assumes d: "keys_distinct t_id (tasks s)"
  shows "transition_task no_peers tid d s =
    (case d (task_state_of s tid) of
       Raise e \<Rightarrow> (Inl e, s)
     | Hold r \<Rightarrow> (Inr (False, task_state_of s tid, (case task_state_of s tid of None \<Rightarrow> [] | Some c \<Rightarrow> [c])),
                  (case r of None \<Rightarrow> s | Some q \<Rightarrow> insert_transition_log tid q s))
     | Proceed dst ex r \<Rightarrow>
         (case task_state_of s tid of
            None \<Rightarrow> (Inr (False, None, []), s)
          | Some cur \<Rightarrow>
             (let s2 = s\<lparr>tasks := upd_where (\<lambda>t. t_id t = tid \<and> Some (t_state t) = Some cur)
                        (\<lambda>t. set_cols (AList.update ''updated_at'' (CReal (clock s)) ex) (t\<lparr>t_state := dst\<rparr>))
                        (tasks s)\<rparr>;
                  s3 = (case r of None \<Rightarrow> s2 | Some q \<Rightarrow> insert_transition_log tid q s2)
              in (Inr (True, Some dst, [cur]),
                  (case r of None \<Rightarrow> s3
                   | Some q \<Rightarrow> if tr_outcome q = ''applied''
                       then emit_bus_event ''state.changed'' (tr_outcome q) (tr_actor q) (Some tid) tid
                              (tr_vocabulary q) (tr_src q) (tr_dst q) s3
                       else s3)))))"
proof -
  have pc: "peer_commit no_peers n s = s" for n
    by (simp add: peer_commit_def no_peers_def Let_def)
  have miss: "transition_task_loop n no_peers tid d seen s = (Inr (False, None, seen), s)"
    if "task_state_of s tid = None" and "d None = Proceed dst ex r" for n seen dst ex r
    using that pc by (induction n arbitrary: seen) (simp_all add: Let_def rowcount_def)
  have hit: "rowcount (\<lambda>r. t_id r = tid \<and> t_state r = cur) (tasks s) = 1"
    if "task_state_of s tid = Some cur" for cur
    using that unfolding rowcount_key_1 [OF d] by (auto simp: task_state_of_def)
  show ?thesis
  proof (cases "d (task_state_of s tid)")
    case (Proceed dst ex r)
    show ?thesis
    proof (cases "task_state_of s tid")
      case None
      with Proceed show ?thesis by (simp add: transition_task_def miss)
    next
      case (Some cur)
      with Proceed hit [OF Some] show ?thesis
        by (simp add: transition_task_def numeral_3_eq_3 pc Let_def)
    qed
  qed (simp_all add: transition_task_def numeral_3_eq_3 Let_def)
qed

text \<open>
  C33. Whatever other processes commit between a verb's read of \<open>tasks.state\<close> and its guarded
  update, each verb of the authority changes the state of at most the named task, and only by
  an edge that starts at the state stored at the moment of the update: never out of a terminal
  state, by the strict verb only along the edge table (plus CANCELLED), by the soft verb only
  from the given set, by the mirror verb only along the table with the overlay.
\<close>

theorem task_state_writes_legal:
  assumes "schema_ok s"
  shows "legal_step task_state_of (peer_runs env)
           (\<lambda>cur d. d = dst \<and> cur \<notin> TERMINAL_STATES \<and> dst \<in> allowed_transitions cur) tid s
           (snd (transition TASK_STATE_VOCAB (transition_task env) tid dst actor task extra s))
    \<and> legal_step task_state_of (peer_runs env)
           (\<lambda>cur d. d = dst \<and> cur \<notin> TERMINAL_STATES \<and> cur \<in> only_from) tid s
           (snd (advance TASK_STATE_VOCAB (transition_task env) tid dst only_from actor task extra s))
    \<and> legal_step task_state_of (peer_runs env)
           (\<lambda>cur d. d = dst \<and> cur \<notin> TERMINAL_STATES
              \<and> dst \<in> allowed_transitions cur \<union> (case ov of None \<Rightarrow> {} | Some m \<Rightarrow> edge_get m cur)) tid s
           (snd (converge TASK_STATE_VOCAB (transition_task env) tid dst actor ov task extra fa fr s))
    \<and> legal_step task_state_of (peer_runs env) (\<lambda>cur d. d = dst \<and> cur \<notin> TERMINAL_STATES) tid s
           (snd (cancel TASK_STATE_VOCAB (transition_task env) tid dst actor task extra s))"
proof -
  have a: "cur \<notin> TERMINAL_STATES \<Longrightarrow> allowed TASK_STATE_VOCAB cur ov
      = allowed_transitions cur \<union> (case ov of None \<Rightarrow> {} | Some m \<Rightarrow> edge_get m cur)" for cur ov
    by (auto simp: allowed_def allowed_transitions_def edge_get_def)
  have mono: "legal_step st pr L eid x y \<Longrightarrow> (\<And>c d. L c d \<Longrightarrow> L' c d) \<Longrightarrow> legal_step st pr L' eid x y"
    for st :: "db \<Rightarrow> string \<Rightarrow> task_state option" and pr L L' eid x y
    unfolding legal_step_def by blast
  note steps = tasks_writer.transition_step tasks_writer.advance_step
    tasks_writer.converge_step tasks_writer.cancel_step
  show ?thesis
    apply (intro conjI)
    subgoal by (rule mono [OF steps(1) [OF assms]]) (use a [of _ None] in auto)
    subgoal by (rule mono [OF steps(2) [OF assms]]) simp
    subgoal by (rule mono [OF steps(3) [OF assms]]) (use a [of _ ov] in auto)
    subgoal by (rule mono [OF steps(4) [OF assms]]) simp
    done
qed

text \<open>
  In a single broker process, cancelling a task is total and truthful: an unknown task is
  reported as such and nothing is written; a terminal task is left as it is and the stored state
  is reported; a live task becomes CANCELLED, its former state is reported, and one audit row
  is appended.
\<close>

theorem cancel_task_exact:
  assumes "schema_ok s"
  shows "case cancel TASK_STATE_VOCAB (transition_task no_peers) tid CANCELLED actor task extra s of
      (Inl e, s') \<Rightarrow> e = EntityNotFound ''task_state'' tid \<and> task_state_of s tid = None \<and> s' = s
    | (Inr r, s') \<Rightarrow>
        length (logs s') = Suc (length (logs s)) \<and>
        (\<exists>cur. task_state_of s tid = Some cur \<and> cr_previous_state r = Some cur \<and>
          (if cur \<in> TERMINAL_STATES
           then \<not> cr_applied r \<and> cr_already_terminal r \<and> cr_state r = cur
                \<and> task_state_of s' = task_state_of s
           else cr_applied r \<and> \<not> cr_already_terminal r \<and> cr_state r = CANCELLED
                \<and> task_state_of s' = (task_state_of s)(tid \<mapsto> CANCELLED)))"
proof (cases "task_state_of s tid")
  case None
  have "keys_distinct t_id (tasks s)" using assms by (simp add: schema_ok_def)
  with None show ?thesis
    by (simp add: cancel_def transition_task_quiet cancel_decide_def)
next
  case (Some cur)
  have d: "keys_distinct t_id (tasks s)" using assms by (simp add: schema_ok_def)
  have hit: "rowcount (\<lambda>r. t_id r = tid \<and> Some (t_state r) = Some cur) (tasks s) = 1"
    using Some unfolding rowcount_key_1 [OF d] by (auto simp: task_state_of_def)
  note h = task_state_of_hit(2) [OF assms hit]
  show ?thesis
  proof (cases "cur \<in> TERMINAL_STATES")
    case True
    then show ?thesis using Some task_state_of_cong [of "insert_transition_log tid _ s" s]
      by (auto simp: cancel_def transition_task_quiet [OF d] cancel_decide_def is_terminal_def
          Let_def)
  next
    case False
    then have ne: "cur \<noteq> CANCELLED" by simp
    show ?thesis
      using False ne Some h [of _ CANCELLED]
      by (simp add: cancel_def transition_task_quiet [OF d] cancel_decide_def is_terminal_def
          Let_def mk_record_def) (simp add: task_state_of_def fun_eq_iff)
  qed
qed

definition demo_store :: db where
  "demo_store = (empty_db 0 (\<lambda>_. ''u''))\<lparr>tasks := [\<lparr>t_id = ''task_1'', t_state = RUNNING, t_cols = Map.empty\<rparr>]\<rparr>"

lemma demo_store_ok: "schema_ok demo_store" "task_state_of demo_store ''task_1'' = Some RUNNING"
  by (simp_all add: schema_ok_def demo_store_def empty_db_def task_state_of_def)

theorem task_state_writes_legal_witness:
  "legal_step task_state_of (peer_runs no_peers)
     (\<lambda>cur d. d = FAILED \<and> cur \<notin> TERMINAL_STATES \<and> FAILED \<in> allowed_transitions cur) ''task_1'' demo_store
     (snd (transition TASK_STATE_VOCAB (transition_task no_peers) ''task_1'' FAILED ''a'' None [] demo_store))"
  using task_state_writes_legal [OF demo_store_ok(1)] by blast

theorem cancel_task_exact_witness:
  "\<exists>r s'. cancel TASK_STATE_VOCAB (transition_task no_peers) ''task_1'' CANCELLED ''a'' None [] demo_store = (Inr r, s')
     \<and> cr_applied r \<and> cr_previous_state r = Some RUNNING \<and> task_state_of s' ''task_1'' = Some CANCELLED"
proof -
  obtain out s' where c: "cancel TASK_STATE_VOCAB (transition_task no_peers) ''task_1'' CANCELLED ''a'' None [] demo_store
      = (out, s')" by (metis surj_pair)
  from cancel_task_exact [OF demo_store_ok(1), of "''task_1''" "''a''" None "[]"] c demo_store_ok(2)
  show ?thesis by (cases out) auto
qed

end
