(* ===== verification/Privacy.thy ===== *)
theory Privacy
  imports Prelude
begin

text \<open>
  \<^verbatim>\<open>common/privacy.py\<close>: classification and redaction over a list of detectors, and the
  authorization rule of privacy classes and provider tiers that the work queue, the remote
  dispatch and the Temporal admission share. Classes and tiers are their string values. The
  compiled regular expressions are a parameter: a detector is its label, its \<open>search\<close> and its
  \<open>subn\<close>.
\<close>

section \<open>Classes and tiers\<close>

datatype privacy_class = public | low_sensitive | repo_sensitive | secret_sensitive | restricted

fun privacy_class_value :: "privacy_class \<Rightarrow> string" where
  "privacy_class_value public = ''public''"
| "privacy_class_value low_sensitive = ''low_sensitive''"
| "privacy_class_value repo_sensitive = ''repo_sensitive''"
| "privacy_class_value secret_sensitive = ''secret_sensitive''"
| "privacy_class_value restricted = ''restricted''"

datatype provider_tier = local_only | private_rented | external | external_paid

fun provider_tier_value :: "provider_tier \<Rightarrow> string" where
  "provider_tier_value local_only = ''local_only''"
| "provider_tier_value private_rented = ''private_rented''"
| "provider_tier_value external = ''external''"
| "provider_tier_value external_paid = ''external_paid''"

section \<open>Detectors, classification and redaction\<close>

record detector =
  det_label :: string
  det_search :: "string \<Rightarrow> bool"
  det_subn :: "string \<Rightarrow> string \<times> nat"

definition HARD_SECRET_LABELS :: "string set" where
  "HARD_SECRET_LABELS =
    {''removed OpenAI-style API key'', ''removed Google API key'', ''removed AWS access key id'',
     ''removed GitHub token'', ''removed JWT'', ''removed SSH private key'', ''removed database URL''}"

record classification_hints =
  file_paths :: "string list"
  from_private_repo :: bool
  declared :: "privacy_class option"

text \<open>\<open>sensitive_path\<close> is the test of one path against \<open>SENSITIVE_FILE_PATTERNS\<close>.\<close>

definition classify ::
  "detector list \<Rightarrow> (string \<Rightarrow> bool) \<Rightarrow> string \<Rightarrow> classification_hints option \<Rightarrow> privacy_class" where
  "classify detectors sensitive_path payload hints =
    (let h = (case hints of None \<Rightarrow> \<lparr>file_paths = [], from_private_repo = False, declared = None\<rparr>
                          | Some x \<Rightarrow> x)
     in case declared h of
          Some c \<Rightarrow> c
        | None \<Rightarrow>
            if list_ex sensitive_path (file_paths h) then secret_sensitive
            else if list_ex (\<lambda>d. det_label d \<in> HARD_SECRET_LABELS \<and> det_search d payload) detectors
              then secret_sensitive
            else if from_private_repo h then repo_sensitive
            else if list_ex (\<lambda>d. det_label d \<notin> HARD_SECRET_LABELS \<and> det_search d payload) detectors
              then low_sensitive
            else public)"

record redaction_result =
  rr_cloud_safe :: bool
  rr_privacy_class :: privacy_class
  rr_redactions :: "(string \<times> nat) list"
  rr_lossiness :: string

fun redact_pass :: "detector list \<Rightarrow> string \<Rightarrow> (string \<times> nat) list \<Rightarrow> bool
    \<Rightarrow> string \<times> (string \<times> nat) list \<times> bool" where
  "redact_pass [] out reds hard = (out, reds, hard)"
| "redact_pass (d # ds) out reds hard =
    (if det_search d out then
       (let hard' = (hard \<or> det_label d \<in> HARD_SECRET_LABELS)
        in case det_subn d out of (out', n) \<Rightarrow>
             redact_pass ds out' (if n \<noteq> 0 then reds @ [(det_label d, n)] else reds) hard')
     else redact_pass ds out reds hard)"

definition lossiness_of :: "nat \<Rightarrow> string" where
  "lossiness_of changed =
    (if changed = 0 then ''none'' else if changed \<le> 2 then ''low''
     else if changed \<le> 6 then ''medium'' else ''high'')"

definition redact :: "detector list \<Rightarrow> string \<Rightarrow> privacy_class \<Rightarrow> redaction_result \<times> string" where
  "redact detectors payload pc =
    (case redact_pass detectors payload [] False of (out, reds, hard) \<Rightarrow>
       (\<lparr>rr_cloud_safe = (pc \<notin> {secret_sensitive} \<and> \<not> hard \<and> pc \<noteq> restricted),
         rr_privacy_class = pc, rr_redactions = reds,
         rr_lossiness = lossiness_of (sum_list (map snd reds))\<rparr>, out))"

section \<open>Tier and class authorization\<close>

text \<open>The \<open>privacy\<close> section of \<^verbatim>\<open>routing.yaml\<close>.\<close>

record routing_privacy =
  rp_classes :: "(string \<times> string list) list"
  rp_require_redaction :: "string list"

definition classes_map :: "routing_privacy \<Rightarrow> (string \<times> string list) list" where
  "classes_map r = rp_classes r"

definition allowed_tiers :: "routing_privacy \<Rightarrow> string \<Rightarrow> string list" where
  "allowed_tiers r pc = (case map_of (classes_map r) pc of None \<Rightarrow> [] | Some ts \<Rightarrow> ts)"

definition admissible_classes :: "routing_privacy \<Rightarrow> string option \<Rightarrow> string list" where
  "admissible_classes r attested =
    (case attested of None \<Rightarrow> []
     | Some tier \<Rightarrow> map fst (filter (\<lambda>(pc, tiers). tier \<in> set tiers) (classes_map r)))"

definition admits :: "routing_privacy \<Rightarrow> string option \<Rightarrow> string \<Rightarrow> bool" where
  "admits r attested pc =
    (case attested of None \<Rightarrow> False | Some tier \<Rightarrow> tier \<in> set (allowed_tiers r pc))"

text \<open>A mapping of classes has each key once, as a YAML mapping read into a dict has.\<close>

abbreviation classes_ok :: "routing_privacy \<Rightarrow> bool" where
  "classes_ok r \<equiv> distinct (map fst (rp_classes r))"

lemma admissible_iff_admits:
  "classes_ok r \<Longrightarrow> pc \<in> set (admissible_classes r t) \<longleftrightarrow> admits r t pc"
  by (force simp: admissible_classes_def admits_def allowed_tiers_def classes_map_def
      split: option.splits)

text \<open>The mapping of the shipped \<^verbatim>\<open>routing.yaml\<close>.\<close>

definition default_routing :: routing_privacy where
  "default_routing =
    \<lparr>rp_classes =
       [(''public'', [''local_only'', ''private_rented'', ''external'', ''external_paid'']),
        (''low_sensitive'', [''local_only'', ''private_rented'', ''external'', ''external_paid'']),
        (''repo_sensitive'', [''local_only'']),
        (''secret_sensitive'', []),
        (''restricted'', [''local_only''])],
     rp_require_redaction = [''low_sensitive'']\<rparr>"

lemma redact_pass_hard_mono: "redact_pass ds out reds True = (o', r', h) \<Longrightarrow> h"
  by (induction ds arbitrary: out reds) (auto simp: Let_def split: if_splits prod.splits)

lemma redact_pass_first_hard:
  assumes "redact_pass (hs @ ss) out reds False = (o', r', False)"
    and "\<forall>d \<in> set hs. det_label d \<in> HARD_SECRET_LABELS"
  shows "\<forall>d \<in> set hs. \<not> det_search d out"
  using assms
proof (induction hs)
  case (Cons d hs)
  have "\<not> det_search d out"
  proof
    assume "det_search d out"
    then obtain o2 r2 where "redact_pass (hs @ ss) o2 r2 True = (o', r', False)"
      using Cons.prems by (auto simp: Let_def split: prod.splits)
    then show False using redact_pass_hard_mono by blast
  qed
  with Cons show ?case by auto
qed simp

text \<open>The labels of \<open>_DETECTORS\<close>, in order: the hard ones come first.\<close>

definition DETECTOR_LABELS :: "string list" where
  "DETECTOR_LABELS =
    [''removed OpenAI-style API key'', ''removed Google API key'', ''removed AWS access key id'',
     ''removed GitHub token'', ''removed JWT'', ''removed SSH private key'', ''removed database URL'',
     ''removed bearer token'', ''removed generic secret assignment'', ''removed customer email'',
     ''removed internal hostname'', ''removed absolute local path'']"

lemma DETECTOR_LABELS_split:
  assumes "map det_label ds = DETECTOR_LABELS"
  shows "\<forall>d \<in> set (take 7 ds). det_label d \<in> HARD_SECRET_LABELS"
    and "\<forall>d \<in> set (drop 7 ds). det_label d \<notin> HARD_SECRET_LABELS"
proof -
  have "det_label ` set (take 7 ds) = set (take 7 DETECTOR_LABELS)"
    unfolding assms [symmetric] by (simp add: take_map)
  also have "\<dots> \<subseteq> HARD_SECRET_LABELS" by (simp add: DETECTOR_LABELS_def HARD_SECRET_LABELS_def)
  finally show "\<forall>d \<in> set (take 7 ds). det_label d \<in> HARD_SECRET_LABELS" by blast
  have "det_label ` set (drop 7 ds) = set (drop 7 DETECTOR_LABELS)"
    unfolding assms [symmetric] by (simp add: drop_map)
  also have "\<dots> \<subseteq> - HARD_SECRET_LABELS" by (simp add: DETECTOR_LABELS_def HARD_SECRET_LABELS_def)
  finally show "\<forall>d \<in> set (drop 7 ds). det_label d \<notin> HARD_SECRET_LABELS" by blast
qed

text \<open>
  C34. The redaction pass is fail-closed. With the detectors in the order of the source, a result
  that is marked cloud safe had no hard secret anywhere in the payload as submitted (not only in
  what the earlier detectors left of it) and is neither \<open>secret_sensitive\<close> nor \<open>restricted\<close>;
  and a payload that does hold a hard secret is classified \<open>secret_sensitive\<close> unless its class
  was declared.
\<close>

theorem redact_fail_closed:
  assumes "map det_label ds = DETECTOR_LABELS"
    and "d \<in> set ds" and "det_label d \<in> HARD_SECRET_LABELS" and "det_search d payload"
  shows "\<not> rr_cloud_safe (fst (redact ds payload pc))
    \<and> classify ds sensitive_path payload (Some \<lparr>file_paths = ps, from_private_repo = b, declared = None\<rparr>)
        = secret_sensitive"
proof
  have d: "d \<in> set (take 7 ds)"
    using assms(2,3) DETECTOR_LABELS_split(2) [OF assms(1)]
    by (metis append_take_drop_id set_append UnE)
  show "\<not> rr_cloud_safe (fst (redact ds payload pc))"
  proof
    assume "rr_cloud_safe (fst (redact ds payload pc))"
    then obtain out reds where "redact_pass (take 7 ds @ drop 7 ds) payload [] False = (out, reds, False)"
      by (auto simp: redact_def split: prod.splits)
    from redact_pass_first_hard [OF this DETECTOR_LABELS_split(1) [OF assms(1)]] d assms(4)
    show False by blast
  qed
  show "classify ds sensitive_path payload (Some \<lparr>file_paths = ps, from_private_repo = b, declared = None\<rparr>)
        = secret_sensitive"
    using assms(2-4) by (auto simp: classify_def list_ex_iff Let_def)
qed

definition demo_detector :: "string \<Rightarrow> detector" where
  "demo_detector l = \<lparr>det_label = l, det_search = (\<lambda>s. s = l), det_subn = (\<lambda>s. (''[X]'', 1))\<rparr>"

theorem redact_fail_closed_witness:
  "\<not> rr_cloud_safe (fst (redact (map demo_detector DETECTOR_LABELS) ''removed JWT'' public))
   \<and> classify (map demo_detector DETECTOR_LABELS) (\<lambda>_. False) ''removed JWT''
       (Some \<lparr>file_paths = [], from_private_repo = False, declared = None\<rparr>) = secret_sensitive"
proof (rule redact_fail_closed)
  show "map det_label (map demo_detector DETECTOR_LABELS) = DETECTOR_LABELS"
    by (simp add: demo_detector_def o_def)
  show "demo_detector ''removed JWT'' \<in> set (map demo_detector DETECTOR_LABELS)"
    by (simp add: DETECTOR_LABELS_def)
  show "det_label (demo_detector ''removed JWT'') \<in> HARD_SECRET_LABELS"
    by (simp add: demo_detector_def HARD_SECRET_LABELS_def)
  show "det_search (demo_detector ''removed JWT'') ''removed JWT''"
    by (simp add: demo_detector_def)
qed

end
