(* ===== verification/Work_Queue.thy ===== *)
theory Work_Queue
  imports Shared_Memory Privacy "HOL-Library.Char_ord" "HOL-Library.List_Lexorder"
begin

text \<open>
  The federated work queue of \<^verbatim>\<open>common/workqueue.py\<close>: tickets with a lease, a fencing token, a
  privacy class and dependencies, over the tables \<open>work_queue\<close> and \<open>work_queue_deps\<close> of the
  shared store. Every method of \<open>WorkQueue\<close> that reads or writes the store is one definition. An
  operation runs under the store's lock, so only other broker processes can commit in between:
  at each point where a method reads and later writes under a guard, \<open>w_env\<close> is what they
  commit, and \<open>w_fault\<close> is an SQLite error of the guarded update or of its commit.
\<close>

section \<open>Ticket vocabulary and constants\<close>

fun ticket_status_value :: "ticket_status \<Rightarrow> string" where
  "ticket_status_value TkOpen = ''open''"
| "ticket_status_value TkClaimed = ''claimed''"
| "ticket_status_value TkInReview = ''in_review''"
| "ticket_status_value TkParked = ''parked''"
| "ticket_status_value TkDone = ''done''"
| "ticket_status_value TkFailed = ''failed''"
| "ticket_status_value TkCancelled = ''cancelled''"

fun TICKET_STATUS_EDGES :: "ticket_status \<Rightarrow> ticket_status set" where
  "TICKET_STATUS_EDGES TkOpen = {TkClaimed}"
| "TICKET_STATUS_EDGES TkClaimed = {TkOpen, TkInReview, TkDone, TkFailed}"
| "TICKET_STATUS_EDGES TkInReview = {TkOpen, TkDone, TkFailed}"
| "TICKET_STATUS_EDGES TkParked = {TkOpen, TkFailed}"
| "TICKET_STATUS_EDGES TkDone = {}"
| "TICKET_STATUS_EDGES TkFailed = {}"
| "TICKET_STATUS_EDGES TkCancelled = {}"

definition TICKET_STATUS_VOCAB :: "ticket_status vocabulary" where
  "TICKET_STATUS_VOCAB =
    \<lparr>v_name = ''ticket_status'', v_value = ticket_status_value, v_column = ''status'',
     v_edges = (\<lambda>k. Some (TICKET_STATUS_EDGES k)), v_terminal = {TkDone, TkFailed, TkCancelled},
     v_universal = {TkCancelled}\<rparr>"

definition tk_terminal :: "ticket_status \<Rightarrow> bool" where
  "tk_terminal st \<longleftrightarrow> st \<in> {TkDone, TkFailed, TkCancelled}"

definition TICKET_TO_TASK_STATE :: "ticket_status \<rightharpoonup> task_state" where
  "TICKET_TO_TASK_STATE = [TkFailed \<mapsto> FAILED, TkDone \<mapsto> COMPLETE, TkInReview \<mapsto> REVIEW_READY]"

definition TICKET_MIRROR_EDGES :: "task_state \<rightharpoonup> task_state set" where
  "TICKET_MIRROR_EDGES st =
    (if st \<in> {COMPLETE, CANCELLED, FAILED} then None else Some {COMPLETE, FAILED, REVIEW_READY})"

definition MAX_LEASE_EXTEND_SECONDS :: int where "MAX_LEASE_EXTEND_SECONDS = 3600"
definition MAX_CLAIM_BATCH :: int where "MAX_CLAIM_BATCH = 50"
definition MAX_LIST_LIMIT :: int where "MAX_LIST_LIMIT = 1000"

definition clamp_limit :: "int \<Rightarrow> int" where
  "clamp_limit limit = max 1 (min limit MAX_LIST_LIMIT)"

definition priority_rank :: "string \<Rightarrow> nat" where
  "priority_rank p =
    (if p = ''urgent'' then 0 else if p = ''normal'' then 1 else if p = ''low'' then 2 else 1)"

definition TRUSTED_TIER :: "string option" where
  "TRUSTED_TIER = Some ''local_only''"

section \<open>Results and configuration\<close>

datatype wq_error =
    Unknown_ticket | Not_authorized | Not_claimable | Lease_lost | Invalid_extend_seconds
  | No_payload | Ticket_cancelled | Already_reported | Reviewer_not_authorized | Not_in_review
  | Self_dependency | Child_not_linkable | Privacy_downgrade "string option"
  | Dependency_cycle | Unknown_dependency string | Duplicate_ticket

text \<open>A method returns a value or a typed error, lets an exception escape, or loops forever.\<close>

datatype 'a outcome = Ok 'a | Err wq_error | Raised exc | Diverges

record worker_usage =
  wu_input_tokens :: int
  wu_output_tokens :: int
  wu_model_id :: "string option"
  wu_cost_usd :: "real option"

record sub_task =
  st_task :: string
  st_agent_type :: "string option"
  st_privacy_class :: "privacy_class option"

record worker_result =
  wr_status :: string
  wr_summary :: string
  wr_confidence :: real
  wr_changed_artifacts :: "string list"
  wr_evidence_refs :: "string list"
  wr_risks :: "string list"
  wr_recommended_next_action :: "string option"
  wr_usage :: "worker_usage option"
  wr_subtasks :: "sub_task list"

text \<open>
  \<open>model_dump_json\<close> and \<open>model_validate_json\<close> are pydantic's serialization of a \<open>WorkerResult\<close>.
\<close>

record wq_config =
  routing :: routing_privacy
  default_lease_seconds :: int
  model_dump_json :: "worker_result \<Rightarrow> string"
  model_validate_json :: "string \<Rightarrow> worker_result option"

datatype fault = NoFault | AtUpdate | AtCommit bool

record world =
  w_env :: "db \<Rightarrow> db"
  w_fault :: "db \<Rightarrow> fault"

definition alone :: world where
  "alone = \<lparr>w_env = (\<lambda>s. s), w_fault = (\<lambda>_. NoFault)\<rparr>"

definition truthy :: "string option \<Rightarrow> bool" where
  "truthy x \<longleftrightarrow> x \<noteq> None \<and> x \<noteq> Some ''''"

definition now_of :: "real option \<Rightarrow> db \<Rightarrow> real" where
  "now_of now s = (case now of None \<Rightarrow> clock s | Some t \<Rightarrow> t)"

section \<open>Rows handed out\<close>

record public_row =
  pr_ticket_id :: string
  pr_status :: ticket_status
  pr_privacy_class :: string
  pr_allowed_tiers :: "string list"
  pr_park_reason :: "string option"

definition mk_public_row :: "ticket \<Rightarrow> public_row" where
  "mk_public_row t =
    \<lparr>pr_ticket_id = ticket_id t, pr_status = status t, pr_privacy_class = privacy_class t,
     pr_allowed_tiers = allowed_tiers_col t, pr_park_reason = park_reason t\<rparr>"

record claim_row =
  cl_ticket_id :: string
  cl_payload_ref :: "string option"
  cl_privacy_class :: string
  cl_lease_token :: string
  cl_lease_expires_at :: real
  cl_attempts :: int
  cl_status :: ticket_status

section \<open>Reading tickets\<close>

definition raw :: "db \<Rightarrow> string \<Rightarrow> ticket option" where
  "raw s tid = row_of ticket_id tid (work_queue s)"

definition get_ticket :: "db \<Rightarrow> string \<Rightarrow> ticket option" where
  "get_ticket s tid = raw s tid"

definition by_dedup :: "db \<Rightarrow> string \<Rightarrow> ticket option" where
  "by_dedup s k = find (\<lambda>t. dedup_key t = Some k) (work_queue s)"

definition find_by_dedup :: "db \<Rightarrow> string \<Rightarrow> public_row option" where
  "find_by_dedup s k = map_option mk_public_row (by_dedup s k)"

definition task_id_for_ticket :: "db \<Rightarrow> string \<Rightarrow> string option" where
  "task_id_for_ticket s tid = (case raw s tid of None \<Rightarrow> None | Some t \<Rightarrow> task_id t)"

definition may_claim :: "wq_config \<Rightarrow> string option \<Rightarrow> string \<Rightarrow> bool" where
  "may_claim c tier pc = admits (routing c) tier pc"

definition parent_done :: "db \<Rightarrow> string \<Rightarrow> bool" where
  "parent_done s p \<longleftrightarrow> list_ex (\<lambda>t. ticket_id t = p \<and> status t = TkDone) (work_queue s)"

definition is_blocked :: "db \<Rightarrow> string \<Rightarrow> bool" where
  "is_blocked s tid \<longleftrightarrow> list_ex (\<lambda>(c, p). c = tid \<and> \<not> parent_done s p) (work_queue_deps s)"

definition task_cancelled :: "db \<Rightarrow> string option \<Rightarrow> bool" where
  "task_cancelled s tid \<longleftrightarrow>
    (case tid of None \<Rightarrow> False
     | Some i \<Rightarrow> list_ex (\<lambda>r. t_id r = i \<and> t_state r = CANCELLED) (tasks s))"

section \<open>Audit rows and the task-state mirror\<close>

definition ticket_audit ::
  "string \<Rightarrow> string option \<Rightarrow> ticket_status \<Rightarrow> ticket_status \<Rightarrow> string \<Rightarrow> string \<Rightarrow> string \<Rightarrow> db \<Rightarrow> db" where
  "ticket_audit tid task src dst outcome actor reason s =
    (let sane = dst \<in> allowed TICKET_STATUS_VOCAB src None;
         detail = ''ticket_status '' @ tid @ '': '' @ ticket_status_value src @ '' -> ''
           @ ticket_status_value dst @ '' ('' @ outcome @ '')''
           @ (if reason = '''' then '''' else '': '' @ reason)
           @ (if sane then ''''
              else '' [WARNING: edge outside declared ticket_status vocabulary]'');
         s1 = s\<lparr>logs := logs s @
           [\<lparr>l_task_id = (if truthy task then the task else tid),
             l_level = (if outcome = ''refused'' \<or> \<not> sane then ''warn'' else ''info''),
             l_message = detail, l_created = clock s\<rparr>]\<rparr>
     in if outcome = ''applied''
        then emit_bus_event ''state.changed'' outcome actor task tid ''ticket_status''
               (ticket_status_value src) (ticket_status_value dst) s1
        else s1)"

definition mirror_task_state :: "string \<Rightarrow> task_state \<Rightarrow> db \<Rightarrow> db" where
  "mirror_task_state tid st s =
    snd (converge TASK_STATE_VOCAB (transition_task no_peers) tid st ''work_queue''
      (Some TICKET_MIRROR_EDGES) None []
      (Some (\<lambda>src dst. ''work_queue task-state '' @ task_state_value src @ '' -> '' @ task_state_value dst))
      (Some (\<lambda>src dst. ''work_queue refused task-state overwrite '' @ task_state_value src @ '' -> ''
          @ task_state_value dst @ '': terminal state is final'')) s)"

definition mirror_if :: "string option \<Rightarrow> task_state \<Rightarrow> db \<Rightarrow> db" where
  "mirror_if task st s = (if truthy task then mirror_task_state (the task) st s else s)"

section \<open>The failure cascade\<close>

definition clear_lease :: "ticket \<Rightarrow> ticket" where
  "clear_lease t =
    t\<lparr>lease_holder := None, lease_tier := None, lease_token := None, lease_expires_at := None\<rparr>"

definition upd_tk :: "(ticket \<Rightarrow> bool) \<Rightarrow> (ticket \<Rightarrow> ticket) \<Rightarrow> db \<Rightarrow> db" where
  "upd_tk P f s = s\<lparr>work_queue := upd_where P f (work_queue s)\<rparr>"

definition cascade_row :: "string \<Rightarrow> real \<Rightarrow> prov_event list \<Rightarrow> ticket \<Rightarrow> ticket" where
  "cascade_row parent now prov t =
    clear_lease (t\<lparr>status := TkFailed, result_status := Some ''dependency_failed'',
      park_reason := Some ''dependency_failed'', provenance := prov @ [PCascadeFail parent now],
      updated_at := now\<rparr>)"

definition cascade_child ::
  "string \<Rightarrow> real \<Rightarrow> string \<Rightarrow> string list \<times> string list \<times> string list \<times> db
    \<Rightarrow> string list \<times> string list \<times> string list \<times> db" where
  "cascade_child parent now child st =
    (case st of (stack, seen, cascaded, s) \<Rightarrow>
       if child \<in> set seen then st
       else
         (let seen' = child # seen
          in case raw s child of
               None \<Rightarrow> (stack, seen', cascaded, s)
             | Some t \<Rightarrow>
                 if tk_terminal (status t) then (stack, seen', cascaded, s)
                 else
                   (let hit = (\<lambda>x. ticket_id x = child \<and> \<not> tk_terminal (status x))
                    in if rowcount hit (work_queue s) \<noteq> 1 then (stack, seen', cascaded, s)
                       else
                         (let s1 = upd_tk hit (cascade_row parent now (provenance t)) s;
                              s2 = ticket_audit child (task_id t) (status t) TkFailed ''applied''
                                     ''cascade'' (''dependency '' @ parent @ '' failed'') s1;
                              s3 = mirror_if (task_id t) FAILED s2
                          in (child # stack, seen', cascaded @ [child], s3)))))"

definition children_of :: "db \<Rightarrow> string \<Rightarrow> string list" where
  "children_of s parent = map fst (filter (\<lambda>(c, p). p = parent) (work_queue_deps s))"

lemma mirror_frame_loop:
  "work_queue (snd (transition_task_loop n no_peers tid d sn s)) = work_queue s
   \<and> work_queue_deps (snd (transition_task_loop n no_peers tid d sn s)) = work_queue_deps s
   \<and> artifacts (snd (transition_task_loop n no_peers tid d sn s)) = artifacts s
   \<and> uuids (snd (transition_task_loop n no_peers tid d sn s)) = uuids s
   \<and> uuid_ctr s \<le> uuid_ctr (snd (transition_task_loop n no_peers tid d sn s))
   \<and> evaluations (snd (transition_task_loop n no_peers tid d sn s)) = evaluations s
   \<and> clock (snd (transition_task_loop n no_peers tid d sn s)) = clock s"
proof (induction n arbitrary: sn)
  case 0
  show ?case by simp
next
  case (Suc n)
  have pc: "peer_commit no_peers n s = s" by (simp add: peer_commit_def no_peers_def Let_def)
  show ?case
    by (auto simp: Let_def pc Suc insert_transition_log_def emit_bus_event_def draw_def
        split: decision.splits option.splits)
qed

lemma frame_audit [simp]:
  "work_queue (ticket_audit a b c d e f g s) = work_queue s"
  "work_queue_deps (ticket_audit a b c d e f g s) = work_queue_deps s"
  "artifacts (ticket_audit a b c d e f g s) = artifacts s"
  "uuids (ticket_audit a b c d e f g s) = uuids s"
  "evaluations (ticket_audit a b c d e f g s) = evaluations s"
  "tasks (ticket_audit a b c d e f g s) = tasks s"
  "clock (ticket_audit a b c d e f g s) = clock s"
  "uuid_ctr s \<le> uuid_ctr (ticket_audit a b c d e f g s)"
  by (simp_all add: ticket_audit_def Let_def emit_bus_event_def draw_def)

lemma snd_converge:
  "snd (converge v w tid dst actor ov task ex fa fr s)
    = snd (w tid (converge_decide v tid dst actor ov task ex fa fr) s)"
  by (auto simp: converge_def split: prod.splits sum.splits option.splits)

lemma frame_mirror [simp]:
  "work_queue (mirror_task_state tid st s) = work_queue s"
  "work_queue_deps (mirror_task_state tid st s) = work_queue_deps s"
  "artifacts (mirror_task_state tid st s) = artifacts s"
  "uuids (mirror_task_state tid st s) = uuids s"
  "evaluations (mirror_task_state tid st s) = evaluations s"
  "clock (mirror_task_state tid st s) = clock s"
  "uuid_ctr s \<le> uuid_ctr (mirror_task_state tid st s)"
  by (simp_all add: mirror_task_state_def snd_converge transition_task_def mirror_frame_loop)

lemma frame_mirror_if [simp]:
  "work_queue (mirror_if tid st s) = work_queue s"
  "work_queue_deps (mirror_if tid st s) = work_queue_deps s"
  "artifacts (mirror_if tid st s) = artifacts s"
  "uuids (mirror_if tid st s) = uuids s"
  "evaluations (mirror_if tid st s) = evaluations s"
  "clock (mirror_if tid st s) = clock s"
  "uuid_ctr s \<le> uuid_ctr (mirror_if tid st s)"
  by (simp_all add: mirror_if_def)

lemma frame_upd_tk [simp]:
  "work_queue (upd_tk P f s) = upd_where P f (work_queue s)"
  "work_queue_deps (upd_tk P f s) = work_queue_deps s"
  "artifacts (upd_tk P f s) = artifacts s"
  "uuids (upd_tk P f s) = uuids s"
  "uuid_ctr (upd_tk P f s) = uuid_ctr s"
  "evaluations (upd_tk P f s) = evaluations s"
  "tasks (upd_tk P f s) = tasks s"
  "clock (upd_tk P f s) = clock s"
  by (simp_all add: upd_tk_def)

definition cascade_hit :: "string \<Rightarrow> real \<Rightarrow> string \<Rightarrow> ticket \<Rightarrow> db \<Rightarrow> db" where
  "cascade_hit parent now child t s =
    mirror_if (task_id t) FAILED
      (ticket_audit child (task_id t) (status t) TkFailed ''applied'' ''cascade''
        (''dependency '' @ parent @ '' failed'')
        (upd_tk (\<lambda>x. ticket_id x = child \<and> \<not> tk_terminal (status x))
          (cascade_row parent now (provenance t)) s))"

lemma cascade_child_cases:
  obtains
    (old) "child \<in> set seen" "cascade_child parent now child (stack, seen, cas, s) = (stack, seen, cas, s)"
  | (skip) "child \<notin> set seen"
      "cascade_child parent now child (stack, seen, cas, s) = (stack, child # seen, cas, s)"
      "\<not> (\<exists>t. raw s child = Some t \<and> \<not> tk_terminal (status t)
         \<and> rowcount (\<lambda>x. ticket_id x = child \<and> \<not> tk_terminal (status x)) (work_queue s) = 1)"
  | (hit) t where "child \<notin> set seen" "raw s child = Some t" "\<not> tk_terminal (status t)"
      "cascade_child parent now child (stack, seen, cas, s)
        = (child # stack, child # seen, cas @ [child], cascade_hit parent now child t s)"
proof (cases "child \<in> set seen")
  case True
  then show ?thesis using old by (simp add: cascade_child_def)
next
  case False
  show ?thesis
  proof (cases "raw s child")
    case None
    then show ?thesis using False skip by (simp add: cascade_child_def)
  next
    case (Some t)
    let ?ok = "\<not> tk_terminal (status t)
         \<and> rowcount (\<lambda>x. ticket_id x = child \<and> \<not> tk_terminal (status x)) (work_queue s) = 1"
    show ?thesis
    proof (cases ?ok)
      case True
      then show ?thesis using False Some hit
        by (simp add: cascade_child_def cascade_hit_def Let_def)
    next
      case nok: False
      then show ?thesis using False Some skip by (auto simp: cascade_child_def Let_def)
    qed
  qed
qed

lemma cascade_hit_deps [simp]: "work_queue_deps (cascade_hit parent now child t s) = work_queue_deps s"
  by (simp add: cascade_hit_def)

lemma cascade_child_measure:
  assumes "cascade_child parent now child (stack, seen, cas, s) = (stack', seen', cas', s')"
    and "child \<in> fst ` set (work_queue_deps s)"
  shows "work_queue_deps s' = work_queue_deps s
    \<and> card (fst ` set (work_queue_deps s) - set seen') + length stack'
       \<le> card (fst ` set (work_queue_deps s) - set seen) + length stack"
proof -
  let ?D = "fst ` set (work_queue_deps s)"
  have "card (?D - set seen) = Suc (card (?D - insert child (set seen)))" if "child \<notin> set seen"
  proof -
    have "card (?D - insert child (set seen)) = card (?D - set seen) - 1"
      by (metis Diff_iff Diff_insert assms(2) card_Diff_singleton that)
    moreover have "card (?D - set seen) > 0" using that assms(2) by (auto simp: card_gt_0_iff)
    ultimately show ?thesis by simp
  qed
  then show ?thesis
    using assms(1) by (cases rule: cascade_child_cases [of child seen parent now stack cas s]) auto
qed

lemma cascade_fold_measure:
  assumes "fold (cascade_child parent now) cs (stack, seen, cas, s) = (stack', seen', cas', s')"
    and "set cs \<subseteq> fst ` set (work_queue_deps s)"
  shows "work_queue_deps s' = work_queue_deps s
    \<and> card (fst ` set (work_queue_deps s) - set seen') + length stack'
       \<le> card (fst ` set (work_queue_deps s) - set seen) + length stack"
  using assms
proof (induction cs arbitrary: stack seen cas s)
  case (Cons c cs)
  obtain st1 sn1 cas1 s1 where 1: "cascade_child parent now c (stack, seen, cas, s) = (st1, sn1, cas1, s1)"
    by (metis prod_cases4)
  with Cons.prems have "fold (cascade_child parent now) cs (st1, sn1, cas1, s1) = (stack', seen', cas', s')"
    by simp
  from Cons.IH [OF this] cascade_child_measure [OF 1] Cons.prems(2) show ?case by auto
qed simp

lemma children_of_subset: "set (children_of s p) \<subseteq> fst ` set (work_queue_deps s)"
  by (auto simp: children_of_def)

function (sequential) cascade_loop ::
  "real \<Rightarrow> string list \<Rightarrow> string list \<Rightarrow> string list \<Rightarrow> db \<Rightarrow> string list \<times> db" where
  "cascade_loop now [] seen cascaded s = (cascaded, s)"
| "cascade_loop now (parent # stack) seen cascaded s =
    (case fold (cascade_child parent now) (children_of s parent) (stack, seen, cascaded, s) of
       (stack', seen', cascaded', s') \<Rightarrow> cascade_loop now stack' seen' cascaded' s')"
  by pat_completeness auto

termination
  apply (relation "measure (\<lambda>(now, stack, seen, cas, s).
    card (fst ` set (work_queue_deps s) - set seen) + length stack)")
   apply simp
  subgoal premises prems
    using cascade_fold_measure [OF prems(1) [symmetric, unfolded prems(2,3) [symmetric]]
      children_of_subset] by simp
  done

definition cascade_failure :: "string \<Rightarrow> real \<Rightarrow> db \<Rightarrow> string list \<times> db" where
  "cascade_failure failed now s = cascade_loop now [failed] [] [] s"

section \<open>Adding tickets\<close>

fun check_deps :: "wq_config \<Rightarrow> db \<Rightarrow> string set \<Rightarrow> string list \<Rightarrow> wq_error option" where
  "check_deps c s child_tiers [] = None"
| "check_deps c s child_tiers (dep # deps) =
    (case raw s dep of
       None \<Rightarrow> Some (Unknown_dependency dep)
     | Some parent \<Rightarrow>
         if \<not> child_tiers \<subseteq> set (allowed_tiers (routing c) (privacy_class parent))
         then Some (Privacy_downgrade (Some dep))
         else check_deps c s child_tiers deps)"

record add_args =
  ad_origin :: string
  ad_privacy_class :: string
  ad_payload :: "string option"
  ad_payload_ref :: "string option"
  ad_task_id :: "string option"
  ad_required_capabilities :: "string list"
  ad_priority :: string
  ad_dedup_key :: "string option"
  ad_depends_on :: "string list"
  ad_max_attempts :: int
  ad_assignee :: "string option"
  ad_cloud_safe :: bool

definition add_status :: "wq_config \<Rightarrow> add_args \<Rightarrow> ticket_status \<times> string option" where
  "add_status c a =
    (if allowed_tiers (routing c) (ad_privacy_class a) = []
     then (TkParked, Some ''secret_sensitive_not_pullable'')
     else if ad_privacy_class a \<in> set (rp_require_redaction (routing c)) \<and> \<not> ad_cloud_safe a
     then (TkParked, Some ''redaction_required_not_cloud_safe'')
     else (TkOpen, None))"

definition new_ticket :: "wq_config \<Rightarrow> add_args \<Rightarrow> string \<Rightarrow> string option \<Rightarrow> real \<Rightarrow> ticket" where
  "new_ticket c a tid ref now =
    \<lparr>ticket_id = tid, dedup_key = ad_dedup_key a, origin = ad_origin a, task_id = ad_task_id a,
     payload_ref = ref, privacy_class = ad_privacy_class a,
     allowed_tiers_col = allowed_tiers (routing c) (ad_privacy_class a),
     required_capabilities = ad_required_capabilities a, priority = ad_priority a,
     status = fst (add_status c a), assignee = ad_assignee a, lease_holder = None, lease_tier = None,
     lease_token = None, lease_expires_at = None, attempts = 0, max_attempts = ad_max_attempts a,
     result_ref = None, result_status = None,
     provenance = PEnqueue (ad_origin a) now #
       (case snd (add_status c a) of None \<Rightarrow> [] | Some r \<Rightarrow> [PPark r now]),
     park_reason = snd (add_status c a), created_at = now, updated_at = now, claimed_at = None,
     completed_at = None\<rparr>"

definition insert_dep :: "string \<Rightarrow> string \<Rightarrow> (string \<times> string) list \<Rightarrow> (string \<times> string) list" where
  "insert_dep tid dep deps = (if (tid, dep) \<in> set deps then deps else deps @ [(tid, dep)])"

definition insert_conflict :: "db \<Rightarrow> ticket \<Rightarrow> bool" where
  "insert_conflict s t \<longleftrightarrow>
    list_ex (\<lambda>x. ticket_id x = ticket_id t
      \<or> dedup_key t \<noteq> None \<and> dedup_key x = dedup_key t) (work_queue s)"

definition add_insert ::
  "wq_config \<Rightarrow> add_args \<Rightarrow> real \<Rightarrow> bool \<Rightarrow> string option \<Rightarrow> db \<Rightarrow> public_row outcome \<times> db" where
  "add_insert c a now minted ref s =
    (case new_id ''wq'' s of (tid, s1) \<Rightarrow>
       (let t = new_ticket c a tid ref now
        in if insert_conflict s1 t
           then
             (let s2 = (if minted \<and> ref \<noteq> None then delete_artifact (the ref) s1 else s1)
              in (case Option.bind (ad_dedup_key a) (by_dedup s2) of
                    Some e \<Rightarrow> Ok (mk_public_row e)
                  | None \<Rightarrow> Err Duplicate_ticket, s2))
           else
             (let s2 = s1\<lparr>work_queue := work_queue s1 @ [t],
                          work_queue_deps := fold (insert_dep tid) (ad_depends_on a) (work_queue_deps s1)\<rparr>
              in (case raw s2 tid of Some e \<Rightarrow> Ok (mk_public_row e) | None \<Rightarrow> Raised (ValueError ''_public_row(None)''), s2))))"

definition add ::
  "wq_config \<Rightarrow> world \<Rightarrow> add_args \<Rightarrow> real option \<Rightarrow> db \<Rightarrow> public_row outcome \<times> db" where
  "add c w a now s =
    (let n = now_of now s
     in case Option.bind (ad_dedup_key a) (by_dedup s) of
          Some e \<Rightarrow> (Ok (mk_public_row e), s)
        | None \<Rightarrow>
            (case check_deps c s (set (allowed_tiers (routing c) (ad_privacy_class a))) (ad_depends_on a) of
               Some e \<Rightarrow> (Err e, s)
             | None \<Rightarrow>
                 (case (ad_payload_ref a, ad_payload a) of
                    (None, Some p) \<Rightarrow>
                      (case put_artifact (ad_task_id a) ''work_payload'' p ''text/plain'' s of
                         (Inl e, s1) \<Rightarrow> (Raised e, s1)
                       | (Inr ref, s1) \<Rightarrow> add_insert c a n True (Some ref) (w_env w s1))
                  | _ \<Rightarrow> add_insert c a n False (ad_payload_ref a) (w_env w s))))"

section \<open>Claiming\<close>

definition claim_row_upd ::
  "string \<Rightarrow> string option \<Rightarrow> string \<Rightarrow> real \<Rightarrow> real \<Rightarrow> prov_event list \<Rightarrow> ticket \<Rightarrow> ticket" where
  "claim_row_upd identity tier token expires now prov t =
    t\<lparr>status := TkClaimed, lease_holder := Some identity, lease_tier := tier,
      lease_token := Some token, lease_expires_at := Some expires, attempts := attempts t + 1,
      claimed_at := Some now, updated_at := now, provenance := prov @ [PClaim identity tier now]\<rparr>"

definition claim_guard :: "string \<Rightarrow> string list \<Rightarrow> db \<Rightarrow> ticket \<Rightarrow> bool" where
  "claim_guard tid admissible s t \<longleftrightarrow>
    ticket_id t = tid \<and> status t = TkOpen \<and> privacy_class t \<in> set admissible
    \<and> \<not> is_blocked s tid \<and> \<not> task_cancelled s (task_id t)"

text \<open>
  The guarded UPDATE. The error value is the \<open>OperationalError\<close>; the transaction it interrupts is
  rolled back, while an event already handed to the bus stays handed.
\<close>

definition try_claim ::
  "wq_config \<Rightarrow> world \<Rightarrow> string \<Rightarrow> string \<Rightarrow> string option \<Rightarrow> string list \<Rightarrow> prov_event list
    \<Rightarrow> int option \<Rightarrow> real \<Rightarrow> db \<Rightarrow> (exc + claim_row option) \<times> db" where
  "try_claim c w tid identity tier admissible prov lease_seconds now s =
    (let secs = (case lease_seconds of None \<Rightarrow> default_lease_seconds c | Some n \<Rightarrow> n);
         expires = now + of_int secs;
         token = fst (draw s);
         s1 = w_env w (snd (draw s))
     in if w_fault w s1 = AtUpdate then (Inl OperationalError, s1)
        else if rowcount (claim_guard tid admissible s1) (work_queue s1) \<noteq> 1 then (Inr None, s1)
        else
          (let s2 = upd_tk (claim_guard tid admissible s1)
                      (claim_row_upd identity tier token expires now prov) s1;
               s3 = ticket_audit tid (Option.bind (raw s2 tid) task_id) TkOpen TkClaimed
                      ''applied'' identity '''' s2
           in if w_fault w s1 \<noteq> NoFault
              then (Inl OperationalError, s1\<lparr>bus := bus s3, uuid_ctr := uuid_ctr s3\<rparr>)
              else
                (case raw s3 tid of
                   None \<Rightarrow> (Inl (ValueError ''raw''), s3)
                 | Some r \<Rightarrow>
                     (Inr (Some \<lparr>cl_ticket_id = tid, cl_payload_ref = payload_ref r,
                        cl_privacy_class = privacy_class r, cl_lease_token = token,
                        cl_lease_expires_at = expires, cl_attempts = attempts r,
                        cl_status = status r\<rparr>), s3))))"

definition claim_candidates :: "string list \<Rightarrow> db \<Rightarrow> ticket list" where
  "claim_candidates admissible s =
    sort_key (\<lambda>t. priority_rank (priority t))
      (sort_key created_at
        (filter (\<lambda>t. status t = TkOpen \<and> privacy_class t \<in> set admissible) (work_queue s)))"

text \<open>The inner loop: the first candidate whose capabilities match and whose update wins.\<close>

fun claim_first ::
  "wq_config \<Rightarrow> world \<Rightarrow> string \<Rightarrow> string option \<Rightarrow> string list \<Rightarrow> string list \<Rightarrow> int option \<Rightarrow> real
    \<Rightarrow> ticket list \<Rightarrow> db \<Rightarrow> (exc + claim_row option) \<times> db" where
  "claim_first c w identity tier admissible caps lease_seconds now [] s = (Inr None, s)"
| "claim_first c w identity tier admissible caps lease_seconds now (row # rows) s =
    (if \<not> set (required_capabilities row) \<subseteq> set caps
     then claim_first c w identity tier admissible caps lease_seconds now rows s
     else
       (case try_claim c w (ticket_id row) identity tier admissible (provenance row)
               lease_seconds now s of
          (Inl e, s') \<Rightarrow> (Inl e, s')
        | (Inr (Some got), s') \<Rightarrow> (Inr (Some got), s')
        | (Inr None, s') \<Rightarrow>
            claim_first c w identity tier admissible caps lease_seconds now rows s'))"

text \<open>The outer loop, with the number of tickets still wanted as its bound.\<close>

fun claim_loop ::
  "nat \<Rightarrow> wq_config \<Rightarrow> world \<Rightarrow> string \<Rightarrow> string option \<Rightarrow> string list \<Rightarrow> string list \<Rightarrow> int option
    \<Rightarrow> real \<Rightarrow> claim_row list \<Rightarrow> db \<Rightarrow> claim_row list \<times> db" where
  "claim_loop 0 c w identity tier admissible caps lease_seconds now claimed s = (claimed, s)"
| "claim_loop (Suc n) c w identity tier admissible caps lease_seconds now claimed s =
    (case claim_first c w identity tier admissible caps lease_seconds now
            (claim_candidates admissible s) s of
       (Inl e, s') \<Rightarrow> (claimed, s')
     | (Inr None, s') \<Rightarrow> (claimed, s')
     | (Inr (Some won), s') \<Rightarrow>
         claim_loop n c w identity tier admissible caps lease_seconds now (claimed @ [won]) s')"

definition claim_next ::
  "wq_config \<Rightarrow> world \<Rightarrow> string \<Rightarrow> string option \<Rightarrow> string list \<Rightarrow> int \<Rightarrow> int option \<Rightarrow> real option
    \<Rightarrow> db \<Rightarrow> claim_row list \<times> db" where
  "claim_next c w identity tier caps mx lease_seconds now s =
    (let n = now_of now s;
         admissible = admissible_classes (routing c) tier
     in if admissible = [] then ([], s)
        else
          (let mx' = (if mx \<le> MAX_CLAIM_BATCH then mx else MAX_CLAIM_BATCH)
           in claim_loop (nat mx') c w identity tier admissible caps lease_seconds n [] s))"

definition claim ::
  "wq_config \<Rightarrow> world \<Rightarrow> string \<Rightarrow> string option \<Rightarrow> string \<Rightarrow> int option \<Rightarrow> real option
    \<Rightarrow> db \<Rightarrow> claim_row outcome \<times> db" where
  "claim c w identity tier tid lease_seconds now s =
    (let n = now_of now s;
         admissible = admissible_classes (routing c) tier
     in case raw s tid of
          None \<Rightarrow> (Err Unknown_ticket, s)
        | Some r \<Rightarrow>
            if privacy_class r \<notin> set admissible then (Err Not_authorized, s)
            else (case try_claim c w tid identity tier admissible (provenance r) lease_seconds n s of
                    (Inl e, s') \<Rightarrow> (Raised e, s')
                  | (Inr None, s') \<Rightarrow> (Err Not_claimable, s')
                  | (Inr (Some got), s') \<Rightarrow> (Ok got, s')))"

section \<open>Renewing and reading the payload\<close>

definition lease_guard :: "string \<Rightarrow> string \<Rightarrow> string \<Rightarrow> real \<Rightarrow> ticket \<Rightarrow> bool" where
  "lease_guard tid identity token now t \<longleftrightarrow>
    ticket_id t = tid \<and> status t = TkClaimed \<and> lease_holder t = Some identity
    \<and> lease_token t = Some token \<and> (case lease_expires_at t of None \<Rightarrow> False | Some e \<Rightarrow> e > now)"

definition renew ::
  "wq_config \<Rightarrow> string \<Rightarrow> string \<Rightarrow> string \<Rightarrow> int option \<Rightarrow> real option \<Rightarrow> db
    \<Rightarrow> (ticket_status \<times> real) outcome \<times> db" where
  "renew c identity tid token extend_seconds now s =
    (let n = now_of now s;
         extend = (case extend_seconds of None \<Rightarrow> default_lease_seconds c | Some e \<Rightarrow> e)
     in if extend \<le> 0 then (Err Invalid_extend_seconds, s)
        else
          (let expires = n + of_int (min extend MAX_LEASE_EXTEND_SECONDS)
           in if rowcount (lease_guard tid identity token n) (work_queue s) \<noteq> 1 then (Err Lease_lost, s)
              else (Ok (TkClaimed, expires),
                    upd_tk (lease_guard tid identity token n)
                      (\<lambda>t. t\<lparr>lease_expires_at := Some expires, updated_at := n\<rparr>) s)))"

text \<open>
  The loop of \<open>_read_artifact_full\<close> ends when a chunk has no next offset; on a row whose size
  column exceeds its content it would not, so its value is optional.
\<close>

partial_function (option) read_full_from :: "db \<Rightarrow> string \<Rightarrow> int \<Rightarrow> string \<Rightarrow> string option" where
  "read_full_from s aid offset parts =
    (case read_artifact_chunk s aid offset 65536 of
       None \<Rightarrow> Some parts
     | Some ch \<Rightarrow>
         (case ch_next_offset ch of
            None \<Rightarrow> Some (parts @ ch_content ch)
          | Some n \<Rightarrow> read_full_from s aid n (parts @ ch_content ch)))"

definition read_artifact_full :: "db \<Rightarrow> string \<Rightarrow> string option" where
  "read_artifact_full s aid = read_full_from s aid 0 []"

definition lease_live :: "string \<Rightarrow> string \<Rightarrow> real \<Rightarrow> ticket \<Rightarrow> bool" where
  "lease_live identity token now t \<longleftrightarrow>
    lease_holder t = Some identity \<and> lease_token t = Some token
    \<and> \<not> (case lease_expires_at t of None \<Rightarrow> 0 | Some e \<Rightarrow> e) \<le> now"

definition payload_for ::
  "wq_config \<Rightarrow> string \<Rightarrow> string \<Rightarrow> string \<Rightarrow> string option \<Rightarrow> real option \<Rightarrow> db
    \<Rightarrow> (string \<times> string \<times> string) outcome" where
  "payload_for c identity tid token tier now s =
    (let n = now_of now s
     in case raw s tid of
          None \<Rightarrow> Err Unknown_ticket
        | Some r \<Rightarrow>
            if status r \<noteq> TkClaimed \<or> \<not> lease_live identity token n r then Err Lease_lost
            else if tier \<noteq> None \<and> \<not> may_claim c tier (privacy_class r) then Err Not_authorized
            else if \<not> truthy (payload_ref r) then Err No_payload
            else (case read_artifact_full s (the (payload_ref r)) of
                    None \<Rightarrow> Diverges
                  | Some p \<Rightarrow> Ok (tid, p, the (payload_ref r))))"

section \<open>Reporting\<close>

text \<open>The status, result status, completion time and lease clearing a report decides on.\<close>

definition report_decision ::
  "ticket \<Rightarrow> bool \<Rightarrow> bool \<Rightarrow> real \<Rightarrow> ticket_status \<times> string \<times> real option \<times> bool" where
  "report_decision r succeeded trusted now =
    (if \<not> succeeded then
       (if attempts r < max_attempts r then (TkOpen, ''failed'', None, True)
        else (TkFailed, ''failed'', Some now, True))
     else if trusted then (TkDone, ''approved'', Some now, False)
     else (TkInReview, ''pending'', None, False))"

definition report_row_upd ::
  "ticket_status \<times> string \<times> real option \<times> bool \<Rightarrow> string \<Rightarrow> prov_event list \<Rightarrow> real \<Rightarrow> ticket \<Rightarrow> ticket" where
  "report_row_upd dec ref prov now t =
    (case dec of (new_status, rstatus, completed, clear) \<Rightarrow>
       (let t' = t\<lparr>status := new_status, result_ref := Some ref, result_status := Some rstatus,
                   completed_at := completed, provenance := prov, updated_at := now\<rparr>
        in if clear then clear_lease t' else t'))"

definition report_not_claimed :: "ticket \<Rightarrow> real \<Rightarrow> db \<Rightarrow> wq_error \<times> db" where
  "report_not_claimed r now s =
    (let s1 = (if status r = TkFailed then snd (cascade_failure (ticket_id r) now s) else s);
         s2 = (if status r = TkFailed then mirror_if (task_id r) FAILED s1
               else if status r = TkDone then mirror_if (task_id r) COMPLETE s1
               else if status r = TkInReview then mirror_if (task_id r) REVIEW_READY s1
               else s1)
     in (if status r = TkCancelled then Ticket_cancelled
         else if status r \<in> {TkInReview, TkDone, TkFailed} then Already_reported
         else Not_claimable, s2))"

definition report_evaluation :: "string option \<Rightarrow> string option \<Rightarrow> string \<Rightarrow> real option
    \<Rightarrow> worker_usage option \<Rightarrow> eval_record" where
  "report_evaluation provider task st confidence us =
    \<lparr>ev_provider = provider, ev_model = Option.bind us wu_model_id, ev_task_id = task,
     ev_agent_type = None, ev_status = st, ev_latency_ms = None,
     ev_input_tokens = map_option wu_input_tokens us,
     ev_output_tokens = map_option wu_output_tokens us, ev_cost_usd = Option.bind us wu_cost_usd,
     ev_confidence = confidence, ev_retries = None\<rparr>"

text \<open>What follows the commit of the fenced update: the evaluation row, the mirror, the cascade.\<close>

definition report_after ::
  "ticket \<Rightarrow> string \<Rightarrow> worker_result \<Rightarrow> bool \<Rightarrow> bool \<Rightarrow> ticket_status \<Rightarrow> real \<Rightarrow> db
    \<Rightarrow> (exc + unit) \<times> db" where
  "report_after r identity wr succeeded trusted new_status now s =
    (case record_evaluation
        (report_evaluation (Some identity) (task_id r)
          (if \<not> succeeded then ''failed'' else if trusted then ''completed'' else ''pending_review'')
          (Some (wr_confidence wr)) (wr_usage wr)) s of
       (Inl e, s1) \<Rightarrow> (Inl e, s1)
     | (Inr _, s1) \<Rightarrow>
         (Inr (),
          if \<not> succeeded then
            (if new_status = TkFailed
             then snd (cascade_failure (ticket_id r) now (mirror_if (task_id r) FAILED s1))
             else s1)
          else mirror_if (task_id r) (if trusted then COMPLETE else REVIEW_READY) s1))"

definition report_fenced ::
  "world \<Rightarrow> ticket \<Rightarrow> string \<Rightarrow> string option \<Rightarrow> string \<Rightarrow> worker_result \<Rightarrow> string \<Rightarrow> real \<Rightarrow> db
    \<Rightarrow> (ticket_status \<times> string \<times> string) outcome \<times> db" where
  "report_fenced w r identity tier token wr ref now s =
    (let tid = ticket_id r;
         trusted = (tier = TRUSTED_TIER \<and> lease_tier r = TRUSTED_TIER);
         succeeded = (wr_status wr = ''completed'');
         prov = provenance r @ [PReport identity tier (wr_status wr) now];
         dec = report_decision r succeeded trusted now;
         hit = lease_guard tid identity token now
     in if w_fault w s = AtUpdate then (Raised OperationalError, s)
        else if rowcount hit (work_queue s) \<noteq> 1 then (Err Lease_lost, delete_artifact ref s)
        else
          (let s1 = upd_tk hit (report_row_upd dec ref prov now) s;
               s2 = ticket_audit tid (task_id r) TkClaimed (fst dec) ''applied'' identity
                      (''worker_status='' @ wr_status wr) s1
           in case w_fault w s of
                AtCommit cleaned \<Rightarrow>
                  (let s3 = s\<lparr>bus := bus s2, uuid_ctr := uuid_ctr s2\<rparr>
                   in (Raised OperationalError, if cleaned then delete_artifact ref s3 else s3))
              | _ \<Rightarrow>
                  (case report_after r identity wr succeeded trusted (fst dec) now s2 of
                     (Inl e, s4) \<Rightarrow> (Raised e, s4)
                   | (Inr _, s4) \<Rightarrow> (Ok (fst dec, fst (snd dec), ref), s4))))"

text \<open>\<open>result\<close> is \<open>None\<close> for a dictionary that is no \<open>WorkerResult\<close>: the constructor raises.\<close>

definition report ::
  "wq_config \<Rightarrow> world \<Rightarrow> string \<Rightarrow> string option \<Rightarrow> string \<Rightarrow> string \<Rightarrow> worker_result option
    \<Rightarrow> real option \<Rightarrow> db \<Rightarrow> (ticket_status \<times> string \<times> string) outcome \<times> db" where
  "report c w identity tier tid token result now s =
    (let n = now_of now s
     in case raw s tid of
          None \<Rightarrow> (Err Unknown_ticket, s)
        | Some r \<Rightarrow>
            if status r \<noteq> TkClaimed then (case report_not_claimed r n s of (e, s1) \<Rightarrow> (Err e, s1))
            else if \<not> lease_live identity token n r then (Err Lease_lost, s)
            else
              (case result of
                 None \<Rightarrow> (Raised (ValueError ''WorkerResult''), s)
               | Some wr \<Rightarrow>
                   (case put_artifact (task_id r) ''work_result'' (model_dump_json c wr) ''text/plain'' s of
                      (Inl e, s1) \<Rightarrow> (Raised e, s1)
                    | (Inr ref, s1) \<Rightarrow>
                        report_fenced w r identity tier token wr ref n (w_env w s1))))"

section \<open>Reviewing\<close>

text \<open>The usage columns of an evaluation row; the inner \<open>None\<close> is the all-\<open>None\<close> dictionary.\<close>

definition result_usage :: "wq_config \<Rightarrow> db \<Rightarrow> string option \<Rightarrow> worker_usage option option" where
  "result_usage c s ref =
    (if \<not> truthy ref then Some None
     else (case read_artifact_full s (the ref) of
             None \<Rightarrow> None
           | Some txt \<Rightarrow>
               (case model_validate_json c txt of None \<Rightarrow> Some None | Some wr \<Rightarrow> Some (wr_usage wr))))"

definition review_evaluate ::
  "wq_config \<Rightarrow> ticket \<Rightarrow> string \<Rightarrow> db \<Rightarrow> unit outcome \<times> db" where
  "review_evaluate c r st s =
    (case result_usage c s (result_ref r) of
       None \<Rightarrow> (Diverges, s)
     | Some us \<Rightarrow>
         (case record_evaluation (report_evaluation (lease_holder r) (task_id r) st None us) s of
            (Inl e, s1) \<Rightarrow> (Raised e, s1)
          | (Inr _, s1) \<Rightarrow> (Ok (), s1)))"

definition review_guard :: "string \<Rightarrow> ticket \<Rightarrow> bool" where
  "review_guard tid t \<longleftrightarrow> ticket_id t = tid \<and> status t = TkInReview"

definition approve_row :: "prov_event list \<Rightarrow> real \<Rightarrow> ticket \<Rightarrow> ticket" where
  "approve_row prov now t =
    t\<lparr>status := TkDone, result_status := Some ''approved'', completed_at := Some now,
      provenance := prov, updated_at := now\<rparr>"

definition approve ::
  "wq_config \<Rightarrow> world \<Rightarrow> string \<Rightarrow> string option \<Rightarrow> string \<Rightarrow> real option \<Rightarrow> db
    \<Rightarrow> (ticket_status \<times> string) outcome \<times> db" where
  "approve c w reviewer tier tid now s =
    (let n = now_of now s
     in if tier \<noteq> TRUSTED_TIER then (Err Reviewer_not_authorized, s)
        else case raw s tid of
          None \<Rightarrow> (Err Unknown_ticket, s)
        | Some r \<Rightarrow>
            if status r \<noteq> TkInReview then (Err Not_in_review, s)
            else
              (let prov = provenance r @ [PReview reviewer ''approved'' None n];
                   s1 = w_env w s
               in if rowcount (review_guard tid) (work_queue s1) \<noteq> 1 then (Err Not_in_review, s1)
                  else
                    (let s2 = upd_tk (review_guard tid) (approve_row prov n) s1;
                         s3 = ticket_audit tid (task_id r) TkInReview TkDone ''applied'' reviewer '''' s2
                     in case review_evaluate c r ''completed'' s3 of
                          (Ok _, s4) \<Rightarrow> (Ok (TkDone, ''approved''), mirror_if (task_id r) COMPLETE s4)
                        | (Err e, s4) \<Rightarrow> (Err e, s4)
                        | (Raised e, s4) \<Rightarrow> (Raised e, s4)
                        | (Diverges, s4) \<Rightarrow> (Diverges, s4))))"

definition reject_row :: "bool \<Rightarrow> prov_event list \<Rightarrow> real \<Rightarrow> ticket \<Rightarrow> ticket" where
  "reject_row requeue prov now t =
    clear_lease (t\<lparr>status := (if requeue then TkOpen else TkFailed),
      result_status := Some ''rejected'', provenance := prov, updated_at := now\<rparr>)"

definition reject ::
  "wq_config \<Rightarrow> world \<Rightarrow> string \<Rightarrow> string option \<Rightarrow> string \<Rightarrow> string \<Rightarrow> real option \<Rightarrow> db
    \<Rightarrow> (ticket_status \<times> string) outcome \<times> db" where
  "reject c w reviewer tier tid reason now s =
    (let n = now_of now s
     in if tier \<noteq> TRUSTED_TIER then (Err Reviewer_not_authorized, s)
        else case raw s tid of
          None \<Rightarrow> (Err Unknown_ticket, s)
        | Some r \<Rightarrow>
            if status r \<noteq> TkInReview then
              (Err Not_in_review,
               if status r = TkFailed
               then mirror_if (task_id r) FAILED (snd (cascade_failure tid n s)) else s)
            else
              (let prov = provenance r @ [PReview reviewer ''rejected'' (Some reason) n];
                   requeue = (attempts r < max_attempts r);
                   s1 = w_env w s
               in if rowcount (review_guard tid) (work_queue s1) \<noteq> 1 then (Err Not_in_review, s1)
                  else
                    (let s2 = upd_tk (review_guard tid) (reject_row requeue prov n) s1;
                         s3 = ticket_audit tid (task_id r) TkInReview
                                (if requeue then TkOpen else TkFailed) ''applied'' reviewer reason s2
                     in case review_evaluate c r ''failed'' s3 of
                          (Ok _, s4) \<Rightarrow>
                            if requeue then (Ok (TkOpen, ''rejected''), s4)
                            else (Ok (TkFailed, ''rejected''),
                                  snd (cascade_failure tid n (mirror_if (task_id r) FAILED s4)))
                        | (Err e, s4) \<Rightarrow> (Err e, s4)
                        | (Raised e, s4) \<Rightarrow> (Raised e, s4)
                        | (Diverges, s4) \<Rightarrow> (Diverges, s4))))"

section \<open>Dependencies\<close>

definition parents_of :: "(string \<times> string) list \<Rightarrow> string \<Rightarrow> string list" where
  "parents_of deps x = map snd (filter (\<lambda>(c, p). c = x) deps)"

text \<open>
  The recursive query \<open>reach(id)\<close> of the cycle guard, evaluated as SQLite does: a queue of rows,
  each extracted once and joined with the edges, \<open>UNION\<close> dropping the ones already produced.
\<close>

function (sequential) reach_loop ::
  "(string \<times> string) list \<Rightarrow> string list \<Rightarrow> string list \<Rightarrow> string list" where
  "reach_loop deps [] found = found"
| "reach_loop deps (x # queue) found =
    (let new = filter (\<lambda>y. y \<notin> set found) (remdups (parents_of deps x))
     in reach_loop deps (queue @ new) (found @ new))"
  by pat_completeness auto

termination
proof (relation "measure (\<lambda>(deps, queue, found). card (snd ` set deps - set found) + length queue)", simp)
  fix deps and x :: string and queue found new :: "string list"
  assume new: "new = filter (\<lambda>y. y \<notin> set found) (remdups (parents_of deps x))"
  let ?U = "snd ` set deps - set found"
  have sub: "set new \<subseteq> ?U" by (auto simp: new parents_of_def)
  have "distinct new" by (simp add: new)
  then have len: "length new = card (set new)" by (simp add: distinct_card)
  have "snd ` set deps - set (found @ new) = ?U - set new" by auto
  moreover have "card (?U - set new) = card ?U - card (set new)" "card (set new) \<le> card ?U"
    using sub by (auto intro: card_Diff_subset card_mono)
  ultimately show "((deps, queue @ new, found @ new), deps, x # queue, found)
    \<in> measure (\<lambda>(deps, queue, found). card (snd ` set deps - set found) + length queue)"
    using len by simp
qed

definition reach :: "(string \<times> string) list \<Rightarrow> string \<Rightarrow> string list" where
  "reach deps start = reach_loop deps [start] [start]"

text \<open>The depth-first search \<open>_depends_transitively\<close>; the head of the list is the top of its stack.\<close>

function (sequential) dfs_loop ::
  "(string \<times> string) list \<Rightarrow> string \<Rightarrow> string list \<Rightarrow> string list \<Rightarrow> bool" where
  "dfs_loop deps target [] seen = False"
| "dfs_loop deps target (cur # stack) seen =
    (if cur = target then True
     else if cur \<in> set seen then dfs_loop deps target stack seen
     else dfs_loop deps target (rev (parents_of deps cur) @ stack) (cur # seen))"
  by pat_completeness auto

termination
proof (relation "(\<lambda>(deps, target, stack, seen). card ((set stack \<union> snd ` set deps) - set seen))
    <*mlex*> measure (\<lambda>(deps, target, stack, seen). length stack)", goal_cases)
  case 1
  show ?case by (simp add: wf_mlex)
next
  case (2 deps target cur stack seen)
  then have "(set stack \<union> snd ` set deps) - set seen \<subseteq> (set (cur # stack) \<union> snd ` set deps) - set seen"
    by auto
  then have "card ((set stack \<union> snd ` set deps) - set seen)
      \<le> card ((set (cur # stack) \<union> snd ` set deps) - set seen)" by (intro card_mono) auto
  then show ?case by (auto intro: mlex_leq)
next
  case (3 deps target cur stack seen)
  have "(set (rev (parents_of deps cur) @ stack) \<union> snd ` set deps) - set (cur # seen)
      \<subset> (set (cur # stack) \<union> snd ` set deps) - set seen"
    using 3 by (auto simp: parents_of_def)
  then have "card ((set (rev (parents_of deps cur) @ stack) \<union> snd ` set deps) - set (cur # seen))
      < card ((set (cur # stack) \<union> snd ` set deps) - set seen)" by (intro psubset_card_mono) auto
  then show ?case by (auto intro: mlex_less)
qed

definition depends_transitively :: "db \<Rightarrow> string \<Rightarrow> string \<Rightarrow> bool" where
  "depends_transitively s start target = dfs_loop (work_queue_deps s) target [start] []"

definition link :: "wq_config \<Rightarrow> world \<Rightarrow> string \<Rightarrow> string \<Rightarrow> db \<Rightarrow> unit outcome \<times> db" where
  "link c w tid dep s =
    (case (raw s tid, raw s dep) of
       (Some child, Some parent) \<Rightarrow>
         if tid = dep then (Err Self_dependency, s)
         else if status child \<in> {TkClaimed, TkInReview} then (Err Child_not_linkable, s)
         else if \<not> set (allowed_tiers (routing c) (privacy_class child))
                   \<subseteq> set (allowed_tiers (routing c) (privacy_class parent))
           then (Err (Privacy_downgrade None), s)
         else if (tid, dep) \<in> set (work_queue_deps s) then (Ok (), s)
         else
           (let s1 = w_env w s
            in if tid \<notin> set (reach (work_queue_deps s1) dep)
                  \<and> (case raw s1 tid of None \<Rightarrow> False | Some t \<Rightarrow> status t \<notin> {TkClaimed, TkInReview})
               then (if (tid, dep) \<in> set (work_queue_deps s1) then (Raised IntegrityError, s1)
                     else (Ok (), s1\<lparr>work_queue_deps := work_queue_deps s1 @ [(tid, dep)]\<rparr>))
               else (case raw s1 tid of
                       Some t \<Rightarrow> if status t \<in> {TkClaimed, TkInReview} then (Err Child_not_linkable, s1)
                                 else (Err Dependency_cycle, s1)
                     | None \<Rightarrow> (Err Dependency_cycle, s1)))
     | _ \<Rightarrow> (Err Unknown_ticket, s))"

section \<open>Cancellation and the reaper\<close>

definition cancel_row :: "prov_event list \<Rightarrow> real \<Rightarrow> ticket \<Rightarrow> ticket" where
  "cancel_row prov now t =
    clear_lease (t\<lparr>status := TkCancelled, result_status := Some ''cancelled'',
      park_reason := Some ''task_cancelled'', provenance := prov, updated_at := now,
      completed_at := Some now\<rparr>)"

definition cancel_one :: "string \<Rightarrow> real \<Rightarrow> ticket \<Rightarrow> db \<Rightarrow> db" where
  "cancel_one task now row s =
    ticket_audit (ticket_id row) (Some task) (status row) TkCancelled ''applied'' ''router''
      ''task_cancelled''
      (upd_tk (\<lambda>t. ticket_id t = ticket_id row \<and> \<not> tk_terminal (status t))
        (cancel_row (provenance row @ [PCancel ''task_cancelled'' now]) now) s)"

definition cancel_for_task :: "string \<Rightarrow> real option \<Rightarrow> db \<Rightarrow> string list \<times> db" where
  "cancel_for_task task now s =
    (let n = now_of now s;
         rows = filter (\<lambda>t. task_id t = Some task \<and> \<not> tk_terminal (status t)) (work_queue s);
         s1 = fold (cancel_one task n) rows s;
         cancelled = map ticket_id rows
     in (cancelled, fold (\<lambda>tid s. snd (cascade_failure tid n s)) cancelled s1))"

definition lease_expired :: "real \<Rightarrow> ticket \<Rightarrow> bool" where
  "lease_expired now t \<longleftrightarrow>
    status t = TkClaimed \<and> (case lease_expires_at t of None \<Rightarrow> False | Some e \<Rightarrow> e < now)"

definition reap_requeue_row :: "real \<Rightarrow> ticket \<Rightarrow> ticket" where
  "reap_requeue_row now t = clear_lease (t\<lparr>status := TkOpen, updated_at := now\<rparr>)"

definition reap_park_row :: "real \<Rightarrow> ticket \<Rightarrow> ticket" where
  "reap_park_row now t =
    clear_lease (t\<lparr>status := TkParked, park_reason := Some ''max_attempts_exhausted'', updated_at := now\<rparr>)"

definition stranded :: "db \<Rightarrow> ticket \<Rightarrow> bool" where
  "stranded s p \<longleftrightarrow>
    (status p \<in> {TkFailed, TkCancelled}
      \<or> status p = TkParked \<and> park_reason p = Some ''max_attempts_exhausted'')
    \<and> list_ex (\<lambda>(ch, dep). dep = ticket_id p
         \<and> list_ex (\<lambda>t. ticket_id t = ch \<and> \<not> tk_terminal (status t)) (work_queue s)) (work_queue_deps s)"

definition desynced :: "db \<Rightarrow> ticket \<Rightarrow> bool" where
  "desynced s t \<longleftrightarrow>
    status t \<in> {TkDone, TkFailed} \<and>
    list_ex (\<lambda>r. Some (t_id r) = task_id t \<and> t_state r \<notin> TERMINAL_STATES) (tasks s)"

definition reap_expired :: "real option \<Rightarrow> db \<Rightarrow> (string list \<times> string list) \<times> db" where
  "reap_expired now s =
    (let n = now_of now s;
         again = (\<lambda>t. lease_expired n t \<and> attempts t < max_attempts t);
         spent = (\<lambda>t. lease_expired n t \<and> attempts t \<ge> max_attempts t);
         requeued = filter again (work_queue s);
         s1 = upd_tk again (reap_requeue_row n) s;
         s2 = fold (\<lambda>t. ticket_audit (ticket_id t) (task_id t) TkClaimed TkOpen ''applied'' ''reaper''
                      ''lease_expired'') requeued s1;
         parked = filter spent (work_queue s2);
         s3 = upd_tk spent (reap_park_row n) s2;
         s4 = fold (\<lambda>t. ticket_audit (ticket_id t) (task_id t) TkClaimed TkParked ''applied'' ''reaper''
                      ''max_attempts_exhausted'') parked s3;
         s5 = fold (\<lambda>t s. snd (cascade_failure (ticket_id t) n (mirror_if (task_id t) FAILED s)))
                parked s4;
         s6 = fold (\<lambda>p s. snd (cascade_failure (ticket_id p) n s))
                (filter (stranded s5) (work_queue s5)) s5;
         s7 = fold (\<lambda>t s. mirror_task_state (the (task_id t))
                      (if status t = TkDone then COMPLETE else FAILED) s)
                (filter (desynced s6) (work_queue s6)) s6
     in ((map ticket_id requeued, map ticket_id parked), s7))"

section \<open>Views\<close>

datatype derived_status = Stored ticket_status | Blocked

definition derived_status :: "db \<Rightarrow> ticket \<Rightarrow> derived_status" where
  "derived_status s t =
    (if status t = TkOpen \<and> is_blocked s (ticket_id t) then Blocked else Stored (status t))"

record status_row =
  sr_ticket_id :: string
  sr_status :: derived_status
  sr_privacy_class :: string
  sr_priority :: string
  sr_attempts :: int
  sr_max_attempts :: int
  sr_result_status :: "string option"
  sr_assignee :: "string option"
  sr_park_reason :: "string option"
  sr_payload_ref :: "string option"

definition mk_status_row :: "db \<Rightarrow> ticket \<Rightarrow> status_row" where
  "mk_status_row s t =
    \<lparr>sr_ticket_id = ticket_id t, sr_status = derived_status s t, sr_privacy_class = privacy_class t,
     sr_priority = priority t, sr_attempts = attempts t, sr_max_attempts = max_attempts t,
     sr_result_status = result_status t, sr_assignee = assignee t, sr_park_reason = park_reason t,
     sr_payload_ref = payload_ref t\<rparr>"

record operator_row =
  or_ticket_id :: string
  or_status :: derived_status
  or_privacy_class :: string
  or_allowed_tiers :: "string list"
  or_required_capabilities :: "string list"
  or_priority :: string
  or_attempts :: int
  or_max_attempts :: int
  or_result_status :: "string option"
  or_assignee :: "string option"
  or_park_reason :: "string option"
  or_origin :: string
  or_payload_ref :: "string option"
  or_result_ref :: "string option"
  or_provenance :: "prov_event list"
  or_created_at :: real
  or_updated_at :: real

definition mk_operator_row :: "db \<Rightarrow> ticket \<Rightarrow> operator_row" where
  "mk_operator_row s t =
    \<lparr>or_ticket_id = ticket_id t, or_status = derived_status s t, or_privacy_class = privacy_class t,
     or_allowed_tiers = allowed_tiers_col t, or_required_capabilities = required_capabilities t,
     or_priority = priority t, or_attempts = attempts t, or_max_attempts = max_attempts t,
     or_result_status = result_status t, or_assignee = assignee t, or_park_reason = park_reason t,
     or_origin = origin t, or_payload_ref = payload_ref t, or_result_ref = result_ref t,
     or_provenance = provenance t, or_created_at = created_at t, or_updated_at = updated_at t\<rparr>"

definition newest_first :: "int \<Rightarrow> ticket list \<Rightarrow> ticket list" where
  "newest_first limit rows = take (nat (clamp_limit limit)) (sort_key (\<lambda>t. - updated_at t) rows)"

definition status_list ::
  "db \<Rightarrow> string option \<Rightarrow> ticket_status option \<Rightarrow> int \<Rightarrow> status_row list" where
  "status_list s tid st limit =
    map (mk_status_row s)
      (case tid of
         Some i \<Rightarrow> filter (\<lambda>t. ticket_id t = i) (work_queue s)
       | None \<Rightarrow>
           newest_first limit
             (case st of Some x \<Rightarrow> filter (\<lambda>t. status t = x) (work_queue s) | None \<Rightarrow> work_queue s))"

definition list_tickets ::
  "db \<Rightarrow> ticket_status option \<Rightarrow> string option \<Rightarrow> int \<Rightarrow> operator_row list" where
  "list_tickets s st pc limit =
    map (mk_operator_row s)
      (newest_first limit
        (filter (\<lambda>t. (case st of None \<Rightarrow> True | Some x \<Rightarrow> status t = x)
                  \<and> (case pc of None \<Rightarrow> True | Some p \<Rightarrow> privacy_class t = p)) (work_queue s)))"

definition pending_review :: "db \<Rightarrow> int \<Rightarrow> operator_row list" where
  "pending_review s limit = list_tickets s (Some TkInReview) None limit"

definition capability_key :: "ticket \<Rightarrow> string list" where
  "capability_key t = sort (remdups (required_capabilities t))"

definition open_capability_requirements :: "db \<Rightarrow> (string list \<times> nat) list" where
  "open_capability_requirements s =
    (let ks = map capability_key (filter (\<lambda>t. status t = TkOpen) (work_queue s))
     in map (\<lambda>k. (k, count_list ks k)) (sort (remdups ks)))"

record queue_stats =
  qs_by_status :: "(ticket_status \<times> nat) list"
  qs_by_privacy_class :: "(string \<times> nat) list"
  qs_capability_requirements :: "(string list \<times> nat) list"

definition group_count :: "('a \<Rightarrow> 'k) \<Rightarrow> 'a list \<Rightarrow> ('k \<times> nat) list" where
  "group_count f rows = map (\<lambda>k. (k, rowcount (\<lambda>r. f r = k) rows)) (remdups (map f rows))"

definition stats :: "db \<Rightarrow> queue_stats" where
  "stats s =
    \<lparr>qs_by_status = group_count status (work_queue s),
     qs_by_privacy_class = group_count privacy_class (work_queue s),
     qs_capability_requirements = open_capability_requirements s\<rparr>"

end
