(* ===== verification/Queue_Lifecycle.thy ===== *)
theory Queue_Lifecycle
  imports Work_Queue
begin

text \<open>
  The abstract specification of the work queue: the life cycle of one ticket as a step relation
  (\<open>tk_step\<close>, one rule per fenced UPDATE), the steps of the two tables (\<open>qstep\<close>), the stores a run
  of the queue can lead to (\<open>evolves\<close>), and the invariant \<open>wq_inv\<close> with its preservation by rule
  induction. That the methods of the queue refine these steps is the next theory.
\<close>

section \<open>Ticket steps\<close>

inductive tk_step :: "routing_privacy \<Rightarrow> string set \<Rightarrow> db \<Rightarrow> ticket \<Rightarrow> ticket \<Rightarrow> bool"
  for r T s where
  step_claim:
    "status t = TkOpen \<Longrightarrow> privacy_class t \<in> set (admissible_classes r tier)
      \<Longrightarrow> \<not> is_blocked s (ticket_id t) \<Longrightarrow> \<not> task_cancelled s (task_id t)
      \<Longrightarrow> token \<in> T \<Longrightarrow> token \<in> uuids s ` {..<uuid_ctr s}
      \<Longrightarrow> tk_step r T s t (claim_row_upd identity tier token expires now prov t)"
| step_renew:
    "status t = TkClaimed
      \<Longrightarrow> tk_step r T s t (t\<lparr>lease_expires_at := Some expires, updated_at := now\<rparr>)"
| step_report:
    "status t = TkClaimed
      \<Longrightarrow> dec = report_decision t (st = ''completed'') (tier = TRUSTED_TIER \<and> lease_tier t = TRUSTED_TIER) now
      \<Longrightarrow> tk_step r T s t (report_row_upd dec ref (prov @ [PReport identity tier st now]) now t)"
| step_approve:
    "status t = TkInReview
      \<Longrightarrow> tk_step r T s t (approve_row (prov @ [PReview reviewer ''approved'' None now]) now t)"
| step_reject:
    "status t = TkInReview \<Longrightarrow> (requeue \<Longrightarrow> attempts t < max_attempts t)
      \<Longrightarrow> tk_step r T s t (reject_row requeue (prov @ [PReview reviewer ''rejected'' (Some reason) now]) now t)"
| step_cancel:
    "\<not> tk_terminal (status t) \<Longrightarrow> tk_step r T s t (cancel_row (prov @ [PCancel cause now]) now t)"
| step_requeue:
    "lease_expired now t \<Longrightarrow> attempts t < max_attempts t \<Longrightarrow> tk_step r T s t (reap_requeue_row now t)"
| step_park:
    "lease_expired now t \<Longrightarrow> attempts t \<ge> max_attempts t \<Longrightarrow> tk_step r T s t (reap_park_row now t)"
| step_cascade:
    "\<not> tk_terminal (status t) \<Longrightarrow> (ticket_id t, parent) \<in> set (work_queue_deps s)
      \<Longrightarrow> \<not> parent_done s parent \<Longrightarrow> tk_step r T s t (cascade_row parent now prov t)"

lemmas row_upd_defs = claim_row_upd_def report_row_upd_def approve_row_def reject_row_def
  cancel_row_def reap_requeue_row_def reap_park_row_def cascade_row_def clear_lease_def

lemma report_decision_cases:
  obtains
    (requeue) "report_decision r ok tr now = (TkOpen, ''failed'', None, True)" "\<not> ok" "attempts r < max_attempts r"
  | (fail) "report_decision r ok tr now = (TkFailed, ''failed'', Some now, True)" "\<not> ok" "\<not> attempts r < max_attempts r"
  | (accept) "report_decision r ok tr now = (TkDone, ''approved'', Some now, False)" "ok" "tr"
  | (review) "report_decision r ok tr now = (TkInReview, ''pending'', None, False)" "ok" "\<not> tr"
  by (cases ok; cases tr; cases "attempts r < max_attempts r") (auto simp: report_decision_def)

text \<open>What no step changes.\<close>

lemma row_upd_keeps [simp]:
  "ticket_id (claim_row_upd a b c d e f t) = ticket_id t"
  "ticket_id (report_row_upd dec g h e t) = ticket_id t"
  "ticket_id (approve_row h e t) = ticket_id t"
  "ticket_id (reject_row q h e t) = ticket_id t"
  "ticket_id (cancel_row h e t) = ticket_id t"
  "ticket_id (reap_requeue_row e t) = ticket_id t"
  "ticket_id (reap_park_row e t) = ticket_id t"
  "ticket_id (cascade_row p e h t) = ticket_id t"
  by (simp_all add: row_upd_defs Let_def split: prod.split)

definition same_identity :: "ticket \<Rightarrow> ticket \<Rightarrow> bool" where
  "same_identity t t' \<longleftrightarrow> ticket_id t' = ticket_id t \<and> dedup_key t' = dedup_key t
    \<and> task_id t' = task_id t \<and> payload_ref t' = payload_ref t \<and> privacy_class t' = privacy_class t
    \<and> max_attempts t' = max_attempts t \<and> origin t' = origin t \<and> created_at t' = created_at t
    \<and> required_capabilities t' = required_capabilities t \<and> allowed_tiers_col t' = allowed_tiers_col t"

lemma same_identity_refl [simp]: "same_identity t t"
  by (simp add: same_identity_def)

lemma same_identity_trans: "same_identity a b \<Longrightarrow> same_identity b c \<Longrightarrow> same_identity a c"
  by (simp add: same_identity_def)

lemma tk_step_identity: "tk_step r T s t t' \<Longrightarrow> same_identity t t'"
  by (erule tk_step.cases)
    (auto simp: same_identity_def row_upd_defs Let_def split: prod.split)

lemma tk_step_source: "tk_step r T s t t' \<Longrightarrow> \<not> tk_terminal (status t)"
  by (cases rule: tk_step.cases) (auto simp: tk_terminal_def lease_expired_def)

section \<open>Table steps\<close>

definition artifacts_ok :: "db \<Rightarrow> bool" where
  "artifacts_ok s \<longleftrightarrow> (\<forall>a \<in> set (artifacts s). a_size a = int (length (a_content a)))"

definition base :: "db \<Rightarrow> db \<Rightarrow> bool" where
  "base s s' \<longleftrightarrow> uuids s' = uuids s \<and> uuid_ctr s \<le> uuid_ctr s' \<and> (artifacts_ok s \<longrightarrow> artifacts_ok s')"

definition tiers_of :: "routing_privacy \<Rightarrow> ticket \<Rightarrow> string set" where
  "tiers_of r t = set (allowed_tiers r (privacy_class t))"

inductive qstep :: "routing_privacy \<Rightarrow> string set \<Rightarrow> db \<Rightarrow> db \<Rightarrow> bool" for r T where
  q_frame:
    "work_queue s' = work_queue s \<Longrightarrow> work_queue_deps s' = work_queue_deps s \<Longrightarrow> base s s'
      \<Longrightarrow> qstep r T s s'"
| q_update:
    "work_queue s' = upd_where P f (work_queue s) \<Longrightarrow> work_queue_deps s' = work_queue_deps s
      \<Longrightarrow> (\<And>t. t \<in> set (work_queue s) \<Longrightarrow> P t \<Longrightarrow> tk_step r T s t (f t)) \<Longrightarrow> base s s'
      \<Longrightarrow> qstep r T s s'"
| q_insert:
    "work_queue s' = work_queue s @ [new_ticket c a tid ref now]
      \<Longrightarrow> work_queue_deps s' = fold (insert_dep tid) ds (work_queue_deps s)
      \<Longrightarrow> routing c = r \<Longrightarrow> raw s tid = None
      \<Longrightarrow> (\<And>t. t \<in> set (work_queue s) \<Longrightarrow> ad_dedup_key a \<noteq> None \<Longrightarrow> dedup_key t \<noteq> ad_dedup_key a)
      \<Longrightarrow> (\<And>d. d \<in> set ds \<Longrightarrow> \<exists>p. raw s d = Some p
             \<and> set (allowed_tiers r (ad_privacy_class a)) \<subseteq> tiers_of r p)
      \<Longrightarrow> base s s' \<Longrightarrow> qstep r T s s'"
| q_link:
    "work_queue s' = work_queue s \<Longrightarrow> work_queue_deps s' = work_queue_deps s @ [(child, parent)]
      \<Longrightarrow> (child, parent) \<notin> set (work_queue_deps s)
      \<Longrightarrow> raw s child = Some ct \<Longrightarrow> raw s parent = Some pt \<Longrightarrow> status ct \<notin> {TkClaimed, TkInReview}
      \<Longrightarrow> tiers_of r ct \<subseteq> tiers_of r pt \<Longrightarrow> (parent, child) \<notin> (set (work_queue_deps s))\<^sup>*
      \<Longrightarrow> base s s' \<Longrightarrow> qstep r T s s'"

definition fresh_tokens :: "db \<Rightarrow> string set" where
  "fresh_tokens s = uuids s ` {uuid_ctr s..}"

definition evolves :: "routing_privacy \<Rightarrow> db \<Rightarrow> db \<Rightarrow> bool" where
  "evolves r s s' \<longleftrightarrow> (qstep r (fresh_tokens s))\<^sup>*\<^sup>* s s'"

lemma base_refl [simp]: "base s s"
  by (simp add: base_def)

lemma base_trans: "base a b \<Longrightarrow> base b c \<Longrightarrow> base a c"
  by (auto simp: base_def)

lemma qstep_base: "qstep r T s s' \<Longrightarrow> base s s'"
  by (cases rule: qstep.cases) auto

lemma qsteps_base: "(qstep r T)\<^sup>*\<^sup>* s s' \<Longrightarrow> base s s'"
  by (induction rule: rtranclp_induct) (auto intro: base_trans qstep_base)

lemma tk_step_mono: "tk_step r T s t t' \<Longrightarrow> T \<subseteq> T' \<Longrightarrow> tk_step r T' s t t'"
  by (cases rule: tk_step.cases) (auto intro: tk_step.intros)

lemma qstep_mono:
  assumes "qstep r T s s'" and sub: "T \<subseteq> T'"
  shows "qstep r T' s s'"
  using assms(1)
proof (cases rule: qstep.cases)
  case (q_update P f)
  with sub show ?thesis by (intro qstep.q_update [of s' P f]) (auto intro: tk_step_mono)
qed (auto intro: qstep.intros)

lemma fresh_tokens_mono: "base s s' \<Longrightarrow> fresh_tokens s' \<subseteq> fresh_tokens s"
  by (auto simp: base_def fresh_tokens_def)

lemma evolves_refl [simp]: "evolves r s s"
  by (simp add: evolves_def)

lemma evolves_trans: "evolves r a b \<Longrightarrow> evolves r b c \<Longrightarrow> evolves r a c"
proof -
  assume ab: "evolves r a b" and bc: "evolves r b c"
  then have "fresh_tokens b \<subseteq> fresh_tokens a"
    unfolding evolves_def by (metis fresh_tokens_mono qsteps_base)
  then have "(qstep r (fresh_tokens b))\<^sup>*\<^sup>* \<le> (qstep r (fresh_tokens a))\<^sup>*\<^sup>*"
    by (intro rtranclp_mono) (auto intro: qstep_mono)
  with ab bc show ?thesis unfolding evolves_def by auto
qed

lemma evolves_step: "qstep r (fresh_tokens s) s s' \<Longrightarrow> evolves r s s'"
  by (auto simp: evolves_def)

lemma evolves_base: "evolves r s s' \<Longrightarrow> base s s'"
  by (auto simp: evolves_def dest: qsteps_base)

lemma evolves_frame:
  "work_queue s' = work_queue s \<Longrightarrow> work_queue_deps s' = work_queue_deps s \<Longrightarrow> base s s' \<Longrightarrow> evolves r s s'"
  by (rule evolves_step) (rule q_frame)

section \<open>Rows along a run\<close>

lemma row_of_update:
  assumes "\<And>t. t \<in> set rows \<Longrightarrow> P t \<Longrightarrow> ticket_id (f t) = ticket_id t"
  shows "row_of ticket_id tid (upd_where P f rows)
    = map_option (\<lambda>t. if P t then f t else t) (row_of ticket_id tid rows)"
  using assms by (induction rows) auto

lemma qstep_row:
  assumes "qstep r T s s'" and "raw s tid = Some t"
  obtains (same) "raw s' tid = Some t"
  | (step) t' where "raw s' tid = Some t'" "tk_step r T s t t'"
  using assms(1)
proof (cases rule: qstep.cases)
  case (q_update P f)
  have "ticket_id (f u) = ticket_id u" if "u \<in> set (work_queue s)" "P u" for u
    using tk_step_identity [OF q_update(3) [OF that]] by (simp add: same_identity_def)
  then have "raw s' tid = Some (if P t then f t else t)"
    using assms(2) by (simp add: raw_def q_update(1) row_of_update)
  moreover have "t \<in> set (work_queue s)" using assms(2) by (auto simp: raw_def dest: row_of_SomeD)
  ultimately show ?thesis using q_update(3) same step by (cases "P t") auto
qed (use assms(2) same in \<open>auto simp: raw_def\<close>)

lemma evolves_row:
  assumes "evolves r s s'" and "raw s tid = Some t"
  shows "\<exists>t'. raw s' tid = Some t' \<and> same_identity t t' \<and> (tk_terminal (status t) \<longrightarrow> t' = t)"
  using assms(1)[unfolded evolves_def]
proof (induction rule: rtranclp_induct)
  case base
  then show ?case using assms(2) by simp
next
  case (step y z)
  then obtain u where u: "raw y tid = Some u" "same_identity t u" "tk_terminal (status t) \<longrightarrow> u = t" by blast
  from step(2) u(1) show ?case
  proof (cases rule: qstep_row)
    case same
    then show ?thesis using u by blast
  next
    case (step v)
    then show ?thesis using u tk_step_identity tk_step_source same_identity_trans by metis
  qed
qed

lemma raw_ticket_id: "raw s tid = Some t \<Longrightarrow> ticket_id t = tid"
  by (auto simp: raw_def dest: row_of_SomeD)

lemma raw_in_queue: "raw s tid = Some t \<Longrightarrow> t \<in> set (work_queue s)"
  by (auto simp: raw_def dest: row_of_SomeD)

section \<open>The invariant\<close>

text \<open>Of one ticket: attempts, lease columns, authorization of the holder, and how it became done.\<close>

definition attempts_ok :: "ticket \<Rightarrow> bool" where
  "attempts_ok t \<longleftrightarrow> 0 \<le> attempts t \<and> attempts t \<le> max 1 (max_attempts t)
    \<and> (status t = TkOpen \<longrightarrow> attempts t = 0 \<or> attempts t < max_attempts t)"

definition lease_ok :: "routing_privacy \<Rightarrow> ticket \<Rightarrow> bool" where
  "lease_ok r t \<longleftrightarrow>
    (if status t \<in> {TkClaimed, TkInReview, TkDone}
     then lease_holder t \<noteq> None \<and> lease_token t \<noteq> None \<and> lease_expires_at t \<noteq> None
          \<and> privacy_class t \<in> set (admissible_classes r (lease_tier t))
     else lease_holder t = None \<and> lease_tier t = None \<and> lease_token t = None
          \<and> lease_expires_at t = None)"

definition trust_ok :: "ticket \<Rightarrow> bool" where
  "trust_ok t \<longleftrightarrow>
    (status t \<in> {TkInReview, TkDone} \<longrightarrow> result_ref t \<noteq> None) \<and>
    (status t = TkDone \<longrightarrow> provenance t \<noteq> [] \<and>
      (case last (provenance t) of
         PReport _ tier st _ \<Rightarrow> tier = TRUSTED_TIER \<and> lease_tier t = TRUSTED_TIER \<and> st = ''completed''
       | PReview _ verdict _ _ \<Rightarrow> verdict = ''approved''
       | _ \<Rightarrow> False))"

definition pull_ok :: "routing_privacy \<Rightarrow> ticket \<Rightarrow> bool" where
  "pull_ok r t \<longleftrightarrow> (status t \<in> {TkOpen, TkClaimed, TkInReview, TkDone} \<longrightarrow> tiers_of r t \<noteq> {})"

definition tk_wf :: "routing_privacy \<Rightarrow> ticket \<Rightarrow> bool" where
  "tk_wf r t \<longleftrightarrow> attempts_ok t \<and> lease_ok r t \<and> trust_ok t \<and> pull_ok r t"

text \<open>Of the tables.\<close>

definition deps_ok :: "routing_privacy \<Rightarrow> db \<Rightarrow> bool" where
  "deps_ok r s \<longleftrightarrow> distinct (work_queue_deps s) \<and> acyclic (set (work_queue_deps s)) \<and>
    (\<forall>(c, p) \<in> set (work_queue_deps s).
       \<exists>ct pt. raw s c = Some ct \<and> raw s p = Some pt \<and> tiers_of r ct \<subseteq> tiers_of r pt)"

definition live_unblocked :: "db \<Rightarrow> bool" where
  "live_unblocked s \<longleftrightarrow>
    (\<forall>t \<in> set (work_queue s). status t \<in> {TkClaimed, TkInReview} \<longrightarrow> \<not> is_blocked s (ticket_id t))"

definition tokens_ok :: "db \<Rightarrow> bool" where
  "tokens_ok s \<longleftrightarrow>
    (\<forall>t \<in> set (work_queue s). \<forall>tok. lease_token t = Some tok \<longrightarrow> tok \<in> uuids s ` {..<uuid_ctr s})"

definition queue_keys :: "db \<Rightarrow> bool" where
  "queue_keys s \<longleftrightarrow> keys_distinct ticket_id (work_queue s)
    \<and> distinct (filter (\<lambda>k. k \<noteq> None) (map dedup_key (work_queue s)))"

definition wq_inv :: "routing_privacy \<Rightarrow> db \<Rightarrow> bool" where
  "wq_inv r s \<longleftrightarrow> queue_keys s \<and> (\<forall>t \<in> set (work_queue s). tk_wf r t) \<and> deps_ok r s
    \<and> live_unblocked s \<and> tokens_ok s \<and> artifacts_ok s"

lemma wq_inv_empty: "wq_inv r (empty_db t us)"
  by (simp add: wq_inv_def queue_keys_def deps_ok_def live_unblocked_def tokens_ok_def
      artifacts_ok_def empty_db_def acyclic_def)

lemma wq_inv_row: "wq_inv r s \<Longrightarrow> raw s tid = Some t \<Longrightarrow> tk_wf r t"
  by (auto simp: wq_inv_def dest: raw_in_queue)

lemma admissible_nonempty:
  "classes_ok r \<Longrightarrow> privacy_class t \<in> set (admissible_classes r tier) \<Longrightarrow> tiers_of r t \<noteq> {}"
  by (auto simp: admissible_iff_admits admits_def tiers_of_def split: option.splits)

lemma step_attempts: "tk_step r T s t t' \<Longrightarrow> attempts_ok t \<Longrightarrow> attempts_ok t'"
  by (erule tk_step.cases)
    (auto simp: attempts_ok_def row_upd_defs report_decision_def Let_def lease_expired_def)

lemma step_lease: "tk_step r T s t t' \<Longrightarrow> lease_ok r t \<Longrightarrow> lease_ok r t'"
  by (erule tk_step.cases)
    (auto simp: lease_ok_def row_upd_defs report_decision_def Let_def lease_expired_def)

lemma step_trust: "tk_step r T s t t' \<Longrightarrow> trust_ok t \<Longrightarrow> trust_ok t'"
  by (erule tk_step.cases)
    (auto simp: trust_ok_def row_upd_defs report_decision_def Let_def lease_expired_def)

lemma tiers_of_identity: "same_identity t t' \<Longrightarrow> tiers_of r t' = tiers_of r t"
  by (simp add: same_identity_def tiers_of_def)

text \<open>The statuses a step can lead to, by the status it starts from.\<close>

lemma step_status:
  "tk_step r T s t t' \<Longrightarrow>
    (case status t of
       TkOpen \<Rightarrow> status t' \<in> {TkClaimed, TkFailed, TkCancelled}
     | TkClaimed \<Rightarrow> True
     | TkInReview \<Rightarrow> status t' \<in> {TkOpen, TkDone, TkFailed, TkCancelled}
     | TkParked \<Rightarrow> status t' \<in> {TkFailed, TkCancelled}
     | _ \<Rightarrow> False)"
  by (erule tk_step.cases)
    (auto simp: row_upd_defs report_decision_def Let_def lease_expired_def tk_terminal_def
      split: ticket_status.split)

lemma step_pull:
  assumes "tk_step r T s t t'" and "pull_ok r t"
  shows "pull_ok r t'"
  using step_status [OF assms(1)] assms(2) tiers_of_identity [OF tk_step_identity [OF assms(1)]]
  by (cases "status t") (auto simp: pull_ok_def)

lemma step_wf: "tk_step r T s t t' \<Longrightarrow> tk_wf r t \<Longrightarrow> tk_wf r t'"
  unfolding tk_wf_def using step_attempts step_lease step_trust step_pull by blast

lemma new_ticket_wf: "routing c = r \<Longrightarrow> tk_wf r (new_ticket c a tid ref now)"
  by (auto simp: tk_wf_def attempts_ok_def lease_ok_def trust_ok_def pull_ok_def new_ticket_def
      add_status_def tiers_of_def)

lemma tk_step_token:
  "tk_step r T s t t' \<Longrightarrow> lease_token t' = None \<or> lease_token t' = lease_token t
    \<or> (status t' = TkClaimed \<and> (\<exists>tok \<in> T \<inter> uuids s ` {..<uuid_ctr s}. lease_token t' = Some tok))"
  by (erule tk_step.cases)
    (auto simp: row_upd_defs report_decision_def Let_def)

section \<open>Preservation\<close>

lemma row_of_insert: "raw s tid = None \<Longrightarrow> work_queue s' = work_queue s @ [t] \<Longrightarrow> ticket_id t = tid
    \<Longrightarrow> raw s' k = (if k = tid then Some t else raw s k)"
  by (auto simp: raw_def split: option.split)

lemma raw_iff: "queue_keys s \<Longrightarrow> raw s tid = Some t \<longleftrightarrow> t \<in> set (work_queue s) \<and> ticket_id t = tid"
  by (simp add: raw_def queue_keys_def row_of_Some_iff)

lemma parent_done_raw:
  "queue_keys s \<Longrightarrow> parent_done s p \<longleftrightarrow> (\<exists>t. raw s p = Some t \<and> status t = TkDone)"
  by (auto simp: parent_done_def list_ex_iff raw_iff)

lemma set_insert_deps: "set (fold (insert_dep tid) ds deps) = set deps \<union> Pair tid ` set ds"
  by (induction ds arbitrary: deps) (auto simp: insert_dep_def)

lemma distinct_insert_deps: "distinct deps \<Longrightarrow> distinct (fold (insert_dep tid) ds deps)"
  by (induction ds arbitrary: deps) (auto simp: insert_dep_def)

lemma step_keys:
  assumes "qstep r T s s'" and "queue_keys s"
  shows "queue_keys s'"
  using assms(1)
proof (cases rule: qstep.cases)
  case (q_update P f)
  have "same_identity t (if P t then f t else t)" if "t \<in> set (work_queue s)" for t
    using q_update(3) [OF that] tk_step_identity by auto
  then have "map ticket_id (work_queue s') = map ticket_id (work_queue s)"
    and "map dedup_key (work_queue s') = map dedup_key (work_queue s)"
    by (auto simp: q_update(1) upd_where_def same_identity_def)
  then show ?thesis using assms(2) unfolding queue_keys_def by simp
next
  case (q_insert c a tid ref now ds)
  let ?t = "new_ticket c a tid ref now"
  have "tid \<notin> ticket_id ` set (work_queue s)" using q_insert(4) by (simp add: raw_def row_of_None_iff)
  moreover have "ad_dedup_key a \<noteq> None \<Longrightarrow> ad_dedup_key a \<notin> dedup_key ` set (work_queue s)"
    using q_insert(5) by auto
  ultimately show ?thesis
    using assms(2) by (auto simp: queue_keys_def q_insert(1) new_ticket_def)
qed (use assms(2) in \<open>auto simp: queue_keys_def\<close>)

lemma step_all_wf:
  assumes "qstep r T s s'" and "\<forall>t \<in> set (work_queue s). tk_wf r t"
  shows "\<forall>t \<in> set (work_queue s'). tk_wf r t"
  using assms(1)
proof (cases rule: qstep.cases)
  case (q_update P f)
  then show ?thesis using assms(2) by (auto simp: set_upd_where intro: step_wf)
next
  case (q_insert c a tid ref now ds)
  then show ?thesis using assms(2) new_ticket_wf by auto
qed (use assms(2) in auto)

lemma step_raw_identity:
  "qstep r T s s' \<Longrightarrow> raw s tid = Some t \<Longrightarrow> \<exists>t'. raw s' tid = Some t' \<and> same_identity t t'"
  by (erule qstep_row) (auto dest: tk_step_identity)

lemma edge_ok_step:
  assumes "qstep r T s s'" and "raw s c = Some ct" and "raw s p = Some pt"
    and "tiers_of r ct \<subseteq> tiers_of r pt"
  shows "\<exists>ct pt. raw s' c = Some ct \<and> raw s' p = Some pt \<and> tiers_of r ct \<subseteq> tiers_of r pt"
  using step_raw_identity [OF assms(1,2)] step_raw_identity [OF assms(1,3)] assms(4)
  by (metis tiers_of_identity)

lemma deps_okD:
  "deps_ok r s \<Longrightarrow> (c, p) \<in> set (work_queue_deps s) \<Longrightarrow>
    \<exists>ct pt. raw s c = Some ct \<and> raw s p = Some pt \<and> tiers_of r ct \<subseteq> tiers_of r pt"
  by (auto simp: deps_ok_def)

lemma step_deps:
  assumes q: "qstep r T s s'" and d: "deps_ok r s"
  shows "deps_ok r s'"
proof -
  have keep: "\<exists>ct pt. raw s' c = Some ct \<and> raw s' p = Some pt \<and> tiers_of r ct \<subseteq> tiers_of r pt"
    if "(c, p) \<in> set (work_queue_deps s)" for c p
    using deps_okD [OF d that] edge_ok_step [OF q] by blast
  from q show ?thesis
  proof (cases rule: qstep.cases)
    case (q_insert c a tid ref now ds)
    let ?t = "new_ticket c a tid ref now"
    have raw': "raw s' k = (if k = tid then Some ?t else raw s k)" for k
      by (rule row_of_insert [OF q_insert(4,1)]) (simp add: new_ticket_def)
    have tid: "tid \<notin> Field (set (work_queue_deps s))"
      using deps_okD [OF d] q_insert(4) by (fastforce simp: Field_def)
    have "acyclic (set (work_queue_deps s) \<union> Pair tid ` set ds)"
      using q_insert(6)
    proof (induction ds)
      case Nil
      then show ?case using d by (simp add: deps_ok_def)
    next
      case (Cons d ds)
      then obtain p where "raw s d = Some p" by auto
      then have "d \<noteq> tid" using q_insert(4) by auto
      have "(d, tid) \<notin> (set (work_queue_deps s) \<union> Pair tid ` set ds)\<^sup>*"
      proof
        assume "(d, tid) \<in> (set (work_queue_deps s) \<union> Pair tid ` set ds)\<^sup>*"
        then obtain x where "(x, tid) \<in> set (work_queue_deps s) \<union> Pair tid ` set ds"
          using \<open>d \<noteq> tid\<close> by (metis rtranclE)
        then have "tid \<in> set ds" using tid by (auto simp: Field_def)
        then show False using Cons.prems [of tid] q_insert(4) by auto
      qed
      with Cons show ?case by (simp add: Un_commute [of _ "insert _ _"] Un_commute)
    qed
    moreover have "\<exists>ct pt. raw s' c' = Some ct \<and> raw s' p = Some pt \<and> tiers_of r ct \<subseteq> tiers_of r pt"
      if "(c', p) \<in> Pair tid ` set ds" for c' p
    proof -
      from that have c': "c' = tid" "p \<in> set ds" by auto
      then obtain pt where pt: "raw s p = Some pt" "set (allowed_tiers r (ad_privacy_class a)) \<subseteq> tiers_of r pt"
        using q_insert(6) by blast
      moreover have "p \<noteq> tid" using pt q_insert(4) by auto
      ultimately show ?thesis using c' raw' by (simp add: tiers_of_def new_ticket_def)
    qed
    ultimately show ?thesis
      using keep d distinct_insert_deps [of "work_queue_deps s" tid ds]
      by (auto simp: deps_ok_def q_insert(2) set_insert_deps)
  next
    case (q_link child parent ct pt)
    have "acyclic (set (work_queue_deps s'))"
      using d q_link(8) by (simp add: q_link(2) deps_ok_def)
    moreover have "raw s' = raw s" by (simp add: raw_def fun_eq_iff q_link(1))
    ultimately show ?thesis using keep d q_link by (auto simp: deps_ok_def)
  qed (use keep d in \<open>auto simp: deps_ok_def\<close>)
qed

lemma step_parent_done:
  assumes "qstep r T s s'" "queue_keys s" "parent_done s p"
  shows "parent_done s' p"
proof -
  obtain t where t: "raw s p = Some t" "status t = TkDone" using assms parent_done_raw by blast
  from assms(1) t(1) have "raw s' p = Some t"
    by (rule qstep_row) (use t in \<open>auto dest: tk_step_source simp: tk_terminal_def\<close>)
  then show ?thesis using t step_keys [OF assms(1,2)] parent_done_raw by blast
qed

lemma step_claimed_source:
  "tk_step r T s t t' \<Longrightarrow> status t' \<in> {TkClaimed, TkInReview} \<Longrightarrow>
    status t \<in> {TkClaimed, TkInReview} \<or> \<not> is_blocked s (ticket_id t)"
  by (erule tk_step.cases)
    (auto simp: row_upd_defs report_decision_def Let_def lease_expired_def)

lemma step_live:
  assumes q: "qstep r T s s'" and k: "queue_keys s" and d: "deps_ok r s" and l: "live_unblocked s"
  shows "live_unblocked s'"
proof -
  note pd = step_parent_done [OF q k]
  have same: "\<not> is_blocked s' c" if "\<not> is_blocked s c" and "work_queue_deps s' = work_queue_deps s" for c
    using that pd by (auto simp: is_blocked_def list_ex_iff)
  from q show ?thesis
  proof (cases rule: qstep.cases)
    case (q_update P f)
    show ?thesis unfolding live_unblocked_def
    proof (intro ballI impI)
      fix t'
      assume "t' \<in> set (work_queue s')" and st: "status t' \<in> {TkClaimed, TkInReview}"
      then obtain t where t: "t \<in> set (work_queue s)" "t' = (if P t then f t else t)"
        by (auto simp: q_update(1) set_upd_where)
      have "\<not> is_blocked s (ticket_id t)"
        using t st l step_claimed_source [OF q_update(3) [OF t(1)]]
        by (cases "P t") (auto simp: live_unblocked_def)
      moreover have "ticket_id t' = ticket_id t"
        using t q_update(3) [OF t(1)] tk_step_identity by (cases "P t") (auto simp: same_identity_def)
      ultimately show "\<not> is_blocked s' (ticket_id t')" using same q_update(2) by simp
    qed
  next
    case (q_insert c a tid ref now ds)
    have "status (new_ticket c a tid ref now) \<notin> {TkClaimed, TkInReview}"
      by (simp add: new_ticket_def add_status_def)
    moreover have "\<not> is_blocked s' (ticket_id t)"
      if "t \<in> set (work_queue s)" "\<not> is_blocked s (ticket_id t)" for t
    proof -
      have "ticket_id t \<noteq> tid" using that(1) q_insert(4) by (auto simp: raw_def row_of_None_iff)
      then show ?thesis using that(2) pd
        by (auto simp: is_blocked_def list_ex_iff q_insert(2) set_insert_deps)
    qed
    ultimately show ?thesis using l by (auto simp: live_unblocked_def q_insert(1))
  next
    case (q_link child parent ct pt)
    have "\<not> is_blocked s' (ticket_id t)"
      if "t \<in> set (work_queue s)" "status t \<in> {TkClaimed, TkInReview}" for t
    proof -
      have "ticket_id t \<noteq> child"
        using that q_link(4,6) raw_iff [OF k] by (metis option.inject)
      moreover have "\<not> is_blocked s (ticket_id t)" using l that by (auto simp: live_unblocked_def)
      ultimately show ?thesis using pd by (auto simp: is_blocked_def list_ex_iff q_link(2))
    qed
    then show ?thesis by (auto simp: live_unblocked_def q_link(1))
  qed (use l same in \<open>auto simp: live_unblocked_def\<close>)
qed

lemma step_tokens:
  assumes q: "qstep r T s s'" and k: "tokens_ok s"
  shows "tokens_ok s'"
proof -
  have up: "uuids s ` {..<uuid_ctr s} \<subseteq> uuids s' ` {..<uuid_ctr s'}"
    using qstep_base [OF q] by (auto simp: base_def)
  from q show ?thesis
  proof (cases rule: qstep.cases)
    case (q_update P f)
    have "tok \<in> uuids s ` {..<uuid_ctr s}"
      if "t \<in> set (work_queue s)" "lease_token (if P t then f t else t) = Some tok" for t tok
      using that k q_update(3) [OF that(1)] tk_step_token [of r T s t "f t"]
      by (cases "P t") (auto simp: tokens_ok_def)
    then show ?thesis using up by (auto simp: tokens_ok_def q_update(1) set_upd_where)
  next
    case (q_insert c a tid ref now ds)
    then show ?thesis using k up by (auto simp: tokens_ok_def new_ticket_def)
  qed (use k up in \<open>auto simp: tokens_ok_def\<close>)
qed

lemma step_wq_inv:
  assumes q: "qstep r T s s'" and i: "wq_inv r s"
  shows "wq_inv r s'"
proof -
  have "artifacts_ok s'" using i qstep_base [OF q] by (simp add: wq_inv_def base_def)
  moreover have "queue_keys s'" "deps_ok r s'" "live_unblocked s'" "tokens_ok s'"
    using i step_keys [OF q] step_deps [OF q] step_live [OF q] step_tokens [OF q]
    by (simp_all add: wq_inv_def)
  moreover have "\<forall>t \<in> set (work_queue s'). tk_wf r t"
    using i step_all_wf [OF q] by (simp add: wq_inv_def)
  ultimately show ?thesis by (simp add: wq_inv_def)
qed

lemma evolves_wq_inv: "evolves r s s' \<Longrightarrow> wq_inv r s \<Longrightarrow> wq_inv r s'"
  unfolding evolves_def by (induction rule: rtranclp_induct) (auto intro: step_wq_inv)

section \<open>Leases along a run\<close>

definition holds_lease :: "string \<Rightarrow> ticket \<Rightarrow> bool" where
  "holds_lease token t \<longleftrightarrow> status t = TkClaimed \<and> lease_token t = Some token"

text \<open>
  A token that is not minted on the way is held at the end only if it was held all along, and
  then the attempt, the tier and the history of the ticket are the ones of the start.
\<close>

lemma step_holds:
  "tk_step r T s t t' \<Longrightarrow> token \<notin> T \<Longrightarrow> holds_lease token t' \<Longrightarrow>
    holds_lease token t \<and> attempts t' = attempts t \<and> lease_tier t' = lease_tier t
    \<and> lease_holder t' = lease_holder t \<and> provenance t' = provenance t"
  by (erule tk_step.cases)
    (auto simp: holds_lease_def row_upd_defs report_decision_def Let_def lease_expired_def split: if_splits)

lemma qsteps_holds:
  assumes "(qstep r T)\<^sup>*\<^sup>* s s'" and "token \<notin> T" and "raw s tid = Some t"
  shows "\<exists>t'. raw s' tid = Some t' \<and> (holds_lease token t' \<longrightarrow>
    holds_lease token t \<and> attempts t' = attempts t \<and> lease_tier t' = lease_tier t
    \<and> lease_holder t' = lease_holder t \<and> provenance t' = provenance t \<and> same_identity t t')"
  using assms(1)
proof (induction rule: rtranclp_induct)
  case base
  then show ?case using assms(3) by simp
next
  case (step y z)
  then obtain u where u: "raw y tid = Some u" and *: "holds_lease token u \<longrightarrow>
    holds_lease token t \<and> attempts u = attempts t \<and> lease_tier u = lease_tier t
    \<and> lease_holder u = lease_holder t \<and> provenance u = provenance t \<and> same_identity t u" by blast
  from step(2) u show ?case
  proof (cases rule: qstep_row)
    case same
    then show ?thesis using * by blast
  next
    case (step v)
    show ?thesis
      using step(1) * step_holds [OF step(2) assms(2)] same_identity_trans tk_step_identity [OF step(2)]
      by (intro exI [of _ v]) auto
  qed
qed

lemma token_not_fresh:
  assumes "inj (uuids s)" and "token \<in> uuids s ` {..<uuid_ctr s}"
  shows "token \<notin> fresh_tokens s"
  using assms by (auto simp: fresh_tokens_def inj_eq)

lemma evolves_holds:
  assumes "evolves r s s'" and "inj (uuids s)" and "token \<in> uuids s ` {..<uuid_ctr s}"
    and "raw s tid = Some t"
  shows "\<exists>t'. raw s' tid = Some t' \<and> (holds_lease token t' \<longrightarrow>
    holds_lease token t \<and> attempts t' = attempts t \<and> lease_tier t' = lease_tier t
    \<and> lease_holder t' = lease_holder t \<and> provenance t' = provenance t \<and> same_identity t t')"
  using qsteps_holds [OF assms(1) [unfolded evolves_def] token_not_fresh [OF assms(2,3)] assms(4)] .

end
