(* ===== verification/Queue_Refinement.thy ===== *)
theory Queue_Refinement
  imports Queue_Lifecycle
begin

text \<open>
  Every method of the work queue refines the life cycle of \<open>Queue_Lifecycle\<close>: whatever other broker
  processes commit in its read-to-update windows, as long as they run the same queue code
  (\<open>peaceful\<close>), its effect on the two tables is a sequence of abstract steps. The fenced update of
  \<open>report\<close> is shown to act on the very lease it validated, although it reuses values read before
  another commit.
\<close>

section \<open>Frames\<close>

lemma base_artifacts: "uuids s' = uuids s \<Longrightarrow> uuid_ctr s \<le> uuid_ctr s' \<Longrightarrow> artifacts s' = artifacts s \<Longrightarrow> base s s'"
  by (simp add: base_def artifacts_ok_def)

lemma base_frames [intro]:
  "base s x \<Longrightarrow> base s (upd_tk P f x)"
  "base s x \<Longrightarrow> base s (ticket_audit a b c d e g h x)"
  "base s x \<Longrightarrow> base s (mirror_task_state i st x)"
  "base s x \<Longrightarrow> base s (mirror_if j st x)"
  "base s x \<Longrightarrow> base s (delete_artifact k x)"
  by (auto intro: base_trans base_artifacts simp: base_def artifacts_ok_def delete_artifact_def)
    (meson dual_order.trans frame_audit(8) frame_mirror(7) frame_mirror_if(7))+

lemma evolves_update:
  "work_queue s' = upd_where P f (work_queue s) \<Longrightarrow> work_queue_deps s' = work_queue_deps s
    \<Longrightarrow> (\<And>t. t \<in> set (work_queue s) \<Longrightarrow> P t \<Longrightarrow> tk_step r (fresh_tokens s) s t (f t)) \<Longrightarrow> base s s'
    \<Longrightarrow> evolves r s s'"
  by (rule evolves_step) (rule q_update)

lemma evolves_keys: "evolves r s s' \<Longrightarrow> queue_keys s \<Longrightarrow> queue_keys s'"
  unfolding evolves_def by (induction rule: rtranclp_induct) (auto intro: step_keys)

lemma evolves_mirror [intro]: "evolves r s (mirror_if j st s)" "evolves r s (mirror_task_state i st s)"
  by (rule evolves_frame; simp add: base_artifacts)+

lemma evolves_put_artifact: "evolves r s (snd (put_artifact task kind content mime s))"
  by (rule evolves_frame)
    (auto simp: put_artifact_def new_id_def draw_def base_def artifacts_ok_def)

lemma evolves_delete_artifact: "evolves r s (delete_artifact k s)"
  by (rule evolves_frame) (auto simp: delete_artifact_def base_def artifacts_ok_def)

lemma evolves_record_evaluation: "evolves r s (snd (record_evaluation e s))"
  by (rule evolves_frame)
    (auto simp: record_evaluation_def base_def artifacts_ok_def split: option.split)

definition peaceful :: "wq_config \<Rightarrow> world \<Rightarrow> bool" where
  "peaceful c w \<longleftrightarrow> (\<forall>x. wq_inv (routing c) x \<longrightarrow> evolves (routing c) x (w_env w x))"

lemma peaceful_alone: "peaceful c alone"
  by (simp add: peaceful_def alone_def)

section \<open>The cascade\<close>

lemma not_done_update:
  assumes "\<And>t. P t \<Longrightarrow> ticket_id (f t) = ticket_id t \<and> status (f t) \<noteq> TkDone"
    and "work_queue s' = upd_where P f (work_queue s)" and "\<not> parent_done s p"
  shows "\<not> parent_done s' p"
  using assms by (auto simp: parent_done_def list_ex_iff set_upd_where)

lemma cascade_hit_step:
  assumes "(child, parent) \<in> set (work_queue_deps s)" and "\<not> parent_done s parent"
  shows "evolves r s (cascade_hit parent now child t s)"
    and "\<not> parent_done s p \<Longrightarrow> \<not> parent_done (cascade_hit parent now child t s) p"
    and "\<not> parent_done (cascade_hit parent now child t s) child \<or> parent_done s child"
proof -
  let ?P = "\<lambda>x. ticket_id x = child \<and> \<not> tk_terminal (status x)"
  have wq: "work_queue (cascade_hit parent now child t s)
      = upd_where ?P (cascade_row parent now (provenance t)) (work_queue s)"
    by (simp add: cascade_hit_def)
  show "evolves r s (cascade_hit parent now child t s)"
    by (rule evolves_update [OF wq])
      (use assms in \<open>auto intro!: step_cascade base_frames simp: cascade_hit_def\<close>)
  show nd: "\<not> parent_done s p \<Longrightarrow> \<not> parent_done (cascade_hit parent now child t s) p" for p
    by (rule not_done_update [OF _ wq]) (simp_all add: cascade_row_def clear_lease_def)
  show "\<not> parent_done (cascade_hit parent now child t s) child \<or> parent_done s child"
    using nd by blast
qed

lemma raw_not_done:
  "queue_keys s \<Longrightarrow> raw s tid = Some t \<Longrightarrow> status t \<noteq> TkDone \<Longrightarrow> \<not> parent_done s tid"
  by (simp add: parent_done_raw)

lemma cascade_child_refines:
  assumes "cascade_child parent now child (stack, seen, cas, s) = (stack', seen', cas', s')"
    and "(child, parent) \<in> set (work_queue_deps s)" and "\<not> parent_done s parent" and "queue_keys s"
  shows "evolves r s s' \<and> work_queue_deps s' = work_queue_deps s
    \<and> (\<forall>p. \<not> parent_done s p \<longrightarrow> \<not> parent_done s' p)
    \<and> ((\<forall>p \<in> set stack. \<not> parent_done s p) \<longrightarrow> (\<forall>p \<in> set stack'. \<not> parent_done s' p))"
proof (cases rule: cascade_child_cases [of child seen parent now stack cas s])
  case (hit t)
  have "status t \<noteq> TkDone" using hit(3) by (auto simp: tk_terminal_def)
  then have "\<not> parent_done s child" using raw_not_done assms(4) hit(2) by blast
  then show ?thesis using hit(4) assms(1) cascade_hit_step [OF assms(2,3)] by auto
qed (use assms(1) in auto)

lemma cascade_fold_refines:
  assumes "fold (cascade_child parent now) cs (stack, seen, cas, s) = (stack', seen', cas', s')"
    and "\<forall>ch \<in> set cs. (ch, parent) \<in> set (work_queue_deps s)"
    and "\<not> parent_done s parent" and "queue_keys s"
  shows "evolves r s s' \<and> work_queue_deps s' = work_queue_deps s
    \<and> (\<forall>p. \<not> parent_done s p \<longrightarrow> \<not> parent_done s' p)
    \<and> ((\<forall>p \<in> set stack. \<not> parent_done s p) \<longrightarrow> (\<forall>p \<in> set stack'. \<not> parent_done s' p))"
  using assms
proof (induction cs arbitrary: stack seen cas s)
  case (Cons ch cs)
  obtain st1 sn1 cas1 s1 where 1: "cascade_child parent now ch (stack, seen, cas, s) = (st1, sn1, cas1, s1)"
    by (metis prod_cases4)
  have c: "(ch, parent) \<in> set (work_queue_deps s)" using Cons.prems(2) by simp
  note a = cascade_child_refines [OF 1 c Cons.prems(3,4), of r]
  have "queue_keys s1"
    using a Cons.prems(4) evolves_keys by blast
  moreover have "fold (cascade_child parent now) cs (st1, sn1, cas1, s1) = (stack', seen', cas', s')"
    using Cons.prems(1) 1 by simp
  moreover have "\<forall>ch \<in> set cs. (ch, parent) \<in> set (work_queue_deps s1)" "\<not> parent_done s1 parent"
    using a Cons.prems(2,3) by simp_all
  ultimately have "evolves r s1 s' \<and> work_queue_deps s' = work_queue_deps s1
    \<and> (\<forall>p. \<not> parent_done s1 p \<longrightarrow> \<not> parent_done s' p)
    \<and> ((\<forall>p \<in> set st1. \<not> parent_done s1 p) \<longrightarrow> (\<forall>p \<in> set stack'. \<not> parent_done s' p))"
    by (rule Cons.IH [rotated -1])
  with a show ?case using evolves_trans by (metis (no_types, lifting))
qed simp

lemma cascade_loop_refines:
  "(\<forall>p \<in> set stack. \<not> parent_done s p) \<Longrightarrow> queue_keys s \<Longrightarrow>
    evolves r s (snd (cascade_loop now stack seen cas s))
    \<and> (\<forall>p. \<not> parent_done s p \<longrightarrow> \<not> parent_done (snd (cascade_loop now stack seen cas s)) p)"
proof (induction now stack seen cas s rule: cascade_loop.induct)
  case (2 now parent stack seen cas s)
  obtain st' sn' cas' s' where f: "fold (cascade_child parent now) (children_of s parent)
      (stack, seen, cas, s) = (st', sn', cas', s')" by (metis prod_cases4)
  have ch: "\<forall>ch \<in> set (children_of s parent). (ch, parent) \<in> set (work_queue_deps s)"
    by (auto simp: children_of_def)
  have "\<not> parent_done s parent" using "2.prems"(1) by simp
  note a = cascade_fold_refines [OF f ch this "2.prems"(2), of r]
  then have "\<forall>p \<in> set st'. \<not> parent_done s' p" "queue_keys s'"
    using "2.prems" evolves_keys by auto
  with "2.IH" [OF f [symmetric] refl refl] a show ?case
    by (simp add: f) (blast intro: evolves_trans)
qed simp

lemma cascade_failure_refines:
  assumes "queue_keys s" and "\<not> parent_done s p"
  shows "evolves r s (snd (cascade_failure p now s))"
    and "\<not> parent_done s q \<Longrightarrow> \<not> parent_done (snd (cascade_failure p now s)) q"
  using cascade_loop_refines [of "[p]" s r now "[]" "[]"] assms by (auto simp: cascade_failure_def)

section \<open>Adding\<close>

lemma check_deps_None:
  "check_deps c s T deps = None \<Longrightarrow> d \<in> set deps \<Longrightarrow> \<exists>p. raw s d = Some p \<and> T \<subseteq> tiers_of (routing c) p"
  by (induction deps) (auto simp: tiers_of_def split: option.splits if_splits)

lemma evolves_parent:
  assumes "evolves r s s'" and "\<exists>p. raw s d = Some p \<and> T \<subseteq> tiers_of r p"
  shows "\<exists>p. raw s' d = Some p \<and> T \<subseteq> tiers_of r p"
  using assms evolves_row tiers_of_identity by metis

lemma add_insert_refines:
  assumes "\<And>d. d \<in> set (ad_depends_on a) \<Longrightarrow>
      \<exists>p. raw s d = Some p \<and> set (allowed_tiers (routing c) (ad_privacy_class a)) \<subseteq> tiers_of (routing c) p"
  shows "evolves (routing c) s (snd (add_insert c a now minted ref s))"
proof -
  define tid where "tid = fst (new_id ''wq'' s)"
  define s1 where "s1 = snd (new_id ''wq'' s)"
  let ?t = "new_ticket c a tid ref now"
  have n: "new_id ''wq'' s = (tid, s1)" by (simp add: tid_def s1_def)
  have 1: "evolves (routing c) s s1"
    by (rule evolves_frame) (simp_all add: s1_def new_id_def draw_def base_def artifacts_ok_def)
  show ?thesis
  proof (cases "insert_conflict s1 ?t")
    case True
    then show ?thesis
      using 1 evolves_delete_artifact evolves_trans by (simp add: add_insert_def n Let_def)
  next
    case False
    let ?s2 = "s1\<lparr>work_queue := work_queue s1 @ [?t],
        work_queue_deps := fold (insert_dep tid) (ad_depends_on a) (work_queue_deps s1)\<rparr>"
    have "qstep (routing c) (fresh_tokens s1) s1 ?s2"
    proof (rule q_insert)
      show "raw s1 tid = None" using False
        by (auto simp: raw_def row_of_None_iff insert_conflict_def list_ex_iff new_ticket_def)
      show "t \<in> set (work_queue s1) \<Longrightarrow> ad_dedup_key a \<noteq> None \<Longrightarrow> dedup_key t \<noteq> ad_dedup_key a" for t
        using False by (auto simp: insert_conflict_def list_ex_iff new_ticket_def)
      show "d \<in> set (ad_depends_on a) \<Longrightarrow> \<exists>p. raw s1 d = Some p
          \<and> set (allowed_tiers (routing c) (ad_privacy_class a)) \<subseteq> tiers_of (routing c) p" for d
        using assms evolves_parent [OF 1] by blast
    qed (simp_all add: base_def artifacts_ok_def)
    then show ?thesis
      using 1 evolves_step evolves_trans False by (simp add: add_insert_def n Let_def)
  qed
qed

lemma add_refines:
  assumes "peaceful c w" and "wq_inv (routing c) s"
  shows "evolves (routing c) s (snd (add c w a now s))"
proof (cases "Option.bind (ad_dedup_key a) (by_dedup s)")
  case None
  let ?T = "set (allowed_tiers (routing c) (ad_privacy_class a))"
  show ?thesis
  proof (cases "check_deps c s ?T (ad_depends_on a)")
    case ok: None
    have go: "evolves (routing c) s (snd (add_insert c a n m ref (w_env w x)))"
      if "evolves (routing c) s x" for x n m ref
    proof -
      have "evolves (routing c) s (w_env w x)"
        using that assms evolves_wq_inv evolves_trans unfolding peaceful_def by blast
      moreover have "evolves (routing c) (w_env w x) (snd (add_insert c a n m ref (w_env w x)))"
        by (rule add_insert_refines) (use check_deps_None [OF ok] evolves_parent calculation in blast)
      ultimately show ?thesis by (rule evolves_trans)
    qed
    have put: "evolves (routing c) s (snd (put_artifact (ad_task_id a) ''work_payload'' p ''text/plain'' s))" for p
      by (rule evolves_put_artifact)
    show ?thesis
      using None ok go [OF evolves_refl] put go [OF put]
      by (auto simp: add_def Let_def split: option.split prod.splits sum.split)
        (metis snd_conv)+
  qed (use None in \<open>simp add: add_def Let_def\<close>)
qed (simp add: add_def Let_def)

section \<open>Claiming\<close>

lemma try_claim_refines:
  assumes w: "peaceful c w" and inv: "wq_inv (routing c) s"
    and adm: "admissible = admissible_classes (routing c) tier"
  shows "evolves (routing c) s
    (snd (try_claim c w tid identity tier admissible prov secs now s))"
proof -
  define token where "token = uuids s (uuid_ctr s)"
  define s0 where "s0 = s\<lparr>uuid_ctr := Suc (uuid_ctr s)\<rparr>"
  define s1 where "s1 = w_env w s0"
  define expires where "expires = now + of_int (case secs of None \<Rightarrow> default_lease_seconds c | Some n \<Rightarrow> n)"
  let ?g = "claim_guard tid admissible s1"
  let ?f = "claim_row_upd identity tier token expires now prov"
  define s2 where "s2 = upd_tk ?g ?f s1"
  define s3 where "s3 = ticket_audit tid (Option.bind (raw s2 tid) task_id) TkOpen TkClaimed
    ''applied'' identity '''' s2"
  have d: "draw s = (token, s0)" by (simp add: draw_def token_def s0_def)
  have 0: "evolves (routing c) s s0"
    by (rule evolves_frame) (simp_all add: s0_def base_def artifacts_ok_def)
  have 1: "evolves (routing c) s s1"
    using evolves_trans [OF 0] w evolves_wq_inv [OF 0 inv] by (simp add: peaceful_def s1_def)
  have b01: "base s0 s1" using w evolves_wq_inv [OF 0 inv] evolves_base by (auto simp: peaceful_def s1_def)
  have tok: "token \<in> fresh_tokens s" "token \<in> uuids s1 ` {..<uuid_ctr s1}"
    using b01 by (auto simp: token_def fresh_tokens_def base_def s0_def)
  have "qstep (routing c) (fresh_tokens s) s1 s3"
  proof (rule q_update)
    show "work_queue s3 = upd_where ?g ?f (work_queue s1)" by (simp add: s3_def s2_def)
    show "base s1 s3" unfolding s3_def s2_def by (intro base_frames base_refl)
    show "t \<in> set (work_queue s1) \<Longrightarrow> ?g t \<Longrightarrow> tk_step (routing c) (fresh_tokens s) s1 t (?f t)" for t
      using tok by (auto simp: claim_guard_def adm intro!: step_claim)
  qed (simp add: s3_def s2_def)
  then have 3: "evolves (routing c) s s3"
    using 1 unfolding evolves_def by (rule rtranclp.rtrancl_into_rtrancl [rotated])
  have 4: "evolves (routing c) s (s1\<lparr>bus := b, uuid_ctr := uuid_ctr s3\<rparr>)" for b
  proof (rule evolves_trans [OF 1 evolves_frame])
    have "uuid_ctr s1 \<le> uuid_ctr s3" using \<open>qstep (routing c) (fresh_tokens s) s1 s3\<close> qstep_base
      by (auto simp: base_def)
    then show "base s1 (s1\<lparr>bus := b, uuid_ctr := uuid_ctr s3\<rparr>)" by (simp add: base_def artifacts_ok_def)
  qed simp_all
  show ?thesis
    using 1 3 4 by (simp add: try_claim_def d Let_def s1_def [symmetric] expires_def [symmetric]
        s2_def [symmetric] s3_def [symmetric] split: option.split)
qed

lemma claim_first_refines:
  assumes w: "peaceful c w" and adm: "admissible = admissible_classes (routing c) tier"
  shows "wq_inv (routing c) s \<Longrightarrow> evolves (routing c) s
    (snd (claim_first c w identity tier admissible caps secs now rows s))"
proof (induction rows arbitrary: s)
  case (Cons row rows)
  note t = try_claim_refines [OF w Cons.prems adm, of "ticket_id row" identity "provenance row" secs now]
  have "evolves (routing c) s'
     (snd (claim_first c w identity tier admissible caps secs now rows s'))"
    if "try_claim c w (ticket_id row) identity tier admissible (provenance row) secs now s = (o1, s')" for o1 s'
    using that t Cons.IH evolves_wq_inv Cons.prems by force
  with t Cons show ?case
    by (auto split: prod.split sum.split option.split intro: evolves_trans)
qed simp

lemma claim_loop_refines:
  assumes w: "peaceful c w" and adm: "admissible = admissible_classes (routing c) tier"
  shows "wq_inv (routing c) s \<Longrightarrow> evolves (routing c) s
    (snd (claim_loop n c w identity tier admissible caps secs now claimed s))"
proof (induction n arbitrary: s claimed)
  case (Suc n)
  note t = claim_first_refines [OF w adm Suc.prems, of identity caps secs now "claim_candidates admissible s"]
  have "evolves (routing c) s'
     (snd (claim_loop n c w identity tier admissible caps secs now cl s'))"
    if "claim_first c w identity tier admissible caps secs now (claim_candidates admissible s) s = (o1, s')"
    for o1 s' cl
    using that t Suc.IH evolves_wq_inv Suc.prems by force
  with t Suc show ?case
    by (auto split: prod.split sum.split option.split intro: evolves_trans)
qed simp

lemma claim_next_refines:
  assumes "peaceful c w" and "wq_inv (routing c) s"
  shows "evolves (routing c) s (snd (claim_next c w identity tier caps mx secs now s))"
  using claim_loop_refines [OF assms(1) refl assms(2)] by (simp add: claim_next_def Let_def)

lemma claim_refines:
  assumes "peaceful c w" and "wq_inv (routing c) s"
  shows "evolves (routing c) s (snd (claim c w identity tier tid secs now s))"
  using try_claim_refines [OF assms refl]
  by (auto simp: claim_def Let_def split: option.split prod.split sum.split) (metis snd_conv)+

lemma renew_refines: "evolves r s (snd (renew c identity tid token ext now s))"
proof -
  have "evolves r s (upd_tk (lease_guard tid identity token n)
      (\<lambda>t. t\<lparr>lease_expires_at := Some e, updated_at := n\<rparr>) s)" for n e
    by (rule evolves_update [OF frame_upd_tk(1)])
      (auto intro!: step_renew base_frames simp: lease_guard_def)
  then show ?thesis by (simp add: renew_def Let_def)
qed

section \<open>Reporting\<close>

lemma evolves_record_evaluation_pair: "record_evaluation e s = (o1, s1) \<Longrightarrow> evolves r s s1"
  using evolves_record_evaluation [of r s e] by simp

lemma record_evaluation_queue:
  "record_evaluation e s = (o1, s1) \<Longrightarrow> work_queue s1 = work_queue s"
  by (auto simp: record_evaluation_def split: option.splits)

lemma parent_done_cong: "work_queue s' = work_queue s \<Longrightarrow> parent_done s' = parent_done s"
  by (simp add: parent_done_def fun_eq_iff)

lemma queue_keys_cong: "work_queue s' = work_queue s \<Longrightarrow> queue_keys s' = queue_keys s"
  by (simp add: queue_keys_def)

lemma cascade_after_refines:
  assumes "queue_keys s" and "\<not> parent_done s p" and "work_queue x = work_queue s"
    and "evolves r s x"
  shows "evolves r s (snd (cascade_failure p now x))"
  using assms evolves_trans [OF assms(4) cascade_failure_refines(1)]
    parent_done_cong [OF assms(3)] queue_keys_cong [OF assms(3)] by auto

lemma report_not_claimed_refines:
  assumes "queue_keys s" and "raw s tid = Some t"
  shows "evolves r s (snd (report_not_claimed t now s))"
proof -
  have tid: "ticket_id t = tid" using assms(2) by (rule raw_ticket_id)
  show ?thesis
  proof (cases "status t = TkFailed")
    case True
    then have "\<not> parent_done s tid" using raw_not_done assms by fastforce
    then have "evolves r s (snd (cascade_failure tid now s))"
      using cascade_failure_refines assms(1) by blast
    then show ?thesis using True tid evolves_mirror(1) evolves_trans
      by (simp add: report_not_claimed_def Let_def)
  next
    case False
    then show ?thesis by (auto simp: report_not_claimed_def Let_def)
  qed
qed

lemma report_after_refines:
  assumes "queue_keys s" and "new_status = TkFailed \<Longrightarrow> \<not> parent_done s (ticket_id t)"
  shows "evolves r s (snd (report_after t identity wr succ trusted new_status now s))"
proof -
  define e where "e = report_evaluation (Some identity) (task_id t)
     (if \<not> succ then ''failed'' else if trusted then ''completed'' else ''pending_review'')
     (Some (wr_confidence wr)) (wr_usage wr)"
  obtain o1 s1 where r: "record_evaluation e s = (o1, s1)" by (metis surj_pair)
  note ev = evolves_record_evaluation_pair [OF r, of r] and wq = record_evaluation_queue [OF r]
  have m: "evolves r s (mirror_if (task_id t) st s1)" for st using ev evolves_mirror(1) evolves_trans by blast
  have "evolves r s (snd (cascade_failure (ticket_id t) now (mirror_if (task_id t) FAILED s1)))"
    if "new_status = TkFailed"
    by (rule cascade_after_refines) (use assms that m wq in simp_all)
  then show ?thesis using ev m r
    by (auto simp: report_after_def e_def [symmetric] split: sum.split)
qed

lemma report_fenced_refines:
  assumes keys: "queue_keys s" and t: "raw s (ticket_id r) = Some t"
    and agree: "holds_lease token t \<Longrightarrow> attempts t = attempts r \<and> lease_tier t = lease_tier r
      \<and> provenance t = provenance r \<and> max_attempts t = max_attempts r"
  shows "evolves rt s (snd (report_fenced w r identity tier token wr ref now s))"
proof -
  define tid where "tid = ticket_id r"
  define tr where "tr = (tier = TRUSTED_TIER \<and> lease_tier r = TRUSTED_TIER)"
  define succ where "succ = (wr_status wr = ''completed'')"
  define prov where "prov = provenance r @ [PReport identity tier (wr_status wr) now]"
  define dec where "dec = report_decision r succ tr now"
  let ?hit = "lease_guard tid identity token now"
  define s1 where "s1 = upd_tk ?hit (report_row_upd dec ref prov now) s"
  define s2 where "s2 = ticket_audit tid (task_id r) TkClaimed (fst dec) ''applied'' identity
    (''worker_status='' @ wr_status wr) s1"
  have wq2: "work_queue s2 = upd_where ?hit (report_row_upd dec ref prov now) (work_queue s)"
    by (simp add: s2_def s1_def)
  have only: "u = t" if "u \<in> set (work_queue s)" "?hit u" for u
  proof -
    have "raw s (ticket_id r) = Some u"
      using that raw_iff [OF keys, of "ticket_id r" u] by (simp add: lease_guard_def tid_def)
    then show ?thesis using t by simp
  qed
  have step: "tk_step rt (fresh_tokens s) s t (report_row_upd dec ref prov now t)" if h: "?hit t"
  proof -
    have *: "attempts t = attempts r" "lease_tier t = lease_tier r" "max_attempts t = max_attempts r"
      using agree h by (auto simp: lease_guard_def holds_lease_def)
    then have "dec = report_decision t (wr_status wr = ''completed'')
        (tier = TRUSTED_TIER \<and> lease_tier t = TRUSTED_TIER) now"
      by (simp add: dec_def succ_def tr_def report_decision_def)
    then show ?thesis unfolding prov_def by (rule step_report [rotated]) (use h in \<open>simp add: lease_guard_def\<close>)
  qed
  have 2: "evolves rt s s2"
  proof (rule evolves_update [OF wq2])
    show "base s s2" unfolding s2_def s1_def by (intro base_frames base_refl)
    show "u \<in> set (work_queue s) \<Longrightarrow> ?hit u
        \<Longrightarrow> tk_step rt (fresh_tokens s) s u (report_row_upd dec ref prov now u)" for u
      using only step by metis
  qed (simp add: s2_def s1_def)
  have 3: "evolves rt s (s\<lparr>bus := b, uuid_ctr := uuid_ctr s2\<rparr>)" for b
    by (rule evolves_frame) (use evolves_base [OF 2] in \<open>simp_all add: base_def artifacts_ok_def\<close>)
  have 4: "evolves rt s (snd (report_after r identity wr succ tr (fst dec) now s2))"
    if one: "rowcount ?hit (work_queue s) = 1"
  proof (rule evolves_trans [OF 2 report_after_refines])
    show "queue_keys s2" using 2 keys by (rule evolves_keys)
    assume f: "fst dec = TkFailed"
    have "?hit t"
    proof (rule ccontr)
      assume "\<not> ?hit t"
      then have "filter ?hit (work_queue s) = []" using only by (auto simp: filter_empty_conv)
      then show False using one by (simp add: rowcount_def)
    qed
    then have "raw s2 tid = Some (report_row_upd dec ref prov now t)"
      using t by (simp add: raw_def wq2 row_of_upd_where tid_def)
    then show "\<not> parent_done s2 (ticket_id r)"
      using f \<open>queue_keys s2\<close> raw_not_done [of s2 tid]
      by (cases dec) (auto simp: tid_def report_row_upd_def clear_lease_def Let_def)
  qed
  obtain o4 s4 where ra: "report_after r identity wr succ tr (fst dec) now s2 = (o4, s4)"
    by (metis surj_pair)
  have del: "evolves rt s (delete_artifact ref s)"
      "evolves rt s (delete_artifact ref (s\<lparr>bus := b, uuid_ctr := uuid_ctr s2\<rparr>))" for b
    using evolves_delete_artifact evolves_trans [OF 3 evolves_delete_artifact] by blast+
  have eq: "report_fenced w r identity tier token wr ref now s =
    (if w_fault w s = AtUpdate then (Raised OperationalError, s)
     else if rowcount ?hit (work_queue s) \<noteq> 1 then (Err Lease_lost, delete_artifact ref s)
     else case w_fault w s of
         AtCommit cleaned \<Rightarrow> (Raised OperationalError,
           if cleaned then delete_artifact ref (s\<lparr>bus := bus s2, uuid_ctr := uuid_ctr s2\<rparr>)
           else s\<lparr>bus := bus s2, uuid_ctr := uuid_ctr s2\<rparr>)
       | _ \<Rightarrow> (case report_after r identity wr succ tr (fst dec) now s2 of
             (Inl e, s4) \<Rightarrow> (Raised e, s4)
           | (Inr _, s4) \<Rightarrow> (Ok (fst dec, fst (snd dec), ref), s4)))"
    by (simp only: report_fenced_def Let_def tid_def tr_def succ_def prov_def dec_def s1_def s2_def)
  show ?thesis unfolding eq
    by (cases "w_fault w s"; cases o4; cases "rowcount ?hit (work_queue s) = 1")
      (use 3 4 ra del in simp_all)
qed

lemma held_token:
  "wq_inv r s \<Longrightarrow> raw s tid = Some t \<Longrightarrow> lease_token t = Some tok \<Longrightarrow> tok \<in> uuids s ` {..<uuid_ctr s}"
  by (auto simp: wq_inv_def tokens_ok_def dest: raw_in_queue)

lemma evolves_uuids: "evolves r s s' \<Longrightarrow> uuids s' = uuids s"
  using evolves_base by (simp add: base_def)

lemma report_refines:
  assumes w: "peaceful c w" and inv: "wq_inv (routing c) s" and inj: "inj (uuids s)"
  shows "evolves (routing c) s (snd (report c w identity tier tid token result now s))"
proof (cases "raw s tid")
  case None
  then show ?thesis by (simp add: report_def Let_def)
next
  case (Some r)
  let ?n = "now_of now s"
  have keys: "queue_keys s" using inv by (simp add: wq_inv_def)
  show ?thesis
  proof (cases "status r = TkClaimed \<and> lease_live identity token ?n r \<and> result \<noteq> None")
    case False
    then show ?thesis using Some report_not_claimed_refines [OF keys Some, of "routing c" ?n]
      by (auto simp: report_def Let_def split: prod.split option.split)
  next
    case True
    then obtain wr where wr: "result = Some wr" by blast
    obtain o1 s1 where p: "put_artifact (task_id r) ''work_result'' (model_dump_json c wr) ''text/plain'' s
        = (o1, s1)" by (metis surj_pair)
    have 1: "evolves (routing c) s s1" using evolves_put_artifact p by (metis snd_conv)
    have 2: "evolves (routing c) s (w_env w s1)"
      using evolves_trans [OF 1] w evolves_wq_inv [OF 1 inv] by (simp add: peaceful_def)
    have tok: "token \<in> uuids s ` {..<uuid_ctr s}"
      using held_token [OF inv Some] True by (simp add: lease_live_def)
    obtain t where t: "raw (w_env w s1) tid = Some t" and a: "holds_lease token t \<longrightarrow>
        holds_lease token r \<and> attempts t = attempts r \<and> lease_tier t = lease_tier r
        \<and> lease_holder t = lease_holder r \<and> provenance t = provenance r \<and> same_identity r t"
      using evolves_holds [OF 2 inj tok Some] by blast
    have "evolves (routing c) (w_env w s1)
        (snd (report_fenced w r identity tier token wr ref ?n (w_env w s1)))" for ref
      by (rule report_fenced_refines [where t = t])
        (use t a keys evolves_keys [OF 2] raw_ticket_id [OF Some] in \<open>auto simp: same_identity_def\<close>)
    then have "evolves (routing c) s
        (snd (report_fenced w r identity tier token wr ref ?n (w_env w s1)))" for ref
      using evolves_trans [OF 2] by blast
    then show ?thesis using True Some wr p 1
      by (simp add: report_def Let_def split: sum.split)
  qed
qed

section \<open>Reviewing\<close>

lemma review_evaluate_refines: "evolves r s (snd (review_evaluate c t st s))"
  using evolves_record_evaluation
  by (auto simp: review_evaluate_def split: option.split prod.split sum.split) (metis snd_conv)+

lemma review_evaluate_queue:
  "review_evaluate c t st s = (o1, s') \<Longrightarrow> work_queue s' = work_queue s"
  by (auto simp: review_evaluate_def record_evaluation_def split: option.splits)

lemma approve_refines:
  assumes w: "peaceful c w" and inv: "wq_inv (routing c) s"
  shows "evolves (routing c) s (snd (approve c w reviewer tier tid now s))"
proof (cases "\<exists>r. raw s tid = Some r \<and> status r = TkInReview")
  case False
  then show ?thesis by (auto simp: approve_def Let_def split: option.split)
next
  case True
  then obtain r where r: "raw s tid = Some r" "status r = TkInReview" by blast
  let ?n = "now_of now s"
  define s1 where "s1 = w_env w s"
  define prov where "prov = provenance r @ [PReview reviewer ''approved'' None ?n]"
  define s3 where "s3 = ticket_audit tid (task_id r) TkInReview TkDone ''applied'' reviewer []
    (upd_tk (review_guard tid) (approve_row prov ?n) s1)"
  have 1: "evolves (routing c) s s1" using w inv by (simp add: peaceful_def s1_def)
  have wq3: "work_queue s3 = upd_where (review_guard tid) (approve_row prov ?n) (work_queue s1)"
    by (simp add: s3_def)
  have 3: "evolves (routing c) s s3"
  proof (rule evolves_trans [OF 1 evolves_update [OF wq3]])
    show "base s1 s3" unfolding s3_def by (intro base_frames base_refl)
    show "review_guard tid t \<Longrightarrow> tk_step (routing c) (fresh_tokens s1) s1 t (approve_row prov ?n t)" for t
      unfolding prov_def by (rule step_approve) (simp add: review_guard_def)
  qed (simp add: s3_def)
  obtain o4 s4 where e: "review_evaluate c r ''completed'' s3 = (o4, s4)" by (metis surj_pair)
  have 4: "evolves (routing c) s s4"
    using evolves_trans [OF 3 review_evaluate_refines] e by (metis snd_conv)
  have 5: "evolves (routing c) s (mirror_if (task_id r) COMPLETE s4)"
    using evolves_trans [OF 4 evolves_mirror(1)] .
  have eq: "approve c w reviewer tier tid now s =
    (if tier \<noteq> TRUSTED_TIER then (Err Reviewer_not_authorized, s)
     else if rowcount (review_guard tid) (work_queue s1) \<noteq> 1 then (Err Not_in_review, s1)
     else case review_evaluate c r ''completed'' s3 of
          (Ok _, s4) \<Rightarrow> (Ok (TkDone, ''approved''), mirror_if (task_id r) COMPLETE s4)
        | (Err e, s4) \<Rightarrow> (Err e, s4)
        | (Raised e, s4) \<Rightarrow> (Raised e, s4)
        | (Diverges, s4) \<Rightarrow> (Diverges, s4))"
    using r by (simp add: approve_def Let_def s1_def s3_def prov_def)
  show ?thesis unfolding eq e using 1 4 5 by (cases o4) simp_all
qed

text \<open>
  \<open>reject\<close> decides on the attempts it read before the update; \<open>no_aba\<close> says that a ticket still in
  review at the update is in the same attempt.
\<close>

definition no_aba :: "world \<Rightarrow> string \<Rightarrow> db \<Rightarrow> bool" where
  "no_aba w tid s \<longleftrightarrow>
    (\<forall>t t'. raw s tid = Some t \<longrightarrow> raw (w_env w s) tid = Some t' \<longrightarrow> status t' = TkInReview
       \<longrightarrow> attempts t' = attempts t)"

lemma reject_refines:
  assumes w: "peaceful c w" and inv: "wq_inv (routing c) s" and aba: "no_aba w tid s"
  shows "evolves (routing c) s (snd (reject c w reviewer tier tid reason now s))"
proof (cases "raw s tid")
  case None
  then show ?thesis by (simp add: reject_def Let_def)
next
  case (Some r)
  let ?n = "now_of now s" and ?q = "attempts r < max_attempts r"
  have keys: "queue_keys s" using inv by (simp add: wq_inv_def)
  show ?thesis
  proof (cases "status r = TkInReview")
    case False
    have "evolves (routing c) s (mirror_if (task_id r) FAILED (snd (cascade_failure tid ?n s)))"
      if "status r = TkFailed"
      by (rule evolves_trans [OF cascade_failure_refines(1) [OF keys raw_not_done [OF keys Some]]
            evolves_mirror(1)]) (simp add: that)
    with False Some show ?thesis by (simp add: reject_def Let_def)
  next
    case True
    define s1 where "s1 = w_env w s"
    define s3 where "s3 = ticket_audit tid (task_id r) TkInReview (if ?q then TkOpen else TkFailed)
      ''applied'' reviewer reason (upd_tk (review_guard tid)
        (reject_row ?q (provenance r @ [PReview reviewer ''rejected'' (Some reason) ?n]) ?n) s1)"
    have 1: "evolves (routing c) s s1" using w inv by (simp add: peaceful_def s1_def)
    have keys1: "queue_keys s1" using 1 keys by (rule evolves_keys)
    have wq3: "work_queue s3 = upd_where (review_guard tid)
        (reject_row ?q (provenance r @ [PReview reviewer ''rejected'' (Some reason) ?n]) ?n) (work_queue s1)"
      by (simp add: s3_def)
    have 3: "evolves (routing c) s s3"
    proof (rule evolves_trans [OF 1 evolves_update [OF wq3]])
      show "base s1 s3" unfolding s3_def by (intro base_frames base_refl)
      fix t
      assume "t \<in> set (work_queue s1)" and g: "review_guard tid t"
      then have t: "raw s1 tid = Some t" using raw_iff [OF keys1] by (simp add: review_guard_def)
      then have "attempts t = attempts r" "max_attempts t = max_attempts r"
        using aba Some g evolves_row [OF 1 Some]
        by (auto simp: no_aba_def s1_def review_guard_def same_identity_def)
      then show "tk_step (routing c) (fresh_tokens s1) s1 t
          (reject_row ?q (provenance r @ [PReview reviewer ''rejected'' (Some reason) ?n]) ?n t)"
        using g by (intro step_reject) (auto simp: review_guard_def)
    qed (simp add: s3_def)
    obtain o4 s4 where e: "review_evaluate c r ''failed'' s3 = (o4, s4)" by (metis surj_pair)
    have 4: "evolves (routing c) s s4"
      using evolves_trans [OF 3 review_evaluate_refines] e by (metis snd_conv)
    have nd: "\<not> parent_done s4 tid" if one: "rowcount (review_guard tid) (work_queue s1) = 1"
    proof -
      obtain t where "raw s1 tid = Some t" "review_guard tid t"
        using one keys1 rowcount_key_1 [of ticket_id "work_queue s1" tid "\<lambda>t. status t = TkInReview"]
        by (auto simp: queue_keys_def review_guard_def [abs_def] raw_def dest: row_of_SomeD)
      then have "raw s4 tid = Some (reject_row ?q
          (provenance r @ [PReview reviewer ''rejected'' (Some reason) ?n]) ?n t)"
        by (simp add: raw_def review_evaluate_queue [OF e] wq3 row_of_upd_where)
      then show ?thesis
        by (rule raw_not_done [OF evolves_keys [OF 4 keys]]) (simp add: reject_row_def clear_lease_def)
    qed
    have 5: "evolves (routing c) s (snd (cascade_failure tid ?n (mirror_if (task_id r) FAILED s4)))"
      if "rowcount (review_guard tid) (work_queue s1) = 1"
      using that nd evolves_keys [OF 4 keys]
      by (intro evolves_trans [OF 4 cascade_after_refines]) auto
    have eq: "reject c w reviewer tier tid reason now s =
      (if tier \<noteq> TRUSTED_TIER then (Err Reviewer_not_authorized, s)
       else if rowcount (review_guard tid) (work_queue s1) \<noteq> 1 then (Err Not_in_review, s1)
       else case review_evaluate c r ''failed'' s3 of
            (Ok _, s4) \<Rightarrow>
              if ?q then (Ok (TkOpen, ''rejected''), s4)
              else (Ok (TkFailed, ''rejected''),
                    snd (cascade_failure tid ?n (mirror_if (task_id r) FAILED s4)))
          | (Err e, s4) \<Rightarrow> (Err e, s4)
          | (Raised e, s4) \<Rightarrow> (Raised e, s4)
          | (Diverges, s4) \<Rightarrow> (Diverges, s4))"
      using True by (simp add: reject_def Let_def Some s1_def s3_def)
    show ?thesis unfolding eq e using 1 4 5 by (cases o4) simp_all
  qed
qed

section \<open>Dependencies\<close>

abbreviation closed_under :: "(string \<times> string) list \<Rightarrow> string set \<Rightarrow> bool" where
  "closed_under deps C \<equiv> \<forall>x \<in> C. set (parents_of deps x) \<subseteq> C"

lemma parents_of_edge: "p \<in> set (parents_of deps x) \<longleftrightarrow> (x, p) \<in> set deps"
  by (force simp: parents_of_def)

lemma closed_under_rtrancl:
  assumes "closed_under deps C" and "x \<in> C" and "(x, y) \<in> (set deps)\<^sup>*"
  shows "y \<in> C"
  using assms(3,2)
proof (induction rule: converse_rtrancl_induct)
  case (step a b)
  then show ?case using assms(1) parents_of_edge by blast
qed simp

lemma reach_loop_closed:
  assumes "set queue \<subseteq> set found"
    and "\<forall>x \<in> set found - set queue. set (parents_of deps x) \<subseteq> set found"
  shows "set found \<subseteq> set (reach_loop deps queue found) \<and> closed_under deps (set (reach_loop deps queue found))"
  using assms
proof (induction deps queue found rule: reach_loop.induct)
  case (2 deps x queue found)
  let ?new = "filter (\<lambda>y. y \<notin> set found) (remdups (parents_of deps x))"
  have "set (queue @ ?new) \<subseteq> set (found @ ?new)" using "2.prems"(1) by auto
  moreover have "\<forall>z \<in> set (found @ ?new) - set (queue @ ?new). set (parents_of deps z) \<subseteq> set (found @ ?new)"
    using "2.prems"(2) by fastforce
  ultimately have "set (found @ ?new) \<subseteq> set (reach_loop deps (queue @ ?new) (found @ ?new))
      \<and> closed_under deps (set (reach_loop deps (queue @ ?new) (found @ ?new)))"
    using "2.IH" by blast
  then show ?case by (simp add: Let_def)
qed simp

lemma reach_loop_sound:
  "set queue \<subseteq> C \<Longrightarrow> set found \<subseteq> C \<Longrightarrow> closed_under deps C \<Longrightarrow> set (reach_loop deps queue found) \<subseteq> C"
proof (induction deps queue found rule: reach_loop.induct)
  case (2 deps x queue found)
  have "set (parents_of deps x) \<subseteq> C" using "2.prems" by simp
  then show ?case using "2.prems" "2.IH" [OF refl] by (auto simp: Let_def)
qed simp

lemma reach_iff: "y \<in> set (reach deps x) \<longleftrightarrow> (x, y) \<in> (set deps)\<^sup>*"
proof
  have "closed_under deps {z. (x, z) \<in> (set deps)\<^sup>*}"
    using parents_of_edge by (auto intro: rtrancl_into_rtrancl)
  then show "y \<in> set (reach deps x) \<Longrightarrow> (x, y) \<in> (set deps)\<^sup>*"
    using reach_loop_sound [of "[x]" "{z. (x, z) \<in> (set deps)\<^sup>*}" "[x]" deps] by (auto simp: reach_def)
  have "x \<in> set (reach deps x)" "closed_under deps (set (reach deps x))"
    using reach_loop_closed [of "[x]" "[x]" deps] by (auto simp: reach_def)
  then show "(x, y) \<in> (set deps)\<^sup>* \<Longrightarrow> y \<in> set (reach deps x)"
    using closed_under_rtrancl by blast
qed

lemma dfs_loop_sound: "dfs_loop deps target stack seen \<Longrightarrow> \<exists>x \<in> set stack. (x, target) \<in> (set deps)\<^sup>*"
proof (induction deps target stack seen rule: dfs_loop.induct)
  case (2 deps target cur stack seen)
  show ?case
  proof (cases "cur = target \<or> cur \<in> set seen")
    case False
    then obtain x where x: "x \<in> set (rev (parents_of deps cur) @ stack)" "(x, target) \<in> (set deps)\<^sup>*"
      using 2 by auto
    then show ?thesis using parents_of_edge [of x deps cur] by (auto intro: converse_rtrancl_into_rtrancl)
  qed (use 2 in auto)
qed simp

lemma dfs_loop_complete:
  assumes "\<not> dfs_loop deps target stack seen" and "target \<notin> set seen"
    and "\<forall>y \<in> set seen. set (parents_of deps y) \<subseteq> set seen \<union> set stack"
  shows "\<exists>C. set stack \<union> set seen \<subseteq> C \<and> target \<notin> C \<and> closed_under deps C"
  using assms
proof (induction deps target stack seen rule: dfs_loop.induct)
  case (1 deps target seen)
  then show ?case by (intro exI [of _ "set seen"]) auto
next
  case (2 deps target cur stack seen)
  have ne: "cur \<noteq> target" using "2.prems"(1) by auto
  show ?case
  proof (cases "cur \<in> set seen")
    case True
    then have "\<exists>C. set stack \<union> set seen \<subseteq> C \<and> target \<notin> C \<and> closed_under deps C"
      using ne "2.prems" by (intro "2.IH"(1)) auto
    then obtain C where "set stack \<union> set seen \<subseteq> C" "target \<notin> C" "closed_under deps C" by blast
    then show ?thesis using True by (intro exI [of _ C]) auto
  next
    case False
    then have "\<exists>C. set (rev (parents_of deps cur) @ stack) \<union> set (cur # seen) \<subseteq> C \<and> target \<notin> C
        \<and> closed_under deps C"
      using ne "2.prems" by (intro "2.IH"(2)) auto
    then obtain C where "set (rev (parents_of deps cur) @ stack) \<union> set (cur # seen) \<subseteq> C" "target \<notin> C"
        "closed_under deps C" by blast
    then show ?thesis by (intro exI [of _ C]) auto
  qed
qed

lemma depends_transitively_iff:
  "depends_transitively s x y \<longleftrightarrow> (x, y) \<in> (set (work_queue_deps s))\<^sup>*"
proof
  assume r: "(x, y) \<in> (set (work_queue_deps s))\<^sup>*"
  show "depends_transitively s x y"
  proof (rule ccontr)
    assume "\<not> depends_transitively s x y"
    then obtain C where "x \<in> C" "y \<notin> C" "closed_under (work_queue_deps s) C"
      using dfs_loop_complete [of "work_queue_deps s" y "[x]" "[]"] by (auto simp: depends_transitively_def)
    with r show False using closed_under_rtrancl by blast
  qed
qed (use dfs_loop_sound [of "work_queue_deps s" y "[x]" "[]"] in \<open>simp add: depends_transitively_def\<close>)

lemma link_refines:
  assumes w: "peaceful c w" and inv: "wq_inv (routing c) s"
  shows "evolves (routing c) s (snd (link c w tid dep s))"
proof -
  define s1 where "s1 = w_env w s"
  have 1: "evolves (routing c) s s1" using w inv by (simp add: peaceful_def s1_def)
  have 2: "evolves (routing c) s (s1\<lparr>work_queue_deps := work_queue_deps s1 @ [(tid, dep)]\<rparr>)"
    if a: "raw s tid = Some ct" "raw s dep = Some pt"
      "set (allowed_tiers (routing c) (privacy_class ct)) \<subseteq> set (allowed_tiers (routing c) (privacy_class pt))"
      "tid \<notin> set (reach (work_queue_deps s1) dep)" "(tid, dep) \<notin> set (work_queue_deps s1)"
      and b: "raw s1 tid = Some t" "status t \<notin> {TkClaimed, TkInReview}" for ct pt t
  proof (rule evolves_trans [OF 1 evolves_step])
    obtain pt' where p: "raw s1 dep = Some pt'" "same_identity pt pt'" using evolves_row [OF 1 a(2)] by blast
    have "same_identity ct t" using evolves_row [OF 1 a(1)] b(1) by auto
    then show "qstep (routing c) (fresh_tokens s1) s1
        (s1\<lparr>work_queue_deps := work_queue_deps s1 @ [(tid, dep)]\<rparr>)"
      using a(3-5) b p
      by (intro q_link [where child = tid and parent = dep and ct = t and pt = pt'])
        (auto simp: reach_iff base_def artifacts_ok_def tiers_of_def same_identity_def)
  qed
  show ?thesis
    using 1 2 by (simp add: link_def Let_def s1_def [symmetric] split: option.split)
qed

section \<open>Cancellation and reaping\<close>

lemma cancel_one_refines:
  shows "evolves r s (cancel_one task now row s)"
    and "\<not> parent_done s p \<Longrightarrow> \<not> parent_done (cancel_one task now row s) p"
proof -
  let ?P = "\<lambda>t. ticket_id t = ticket_id row \<and> \<not> tk_terminal (status t)"
    and ?f = "cancel_row (provenance row @ [PCancel ''task_cancelled'' now]) now"
  have wq: "work_queue (cancel_one task now row s) = upd_where ?P ?f (work_queue s)"
    by (simp add: cancel_one_def)
  show "evolves r s (cancel_one task now row s)"
    by (rule evolves_update [OF wq]) (auto intro!: step_cancel base_frames simp: cancel_one_def)
  show "\<not> parent_done s p \<Longrightarrow> \<not> parent_done (cancel_one task now row s) p"
    by (rule not_done_update [OF _ wq]) (simp_all add: cancel_row_def clear_lease_def)
qed

lemma fold_refines:
  assumes "\<And>x s. x \<in> set xs \<Longrightarrow> queue_keys s \<Longrightarrow> (\<forall>p \<in> D. \<not> parent_done s p) \<Longrightarrow>
      evolves r s (f x s) \<and> (\<forall>p. \<not> parent_done s p \<longrightarrow> \<not> parent_done (f x s) p)"
    and "queue_keys s" and "\<forall>p \<in> D. \<not> parent_done s p"
  shows "evolves r s (fold f xs s) \<and> (\<forall>p. \<not> parent_done s p \<longrightarrow> \<not> parent_done (fold f xs s) p)"
  using assms
proof (induction xs arbitrary: s)
  case (Cons x xs)
  have 1: "evolves r s (f x s) \<and> (\<forall>p. \<not> parent_done s p \<longrightarrow> \<not> parent_done (f x s) p)"
    using Cons.prems by simp
  have "evolves r (f x s) (fold f xs (f x s))
      \<and> (\<forall>p. \<not> parent_done (f x s) p \<longrightarrow> \<not> parent_done (fold f xs (f x s)) p)"
    using 1 Cons.prems evolves_keys [of r s "f x s"] by (intro Cons.IH) auto
  with 1 show ?case using evolves_trans [of r s "f x s"] by simp
qed simp

lemma cancel_row_gone:
  assumes "queue_keys s" and "row \<in> set rows" and "raw s (ticket_id row) = Some t"
    and "status t \<noteq> TkDone"
  shows "\<not> parent_done (fold (cancel_one task now) rows s) (ticket_id row)"
  using fold_refines [of rows "{}" r "cancel_one task now" s] cancel_one_refines
    raw_not_done [OF assms(1,3,4)] assms(1) by blast

lemma cascades_refine:
  assumes "queue_keys s" and "\<forall>p \<in> set ps. \<not> parent_done s p"
  shows "evolves r s (fold (\<lambda>p s. snd (cascade_failure p now s)) ps s)"
  using fold_refines [where xs = ps and D = "set ps" and r = r and s = s
      and f = "\<lambda>p s. snd (cascade_failure p now s)"]
    cascade_failure_refines assms by blast

lemma cancel_for_task_refines:
  assumes "queue_keys s"
  shows "evolves r s (snd (cancel_for_task task now s))"
proof -
  let ?n = "now_of now s"
  let ?rows = "filter (\<lambda>t. task_id t = Some task \<and> \<not> tk_terminal (status t)) (work_queue s)"
  let ?s1 = "fold (cancel_one task ?n) ?rows s"
  have 1: "evolves r s ?s1"
    using fold_refines [of ?rows "{}" r "cancel_one task ?n" s] cancel_one_refines assms by blast
  have "\<not> parent_done ?s1 (ticket_id row)" if "row \<in> set ?rows" for row
    by (rule cancel_row_gone [OF assms that])
      (use that raw_iff [OF assms] in \<open>auto simp: tk_terminal_def\<close>)
  then have "evolves r ?s1 (fold (\<lambda>tid s. snd (cascade_failure tid ?n s)) (map ticket_id ?rows) ?s1)"
    using evolves_keys [OF 1 assms] by (intro cascades_refine) auto
  then show ?thesis using evolves_trans [OF 1] by (simp add: cancel_for_task_def Let_def)
qed

lemma fold_audit_frame:
  fixes g :: "ticket \<Rightarrow> db \<Rightarrow> db"
  assumes "\<And>x s. work_queue (g x s) = work_queue s" "\<And>x s. work_queue_deps (g x s) = work_queue_deps s"
    "\<And>x s. base s (g x s)"
  shows "work_queue (fold g xs s) = work_queue s \<and> work_queue_deps (fold g xs s) = work_queue_deps s
    \<and> base s (fold g xs s)"
proof (induction xs arbitrary: s)
  case (Cons x xs)
  then show ?case using assms base_trans [OF assms(3) [of s x]] by simp
qed simp

lemma reap_parked_refines:
  assumes "queue_keys s" and "\<forall>t \<in> set ts. \<not> parent_done s (ticket_id t)"
  shows "evolves r s
    (fold (\<lambda>t s. snd (cascade_failure (ticket_id t) now (mirror_if (task_id t) FAILED s))) ts s)"
proof -
  have "evolves r x (snd (cascade_failure (ticket_id t) now (mirror_if (task_id t) FAILED x)))
      \<and> (\<forall>p. \<not> parent_done x p \<longrightarrow>
          \<not> parent_done (snd (cascade_failure (ticket_id t) now (mirror_if (task_id t) FAILED x))) p)"
    if "t \<in> set ts" "queue_keys x" "\<forall>p \<in> ticket_id ` set ts. \<not> parent_done x p" for t x
  proof -
    have q: "queue_keys (mirror_if (task_id t) FAILED x)"
      "parent_done (mirror_if (task_id t) FAILED x) = parent_done x"
      using that(2) parent_done_cong [OF frame_mirror_if(1)] by (simp_all add: queue_keys_def)
    have "\<not> parent_done x (ticket_id t)" using that by simp
    then have "\<not> parent_done (mirror_if (task_id t) FAILED x) (ticket_id t)" using q(2) by simp
    note c = cascade_failure_refines [OF q(1) this]
    show ?thesis using evolves_trans [OF evolves_mirror(1) c(1)] c(2) q(2) by simp
  qed
  then show ?thesis
    using fold_refines [where xs = ts and D = "ticket_id ` set ts" and r = r and s = s
      and f = "\<lambda>t s. snd (cascade_failure (ticket_id t) now (mirror_if (task_id t) FAILED s))"] assms
    by blast
qed

lemma reap_expired_refines:
  assumes keys: "queue_keys s"
  shows "evolves r s (snd (reap_expired now s))"
proof -
  let ?n = "now_of now s"
  let ?again = "\<lambda>t. lease_expired ?n t \<and> attempts t < max_attempts t"
    and ?spent = "\<lambda>t. lease_expired ?n t \<and> attempts t \<ge> max_attempts t"
  let ?a1 = "\<lambda>t :: ticket. ticket_audit (ticket_id t) (task_id t) TkClaimed TkOpen ''applied'' ''reaper'' ''lease_expired''"
    and ?a2 = "\<lambda>t :: ticket. ticket_audit (ticket_id t) (task_id t) TkClaimed TkParked ''applied'' ''reaper''
      ''max_attempts_exhausted''"
  define s2 where "s2 = fold ?a1 (filter ?again (work_queue s)) (upd_tk ?again (reap_requeue_row ?n) s)"
  define parked where "parked = filter ?spent (work_queue s2)"
  define s4 where "s4 = fold ?a2 parked (upd_tk ?spent (reap_park_row ?n) s2)"
  define s5 where "s5 = fold (\<lambda>t s. snd (cascade_failure (ticket_id t) ?n (mirror_if (task_id t) FAILED s)))
    parked s4"
  define s6 where "s6 = fold (\<lambda>p s. snd (cascade_failure (ticket_id p) ?n s))
    (filter (stranded s5) (work_queue s5)) s5"
  define s7 where "s7 = fold (\<lambda>t s. mirror_task_state (the (task_id t))
     (if status t = TkDone then COMPLETE else FAILED) s) (filter (desynced s6) (work_queue s6)) s6"
  have f1: "work_queue (fold ?a1 xs x) = work_queue x \<and> work_queue_deps (fold ?a1 xs x) = work_queue_deps x
      \<and> base x (fold ?a1 xs x)" for xs x
    by (rule fold_audit_frame) (simp_all add: base_frames(2))
  have f2: "work_queue (fold ?a2 xs x) = work_queue x \<and> work_queue_deps (fold ?a2 xs x) = work_queue_deps x
      \<and> base x (fold ?a2 xs x)" for xs x
    by (rule fold_audit_frame) (simp_all add: base_frames(2))
  have wq2: "work_queue s2 = upd_where ?again (reap_requeue_row ?n) (work_queue s)"
    and wq4: "work_queue s4 = upd_where ?spent (reap_park_row ?n) (work_queue s2)"
    by (simp_all add: s2_def s4_def f1 f2)
  have b: "base s s2" "base s2 s4"
    unfolding s2_def s4_def
    using base_trans [OF base_frames(1) [OF base_refl] f1 [THEN conjunct2, THEN conjunct2]]
      base_trans [OF base_frames(1) [OF base_refl] f2 [THEN conjunct2, THEN conjunct2]] by blast+
  have 2: "evolves r s s2"
    by (rule evolves_update [OF wq2]) (auto simp: s2_def f1 b(1) [unfolded s2_def] intro: step_requeue)
  have 4: "evolves r s2 s4"
    by (rule evolves_update [OF wq4]) (auto simp: s4_def f2 b(2) [unfolded s4_def] intro: step_park)
  have keys4: "queue_keys s2" "queue_keys s4"
    using evolves_keys [OF 2 keys] evolves_keys [OF 4] by blast+
  have "\<not> parent_done s4 (ticket_id t)" if "t \<in> set parked" for t
  proof -
    have "raw s2 (ticket_id t) = Some t" using that raw_iff [OF keys4(1)] by (simp add: parked_def)
    then have "\<not> parent_done s2 (ticket_id t)"
      by (rule raw_not_done [OF keys4(1)]) (use that in \<open>auto simp: parked_def lease_expired_def\<close>)
    then show ?thesis
      by (rule not_done_update [OF _ wq4, rotated]) (simp add: reap_park_row_def clear_lease_def)
  qed
  then have 5: "evolves r s4 s5" unfolding s5_def using keys4(2) by (intro reap_parked_refines) auto
  have keys5: "queue_keys s5" using evolves_keys [OF 5 keys4(2)] .
  have "\<not> parent_done s5 (ticket_id t)" if "t \<in> set (filter (stranded s5) (work_queue s5))" for t
    by (rule raw_not_done [OF keys5, of _ t])
      (use that raw_iff [OF keys5] in \<open>auto simp: stranded_def\<close>)
  then have "evolves r s5 (fold (\<lambda>p s. snd (cascade_failure p ?n s))
      (map ticket_id (filter (stranded s5) (work_queue s5))) s5)"
    using keys5 by (intro cascades_refine) auto
  then have 6: "evolves r s5 s6" by (simp add: s6_def fold_map o_def)
  have "evolves r x (fold (\<lambda>t s. mirror_task_state (the (task_id t))
     (if status t = TkDone then COMPLETE else FAILED) s) ts x)" for ts x
    by (induction ts arbitrary: x) (auto intro: evolves_trans)
  then have 7: "evolves r s6 s7" by (simp add: s7_def)
  have "snd (reap_expired now s) = s7"
    unfolding reap_expired_def Let_def s7_def s6_def s5_def s4_def parked_def s2_def by simp
  then show ?thesis using 2 4 5 6 7 by (metis evolves_trans)
qed

end
