(* ===== verification/Queue_Theorems.thy ===== *)
theory Queue_Theorems
  imports Queue_Refinement
begin

text \<open>
  The guarantees of the work queue: its methods as one operation type with \<open>exec\<close>, the stores
  that runs can reach, and the security contract in the header of \<^verbatim>\<open>workqueue.py\<close> as theorems over
  them (authorization, verification gate, fencing, finality, dependencies, recovery), with the
  behaviour of single methods on every branch.
\<close>

section \<open>Runs\<close>

datatype wq_op =
    OpAdd world add_args "real option"
  | OpClaimNext world string "string option" "string list" int "int option" "real option"
  | OpClaim world string "string option" string "int option" "real option"
  | OpRenew string string string "int option" "real option"
  | OpReport world string "string option" string string "worker_result option" "real option"
  | OpApprove world string "string option" string "real option"
  | OpReject world string "string option" string string "real option"
  | OpLink world string string
  | OpCancelForTask string "real option"
  | OpReap "real option"

fun exec :: "wq_config \<Rightarrow> wq_op \<Rightarrow> db \<Rightarrow> db" where
  "exec c (OpAdd w a n) s = snd (add c w a n s)"
| "exec c (OpClaimNext w i tier caps mx secs n) s = snd (claim_next c w i tier caps mx secs n s)"
| "exec c (OpClaim w i tier tid secs n) s = snd (claim c w i tier tid secs n s)"
| "exec c (OpRenew i tid tok ext n) s = snd (renew c i tid tok ext n s)"
| "exec c (OpReport w i tier tid tok res n) s = snd (report c w i tier tid tok res n s)"
| "exec c (OpApprove w rv tier tid n) s = snd (approve c w rv tier tid n s)"
| "exec c (OpReject w rv tier tid reason n) s = snd (reject c w rv tier tid reason n s)"
| "exec c (OpLink w tid dep) s = snd (link c w tid dep s)"
| "exec c (OpCancelForTask task n) s = snd (cancel_for_task task n s)"
| "exec c (OpReap n) s = snd (reap_expired n s)"

text \<open>The other broker processes run the queue code too, and no \<open>reject\<close> meets a reincarnated review.\<close>

fun op_ok :: "wq_config \<Rightarrow> wq_op \<Rightarrow> db \<Rightarrow> bool" where
  "op_ok c (OpAdd w _ _) s = peaceful c w"
| "op_ok c (OpClaimNext w _ _ _ _ _ _) s = peaceful c w"
| "op_ok c (OpClaim w _ _ _ _ _) s = peaceful c w"
| "op_ok c (OpReport w _ _ _ _ _ _) s = peaceful c w"
| "op_ok c (OpApprove w _ _ _ _) s = peaceful c w"
| "op_ok c (OpReject w _ _ tid _ _) s = (peaceful c w \<and> no_aba w tid s)"
| "op_ok c (OpLink w _ _) s = peaceful c w"
| "op_ok c _ s = True"

inductive wq_reachable :: "wq_config \<Rightarrow> db \<Rightarrow> bool" for c where
  wq_init: "inj us \<Longrightarrow> wq_reachable c (empty_db t us)"
| wq_exec: "wq_reachable c s \<Longrightarrow> op_ok c p s \<Longrightarrow> wq_reachable c (exec c p s)"
| wq_other: "wq_reachable c s \<Longrightarrow> work_queue s' = work_queue s \<Longrightarrow> work_queue_deps s' = work_queue_deps s
    \<Longrightarrow> base s s' \<Longrightarrow> wq_reachable c s'"

lemma exec_refines:
  assumes "op_ok c p s" and "wq_inv (routing c) s" and "inj (uuids s)"
  shows "evolves (routing c) s (exec c p s)"
proof -
  have "queue_keys s" using assms(2) by (simp add: wq_inv_def)
  then show ?thesis
    using assms by (cases p) (simp_all add: add_refines claim_next_refines claim_refines renew_refines
      report_refines approve_refines reject_refines link_refines cancel_for_task_refines
      reap_expired_refines)
qed

lemma reachable_inv: "wq_reachable c s \<Longrightarrow> wq_inv (routing c) s \<and> inj (uuids s)"
proof (induction rule: wq_reachable.induct)
  case (wq_init us t)
  then show ?case using wq_inv_empty by (simp add: empty_db_def)
next
  case (wq_exec s p)
  then have "evolves (routing c) s (exec c p s)" using exec_refines by blast
  then show ?case using wq_exec evolves_wq_inv evolves_uuids by metis
next
  case (wq_other s s')
  then have "evolves (routing c) s s'" by (intro evolves_frame) auto
  then show ?case using wq_other evolves_wq_inv evolves_uuids by metis
qed

lemma reachable_row: "wq_reachable c s \<Longrightarrow> raw s tid = Some t \<Longrightarrow> tk_wf (routing c) t"
  using reachable_inv wq_inv_row by blast

section \<open>Refinement of the declared life cycle\<close>

text \<open>The edges a ticket may take: the table of the source with its universal edge to cancelled, and the
  two that the table lacks (the reaper parks a claimed ticket, the cascade fails an open one).\<close>

definition ticket_edges :: "(ticket_status \<times> ticket_status) set" where
  "ticket_edges = {(a, b). \<not> tk_terminal a \<and> b \<in> TICKET_STATUS_EDGES a \<union> {TkCancelled}}
     \<union> {(TkClaimed, TkParked), (TkOpen, TkFailed)}"

lemma tk_step_edges: "tk_step r T s t t' \<Longrightarrow> (status t, status t') \<in> ticket_edges\<^sup>="
proof (induction rule: tk_step.induct)
  case (step_cascade t parent now prov)
  then show ?case by (cases "status t") (auto simp: ticket_edges_def cascade_row_def clear_lease_def tk_terminal_def)
qed (auto simp: ticket_edges_def row_upd_defs report_decision_def clear_lease_def tk_terminal_def lease_expired_def)

lemma evolves_edges:
  assumes "evolves r s s'" and "raw s tid = Some t"
  shows "\<exists>t'. raw s' tid = Some t' \<and> (status t, status t') \<in> ticket_edges\<^sup>*"
  using assms(1)[unfolded evolves_def]
proof (induction rule: rtranclp_induct)
  case (step y z)
  then obtain u where u: "raw y tid = Some u" "(status t, status u) \<in> ticket_edges\<^sup>*" by blast
  from step(2) u(1) show ?case
  proof (cases rule: qstep_row)
    case (step t')
    with tk_step_edges [OF step(2)] u(2) show ?thesis by (auto intro: rtrancl_into_rtrancl)
  qed (use u in blast)
qed (use assms(2) in blast)


section \<open>Safety of every reachable queue\<close>

text \<open>
  C1. Authorization. In every store a run of the queue can reach, whatever other brokers
  interleave: a ticket that is claimed, in review or done was leased to a tier that the routing
  configuration admits for its privacy class; a ticket of a class that admits no tier is never
  open, claimed, in review or done.
\<close>

theorem queue_authorization:
  assumes "wq_reachable c s" and "classes_ok (routing c)" and "t \<in> set (work_queue s)"
  shows "(status t \<in> {TkClaimed, TkInReview, TkDone} \<longrightarrow>
            admits (routing c) (lease_tier t) (privacy_class t))
    \<and> (allowed_tiers (routing c) (privacy_class t) = [] \<longrightarrow>
        status t \<in> {TkParked, TkFailed, TkCancelled} \<and> lease_token t = None)"
proof -
  have wf: "tk_wf (routing c) t"
    using reachable_inv [OF assms(1)] assms(3) by (simp add: wq_inv_def)
  then have "lease_ok (routing c) t" "pull_ok (routing c) t" by (simp_all add: tk_wf_def)
  then show ?thesis
    using assms(2) by (cases "status t")
      (auto simp: lease_ok_def pull_ok_def tiers_of_def admissible_iff_admits)
qed

text \<open>
  C2. Verification gate. A ticket is done only through a trusted judgement: the last event of its
  history is a success reported by a \<open>local_only\<close> worker on a lease that was itself taken at
  tier \<open>local_only\<close>, or an approving review; and a review by any other tier changes nothing.
\<close>

theorem queue_verification_gate:
  assumes "wq_reachable c s" and "t \<in> set (work_queue s)" and "status t = TkDone"
    and "tier \<noteq> Some ''local_only''"
  shows "(\<exists>h e. provenance t = h @ [e] \<and>
      ((\<exists>i n. e = PReport i (Some ''local_only'') ''completed'' n \<and> lease_tier t = Some ''local_only'')
       \<or> (\<exists>rv x n. e = PReview rv ''approved'' x n)))
    \<and> result_ref t \<noteq> None
    \<and> approve c w rv tier tid now s = (Err Reviewer_not_authorized, s)
    \<and> reject c w rv tier tid reason now s = (Err Reviewer_not_authorized, s)"
proof -
  have "tk_wf (routing c) t"
    using reachable_inv [OF assms(1)] assms(2) by (simp add: wq_inv_def)
  then have t: "trust_ok t" by (simp add: tk_wf_def)
  then have "provenance t \<noteq> []" and res: "result_ref t \<noteq> None"
    using assms(3) by (simp_all add: trust_ok_def)
  then obtain h e where e: "provenance t = h @ [e]" by (metis rev_exhaust)
  have "(\<exists>i n. e = PReport i (Some ''local_only'') ''completed'' n \<and> lease_tier t = Some ''local_only'')
       \<or> (\<exists>rv x n. e = PReview rv ''approved'' x n)"
    using t assms(3) e by (cases e) (auto simp: trust_ok_def TRUSTED_TIER_def)
  then show ?thesis
    using e res assms(4) by (auto simp: approve_def reject_def Let_def TRUSTED_TIER_def)
qed


text \<open>
  C4. Dependencies. In every reachable store the dependency graph is acyclic, each edge joins two
  stored tickets and never lets a child be worked at a tier that its parent forbids, and a
  ticket that is claimed or in review has only parents that are done.
\<close>

theorem queue_dependencies_safe:
  assumes "wq_reachable c s"
  shows "acyclic (set (work_queue_deps s))
    \<and> (\<forall>(ch, p) \<in> set (work_queue_deps s). \<exists>ct pt. raw s ch = Some ct \<and> raw s p = Some pt
         \<and> set (allowed_tiers (routing c) (privacy_class ct))
             \<subseteq> set (allowed_tiers (routing c) (privacy_class pt))
         \<and> (status ct \<in> {TkClaimed, TkInReview} \<longrightarrow> status pt = TkDone))"
proof -
  have inv: "wq_inv (routing c) s" using reachable_inv [OF assms] by blast
  then have k: "queue_keys s" and d: "deps_ok (routing c) s" and l: "live_unblocked s"
    by (simp_all add: wq_inv_def)
  have "\<exists>ct pt. raw s ch = Some ct \<and> raw s p = Some pt
         \<and> set (allowed_tiers (routing c) (privacy_class ct))
             \<subseteq> set (allowed_tiers (routing c) (privacy_class pt))
         \<and> (status ct \<in> {TkClaimed, TkInReview} \<longrightarrow> status pt = TkDone)"
    if e: "(ch, p) \<in> set (work_queue_deps s)" for ch p
  proof -
    obtain ct pt where r: "raw s ch = Some ct" "raw s p = Some pt" "tiers_of (routing c) ct \<subseteq> tiers_of (routing c) pt"
      using deps_okD [OF d e] by blast
    have "status pt = TkDone" if "status ct \<in> {TkClaimed, TkInReview}"
    proof -
      have "\<not> is_blocked s ch"
        using l that raw_in_queue [OF r(1)] raw_ticket_id [OF r(1)] by (auto simp: live_unblocked_def)
      then have "parent_done s p" using e by (auto simp: is_blocked_def list_ex_iff)
      then show ?thesis using parent_done_raw [OF k] r(2) by auto
    qed
    with r show ?thesis by (auto simp: tiers_of_def)
  qed
  then show ?thesis using d by (auto simp: deps_ok_def)
qed

text \<open>
  Terminal is terminal. Whatever method runs next, with whatever arguments and interleaved
  commits, a ticket that is done, failed or cancelled keeps its whole row.
\<close>

theorem queue_terminal_final:
  assumes "wq_reachable c s" and "op_ok c p s" and "raw s tid = Some t"
    and "status t \<in> {TkDone, TkFailed, TkCancelled}"
  shows "raw (exec c p s) tid = Some t"
proof -
  have "evolves (routing c) s (exec c p s)"
    using exec_refines [OF assms(2)] reachable_inv [OF assms(1)] by blast
  from evolves_row [OF this assms(3)] assms(4) show ?thesis by (auto simp: tk_terminal_def)
qed

section \<open>Fencing\<close>

definition wq_next :: "wq_config \<Rightarrow> db \<Rightarrow> db \<Rightarrow> bool" where
  "wq_next c s s' \<longleftrightarrow> (\<exists>p. op_ok c p s \<and> s' = exec c p s)
    \<or> (work_queue s' = work_queue s \<and> work_queue_deps s' = work_queue_deps s \<and> base s s')"

lemma wq_runs_evolves:
  assumes "(wq_next c)\<^sup>*\<^sup>* s s'" and "wq_reachable c s"
  shows "evolves (routing c) s s' \<and> wq_reachable c s'"
  using assms(1)
proof (induction rule: rtranclp_induct)
  case (step y z)
  then have y: "wq_inv (routing c) y" "inj (uuids y)" using reachable_inv by blast+
  have "evolves (routing c) y z"
    using step(2) exec_refines [OF _ y] evolves_frame by (auto simp: wq_next_def)
  moreover have "wq_reachable c z"
    using step by (auto simp: wq_next_def intro: wq_exec wq_other)
  ultimately show ?case using step.IH evolves_trans by blast
qed (simp add: assms(2))

lemma report_without_lease:
  assumes "wq_inv r s" and "raw s tid = Some t" and "\<not> holds_lease token t"
  shows "\<exists>e. fst (report c w i tier tid token res now s) = Err e
    \<and> raw (snd (report c w i tier tid token res now s)) tid = Some t"
proof (cases "status t = TkClaimed")
  case True
  then have "\<not> lease_live i token (now_of now s) t"
    using assms(3) by (auto simp: holds_lease_def lease_live_def)
  with True show ?thesis using assms(2) by (simp add: report_def Let_def)
next
  case False
  have k: "queue_keys s" using assms(1) by (simp add: wq_inv_def)
  let ?p = "report_not_claimed t (now_of now s) s"
  have "raw (snd ?p) tid = Some t"
  proof (cases "status t = TkFailed")
    case True
    then show ?thesis
      using evolves_row [OF report_not_claimed_refines [OF k assms(2), of r] assms(2)]
      by (auto simp: tk_terminal_def)
  next
    case nf: False
    then have "work_queue (snd ?p) = work_queue s"
      by (simp add: report_not_claimed_def Let_def)
    then show ?thesis using assms(2) by (simp add: raw_def)
  qed
  then show ?thesis using False assms(2) by (cases ?p) (simp add: report_def Let_def)
qed

text \<open>
  C3. Fencing. Once an issued lease token is no longer the one a ticket is claimed under (the
  reaper requeued it, it was reported, cancelled, re-claimed under a new token), nothing that
  happens later makes it valid again: a heartbeat and a payload read with it are refused, and a
  report with it is refused and leaves the ticket's row as it is.
\<close>

theorem queue_fencing:
  assumes "wq_reachable c s" and "raw s tid = Some t"
    and "token \<in> uuids s ` {..<uuid_ctr s}" and "\<not> holds_lease token t"
    and "(wq_next c)\<^sup>*\<^sup>* s s'"
  shows "\<exists>t' e e'. raw s' tid = Some t'
    \<and> fst (report c w identity tier tid token res now s') = Err e
    \<and> raw (snd (report c w identity tier tid token res now s')) tid = Some t'
    \<and> renew c identity tid token ext now s' = (Err e', s')
    \<and> payload_for c identity tid token tier now s' = Err Lease_lost"
proof -
  have inv: "wq_inv (routing c) s" "inj (uuids s)" using reachable_inv [OF assms(1)] by blast+
  have ev: "evolves (routing c) s s'" using wq_runs_evolves [OF assms(5,1)] by blast
  obtain t' where t': "raw s' tid = Some t'" "\<not> holds_lease token t'"
    using evolves_holds [OF ev inv(2) assms(3,2)] assms(4) by blast
  have inv': "wq_inv (routing c) s'" using evolves_wq_inv [OF ev inv(1)] .
  then have k: "queue_keys s'" by (simp add: wq_inv_def)
  obtain e where e: "fst (report c w identity tier tid token res now s') = Err e"
    "raw (snd (report c w identity tier tid token res now s')) tid = Some t'"
    using report_without_lease [OF inv' t'] by metis
  have "\<not> lease_guard tid identity token n u" if "u \<in> set (work_queue s')" for n u
  proof
    assume g: "lease_guard tid identity token n u"
    then have "u = t'" using that raw_iff [OF k, of tid u] t'(1) by (simp add: lease_guard_def)
    with g t'(2) show False by (simp add: lease_guard_def holds_lease_def)
  qed
  then have "rowcount (lease_guard tid identity token n) (work_queue s') = 0" for n
    by (simp add: rowcount_def filter_empty_conv)
  then have r: "\<exists>e'. renew c identity tid token ext now s' = (Err e', s')"
    by (auto simp: renew_def Let_def)
  have "payload_for c identity tid token tier now s' = Err Lease_lost"
    using t' by (auto simp: payload_for_def Let_def holds_lease_def lease_live_def)
  with t'(1) e r show ?thesis by blast
qed

section \<open>Renewal\<close>

text \<open>
  A heartbeat cannot pin a lease: when \<open>renew\<close> answers with an expiry, the caller held the live
  lease, the expiry lies after the current time by at most an hour, and the only columns that
  changed in the whole queue are the expiry and the update time of that ticket.
\<close>

theorem renew_bounded:
  assumes "wq_reachable c s" and "renew c identity tid token ext (Some now) s = (Ok (st, expires), s')"
  shows "st = TkClaimed \<and> now < expires \<and> expires \<le> now + 3600
    \<and> (\<exists>t e. raw s tid = Some t \<and> holds_lease token t \<and> lease_holder t = Some identity
         \<and> lease_expires_at t = Some e \<and> now < e
         \<and> work_queue s' = upd_where (\<lambda>x. ticket_id x = tid)
             (\<lambda>x. x\<lparr>lease_expires_at := Some expires, updated_at := now\<rparr>) (work_queue s))"
proof -
  have k: "queue_keys s" using reachable_inv [OF assms(1)] by (simp add: wq_inv_def)
  define extend where "extend = (case ext of None \<Rightarrow> default_lease_seconds c | Some e \<Rightarrow> e)"
  let ?g = "lease_guard tid identity token now"
  have pos: "0 < extend" and one: "rowcount ?g (work_queue s) = 1" and st: "st = TkClaimed"
    and ex: "expires = now + of_int (min extend 3600)"
    and s': "s' = upd_tk ?g (\<lambda>t. t\<lparr>lease_expires_at := Some expires, updated_at := now\<rparr>) s"
    using assms(2) by (auto simp: renew_def Let_def now_of_def extend_def [symmetric]
        MAX_LEASE_EXTEND_SECONDS_def split: if_splits)
  have kd: "keys_distinct ticket_id (work_queue s)" using k by (simp add: queue_keys_def)
  have "?g = (\<lambda>t. ticket_id t = tid \<and> (status t = TkClaimed \<and> lease_holder t = Some identity
      \<and> lease_token t = Some token \<and> (case lease_expires_at t of None \<Rightarrow> False | Some e \<Rightarrow> e > now)))"
    by (auto simp: lease_guard_def fun_eq_iff)
  then obtain t where t: "raw s tid = Some t" "?g t"
    using one rowcount_key_1 [OF kd, of tid "\<lambda>t. status t = TkClaimed \<and> lease_holder t = Some identity
      \<and> lease_token t = Some token \<and> (case lease_expires_at t of None \<Rightarrow> False | Some e \<Rightarrow> e > now)"]
      raw_ticket_id by (auto simp: raw_def)
  have "?g u \<longleftrightarrow> ticket_id u = tid" if "u \<in> set (work_queue s)" for u
    using that t raw_iff [OF k, of tid u] by (auto simp: lease_guard_def)
  then have "work_queue s' = upd_where (\<lambda>x. ticket_id x = tid)
             (\<lambda>x. x\<lparr>lease_expires_at := Some expires, updated_at := now\<rparr>) (work_queue s)"
    by (auto simp: s' upd_where_def)
  moreover have "now < expires" "expires \<le> now + 3600"
  proof -
    have "0 < min extend 3600" "min extend 3600 \<le> 3600" using pos by auto
    then have "0 < (of_int (min extend 3600) :: real)" "(of_int (min extend 3600) :: real) \<le> of_int 3600"
      by (simp_all only: of_int_0_less_iff of_int_le_iff)
    then show "now < expires" "expires \<le> now + 3600" by (simp_all add: ex)
  qed
  ultimately show ?thesis using t st
    by (auto simp: lease_guard_def holds_lease_def split: option.splits)
qed

section \<open>The cascade and the reaper leave nothing stranded\<close>

definition settled :: "db \<Rightarrow> string \<Rightarrow> bool" where
  "settled s ch \<longleftrightarrow> (\<forall>t. raw s ch = Some t \<longrightarrow> tk_terminal (status t))"

lemma raw_cascade_hit:
  "raw (cascade_hit parent now child t s) k =
    map_option (\<lambda>x. if ticket_id x = child \<and> \<not> tk_terminal (status x)
      then cascade_row parent now (provenance t) x else x) (raw s k)"
  by (simp add: raw_def cascade_hit_def row_of_upd_where)

lemma cascade_row_terminal [simp]: "tk_terminal (status (cascade_row p n h x))"
  by (simp add: cascade_row_def clear_lease_def tk_terminal_def)

lemma settled_cascade_hit:
  "settled s k \<Longrightarrow> settled (cascade_hit parent now child t s) k"
  "settled (cascade_hit parent now child t s) child"
proof -
  show "settled s k \<Longrightarrow> settled (cascade_hit parent now child t s) k"
    by (auto simp: settled_def raw_cascade_hit)
  have "tk_terminal (status y)" if y: "raw (cascade_hit parent now child t s) child = Some y" for y
  proof -
    obtain x where x: "raw s child = Some x" "y = (if ticket_id x = child \<and> \<not> tk_terminal (status x)
        then cascade_row parent now (provenance t) x else x)"
      using y unfolding raw_cascade_hit by blast
    have "ticket_id x = child" using x(1) by (rule raw_ticket_id)
    then show ?thesis using x(2) by (cases "tk_terminal (status x)") simp_all
  qed
  then show "settled (cascade_hit parent now child t s) child" by (simp add: settled_def)
qed

lemma raw_cascade_hit_other: "k \<noteq> child \<Longrightarrow> raw (cascade_hit parent now child t s) k = raw s k"
  by (cases "raw s k") (auto simp: raw_cascade_hit dest: raw_ticket_id)

definition none_expired :: "real \<Rightarrow> db \<Rightarrow> bool" where
  "none_expired n s \<longleftrightarrow> (\<forall>t \<in> set (work_queue s). \<not> lease_expired n t)"

text \<open>What one round of the cascade adds: seen children are settled, and only cascaded rows change.\<close>

definition cascade_progress ::
  "string list \<Rightarrow> string list \<Rightarrow> string list \<Rightarrow> db \<Rightarrow> string list \<Rightarrow> string list \<Rightarrow> string list \<Rightarrow> db \<Rightarrow> bool" where
  "cascade_progress stack seen cas s stack' seen' cas' s' \<longleftrightarrow>
    work_queue_deps s' = work_queue_deps s \<and> queue_keys s' \<and> (\<forall>k. settled s k \<longrightarrow> settled s' k)
    \<and> (\<forall>k \<in> set seen' - set seen. settled s' k) \<and> set seen \<subseteq> set seen'
    \<and> set stack \<subseteq> set stack' \<and> set cas \<subseteq> set cas' \<and> set cas' - set cas \<subseteq> set stack'
    \<and> (\<forall>k. k \<notin> set cas' \<longrightarrow> raw s' k = raw s k)
    \<and> (\<forall>n. none_expired n s \<longrightarrow> none_expired n s')"

lemma cascade_progress_refl: "queue_keys s \<Longrightarrow> cascade_progress st sn cas s st sn cas s"
  by (simp add: cascade_progress_def)

lemma cascade_progress_trans:
  assumes "cascade_progress st sn cas s st1 sn1 cas1 s1" and "cascade_progress st1 sn1 cas1 s1 st2 sn2 cas2 s2"
  shows "cascade_progress st sn cas s st2 sn2 cas2 s2"
  using assms unfolding cascade_progress_def
  apply (elim conjE)
  apply (intro conjI)
           apply simp
          apply simp
         apply blast
        apply blast
       apply blast
      apply blast
     apply blast
    apply blast
   apply (metis subsetD)
  apply blast
  done

lemma cascade_child_progress:
  assumes "queue_keys s" and "cascade_child parent now child (stack, seen, cas, s) = (stack', seen', cas', s')"
  shows "cascade_progress stack seen cas s stack' seen' cas' s' \<and> child \<in> set seen'"
proof (cases rule: cascade_child_cases [of child seen parent now stack cas s])
  case old
  then show ?thesis using assms cascade_progress_refl by auto
next
  case skip
  have "settled s child"
  proof (rule ccontr)
    assume "\<not> settled s child"
    then obtain t where t: "raw s child = Some t" "\<not> tk_terminal (status t)" by (auto simp: settled_def)
    then have "rowcount (\<lambda>x. ticket_id x = child \<and> \<not> tk_terminal (status x)) (work_queue s) = 1"
      using assms(1) rowcount_key_1 [of ticket_id "work_queue s"] by (auto simp: queue_keys_def raw_def)
    with t skip(3) show False by blast
  qed
  then show ?thesis using skip assms by (auto simp: cascade_progress_def)
next
  case (hit t)
  have "queue_keys (cascade_hit parent now child t s)"
    using assms(1) unfolding queue_keys_def cascade_hit_def frame_mirror_if frame_audit frame_upd_tk
    by (subst (1 2) map_key_upd_where) (simp_all add: cascade_row_def clear_lease_def)
  moreover have "none_expired n s \<longrightarrow> none_expired n (cascade_hit parent now child t s)" for n
    by (auto simp: none_expired_def cascade_hit_def set_upd_where lease_expired_def cascade_row_def
        clear_lease_def)
  ultimately show ?thesis
    using hit assms settled_cascade_hit raw_cascade_hit_other
    by (auto simp: cascade_progress_def)
qed

lemma cascade_fold_progress:
  assumes "queue_keys s" and "fold (cascade_child parent now) cs (stack, seen, cas, s) = (stack', seen', cas', s')"
  shows "cascade_progress stack seen cas s stack' seen' cas' s' \<and> set cs \<subseteq> set seen'"
  using assms
proof (induction cs arbitrary: stack seen cas s)
  case Nil
  then show ?case using cascade_progress_refl by simp
next
  case (Cons ch cs)
  obtain st1 sn1 cas1 s1 where 1: "cascade_child parent now ch (stack, seen, cas, s) = (st1, sn1, cas1, s1)"
    by (metis prod_cases4)
  note a = cascade_child_progress [OF Cons.prems(1) 1]
  then have "queue_keys s1" by (simp add: cascade_progress_def)
  moreover have "fold (cascade_child parent now) cs (st1, sn1, cas1, s1) = (stack', seen', cas', s')"
    using Cons.prems(2) 1 by simp
  ultimately have b: "cascade_progress st1 sn1 cas1 s1 stack' seen' cas' s' \<and> set cs \<subseteq> set seen'"
    by (rule Cons.IH)
  then have "set sn1 \<subseteq> set seen'" by (simp add: cascade_progress_def)
  with a b cascade_progress_trans show ?case by auto
qed

lemma cascade_loop_closed:
  assumes "queue_keys s" and "\<forall>k \<in> set seen. settled s k"
    and "\<forall>p \<in> Q \<union> set cas - set stack. set (children_of s p) \<subseteq> set seen"
    and "cascade_loop now stack seen cas s = (cas', s')"
  shows "queue_keys s' \<and> work_queue_deps s' = work_queue_deps s \<and> (\<forall>k. settled s k \<longrightarrow> settled s' k)
    \<and> (\<forall>k. k \<notin> set cas' \<longrightarrow> raw s' k = raw s k)
    \<and> (\<forall>p \<in> Q \<union> set cas'. \<forall>k \<in> set (children_of s p). settled s' k)
    \<and> (\<forall>n. none_expired n s \<longrightarrow> none_expired n s') \<and> set cas \<subseteq> set cas'"
  using assms
proof (induction now stack seen cas s rule: cascade_loop.induct)
  case (1 now seen cas s)
  then show ?case by auto
next
  case (2 now parent stack seen cas s)
  obtain st1 sn1 cas1 s1 where f: "fold (cascade_child parent now) (children_of s parent)
      (stack, seen, cas, s) = (st1, sn1, cas1, s1)" by (metis prod_cases4)
  note p = cascade_fold_progress [OF "2.prems"(1) f]
  then have pr: "cascade_progress stack seen cas s st1 sn1 cas1 s1" and ch: "set (children_of s parent) \<subseteq> set sn1"
    by blast+
  note pr' = pr [unfolded cascade_progress_def]
  have deps: "work_queue_deps s1 = work_queue_deps s" and k1: "queue_keys s1" using pr' by blast+
  have co: "children_of s1 = children_of s" by (simp add: children_of_def fun_eq_iff deps)
  have s1: "\<forall>k \<in> set sn1. settled s1 k" using pr' "2.prems"(2) by blast
  have sub: "set seen \<subseteq> set sn1" "set stack \<subseteq> set st1" "set cas1 - set cas \<subseteq> set st1" using pr' by blast+
  have c1: "\<forall>p \<in> Q \<union> set cas1 - set st1. set (children_of s1 p) \<subseteq> set sn1"
  proof
    fix q
    assume q: "q \<in> Q \<union> set cas1 - set st1"
    show "set (children_of s1 q) \<subseteq> set sn1"
    proof (cases "q = parent")
      case True
      then show ?thesis using ch co by simp
    next
      case False
      then have "q \<in> Q \<union> set cas - set (parent # stack)" using q sub by auto
      then have "set (children_of s q) \<subseteq> set seen" using "2.prems"(3) by blast
      then show ?thesis using sub(1) co by simp
    qed
  qed
  have l1: "cascade_loop now st1 sn1 cas1 s1 = (cas', s')" using "2.prems"(4) f by simp
  note ih = "2.IH" [OF f [symmetric] refl refl k1 s1 c1 l1]
  have "\<forall>k. k \<notin> set cas' \<longrightarrow> raw s' k = raw s k"
    using ih pr' by (metis subsetD)
  moreover have "\<forall>n. none_expired n s \<longrightarrow> none_expired n s'" using ih pr' by blast
  moreover have "set cas \<subseteq> set cas'" "\<forall>k. settled s k \<longrightarrow> settled s' k" using ih pr' by blast+
  ultimately show ?case using ih deps unfolding co by simp
qed

lemma cascade_failure_closed:
  assumes "queue_keys s" and "cascade_failure p now s = (cas, s')"
  shows "queue_keys s'" "work_queue_deps s' = work_queue_deps s" "\<And>k. settled s k \<Longrightarrow> settled s' k"
    "\<And>k. k \<notin> set cas \<Longrightarrow> raw s' k = raw s k"
    "\<And>q k. q \<in> insert p (set cas) \<Longrightarrow> k \<in> set (children_of s q) \<Longrightarrow> settled s' k"
    "\<And>n. none_expired n s \<Longrightarrow> none_expired n s'"
proof -
  have "cascade_loop now [p] [] [] s = (cas, s')" using assms(2) by (simp add: cascade_failure_def)
  note c = cascade_loop_closed [where Q = "{p}", OF assms(1) _ _ this, simplified]
  show "queue_keys s'" "work_queue_deps s' = work_queue_deps s" "\<And>k. settled s k \<Longrightarrow> settled s' k"
    "\<And>k. k \<notin> set cas \<Longrightarrow> raw s' k = raw s k" "\<And>n. none_expired n s \<Longrightarrow> none_expired n s'"
    using c by blast+
  show "\<And>q k. q \<in> insert p (set cas) \<Longrightarrow> k \<in> set (children_of s q) \<Longrightarrow> settled s' k"
    using c by blast
qed

lemma stranded_iff:
  "queue_keys s \<Longrightarrow> stranded s p \<longleftrightarrow>
    (status p \<in> {TkFailed, TkCancelled} \<or> status p = TkParked \<and> park_reason p = Some ''max_attempts_exhausted'')
    \<and> (\<exists>k \<in> set (children_of s (ticket_id p)). \<not> settled s k)"
proof -
  assume k: "queue_keys s"
  have "list_ex (\<lambda>t. ticket_id t = ch \<and> \<not> tk_terminal (status t)) (work_queue s) \<longleftrightarrow> \<not> settled s ch" for ch
    by (auto simp: settled_def raw_iff [OF k] list_ex_iff)
  moreover have "ch \<in> set (children_of s q) \<longleftrightarrow> (ch, q) \<in> set (work_queue_deps s)" for ch q
    by (force simp: children_of_def)
  ultimately show ?thesis by (simp only: stranded_def list_ex_iff [of _ "work_queue_deps s"]) auto
qed

lemma cascades_heal:
  assumes "queue_keys s" and "\<forall>p \<in> set (work_queue s). stranded s p \<longrightarrow> ticket_id p \<in> set ids"
    and "none_expired m s"
  shows "queue_keys (fold (\<lambda>i s. snd (cascade_failure i n s)) ids s)
    \<and> none_expired m (fold (\<lambda>i s. snd (cascade_failure i n s)) ids s)
    \<and> (\<forall>p \<in> set (work_queue (fold (\<lambda>i s. snd (cascade_failure i n s)) ids s)).
        \<not> stranded (fold (\<lambda>i s. snd (cascade_failure i n s)) ids s) p)"
  using assms
proof (induction ids arbitrary: s)
  case (Cons i ids)
  obtain cas s1 where f: "cascade_failure i n s = (cas, s1)" by (metis surj_pair)
  note c = cascade_failure_closed [OF Cons.prems(1) f]
  have "ticket_id p \<in> set ids" if p: "p \<in> set (work_queue s1)" and st: "stranded s1 p" for p
  proof -
    have co: "children_of s1 = children_of s" by (simp add: children_of_def fun_eq_iff c(2))
    obtain k where k: "k \<in> set (children_of s (ticket_id p))" "\<not> settled s1 k"
      using st stranded_iff [OF c(1)] co by auto
    then have "\<not> settled s k" and nin: "ticket_id p \<notin> insert i (set cas)" using c(3,5) by blast+
    have "raw s1 (ticket_id p) = Some p" using p raw_iff [OF c(1)] by simp
    then have "raw s (ticket_id p) = Some p" using c(4) nin by simp
    then have "p \<in> set (work_queue s)" by (rule raw_in_queue)
    moreover have "stranded s p"
      using st k \<open>\<not> settled s k\<close> stranded_iff [OF c(1)] stranded_iff [OF Cons.prems(1)] by auto
    ultimately show ?thesis using Cons.prems(2) nin by auto
  qed
  then show ?case using Cons.IH [OF c(1)] c(6) [OF Cons.prems(3)] by (simp add: f)
qed auto

lemma mirror_task_state_effect:
  assumes "keys_distinct t_id (tasks s)" and "st \<in> {COMPLETE, FAILED, REVIEW_READY}"
  shows "map t_id (tasks (mirror_task_state tid st s)) = map t_id (tasks s)"
    and "task_state_of (mirror_task_state tid st s) k =
      (if k = tid then map_option (\<lambda>cur. if cur \<in> TERMINAL_STATES then cur else st) (task_state_of s tid)
       else task_state_of s k)"
proof -
  let ?d = "converge_decide TASK_STATE_VOCAB tid st ''work_queue'' (Some TICKET_MIRROR_EDGES) None []
      (Some (\<lambda>src dst. ''work_queue task-state '' @ task_state_value src @ '' -> '' @ task_state_value dst))
      (Some (\<lambda>src dst. ''work_queue refused task-state overwrite '' @ task_state_value src @ '' -> ''
          @ task_state_value dst @ '': terminal state is final''))"
  have m: "mirror_task_state tid st s = snd (transition_task no_peers tid ?d s)"
    by (simp only: mirror_task_state_def snd_converge)
  have hold: "map t_id (tasks (mirror_task_state tid st s)) = map t_id (tasks s) \<and>
      (\<forall>k. task_state_of (mirror_task_state tid st s) k =
        (if k = tid then map_option (\<lambda>cur. if cur \<in> TERMINAL_STATES then cur else st) (task_state_of s tid)
         else task_state_of s k))"
    if "tasks (mirror_task_state tid st s) = tasks s"
      "task_state_of s tid = None \<or> (\<exists>cur. task_state_of s tid = Some cur \<and> (cur \<in> TERMINAL_STATES \<or> cur = st))"
    using that task_state_of_cong [OF that(1)] by auto
  have "map t_id (tasks (mirror_task_state tid st s)) = map t_id (tasks s) \<and>
    (\<forall>k. task_state_of (mirror_task_state tid st s) k =
      (if k = tid then map_option (\<lambda>cur. if cur \<in> TERMINAL_STATES then cur else st) (task_state_of s tid)
       else task_state_of s k))"
  proof (cases "task_state_of s tid")
    case None
    then have "?d (task_state_of s tid) = Hold None" by (simp add: converge_decide_def)
    then have "tasks (mirror_task_state tid st s) = tasks s"
      by (simp add: m transition_task_quiet [OF assms(1)])
    with None show ?thesis using hold by blast
  next
    case (Some cur)
    show ?thesis
    proof (cases "cur \<in> TERMINAL_STATES \<or> cur = st")
      case True
      then have "\<exists>q. ?d (task_state_of s tid) = Hold q"
        using Some by (auto simp: converge_decide_def is_terminal_def)
      then have "tasks (mirror_task_state tid st s) = tasks s"
        by (auto simp: m transition_task_quiet [OF assms(1)] split: option.split)
      with Some True show ?thesis using hold by blast
    next
      case False
      then have "st \<in> allowed TASK_STATE_VOCAB cur (Some TICKET_MIRROR_EDGES)"
        using assms(2) by (auto simp: allowed_def edge_get_def TICKET_MIRROR_EDGES_def)
      then obtain q where d: "?d (task_state_of s tid) = Proceed st [] (Some q)"
        using False Some by (simp add: converge_decide_def is_terminal_def write_fields_def)
      have t: "tasks (mirror_task_state tid st s) =
          upd_where (\<lambda>t. t_id t = tid \<and> Some (t_state t) = Some cur)
            (\<lambda>t. set_cols (AList.update ''updated_at'' (CReal (clock s)) []) (t\<lparr>t_state := st\<rparr>)) (tasks s)"
        using d Some by (simp add: m transition_task_quiet [OF assms(1)] Let_def)
      have ids: "map t_id (tasks (mirror_task_state tid st s)) = map t_id (tasks s)"
        unfolding t by (rule map_key_upd_where) simp
      have "task_state_of (mirror_task_state tid st s) k = (if k = tid then Some st else task_state_of s k)" for k
        using Some unfolding task_state_of_def t
        by (cases "row_of t_id k (tasks s)") (auto simp: row_of_upd_where dest: row_of_SomeD)
      with ids Some False show ?thesis by simp
    qed
  qed
  then show "map t_id (tasks (mirror_task_state tid st s)) = map t_id (tasks s)"
    "task_state_of (mirror_task_state tid st s) k =
      (if k = tid then map_option (\<lambda>cur. if cur \<in> TERMINAL_STATES then cur else st) (task_state_of s tid)
       else task_state_of s k)" by blast+
qed

abbreviation task_keys :: "db \<Rightarrow> bool" where
  "task_keys s \<equiv> keys_distinct t_id (tasks s)"

lemma mirror_task_keys:
  "task_keys s \<Longrightarrow> st \<in> {COMPLETE, FAILED, REVIEW_READY} \<Longrightarrow> task_keys (mirror_task_state i st s)"
  "task_keys s \<Longrightarrow> st \<in> {COMPLETE, FAILED, REVIEW_READY} \<Longrightarrow> task_keys (mirror_if j st s)"
  using mirror_task_state_effect(1) by (auto simp: mirror_if_def)

lemma cascade_child_task_keys:
  assumes "task_keys s" and "cascade_child parent now child (stack, seen, cas, s) = (stack', seen', cas', s')"
  shows "task_keys s'"
proof (cases rule: cascade_child_cases [of child seen parent now stack cas s])
  case (hit t)
  have "task_keys (cascade_hit parent now child t s)"
    unfolding cascade_hit_def by (rule mirror_task_keys) (use assms(1) in simp_all)
  then show ?thesis using hit(4) assms(2) by simp
qed (use assms in auto)

lemma cascade_fold_task_keys:
  "task_keys s \<Longrightarrow> fold (cascade_child parent now) cs (stack, seen, cas, s) = (stack', seen', cas', s')
    \<Longrightarrow> task_keys s'"
proof (induction cs arbitrary: stack seen cas s)
  case (Cons ch cs)
  obtain st1 sn1 cas1 s1 where 1: "cascade_child parent now ch (stack, seen, cas, s) = (st1, sn1, cas1, s1)"
    by (metis prod_cases4)
  then have "fold (cascade_child parent now) cs (st1, sn1, cas1, s1) = (stack', seen', cas', s')"
    using Cons.prems(2) by simp
  with cascade_child_task_keys [OF Cons.prems(1) 1] Cons.IH show ?case by blast
qed simp

lemma cascade_loop_task_keys: "task_keys s \<Longrightarrow> task_keys (snd (cascade_loop now stack seen cas s))"
proof (induction now stack seen cas s rule: cascade_loop.induct)
  case (2 now parent stack seen cas s)
  obtain st1 sn1 cas1 s1 where f: "fold (cascade_child parent now) (children_of s parent)
      (stack, seen, cas, s) = (st1, sn1, cas1, s1)" by (metis prod_cases4)
  from "2.IH" [OF f [symmetric] refl refl cascade_fold_task_keys [OF "2.prems" f]] f
  show ?case by simp
qed simp

lemma fold_task_keys:
  "(\<And>x s. task_keys s \<Longrightarrow> task_keys (f x s)) \<Longrightarrow> task_keys s \<Longrightarrow> task_keys (fold f xs s)"
  by (induction xs arbitrary: s) auto

lemma desynced_iff:
  "task_keys s \<Longrightarrow> desynced s t \<longleftrightarrow> status t \<in> {TkDone, TkFailed} \<and>
    (\<exists>i cur. task_id t = Some i \<and> task_state_of s i = Some cur \<and> cur \<notin> TERMINAL_STATES)"
  by (auto simp: desynced_def list_ex_iff task_state_of_def row_of_Some_iff eq_commute [of "Some _" "task_id t"])

lemma mirrors_resync:
  assumes "task_keys s" and "\<forall>t \<in> set ts. task_id t \<noteq> None"
    and "\<forall>t \<in> W. desynced s t \<longrightarrow> t \<in> set ts"
  shows "\<forall>t \<in> W. \<not> desynced (fold (\<lambda>t s. mirror_task_state (the (task_id t))
     (if status t = TkDone then COMPLETE else FAILED) s) ts s) t"
  using assms
proof (induction ts arbitrary: s)
  case (Cons u ts)
  let ?st = "if status u = TkDone then COMPLETE else FAILED"
  let ?s = "mirror_task_state (the (task_id u)) ?st s"
  have k: "task_keys ?s" using mirror_task_keys(1) [OF Cons.prems(1)] by simp
  have e: "task_state_of ?s k = (if k = the (task_id u)
      then map_option (\<lambda>cur. if cur \<in> TERMINAL_STATES then cur else ?st) (task_state_of s (the (task_id u)))
      else task_state_of s k)" for k
    by (rule mirror_task_state_effect(2) [OF Cons.prems(1)]) simp
  have "t \<in> set ts" if t: "t \<in> W" "desynced ?s t" for t
  proof -
    obtain i cur where i: "task_id t = Some i" "task_state_of ?s i = Some cur" "cur \<notin> TERMINAL_STATES"
      "status t \<in> {TkDone, TkFailed}"
      using t(2) desynced_iff [OF k] by blast
    have ne: "i \<noteq> the (task_id u)"
    proof
      assume "i = the (task_id u)"
      with i(2) e [of i] have "cur \<in> TERMINAL_STATES"
        by (cases "task_state_of s i") (auto split: if_splits)
      with i(3) show False by blast
    qed
    then have "desynced s t" using i e [of i] desynced_iff [OF Cons.prems(1)] by auto
    moreover have "t \<noteq> u" using ne i(1) by auto
    ultimately show ?thesis using Cons.prems(3) t(1) by auto
  qed
  then show ?case using Cons.IH [OF k] Cons.prems(2) by simp
qed simp

text \<open>
  C5. One tick of the reaper recovers everything that crashes can leave behind. After it, no
  ticket is claimed under a lease that ended before the tick; no ticket still waits on a parent
  that failed, was cancelled or ran out of attempts; and every task linked to a ticket that is
  done or failed is in a terminal state.
\<close>

theorem reaper_recovers:
  assumes "wq_reachable c s" and "keys_distinct t_id (tasks s)"
    and "reap_expired (Some now) s = (res, s')" and "t \<in> set (work_queue s')"
  shows "\<not> lease_expired now t \<and> \<not> stranded s' t \<and> \<not> desynced s' t"
proof -
  have keys: "queue_keys s" using reachable_inv [OF assms(1)] by (simp add: wq_inv_def)
  let ?again = "\<lambda>t. lease_expired now t \<and> attempts t < max_attempts t"
    and ?spent = "\<lambda>t. lease_expired now t \<and> attempts t \<ge> max_attempts t"
  let ?a1 = "\<lambda>t :: ticket. ticket_audit (ticket_id t) (task_id t) TkClaimed TkOpen ''applied'' ''reaper'' ''lease_expired''"
    and ?a2 = "\<lambda>t :: ticket. ticket_audit (ticket_id t) (task_id t) TkClaimed TkParked ''applied'' ''reaper''
      ''max_attempts_exhausted''"
    and ?k = "\<lambda>(t :: ticket) s. snd (cascade_failure (ticket_id t) now (mirror_if (task_id t) FAILED s))"
  define s2 where "s2 = fold ?a1 (filter ?again (work_queue s)) (upd_tk ?again (reap_requeue_row now) s)"
  define parked where "parked = filter ?spent (work_queue s2)"
  define s4 where "s4 = fold ?a2 parked (upd_tk ?spent (reap_park_row now) s2)"
  define s5 where "s5 = fold ?k parked s4"
  define s6 where "s6 = fold (\<lambda>p s. snd (cascade_failure (ticket_id p) now s))
    (filter (stranded s5) (work_queue s5)) s5"
  define s7 where "s7 = fold (\<lambda>t s. mirror_task_state (the (task_id t))
     (if status t = TkDone then COMPLETE else FAILED) s) (filter (desynced s6) (work_queue s6)) s6"
  have s': "s' = s7"
    using assms(3) unfolding reap_expired_def Let_def now_of_def s7_def s6_def s5_def s4_def parked_def s2_def
    by simp
  have f1: "work_queue (fold ?a1 xs x) = work_queue x \<and> tasks (fold ?a1 xs x) = tasks x"
    and f2: "work_queue (fold ?a2 xs x) = work_queue x \<and> tasks (fold ?a2 xs x) = tasks x" for xs x
    by (induction xs arbitrary: x) simp_all
  have t4: "task_keys s4" using assms(2) by (simp add: s4_def s2_def f1 f2)
  have dk: "dedup_key (reap_park_row now t) = dedup_key t" "dedup_key (reap_requeue_row now t) = dedup_key t" for t
    by (simp_all add: reap_park_row_def reap_requeue_row_def clear_lease_def)
  have k4: "queue_keys s4"
    using keys unfolding queue_keys_def s4_def s2_def f1 [THEN conjunct1] f2 [THEN conjunct1] frame_upd_tk
    by (simp add: map_key_upd_where dk)
  have n4: "none_expired now s4"
    unfolding none_expired_def s4_def s2_def f1 [THEN conjunct1] f2 [THEN conjunct1] frame_upd_tk
    by (auto simp: set_upd_where lease_expired_def reap_park_row_def reap_requeue_row_def clear_lease_def
        split: if_splits)
  have k_step: "queue_keys (?k t x) \<and> none_expired now (?k t x) \<and> task_keys (?k t x)"
    if "queue_keys x" "none_expired now x" "task_keys x" for t x
  proof -
    obtain cas y where y: "cascade_failure (ticket_id t) now (mirror_if (task_id t) FAILED x) = (cas, y)"
      by (metis surj_pair)
    have "queue_keys (mirror_if (task_id t) FAILED x)" "none_expired now (mirror_if (task_id t) FAILED x)"
      using that by (simp_all add: queue_keys_def none_expired_def)
    moreover have "task_keys (snd (cascade_failure (ticket_id t) now (mirror_if (task_id t) FAILED x)))"
      unfolding cascade_failure_def by (rule cascade_loop_task_keys) (simp add: that mirror_task_keys)
    ultimately show ?thesis using cascade_failure_closed(1,6) [OF _ y] y by simp
  qed
  have "queue_keys (fold ?k ts x) \<and> none_expired now (fold ?k ts x) \<and> task_keys (fold ?k ts x)"
    if "queue_keys x" "none_expired now x" "task_keys x" for ts x
    using that k_step by (induction ts arbitrary: x) auto
  then have k5: "queue_keys s5" "none_expired now s5" "task_keys s5"
    using k4 n4 t4 by (simp_all add: s5_def)
  have s6': "s6 = fold (\<lambda>i s. snd (cascade_failure i now s))
      (map ticket_id (filter (stranded s5) (work_queue s5))) s5" by (simp add: s6_def fold_map o_def)
  have k6: "none_expired now s6" "\<forall>p \<in> set (work_queue s6). \<not> stranded s6 p"
    unfolding s6' using cascades_heal [OF k5(1) _ k5(2)] by auto
  have t6: "task_keys s6" unfolding s6'
    by (rule fold_task_keys)
      (simp_all add: k5 cascade_failure_def cascade_loop_task_keys del: cascade_loop.simps)
  have fr: "work_queue (fold (\<lambda>t s. mirror_task_state (the (task_id t))
     (if status t = TkDone then COMPLETE else FAILED) s) ts x) = work_queue x
    \<and> work_queue_deps (fold (\<lambda>t s. mirror_task_state (the (task_id t))
     (if status t = TkDone then COMPLETE else FAILED) s) ts x) = work_queue_deps x" for ts x
    by (induction ts arbitrary: x) simp_all
  have wq: "work_queue s7 = work_queue s6" "work_queue_deps s7 = work_queue_deps s6"
    unfolding s7_def using fr by blast+
  have "\<forall>t \<in> set (work_queue s6). \<not> desynced s7 t"
    unfolding s7_def by (rule mirrors_resync [OF t6]) (auto simp: desynced_iff [OF t6])
  moreover have "stranded s7 p \<longleftrightarrow> stranded s6 p" for p by (simp add: stranded_def wq)
  ultimately show ?thesis using assms(4) k6 unfolding s' wq none_expired_def by blast
qed

section \<open>Artifacts read back\<close>

lemma py_slice_forward: "0 \<le> off \<Longrightarrow> 0 \<le> m \<Longrightarrow> py_slice xs off (off + m) = take (nat m) (drop (nat off) xs)"
proof -
  assume off: "0 \<le> off" and m: "0 \<le> m"
  show ?thesis
  proof (cases "nat off \<le> length xs")
    case True
    have "nat (min (off + m) (int (length xs)) - off) = min (nat m) (length xs - nat off)"
      using True off m by auto
    then show ?thesis using True off m by (simp add: py_slice_def py_idx_def Let_def min_def)
  next
    case False
    then have "int (length xs) < off" by auto
    then show ?thesis using off m by (simp add: py_slice_def py_idx_def Let_def min_def)
  qed
qed

lemma read_full_from_content:
  assumes "row_of a_id aid (artifacts s) = Some a" and "a_size a = int (length (a_content a))"
  shows "n \<le> length (a_content a) \<Longrightarrow>
    read_full_from s aid (int n) parts = Some (parts @ drop n (a_content a))"
proof (induction "length (a_content a) - n" arbitrary: n parts rule: less_induct)
  case less
  let ?c = "a_content a"
  let ?chunk = "take 65536 (drop n ?c)"
  have ch: "read_artifact_chunk s aid (int n) 65536 = Some \<lparr>ch_artifact_id = aid, ch_offset = int n,
      ch_max_chars = 65536, ch_content = ?chunk, ch_total_size = int (length ?c),
      ch_next_offset = (if int n + int (length ?chunk) < int (length ?c)
        then Some (int n + int (length ?chunk)) else None)\<rparr>"
    using assms py_slice_forward [of "int n" 65536 ?c] less(2)
    by (auto simp: read_artifact_chunk_def Let_def min_def)
  show ?case
  proof (cases "n + length ?chunk < length ?c")
    case True
    then have l: "length ?chunk = 65536" by (auto simp: min_def split: if_splits)
    have "read_full_from s aid (int (n + 65536)) (parts @ ?chunk)
        = Some ((parts @ ?chunk) @ drop (n + 65536) ?c)"
      by (rule less(1)) (use True l in auto)
    moreover have "?chunk @ drop (n + 65536) ?c = drop n ?c"
      by (metis add.commute append_take_drop_id drop_drop)
    ultimately show ?thesis using True l ch
      by (subst read_full_from.simps) (simp add: l)
  next
    case False
    then have "?chunk = drop n ?c" by (auto simp: min_def split: if_splits)
    then show ?thesis using False ch by (subst read_full_from.simps) simp
  qed
qed

lemma read_artifact_full_content:
  "row_of a_id aid (artifacts s) = Some a \<Longrightarrow> artifacts_ok s \<Longrightarrow> read_artifact_full s aid = Some (a_content a)"
  using read_full_from_content [of aid s a 0 "[]"]
  by (auto simp: read_artifact_full_def artifacts_ok_def dest: row_of_SomeD)

lemma read_artifact_full_missing:
  "row_of a_id aid (artifacts s) = None \<Longrightarrow> read_artifact_full s aid = Some []"
  by (subst read_artifact_full_def, subst read_full_from.simps) (simp add: read_artifact_chunk_def)

lemma read_artifact_full_returns: "artifacts_ok s \<Longrightarrow> \<exists>txt. read_artifact_full s aid = Some txt"
  using read_artifact_full_content read_artifact_full_missing
  by (cases "row_of a_id aid (artifacts s)") auto

text \<open>
  C31. The payload comes back whole. In every reachable store the chunked reader terminates on
  every artifact, and a payload of any length stored with \<open>put_artifact\<close> is what the holder of
  the live lease of a ticket that refers to it receives from \<open>payload_for\<close>, while a caller
  without that lease, or of a tier the class does not admit, receives an error.
\<close>

theorem payload_roundtrip:
  assumes "wq_reachable c s" and "raw s tid = Some t" and "status t = TkClaimed"
    and "payload_ref t = Some ref" and "ref \<noteq> []"
    and "row_of a_id ref (artifacts s) = Some a"
  shows "payload_for c identity tid token tier (Some now) s =
      (if \<not> lease_live identity token now t then Err Lease_lost
       else if tier \<noteq> None \<and> \<not> admits (routing c) tier (privacy_class t) then Err Not_authorized
       else Ok (tid, a_content a, ref))
    \<and> (case put_artifact task kind content mime s of
         (Inr i, s') \<Rightarrow> read_artifact_full s' i = Some content \<and> read_artifact_full s' ref = Some (a_content a)
       | (Inl e, s') \<Rightarrow> e = IntegrityError \<and> artifacts s' = artifacts s)"
proof
  have aok: "artifacts_ok s" using reachable_inv [OF assms(1)] by (simp add: wq_inv_def)
  then have "read_artifact_full s ref = Some (a_content a)"
    using assms(6) by (rule read_artifact_full_content [rotated])
  then show "payload_for c identity tid token tier (Some now) s =
      (if \<not> lease_live identity token now t then Err Lease_lost
       else if tier \<noteq> None \<and> \<not> admits (routing c) tier (privacy_class t) then Err Not_authorized
       else Ok (tid, a_content a, ref))"
    using assms(2-5) by (auto simp: payload_for_def Let_def now_of_def may_claim_def truthy_def)
  define i where "i = ''artifact_'' @ take 12 (uuids s (uuid_ctr s))"
  let ?new = "\<lparr>a_id = i, a_task_id = task, a_kind = kind, a_mime = mime,
           a_size = int (length content), a_content = content, a_created = clock s\<rparr>"
  have put: "put_artifact task kind content mime s =
      (if i \<in> a_id ` set (artifacts s) then (Inl IntegrityError, s\<lparr>uuid_ctr := Suc (uuid_ctr s)\<rparr>)
       else (Inr i, s\<lparr>uuid_ctr := Suc (uuid_ctr s), artifacts := artifacts s @ [?new]\<rparr>))"
    by (simp add: put_artifact_def new_id_def draw_def i_def)
  have "read_artifact_full (s\<lparr>uuid_ctr := n, artifacts := artifacts s @ [?new]\<rparr>) k = Some (a_content b)"
    if "row_of a_id k (artifacts s @ [?new]) = Some b" for k b n
    using that aok by (intro read_artifact_full_content) (auto simp: artifacts_ok_def)
  moreover have "row_of a_id i (artifacts s @ [?new]) = Some ?new" if "i \<notin> a_id ` set (artifacts s)"
    using that by (simp add: row_of_None_iff [symmetric])
  moreover have "row_of a_id ref (artifacts s @ [?new]) = Some a" using assms(6) by simp
  ultimately show "case put_artifact task kind content mime s of
         (Inr i, s') \<Rightarrow> read_artifact_full s' i = Some content \<and> read_artifact_full s' ref = Some (a_content a)
       | (Inl e, s') \<Rightarrow> e = IntegrityError \<and> artifacts s' = artifacts s"
    unfolding put by simp
qed

section \<open>Methods never fail internally\<close>

lemma review_evaluate_ok:
  assumes "artifacts_ok s" and "lease_holder t \<noteq> None"
  shows "\<exists>s'. review_evaluate c t st s = (Ok (), s') \<and> length (evaluations s') = Suc (length (evaluations s))
    \<and> e_provider (last (evaluations s')) = the (lease_holder t)"
proof -
  obtain body where "read_artifact_full s (the (result_ref t)) = Some body"
    using read_artifact_full_returns [OF assms(1)] by blast
  then have "result_usage c s (result_ref t) \<noteq> None"
    by (simp add: result_usage_def split: option.split)
  then obtain us where "result_usage c s (result_ref t) = Some us" by blast
  then show ?thesis using assms(2)
    by (auto simp: review_evaluate_def record_evaluation_def report_evaluation_def)
qed

lemma cascade_child_evaluations:
  "cascade_child parent now child (stack, seen, cas, s) = (stack', seen', cas', s') \<Longrightarrow> evaluations s' = evaluations s"
  by (cases rule: cascade_child_cases [of child seen parent now stack cas s]) (auto simp: cascade_hit_def)

lemma cascade_fold_evaluations:
  "fold (cascade_child parent now) cs (stack, seen, cas, s) = (stack', seen', cas', s') \<Longrightarrow> evaluations s' = evaluations s"
proof (induction cs arbitrary: stack seen cas s)
  case (Cons ch cs)
  obtain st1 sn1 cas1 s1 where 1: "cascade_child parent now ch (stack, seen, cas, s) = (st1, sn1, cas1, s1)"
    by (metis prod_cases4)
  then have "fold (cascade_child parent now) cs (st1, sn1, cas1, s1) = (stack', seen', cas', s')"
    using Cons.prems by simp
  with cascade_child_evaluations [OF 1] Cons.IH show ?case by metis
qed simp

lemma cascade_failure_evaluations [simp]: "evaluations (snd (cascade_failure p now s)) = evaluations s"
proof -
  have "evaluations (snd (cascade_loop now stack seen cas s)) = evaluations s" for stack seen cas
  proof (induction now stack seen cas s rule: cascade_loop.induct)
    case (2 now parent stack seen cas s)
    obtain st1 sn1 cas1 s1 where f: "fold (cascade_child parent now) (children_of s parent)
        (stack, seen, cas, s) = (st1, sn1, cas1, s1)" by (metis prod_cases4)
    from "2.IH" [OF f [symmetric] refl refl] cascade_fold_evaluations [OF f] f show ?case by simp
  qed simp
  then show ?thesis by (simp add: cascade_failure_def del: cascade_loop.simps)
qed

lemma cascade_keeps_terminal:
  assumes "queue_keys s" and "raw s tid = Some t" and "status t = TkFailed"
  shows "raw (snd (cascade_failure tid now s)) tid = Some t"
  using evolves_row [OF cascade_failure_refines(1) [OF assms(1) raw_not_done [OF assms(1,2)]] assms(2)] assms(3)
  by (auto simp: tk_terminal_def)

text \<open>
  The review verbs are total: in every reachable store \<open>approve\<close> and \<open>reject\<close> by a \<open>local_only\<close>
  reviewer neither raise nor hang. On a ticket in review, \<open>approve\<close> makes it done, and \<open>reject\<close>
  reopens it without a lease while attempts remain and fails it otherwise; each credits exactly
  one evaluation to the worker that held the lease. On any other ticket they answer an error.
\<close>

theorem review_verbs_total:
  assumes "wq_reachable c s" and "raw s tid = Some t"
  shows "(case approve c alone rv (Some ''local_only'') tid now s of (res, s') \<Rightarrow>
      if status t = TkInReview
      then res = Ok (TkDone, ''approved'') \<and> length (evaluations s') = Suc (length (evaluations s))
           \<and> Some (e_provider (last (evaluations s'))) = lease_holder t
           \<and> (\<exists>t'. raw s' tid = Some t' \<and> status t' = TkDone \<and> result_status t' = Some ''approved'')
      else res = Err Not_in_review \<and> s' = s)
    \<and> (case reject c alone rv (Some ''local_only'') tid reason now s of (res, s') \<Rightarrow>
      if status t = TkInReview
      then Some (e_provider (evaluations s' ! length (evaluations s))) = lease_holder t
           \<and> (\<exists>t'. raw s' tid = Some t' \<and> lease_token t' = None \<and> result_status t' = Some ''rejected''
                \<and> (if attempts t < max_attempts t
                   then res = Ok (TkOpen, ''rejected'') \<and> status t' = TkOpen
                   else res = Ok (TkFailed, ''rejected'') \<and> status t' = TkFailed))
      else res = Err Not_in_review)"
proof -
  have inv: "wq_inv (routing c) s" using reachable_inv [OF assms(1)] by blast
  then have k: "queue_keys s" and a: "artifacts_ok s" by (simp_all add: wq_inv_def)
  have tid: "ticket_id t = tid" using assms(2) by (rule raw_ticket_id)
  let ?n = "now_of now s"
  have one: "rowcount (review_guard tid) (work_queue s) = 1" and hold: "lease_holder t \<noteq> None"
    if "status t = TkInReview"
  proof -
    show "rowcount (review_guard tid) (work_queue s) = 1"
      using k assms(2) that rowcount_key_1 [of ticket_id "work_queue s" tid "\<lambda>t. status t = TkInReview"]
      by (simp add: queue_keys_def review_guard_def [abs_def] raw_def)
    show "lease_holder t \<noteq> None"
      using wq_inv_row [OF inv assms(2)] that by (simp add: tk_wf_def lease_ok_def)
  qed
  have raw': "raw x tid = Some (f t)"
    if "work_queue x = upd_where (review_guard tid) f (work_queue s)" "\<And>u. ticket_id (f u) = ticket_id u"
      "status t = TkInReview" for x f
    using that assms(2) tid by (simp add: raw_def row_of_upd_where review_guard_def)
  show ?thesis
  proof (cases "status t = TkInReview")
    case False
    then show ?thesis using assms(2)
      by (simp add: approve_def reject_def Let_def TRUSTED_TIER_def)
  next
    case True
    define s3 where "s3 = ticket_audit tid (task_id t) TkInReview TkDone ''applied'' rv []
      (upd_tk (review_guard tid) (approve_row (provenance t @ [PReview rv ''approved'' None ?n]) ?n) s)"
    have "artifacts_ok s3" using a by (simp add: s3_def artifacts_ok_def)
    then obtain s4 where s4: "review_evaluate c t ''completed'' s3 = (Ok (), s4)"
        "length (evaluations s4) = Suc (length (evaluations s3))"
        "e_provider (last (evaluations s4)) = the (lease_holder t)"
      using review_evaluate_ok hold [OF True] by blast
    have "approve c alone rv (Some ''local_only'') tid now s
        = (Ok (TkDone, ''approved''), mirror_if (task_id t) COMPLETE s4)"
      using True assms(2) one [OF True] s4(1)
      by (simp add: approve_def Let_def TRUSTED_TIER_def alone_def s3_def)
    moreover have "raw (mirror_if (task_id t) COMPLETE s4) tid
        = Some (approve_row (provenance t @ [PReview rv ''approved'' None ?n]) ?n t)"
      by (rule raw') (simp_all add: review_evaluate_queue [OF s4(1)] s3_def True)
    ultimately have A: "case approve c alone rv (Some ''local_only'') tid now s of (res, s') \<Rightarrow>
        res = Ok (TkDone, ''approved'') \<and> length (evaluations s') = Suc (length (evaluations s))
           \<and> Some (e_provider (last (evaluations s'))) = lease_holder t
           \<and> (\<exists>t'. raw s' tid = Some t' \<and> status t' = TkDone \<and> result_status t' = Some ''approved'')"
      using s4 hold [OF True] by (auto simp: s3_def approve_row_def)
    let ?q = "attempts t < max_attempts t"
    let ?f = "reject_row ?q (provenance t @ [PReview rv ''rejected'' (Some reason) ?n]) ?n"
    define s5 where "s5 = ticket_audit tid (task_id t) TkInReview (if ?q then TkOpen else TkFailed)
      ''applied'' rv reason (upd_tk (review_guard tid) ?f s)"
    have "artifacts_ok s5" using a by (simp add: s5_def artifacts_ok_def)
    then obtain s6 where s6: "review_evaluate c t ''failed'' s5 = (Ok (), s6)"
        "length (evaluations s6) = Suc (length (evaluations s5))"
        "e_provider (last (evaluations s6)) = the (lease_holder t)"
      using review_evaluate_ok hold [OF True] by blast
    have ev6: "Some (e_provider (evaluations s6 ! length (evaluations s))) = lease_holder t"
      using s6(2,3) hold [OF True] by (cases "evaluations s6" rule: rev_cases) (auto simp: s5_def nth_append)
    let ?m = "mirror_if (task_id t) FAILED s6"
    have rj: "reject c alone rv (Some ''local_only'') tid reason now s =
       (if ?q then (Ok (TkOpen, ''rejected''), s6)
        else (Ok (TkFailed, ''rejected''), snd (cascade_failure tid ?n ?m)))"
      using True assms(2) one [OF True] s6(1)
      by (simp add: reject_def Let_def TRUSTED_TIER_def alone_def s5_def)
    have r6: "raw s6 tid = Some (?f t)" "raw ?m tid = Some (?f t)"
      by (rule raw'; simp add: review_evaluate_queue [OF s6(1)] s5_def True)+
    have km: "queue_keys ?m"
    proof -
      have "queue_keys s5"
        using k by (simp add: queue_keys_def s5_def map_key_upd_where reject_row_def clear_lease_def)
      then show ?thesis by (simp add: queue_keys_def review_evaluate_queue [OF s6(1)])
    qed
    have "raw (snd (cascade_failure tid ?n ?m)) tid = Some (?f t)" if "\<not> ?q"
      by (rule cascade_keeps_terminal [OF km r6(2)]) (use that in \<open>simp add: reject_row_def clear_lease_def\<close>)
    then have B: "case reject c alone rv (Some ''local_only'') tid reason now s of (res, s') \<Rightarrow>
        Some (e_provider (evaluations s' ! length (evaluations s))) = lease_holder t
           \<and> (\<exists>t'. raw s' tid = Some t' \<and> lease_token t' = None \<and> result_status t' = Some ''rejected''
                \<and> (if ?q then res = Ok (TkOpen, ''rejected'') \<and> status t' = TkOpen
                   else res = Ok (TkFailed, ''rejected'') \<and> status t' = TkFailed))"
      unfolding rj using r6(1) ev6 by (auto simp: reject_row_def clear_lease_def)
    show ?thesis using A B True by (simp only: if_True simp_thms)
  qed
qed

end
