(* ===== verification/Queue_Methods.thy ===== *)
theory Queue_Methods
  imports Queue_Theorems
begin

text \<open>
  The functional behaviour of single queue methods: which tickets \<open>claim_next\<close> hands out and that
  it misses none, idempotent \<open>add\<close>, the outcome table of \<open>report\<close>, and the cycle guard of \<open>link\<close>.
\<close>

section \<open>Claiming in one process\<close>

definition claimable :: "string list \<Rightarrow> string list \<Rightarrow> db \<Rightarrow> ticket \<Rightarrow> bool" where
  "claimable admissible caps s t \<longleftrightarrow>
    status t = TkOpen \<and> privacy_class t \<in> set admissible \<and> set (required_capabilities t) \<subseteq> set caps
    \<and> \<not> is_blocked s (ticket_id t) \<and> \<not> task_cancelled s (task_id t)"

abbreviation same_queue :: "db \<Rightarrow> db \<Rightarrow> bool" where
  "same_queue x s \<equiv> work_queue x = work_queue s \<and> work_queue_deps x = work_queue_deps s \<and> tasks x = tasks s"

definition took :: "string \<Rightarrow> string option \<Rightarrow> ticket \<Rightarrow> claim_row \<Rightarrow> db \<Rightarrow> db \<Rightarrow> bool" where
  "took identity tier t got s x \<longleftrightarrow> cl_ticket_id got = ticket_id t
    \<and> work_queue_deps x = work_queue_deps s \<and> tasks x = tasks s
    \<and> (\<exists>e n. work_queue x = upd_where (\<lambda>u. ticket_id u = ticket_id t)
        (claim_row_upd identity tier (cl_lease_token got) e n (provenance t)) (work_queue s))
    \<and> cl_payload_ref got = payload_ref t \<and> cl_privacy_class got = privacy_class t"

lemma is_blocked_cong:
  "work_queue x = work_queue s \<Longrightarrow> work_queue_deps x = work_queue_deps s \<Longrightarrow> is_blocked x = is_blocked s"
  by (simp add: is_blocked_def parent_done_def fun_eq_iff)

lemma task_cancelled_cong: "tasks x = tasks s \<Longrightarrow> task_cancelled x = task_cancelled s"
  by (simp add: task_cancelled_def fun_eq_iff split: option.split)

lemma try_claim_alone:
  assumes k: "queue_keys s" and t: "t \<in> set (work_queue s)"
  shows "(\<exists>x. try_claim c alone (ticket_id t) identity tier admissible (provenance t) secs now s
        = (Inr None, x) \<and> same_queue x s \<and> \<not> claim_guard (ticket_id t) admissible s t)
    \<or> (\<exists>got x. try_claim c alone (ticket_id t) identity tier admissible (provenance t) secs now s
        = (Inr (Some got), x) \<and> took identity tier t got s x \<and> claim_guard (ticket_id t) admissible s t)"
proof -
  define s0 where "s0 = s\<lparr>uuid_ctr := Suc (uuid_ctr s)\<rparr>"
  define token where "token = uuids s (uuid_ctr s)"
  let ?g = "claim_guard (ticket_id t) admissible s0"
  have bl: "is_blocked s0 = is_blocked s" by (rule is_blocked_cong) (simp_all add: s0_def)
  have tc: "task_cancelled s0 = task_cancelled s" by (rule task_cancelled_cong) (simp add: s0_def)
  have g0: "?g = claim_guard (ticket_id t) admissible s"
    by (simp add: claim_guard_def fun_eq_iff bl tc)
  have d: "draw s = (token, s0)" by (simp add: draw_def token_def s0_def)
  have wq: "work_queue s0 = work_queue s" "work_queue_deps s0 = work_queue_deps s" "tasks s0 = tasks s"
    by (simp_all add: s0_def)
  have raw0: "raw s (ticket_id t) = Some t" using raw_iff [OF k] t by simp
  have only: "?g u \<longleftrightarrow> ticket_id u = ticket_id t \<and> ?g t" if "u \<in> set (work_queue s)" for u
    using that raw_iff [OF k, of "ticket_id t" u] raw0 by (auto simp: claim_guard_def)
  show ?thesis
  proof (cases "?g t")
    case False
    then have "filter ?g (work_queue s0) = []" using only by (simp add: filter_empty_conv wq)
    then have "try_claim c alone (ticket_id t) identity tier admissible (provenance t) secs now s = (Inr None, s0)"
      by (simp add: try_claim_def d Let_def alone_def rowcount_def)
    then show ?thesis using False g0 wq by auto
  next
    case True
    have "rowcount ?g (work_queue s0) = rowcount (\<lambda>u. ticket_id u = ticket_id t \<and> True) (work_queue s)"
      unfolding rowcount_def wq using only True by (metis (mono_tags, lifting) filter_cong)
    also have "\<dots> = 1"
      using k raw0 rowcount_key_1 [of ticket_id "work_queue s" "ticket_id t" "\<lambda>_. True"]
      by (simp add: queue_keys_def raw_def)
    finally have one: "rowcount ?g (work_queue s0) = 1" .
    define expires where "expires = now + of_int (case secs of None \<Rightarrow> default_lease_seconds c | Some n \<Rightarrow> n)"
    let ?f = "claim_row_upd identity tier token expires now (provenance t)"
    define s2 where "s2 = upd_tk ?g ?f s0"
    define s3 where "s3 = ticket_audit (ticket_id t) (Option.bind (raw s2 (ticket_id t)) task_id)
      TkOpen TkClaimed ''applied'' identity [] s2"
    have w3: "work_queue s3 = upd_where (\<lambda>u. ticket_id u = ticket_id t) ?f (work_queue s)"
      using only True by (auto simp: s3_def s2_def wq upd_where_def)
    have r3: "raw s3 (ticket_id t) = Some (?f t)"
      using raw0 by (simp add: raw_def w3 row_of_upd_where)
    have "try_claim c alone (ticket_id t) identity tier admissible (provenance t) secs now s =
        (Inr (Some \<lparr>cl_ticket_id = ticket_id t, cl_payload_ref = payload_ref (?f t),
           cl_privacy_class = privacy_class (?f t), cl_lease_token = token,
           cl_lease_expires_at = expires, cl_attempts = attempts (?f t), cl_status = status (?f t)\<rparr>), s3)"
      using one r3 unfolding try_claim_def Let_def d alone_def s3_def s2_def expires_def by simp
    moreover have "took identity tier t \<lparr>cl_ticket_id = ticket_id t, cl_payload_ref = payload_ref (?f t),
           cl_privacy_class = privacy_class (?f t), cl_lease_token = token,
           cl_lease_expires_at = expires, cl_attempts = attempts (?f t), cl_status = status (?f t)\<rparr> s s3"
      unfolding took_def using w3 by (auto simp: s3_def s2_def wq claim_row_upd_def)
    ultimately show ?thesis using True g0 by (intro disjI2 exI conjI) (assumption | simp)+
  qed
qed

lemma claim_first_alone:
  assumes "queue_keys s" and "set rows \<subseteq> set (work_queue s)"
    and "claim_first c alone identity tier admissible caps secs now rows s = (out, x)"
  shows "out = Inr None \<and> same_queue x s \<and> (\<forall>t \<in> set rows. \<not> claimable admissible caps s t)
    \<or> (\<exists>t got. out = Inr (Some got) \<and> t \<in> set rows \<and> claimable admissible caps s t
         \<and> took identity tier t got s x)"
  using assms
proof (induction rows arbitrary: s)
  case (Cons t rows)
  have sub: "set rows \<subseteq> set (work_queue s)" using Cons.prems(2) by simp
  show ?case
  proof (cases "set (required_capabilities t) \<subseteq> set caps")
    case False
    then show ?thesis using Cons.IH [OF Cons.prems(1) sub] Cons.prems(3) by (auto simp: claimable_def)
  next
    case True
    have t: "t \<in> set (work_queue s)" using Cons.prems(2) by simp
    from try_claim_alone [OF Cons.prems(1) t, of c identity tier admissible secs now] show ?thesis
    proof (elim disjE exE conjE)
      fix y
      assume y: "try_claim c alone (ticket_id t) identity tier admissible (provenance t) secs now s = (Inr None, y)"
        and q: "work_queue y = work_queue s" "work_queue_deps y = work_queue_deps s" "tasks y = tasks s"
        and ng: "\<not> claim_guard (ticket_id t) admissible s t"
      have "claim_first c alone identity tier admissible caps secs now rows y = (out, x)"
        using Cons.prems(3) y True by simp
      moreover have "queue_keys y" using Cons.prems(1) q by (simp add: queue_keys_def)
      moreover have cl: "claimable admissible caps y = claimable admissible caps s"
        by (simp add: claimable_def fun_eq_iff is_blocked_cong [OF q(1,2)] task_cancelled_cong [OF q(3)])
      moreover have "took identity tier u got y x = took identity tier u got s x" for u got
        by (simp add: took_def q)
      ultimately show ?thesis using Cons.IH [of y] sub q ng by (auto simp: claimable_def claim_guard_def)
    next
      fix got y
      assume y: "try_claim c alone (ticket_id t) identity tier admissible (provenance t) secs now s = (Inr (Some got), y)"
        and "took identity tier t got s y" "claim_guard (ticket_id t) admissible s t"
      then show ?thesis using Cons.prems(3) True by (auto simp: claimable_def claim_guard_def)
    qed
  qed
qed simp

lemma took_facts:
  assumes "took identity tier t got s x" and "queue_keys s" and "t \<in> set (work_queue s)"
    and "status t = TkOpen"
  shows "queue_keys x" "is_blocked x = is_blocked s" "task_cancelled x = task_cancelled s"
    "k \<noteq> ticket_id t \<Longrightarrow> raw x k = raw s k"
    "\<exists>t'. raw x (ticket_id t) = Some t' \<and> holds_lease (cl_lease_token got) t'
      \<and> lease_holder t' = Some identity \<and> lease_tier t' = tier \<and> attempts t' = attempts t + 1
      \<and> same_identity t t'"
proof -
  obtain e n where w: "work_queue x = upd_where (\<lambda>u. ticket_id u = ticket_id t)
        (claim_row_upd identity tier (cl_lease_token got) e n (provenance t)) (work_queue s)"
    and d: "work_queue_deps x = work_queue_deps s" "tasks x = tasks s"
    using assms(1) by (auto simp: took_def)
  let ?f = "claim_row_upd identity tier (cl_lease_token got) e n (provenance t)"
  show k': "queue_keys x"
    using assms(2) by (simp add: queue_keys_def w map_key_upd_where claim_row_upd_def)
  have raw_x: "raw x k = map_option (\<lambda>u. if ticket_id u = ticket_id t then ?f u else u) (raw s k)" for k
    by (simp add: raw_def w row_of_upd_where)
  have raw_t: "raw s (ticket_id t) = Some t" using raw_iff [OF assms(2)] assms(3) by simp
  have other: "k \<noteq> ticket_id t \<Longrightarrow> raw x k = raw s k" for k
    by (cases "raw s k") (auto simp: raw_x dest: raw_ticket_id)
  have "parent_done x p = parent_done s p" for p
  proof (cases "p = ticket_id t")
    case True
    then show ?thesis
      unfolding parent_done_raw [OF k'] parent_done_raw [OF assms(2)]
      using raw_t assms(4) by (simp add: raw_x claim_row_upd_def)
  next
    case False
    then show ?thesis using other parent_done_raw [OF k'] parent_done_raw [OF assms(2)] by simp
  qed
  then show "is_blocked x = is_blocked s" by (simp add: is_blocked_def fun_eq_iff d)
  show "task_cancelled x = task_cancelled s" using d(2) by (rule task_cancelled_cong)
  show "k \<noteq> ticket_id t \<Longrightarrow> raw x k = raw s k" by (rule other)
  show "\<exists>t'. raw x (ticket_id t) = Some t' \<and> holds_lease (cl_lease_token got) t'
      \<and> lease_holder t' = Some identity \<and> lease_tier t' = tier \<and> attempts t' = attempts t + 1
      \<and> same_identity t t'"
    using raw_t by (simp add: raw_x holds_lease_def claim_row_upd_def same_identity_def)
qed

definition claimed_right :: "string \<Rightarrow> string option \<Rightarrow> string list \<Rightarrow> string list \<Rightarrow> db \<Rightarrow> db \<Rightarrow> claim_row \<Rightarrow> bool" where
  "claimed_right identity tier admissible caps s x got \<longleftrightarrow>
    (\<exists>t t'. raw s (cl_ticket_id got) = Some t \<and> claimable admissible caps s t
      \<and> cl_payload_ref got = payload_ref t \<and> cl_privacy_class got = privacy_class t
      \<and> raw x (cl_ticket_id got) = Some t' \<and> holds_lease (cl_lease_token got) t'
      \<and> lease_holder t' = Some identity \<and> lease_tier t' = tier \<and> attempts t' = attempts t + 1
      \<and> same_identity t t')"

definition claim_progress :: "string \<Rightarrow> string option \<Rightarrow> string list \<Rightarrow> string list \<Rightarrow> db \<Rightarrow> claim_row list \<Rightarrow> db \<Rightarrow> bool" where
  "claim_progress identity tier admissible caps s got x \<longleftrightarrow>
    queue_keys x \<and> is_blocked x = is_blocked s \<and> task_cancelled x = task_cancelled s
    \<and> distinct (map cl_ticket_id got)
    \<and> (\<forall>k. k \<notin> cl_ticket_id ` set got \<longrightarrow> raw x k = raw s k)
    \<and> (\<forall>g \<in> set got. claimed_right identity tier admissible caps s x g)"

lemma claim_progress_step:
  assumes p: "claim_progress identity tier admissible caps s got x"
    and t: "t \<in> set (work_queue x)" "claimable admissible caps x t" and g: "took identity tier t g x y"
  shows "claim_progress identity tier admissible caps s (got @ [g]) y"
proof -
  have kx: "queue_keys x" and st: "status t = TkOpen" using p t by (simp_all add: claim_progress_def claimable_def)
  note f = took_facts [OF g kx t(1) st]
  have id: "cl_ticket_id g = ticket_id t" using g by (simp add: took_def)
  have rx: "raw x (ticket_id t) = Some t" using raw_iff [OF kx] t(1) by simp
  have new: "ticket_id t \<notin> cl_ticket_id ` set got"
  proof
    assume "ticket_id t \<in> cl_ticket_id ` set got"
    then obtain h where "h \<in> set got" "cl_ticket_id h = ticket_id t" by auto
    then have "claimed_right identity tier admissible caps s x h" using p by (simp add: claim_progress_def)
    then have "status t = TkClaimed"
      using rx \<open>cl_ticket_id h = ticket_id t\<close> by (auto simp: claimed_right_def holds_lease_def)
    with st show False by simp
  qed
  then have rs: "raw s (ticket_id t) = Some t" using p rx by (simp add: claim_progress_def)
  have cl: "claimable admissible caps s t" using t(2) p by (simp add: claimable_def claim_progress_def)
  have keep: "claimed_right identity tier admissible caps s y h" if "h \<in> set got" for h
  proof -
    have "cl_ticket_id h \<noteq> ticket_id t" using new that by (metis imageI)
    then have "raw y (cl_ticket_id h) = raw x (cl_ticket_id h)" by (rule f(4))
    moreover have "claimed_right identity tier admissible caps s x h" using p that by (simp add: claim_progress_def)
    ultimately show ?thesis by (simp add: claimed_right_def)
  qed
  have "claimed_right identity tier admissible caps s y g"
    unfolding claimed_right_def id using rs cl f(5) g by (auto simp: took_def)
  then show ?thesis
    using p f keep new id by (auto simp: claim_progress_def)
qed

lemma claim_loop_alone:
  assumes "claim_progress identity tier admissible caps s0 claimed s"
    and "claim_loop n c alone identity tier admissible caps secs now claimed s = (got, x)"
  shows "claim_progress identity tier admissible caps s0 got x \<and> length got \<le> length claimed + n
    \<and> (length got < length claimed + n \<longrightarrow> (\<forall>t \<in> set (work_queue x). \<not> claimable admissible caps x t))"
  using assms
proof (induction n arbitrary: claimed s)
  case (Suc n)
  let ?rows = "claim_candidates admissible s"
  have k: "queue_keys s" using Suc.prems(1) by (simp add: claim_progress_def)
  have rows: "t \<in> set ?rows \<longleftrightarrow> t \<in> set (work_queue s) \<and> status t = TkOpen \<and> privacy_class t \<in> set admissible" for t
    by (auto simp: claim_candidates_def)
  then have sub: "set ?rows \<subseteq> set (work_queue s)" by blast
  obtain out y where f: "claim_first c alone identity tier admissible caps secs now ?rows s = (out, y)"
    by (metis surj_pair)
  from claim_first_alone [OF k sub f] show ?case
  proof (elim disjE exE conjE)
    assume o: "out = Inr None" and q: "work_queue y = work_queue s" "work_queue_deps y = work_queue_deps s"
        "tasks y = tasks s" and none: "\<forall>t \<in> set ?rows. \<not> claimable admissible caps s t"
    have e: "got = claimed" "x = y" using Suc.prems(2) f o by auto
    have cong: "is_blocked y = is_blocked s" "task_cancelled y = task_cancelled s" "raw y = raw s"
      "queue_keys y"
      using is_blocked_cong [OF q(1,2)] task_cancelled_cong [OF q(3)] q(1) k
      by (simp_all add: raw_def fun_eq_iff queue_keys_def)
    have "claim_progress identity tier admissible caps s0 claimed y"
      using Suc.prems(1) cong by (simp add: claim_progress_def claimed_right_def)
    moreover have "\<forall>t \<in> set (work_queue y). \<not> claimable admissible caps y t"
      using none rows cong q(1) by (auto simp: claimable_def)
    ultimately show ?thesis using e by simp
  next
    fix t g
    assume o: "out = Inr (Some g)" and t: "t \<in> set ?rows" "claimable admissible caps s t"
      and g: "took identity tier t g s y"
    have "claim_progress identity tier admissible caps s0 (claimed @ [g]) y"
      using claim_progress_step [OF Suc.prems(1) _ t(2) g] t(1) sub by blast
    moreover have "claim_loop n c alone identity tier admissible caps secs now (claimed @ [g]) y = (got, x)"
      using Suc.prems(2) f o by simp
    ultimately show ?thesis using Suc.IH by fastforce
  qed
qed simp

text \<open>
  \<open>claim_next\<close> hands out the right tickets and misses none. In one broker process, whatever the
  worker asks for: at most 50 tickets come back, all different; each was open, of a class the
  attested tier is admitted to, within the worker's capabilities, with all its parents done and
  its task not cancelled, and is now leased to the caller under the returned token, for one
  attempt more; every other ticket is untouched; and when fewer tickets come back than the
  clamped request, no ticket that the worker could claim is left.
\<close>

theorem claim_next_exact:
  assumes "wq_reachable c s" and "classes_ok (routing c)"
    and "claim_next c alone identity tier caps mx secs now s = (got, s')"
  shows "int (length got) \<le> max 0 (min mx 50) \<and> distinct (map cl_ticket_id got)
    \<and> (\<forall>g \<in> set got. \<exists>t t'. raw s (cl_ticket_id g) = Some t \<and> status t = TkOpen
         \<and> admits (routing c) tier (privacy_class t) \<and> set (required_capabilities t) \<subseteq> set caps
         \<and> \<not> is_blocked s (ticket_id t) \<and> \<not> task_cancelled s (task_id t)
         \<and> cl_payload_ref g = payload_ref t
         \<and> raw s' (cl_ticket_id g) = Some t' \<and> holds_lease (cl_lease_token g) t'
         \<and> lease_holder t' = Some identity \<and> lease_tier t' = tier \<and> attempts t' = attempts t + 1
         \<and> same_identity t t')
    \<and> (\<forall>k. k \<notin> cl_ticket_id ` set got \<longrightarrow> raw s' k = raw s k)
    \<and> (int (length got) < max 0 (min mx 50) \<longrightarrow> (\<forall>t \<in> set (work_queue s').
         \<not> (status t = TkOpen \<and> admits (routing c) tier (privacy_class t)
            \<and> set (required_capabilities t) \<subseteq> set caps
            \<and> \<not> is_blocked s' (ticket_id t) \<and> \<not> task_cancelled s' (task_id t))))"
proof -
  let ?adm = "admissible_classes (routing c) tier"
  have k: "queue_keys s" using reachable_inv [OF assms(1)] by (simp add: wq_inv_def)
  have adm: "p \<in> set ?adm \<longleftrightarrow> admits (routing c) tier p" for p
    using admissible_iff_admits [OF assms(2)] by blast
  show ?thesis
  proof (cases "?adm = []")
    case True
    then have "\<not> admits (routing c) tier p" for p using adm by simp
    moreover have "got = []" "s' = s" using assms(3) True by (auto simp: claim_next_def Let_def)
    ultimately show ?thesis by simp
  next
    case False
    define n where "n = nat (if mx \<le> 50 then mx else 50)"
    have n: "int n = max 0 (min mx 50)" by (auto simp: n_def)
    have loop: "claim_loop n c alone identity tier ?adm caps secs (now_of now s) [] s = (got, s')"
      using assms(3) False unfolding claim_next_def Let_def n_def MAX_CLAIM_BATCH_def by (simp only: if_False)
    have "claim_progress identity tier ?adm caps s [] s" using k by (simp add: claim_progress_def)
    note l = claim_loop_alone [OF this loop]
    then have p: "claim_progress identity tier ?adm caps s got s'" by blast
    have "int (length got) \<le> max 0 (min mx 50)" using l n by simp
    moreover have "int (length got) < max 0 (min mx 50) \<Longrightarrow>
        \<forall>t \<in> set (work_queue s'). \<not> claimable ?adm caps s' t" using l n by simp
    ultimately show ?thesis using p
      by (auto simp: claim_progress_def claimed_right_def claimable_def adm)
  qed
qed

section \<open>Idempotent enqueueing\<close>

lemma by_dedup_iff:
  assumes "queue_keys s"
  shows "by_dedup s k = Some t \<longleftrightarrow> t \<in> set (work_queue s) \<and> dedup_key t = Some k"
proof -
  have "distinct (filter (\<lambda>k. k \<noteq> None) (map dedup_key ts)) \<Longrightarrow>
      find (\<lambda>t. dedup_key t = Some k) ts = Some t \<longleftrightarrow> t \<in> set ts \<and> dedup_key t = Some k" for ts
  proof (induction ts)
    case (Cons u ts)
    have "dedup_key u = Some k \<Longrightarrow> \<forall>x \<in> set ts. dedup_key x \<noteq> Some k"
      using Cons.prems by (auto simp: image_iff)
    then show ?case using Cons by (auto split: if_splits)
  qed simp
  then show ?thesis using assms by (simp add: by_dedup_def queue_keys_def)
qed

lemma evolves_by_dedup:
  assumes "evolves r s s'" and "queue_keys s" and "by_dedup s k = Some t"
  shows "\<exists>t'. by_dedup s' k = Some t' \<and> ticket_id t' = ticket_id t"
proof -
  have "raw s (ticket_id t) = Some t" using assms by (simp add: raw_iff by_dedup_iff)
  then obtain t' where t': "raw s' (ticket_id t) = Some t'" "same_identity t t'"
    using evolves_row [OF assms(1)] by blast
  then have "dedup_key t' = Some k" using assms by (simp add: same_identity_def by_dedup_iff)
  then show ?thesis
    using t' raw_in_queue raw_ticket_id by_dedup_iff [OF evolves_keys [OF assms(1,2)]] by metis
qed

lemma add_insert_dedup:
  assumes "ad_dedup_key a = Some k" and "add_insert c a n m ref s = (Ok row, s')" and "queue_keys s"
  shows "\<exists>t. by_dedup s' k = Some t \<and> row = mk_public_row t"
proof -
  define tid where "tid = fst (new_id ''wq'' s)"
  define s1 where "s1 = snd (new_id ''wq'' s)"
  let ?t = "new_ticket c a tid ref n"
  have ni: "new_id ''wq'' s = (tid, s1)" by (simp add: tid_def s1_def)
  show ?thesis
  proof (cases "insert_conflict s1 ?t")
    case True
    then show ?thesis using assms(1,2)
      by (auto simp: add_insert_def ni Let_def split: option.splits if_splits)
  next
    case False
    let ?s2 = "s1\<lparr>work_queue := work_queue s1 @ [?t],
        work_queue_deps := fold (insert_dep tid) (ad_depends_on a) (work_queue_deps s1)\<rparr>"
    have "raw s1 tid = None" using False
      by (auto simp: raw_def row_of_None_iff insert_conflict_def list_ex_iff new_ticket_def)
    then have "raw ?s2 tid = Some ?t" by (simp add: raw_def new_ticket_def)
    moreover have "by_dedup ?s2 k = Some ?t"
    proof -
      have "find (\<lambda>t. dedup_key t = Some k) (work_queue s1) = None"
        using False assms(1) by (auto simp: find_None_iff insert_conflict_def list_ex_iff new_ticket_def)
      moreover have "find P xs = None \<Longrightarrow> find P (xs @ [y]) = (if P y then Some y else None)"
        for P :: "ticket \<Rightarrow> bool" and xs y by (induction xs) auto
      ultimately show ?thesis using assms(1) by (simp add: by_dedup_def new_ticket_def)
    qed
    ultimately show ?thesis using assms(2) False by (auto simp: add_insert_def ni Let_def)
  qed
qed

text \<open>
  Enqueueing is idempotent on the deduplication key. When \<open>add\<close> returns a ticket for a key, even
  if another broker process wins the race for the unique index in between, that ticket is the
  one stored under the key; and however the queue evolves afterwards, a later \<open>add\<close> with the
  same key and any other arguments returns the same ticket and writes nothing, so a finished
  ticket is never reopened or duplicated.
\<close>

theorem add_idempotent:
  assumes "wq_reachable c s" and "peaceful c w" and "ad_dedup_key a = Some k"
    and "add c w a now s = (Ok row, s1)" and "(wq_next c)\<^sup>*\<^sup>* s1 s2" and "ad_dedup_key a' = Some k"
  shows "by_dedup s1 k \<noteq> None \<and> map_option mk_public_row (by_dedup s1 k) = Some row
    \<and> (\<exists>row'. add c w' a' now' s2 = (Ok row', s2) \<and> pr_ticket_id row' = pr_ticket_id row)"
proof -
  have inv: "wq_inv (routing c) s" using reachable_inv [OF assms(1)] by blast
  then have k: "queue_keys s" by (simp add: wq_inv_def)
  have s1: "s1 = exec c (OpAdd w a now) s" using assms(4) by simp
  have r1: "wq_reachable c s1" unfolding s1 using assms(1,2) by (intro wq_exec) auto
  have ev: "evolves (routing c) s1 s2" using wq_runs_evolves [OF assms(5) r1] by blast
  have k1: "queue_keys s1" using reachable_inv [OF r1] by (simp add: wq_inv_def)
  have w: "queue_keys (w_env w x)" if "evolves (routing c) s x" for x
  proof -
    have "wq_inv (routing c) x" using evolves_wq_inv [OF that inv] .
    then have "evolves (routing c) x (w_env w x)" using assms(2) by (simp add: peaceful_def)
    then show ?thesis using evolves_keys evolves_keys [OF that k] by blast
  qed
  have put: "evolves (routing c) s x" if "put_artifact tk kd p mm s = (o1, x)" for tk kd p mm o1 x
    using evolves_put_artifact that by (metis snd_conv)
  have "\<exists>t. by_dedup s1 k = Some t \<and> row = mk_public_row t"
  proof (cases "by_dedup s k")
    case (Some e)
    then show ?thesis using assms(3,4) by (auto simp: add_def Let_def)
  next
    case None
    have "\<exists>x n m ref. evolves (routing c) s x \<and> add_insert c a n m ref (w_env w x) = (Ok row, s1)"
    proof (cases "ad_payload_ref a = None \<and> ad_payload a \<noteq> None")
      case True
      then obtain p where p: "ad_payload_ref a = None" "ad_payload a = Some p" by blast
      obtain o1 x where x: "put_artifact (ad_task_id a) ''work_payload'' p ''text/plain'' s = (o1, x)"
        by (metis surj_pair)
      with p None assms(3,4) show ?thesis using put [OF x]
        by (cases o1) (auto simp: add_def Let_def split: option.splits)
    next
      case False
      then have "\<exists>n m ref. add_insert c a n m ref (w_env w s) = (Ok row, s1)"
        using None assms(3,4) by (auto simp: add_def Let_def split: option.splits)
      then show ?thesis using evolves_refl by blast
    qed
    then show ?thesis using add_insert_dedup [OF assms(3)] w by blast
  qed
  then obtain t where t: "by_dedup s1 k = Some t" "row = mk_public_row t" by blast
  obtain t' where t': "by_dedup s2 k = Some t'" "ticket_id t' = ticket_id t"
    using evolves_by_dedup [OF ev k1 t(1)] by blast
  then show ?thesis using t assms(6) by (simp add: add_def Let_def mk_public_row_def)
qed

section \<open>The cycle guard\<close>

text \<open>
  C32. The cycle guard of \<open>link\<close> is exact. The recursive query it embeds in its INSERT finds exactly
  the tickets on a dependency path, as the depth-first search \<open>_depends_transitively\<close> does (which
  terminates on every graph, cyclic ones included); an admissible new edge is inserted if and
  only if its parent does not already wait on its child, and a refused one writes nothing.
\<close>

theorem link_cycle_guard:
  assumes "raw s tid = Some child" and "raw s dep = Some parent" and "tid \<noteq> dep"
    and "status child \<notin> {TkClaimed, TkInReview}"
    and "set (allowed_tiers (routing c) (privacy_class child))
      \<subseteq> set (allowed_tiers (routing c) (privacy_class parent))"
    and "(tid, dep) \<notin> set (work_queue_deps s)"
  shows "link c alone tid dep s =
      (if depends_transitively s dep tid then (Err Dependency_cycle, s)
       else (Ok (), s\<lparr>work_queue_deps := work_queue_deps s @ [(tid, dep)]\<rparr>))
    \<and> (\<forall>x y. y \<in> set (reach (work_queue_deps s) x) \<longleftrightarrow> depends_transitively s x y)
    \<and> (\<forall>x y. depends_transitively s x y \<longleftrightarrow> (x, y) \<in> (set (work_queue_deps s))\<^sup>*)"
  using assms by (auto simp: link_def Let_def alone_def reach_iff depends_transitively_iff)

section \<open>Outcome of a report\<close>

lemma report_after_row:
  assumes "queue_keys s" and "raw s (ticket_id r) = Some t'"
    and "new_status = TkFailed \<Longrightarrow> status t' = TkFailed"
  shows "\<exists>s'. report_after r identity wr succeeded trusted new_status now s = (Inr (), s')
    \<and> raw s' (ticket_id r) = Some t' \<and> length (evaluations s') = Suc (length (evaluations s))"
proof -
  define e where "e = report_evaluation (Some identity) (task_id r)
     (if \<not> succeeded then ''failed'' else if trusted then ''completed'' else ''pending_review'')
     (Some (wr_confidence wr)) (wr_usage wr)"
  obtain s1 where s1: "record_evaluation e s = (Inr (), s1)"
    by (simp add: e_def report_evaluation_def record_evaluation_def)
  have q: "work_queue s1 = work_queue s" "length (evaluations s1) = Suc (length (evaluations s))"
    using s1 by (auto simp: record_evaluation_def split: option.splits)
  let ?m = "mirror_if (task_id r) FAILED s1"
  have "queue_keys ?m" "raw ?m (ticket_id r) = Some t'" using assms q by (simp_all add: queue_keys_def raw_def)
  then have "new_status = TkFailed \<Longrightarrow> raw (snd (cascade_failure (ticket_id r) now ?m)) (ticket_id r) = Some t'"
    using cascade_keeps_terminal assms(3) by blast
  then show ?thesis
    using assms(2) q s1 unfolding report_after_def e_def [symmetric] by (auto simp: raw_def)
qed

text \<open>
  What a report does, and does once. The holder of a live lease that reports gets exactly the
  documented transition: a failure requeues the ticket while attempts remain and fails it
  otherwise, dropping the lease; a success is accepted as done only if both the reporting tier
  and the tier of the claim are \<open>local_only\<close>, and otherwise waits in review. The row refers to the
  stored result, one evaluation is recorded, and a second report with the same token is refused.
\<close>

theorem report_outcome:
  assumes "wq_reachable c s" and "raw s tid = Some t" and "status t = TkClaimed"
    and "lease_live identity token now t"
    and "''artifact_'' @ take 12 (uuids s (uuid_ctr s)) \<notin> a_id ` set (artifacts s)"
  shows "\<exists>st rs ref t' s' e. report c alone identity tier tid token (Some wr) (Some now) s = (Ok (st, rs, ref), s')
    \<and> (st, rs) = (if wr_status wr \<noteq> ''completed''
        then (if attempts t < max_attempts t then (TkOpen, ''failed'') else (TkFailed, ''failed''))
        else if tier = Some ''local_only'' \<and> lease_tier t = Some ''local_only'' then (TkDone, ''approved'')
        else (TkInReview, ''pending''))
    \<and> raw s' tid = Some t' \<and> status t' = st \<and> result_status t' = Some rs \<and> result_ref t' = Some ref
    \<and> (lease_token t' = None \<longleftrightarrow> wr_status wr \<noteq> ''completed'')
    \<and> length (evaluations s') = Suc (length (evaluations s))
    \<and> fst (report c w identity tier tid token again now' s') = Err e"
proof -
  have inv: "wq_inv (routing c) s" using reachable_inv [OF assms(1)] by blast
  have k: "queue_keys s" using inv by (simp add: wq_inv_def)
  have tid: "ticket_id t = tid" using assms(2) by (rule raw_ticket_id)
  define ref where "ref = ''artifact_'' @ take 12 (uuids s (uuid_ctr s))"
  define s1 where "s1 = s\<lparr>uuid_ctr := Suc (uuid_ctr s), artifacts := artifacts s @
     [\<lparr>a_id = ref, a_task_id = task_id t, a_kind = ''work_result'', a_mime = ''text/plain'',
       a_size = int (length (model_dump_json c wr)), a_content = model_dump_json c wr, a_created = clock s\<rparr>]\<rparr>"
  have put: "put_artifact (task_id t) ''work_result'' (model_dump_json c wr) ''text/plain'' s = (Inr ref, s1)"
    using assms(5) by (simp add: put_artifact_def new_id_def draw_def ref_def s1_def)
  define tr where "tr = (tier = TRUSTED_TIER \<and> lease_tier t = TRUSTED_TIER)"
  define succ where "succ = (wr_status wr = ''completed'')"
  define prov where "prov = provenance t @ [PReport identity tier (wr_status wr) now]"
  define dec where "dec = report_decision t succ tr now"
  let ?hit = "lease_guard tid identity token now"
  define s2 where "s2 = ticket_audit tid (task_id t) TkClaimed (fst dec) ''applied'' identity
    (''worker_status='' @ wr_status wr) (upd_tk ?hit (report_row_upd dec ref prov now) s1)"
  let ?t' = "report_row_upd dec ref prov now t"
  have exp: "lease_expires_at t \<noteq> None"
    using wq_inv_row [OF inv assms(2)] assms(3) by (simp add: tk_wf_def lease_ok_def)
  then have hit: "?hit t" using assms(3,4) tid by (auto simp: lease_guard_def lease_live_def)
  have "?hit = (\<lambda>t. ticket_id t = tid \<and> ?hit t)" by (auto simp: lease_guard_def)
  then have one: "rowcount ?hit (work_queue s1) = 1"
    using k hit assms(2) rowcount_key_1 [of ticket_id "work_queue s" tid ?hit]
    by (auto simp: s1_def queue_keys_def raw_def)
  have w2: "work_queue s2 = upd_where ?hit (report_row_upd dec ref prov now) (work_queue s)"
    by (simp add: s2_def s1_def)
  have raw2: "raw s2 tid = Some ?t'" using hit assms(2) by (simp add: raw_def w2 row_of_upd_where)
  have dk: "dedup_key (report_row_upd dec ref prov now x) = dedup_key x" for x
    by (simp add: report_row_upd_def clear_lease_def Let_def split: prod.split)
  have k2: "queue_keys s2" using k by (simp add: queue_keys_def w2 map_key_upd_where dk)
  have st: "status ?t' = fst dec" by (cases dec) (simp add: report_row_upd_def clear_lease_def Let_def)
  obtain s' where s': "report_after t identity wr succ tr (fst dec) now s2 = (Inr (), s')"
    "raw s' tid = Some ?t'" "length (evaluations s') = Suc (length (evaluations s2))"
    using report_after_row [OF k2, of t ?t' "fst dec" identity wr succ tr now] raw2 st tid by auto
  have fen: "report_fenced alone t identity tier token wr ref now s1 = (Ok (fst dec, fst (snd dec), ref), s')"
    unfolding report_fenced_def Let_def tid alone_def world.simps fault.simps if_False
    using one s'(1) by (simp only: tr_def succ_def prov_def dec_def s2_def not_True_eq_False if_False prod.case
        simp_thms sum.case fault.simps)
  have rep: "report c alone identity tier tid token (Some wr) (Some now) s = (Ok (fst dec, fst (snd dec), ref), s')"
    using assms(2-4) put fen by (simp add: report_def Let_def now_of_def alone_def)
  have inv': "wq_inv (routing c) s'"
  proof -
    have "s' = exec c (OpReport alone identity tier tid token (Some wr) (Some now)) s" using rep by simp
    then show ?thesis using exec_refines [of c _ s] reachable_inv [OF assms(1)] peaceful_alone evolves_wq_inv
      by (metis op_ok.simps(4))
  qed
  have "\<not> holds_lease token ?t'"
    by (cases rule: report_decision_cases [of t succ tr now])
      (simp_all add: holds_lease_def dec_def report_row_upd_def clear_lease_def)
  then obtain e where e: "fst (report c w identity tier tid token again now' s') = Err e"
    using report_without_lease [OF inv' s'(2)] by blast
  have ev: "length (evaluations s2) = length (evaluations s)" by (simp add: s2_def s1_def)
  have tok: "lease_token t = Some token" using assms(4) by (simp add: lease_live_def)
  have "lease_token ?t' = None \<longleftrightarrow> \<not> succ" "result_status ?t' = Some (fst (snd dec))" "result_ref ?t' = Some ref"
    by (cases rule: report_decision_cases [of t succ tr now];
        simp add: dec_def report_row_upd_def clear_lease_def tok)+
  moreover have "(fst dec, fst (snd dec)) = (if wr_status wr \<noteq> ''completed''
        then (if attempts t < max_attempts t then (TkOpen, ''failed'') else (TkFailed, ''failed''))
        else if tier = Some ''local_only'' \<and> lease_tier t = Some ''local_only'' then (TkDone, ''approved'')
        else (TkInReview, ''pending''))"
    by (simp add: dec_def report_decision_def succ_def tr_def TRUSTED_TIER_def)
  ultimately show ?thesis using rep s' st ev e
    by (intro exI [of _ "fst dec"] exI [of _ "fst (snd dec)"] exI [of _ ref] exI [of _ ?t'] exI [of _ s']
        exI [of _ e]) (simp add: succ_def)
qed

end
