(* ===== verification/Queue_Witnesses.thy ===== *)
theory Queue_Witnesses
  imports Queue_Methods
begin

text \<open>
  A small run of the queue, evaluated, at which the properties with hypotheses are applied.
\<close>

declare read_full_from.simps [code]

definition demo_uuids :: "nat \<Rightarrow> string" where
  "demo_uuids n = replicate n CHR ''u''"

definition demo_result :: "string \<Rightarrow> worker_result" where
  "demo_result st = \<lparr>wr_status = st, wr_summary = [], wr_confidence = 1, wr_changed_artifacts = [],
     wr_evidence_refs = [], wr_risks = [], wr_recommended_next_action = None, wr_usage = None,
     wr_subtasks = []\<rparr>"

definition demo_cfg :: wq_config where
  "demo_cfg = \<lparr>routing = default_routing, default_lease_seconds = 120, model_dump_json = wr_status,
     model_validate_json = (\<lambda>body. Some (demo_result body))\<rparr>"

definition demo_args :: add_args where
  "demo_args = \<lparr>ad_origin = ''o'', ad_privacy_class = ''public'', ad_payload = Some ''body'',
     ad_payload_ref = None, ad_task_id = None, ad_required_capabilities = [], ad_priority = ''normal'',
     ad_dedup_key = Some ''k'', ad_depends_on = [], ad_max_attempts = 3, ad_assignee = None,
     ad_cloud_safe = True\<rparr>"

definition demo0 :: db where "demo0 = empty_db 0 demo_uuids"
definition demo1 :: db where "demo1 = exec demo_cfg (OpAdd alone demo_args (Some 0)) demo0"
definition demo2 :: db where
  "demo2 = exec demo_cfg (OpClaim alone ''w'' (Some ''external'') ''wq_u'' (Some 10) (Some 1)) demo1"
definition demo3 :: db where "demo3 = exec demo_cfg (OpReap (Some 100)) demo2"

definition demo4 :: db where
  "demo4 = exec demo_cfg (OpReport alone ''w'' (Some ''external'') ''wq_u'' ''uu''
     (Some (demo_result ''completed'')) (Some 2)) demo2"
definition demo5 :: db where
  "demo5 = exec demo_cfg (OpApprove alone ''boss'' (Some ''local_only'') ''wq_u'' (Some 3)) demo4"

abbreviation demo_row :: "db \<Rightarrow> ticket" where
  "demo_row s \<equiv> hd (work_queue s)"

lemma inj_demo_uuids: "inj demo_uuids"
  by (rule injI) (metis demo_uuids_def length_replicate)

lemma demo_reachable:
  "wq_reachable demo_cfg demo0" "wq_reachable demo_cfg demo1" "wq_reachable demo_cfg demo2"
  "wq_reachable demo_cfg demo3" "wq_reachable demo_cfg demo4" "wq_reachable demo_cfg demo5"
proof -
  show 0: "wq_reachable demo_cfg demo0" unfolding demo0_def by (rule wq_init [OF inj_demo_uuids])
  show 1: "wq_reachable demo_cfg demo1" unfolding demo1_def by (rule wq_exec [OF 0]) (simp add: peaceful_alone)
  show 2: "wq_reachable demo_cfg demo2" unfolding demo2_def by (rule wq_exec [OF 1]) (simp add: peaceful_alone)
  show "wq_reachable demo_cfg demo3" unfolding demo3_def by (rule wq_exec [OF 2]) simp
  show 4: "wq_reachable demo_cfg demo4" unfolding demo4_def by (rule wq_exec [OF 2]) (simp add: peaceful_alone)
  show "wq_reachable demo_cfg demo5" unfolding demo5_def by (rule wq_exec [OF 4]) (simp add: peaceful_alone)
qed

lemma demo_classes: "classes_ok (routing demo_cfg)"
  by code_simp

lemma demo_rows:
  "work_queue demo1 = [demo_row demo1]" "work_queue demo2 = [demo_row demo2]"
  "work_queue demo3 = [demo_row demo3]" "work_queue demo4 = [demo_row demo4]"
  "work_queue demo5 = [demo_row demo5]"
  by code_simp+

theorem queue_authorization_witness:
  "status (demo_row demo2) = TkClaimed
   \<and> admits (routing demo_cfg) (lease_tier (demo_row demo2)) (privacy_class (demo_row demo2))"
proof -
  have s: "status (demo_row demo2) = TkClaimed" by code_simp
  have "demo_row demo2 \<in> set (work_queue demo2)" by (subst demo_rows(2)) simp
  from queue_authorization [OF demo_reachable(3) demo_classes this] s show ?thesis by simp
qed

theorem queue_verification_gate_witness:
  "status (demo_row demo5) = TkDone \<and> result_ref (demo_row demo5) \<noteq> None
   \<and> approve demo_cfg alone ''x'' (Some ''external'') ''wq_u'' None demo5 = (Err Reviewer_not_authorized, demo5)"
proof -
  have s: "status (demo_row demo5) = TkDone" by code_simp
  have "demo_row demo5 \<in> set (work_queue demo5)" by (subst demo_rows(5)) simp
  from queue_verification_gate [OF demo_reachable(6) this s, of "Some ''external''" alone "''x''" "''wq_u''" None]
  show ?thesis using s by simp
qed


definition demo_args_child :: add_args where
  "demo_args_child = demo_args\<lparr>ad_dedup_key := None, ad_depends_on := [''wq_u'']\<rparr>"
definition demo6 :: db where "demo6 = exec demo_cfg (OpAdd alone demo_args_child (Some 4)) demo5"

lemma demo6_reachable: "wq_reachable demo_cfg demo6"
  unfolding demo6_def by (rule wq_exec [OF demo_reachable(6)]) (simp add: peaceful_alone)

theorem queue_dependencies_safe_witness:
  "work_queue_deps demo6 \<noteq> [] \<and> acyclic (set (work_queue_deps demo6))"
proof -
  have "work_queue_deps demo6 \<noteq> []" by code_simp
  then show ?thesis using queue_dependencies_safe [OF demo6_reachable] by blast
qed

theorem queue_terminal_final_witness:
  "status (the (raw demo5 ''wq_u'')) = TkDone
   \<and> raw (exec demo_cfg (OpReap (Some 1000)) demo5) ''wq_u'' = raw demo5 ''wq_u''"
proof -
  have s: "status (the (raw demo5 ''wq_u'')) = TkDone" by code_simp
  have "raw demo5 ''wq_u'' \<noteq> None" by code_simp
  then obtain t where t: "raw demo5 ''wq_u'' = Some t" by blast
  with queue_terminal_final [OF demo_reachable(6), of "OpReap (Some 1000)" "''wq_u''" t] s
  show ?thesis by simp
qed

theorem queue_fencing_witness:
  "payload_for demo_cfg ''w'' ''wq_u'' ''uu'' None (Some 101) demo3 = Err Lease_lost
   \<and> (\<exists>e. fst (report demo_cfg alone ''w'' None ''wq_u'' ''uu'' None (Some 101) demo3) = Err e)"
proof -
  have "raw demo3 ''wq_u'' \<noteq> None" by code_simp
  then obtain t where t: "raw demo3 ''wq_u'' = Some t" by blast
  have "map_option status (raw demo3 ''wq_u'') = Some TkOpen" by code_simp
  then have "\<not> holds_lease ''uu'' t" using t by (simp add: holds_lease_def)
  moreover have "''uu'' = uuids demo3 2" "2 < uuid_ctr demo3" by code_simp+
  then have "''uu'' \<in> uuids demo3 ` {..<uuid_ctr demo3}" by blast
  ultimately show ?thesis
    using queue_fencing [OF demo_reachable(4) t, of "''uu''" demo3 alone "''w''" None None "Some 101" None]
    by auto
qed

theorem renew_bounded_witness:
  "\<exists>e. fst (renew demo_cfg ''w'' ''wq_u'' ''uu'' (Some 999999) (Some 5) demo2) = Ok (TkClaimed, e)
    \<and> 5 < e \<and> e \<le> 5 + 3600"
proof -
  have "fst (renew demo_cfg ''w'' ''wq_u'' ''uu'' (Some 999999) (Some 5) demo2) = Ok (TkClaimed, 3605)"
    by code_simp
  then obtain s' where "renew demo_cfg ''w'' ''wq_u'' ''uu'' (Some 999999) (Some 5) demo2 = (Ok (TkClaimed, 3605), s')"
    by (metis prod.collapse)
  from renew_bounded [OF demo_reachable(3) this] this show ?thesis by auto
qed

theorem reaper_recovers_witness:
  "\<not> lease_expired 100 (demo_row demo3) \<and> \<not> stranded demo3 (demo_row demo3)"
proof -
  obtain res where r: "reap_expired (Some 100) demo2 = (res, demo3)"
    unfolding demo3_def by (metis exec.simps(10) prod.collapse)
  have "demo_row demo3 \<in> set (work_queue demo3)" by (subst demo_rows(3)) simp
  moreover have "keys_distinct t_id (tasks demo2)" by code_simp
  ultimately show ?thesis using reaper_recovers [OF demo_reachable(3) _ r] by blast
qed

theorem payload_roundtrip_witness:
  "payload_for demo_cfg ''w'' ''wq_u'' ''uu'' (Some ''external'') (Some 5) demo2
     = Ok (''wq_u'', ''body'', ''artifact_'')"
proof -
  have "raw demo2 ''wq_u'' \<noteq> None" by code_simp
  then obtain t where t: "raw demo2 ''wq_u'' = Some t" by blast
  have "map_option (\<lambda>t. (status t, payload_ref t, lease_live ''w'' ''uu'' 5 t, privacy_class t)) (raw demo2 ''wq_u'')
      = Some (TkClaimed, Some ''artifact_'', True, ''public'')" by code_simp
  then have *: "status t = TkClaimed" "payload_ref t = Some ''artifact_''" "lease_live ''w'' ''uu'' 5 t"
    "privacy_class t = ''public''" using t by simp_all
  have "map_option a_content (row_of a_id ''artifact_'' (artifacts demo2)) = Some ''body''" by code_simp
  then obtain a where a: "row_of a_id ''artifact_'' (artifacts demo2) = Some a" "a_content a = ''body''" by auto
  have "admits (routing demo_cfg) (Some ''external'') ''public''" by code_simp
  with payload_roundtrip [OF demo_reachable(3) t *(1,2) _ a(1), of "''w''" "''uu''" "Some ''external''" 5] * a(2)
  show ?thesis by simp
qed

theorem review_verbs_total_witness:
  "fst (approve demo_cfg alone ''boss'' (Some ''local_only'') ''wq_u'' None demo4) = Ok (TkDone, ''approved'')
   \<and> fst (reject demo_cfg alone ''boss'' (Some ''local_only'') ''wq_u'' ''no'' None demo4) = Ok (TkOpen, ''rejected'')"
proof -
  have "raw demo4 ''wq_u'' \<noteq> None" by code_simp
  then obtain t where t: "raw demo4 ''wq_u'' = Some t" by blast
  have "map_option (\<lambda>t. (status t, attempts t, max_attempts t)) (raw demo4 ''wq_u'') = Some (TkInReview, 1, 3)"
    by code_simp
  then have "status t = TkInReview" "attempts t < max_attempts t" using t by auto
  with review_verbs_total [OF demo_reachable(5) t, of "''boss''" None "''no''"] show ?thesis
    by (simp split: prod.splits) auto
qed

theorem claim_next_exact_witness:
  "length (fst (claim_next demo_cfg alone ''w'' (Some ''external'') [] 5 None None demo1)) = 1
   \<and> distinct (map cl_ticket_id (fst (claim_next demo_cfg alone ''w'' (Some ''external'') [] 5 None None demo1)))"
proof -
  have l: "length (fst (claim_next demo_cfg alone ''w'' (Some ''external'') [] 5 None None demo1)) = 1"
    by code_simp
  obtain got s' where g: "claim_next demo_cfg alone ''w'' (Some ''external'') [] 5 None None demo1 = (got, s')"
    by (metis surj_pair)
  from claim_next_exact [OF demo_reachable(2) demo_classes g] l g show ?thesis by simp
qed

theorem add_idempotent_witness:
  "\<exists>row. add demo_cfg alone (demo_args\<lparr>ad_privacy_class := ''restricted''\<rparr>) None demo1 = (Ok row, demo1)
     \<and> pr_ticket_id row = ''wq_u''"
proof -
  have "fst (add demo_cfg alone demo_args (Some 0) demo0) = Ok \<lparr>pr_ticket_id = ''wq_u'', pr_status = TkOpen,
      pr_privacy_class = ''public'', pr_allowed_tiers = [''local_only'', ''private_rented'', ''external'', ''external_paid''],
      pr_park_reason = None\<rparr>" by code_simp
  then obtain row where r: "add demo_cfg alone demo_args (Some 0) demo0 = (Ok row, demo1)" "pr_ticket_id row = ''wq_u''"
    unfolding demo1_def by (metis exec.simps(1) prod.collapse public_row.select_convs(1))
  have "(wq_next demo_cfg)\<^sup>*\<^sup>* demo1 demo1" by simp
  from add_idempotent [OF demo_reachable(1) peaceful_alone _ r(1) this,
      of "''k''" "demo_args\<lparr>ad_privacy_class := ''restricted''\<rparr>" alone None] r(2)
  show ?thesis by (simp add: demo_args_def)
qed

theorem link_cycle_guard_witness:
  "fst (link demo_cfg alone ''wq_u'' (ticket_id (work_queue demo6 ! 1)) demo6) = Err Dependency_cycle"
proof -
  let ?d = "ticket_id (work_queue demo6 ! 1)"
  have "raw demo6 ''wq_u'' \<noteq> None" "raw demo6 ?d \<noteq> None" by code_simp+
  then obtain ch p where cp: "raw demo6 ''wq_u'' = Some ch" "raw demo6 ?d = Some p" by blast
  have "map_option (\<lambda>t. (status t, privacy_class t)) (raw demo6 ''wq_u'') = Some (TkDone, ''public'')"
    "map_option privacy_class (raw demo6 ?d) = Some ''public''" by code_simp+
  then have *: "status ch = TkDone" "privacy_class ch = ''public''" "privacy_class p = ''public''" using cp by auto
  have "''wq_u'' \<noteq> ?d" "(''wq_u'', ?d) \<notin> set (work_queue_deps demo6)" "depends_transitively demo6 ?d ''wq_u''"
    by code_simp+
  with link_cycle_guard [OF cp, of demo_cfg] * show ?thesis by simp
qed

theorem report_outcome_witness:
  "\<exists>ref. fst (report demo_cfg alone ''w'' (Some ''local_only'') ''wq_u'' ''uu''
      (Some (demo_result ''completed'')) (Some 2) demo2)
    = Ok (TkInReview, ''pending'', ref)"
proof -
  have "raw demo2 ''wq_u'' \<noteq> None" by code_simp
  then obtain t where t: "raw demo2 ''wq_u'' = Some t" by blast
  have "map_option (\<lambda>t. (status t, lease_live ''w'' ''uu'' 2 t, lease_tier t)) (raw demo2 ''wq_u'')
      = Some (TkClaimed, True, Some ''external'')" by code_simp
  then have *: "status t = TkClaimed" "lease_live ''w'' ''uu'' 2 t" "lease_tier t = Some ''external''" using t by simp_all
  have "''artifact_'' @ take 12 (uuids demo2 (uuid_ctr demo2)) \<notin> a_id ` set (artifacts demo2)" by code_simp
  from report_outcome [OF demo_reachable(3) t *(1,2) this, of "Some ''local_only''"
      "demo_result ''completed''" alone None None] *(3)
  show ?thesis by (auto simp: demo_result_def)
qed


end
