(* ===== verification/Calendar.thy ===== *)
theory Calendar
  imports Prelude
begin

text \<open>
  The part of Python's \<open>datetime\<close> and \<open>calendar\<close> that the budget periods use: proleptic Gregorian
  ordinals (day 1 is 0001-01-01), the year and the day in the year of an ordinal, months, and
  weekdays. Instants are epoch seconds in UTC. The lemmas give the decomposition of an ordinal into
  year and day, its uniqueness, and that a month is an interval of ordinals.
\<close>

section \<open>Definitions\<close>

definition is_leap :: "int \<Rightarrow> bool" where
  "is_leap y \<longleftrightarrow> y mod 4 = 0 \<and> (y mod 100 \<noteq> 0 \<or> y mod 400 = 0)"

definition year_len :: "int \<Rightarrow> int" where
  "year_len y = (if is_leap y then 366 else 365)"

definition days_before_year :: "int \<Rightarrow> int" where
  "days_before_year y = (y - 1) * 365 + (y - 1) div 4 - (y - 1) div 100 + (y - 1) div 400"

definition ord_year :: "int \<Rightarrow> int \<times> int" where
  "ord_year ord =
    (let n = ord - 1;
         a = n div 146097; n = n mod 146097;
         b = n div 36524; n = n mod 36524;
         c = n div 1461; n = n mod 1461;
         d = n div 365; e = n mod 365;
         y = a * 400 + b * 100 + c * 4 + d + 1
     in if d = 4 \<or> b = 4 then (y - 1, 365) else (y, e))"

definition month_lens :: "int \<Rightarrow> int list" where
  "month_lens y = [31, if is_leap y then 29 else 28, 31, 30, 31, 30, 31, 31, 30, 31, 30, 31]"

text \<open>The days since the first of the month, and the length of the month, of a day of the year.\<close>

fun month_walk :: "int list \<Rightarrow> int \<Rightarrow> int \<times> int" where
  "month_walk [] yd = (yd, 0)"
| "month_walk (l # ls) yd = (if yd < l then (yd, l) else month_walk ls (yd - l))"

definition ord_month :: "int \<Rightarrow> int \<times> int" where
  "ord_month ord = (case ord_year ord of (y, yd) \<Rightarrow> month_walk (month_lens y) yd)"

definition weekday :: "int \<Rightarrow> int" where
  "weekday ord = (ord + 6) mod 7"

definition MAXORDINAL :: int where "MAXORDINAL = 3652059"

definition ordinal_of :: "real \<Rightarrow> int" where
  "ordinal_of now = \<lfloor>now / 86400\<rfloor> + 719163"

definition ord_timestamp :: "int \<Rightarrow> real" where
  "ord_timestamp ord = of_int (ord - 719163) * 86400"

section \<open>Years\<close>

lemma div_eqI: "x = k * q + r \<Longrightarrow> 0 \<le> r \<Longrightarrow> r < k \<Longrightarrow> x div k = q" for x k q r :: int
  by simp

lemma mod_eqI: "x = k * q + r \<Longrightarrow> 0 \<le> r \<Longrightarrow> r < k \<Longrightarrow> x mod k = r" for x k q r :: int
  by simp

lemma leap_days:
  fixes y A B C :: int
  assumes "R \<longrightarrow> Q" and "Q \<longrightarrow> P"
  shows "y * 365 + (A + (if P then 1 else 0)) - (B + (if Q then 1 else 0)) + (C + (if R then 1 else 0))
    = (y - 1) * 365 + A - B + C + (if P \<and> (\<not> Q \<or> R) then 366 else 365)"
  using assms by (cases P; cases Q; cases R) simp_all

lemma days_before_year_Suc: "days_before_year (y + 1) = days_before_year y + year_len y"
proof -
  have d: "y div k = (y - 1) div k + (if y mod k = 0 then 1 else 0)" if "1 < k" for k :: int
  proof (cases "y mod k = 0")
    case True
    then have "y = k * (y div k)" using mult_div_mod_eq [of k y] by simp
    then have "(y - 1) div k = y div k - 1"
      using that by (intro div_eqI [of _ _ _ "k - 1"]) (simp_all add: right_diff_distrib)
    then show ?thesis using True by simp
  next
    case False
    then have "(y - 1) div k = y div k"
      using that pos_mod_sign [of k y] pos_mod_bound [of k y] mult_div_mod_eq [of k y]
      by (intro div_eqI [of _ _ _ "y mod k - 1"]) linarith+
    then show ?thesis using False by simp
  qed
  have m: "y mod 400 = 0 \<Longrightarrow> y mod 100 = 0" "y mod 100 = 0 \<Longrightarrow> y mod 4 = 0"
    unfolding mod_eq_0_iff_dvd by (erule dvd_trans [rotated], simp)+
  have "days_before_year (y + 1) = y * 365 + y div 4 - y div 100 + y div 400"
    by (simp add: days_before_year_def)
  also have "\<dots> = y * 365 + ((y - 1) div 4 + (if y mod 4 = 0 then 1 else 0))
      - ((y - 1) div 100 + (if y mod 100 = 0 then 1 else 0))
      + ((y - 1) div 400 + (if y mod 400 = 0 then 1 else 0))"
    using d [of 4] d [of 100] d [of 400] by (simp only:)
  also have "\<dots> = days_before_year y + year_len y"
    unfolding days_before_year_def year_len_def is_leap_def by (rule leap_days) (use m in blast)+
  finally show ?thesis .
qed

lemma days_before_year_strict: "y < y' \<Longrightarrow> days_before_year y + year_len y \<le> days_before_year y'"
proof (induction "nat (y' - y)" arbitrary: y)
  case (Suc n)
  show ?case
  proof (cases "y + 1 = y'")
    case True
    then show ?thesis using days_before_year_Suc [of y] by simp
  next
    case False
    then have "days_before_year (y + 1) + year_len (y + 1) \<le> days_before_year y'"
      using Suc.hyps(2) Suc.prems by (intro Suc.hyps(1)) auto
    moreover have "0 \<le> year_len (y + 1)" by (simp add: year_len_def)
    ultimately show ?thesis using days_before_year_Suc [of y] by linarith
  qed
qed simp

lemma year_unique:
  assumes "days_before_year y + yd = days_before_year y' + yd'"
    and "0 \<le> yd" "yd < year_len y" "0 \<le> yd'" "yd' < year_len y'"
  shows "y = y' \<and> yd = yd'"
  using days_before_year_strict [of y y'] days_before_year_strict [of y' y] assms
  by (cases y y' rule: linorder_cases) auto

lemma block_div:
  fixes a b c d :: int
  assumes "0 \<le> d" "d \<le> 3" "0 \<le> b" "b \<le> 3" "0 \<le> c" "c \<le> 24"
  shows "(400 * a + 100 * b + 4 * c + d) div 4 = 100 * a + 25 * b + c"
    and "(400 * a + 100 * b + 4 * c + d) div 100 = 4 * a + b"
    and "(400 * a + 100 * b + 4 * c + d) div 400 = a"
proof -
  show "(400 * a + 100 * b + 4 * c + d) div 4 = 100 * a + 25 * b + c"
    by (rule div_eqI [of _ _ _ d]) (use assms in auto)
  show "(400 * a + 100 * b + 4 * c + d) div 100 = 4 * a + b"
    by (rule div_eqI [of _ _ _ "4 * c + d"]) (use assms in auto)
  show "(400 * a + 100 * b + 4 * c + d) div 400 = a"
    by (rule div_eqI [of _ _ _ "100 * b + 4 * c + d"]) (use assms in auto)
qed

lemma block_leap:
  fixes a b c :: int
  assumes "0 \<le> c" "c \<le> 23"
  shows "is_leap (400 * a + 100 * b + 4 * c + 4)"
proof -
  have "(400 * a + 100 * b + 4 * c + 4) mod 4 = 0"
    by (rule mod_eqI [of _ _ "100 * a + 25 * b + c + 1"]) simp_all
  moreover have "(400 * a + 100 * b + 4 * c + 4) mod 100 = 4 * c + 4"
    by (rule mod_eqI [of _ _ "4 * a + b"]) (use assms in simp_all)
  ultimately show ?thesis using assms by (simp only: is_leap_def) simp
qed

lemma ord_year_correct:
  assumes "ord_year ord = (y, yd)"
  shows "ord = days_before_year y + yd + 1 \<and> 0 \<le> yd \<and> yd < year_len y"
proof -
  define n where "n = ord - 1"
  define a n1 where "a = n div 146097" and "n1 = n mod 146097"
  define b n2 where "b = n1 div 36524" and "n2 = n1 mod 36524"
  define c n3 where "c = n2 div 1461" and "n3 = n2 mod 1461"
  define d e where "d = n3 div 365" and "e = n3 mod 365"
  define z where "z = a * 400 + b * 100 + c * 4 + d"
  have eq: "(y, yd) = (if d = 4 \<or> b = 4 then (z, 365) else (z + 1, e))"
    using assms [unfolded ord_year_def Let_def, folded n_def, folded a_def n1_def, folded b_def n2_def,
      folded c_def n3_def, folded d_def e_def] by (auto simp: z_def split: if_splits)
  have r: "n = 146097 * a + n1" "n1 = 36524 * b + n2" "n2 = 1461 * c + n3" "n3 = 365 * d + e"
    "0 \<le> n1" "n1 < 146097" "0 \<le> n2" "n2 < 36524" "0 \<le> n3" "n3 < 1461" "0 \<le> e" "e < 365"
    by (simp_all add: a_def n1_def b_def n2_def c_def n3_def d_def e_def)
  have bnd: "0 \<le> b" "b \<le> 4" using r(2,5,6,7,8) by linarith+
  have bnd2: "0 \<le> c" "c \<le> 24" using r(3,7,8,9,10) by linarith+
  have bnd3: "0 \<le> d" "d \<le> 4" using r(4,9,10,11,12) by linarith+
  have b4: "n2 = 0" if "b = 4" using that r(2,6,7) by linarith
  have d4: "e = 0 \<and> c \<le> 23" if "d = 4" using that r(3,4,8,10,11) by linarith
  note bnd = bnd bnd2 bnd3
  have zdiv: "z div 4 = 100 * a + 25 * b + c" "z div 100 = 4 * a + b" "z div 400 = a"
    if "d \<le> 3" "b \<le> 3"
    using block_div [of d b c a] bnd that by (simp_all add: z_def algebra_simps)
  show ?thesis
  proof (cases "d = 4 \<or> b = 4")
    case False
    then have *: "y = z + 1" "yd = e" "d \<le> 3" "b \<le> 3" using eq bnd by auto
    then have "days_before_year y = n - e"
      using zdiv r by (simp add: days_before_year_def z_def)
    then show ?thesis using * r(11,12) by (simp add: n_def year_len_def)
  next
    case True
    then have *: "y = z" "yd = 365" using eq by auto
    have "is_leap z \<and> n = days_before_year z + 365"
    proof (cases "b = 4")
      case True
      then have "z = 400 * (a + 1)" "n = 146097 * a + 146096" using b4 r bnd by (simp_all add: z_def)
      then show ?thesis by (auto simp: is_leap_def days_before_year_def)
    next
      case False
      then have d: "d = 4" "e = 0" "c \<le> 23" "b \<le> 3" using \<open>d = 4 \<or> b = 4\<close> d4 bnd by auto
      then have z: "z = 400 * a + 100 * b + 4 * c + 4" by (simp add: z_def)
      then have z1: "z - 1 = 400 * a + 100 * b + 4 * c + 3" by simp
      have "days_before_year z = (400 * a + 100 * b + 4 * c + 3) * 365 + (100 * a + 25 * b + c) - (4 * a + b) + a"
        unfolding days_before_year_def z1 using block_div [of 3 b c a] bnd d(3,4) by simp
      then show ?thesis
        using r(1-4) d block_leap [of c a b] bnd unfolding z by simp
    qed
    then show ?thesis using * by (simp add: n_def year_len_def)
  qed
qed

lemma ord_year_unique:
  assumes "ord = days_before_year y + yd + 1" and "0 \<le> yd" "yd < year_len y"
  shows "ord_year ord = (y, yd)"
proof -
  obtain y' yd' where e: "ord_year ord = (y', yd')" by fastforce
  then show ?thesis using ord_year_correct [OF e] year_unique [of y yd y' yd'] assms by auto
qed

section \<open>Months and weeks\<close>

lemma month_walk_correct:
  assumes "month_walk ls yd = (d, l)" and "0 \<le> yd" and "yd < sum_list ls" and "\<forall>x \<in> set ls. 0 < x"
  shows "0 \<le> d \<and> d < l \<and> l \<in> set ls \<and> 0 \<le> yd - d \<and> yd - d + l \<le> sum_list ls
    \<and> (\<forall>k. 0 \<le> k \<and> k < l \<longrightarrow> month_walk ls (yd - d + k) = (k, l))"
  using assms
proof (induction ls arbitrary: yd)
  case (Cons x ls)
  have nn: "0 \<le> sum_list ls" using Cons.prems(4) by (intro sum_list_nonneg) auto
  show ?case
  proof (cases "yd < x")
    case True
    then show ?thesis using Cons.prems nn by auto
  next
    case False
    then have IH: "0 \<le> d \<and> d < l \<and> l \<in> set ls \<and> 0 \<le> yd - x - d \<and> yd - x - d + l \<le> sum_list ls
        \<and> (\<forall>k. 0 \<le> k \<and> k < l \<longrightarrow> month_walk ls (yd - x - d + k) = (k, l))"
      using Cons.prems by (intro Cons.IH) auto
    have "month_walk (x # ls) (yd - d + k) = (k, l)" if "0 \<le> k" "k < l" for k
    proof -
      have e: "yd - d + k - x = yd - x - d + k" by simp
      show ?thesis using IH that by (simp add: e)
    qed
    then show ?thesis using IH Cons.prems(4) by auto
  qed
qed simp

lemma month_lens_facts: "sum_list (month_lens y) = year_len y" "\<forall>x \<in> set (month_lens y). 28 \<le> x \<and> x \<le> 31"
  by (simp_all add: month_lens_def year_len_def)

text \<open>A month is an interval of ordinals: every day of it has the same first day and length.\<close>

lemma ord_month_correct:
  assumes "ord_month ord = (d, l)"
  shows "0 \<le> d \<and> d < l \<and> 28 \<le> l \<and> l \<le> 31" and "0 \<le> k \<Longrightarrow> k < l \<Longrightarrow> ord_month (ord - d + k) = (k, l)"
proof -
  obtain y yd where y: "ord_year ord = (y, yd)" by fastforce
  note oy = ord_year_correct [OF y]
  have w: "month_walk (month_lens y) yd = (d, l)" using assms y by (simp add: ord_month_def)
  have pos: "\<forall>x \<in> set (month_lens y). 0 < x" using month_lens_facts(2) [of y] by force
  note mw = month_walk_correct [OF w _ _ pos, unfolded month_lens_facts(1)]
  show "0 \<le> d \<and> d < l \<and> 28 \<le> l \<and> l \<le> 31" using mw oy month_lens_facts(2) [of y] by blast
  assume k: "0 \<le> k" "k < l"
  have "ord_year (ord - d + k) = (y, yd - d + k)" by (rule ord_year_unique) (use mw oy k in auto)
  then show "ord_month (ord - d + k) = (k, l)" using mw oy k by (simp add: ord_month_def)
qed

lemma weekday_bounds: "0 \<le> weekday ord \<and> weekday ord < 7"
  by (simp add: weekday_def)

lemma weekday_shift: "0 \<le> k \<Longrightarrow> k < 7 \<Longrightarrow> weekday (ord - weekday ord + k) = k"
proof -
  assume k: "0 \<le> k" "k < 7"
  have "ord - weekday ord + k + 6 = 7 * ((ord + 6) div 7) + k"
    using mult_div_mod_eq [of 7 "ord + 6"] unfolding weekday_def by linarith
  then show ?thesis unfolding weekday_def using k by (intro mod_eqI) (simp_all add: weekday_def)
qed

section \<open>Instants\<close>

lemma ordinal_of_iff: "ord_timestamp a \<le> t \<and> t < ord_timestamp b \<longleftrightarrow> a \<le> ordinal_of t \<and> ordinal_of t < b"
proof -
  have "ord_timestamp c \<le> t \<longleftrightarrow> c \<le> ordinal_of t" for c
    by (simp add: ordinal_of_def ord_timestamp_def le_floor_iff pos_le_divide_eq flip: diff_le_eq)
  then show ?thesis by (meson not_le)
qed

lemma ord_timestamp_diff: "ord_timestamp (a + k) - ord_timestamp a = of_int k * 86400"
  by (simp add: ord_timestamp_def algebra_simps)

end
