(* ===== verification/Budget.thy ===== *)
theory Budget
  imports Shared_Memory Calendar
begin

text \<open>
  The spend budget of \<^verbatim>\<open>common/budget.py\<close>: the period window containing an instant, the
  configuration kept in the settings table, metering, pacing and the affordability check. The
  manager keeps no amount of its own: \<open>budget_manager\<close> is the policy read from
  \<^verbatim>\<open>routing.yaml\<close> (and the language's \<open>float\<close> on text), and the amount is in the store.
\<close>

section \<open>Periods\<close>

definition VALID_PERIODS :: "string list" where
  "VALID_PERIODS = [''daily'', ''weekly'', ''monthly'']"

definition EPS :: real where "EPS = 1 / 10 ^ 9"

record budget_config =
  amount_usd :: real
  period :: string

text \<open>First day and length in days of the period that contains the day \<open>ord\<close>.\<close>

definition period_days :: "string \<Rightarrow> int \<Rightarrow> (int \<times> int) option" where
  "period_days p ord =
    (if p = ''daily'' then Some (ord, 1)
     else if p = ''weekly'' then Some (ord - weekday ord, 7)
     else if p = ''monthly'' then (case ord_month ord of (d, l) \<Rightarrow> Some (ord - d, l))
     else None)"

definition period_window :: "real \<Rightarrow> string \<Rightarrow> exc + (real \<times> real)" where
  "period_window now p =
    (let ord = ordinal_of now
     in if ord < 1 \<or> MAXORDINAL < ord then Inl (ValueError ''year is out of range'')
        else case period_days p ord of
               None \<Rightarrow> Inl (ValueError ''Unknown budget period'')
             | Some (start, len) \<Rightarrow>
                 if MAXORDINAL < start + len then Inl (OverflowError ''date value out of range'')
                 else Inr (ord_timestamp start, ord_timestamp (start + len)))"

section \<open>Configuration\<close>

record budget_manager =
  require_explicit :: bool
  suggested_period :: string
  float_text :: "string \<Rightarrow> real option"

definition SETTING_KEY :: string where "SETTING_KEY = ''budget''"

text \<open>\<open>float(v or 0.0)\<close>.\<close>

definition py_float :: "budget_manager \<Rightarrow> col \<Rightarrow> exc + real" where
  "py_float bm v =
    (case v of
       CNull \<Rightarrow> Inr 0
     | CReal x \<Rightarrow> Inr x
     | CInt i \<Rightarrow> Inr (of_int i)
     | CText t \<Rightarrow> if t = [] then Inr 0
                  else case float_text bm t of
                         None \<Rightarrow> Inl (ValueError ''could not convert string to float'')
                       | Some x \<Rightarrow> Inr x)"

definition budget_period :: "budget_manager \<Rightarrow> (string \<times> col) list \<Rightarrow> string" where
  "budget_period bm s =
    (case map_of s ''period'' of
       Some (CText p) \<Rightarrow> if p \<in> set VALID_PERIODS then p else suggested_period bm
     | _ \<Rightarrow> suggested_period bm)"

definition config :: "budget_manager \<Rightarrow> db \<Rightarrow> exc + budget_config option" where
  "config bm s =
    (case get_setting s SETTING_KEY of
       None \<Rightarrow> Inr None
     | Some v \<Rightarrow>
         if v = [] then Inr None
         else case py_float bm (case map_of v ''amount_usd'' of None \<Rightarrow> CReal 0 | Some a \<Rightarrow> a) of
                Inl e \<Rightarrow> Inl e
              | Inr amount \<Rightarrow>
                  if amount \<le> 0 then Inr None
                  else Inr (Some \<lparr>amount_usd = amount, period = budget_period bm v\<rparr>))"

definition is_configured :: "budget_manager \<Rightarrow> db \<Rightarrow> exc + bool" where
  "is_configured bm s = map_sum id (\<lambda>c. c \<noteq> None) (config bm s)"

definition set_budget :: "real \<Rightarrow> string \<Rightarrow> db \<Rightarrow> (exc + unit) \<times> db" where
  "set_budget amount p s =
    (if amount \<le> 0 then (Inl (ValueError ''budget amount_usd must be positive''), s)
     else if p \<notin> set VALID_PERIODS then (Inl (ValueError ''period must be one of VALID_PERIODS''), s)
     else (Inr (), set_setting SETTING_KEY [(''amount_usd'', CReal amount), (''period'', CText p)] s))"

section \<open>Metering\<close>

definition rbind :: "exc + 'a \<Rightarrow> ('a \<Rightarrow> exc + 'b) \<Rightarrow> exc + 'b" where
  "rbind m f = (case m of Inl e \<Rightarrow> Inl e | Inr x \<Rightarrow> f x)"

definition window :: "budget_manager \<Rightarrow> db \<Rightarrow> real \<Rightarrow> exc + (real \<times> real)" where
  "window bm s now =
    rbind (config bm s) (\<lambda>cfg. period_window now
      (case cfg of None \<Rightarrow> suggested_period bm | Some c \<Rightarrow> period c))"

definition spent :: "budget_manager \<Rightarrow> db \<Rightarrow> real \<Rightarrow> exc + real" where
  "spent bm s now = rbind (window bm s now) (\<lambda>(start, _). Inr (total_spend_since s start))"

definition budget_remaining :: "budget_manager \<Rightarrow> db \<Rightarrow> real \<Rightarrow> exc + real" where
  "budget_remaining bm s now =
    rbind (config bm s) (\<lambda>cfg. case cfg of
       None \<Rightarrow> Inr 0
     | Some c \<Rightarrow> rbind (spent bm s now) (\<lambda>x. Inr (max 0 (amount_usd c - x))))"

definition elapsed_fraction :: "budget_manager \<Rightarrow> db \<Rightarrow> real \<Rightarrow> exc + real" where
  "elapsed_fraction bm s now =
    rbind (window bm s now) (\<lambda>(start, fin).
      let span = fin - start
      in Inr (if span \<le> EPS then 1 else max 0 (min 1 ((now - start) / span))))"

definition paced_allowance :: "budget_manager \<Rightarrow> db \<Rightarrow> real \<Rightarrow> exc + real" where
  "paced_allowance bm s now =
    rbind (config bm s) (\<lambda>cfg. case cfg of
       None \<Rightarrow> Inr 0
     | Some c \<Rightarrow> rbind (elapsed_fraction bm s now) (\<lambda>x. Inr (amount_usd c * x)))"

definition over_pace_usd :: "budget_manager \<Rightarrow> db \<Rightarrow> real \<Rightarrow> exc + real" where
  "over_pace_usd bm s now =
    rbind (spent bm s now) (\<lambda>x. rbind (paced_allowance bm s now) (\<lambda>a. Inr (x - a)))"

definition pressure :: "budget_manager \<Rightarrow> db \<Rightarrow> real \<Rightarrow> exc + real" where
  "pressure bm s now =
    rbind (config bm s) (\<lambda>cfg. case cfg of
       None \<Rightarrow> Inr 0
     | Some c \<Rightarrow>
         if amount_usd c \<le> EPS then Inr 0
         else rbind (spent bm s now) (\<lambda>x. rbind (over_pace_usd bm s now) (\<lambda>ov.
           let cap = x / amount_usd c;
               pace = ov / max (15 / 100 * amount_usd c) EPS
           in Inr (max 0 (min 1 (max cap pace))))))"

definition can_afford :: "budget_manager \<Rightarrow> db \<Rightarrow> real \<Rightarrow> real \<Rightarrow> exc + (bool \<times> string)" where
  "can_afford bm s cost_usd now =
    rbind (is_configured bm s) (\<lambda>c.
      if \<not> c then
        Inr (\<not> require_explicit bm,
             if \<not> require_explicit bm then ''budget_ok'' else ''budget_not_configured'')
      else rbind (budget_remaining bm s now) (\<lambda>r.
        if r + EPS < cost_usd then Inr (False, ''period_budget_exhausted'')
        else Inr (True, ''budget_ok'')))"

section \<open>Status\<close>

record budget_status =
  bs_period :: string
  bs_amount_usd :: real
  bs_window_start_epoch :: real
  bs_window_end_epoch :: real
  bs_reset_at_epoch :: real
  bs_spent_usd :: real
  bs_remaining_usd :: real
  bs_paced_allowance_usd :: real
  bs_over_pace_usd :: real
  bs_pressure :: real
  bs_projected :: real
  bs_on_track :: bool

datatype status_result =
    NotConfigured bool string "string option"
  | Configured budget_status

definition budget_status :: "budget_manager \<Rightarrow> db \<Rightarrow> real \<Rightarrow> exc + status_result" where
  "budget_status bm s now =
    rbind (config bm s) (\<lambda>cfg. case cfg of
       None \<Rightarrow> Inr (NotConfigured (require_explicit bm) (suggested_period bm)
                 (if require_explicit bm then Some ''set_budget'' else None))
     | Some c \<Rightarrow>
         rbind (window bm s now) (\<lambda>(start, fin).
         rbind (spent bm s now) (\<lambda>x.
         rbind (elapsed_fraction bm s now) (\<lambda>el.
         rbind (paced_allowance bm s now) (\<lambda>pa.
         rbind (over_pace_usd bm s now) (\<lambda>op.
         rbind (pressure bm s now) (\<lambda>pr.
           let projected = x / max el EPS
           in Inr (Configured
                \<lparr>bs_period = period c, bs_amount_usd = py_round 6 (amount_usd c),
                 bs_window_start_epoch = start, bs_window_end_epoch = fin, bs_reset_at_epoch = fin,
                 bs_spent_usd = py_round 6 x,
                 bs_remaining_usd = py_round 6 (max 0 (amount_usd c - x)),
                 bs_paced_allowance_usd = py_round 6 pa, bs_over_pace_usd = py_round 6 op,
                 bs_pressure = py_round 4 pr, bs_projected = py_round 6 projected,
                 bs_on_track = (projected \<le> amount_usd c + EPS)\<rparr>))))))))"

end
