(* ===== verification/Providers.thy ===== *)
theory Providers
  imports Prelude
begin

text \<open>
  The provider configuration of \<^verbatim>\<open>common/config.py\<close> as the quota ledger and the routing
  engine read it, and the registry of \<^verbatim>\<open>common/providers.py\<close> (lookup, health, capability
  overlap). A quota dict is its two string entries \<open>kind\<close> and \<open>reset\<close> and the map of its
  numeric entries; a \<open>dict\<close> with insertion order is an association list with distinct keys.
\<close>

section \<open>Configuration\<close>

record rental_config =
  vendor :: string
  rental_secret_ref :: "string option"
  instance_type :: "string option"
  min_rental_seconds :: int
  max_hourly_usd :: real
  max_daily_usd :: real
  terminate_when_idle_seconds :: int
  trust :: "string \<rightharpoonup> bool"

record quota_rules =
  q_kind :: "string option"
  q_reset :: "string option"
  q_num :: "string \<rightharpoonup> real"

record provider_config =
  provider_id :: string
  p_type :: string
  endpoint :: string
  p_privacy :: string
  capabilities :: "string list"
  secret_ref :: "string option"
  p_quota :: quota_rules
  manager_endpoint :: "string option"
  node_id :: "string option"
  node_class :: "string option"
  rental :: "rental_config option"
  litellm_model :: "string option"

record provider_registry_config =
  policy_version :: string
  providers :: "(string \<times> provider_config) list"

text \<open>The loader stores each provider under its own identifier.\<close>

definition registry_ok :: "provider_registry_config \<Rightarrow> bool" where
  "registry_ok c \<longleftrightarrow>
    distinct (map fst (providers c)) \<and> list_all (\<lambda>(pid, p). provider_id p = pid) (providers c)"

section \<open>Registry\<close>

record provider_registry =
  reg_config :: provider_registry_config
  reg_health :: "string \<rightharpoonup> string"

definition reg_all :: "provider_registry \<Rightarrow> provider_config list" where
  "reg_all r = map snd (providers (reg_config r))"

definition reg_get :: "provider_registry \<Rightarrow> string \<Rightarrow> provider_config option" where
  "reg_get r pid = map_of (providers (reg_config r)) pid"

definition by_type :: "provider_registry \<Rightarrow> string \<Rightarrow> provider_config list" where
  "by_type r ty = filter (\<lambda>p. p_type p = ty) (reg_all r)"

definition with_capability :: "provider_registry \<Rightarrow> string \<Rightarrow> provider_config list" where
  "with_capability r c = filter (\<lambda>p. c \<in> set (capabilities p)) (reg_all r)"

definition set_health :: "string \<Rightarrow> string \<Rightarrow> provider_registry \<Rightarrow> provider_registry" where
  "set_health pid st r = r\<lparr>reg_health := (reg_health r)(pid \<mapsto> st)\<rparr>"

definition health :: "provider_registry \<Rightarrow> string \<Rightarrow> string" where
  "health r pid = (case reg_health r pid of None \<Rightarrow> ''healthy'' | Some h \<Rightarrow> h)"

definition is_available :: "provider_registry \<Rightarrow> string \<Rightarrow> bool" where
  "is_available r pid \<longleftrightarrow> health r pid \<noteq> ''down''"

definition capability_overlap :: "provider_config \<Rightarrow> string list \<Rightarrow> real" where
  "capability_overlap cfg needed =
    (if needed = [] then 1
     else real (length (filter (\<lambda>c. c \<in> set (capabilities cfg)) needed)) / real (length needed))"

lemma reg_get_all:
  assumes "registry_ok (reg_config r)" and "p \<in> set (reg_all r)"
  shows "reg_get r (provider_id p) = Some p"
  using assms by (auto simp: registry_ok_def reg_all_def reg_get_def list_all_iff)

lemma reg_all_distinct:
  assumes "registry_ok (reg_config r)"
  shows "keys_distinct provider_id (reg_all r)"
proof -
  have "map provider_id (reg_all r) = map fst (providers (reg_config r))"
    using assms by (auto simp: registry_ok_def reg_all_def list_all_iff)
  then show ?thesis using assms by (simp add: registry_ok_def)
qed

lemma capability_overlap_bounds: "0 \<le> capability_overlap cfg needed \<and> capability_overlap cfg needed \<le> 1"
  by (auto simp: capability_overlap_def divide_le_eq)

end
