(* ===== verification/Quota.thy ===== *)
theory Quota
  imports Shared_Memory Providers
begin

text \<open>
  The quota ledger of \<^verbatim>\<open>common/quota.py\<close>: accounting windows, live reservations, headroom,
  reserve / reconcile / release, and the rental budget. A ledger is the shared memory together
  with the in-process reservations. The ledger's lock covers single dictionary operations only:
  what other threads do between two locked sections of one call is the parameter \<open>peers\<close>, indexed
  by the place where it happens.
\<close>

section \<open>Accounting windows\<close>

definition day_start :: "real \<Rightarrow> real" where
  "day_start now = now - py_mod now 86400"

definition window_start :: "real \<Rightarrow> quota_rules \<Rightarrow> real" where
  "window_start now q =
    (case q_num q ''window_seconds'' of
       None \<Rightarrow> day_start now
     | Some window \<Rightarrow>
         if window \<le> 0 then day_start now
         else if q_reset q = Some ''rolling'' then now - window
         else now - py_mod now window)"

section \<open>Ledger\<close>

record live_reservation =
  lr_provider :: string
  lr_task_id :: string
  lr_requests :: int
  lr_tokens :: int
  lr_est_cost_usd :: real
  lr_expires_at :: real

record ledger =
  memory :: db
  reservations :: "(string \<times> live_reservation) list"

type_synonym ledger_peers = "nat \<Rightarrow> ledger \<Rightarrow> ledger"

definition no_threads :: ledger_peers where
  "no_threads k L = L"

definition expire :: "real \<Rightarrow> ledger \<Rightarrow> ledger" where
  "expire now L = L\<lparr>reservations := filter (\<lambda>(rid, r). \<not> lr_expires_at r \<le> now) (reservations L)\<rparr>"

definition reserved_of :: "ledger \<Rightarrow> string \<Rightarrow> live_reservation list" where
  "reserved_of L provider = filter (\<lambda>r. lr_provider r = provider) (map snd (reservations L))"

definition reserved_totals :: "ledger \<Rightarrow> string \<Rightarrow> int \<times> int \<times> real" where
  "reserved_totals L provider =
    (sum_list (map lr_requests (reserved_of L provider)),
     sum_list (map lr_tokens (reserved_of L provider)),
     sum_list (map lr_est_cost_usd (reserved_of L provider)))"

definition num_or :: "quota_rules \<Rightarrow> string \<Rightarrow> real \<Rightarrow> real" where
  "num_or q k d = (case q_num q k of None \<Rightarrow> d | Some x \<Rightarrow> x)"

definition estimate_cost_usd :: "provider_config \<Rightarrow> int \<Rightarrow> int \<Rightarrow> real" where
  "estimate_cost_usd cfg in_tokens out_tokens =
    (let q = p_quota cfg;
         pin = num_or q ''price_per_1k_input_usd'' 0;
         pout = num_or q ''price_per_1k_output_usd'' 0
     in (of_int in_tokens / 1000) * pin + (of_int out_tokens / 1000) * pout)"

section \<open>Headroom\<close>

text \<open>\<open>Unlimited\<close> is the dict with the key \<open>unlimited\<close>; \<open>Limited\<close> is the dict of remainders and fractions.\<close>

datatype headroom = Unlimited string | Limited "(string \<times> real) list"

definition cap_of :: "quota_rules \<Rightarrow> string \<Rightarrow> string \<Rightarrow> real option" where
  "cap_of q name legacy = (case q_num q name of None \<Rightarrow> q_num q legacy | Some c \<Rightarrow> Some c)"

definition cap_entry :: "string \<Rightarrow> string \<Rightarrow> real option \<Rightarrow> real \<Rightarrow> real \<Rightarrow> (string \<times> real) list" where
  "cap_entry rem_key frac_key cap used res =
    (case cap of
       None \<Rightarrow> []
     | Some c \<Rightarrow>
         (let left = max 0 (c - used - res)
          in [(rem_key, left), (frac_key, if c = 0 then 0 else left / c)]))"

definition req_cap :: "quota_rules \<Rightarrow> real option" where
  "req_cap q = cap_of q ''max_requests'' ''max_daily_requests''"

definition tok_cap :: "quota_rules \<Rightarrow> real option" where
  "tok_cap q = cap_of q ''max_tokens'' ''max_daily_tokens''"

definition spend_cap :: "quota_rules \<Rightarrow> real option" where
  "spend_cap q = cap_of q ''max_spend_usd'' ''max_daily_spend_usd''"

definition remaining :: "ledger_peers \<Rightarrow> provider_config \<Rightarrow> real option \<Rightarrow> ledger \<Rightarrow> headroom \<times> ledger" where
  "remaining peers cfg at_time L =
    (let now = (case at_time of None \<Rightarrow> clock (memory L) | Some t \<Rightarrow> t);
         L1 = expire now L;
         (res_req, res_tok, res_cost) = reserved_totals L1 (provider_id cfg);
         q = p_quota cfg
     in if q_kind q = None then (Unlimited ''unknown'', L1)
        else if q_kind q = Some ''local_gpu'' then (Unlimited ''local_gpu'', L1)
        else
          (let L2 = peers 0 L1;
               used = quota_usage_since (memory L2) (provider_id cfg) (window_start now q)
           in (Limited
                (cap_entry ''requests_remaining'' ''requests_frac'' (req_cap q)
                   (of_int (u_requests used)) (of_int res_req)
                 @ cap_entry ''tokens_remaining'' ''tokens_frac'' (tok_cap q)
                   (of_int (u_tokens used)) (of_int res_tok)
                 @ cap_entry ''spend_remaining_usd'' ''spend_frac'' (spend_cap q)
                   (u_cost used) res_cost), L2)))"

definition below :: "(string \<times> real) list \<Rightarrow> string \<Rightarrow> real \<Rightarrow> bool" where
  "below rem k x = (case map_of rem k of None \<Rightarrow> False | Some r \<Rightarrow> r < x)"

definition can_reserve ::
  "ledger_peers \<Rightarrow> provider_config \<Rightarrow> int \<Rightarrow> int \<Rightarrow> ledger \<Rightarrow> (bool \<times> string) \<times> ledger" where
  "can_reserve peers cfg in_tokens out_tokens L =
    (case remaining peers cfg None L of
       (Unlimited k, L1) \<Rightarrow> ((True, ''local_gpu_admission_delegated''), L1)
     | (Limited rem, L1) \<Rightarrow>
         (let tokens = in_tokens + out_tokens
          in if below rem ''requests_remaining'' 1 then ((False, ''daily_request_quota_exhausted''), L1)
             else if below rem ''tokens_remaining'' (of_int tokens)
               then ((False, ''daily_token_quota_insufficient''), L1)
             else if below rem ''spend_remaining_usd'' (estimate_cost_usd cfg in_tokens out_tokens)
               then ((False, ''daily_spend_budget_exhausted''), L1)
             else ((True, ''capacity_available''), L1)))"

section \<open>Reserve, reconcile, release\<close>

record quota_reservation =
  qr_reservation_id :: string
  qr_provider :: string
  qr_task_id :: string
  qr_est_input :: int
  qr_est_output :: int
  qr_requests :: int
  qr_tokens :: int
  qr_expires_in_seconds :: int
  qr_granted :: bool
  qr_reason :: string

definition reserve ::
  "ledger_peers \<Rightarrow> provider_config \<Rightarrow> string \<Rightarrow> int \<Rightarrow> int \<Rightarrow> int \<Rightarrow> ledger
    \<Rightarrow> quota_reservation \<times> ledger" where
  "reserve peers cfg tid in_tokens out_tokens ttl L =
    (case can_reserve peers cfg in_tokens out_tokens L of ((ok, reason), L1) \<Rightarrow>
       (let tokens = in_tokens + out_tokens;
            cost = estimate_cost_usd cfg in_tokens out_tokens;
            (h, m1) = draw (memory L1);
            L2 = L1\<lparr>memory := m1\<rparr>;
            rid = ''resv_'' @ take 10 h;
            qr = \<lparr>qr_reservation_id = rid, qr_provider = provider_id cfg, qr_task_id = tid,
                  qr_est_input = in_tokens, qr_est_output = out_tokens, qr_requests = 1,
                  qr_tokens = tokens, qr_expires_in_seconds = ttl, qr_granted = ok,
                  qr_reason = reason\<rparr>
        in if \<not> ok then (qr, L2)
           else
             (let L3 = peers 1 L2; now = clock (memory L3)
              in (qr, L3\<lparr>reservations := AList.update rid
                    \<lparr>lr_provider = provider_id cfg, lr_task_id = tid, lr_requests = 1,
                     lr_tokens = tokens, lr_est_cost_usd = cost, lr_expires_at = now + of_int ttl\<rparr>
                    (reservations L3)\<rparr>))))"

definition pop_reservation :: "string \<Rightarrow> ledger \<Rightarrow> ledger" where
  "pop_reservation rid L = L\<lparr>reservations := AList.delete rid (reservations L)\<rparr>"

definition reconcile ::
  "ledger_peers \<Rightarrow> quota_reservation \<Rightarrow> provider_config \<Rightarrow> int \<Rightarrow> int \<Rightarrow> string \<Rightarrow> string option
    \<Rightarrow> ledger \<Rightarrow> ledger" where
  "reconcile peers r cfg act_input act_output st failure_reason L =
    (let L1 = peers 0 (pop_reservation (qr_reservation_id r) L)
     in L1\<lparr>memory := record_quota_usage
          (\<lambda>t. \<lparr>q_provider = provider_id cfg, q_task_id = qr_task_id r,
                q_est_input = qr_est_input r, q_est_output = qr_est_output r,
                q_act_input = act_input, q_act_output = act_output,
                q_requests = (if st = ''completed'' then 1 else 0),
                q_est_cost_usd = estimate_cost_usd cfg (qr_est_input r) (qr_est_output r),
                q_act_cost_usd = estimate_cost_usd cfg act_input act_output,
                q_status = st, q_failure_reason = failure_reason, q_created = t\<rparr>)
          (memory L1)\<rparr>)"

definition release :: "quota_reservation \<Rightarrow> ledger \<Rightarrow> ledger" where
  "release r L = pop_reservation (qr_reservation_id r) L"

section \<open>Rented nodes\<close>

text \<open>\<open>None\<close> is \<open>float("inf")\<close>: no daily cap.\<close>

definition rental_remaining_usd :: "provider_config \<Rightarrow> real option \<Rightarrow> ledger \<Rightarrow> real option" where
  "rental_remaining_usd cfg at_time L =
    (let now = (case at_time of None \<Rightarrow> clock (memory L) | Some t \<Rightarrow> t);
         cap = (case rental cfg of None \<Rightarrow> 0 | Some r \<Rightarrow> max_daily_usd r)
     in if cap \<le> 0 then None
        else Some (max 0 (cap - u_cost (quota_usage_since (memory L) (provider_id cfg) (day_start now)))))"

definition rental_window_cost :: "rental_config \<Rightarrow> real" where
  "rental_window_cost r = max_hourly_usd r * (of_int (min_rental_seconds r) / 3600)"

definition can_reserve_rental :: "provider_config \<Rightarrow> ledger \<Rightarrow> bool \<times> string" where
  "can_reserve_rental cfg L =
    (case rental cfg of
       None \<Rightarrow> (False, ''not_a_rented_node'')
     | Some r \<Rightarrow>
         (case rental_remaining_usd cfg None L of
            None \<Rightarrow> (True, ''rental_budget_available'')
          | Some rem \<Rightarrow>
              if rem < rental_window_cost r then (False, ''daily_rental_budget_exhausted'')
              else (True, ''rental_budget_available'')))"

definition record_rental_window ::
  "provider_config \<Rightarrow> string \<Rightarrow> real \<Rightarrow> string \<Rightarrow> ledger \<Rightarrow> real \<times> ledger" where
  "record_rental_window cfg tid seconds st L =
    (let hourly = (case rental cfg of None \<Rightarrow> 0 | Some r \<Rightarrow> max_hourly_usd r);
         cost = hourly * (max 0 seconds / 3600)
     in (cost, L\<lparr>memory := record_quota_usage
          (\<lambda>t. \<lparr>q_provider = provider_id cfg, q_task_id = tid, q_est_input = 0, q_est_output = 0,
                q_act_input = 0, q_act_output = 0, q_requests = 1, q_est_cost_usd = cost,
                q_act_cost_usd = cost, q_status = st, q_failure_reason = None, q_created = t\<rparr>)
          (memory L)\<rparr>))"

end
