(* ===== verification/Quota_Theorems.thy ===== *)
theory Quota_Theorems
  imports Quota
begin

text \<open>
  Correctness of the quota ledger: the accounting windows, what one reservation, release and
  reconciliation do to the totals, the caps over every sequential history of one process, and the
  interleaving of two reservations that passes a cap.
\<close>

section \<open>Windows\<close>

definition window_len :: "quota_rules \<Rightarrow> real" where
  "window_len q = (case q_num q ''window_seconds'' of None \<Rightarrow> 86400
     | Some w \<Rightarrow> if w \<le> 0 then 86400 else w)"

definition is_rolling :: "quota_rules \<Rightarrow> bool" where
  "is_rolling q \<longleftrightarrow> q_reset q = Some ''rolling'' \<and>
     (case q_num q ''window_seconds'' of None \<Rightarrow> False | Some w \<Rightarrow> w > 0)"

lemma window_len_pos [simp]: "0 < window_len q"
  by (simp add: window_len_def split: option.split)

lemma window_start_alt:
  "window_start now q =
    (if is_rolling q then now - window_len q else now - py_mod now (window_len q))"
  by (auto simp: window_start_def is_rolling_def window_len_def day_start_def split: option.splits)

lemma aligned_mono: "0 < m \<Longrightarrow> t \<le> u \<Longrightarrow> t - py_mod t m \<le> u - py_mod u m"
  by (simp add: py_mod_def floor_mono divide_right_mono)

lemma aligned_same:
  assumes "0 < m" and "t - py_mod t m \<le> u" and "u < t - py_mod t m + m"
  shows "u - py_mod u m = t - py_mod t m"
proof -
  define k where "k = \<lfloor>t / m\<rfloor>"
  have "of_int k * m \<le> u" "u < (of_int k + 1) * m"
    using assms by (simp_all add: py_mod_def k_def algebra_simps)
  then have "of_int k \<le> u / m" "u / m < of_int k + 1"
    using assms(1) by (simp_all add: pos_le_divide_eq pos_divide_less_eq)
  then have "\<lfloor>u / m\<rfloor> = k" by (simp add: floor_eq_iff)
  then show ?thesis by (simp add: py_mod_def k_def)
qed

text \<open>The accounting window of a provider contains the instant it is asked for and is no longer
  than the configured length (a UTC day by default, strictly shorter back than the length when it
  is aligned); it never moves backwards; and an aligned window is the same for every instant in it,
  so that the counters reset exactly at its boundaries.\<close>

theorem window_start_correct:
  "window_start now q \<le> now \<and> now - window_start now q \<le> window_len q
   \<and> (\<not> is_rolling q \<longrightarrow> now - window_start now q < window_len q)
   \<and> (now \<le> now' \<longrightarrow> window_start now q \<le> window_start now' q)
   \<and> (\<not> is_rolling q \<and> window_start now q \<le> now' \<and> now' < window_start now q + window_len q
        \<longrightarrow> window_start now' q = window_start now q)"
  using py_mod_bounds [OF window_len_pos, of now q] aligned_mono [OF window_len_pos, of now now' q]
    aligned_same [OF window_len_pos, of now q now']
  by (auto simp: window_start_alt)

section \<open>Totals\<close>

text \<open>What a provider has consumed and promised at the ledger's own clock.\<close>

definition used_now :: "provider_config \<Rightarrow> ledger \<Rightarrow> usage" where
  "used_now cfg L = quota_usage_since (memory L) (provider_id cfg)
     (window_start (clock (memory L)) (p_quota cfg))"

definition live_now :: "provider_config \<Rightarrow> ledger \<Rightarrow> live_reservation list" where
  "live_now cfg L = reserved_of (expire (clock (memory L)) L) (provider_id cfg)"

definition held_requests :: "provider_config \<Rightarrow> ledger \<Rightarrow> int" where
  "held_requests cfg L = u_requests (used_now cfg L) + sum_list (map lr_requests (live_now cfg L))"

definition held_tokens :: "provider_config \<Rightarrow> ledger \<Rightarrow> int" where
  "held_tokens cfg L = u_tokens (used_now cfg L) + sum_list (map lr_tokens (live_now cfg L))"

definition held_cost :: "provider_config \<Rightarrow> ledger \<Rightarrow> real" where
  "held_cost cfg L = u_cost (used_now cfg L) + sum_list (map lr_est_cost_usd (live_now cfg L))"

lemmas held_defs = held_requests_def held_tokens_def held_cost_def

definition limited :: "provider_config \<Rightarrow> bool" where
  "limited cfg \<longleftrightarrow> q_kind (p_quota cfg) \<noteq> None \<and> q_kind (p_quota cfg) \<noteq> Some ''local_gpu''"

definition under_cap :: "real option \<Rightarrow> real \<Rightarrow> bool" where
  "under_cap cap x = (case cap of None \<Rightarrow> True | Some c \<Rightarrow> x \<le> c)"

lemma memory_expire [simp]: "memory (expire t L) = memory L"
  by (simp add: expire_def)

lemma remaining_alone:
  "limited cfg \<Longrightarrow> remaining no_threads cfg None L =
    (Limited
      (cap_entry ''requests_remaining'' ''requests_frac'' (req_cap (p_quota cfg))
         (of_int (u_requests (used_now cfg L))) (of_int (sum_list (map lr_requests (live_now cfg L))))
       @ cap_entry ''tokens_remaining'' ''tokens_frac'' (tok_cap (p_quota cfg))
         (of_int (u_tokens (used_now cfg L))) (of_int (sum_list (map lr_tokens (live_now cfg L))))
       @ cap_entry ''spend_remaining_usd'' ''spend_frac'' (spend_cap (p_quota cfg))
         (u_cost (used_now cfg L)) (sum_list (map lr_est_cost_usd (live_now cfg L)))),
     expire (clock (memory L)) L)"
  by (simp add: remaining_def limited_def reserved_totals_def used_now_def live_now_def
      no_threads_def Let_def)

lemma map_of_cap_entry:
  "map_of (cap_entry rk fk cap u r) k =
    (case cap of None \<Rightarrow> None
     | Some c \<Rightarrow> if k = rk then Some (max 0 (c - u - r))
         else if k = fk then Some (if c = 0 then 0 else max 0 (c - u - r) / c) else None)"
  by (simp add: cap_entry_def Let_def split: option.split)

lemma below_caps:
  fixes c1 c2 c3 :: "real option" and u1 r1 u2 r2 u3 r3 :: real
  defines "rem \<equiv> cap_entry ''requests_remaining'' ''requests_frac'' c1 u1 r1
       @ cap_entry ''tokens_remaining'' ''tokens_frac'' c2 u2 r2
       @ cap_entry ''spend_remaining_usd'' ''spend_frac'' c3 u3 r3"
  shows "below rem ''requests_remaining'' x = (case c1 of None \<Rightarrow> False | Some c \<Rightarrow> max 0 (c - u1 - r1) < x)"
    and "below rem ''tokens_remaining'' x = (case c2 of None \<Rightarrow> False | Some c \<Rightarrow> max 0 (c - u2 - r2) < x)"
    and "below rem ''spend_remaining_usd'' x = (case c3 of None \<Rightarrow> False | Some c \<Rightarrow> max 0 (c - u3 - r3) < x)"
  unfolding rem_def below_def map_of_append map_add_def map_of_cap_entry
  by (cases c1; cases c2; cases c3; simp)+

lemma can_reserve_alone:
  assumes "limited cfg"
  shows "fst (fst (can_reserve no_threads cfg i j L)) \<longleftrightarrow>
      (case req_cap (p_quota cfg) of None \<Rightarrow> True | Some c \<Rightarrow> of_int (held_requests cfg L) + 1 \<le> c)
      \<and> (case tok_cap (p_quota cfg) of None \<Rightarrow> True
         | Some c \<Rightarrow> of_int (i + j) \<le> max 0 (c - of_int (held_tokens cfg L)))
      \<and> (case spend_cap (p_quota cfg) of None \<Rightarrow> True
         | Some c \<Rightarrow> estimate_cost_usd cfg i j \<le> max 0 (c - held_cost cfg L))"
proof -
  have ifs: "fst (fst (if a then ((False, x), l) else if b then ((False, y), l)
      else if c then ((False, z), l) else ((True, w), l))) \<longleftrightarrow> \<not> a \<and> \<not> b \<and> \<not> c"
    for a b c and x y z w :: string and l :: ledger by simp
  have req: "\<not> (case cap of None \<Rightarrow> False | Some c \<Rightarrow> max 0 (c - u - r) < 1)
      \<longleftrightarrow> (case cap of None \<Rightarrow> True | Some c \<Rightarrow> u + r + 1 \<le> c)" for cap and u r :: real
    by (cases cap) auto
  have other: "\<not> (case cap of None \<Rightarrow> False | Some c \<Rightarrow> max 0 (c - u - r) < x)
      \<longleftrightarrow> (case cap of None \<Rightarrow> True | Some c \<Rightarrow> x \<le> max 0 (c - (u + r)))" for cap and u r x :: real
    by (cases cap) (auto simp: not_less diff_diff_eq max_def)
  show ?thesis
    unfolding can_reserve_def remaining_alone [OF assms] prod.case headroom.case Let_def below_caps
      ifs req other held_defs of_int_add ..
qed

section \<open>One reservation\<close>

definition next_rid :: "ledger \<Rightarrow> string" where
  "next_rid L = ''resv_'' @ take 10 (uuids (memory L) (uuid_ctr (memory L)))"

definition fresh_rid :: "ledger \<Rightarrow> bool" where
  "fresh_rid L \<longleftrightarrow> next_rid L \<notin> fst ` set (reservations L)"

definition new_live :: "provider_config \<Rightarrow> string \<Rightarrow> int \<Rightarrow> int \<Rightarrow> int \<Rightarrow> ledger \<Rightarrow> live_reservation" where
  "new_live cfg tid i j ttl L =
    \<lparr>lr_provider = provider_id cfg, lr_task_id = tid, lr_requests = 1, lr_tokens = i + j,
     lr_est_cost_usd = estimate_cost_usd cfg i j, lr_expires_at = clock (memory L) + of_int ttl\<rparr>"

lemma update_fresh: "k \<notin> fst ` set al \<Longrightarrow> AList.update k v al = al @ [(k, v)]"
  by (induction al) auto

lemma expire_idem: "reservations (expire t (expire t L)) = reservations (expire t L)"
  by (simp add: expire_def)

lemma set_expire: "set (reservations (expire t L)) \<subseteq> set (reservations L)"
  by (auto simp: expire_def)

lemma can_reserve_frame:
  "snd (can_reserve no_threads cfg i j L) = expire (clock (memory L)) L"
  by (auto simp: can_reserve_def remaining_def no_threads_def Let_def
      split: prod.splits headroom.splits if_splits)

lemma reserve_alone:
  assumes "reserve no_threads cfg tid i j ttl L = (r, L')" and "fresh_rid L"
  shows "qr_granted r = fst (fst (can_reserve no_threads cfg i j L))"
    and "qr_reservation_id r = next_rid L" and "qr_tokens r = i + j"
    and "memory L' = (memory L)\<lparr>uuid_ctr := Suc (uuid_ctr (memory L))\<rparr>"
    and "reservations L' = reservations (expire (clock (memory L)) L)
          @ (if qr_granted r then [(next_rid L, new_live cfg tid i j ttl L)] else [])"
proof -
  obtain ok reason where c: "can_reserve no_threads cfg i j L = ((ok, reason), expire (clock (memory L)) L)"
    using can_reserve_frame [of cfg i j L] by (metis prod.collapse)
  have "next_rid L \<notin> fst ` set (reservations (expire (clock (memory L)) L))"
    using assms(2) set_expire [of "clock (memory L)" L] unfolding fresh_rid_def by blast
  then have u: "AList.update (next_rid L) v (reservations (expire (clock (memory L)) L)) =
      reservations (expire (clock (memory L)) L) @ [(next_rid L, v)]" for v
    by (rule update_fresh)
  note * = assms(1) [unfolded reserve_def c Let_def draw_def, simplified]
  show "qr_granted r = fst (fst (can_reserve no_threads cfg i j L))"
    and "qr_reservation_id r = next_rid L" and "qr_tokens r = i + j"
    and "memory L' = (memory L)\<lparr>uuid_ctr := Suc (uuid_ctr (memory L))\<rparr>"
    and "reservations L' = reservations (expire (clock (memory L)) L)
          @ (if qr_granted r then [(next_rid L, new_live cfg tid i j ttl L)] else [])"
    using * u by (auto simp: c no_threads_def new_live_def next_rid_def split: if_splits)
qed

lemma usage_cong:
  "quota_records s = quota_records s' \<Longrightarrow> quota_usage_since s p t = quota_usage_since s' p t"
  by (simp add: quota_usage_since_def)

lemma live_append:
  assumes "clock (memory L') = clock (memory L)"
    and "reservations L' = reservations (expire (clock (memory L)) L) @ [(rid, lr)]"
  shows "live_now cfg L' = live_now cfg L @
    (if lr_provider lr = provider_id cfg \<and> clock (memory L) < lr_expires_at lr then [lr] else [])"
  using assms by (auto simp: live_now_def reserved_of_def expire_def)

lemma live_expire:
  assumes "clock (memory L') = clock (memory L)"
    and "reservations L' = reservations (expire (clock (memory L)) L)"
  shows "live_now cfg L' = live_now cfg L"
  using assms by (simp add: live_now_def reserved_of_def expire_def)

lemma used_cong:
  assumes "quota_records (memory L') = quota_records (memory L)" and "clock (memory L') = clock (memory L)"
  shows "used_now cfg L' = used_now cfg L"
  using assms usage_cong [OF assms(1)] by (simp add: used_now_def)

lemma reserve_held:
  assumes "reserve no_threads cfg tid i j ttl L = (r, L')" and "fresh_rid L"
  shows "used_now p L' = used_now p L"
    and "live_now p L' = live_now p L @
      (if qr_granted r \<and> provider_id cfg = provider_id p \<and> 0 < ttl
       then [new_live cfg tid i j ttl L] else [])"
proof -
  note ra = reserve_alone [OF assms(1,2)]
  show "used_now p L' = used_now p L" by (rule used_cong) (simp_all add: ra(4))
  show "live_now p L' = live_now p L @
      (if qr_granted r \<and> provider_id cfg = provider_id p \<and> 0 < ttl
       then [new_live cfg tid i j ttl L] else [])"
  proof (cases "qr_granted r")
    case True
    then show ?thesis using live_append [of L' L "next_rid L" "new_live cfg tid i j ttl L" p] ra(4,5)
      by (auto simp: new_live_def)
  next
    case False
    then show ?thesis using live_expire [of L' L p] ra(4,5) by simp
  qed
qed

lemma reserve_totals:
  fixes p :: provider_config
  assumes "reserve no_threads cfg tid i j ttl L = (r, L')" and "fresh_rid L"
  defines "b \<equiv> qr_granted r \<and> provider_id cfg = provider_id p \<and> 0 < ttl"
  shows "held_requests p L' = held_requests p L + (if b then 1 else 0)"
    and "held_tokens p L' = held_tokens p L + (if b then i + j else 0)"
    and "held_cost p L' = held_cost p L + (if b then estimate_cost_usd cfg i j else 0)"
  using reserve_held [OF assms(1,2), of p] by (simp_all add: held_defs b_def new_live_def)

lemma fits_max: "x \<le> max 0 (c - h) \<Longrightarrow> h + x \<le> max c h" for x c h :: real
  by (simp add: max_def split: if_splits)

text \<open>A granted reservation never takes a provider past a cap: with no other thread between the
  check and the entry, the requests committed and promised stay within the request cap, and the
  tokens and the dollars stay within theirs unless they had passed it before the call (a rule
  with less left than the estimate refuses). A refused one leaves the totals as they were
  and holds nothing.\<close>

theorem reserve_within_caps:
  assumes "limited cfg" and "fresh_rid L"
    and "reserve no_threads cfg tid i j ttl L = (r, L')"
  shows "if qr_granted r
    then under_cap (req_cap (p_quota cfg)) (of_int (held_requests cfg L'))
       \<and> (case tok_cap (p_quota cfg) of None \<Rightarrow> True
          | Some c \<Rightarrow> of_int (held_tokens cfg L') \<le> max c (of_int (held_tokens cfg L)))
       \<and> (case spend_cap (p_quota cfg) of None \<Rightarrow> True
          | Some c \<Rightarrow> held_cost cfg L' \<le> max c (held_cost cfg L))
    else held_requests cfg L' = held_requests cfg L \<and> held_tokens cfg L' = held_tokens cfg L
       \<and> held_cost cfg L' = held_cost cfg L
       \<and> reservations L' = reservations (expire (clock (memory L)) L)"
proof -
  note ra = reserve_alone [OF assms(3,2)] and rt = reserve_totals [OF assms(3,2), of cfg]
  show ?thesis
  proof (cases "qr_granted r")
    case True
    note g = True [unfolded ra(1) can_reserve_alone [OF assms(1)]]
    have "under_cap (req_cap (p_quota cfg)) (of_int (held_requests cfg L'))"
      using g by (auto simp: rt under_cap_def split: option.splits)
    moreover have "case tok_cap (p_quota cfg) of None \<Rightarrow> True
        | Some c \<Rightarrow> of_int (held_tokens cfg L') \<le> max c (of_int (held_tokens cfg L))"
      using g fits_max [of "of_int (i + j)" _ "of_int (held_tokens cfg L)"]
      by (cases "tok_cap (p_quota cfg)") (simp_all add: rt)
    moreover have "case spend_cap (p_quota cfg) of None \<Rightarrow> True
        | Some c \<Rightarrow> held_cost cfg L' \<le> max c (held_cost cfg L)"
      using g fits_max [of "estimate_cost_usd cfg i j" _ "held_cost cfg L"]
      by (cases "spend_cap (p_quota cfg)") (simp_all add: rt)
    ultimately show ?thesis using True by simp
  next
    case False
    then show ?thesis by (simp add: rt ra(5))
  qed
qed

section \<open>Sequential histories\<close>

text \<open>
  A history of one process, seen from a provider \<open>p\<close>: reservations, releases, reconciliations and
  the passage of time, for \<open>p\<close> and for any other provider. A reconciliation settles a reservation
  that has not yet expired and reports no more than was estimated.
\<close>

inductive quota_run :: "provider_config \<Rightarrow> ledger \<Rightarrow> ledger \<Rightarrow> bool" for p where
  run_refl: "quota_run p L L"
| run_reserve:
    "quota_run p L0 L \<Longrightarrow> c = p \<or> provider_id c \<noteq> provider_id p \<Longrightarrow> 0 \<le> i \<Longrightarrow> 0 \<le> j \<Longrightarrow> fresh_rid L
     \<Longrightarrow> quota_run p L0 (snd (reserve no_threads c tid i j ttl L))"
| run_release: "quota_run p L0 L \<Longrightarrow> quota_run p L0 (release r L)"
| run_reconcile:
    "quota_run p L0 L \<Longrightarrow> c = p \<or> provider_id c \<noteq> provider_id p
     \<Longrightarrow> map_of (reservations L) (qr_reservation_id r) = Some lr \<Longrightarrow> lr_provider lr = provider_id c
     \<Longrightarrow> clock (memory L) < lr_expires_at lr
     \<Longrightarrow> 0 \<le> ai + ao \<Longrightarrow> ai + ao \<le> lr_tokens lr
     \<Longrightarrow> 0 \<le> estimate_cost_usd c ai ao \<Longrightarrow> estimate_cost_usd c ai ao \<le> lr_est_cost_usd lr
     \<Longrightarrow> quota_run p L0 (reconcile no_threads r c ai ao st why L)"
| run_tick:
    "quota_run p L0 L \<Longrightarrow> clock (memory L) \<le> t
     \<Longrightarrow> quota_run p L0 (L\<lparr>memory := (memory L)\<lparr>clock := t\<rparr>\<rparr>)"

definition row_nonneg :: "quota_row \<Rightarrow> bool" where
  "row_nonneg r \<longleftrightarrow> 0 \<le> q_requests r \<and> 0 \<le> q_act_input r + q_act_output r \<and> 0 \<le> q_act_cost_usd r"

definition live_nonneg :: "live_reservation \<Rightarrow> bool" where
  "live_nonneg r \<longleftrightarrow> 1 \<le> lr_requests r \<and> 0 \<le> lr_tokens r \<and> 0 \<le> lr_est_cost_usd r"

definition ledger_inv :: "provider_config \<Rightarrow> ledger \<Rightarrow> bool" where
  "ledger_inv p L \<longleftrightarrow>
    distinct (map fst (reservations L))
    \<and> (\<forall>r \<in> set (quota_records (memory L)). q_provider r = provider_id p \<longrightarrow> row_nonneg r)
    \<and> (\<forall>(k, r) \<in> set (reservations L). lr_provider r = provider_id p \<longrightarrow> live_nonneg r)"

definition caps_hold :: "provider_config \<Rightarrow> ledger \<Rightarrow> bool" where
  "caps_hold p L \<longleftrightarrow>
    under_cap (req_cap (p_quota p)) (of_int (held_requests p L))
    \<and> under_cap (tok_cap (p_quota p)) (of_int (held_tokens p L))
    \<and> under_cap (spend_cap (p_quota p)) (held_cost p L)"

definition prices_nonneg :: "provider_config \<Rightarrow> bool" where
  "prices_nonneg p \<longleftrightarrow> 0 \<le> num_or (p_quota p) ''price_per_1k_input_usd'' 0
     \<and> 0 \<le> num_or (p_quota p) ''price_per_1k_output_usd'' 0"

lemma estimate_nonneg: "prices_nonneg p \<Longrightarrow> 0 \<le> i \<Longrightarrow> 0 \<le> j \<Longrightarrow> 0 \<le> estimate_cost_usd p i j"
  by (simp add: prices_nonneg_def estimate_cost_usd_def Let_def)

lemma under_cap_mono: "under_cap cap x \<Longrightarrow> y \<le> x \<Longrightarrow> under_cap cap y"
  by (auto simp: under_cap_def split: option.splits)

lemma caps_hold_mono:
  assumes "caps_hold p L" and "held_requests p L' \<le> held_requests p L"
    and "held_tokens p L' \<le> held_tokens p L" and "held_cost p L' \<le> held_cost p L"
  shows "caps_hold p L'"
  using assms by (auto simp: caps_hold_def intro: under_cap_mono)

lemma sum_filter_mono:
  fixes f :: "'a \<Rightarrow> 'b::ordered_ab_group_add"
  assumes "\<And>x. x \<in> set xs \<Longrightarrow> P x \<Longrightarrow> Q x" and "\<And>x. x \<in> set xs \<Longrightarrow> Q x \<Longrightarrow> 0 \<le> f x"
  shows "sum_list (map f (filter P xs)) \<le> sum_list (map f (filter Q xs))"
  using assms
proof (induction xs)
  case Nil
  then show ?case by simp
next
  case (Cons a xs)
  then have "sum_list (map f (filter P xs)) \<le> sum_list (map f (filter Q xs))" by simp
  then show ?case using Cons.prems [of a] by (auto simp: add_increasing intro: add_left_mono)
qed

lemma live_now_alt:
  "live_now p L = filter (\<lambda>r. lr_provider r = provider_id p \<and> clock (memory L) < lr_expires_at r)
     (map snd (reservations L))"
  unfolding live_now_def reserved_of_def expire_def
  by (induction "reservations L") (auto simp: not_le filter_map comp_def case_prod_beta conj_commute)

lemma sum_delete:
  fixes f :: "'v \<Rightarrow> 'b::ab_group_add"
  assumes "distinct (map fst al)" and "map_of al k = Some v"
  shows "sum_list (map f (filter P (map snd (AList.delete k al)))) =
    sum_list (map f (filter P (map snd al))) - (if P v then f v else 0)"
  using assms
proof (induction al)
  case (Cons a al)
  show ?case
  proof (cases "fst a = k")
    case True
    then have "AList.delete k al = al" using Cons.prems(1) by (auto simp: AList.delete_idem)
    then show ?thesis using True Cons.prems(2) by (cases a) simp
  next
    case False
    then show ?thesis using Cons by (cases a) (auto simp: algebra_simps)
  qed
qed simp

lemma used_rows:
  "used_now p L = (let rows = filter (\<lambda>r. q_provider r = provider_id p
      \<and> window_start (clock (memory L)) (p_quota p) \<le> q_created r \<and> q_status r \<noteq> ''reserved'')
      (quota_records (memory L))
    in \<lparr>u_requests = sum_list (map q_requests rows),
        u_tokens = sum_list (map (\<lambda>r. q_act_input r + q_act_output r) rows),
        u_cost = sum_list (map q_act_cost_usd rows)\<rparr>)"
  by (simp add: used_now_def quota_usage_since_def)

lemma held_tick:
  assumes "ledger_inv p L" and "clock (memory L) \<le> t"
  defines "L' \<equiv> L\<lparr>memory := (memory L)\<lparr>clock := t\<rparr>\<rparr>"
  shows "held_requests p L' \<le> held_requests p L" and "held_tokens p L' \<le> held_tokens p L"
    and "held_cost p L' \<le> held_cost p L"
proof -
  have ws: "window_start (clock (memory L)) (p_quota p) \<le> window_start t (p_quota p)"
    using aligned_mono [OF window_len_pos, of "clock (memory L)" t] assms(2) by (simp add: window_start_alt)
  have rows: "sum_list (map f (filter (\<lambda>r. q_provider r = provider_id p \<and> window_start t (p_quota p) \<le> q_created r
        \<and> q_status r \<noteq> ''reserved'') (quota_records (memory L))))
      \<le> sum_list (map f (filter (\<lambda>r. q_provider r = provider_id p
        \<and> window_start (clock (memory L)) (p_quota p) \<le> q_created r \<and> q_status r \<noteq> ''reserved'')
        (quota_records (memory L))))"
    if "\<And>r. row_nonneg r \<Longrightarrow> 0 \<le> f r" for f :: "quota_row \<Rightarrow> 'b::ordered_ab_group_add"
    by (rule sum_filter_mono) (use that assms(1) ws in \<open>auto simp: ledger_inv_def intro: order_trans\<close>)
  have live: "sum_list (map f (live_now p L')) \<le> sum_list (map f (live_now p L))"
    if "\<And>r. live_nonneg r \<Longrightarrow> 0 \<le> f r" for f :: "live_reservation \<Rightarrow> 'b::ordered_ab_group_add"
  proof -
    have "live_now p L' = filter (\<lambda>r. lr_provider r = provider_id p \<and> t < lr_expires_at r) (map snd (reservations L))"
      by (simp add: live_now_alt L'_def)
    also have "sum_list (map f \<dots>) \<le> sum_list (map f (live_now p L))"
      unfolding live_now_alt
      by (rule sum_filter_mono) (use that assms(1,2) in \<open>auto simp: ledger_inv_def intro: order.strict_trans1\<close>)
    finally show ?thesis .
  qed
  show "held_requests p L' \<le> held_requests p L" "held_tokens p L' \<le> held_tokens p L"
    "held_cost p L' \<le> held_cost p L"
    unfolding held_defs
    by (rule add_mono; (rule live, simp add: live_nonneg_def)?;
        simp add: used_rows L'_def Let_def; rule rows; simp add: row_nonneg_def)+
qed

lemma ledger_inv_reserve:
  assumes "ledger_inv p L" and "c = p \<or> provider_id c \<noteq> provider_id p" and "prices_nonneg p"
    and "0 \<le> i" "0 \<le> j" and "fresh_rid L"
  shows "ledger_inv p (snd (reserve no_threads c tid i j ttl L))"
proof -
  obtain r L' where e: "reserve no_threads c tid i j ttl L = (r, L')" by fastforce
  note ra = reserve_alone [OF e assms(6)]
  have sub: "set (reservations (expire (clock (memory L)) L)) \<subseteq> set (reservations L)" by (rule set_expire)
  have "distinct (map fst (reservations (expire (clock (memory L)) L)))"
    using assms(1) by (simp add: ledger_inv_def expire_def distinct_map_filter)
  moreover have "next_rid L \<notin> fst ` set (reservations (expire (clock (memory L)) L))"
    using assms(6) sub by (auto simp: fresh_rid_def)
  moreover have "lr_provider (new_live c tid i j ttl L) = provider_id p \<Longrightarrow> live_nonneg (new_live c tid i j ttl L)"
    using assms(2-5) estimate_nonneg [of p i j] by (auto simp: new_live_def live_nonneg_def)
  ultimately show ?thesis
    using assms(1) sub by (auto simp: e ledger_inv_def ra(4,5))
qed

lemma delete_subset: "set (AList.delete k al) \<subseteq> set al"
  by (auto simp: AList.delete_eq)

lemma ledger_inv_pop: "ledger_inv p L \<Longrightarrow> ledger_inv p (pop_reservation k L)"
  by (auto simp: ledger_inv_def pop_reservation_def distinct_delete dest: set_mp [OF delete_subset])

lemma ledger_inv_reconcile:
  assumes "ledger_inv p L" and "0 \<le> ai + ao" and "0 \<le> estimate_cost_usd c ai ao"
  shows "ledger_inv p (reconcile no_threads r c ai ao st why L)"
  using ledger_inv_pop [OF assms(1), of "qr_reservation_id r"] assms(2,3)
  by (auto simp: reconcile_def no_threads_def record_quota_usage_def ledger_inv_def row_nonneg_def Let_def
      pop_reservation_def)

lemma held_release:
  assumes "ledger_inv p L"
  shows "held_requests p (release r L) \<le> held_requests p L" and "held_tokens p (release r L) \<le> held_tokens p L"
    and "held_cost p (release r L) \<le> held_cost p L"
proof -
  have live: "sum_list (map f (live_now p (release r L))) \<le> sum_list (map f (live_now p L))"
    if nn: "\<And>x. live_nonneg x \<Longrightarrow> 0 \<le> f x" for f :: "live_reservation \<Rightarrow> 'b::ordered_ab_group_add"
  proof (cases "map_of (reservations L) (qr_reservation_id r)")
    case None
    then have "AList.delete (qr_reservation_id r) (reservations L) = reservations L"
      by (simp add: map_of_eq_None_iff)
    then show ?thesis by (simp add: release_def pop_reservation_def)
  next
    case (Some v)
    have "lr_provider v = provider_id p \<Longrightarrow> 0 \<le> f v"
      using nn assms map_of_SomeD [OF Some] by (auto simp: ledger_inv_def)
    then show ?thesis
      using sum_delete [OF _ Some, of f] assms
      by (simp add: live_now_alt release_def pop_reservation_def ledger_inv_def)
  qed
  have u: "used_now p (release r L) = used_now p L"
    by (rule used_cong) (simp_all add: release_def pop_reservation_def)
  show "held_requests p (release r L) \<le> held_requests p L" "held_tokens p (release r L) \<le> held_tokens p L"
    "held_cost p (release r L) \<le> held_cost p L"
    unfolding held_defs u by (rule add_left_mono, rule live, simp add: live_nonneg_def)+
qed

text \<open>What a reconciliation adds to the usage and takes from the reservations of a provider.\<close>

lemma used_reconcile:
  fixes r c p ai ao st why L
  defines "L' \<equiv> reconcile no_threads r c ai ao st why L"
    and "b \<equiv> provider_id c = provider_id p \<and> st \<noteq> ''reserved''"
  shows "u_requests (used_now p L') = u_requests (used_now p L) + (if b \<and> st = ''completed'' then 1 else 0)"
    and "u_tokens (used_now p L') = u_tokens (used_now p L) + (if b then ai + ao else 0)"
    and "u_cost (used_now p L') = u_cost (used_now p L) + (if b then estimate_cost_usd c ai ao else 0)"
proof -
  have le: "window_start t q \<le> t" for t q
    using py_mod_bounds [OF window_len_pos, of t q] window_len_pos [of q] by (simp add: window_start_alt)
  show "u_requests (used_now p L') = u_requests (used_now p L) + (if b \<and> st = ''completed'' then 1 else 0)"
    "u_tokens (used_now p L') = u_tokens (used_now p L) + (if b then ai + ao else 0)"
    "u_cost (used_now p L') = u_cost (used_now p L) + (if b then estimate_cost_usd c ai ao else 0)"
    unfolding used_rows L'_def b_def reconcile_def no_threads_def record_quota_usage_def pop_reservation_def Let_def
    using le by simp_all
qed

lemma live_reconcile:
  fixes f :: "live_reservation \<Rightarrow> 'b::ab_group_add"
  assumes "distinct (map fst (reservations L))" and "map_of (reservations L) (qr_reservation_id r) = Some lr"
    and "clock (memory L) < lr_expires_at lr"
  shows "sum_list (map f (live_now p (reconcile no_threads r c ai ao st why L))) =
    sum_list (map f (live_now p L)) - (if lr_provider lr = provider_id p then f lr else 0)"
  using sum_delete [OF assms(1,2), of f] assms(3)
  by (simp add: live_now_alt reconcile_def no_threads_def record_quota_usage_def pop_reservation_def Let_def)

lemma held_reconcile:
  fixes st :: string and why :: "string option"
  assumes inv: "ledger_inv p L" and lr: "map_of (reservations L) (qr_reservation_id r) = Some lr"
    and pr: "lr_provider lr = provider_id c" and ex: "clock (memory L) < lr_expires_at lr"
    and tok: "ai + ao \<le> lr_tokens lr" and cost: "estimate_cost_usd c ai ao \<le> lr_est_cost_usd lr"
  defines "L' \<equiv> reconcile no_threads r c ai ao st why L"
  shows "held_requests p L' \<le> held_requests p L" and "held_tokens p L' \<le> held_tokens p L"
    and "held_cost p L' \<le> held_cost p L"
proof -
  have d: "distinct (map fst (reservations L))" using inv by (simp add: ledger_inv_def)
  have nn: "lr_provider lr = provider_id p \<Longrightarrow> live_nonneg lr"
    using inv map_of_SomeD [OF lr] by (auto simp: ledger_inv_def)
  note eqs = used_reconcile [of p r c ai ao st why L] live_reconcile [OF d lr ex, of _ p c ai ao st why]
  show "held_requests p L' \<le> held_requests p L" "held_tokens p L' \<le> held_tokens p L"
    "held_cost p L' \<le> held_cost p L"
    unfolding held_defs L'_def eqs using nn pr tok cost by (auto simp: live_nonneg_def)
qed

lemma caps_hold_reserve:
  assumes "caps_hold p L" and "limited p" and "c = p \<or> provider_id c \<noteq> provider_id p" and "fresh_rid L"
  shows "caps_hold p (snd (reserve no_threads c tid i j ttl L))"
proof -
  obtain r L' where e: "reserve no_threads c tid i j ttl L = (r, L')" by fastforce
  note rt = reserve_totals [OF e assms(4), of p]
  show ?thesis
  proof (cases "qr_granted r \<and> provider_id c = provider_id p")
    case True
    with assms(3) have c: "c = p" by auto
    have g: "fst (fst (can_reserve no_threads p i j L))"
      using True reserve_alone(1) [OF e assms(4)] c by simp
    note g' = g [unfolded can_reserve_alone [OF assms(2)]]
    have "under_cap (req_cap (p_quota p)) (of_int (held_requests p L'))"
      using assms(1) g' by (auto simp: rt caps_hold_def under_cap_def split: option.splits)
    moreover have "under_cap (tok_cap (p_quota p)) (of_int (held_tokens p L'))"
      using assms(1) g' by (auto simp: rt caps_hold_def under_cap_def split: option.splits)
    moreover have "under_cap (spend_cap (p_quota p)) (held_cost p L')"
      using assms(1) g' c by (auto simp: rt caps_hold_def under_cap_def split: option.splits)
    ultimately show ?thesis by (simp add: e caps_hold_def)
  next
    case False
    then show ?thesis using assms(1) by (auto simp: e rt caps_hold_def)
  qed
qed


section \<open>Settling a reservation\<close>

lemma reserve_entry:
  assumes "reserve no_threads cfg tid i j ttl L = (r, L')" and "fresh_rid L" and "qr_granted r"
    and "distinct (map fst (reservations L))"
  shows "map_of (reservations L') (qr_reservation_id r) = Some (new_live cfg tid i j ttl L)"
    and "distinct (map fst (reservations L'))"
proof -
  have n: "next_rid L \<notin> fst ` set (reservations (expire (clock (memory L)) L))"
    using assms(2) set_expire [of "clock (memory L)" L] by (auto simp: fresh_rid_def)
  have d: "distinct (map fst (reservations (expire (clock (memory L)) L)))"
    using assms(4) by (simp add: expire_def distinct_map_filter)
  show "map_of (reservations L') (qr_reservation_id r) = Some (new_live cfg tid i j ttl L)"
    and "distinct (map fst (reservations L'))"
    using n d assms(3) reserve_alone(2,5) [OF assms(1,2)]
    by (simp_all add: map_add_def map_of_eq_None_iff [THEN iffD2] split: option.split)
qed

lemma live_release:
  fixes f :: "live_reservation \<Rightarrow> 'b::ab_group_add"
  assumes "distinct (map fst (reservations L))" and "map_of (reservations L) (qr_reservation_id r) = Some lr"
    and "clock (memory L) < lr_expires_at lr" and "lr_provider lr = provider_id p"
  shows "sum_list (map f (live_now p (release r L))) = sum_list (map f (live_now p L)) - f lr"
  using sum_delete [OF assms(1,2), of f] assms(3,4)
  by (simp add: live_now_alt release_def pop_reservation_def)

text \<open>Reserve and settle: releasing a granted reservation brings every total of its provider back
  to what it was, and reconciling it replaces the estimate by exactly what was reported: the
  actual tokens, their cost, and one request if the call completed (none if it failed).\<close>

theorem reserve_settles:
  assumes "reserve no_threads cfg tid i j ttl L = (r, L')" and "qr_granted r" and "0 < ttl"
    and "fresh_rid L" and "distinct (map fst (reservations L))" and "st \<noteq> ''reserved''"
  shows "held_requests cfg (release r L') = held_requests cfg L
    \<and> held_tokens cfg (release r L') = held_tokens cfg L
    \<and> held_cost cfg (release r L') = held_cost cfg L
    \<and> held_requests cfg (reconcile no_threads r cfg ai ao st why L')
        = held_requests cfg L + (if st = ''completed'' then 1 else 0)
    \<and> held_tokens cfg (reconcile no_threads r cfg ai ao st why L') = held_tokens cfg L + (ai + ao)
    \<and> held_cost cfg (reconcile no_threads r cfg ai ao st why L')
        = held_cost cfg L + estimate_cost_usd cfg ai ao"
proof -
  note re = reserve_entry [OF assms(1,4,2,5)] and ra = reserve_alone [OF assms(1,4)]
    and rh = reserve_held [OF assms(1,4), of cfg]
  have ex: "clock (memory L') < lr_expires_at (new_live cfg tid i j ttl L)"
    and pr: "lr_provider (new_live cfg tid i j ttl L) = provider_id cfg"
    using assms(3) by (simp_all add: ra(4) new_live_def)
  have u: "used_now cfg (release r L') = used_now cfg L'"
    by (rule used_cong) (simp_all add: release_def pop_reservation_def)
  have "\<forall>f :: live_reservation \<Rightarrow> int. sum_list (map f (live_now cfg (release r L'))) = sum_list (map f (live_now cfg L))"
    and "\<forall>f :: live_reservation \<Rightarrow> real. sum_list (map f (live_now cfg (release r L'))) = sum_list (map f (live_now cfg L))"
    using assms(2,3) by (simp_all add: live_release [OF re(2,1) ex pr] rh)
  moreover have "\<forall>f :: live_reservation \<Rightarrow> int. sum_list (map f (live_now cfg (reconcile no_threads r cfg ai ao st why L')))
      = sum_list (map f (live_now cfg L))"
    and "\<forall>f :: live_reservation \<Rightarrow> real. sum_list (map f (live_now cfg (reconcile no_threads r cfg ai ao st why L')))
      = sum_list (map f (live_now cfg L))"
    using assms(2,3) pr by (simp_all add: live_reconcile [OF re(2,1) ex] rh)
  ultimately show ?thesis
    unfolding held_defs u used_reconcile using assms(6) by (simp add: rh(1))
qed

section \<open>Rental windows\<close>

text \<open>The daily rental cap: when the check admits a node with a daily cap, committing its minimum
  billable window keeps what the node has cost since midnight within the cap (or where it was,
  if it had passed the cap already), and the committed cost is the hourly rate for that time. A
  provider without rental settings is never admitted.\<close>

theorem rental_within_daily_cap:
  assumes "rental cfg = Some rc" and "0 < max_daily_usd rc" and "0 \<le> min_rental_seconds rc"
    and "fst (can_reserve_rental cfg L)"
    and "record_rental_window cfg tid (of_int (min_rental_seconds rc)) st L = (cost, L')"
  shows "cost = rental_window_cost rc
    \<and> u_cost (quota_usage_since (memory L') (provider_id cfg) (day_start (clock (memory L))))
       \<le> max (max_daily_usd rc)
           (u_cost (quota_usage_since (memory L) (provider_id cfg) (day_start (clock (memory L)))))
    \<and> (\<forall>c. rental c = None \<longrightarrow> \<not> fst (can_reserve_rental c L))"
proof -
  define before where
    "before = u_cost (quota_usage_since (memory L) (provider_id cfg) (day_start (clock (memory L))))"
  have c: "cost = rental_window_cost rc"
    using assms(1,3,5) by (auto simp: record_rental_window_def rental_window_cost_def Let_def)
  have fits: "rental_window_cost rc \<le> max 0 (max_daily_usd rc - before)"
    using assms(1,2,4)
    by (auto simp: can_reserve_rental_def rental_remaining_usd_def before_def Let_def split: if_splits)
  have "day_start t \<le> t" for t using py_mod_bounds [of 86400 t] by (simp add: day_start_def)
  then have "u_cost (quota_usage_since (memory L') (provider_id cfg) (day_start (clock (memory L))))
      = before + (if st \<noteq> ''reserved'' then cost else 0)"
    using assms(5)
    by (auto simp: record_rental_window_def record_quota_usage_def quota_usage_since_def before_def Let_def)
  then show ?thesis
    using c fits_max [OF fits]
    by (auto simp: before_def can_reserve_rental_def)
qed

section \<open>A provider with small caps\<close>

definition free_tier :: provider_config where
  "free_tier = \<lparr>provider_id = ''cloud'', p_type = ''cloud'', endpoint = [], p_privacy = ''external'',
     capabilities = [], secret_ref = None,
     p_quota = \<lparr>q_kind = Some ''free_tier'', q_reset = None,
       q_num = [''max_requests'' \<mapsto> 1, ''max_daily_tokens'' \<mapsto> 100, ''max_spend_usd'' \<mapsto> 1,
                ''price_per_1k_input_usd'' \<mapsto> 2]\<rparr>,
     manager_endpoint = None, node_id = None, node_class = None, rental = None, litellm_model = None\<rparr>"

definition ledger0 :: ledger where
  "ledger0 = \<lparr>memory = empty_db 90000 (\<lambda>n. replicate n CHR ''u''), reservations = []\<rparr>"

definition reserved0 :: "quota_reservation \<times> ledger" where
  "reserved0 = reserve no_threads free_tier ''t'' 30 20 120 ledger0"

definition small_rental :: rental_config where
  "small_rental = \<lparr>vendor = ''generic'', rental_secret_ref = None, instance_type = None,
     min_rental_seconds = 900, max_hourly_usd = 4, max_daily_usd = 2,
     terminate_when_idle_seconds = 600, trust = Map.empty\<rparr>"

definition rented_node :: provider_config where
  "rented_node = free_tier\<lparr>provider_id := ''gpu'', p_type := ''local'', node_class := Some ''rented'',
     rental := Some small_rental\<rparr>"

lemma free_tier_limited: "limited free_tier" "prices_nonneg free_tier"
  by code_simp+

lemma ledger0_ok: "fresh_rid ledger0" "distinct (map fst (reservations ledger0))"
    "ledger_inv free_tier ledger0" "caps_hold free_tier ledger0"
  by code_simp+

theorem window_start_witness:
  "window_start 90000 (p_quota free_tier) = 86400 \<and> window_start 90000 (p_quota free_tier) \<le> 90000"
proof -
  have "window_start 90000 (p_quota free_tier) = 86400" by code_simp
  then show ?thesis using window_start_correct [of 90000 "p_quota free_tier" 90000] by simp
qed

theorem reserve_within_caps_witness:
  "qr_granted (fst reserved0) \<and> held_requests free_tier (snd reserved0) = 1
   \<and> under_cap (req_cap (p_quota free_tier)) (of_int (held_requests free_tier (snd reserved0)))"
proof -
  have "qr_granted (fst reserved0)" "held_requests free_tier (snd reserved0) = 1" by code_simp+
  then show ?thesis
    using reserve_within_caps [OF free_tier_limited(1) ledger0_ok(1), of "''t''" 30 20 120
        "fst reserved0" "snd reserved0"] by (simp add: reserved0_def)
qed


theorem reserve_settles_witness:
  "qr_granted (fst reserved0)
   \<and> held_tokens free_tier (reconcile no_threads (fst reserved0) free_tier 10 5 ''completed'' None (snd reserved0))
      = held_tokens free_tier ledger0 + 15"
proof -
  have "qr_granted (fst reserved0)" by code_simp
  then show ?thesis
    using reserve_settles [of free_tier "''t''" 30 20 120 ledger0 "fst reserved0" "snd reserved0" "''completed''" 10 5 None]
      ledger0_ok(1,2) by (simp add: reserved0_def)
qed

theorem rental_within_daily_cap_witness:
  "fst (can_reserve_rental rented_node ledger0)
   \<and> fst (record_rental_window rented_node ''t'' 900 ''rented'' ledger0) = 1
   \<and> u_cost (quota_usage_since (memory (snd (record_rental_window rented_node ''t'' 900 ''rented'' ledger0))) ''gpu'' 86400) \<le> 2"
proof -
  have *: "fst (can_reserve_rental rented_node ledger0)" "day_start (clock (memory ledger0)) = 86400"
    "u_cost (quota_usage_since (memory ledger0) ''gpu'' 86400) = 0" "provider_id rented_node = ''gpu''"
    "fst (record_rental_window rented_node ''t'' 900 ''rented'' ledger0) = 1" "max_daily_usd small_rental = 2"
    by code_simp+
  have r: "rental rented_node = Some small_rental" "0 < max_daily_usd small_rental"
    "0 \<le> min_rental_seconds small_rental" "real_of_int (min_rental_seconds small_rental) = 900"
    by (simp_all add: rented_node_def small_rental_def)
  note w = rental_within_daily_cap [OF r(1-3) *(1), unfolded r(4), OF prod.collapse [symmetric]]
  show ?thesis
    using conjunct1 [OF conjunct2 [OF w [of "''t''" "''rented''"]]] *(1,5) unfolding *(2,3,4,6) by simp
qed

text \<open>The lock of the ledger does not cover the check and the entry together: with a cap of one
  request, a second thread that reserves between the check and the entry of the first is granted
  as well, and two requests are promised.\<close>

theorem reserve_race_passes_cap:
  "case reserve (\<lambda>k L. if k = 1 then snd (reserve no_threads free_tier ''b'' 1 1 120 L) else L)
          free_tier ''a'' 1 1 120 ledger0 of (r, L') \<Rightarrow>
     req_cap (p_quota free_tier) = Some 1 \<and> qr_granted r
     \<and> map (lr_task_id \<circ> snd) (reservations L') = [''b'', ''a'']
     \<and> held_requests free_tier L' = 2"
  by code_simp

end
