(* ===== verification/Budget_Theorems.thy ===== *)
theory Budget_Theorems
  imports Budget Quota_Theorems
begin

text \<open>
  Correctness of the spend budget: the periods partition time, an amount that was never set admits
  no spending, the affordability check is exact, settings are read back as they were set, the
  pressure signal is bounded, and the meter counts what the quota ledger commits.
\<close>

lemma rbind_simps [simp]: "rbind (Inl e) f = Inl e" "rbind (Inr x) f = f x"
  by (simp_all add: rbind_def)

lemma rbind_Inr: "rbind m f = Inr y \<longleftrightarrow> (\<exists>x. m = Inr x \<and> f x = Inr y)"
  by (cases m) auto

section \<open>Periods\<close>

lemma period_days_correct:
  assumes "period_days p ord = Some (a, n)"
  shows "a \<le> ord \<and> ord < a + n \<and> 1 \<le> n" and "a \<le> ord' \<Longrightarrow> ord' < a + n \<Longrightarrow> period_days p ord' = Some (a, n)"
proof -
  consider "p = ''daily''" "a = ord" "n = 1"
    | "p = ''weekly''" "a = ord - weekday ord" "n = 7"
    | d where "p = ''monthly''" "ord_month ord = (d, n)" "a = ord - d"
    using assms by (auto simp: period_days_def split: if_splits prod.splits)
  then have "(a \<le> ord \<and> ord < a + n \<and> 1 \<le> n) \<and>
    (\<forall>k. 0 \<le> k \<and> k < n \<longrightarrow> period_days p (a + k) = Some (a, n))"
  proof cases
    case 1
    then show ?thesis by (auto simp: period_days_def)
  next
    case 2
    then show ?thesis using weekday_bounds [of ord] weekday_shift [of _ ord] by (simp add: period_days_def)
  next
    case 3
    then show ?thesis using ord_month_correct [OF 3(2)] by (simp add: period_days_def)
  qed
  note * = this
  show "a \<le> ord \<and> ord < a + n \<and> 1 \<le> n" using * by blast
  show "period_days p ord' = Some (a, n)" if "a \<le> ord'" "ord' < a + n"
    using * that by (metis add_diff_cancel_left' diff_add_cancel diff_ge_0_iff_ge add.commute less_diff_eq)
qed

lemma period_window_Inr:
  assumes "period_window now p = Inr (s, e)"
  obtains a n where "period_days p (ordinal_of now) = Some (a, n)" "s = ord_timestamp a"
    "e = ord_timestamp (a + n)" "1 \<le> ordinal_of now" "a + n \<le> MAXORDINAL"
  using assms by (auto simp: period_window_def Let_def split: if_splits option.splits prod.splits)

lemma period_days_lower: "period_days p ord = Some (a, n) \<Longrightarrow> 1 \<le> ord \<Longrightarrow> 1 \<le> a"
proof -
  assume *: "period_days p ord = Some (a, n)" "1 \<le> ord"
  have week: "1 \<le> ord - weekday ord"
  proof -
    have "7 \<le> 7 * ((ord + 6) div 7)" using *(2) by simp
    then show ?thesis using mult_div_mod_eq [of 7 "ord + 6"] unfolding weekday_def by linarith
  qed
  have month: "1 \<le> ord - d" if "ord_month ord = (d, l)" for d l
  proof -
    obtain y yd where y: "ord_year ord = (y, yd)" by fastforce
    note oy = ord_year_correct [OF y]
    have "1 \<le> y"
    proof (rule ccontr)
      assume "\<not> 1 \<le> y"
      then have "days_before_year y + year_len y \<le> days_before_year 1"
        by (intro days_before_year_strict) simp
      then show False using oy *(2) by (simp add: days_before_year_def)
    qed
    then have "days_before_year 1 \<le> days_before_year y"
      using days_before_year_strict [of 1 y] by (cases "y = 1") (auto simp: year_len_def split: if_splits)
    moreover have "0 \<le> yd - d"
      using month_walk_correct [of "month_lens y" yd d l] that y oy month_lens_facts [of y]
      by (force simp: ord_month_def)
    ultimately show ?thesis using oy by (simp add: days_before_year_def)
  qed
  show ?thesis using * week month by (auto simp: period_days_def split: if_splits prod.splits)
qed

lemma period_window_span:
  assumes "period_window now p = Inr (s, e)"
  shows "s \<le> now \<and> now < e
    \<and> (p = ''daily'' \<and> e - s = 86400 \<or> p = ''weekly'' \<and> e - s = 604800
        \<or> p = ''monthly'' \<and> 28 * 86400 \<le> e - s \<and> e - s \<le> 31 * 86400)"
proof -
  obtain a n where w: "period_days p (ordinal_of now) = Some (a, n)" "s = ord_timestamp a"
    "e = ord_timestamp (a + n)"
    using assms by (rule period_window_Inr)
  have "s \<le> now \<and> now < e"
    unfolding w(2,3) ordinal_of_iff using period_days_correct(1) [OF w(1)] by blast
  moreover have "p = ''daily'' \<and> n = 1 \<or> p = ''weekly'' \<and> n = 7 \<or> p = ''monthly'' \<and> 28 \<le> n \<and> n \<le> 31"
    using w(1) ord_month_correct(1) [of "ordinal_of now"]
    by (auto simp: period_days_def split: if_splits prod.splits)
  moreover have "e - s = of_int n * 86400" unfolding w(2,3) by (rule ord_timestamp_diff)
  ultimately show ?thesis by auto
qed

text \<open>Budget periods partition time: the window of an instant contains it, every instant in the
  window has the same window (so spending is metered against one amount exactly once), and it
  spans one day, seven days or the 28 to 31 days of a calendar month.\<close>

theorem period_window_partition:
  assumes "period_window now p = Inr (s, e)"
  shows "s \<le> now \<and> now < e
    \<and> (\<forall>t. s \<le> t \<and> t < e \<longrightarrow> period_window t p = Inr (s, e))
    \<and> (p = ''daily'' \<and> e - s = 86400 \<or> p = ''weekly'' \<and> e - s = 604800
        \<or> p = ''monthly'' \<and> 28 * 86400 \<le> e - s \<and> e - s \<le> 31 * 86400)"
proof -
  obtain a n where w: "period_days p (ordinal_of now) = Some (a, n)" "s = ord_timestamp a"
    "e = ord_timestamp (a + n)" "1 \<le> ordinal_of now" "a + n \<le> MAXORDINAL"
    using assms by (rule period_window_Inr)
  have a1: "1 \<le> a" by (rule period_days_lower [OF w(1,4)])
  have "period_window t p = Inr (s, e)" if "s \<le> t \<and> t < e" for t
    using that [unfolded w(2,3) ordinal_of_iff] period_days_correct(2) [OF w(1), of "ordinal_of t"] a1 w(2,3,5)
    by (simp add: period_window_def)
  then show ?thesis using period_window_span [OF assms] by blast
qed

section \<open>Configuration\<close>

text \<open>There is no default amount: while no budget was set (and policy requires one) nothing can
  be afforded, whatever it costs and whenever it is asked, with the reason \<open>budget_not_configured\<close>;
  the remaining amount, the paced allowance and the pressure are zero, and the status asks for
  \<open>set_budget\<close>.\<close>

theorem budget_fail_closed:
  assumes "get_setting s SETTING_KEY = None" and "require_explicit bm"
  shows "can_afford bm s cost now = Inr (False, ''budget_not_configured'')
    \<and> budget_remaining bm s now = Inr 0 \<and> paced_allowance bm s now = Inr 0 \<and> pressure bm s now = Inr 0
    \<and> budget_status bm s now = Inr (NotConfigured True (suggested_period bm) (Some ''set_budget''))"
  using assms
  by (simp add: can_afford_def is_configured_def config_def budget_remaining_def paced_allowance_def
      pressure_def budget_status_def)

text \<open>Setting a budget: a positive amount with a known period is read back exactly, by any
  manager and whatever was set before, and touches no other setting; an amount that is not
  positive or an unknown period raises and writes nothing.\<close>

theorem set_budget_roundtrip:
  "case set_budget amount p s of (res, s') \<Rightarrow>
     (if 0 < amount \<and> p \<in> {''daily'', ''weekly'', ''monthly''}
      then res = Inr () \<and> config bm s' = Inr (Some \<lparr>amount_usd = amount, period = p\<rparr>)
           \<and> (\<forall>k. k \<noteq> SETTING_KEY \<longrightarrow> get_setting s' k = get_setting s k)
           \<and> quota_records s' = quota_records s
      else (\<exists>m. res = Inl (ValueError m)) \<and> s' = s)"
  by (auto simp: set_budget_def config_def set_setting_def get_setting_def VALID_PERIODS_def
      py_float_def budget_period_def SETTING_KEY_def)

section \<open>Affordability\<close>

text \<open>With a budget set, the affordability check answers exactly whether the cost fits in what the
  period has left (to the tolerance); so a cost that is admitted takes the period's spending at
  most to its amount, up to the tolerance, unless it had been passed before.\<close>

theorem can_afford_exact:
  assumes "config bm s = Inr (Some c)" and "spent bm s now = Inr x"
  shows "can_afford bm s cost now =
      (if cost \<le> max 0 (amount_usd c - x) + EPS then Inr (True, ''budget_ok'')
       else Inr (False, ''period_budget_exhausted''))
    \<and> (can_afford bm s cost now = Inr (True, ''budget_ok'') \<longrightarrow> x + cost \<le> max (amount_usd c) x + EPS)"
proof -
  have 1: "can_afford bm s cost now =
      (if cost \<le> max 0 (amount_usd c - x) + EPS then Inr (True, ''budget_ok'')
       else Inr (False, ''period_budget_exhausted''))"
    using assms by (simp add: can_afford_def is_configured_def budget_remaining_def not_less)
  show ?thesis
  proof (cases "cost \<le> max 0 (amount_usd c - x) + EPS")
    case True
    then show ?thesis using 1 fits_max [of "cost - EPS" "amount_usd c" x] by auto
  next
    case False
    then show ?thesis using 1 by auto
  qed
qed

section \<open>Pacing\<close>

lemma EPS_pos [simp]: "0 < EPS" "EPS < 1" by (simp_all add: EPS_def)

lemma elapsed_exact:
  assumes "window bm s now = Inr (a, b)"
  shows "elapsed_fraction bm s now = Inr ((now - a) / (b - a))" and "0 \<le> (now - a) / (b - a)"
    and "(now - a) / (b - a) < 1"
proof -
  obtain p where "period_window now p = Inr (a, b)" using assms by (auto simp: window_def rbind_Inr)
  from period_window_span [OF this] have w: "a \<le> now" "now < b" "86400 \<le> b - a" by auto
  then show "0 \<le> (now - a) / (b - a)" "(now - a) / (b - a) < 1" by (simp_all add: divide_simps)
  moreover have "\<not> b - a \<le> EPS" using w(3) EPS_pos(2) by linarith
  ultimately show "elapsed_fraction bm s now = Inr ((now - a) / (b - a))"
    using assms w by (simp add: elapsed_fraction_def Let_def)
qed

lemma clamp_max:
  fixes u w :: real
  defines "p \<equiv> max 0 (min 1 (max u w))"
  shows "0 \<le> p \<and> p \<le> 1 \<and> (p = 1 \<longleftrightarrow> 1 \<le> u \<or> 1 \<le> w) \<and> (p = 0 \<longleftrightarrow> u \<le> 0 \<and> w \<le> 0)"
  unfolding p_def max_def min_def by (simp, linarith?)

text \<open>The pressure signal is a number between 0 and 1. With an amount above the tolerance it is
  1 exactly when the period's spending has reached the amount or is ahead of the linear
  pace (amount times elapsed share of the window) by at least 15 per cent of it, and 0 exactly
  when nothing has been spent net and the pace is not passed.\<close>

theorem pressure_signal:
  assumes "config bm s = Inr (Some c)" and "EPS < amount_usd c"
    and "window bm s now = Inr (a, b)" and "spent bm s now = Inr x"
  defines "ahead \<equiv> x - amount_usd c * ((now - a) / (b - a))"
  shows "\<exists>p. pressure bm s now = Inr p \<and> 0 \<le> p \<and> p \<le> 1
    \<and> (p = 1 \<longleftrightarrow> amount_usd c \<le> x \<or> max (15 / 100 * amount_usd c) EPS \<le> ahead)
    \<and> (p = 0 \<longleftrightarrow> x \<le> 0 \<and> ahead \<le> 0)"
proof -
  define m where "m = max (15 / 100 * amount_usd c) EPS"
  have a0: "0 < amount_usd c" using EPS_pos(1) assms(2) by (rule less_trans)
  then have pos: "0 < m" "0 < amount_usd c" by (simp_all add: m_def max_def)
  have "pressure bm s now = Inr (max 0 (min 1 (max (x / amount_usd c) (ahead / m))))"
    using assms elapsed_exact [OF assms(3)]
    by (simp add: pressure_def over_pace_usd_def paced_allowance_def ahead_def m_def Let_def)
  moreover have "1 \<le> x / amount_usd c \<longleftrightarrow> amount_usd c \<le> x" "1 \<le> ahead / m \<longleftrightarrow> m \<le> ahead"
    "x / amount_usd c \<le> 0 \<longleftrightarrow> x \<le> 0" "ahead / m \<le> 0 \<longleftrightarrow> ahead \<le> 0"
    using pos by (simp_all add: divide_le_0_iff)
  ultimately show ?thesis
    unfolding m_def [symmetric] using clamp_max [of "x / amount_usd c" "ahead / m"] by simp
qed

section \<open>The meter counts what the ledger commits\<close>

text \<open>Composition with the quota ledger: reconciling a call, or committing a rental window, raises
  the spending of the current budget period by exactly the committed cost, whatever the provider;
  a release leaves it.\<close>

theorem budget_meters_ledger:
  assumes "spent bm (memory L) (clock (memory L)) = Inr x"
    and "st \<noteq> ''reserved''" and "record_rental_window cfg tid secs st L = (cost, L')"
  shows "spent bm (memory (reconcile no_threads r cfg ai ao st why L)) (clock (memory L))
      = Inr (x + estimate_cost_usd cfg ai ao)
    \<and> spent bm (memory L') (clock (memory L)) = Inr (x + cost)
    \<and> spent bm (memory (release r L)) (clock (memory L)) = Inr x"
proof -
  obtain a b where w: "window bm (memory L) (clock (memory L)) = Inr (a, b)"
    and x: "x = total_spend_since (memory L) a"
    using assms(1) by (auto simp: spent_def rbind_Inr split: prod.splits)
  have "a \<le> clock (memory L)"
    using w period_window_span by (auto simp: window_def rbind_Inr)
  moreover have "window bm (m\<lparr>quota_records := rs\<rparr>) t = window bm m t" for m :: db and rs t
    by (simp add: window_def config_def get_setting_def)
  ultimately show ?thesis
    using assms(2,3) w x
    by (auto simp: spent_def reconcile_def record_rental_window_def release_def pop_reservation_def
        record_quota_usage_def no_threads_def total_spend_since_def Let_def)
qed

section \<open>A month with a budget\<close>

definition demo_bm :: budget_manager where
  "demo_bm = \<lparr>require_explicit = True, suggested_period = ''monthly'', float_text = (\<lambda>_. None)\<rparr>"

text \<open>2024-02-10 in a leap year, with 20 dollars for the month.\<close>

definition budget_ledger :: ledger where
  "budget_ledger = ledger0\<lparr>memory := snd (set_budget 20 ''monthly'' (empty_db 1707523200 (\<lambda>n. replicate n CHR ''u'')))\<rparr>"

lemma demo_window: "period_window 1707523200 ''monthly'' = Inr (1706745600, 1709251200)"
  by code_simp

lemma demo_budget:
  "config demo_bm (memory budget_ledger) = Inr (Some \<lparr>amount_usd = 20, period = ''monthly''\<rparr>)"
  "window demo_bm (memory budget_ledger) 1707523200 = Inr (1706745600, 1709251200)"
  "spent demo_bm (memory budget_ledger) 1707523200 = Inr 0"
  "clock (memory budget_ledger) = 1707523200"
  by code_simp+

theorem period_window_witness:
  "period_window 1707523200 ''monthly'' = Inr (1706745600, 1709251200)
   \<and> period_window 1706745600 ''monthly'' = Inr (1706745600, 1709251200)"
  using period_window_partition [OF demo_window] demo_window by auto

theorem budget_fail_closed_witness:
  "can_afford demo_bm (empty_db 0 (\<lambda>_. [])) 0 5 = Inr (False, ''budget_not_configured'')"
  using budget_fail_closed [of "empty_db 0 (\<lambda>_. [])" demo_bm 0 5]
  by (simp add: get_setting_def empty_db_def demo_bm_def)

theorem set_budget_witness:
  "config demo_bm (snd (set_budget 20 ''weekly'' (empty_db 0 (\<lambda>_. []))))
     = Inr (Some \<lparr>amount_usd = 20, period = ''weekly''\<rparr>)"
  using set_budget_roundtrip [where amount = 20 and p = "''weekly''" and s = "empty_db 0 (\<lambda>_. [])" and bm = demo_bm]
  by (simp split: prod.splits)

theorem can_afford_witness:
  "can_afford demo_bm (memory budget_ledger) 20 1707523200 = Inr (True, ''budget_ok'')
   \<and> can_afford demo_bm (memory budget_ledger) 21 1707523200 = Inr (False, ''period_budget_exhausted'')"
  using can_afford_exact [OF demo_budget(1,3), of 20] can_afford_exact [OF demo_budget(1,3), of 21]
  by (simp add: EPS_def)

theorem pressure_signal_witness: "pressure demo_bm (memory budget_ledger) 1707523200 = Inr 0"
  using pressure_signal [OF demo_budget(1) _ demo_budget(2,3)] EPS_pos(2) by (auto simp: divide_simps)

theorem budget_meters_witness:
  "spent demo_bm (memory (snd (record_rental_window rented_node ''t'' 900 ''rented'' budget_ledger))) 1707523200 = Inr 1"
proof -
  have "record_rental_window rented_node ''t'' 900 ''rented'' budget_ledger =
      (1, snd (record_rental_window rented_node ''t'' 900 ''rented'' budget_ledger))"
    by (simp add: record_rental_window_def rented_node_def small_rental_def)
  from budget_meters_ledger [OF _ _ this, of demo_bm 0] show ?thesis
    by (simp add: demo_budget)
qed

end
