(* ===== verification/Routing.thy ===== *)
theory Routing
  imports Privacy Quota
begin

text \<open>
  The routing engine of \<^verbatim>\<open>router/routing.py\<close>: resolution of a capability profile to a local model,
  the hard constraints on a provider, the score of an admissible one, and the choice. The
  engine's configuration, its learned-quality prior and its budget snapshot are a record; the quota
  ledger is threaded because its checks drop expired reservations. Iteration over a Python \<open>set\<close>
  of strings has no fixed order: the first element it yields is the parameter \<open>set_first\<close>.
\<close>

section \<open>Data\<close>

datatype priority = PLow | PNormal | PUrgent

record available_model =
  am_model_id :: string
  am_max_model_len :: int

record manager_status =
  ms_loaded :: "string option"
  ms_available :: "available_model list"
  ms_local_waiting :: int
  ms_oldest_wait_seconds :: int

record routing_context =
  rc_task_id :: string
  rc_privacy_class :: privacy_class
  rc_needed_capabilities :: "string list"
  rc_profile :: "string option"
  rc_require_exact_model :: "string option"
  rc_est_input_tokens :: int
  rc_est_output_tokens :: int
  rc_allow_external :: bool
  rc_allow_paid :: bool
  rc_priority :: priority
  rc_quality :: string
  rc_cloud_safe :: bool
  rc_pending_same_model_batch :: int
  rc_allow_rented :: bool

record model_choice =
  mc_model_id :: "string option"
  mc_switch_required :: bool
  mc_reason :: string

record profile =
  pf_preferred :: "string option"
  pf_acceptable :: "string list"

record profiles_config =
  default_resident_model :: string
  pc_profiles :: "string \<rightharpoonup> profile"
  agent_defaults :: "string \<rightharpoonup> string"

record model_switching =
  prefer_resident_model :: "bool option"
  urgent_switch_allowed :: "bool option"
  avoid_switch_if_current_queue_nonempty :: "bool option"
  min_batch_size_for_switch :: "int option"

record budget_snapshot =
  b_configured :: bool
  b_remaining_usd :: real
  b_pressure :: real
  b_require_explicit :: bool

record routing_engine =
  registry :: provider_registry
  profiles :: profiles_config
  privacy :: routing_privacy
  switching :: model_switching
  weights :: "string \<rightharpoonup> real"
  scarcity_threshold :: real
  learned :: "string \<rightharpoonup> real"
  budget :: budget_snapshot
  set_first :: "string list \<Rightarrow> string"

definition unset_budget :: budget_snapshot where
  "unset_budget = \<lparr>b_configured = False, b_remaining_usd = 0, b_pressure = 0, b_require_explicit = True\<rparr>"

definition set_learned_quality :: "(string \<rightharpoonup> real) \<Rightarrow> routing_engine \<Rightarrow> routing_engine" where
  "set_learned_quality m e = e\<lparr>learned := m\<rparr>"

definition set_budget_state :: "bool \<Rightarrow> real \<Rightarrow> real \<Rightarrow> bool \<Rightarrow> routing_engine \<Rightarrow> routing_engine" where
  "set_budget_state configured rem pres explicit e =
    e\<lparr>budget := \<lparr>b_configured = configured, b_remaining_usd = rem, b_pressure = pres,
      b_require_explicit = explicit\<rparr>\<rparr>"

section \<open>Budget gate\<close>

definition is_rented :: "provider_config \<Rightarrow> bool" where
  "is_rented cfg \<longleftrightarrow> p_type cfg = ''local''
     \<and> (node_class cfg = Some ''rented'' \<or> p_privacy cfg = ''private_rented'')"

definition call_cost :: "provider_config \<Rightarrow> routing_context \<Rightarrow> real" where
  "call_cost cfg ctx =
    (if is_rented cfg then (case rental cfg of None \<Rightarrow> 0 | Some r \<Rightarrow> rental_window_cost r)
     else estimate_cost_usd cfg (rc_est_input_tokens ctx) (rc_est_output_tokens ctx))"

definition budget_gate :: "routing_engine \<Rightarrow> provider_config \<Rightarrow> routing_context \<Rightarrow> string option" where
  "budget_gate e cfg ctx =
    (let b = budget e
     in if b_require_explicit b \<and> \<not> b_configured b then Some ''budget_not_configured''
        else if b_configured b \<and> call_cost cfg ctx > b_remaining_usd b + 1 / 10 ^ 9
          then Some ''period_budget_exhausted''
        else None)"

section \<open>Local models\<close>

definition truthy_name :: "string option \<Rightarrow> bool" where
  "truthy_name n = (case n of None \<Rightarrow> False | Some x \<Rightarrow> x \<noteq> [])"

definition deref :: "routing_engine \<Rightarrow> string option \<Rightarrow> string list \<Rightarrow> string option \<Rightarrow> string option" where
  "deref e loaded available name =
    (if name = Some ''current_resident'' then loaded
     else if name = Some ''any'' then
       (if truthy_name loaded then loaded
        else if available = [] then None else Some (set_first e available))
     else name)"

definition profile_of :: "routing_engine \<Rightarrow> string option \<Rightarrow> string \<Rightarrow> profile" where
  "profile_of e name dflt =
    (case pc_profiles (profiles e) (if truthy_name name then the name else dflt) of
       None \<Rightarrow> \<lparr>pf_preferred = None, pf_acceptable = []\<rparr> | Some p \<Rightarrow> p)"

definition resolve_local_model :: "routing_engine \<Rightarrow> routing_context \<Rightarrow> manager_status \<Rightarrow> model_choice" where
  "resolve_local_model e ctx st =
    (let loaded = ms_loaded st;
         available = map am_model_id (ms_available st)
     in if truthy_name (rc_require_exact_model ctx) then
          (let m = the (rc_require_exact_model ctx)
           in \<lparr>mc_model_id = (if m \<in> set available then Some m else None),
               mc_switch_required = (Some m \<noteq> loaded),
               mc_reason = (if m \<in> set available then ''exact_model_requested'' else ''exact_model_unavailable'')\<rparr>)
        else
          (let prof = profile_of e (rc_profile ctx) ''resident_ok'';
               preferred = pf_preferred prof;
               pref_model = deref e loaded available preferred;
               acceptable = filter (\<lambda>m. m \<in> set available)
                 (List.map_filter (\<lambda>a. deref e loaded available (Some a)) (pf_acceptable prof));
               prefer_resident = (case prefer_resident_model (switching e) of None \<Rightarrow> True | Some b \<Rightarrow> b);
               resident_ok = (case loaded of None \<Rightarrow> False
                 | Some l \<Rightarrow> Some l = pref_model \<or> l \<in> set acceptable
                     \<or> preferred \<in> {Some ''current_resident'', Some ''any''})
           in if prefer_resident \<and> resident_ok
              then \<lparr>mc_model_id = loaded, mc_switch_required = False, mc_reason = ''resident_satisfies_profile''\<rparr>
              else if (case pref_model of None \<Rightarrow> False | Some m \<Rightarrow> m \<in> set available)
              then \<lparr>mc_model_id = pref_model, mc_switch_required = (pref_model \<noteq> loaded), mc_reason = ''preferred_model''\<rparr>
              else case acceptable of
                     m # _ \<Rightarrow> \<lparr>mc_model_id = Some m, mc_switch_required = (Some m \<noteq> loaded), mc_reason = ''acceptable_model''\<rparr>
                   | [] \<Rightarrow>
                       if truthy_name loaded
                       then \<lparr>mc_model_id = loaded, mc_switch_required = False, mc_reason = ''fallback_resident''\<rparr>
                       else \<lparr>mc_model_id = None, mc_switch_required = False, mc_reason = ''no_local_model_available''\<rparr>))"

definition switch_allowed :: "routing_engine \<Rightarrow> routing_context \<Rightarrow> manager_status \<Rightarrow> bool" where
  "switch_allowed e ctx st =
    (let ms = switching e
     in if rc_priority ctx = PUrgent \<and> (case urgent_switch_allowed ms of None \<Rightarrow> True | Some b \<Rightarrow> b) then True
        else if (case avoid_switch_if_current_queue_nonempty ms of None \<Rightarrow> True | Some b \<Rightarrow> b)
                \<and> ms_local_waiting st > 0 then False
        else rc_pending_same_model_batch ctx
               \<ge> (case min_batch_size_for_switch ms of None \<Rightarrow> 4 | Some n \<Rightarrow> n))"

section \<open>Hard constraints\<close>

definition allowed_privacy_tiers :: "routing_engine \<Rightarrow> routing_context \<Rightarrow> string list" where
  "allowed_privacy_tiers e ctx =
    (let tiers = allowed_tiers (privacy e) (privacy_class_value (rc_privacy_class ctx))
     in if rc_allow_rented ctx \<and> rc_privacy_class ctx = repo_sensitive \<and> ''private_rented'' \<notin> set tiers
        then tiers @ [''private_rented''] else tiers)"

definition rented_trust_ok :: "provider_config \<Rightarrow> bool" where
  "rented_trust_ok cfg =
    (let t = (case rental cfg of None \<Rightarrow> Map.empty | Some r \<Rightarrow> trust r)
     in list_all (\<lambda>k. t k = Some True) [''ephemeral'', ''encrypted_volume'', ''own_image'', ''no_external_logging''])"

fun show_digits :: "nat \<Rightarrow> nat \<Rightarrow> string" where
  "show_digits 0 n = []"
| "show_digits (Suc f) n =
    (if n < 10 then [char_of (48 + n)] else show_digits f (n div 10) @ [char_of (48 + n mod 10)])"

definition show_int :: "int \<Rightarrow> string" where
  "show_int i = (if i < 0 then CHR ''-'' # show_digits (Suc (nat (- i))) (nat (- i))
     else show_digits (Suc (nat i)) (nat i))"

definition status_can_accept :: "manager_status \<Rightarrow> model_choice \<Rightarrow> routing_context \<Rightarrow> bool \<times> string" where
  "status_can_accept st choice ctx =
    (case find (\<lambda>m. Some (am_model_id m) = mc_model_id choice) (ms_available st) of
       None \<Rightarrow> (False, ''model_not_available'')
     | Some meta \<Rightarrow>
         (let total_ctx = rc_est_input_tokens ctx + rc_est_output_tokens ctx
          in if total_ctx > am_max_model_len meta
             then (False, ''context_exceeds_max_model_len('' @ show_int total_ctx @ ''>''
                     @ show_int (am_max_model_len meta) @ '')'')
             else (True, ''capacity_available'')))"

definition cloud_eligible ::
  "ledger_peers \<Rightarrow> routing_engine \<Rightarrow> routing_context \<Rightarrow> provider_config \<Rightarrow> ledger \<Rightarrow> (bool \<times> string) \<times> ledger" where
  "cloud_eligible peers e ctx cfg L =
    (if \<not> rc_allow_external ctx then ((False, ''external_routing_not_allowed_for_task''), L)
     else if rc_privacy_class ctx = low_sensitive \<and> \<not> rc_cloud_safe ctx
       then ((False, ''redaction_failed_not_cloud_safe''), L)
     else if p_privacy cfg = ''external_paid'' \<and> \<not> rc_allow_paid ctx
       then ((False, ''paid_routing_not_allowed_for_task''), L)
     else
       (case can_reserve peers cfg (rc_est_input_tokens ctx) (rc_est_output_tokens ctx) L of ((ok, reason), L1) \<Rightarrow>
          if \<not> ok then ((False, reason), L1)
          else if p_privacy cfg = ''external_paid'' then
            (case budget_gate e cfg ctx of Some g \<Rightarrow> ((False, g), L1) | None \<Rightarrow> ((True, []), L1))
          else ((True, []), L1)))"

definition rented_eligible :: "routing_engine \<Rightarrow> routing_context \<Rightarrow> provider_config \<Rightarrow> ledger \<Rightarrow> bool \<times> string" where
  "rented_eligible e ctx cfg L =
    (if rc_privacy_class ctx = repo_sensitive \<and> \<not> rented_trust_ok cfg
     then (False, ''rented_node_trust_policy_unmet'')
     else (case can_reserve_rental cfg L of (ok, reason) \<Rightarrow>
       if \<not> ok then (False, reason)
       else (case budget_gate e cfg ctx of Some g \<Rightarrow> (False, g) | None \<Rightarrow> (True, []))))"

definition local_eligible :: "routing_engine \<Rightarrow> routing_context \<Rightarrow> manager_status option \<Rightarrow> bool \<times> string" where
  "local_eligible e ctx mstat =
    (case mstat of
       None \<Rightarrow> (False, ''local_manager_status_unavailable'')
     | Some st \<Rightarrow>
         (let choice = resolve_local_model e ctx st
          in if mc_model_id choice = None then (False, ''no_eligible_local_model'')
             else (case status_can_accept st choice ctx of (ok, reason) \<Rightarrow>
               if \<not> ok then (False, reason)
               else if mc_switch_required choice \<and> \<not> switch_allowed e ctx st
                 then (False, ''not_loaded_and_switch_threshold_not_met'')
               else (True, []))))"

definition eligibility ::
  "ledger_peers \<Rightarrow> routing_engine \<Rightarrow> routing_context \<Rightarrow> manager_status option \<Rightarrow> provider_config \<Rightarrow> ledger
    \<Rightarrow> (bool \<times> string) \<times> ledger" where
  "eligibility peers e ctx mstat cfg L =
    (let tiers = allowed_privacy_tiers e ctx
     in if tiers = [] then ((False, ''privacy_class_blocks_all_llm_routing''), L)
        else if p_privacy cfg \<notin> set tiers then ((False, ''privacy_policy_blocks_provider_tier''), L)
        else if \<not> is_available (registry e) (provider_id cfg) then ((False, ''provider_unhealthy''), L)
        else if p_type cfg = ''cloud'' then cloud_eligible peers e ctx cfg L
        else if is_rented cfg then (rented_eligible e ctx cfg L, L)
        else if p_type cfg = ''local'' then (local_eligible e ctx mstat, L)
        else ((True, []), L))"

section \<open>Score\<close>

definition ends_with :: "string \<Rightarrow> string \<Rightarrow> bool" where
  "ends_with suf s \<longleftrightarrow> length suf \<le> length s \<and> drop (length s - length suf) s = suf"

definition scarcity_fraction :: "headroom \<Rightarrow> real option" where
  "scarcity_fraction h =
    (case h of
       Unlimited k \<Rightarrow> None
     | Limited rem \<Rightarrow>
         (case map snd (filter (\<lambda>(k, v). ends_with ''_frac'' k) rem) of
            [] \<Rightarrow> None | x # xs \<Rightarrow> Some (fold min xs x)))"

definition profile_preferred :: "routing_engine \<Rightarrow> string option \<Rightarrow> string option" where
  "profile_preferred e name =
    (case pf_preferred (profile_of e name []) of
       None \<Rightarrow> None
     | Some p \<Rightarrow> if p \<in> {''current_resident'', ''any''} then None else Some p)"

record score_breakdown =
  sb_provider :: string
  sb_model :: "string option"
  sb_total :: real
  sb_terms :: "(string \<times> real) list"

definition w_get :: "routing_engine \<Rightarrow> string \<Rightarrow> real \<Rightarrow> real" where
  "w_get e k d = (case weights e k of None \<Rightarrow> d | Some x \<Rightarrow> x)"

definition quality_base :: "string \<Rightarrow> real" where
  "quality_base tier =
    (if tier = ''external_paid'' then 1 else if tier = ''private_rented'' then 95 / 100
     else if tier = ''local_only'' then 85 / 100 else if tier = ''external'' then 60 / 100 else 1 / 2)"

definition privacy_fit :: "string \<Rightarrow> real" where
  "privacy_fit tier =
    (if tier = ''local_only'' then 1 else if tier = ''private_rented'' then 7 / 10 else 1 / 2)"

definition common_terms :: "routing_engine \<Rightarrow> routing_context \<Rightarrow> provider_config \<Rightarrow> (string \<times> real) list" where
  "common_terms e ctx cfg =
    [(''capability_fit'', capability_overlap cfg (rc_needed_capabilities ctx) * w_get e ''capability_fit'' 3),
     (''expected_quality'', (if rc_quality ctx = ''high'' then quality_base (p_privacy cfg) * (115 / 100)
        else quality_base (p_privacy cfg)) * w_get e ''expected_quality'' 2),
     (''privacy_fit'', privacy_fit (p_privacy cfg) * w_get e ''privacy_fit'' (3 / 2)),
     (''availability'', (if is_available (registry e) (provider_id cfg) then 1 else 0)
        * w_get e ''availability'' 1)]"

definition rented_terms :: "routing_engine \<Rightarrow> provider_config \<Rightarrow> ledger \<Rightarrow> (string \<times> real) list" where
  "rented_terms e cfg L =
    (let window_cost = (case rental cfg of None \<Rightarrow> 0 | Some r \<Rightarrow> rental_window_cost r);
         frac = (case rental_remaining_usd cfg None L of None \<Rightarrow> 0
                 | Some rem \<Rightarrow> min 1 (window_cost / max rem (1 / 10 ^ 9)))
     in [(''latency_fit'', 4 / 10 * w_get e ''latency_fit'' 1), (''residency_bonus'', 0),
         (''model_switch_penalty'', 0), (''queue_delay_penalty'', 0), (''cost_penalty'', 0),
         (''opportunity_cost'', 0), (''quota_scarcity_penalty'', 0),
         (''rental_setup_penalty'', - w_get e ''rental_setup_penalty'' 2),
         (''rental_cost_penalty'', - frac * w_get e ''rental_cost_penalty'' 2)])"

definition local_terms :: "routing_engine \<Rightarrow> model_choice \<Rightarrow> manager_status \<Rightarrow> (string \<times> real) list" where
  "local_terms e choice st =
    (let sw = mc_switch_required choice;
         queue_wait = ms_oldest_wait_seconds st + 6 * ms_local_waiting st
     in [(''latency_fit'', (if \<not> sw then 1 else 3 / 10) * w_get e ''latency_fit'' 1),
         (''residency_bonus'', if \<not> sw then w_get e ''residency_bonus'' (5 / 2) else 0),
         (''model_switch_penalty'', - (if sw then w_get e ''model_switch_penalty'' 3 else 0)),
         (''queue_delay_penalty'', - min 1 (of_int queue_wait / 60) * w_get e ''queue_delay_penalty'' (3 / 2)),
         (''cost_penalty'', 0), (''opportunity_cost'', 0)])"

definition cloud_terms ::
  "routing_engine \<Rightarrow> routing_context \<Rightarrow> provider_config \<Rightarrow> headroom \<Rightarrow> (string \<times> real) list" where
  "cloud_terms e ctx cfg rem =
    (let cost = estimate_cost_usd cfg (rc_est_input_tokens ctx) (rc_est_output_tokens ctx);
         scarcity = scarcity_fraction rem;
         local_capable = (rc_privacy_class ctx \<in> {public, low_sensitive, repo_sensitive, restricted})
     in [(''latency_fit'', 6 / 10 * w_get e ''latency_fit'' 1), (''residency_bonus'', 0),
         (''model_switch_penalty'', 0), (''queue_delay_penalty'', 0),
         (''cost_penalty'', if p_privacy cfg = ''external_paid''
            then - min 1 (cost / (5 / 100)) * w_get e ''cost_penalty'' 2 else 0),
         (''quota_scarcity_penalty'', case scarcity of None \<Rightarrow> 0
            | Some f \<Rightarrow> if f < scarcity_threshold e then - (1 - f) * w_get e ''quota_scarcity_penalty'' 2 else 0),
         (''opportunity_cost'', - (if local_capable then 1 / 2 else 0) * w_get e ''opportunity_cost'' (3 / 2))])"

definition prior_terms :: "routing_engine \<Rightarrow> provider_config \<Rightarrow> (string \<times> real) list" where
  "prior_terms e cfg =
    [(''learned_quality'', (case learned e (provider_id cfg) of None \<Rightarrow> 0 | Some q \<Rightarrow> q)
        * w_get e ''learned_quality'' 1),
     (''budget_pressure_penalty'',
        if b_configured (budget e) \<and> (p_privacy cfg = ''external_paid'' \<or> is_rented cfg)
        then - b_pressure (budget e) * w_get e ''budget_pressure_penalty'' 3 else 0)]"

definition score ::
  "ledger_peers \<Rightarrow> routing_engine \<Rightarrow> routing_context \<Rightarrow> manager_status option \<Rightarrow> provider_config \<Rightarrow> ledger
    \<Rightarrow> score_breakdown \<times> ledger" where
  "score peers e ctx mstat cfg L =
    (let (mid, middle, L1) =
       (if is_rented cfg then
          (Some (if truthy_name (rc_require_exact_model ctx) then the (rc_require_exact_model ctx)
                 else case profile_preferred e (rc_profile ctx) of
                        Some m \<Rightarrow> if m = [] then default_resident_model (profiles e) else m
                      | None \<Rightarrow> default_resident_model (profiles e)),
           rented_terms e cfg L, L)
        else case (p_type cfg = ''local'', mstat) of
               (True, Some st) \<Rightarrow>
                 (let choice = resolve_local_model e ctx st
                  in (mc_model_id choice, local_terms e choice st, L))
             | _ \<Rightarrow> (case remaining peers cfg None L of (rem, L') \<Rightarrow> (None, cloud_terms e ctx cfg rem, L')));
         terms = common_terms e ctx cfg @ middle @ prior_terms e cfg
     in (\<lparr>sb_provider = provider_id cfg, sb_model = mid,
          sb_total = py_round 4 (sum_list (map snd terms)), sb_terms = terms\<rparr>, L1))"

section \<open>Route\<close>

record routing_decision =
  rd_task_id :: string
  rd_decision :: string
  rd_selected_provider :: "string option"
  rd_selected_model :: "string option"
  rd_rejected :: "(string \<times> string) list"
  rd_scores :: "score_breakdown list"
  rd_policy_version :: string

fun survey ::
  "ledger_peers \<Rightarrow> routing_engine \<Rightarrow> routing_context \<Rightarrow> manager_status option \<Rightarrow> provider_config list \<Rightarrow> ledger
    \<Rightarrow> (string \<times> string) list \<times> score_breakdown list \<times> ledger" where
  "survey peers e ctx mstat [] L = ([], [], L)"
| "survey peers e ctx mstat (cfg # cfgs) L =
    (case eligibility peers e ctx mstat cfg L of ((ok, reason), L1) \<Rightarrow>
       if \<not> ok then
         (case survey peers e ctx mstat cfgs L1 of (rej, scs, L2) \<Rightarrow>
            ((provider_id cfg, reason) # rej, scs, L2))
       else
         (case score peers e ctx mstat cfg L1 of (sb, L2) \<Rightarrow>
            (case survey peers e ctx mstat cfgs L2 of (rej, scs, L3) \<Rightarrow> (rej, sb # scs, L3))))"

text \<open>\<open>None\<close> is the failure of the assertion that the best score names a registered provider.\<close>

definition route ::
  "ledger_peers \<Rightarrow> routing_engine \<Rightarrow> routing_context \<Rightarrow> manager_status option \<Rightarrow> ledger
    \<Rightarrow> routing_decision option \<times> ledger" where
  "route peers e ctx mstat L =
    (case survey peers e ctx mstat (reg_all (registry e)) L of (rejected, scs, L1) \<Rightarrow>
       (let scores = sort_key (\<lambda>s. - sb_total s) scs;
            pv = policy_version (reg_config (registry e))
        in case scores of
             [] \<Rightarrow>
               (Some \<lparr>rd_task_id = rc_task_id ctx,
                  rd_decision = (if allowed_privacy_tiers e ctx = [] then ''blocked_secret_sensitive''
                                 else ''no_eligible_provider''),
                  rd_selected_provider = None, rd_selected_model = None, rd_rejected = rejected,
                  rd_scores = scores, rd_policy_version = pv\<rparr>, L1)
           | best # _ \<Rightarrow>
               (case reg_get (registry e) (sb_provider best) of
                  None \<Rightarrow> (None, L1)
                | Some cfg \<Rightarrow>
                    (let decision =
                       (if is_rented cfg then ''route_to_rented_node''
                        else if p_type cfg = ''local'' then
                          (if (case mstat of None \<Rightarrow> False
                               | Some st \<Rightarrow> mc_switch_required (resolve_local_model e ctx st))
                           then ''route_to_local_after_switch'' else ''route_to_local_resident_model'')
                        else ''route_to_cloud_provider'')
                     in (Some \<lparr>rd_task_id = rc_task_id ctx, rd_decision = decision,
                           rd_selected_provider = Some (sb_provider best), rd_selected_model = sb_model best,
                           rd_rejected = rejected, rd_scores = scores, rd_policy_version = pv\<rparr>, L1)))))"

end
