(* ===== verification/Routing_Theorems.thy ===== *)
theory Routing_Theorems
  imports Routing Quota_Theorems "HOL-Library.Multiset"
begin

text \<open>
  Correctness of the routing engine: what a selected provider is guaranteed to satisfy, that the
  choice is the best score with ties to the earlier registration, that every provider is accounted
  for, and that a class without tiers reaches no provider.
\<close>

section \<open>The view of the ledger during one call\<close>

text \<open>The checks drop expired reservations and change nothing else, so every provider of one call is
  judged on the same ledger.\<close>

definition same_view :: "ledger \<Rightarrow> ledger \<Rightarrow> bool" where
  "same_view L L' \<longleftrightarrow> L' = L \<or> L' = expire (clock (memory L)) L"

lemma expire_twice [simp]: "expire t (expire t L) = expire t L"
  by (simp add: expire_def)

lemma remaining_view:
  assumes "same_view L L'"
  shows "remaining no_threads cfg None L' = remaining no_threads cfg None L"
    and "snd (remaining no_threads cfg None L) = expire (clock (memory L)) L"
proof -
  show "remaining no_threads cfg None L' = remaining no_threads cfg None L"
    using assms by (auto simp: same_view_def remaining_def)
  show "snd (remaining no_threads cfg None L) = expire (clock (memory L)) L"
    by (simp add: remaining_def no_threads_def Let_def split: prod.splits)
qed

lemma can_reserve_view:
  "same_view L L' \<Longrightarrow> can_reserve no_threads cfg i j L' = can_reserve no_threads cfg i j L"
  by (simp add: can_reserve_def remaining_view(1))

lemma same_view_memory: "same_view L L' \<Longrightarrow> memory L' = memory L"
  by (auto simp: same_view_def)

lemma rental_view:
  assumes "same_view L L'"
  shows "can_reserve_rental cfg L' = can_reserve_rental cfg L
     \<and> rental_remaining_usd cfg None L' = rental_remaining_usd cfg None L"
proof -
  have "rental_remaining_usd cfg None L' = rental_remaining_usd cfg None L"
    unfolding rental_remaining_usd_def same_view_memory [OF assms] ..
  then show ?thesis by (cases "rental cfg") (simp_all add: can_reserve_rental_def)
qed

lemma same_view_refl [simp]: "same_view L L" "same_view L (expire (clock (memory L)) L)"
  by (simp_all add: same_view_def)

lemma same_view_expire: "same_view L L' \<Longrightarrow> expire (clock (memory L')) L' = expire (clock (memory L)) L"
  by (auto simp: same_view_def)

lemma eligibility_view:
  assumes "same_view L L'"
  shows "fst (eligibility no_threads e ctx ms cfg L') = fst (eligibility no_threads e ctx ms cfg L)"
    and "same_view L (snd (eligibility no_threads e ctx ms cfg L'))"
proof -
  have c: "fst (cloud_eligible no_threads e ctx cfg L') = fst (cloud_eligible no_threads e ctx cfg L)"
    unfolding cloud_eligible_def can_reserve_view [OF assms]
    by (simp split: if_splits prod.splits option.splits)
  have v: "same_view L (snd (cloud_eligible no_threads e ctx cfg L'))"
    using assms can_reserve_frame [of cfg "rc_est_input_tokens ctx" "rc_est_output_tokens ctx" L]
    unfolding cloud_eligible_def can_reserve_view [OF assms]
    by (auto split: prod.splits option.splits)
  show "fst (eligibility no_threads e ctx ms cfg L') = fst (eligibility no_threads e ctx ms cfg L)"
    using c rental_view [OF assms, of cfg] by (simp add: eligibility_def Let_def rented_eligible_def)
  show "same_view L (snd (eligibility no_threads e ctx ms cfg L'))"
    using v assms by (simp add: eligibility_def Let_def)
qed

lemma score_view:
  assumes "same_view L L'"
  shows "fst (score no_threads e ctx ms cfg L') = fst (score no_threads e ctx ms cfg L)"
    and "same_view L (snd (score no_threads e ctx ms cfg L'))"
proof -
  have r: "rented_terms e cfg L' = rented_terms e cfg L"
    using rental_view [OF assms, of cfg] by (simp add: rented_terms_def)
  show "fst (score no_threads e ctx ms cfg L') = fst (score no_threads e ctx ms cfg L)"
    unfolding score_def r remaining_view(1) [OF assms] Let_def
    by (cases ms; cases "p_type cfg = ''local''") (simp_all split: prod.splits)
  show "same_view L (snd (score no_threads e ctx ms cfg L'))"
    using assms remaining_view(2) [of L L cfg]
    unfolding score_def remaining_view(1) [OF assms] Let_def
    by (cases ms; cases "p_type cfg = ''local''") (auto split: prod.splits)
qed

definition ok_for :: "routing_engine \<Rightarrow> routing_context \<Rightarrow> manager_status option \<Rightarrow> ledger \<Rightarrow> provider_config \<Rightarrow> bool" where
  "ok_for e ctx ms L cfg \<longleftrightarrow> fst (fst (eligibility no_threads e ctx ms cfg L))"

definition why_not :: "routing_engine \<Rightarrow> routing_context \<Rightarrow> manager_status option \<Rightarrow> ledger \<Rightarrow> provider_config \<Rightarrow> string" where
  "why_not e ctx ms L cfg = snd (fst (eligibility no_threads e ctx ms cfg L))"

definition score_for ::
  "routing_engine \<Rightarrow> routing_context \<Rightarrow> manager_status option \<Rightarrow> ledger \<Rightarrow> provider_config \<Rightarrow> score_breakdown" where
  "score_for e ctx ms L cfg = fst (score no_threads e ctx ms cfg L)"

lemma survey_pure:
  assumes "same_view L L'"
  shows "\<exists>L''. survey no_threads e ctx ms cfgs L' =
      (map (\<lambda>c. (provider_id c, why_not e ctx ms L c)) (filter (\<lambda>c. \<not> ok_for e ctx ms L c) cfgs),
       map (score_for e ctx ms L) (filter (ok_for e ctx ms L) cfgs), L'')
    \<and> same_view L L''"
  using assms
proof (induction cfgs arbitrary: L')
  case (Cons c cs)
  obtain ok why L1 where el: "eligibility no_threads e ctx ms c L' = ((ok, why), L1)"
    by (metis prod.collapse)
  note ev = eligibility_view [OF Cons.prems, of e ctx ms c]
  have v1: "same_view L L1" and ok: "ok = ok_for e ctx ms L c" and why: "why = why_not e ctx ms L c"
    using ev el by (simp_all add: ok_for_def why_not_def prod_eq_iff)
  show ?case
  proof (cases ok)
    case True
    obtain sb L2 where sc: "score no_threads e ctx ms c L1 = (sb, L2)" by fastforce
    have "same_view L L2" "sb = score_for e ctx ms L c"
      using score_view [OF v1, of e ctx ms c] sc by (simp_all add: score_for_def prod_eq_iff)
    then show ?thesis using True Cons.IH [of L2] el sc ok by auto
  next
    case False
    then show ?thesis using Cons.IH [OF v1] el ok why by auto
  qed
qed auto

section \<open>Best of a list\<close>

lemma best_of_list:
  fixes f :: "'a \<Rightarrow> real"
  assumes "sort_key (\<lambda>x. - f x) xs = b # bs"
  shows "b \<in> set xs" and "x \<in> set xs \<Longrightarrow> f x \<le> f b" and "find (\<lambda>x. f x = f b) xs = Some b"
proof -
  show "b \<in> set xs" using assms by (metis list.set_intros(1) set_sort)
  have "sorted (map (\<lambda>x. - f x) (b # bs))" using assms sorted_sort_key [of "\<lambda>x. - f x" xs] by simp
  then show "f x \<le> f b" if "x \<in> set xs" for x
    using that assms set_sort [of "\<lambda>x. - f x" xs] by auto
  have "filter (\<lambda>x. - f x = - f b) xs = filter (\<lambda>x. - f x = - f b) (b # bs)"
    using sort_key_stable [of "\<lambda>x. - f x" "- f b" xs] assms by simp
  then have "filter (\<lambda>x. f x = f b) xs = b # filter (\<lambda>x. f x = f b) bs" by simp
  then show "find (\<lambda>x. f x = f b) xs = Some b"
    by (induction xs) (auto split: if_splits)
qed

section \<open>Route\<close>

abbreviation total_for :: "routing_engine \<Rightarrow> routing_context \<Rightarrow> manager_status option \<Rightarrow> ledger \<Rightarrow> provider_config \<Rightarrow> real" where
  "total_for e ctx ms L p \<equiv> sb_total (score_for e ctx ms L p)"

lemma sb_provider_score_for [simp]: "sb_provider (score_for e ctx ms L p) = provider_id p"
  by (simp add: score_for_def score_def Let_def split: prod.splits)

definition ranked :: "routing_engine \<Rightarrow> routing_context \<Rightarrow> manager_status option \<Rightarrow> ledger \<Rightarrow> provider_config list" where
  "ranked e ctx ms L = sort_key (\<lambda>p. - total_for e ctx ms L p) (filter (ok_for e ctx ms L) (reg_all (registry e)))"

lemma sort_key_map: "sort_key f (map g xs) = map g (sort_key (f \<circ> g) xs)"
proof -
  have ins: "insort_key f (g x) (map g ys) = map g (insort_key (\<lambda>x. f (g x)) x ys)" for x ys
    by (induction ys) auto
  show ?thesis unfolding sort_key_def comp_def by (induction xs) (simp_all add: ins)
qed

text \<open>The whole decision as a function of the ranked providers.\<close>

lemma route_pure:
  assumes "registry_ok (reg_config (registry e))"
  shows "\<exists>d L'. route no_threads e ctx ms L = (Some d, L')
    \<and> rd_rejected d = map (\<lambda>c. (provider_id c, why_not e ctx ms L c))
        (filter (\<lambda>c. \<not> ok_for e ctx ms L c) (reg_all (registry e)))
    \<and> rd_scores d = map (score_for e ctx ms L) (ranked e ctx ms L)
    \<and> rd_selected_provider d = (case ranked e ctx ms L of [] \<Rightarrow> None | p # _ \<Rightarrow> Some (provider_id p))
    \<and> rd_selected_model d = (case ranked e ctx ms L of [] \<Rightarrow> None | p # _ \<Rightarrow> sb_model (score_for e ctx ms L p))
    \<and> (ranked e ctx ms L = [] \<longrightarrow> rd_decision d = (if allowed_privacy_tiers e ctx = []
          then ''blocked_secret_sensitive'' else ''no_eligible_provider''))
    \<and> rd_task_id d = rc_task_id ctx \<and> same_view L L'"
proof -
  obtain L' where sv: "survey no_threads e ctx ms (reg_all (registry e)) L =
      (map (\<lambda>c. (provider_id c, why_not e ctx ms L c)) (filter (\<lambda>c. \<not> ok_for e ctx ms L c) (reg_all (registry e))),
       map (score_for e ctx ms L) (filter (ok_for e ctx ms L) (reg_all (registry e))), L')"
    and v: "same_view L L'"
    using survey_pure [of L L e ctx ms "reg_all (registry e)"] by auto
  have sk: "sort_key (\<lambda>s. - sb_total s) (map (score_for e ctx ms L) (filter (ok_for e ctx ms L) (reg_all (registry e))))
      = map (score_for e ctx ms L) (ranked e ctx ms L)"
    by (simp add: sort_key_map ranked_def comp_def)
  show ?thesis
  proof (cases "ranked e ctx ms L")
    case Nil
    then show ?thesis using sv v sk by (simp add: route_def Let_def)
  next
    case (Cons p ps)
    then have "p \<in> set (reg_all (registry e))"
      unfolding ranked_def using best_of_list(1) by fastforce
    then have "reg_get (registry e) (provider_id p) = Some p" by (rule reg_get_all [OF assms])
    then show ?thesis using Cons sv v sk by (simp add: route_def Let_def)
  qed
qed

lemma ranked_Cons:
  assumes "ranked e ctx ms L = p # ps"
  shows "p \<in> set (reg_all (registry e))" and "ok_for e ctx ms L p"
    and "q \<in> set (reg_all (registry e)) \<Longrightarrow> ok_for e ctx ms L q \<Longrightarrow> total_for e ctx ms L q \<le> total_for e ctx ms L p"
  using best_of_list(1,2) [OF assms [unfolded ranked_def]] by auto

lemma find_filter: "find P (filter Q xs) = find (\<lambda>x. Q x \<and> P x) xs"
  by (induction xs) auto

lemma ranked_Nil: "ranked e ctx ms L = [] \<longleftrightarrow> (\<forall>p \<in> set (reg_all (registry e)). \<not> ok_for e ctx ms L p)"
proof -
  have "ranked e ctx ms L = [] \<longleftrightarrow> set (ranked e ctx ms L) = {}" by simp
  then show ?thesis by (auto simp: ranked_def)
qed

text \<open>C36. Routing always answers, and answers with the best: a provider is selected exactly when one is
  admissible, the selected one is registered and admissible, no admissible provider scores
  higher, and among equal scores the one registered first is taken.\<close>

theorem route_selects_best:
  assumes "registry_ok (reg_config (registry e))"
  shows "\<exists>d L'. route no_threads e ctx ms L = (Some d, L') \<and>
    (case rd_selected_provider d of
       None \<Rightarrow> \<forall>p \<in> set (reg_all (registry e)). \<not> ok_for e ctx ms L p
     | Some pid \<Rightarrow> \<exists>p. reg_get (registry e) pid = Some p \<and> ok_for e ctx ms L p
         \<and> (\<forall>q \<in> set (reg_all (registry e)). ok_for e ctx ms L q \<longrightarrow> total_for e ctx ms L q \<le> total_for e ctx ms L p)
         \<and> find (\<lambda>q. ok_for e ctx ms L q \<and> total_for e ctx ms L q = total_for e ctx ms L p) (reg_all (registry e)) = Some p)"
proof -
  obtain d L' where r: "route no_threads e ctx ms L = (Some d, L')"
    "rd_selected_provider d = (case ranked e ctx ms L of [] \<Rightarrow> None | p # _ \<Rightarrow> Some (provider_id p))"
    using route_pure [OF assms, of ctx ms L] by blast
  show ?thesis
  proof (cases "ranked e ctx ms L")
    case Nil
    then have "\<forall>p \<in> set (reg_all (registry e)). \<not> ok_for e ctx ms L p" by (simp only: ranked_Nil)
    then show ?thesis using r Nil by simp
  next
    case (Cons p ps)
    note rc = ranked_Cons [OF Cons]
    have "find (\<lambda>q. ok_for e ctx ms L q \<and> total_for e ctx ms L q = total_for e ctx ms L p) (reg_all (registry e)) = Some p"
      using best_of_list(3) [OF Cons [unfolded ranked_def]] by (simp add: find_filter)
    then show ?thesis using Cons r rc reg_get_all [OF assms rc(1)] by auto
  qed
qed

lemma why_not_nonempty: "\<not> ok_for e ctx ms L p \<Longrightarrow> why_not e ctx ms L p \<noteq> []"
proof -
  have can: "\<not> fst (fst (can_reserve no_threads p i j L)) \<Longrightarrow> snd (fst (can_reserve no_threads p i j L)) \<noteq> []" for i j
    by (auto simp: can_reserve_def Let_def split: prod.splits headroom.splits)
  have rent: "\<not> fst (can_reserve_rental p L) \<Longrightarrow> snd (can_reserve_rental p L) \<noteq> []"
    by (auto simp: can_reserve_rental_def split: option.splits)
  have gate: "budget_gate e p ctx = Some g \<Longrightarrow> g \<noteq> []" for g
    by (auto simp: budget_gate_def Let_def split: if_splits)
  have cloud: "\<not> fst (fst (cloud_eligible no_threads e ctx p L)) \<Longrightarrow> snd (fst (cloud_eligible no_threads e ctx p L)) \<noteq> []"
    using can [of "rc_est_input_tokens ctx" "rc_est_output_tokens ctx"] gate by (auto simp: cloud_eligible_def split: prod.splits option.splits if_splits)
  have rented: "\<not> fst (rented_eligible e ctx p L) \<Longrightarrow> snd (rented_eligible e ctx p L) \<noteq> []"
    using rent gate by (auto simp: rented_eligible_def split: prod.splits option.splits if_splits)
  have loc: "\<not> fst (local_eligible e ctx ms) \<Longrightarrow> snd (local_eligible e ctx ms) \<noteq> []"
    by (auto simp: local_eligible_def status_can_accept_def Let_def split: prod.splits option.splits if_splits)
  show "\<not> ok_for e ctx ms L p \<Longrightarrow> why_not e ctx ms L p \<noteq> []"
    using cloud rented loc by (auto simp: ok_for_def why_not_def eligibility_def Let_def split: if_splits)
qed

text \<open>A decision is a complete explanation: every registered provider occurs exactly once, either
  among the scores or among the rejections, each rejection has a reason, and the scores are in
  descending order of their totals, each total being its terms' sum rounded to four digits.\<close>

theorem route_explains:
  assumes "registry_ok (reg_config (registry e))" and "route no_threads e ctx ms L = (Some d, L')"
  shows "mset (map sb_provider (rd_scores d) @ map fst (rd_rejected d)) = mset (map provider_id (reg_all (registry e)))
    \<and> (\<forall>(pid, why) \<in> set (rd_rejected d). why \<noteq> [])
    \<and> sorted_wrt (\<lambda>a b. sb_total b \<le> sb_total a) (rd_scores d)
    \<and> (\<forall>s \<in> set (rd_scores d). sb_total s = py_round 4 (sum_list (map snd (sb_terms s))))"
proof -
  have r: "rd_rejected d = map (\<lambda>c. (provider_id c, why_not e ctx ms L c))
        (filter (\<lambda>c. \<not> ok_for e ctx ms L c) (reg_all (registry e)))"
    "rd_scores d = map (score_for e ctx ms L) (ranked e ctx ms L)"
    using route_pure [OF assms(1), of ctx ms L] assms(2) by auto
  have "mset (ranked e ctx ms L) = mset (filter (ok_for e ctx ms L) (reg_all (registry e)))"
    by (simp add: ranked_def)
  then have "mset (map sb_provider (rd_scores d)) = image_mset provider_id (mset (filter (ok_for e ctx ms L) (reg_all (registry e))))"
    by (simp add: r comp_def)
  then have 1: "mset (map sb_provider (rd_scores d) @ map fst (rd_rejected d)) = mset (map provider_id (reg_all (registry e)))"
    by (simp add: r comp_def flip: image_mset_union)
  have 2: "\<forall>(pid, why) \<in> set (rd_rejected d). why \<noteq> []" using why_not_nonempty by (auto simp: r)
  have "sorted (map (\<lambda>p. - total_for e ctx ms L p) (ranked e ctx ms L))"
    unfolding ranked_def by (rule sorted_sort_key)
  then have 3: "sorted_wrt (\<lambda>a b. sb_total b \<le> sb_total a) (rd_scores d)"
    by (simp add: r sorted_map sorted_wrt_map)
  have 4: "\<forall>s \<in> set (rd_scores d). sb_total s = py_round 4 (sum_list (map snd (sb_terms s)))"
    by (auto simp: r score_for_def score_def Let_def split: prod.splits)
  show ?thesis using 1 2 3 4 by blast
qed

section \<open>What a selected provider satisfies\<close>

definition budget_admits :: "routing_engine \<Rightarrow> provider_config \<Rightarrow> routing_context \<Rightarrow> bool" where
  "budget_admits e p ctx \<longleftrightarrow>
    (b_require_explicit (budget e) \<longrightarrow> b_configured (budget e))
    \<and> (b_configured (budget e) \<longrightarrow> call_cost p ctx \<le> b_remaining_usd (budget e) + 1 / 10 ^ 9)"

lemma budget_gate_None: "budget_gate e p ctx = None \<longleftrightarrow> budget_admits e p ctx"
  by (auto simp: budget_gate_def budget_admits_def Let_def not_less)

lemma cloud_eligibleD:
  assumes "fst (fst (cloud_eligible no_threads e ctx p L))"
  shows "rc_allow_external ctx" and "rc_privacy_class ctx = low_sensitive \<Longrightarrow> rc_cloud_safe ctx"
    and "p_privacy p = ''external_paid'' \<Longrightarrow> rc_allow_paid ctx \<and> budget_admits e p ctx"
    and "fst (fst (can_reserve no_threads p (rc_est_input_tokens ctx) (rc_est_output_tokens ctx) L))"
  using assms
  by (auto simp: cloud_eligible_def budget_gate_None [symmetric] split: if_splits prod.splits option.splits)

lemma rented_eligibleD:
  assumes "fst (rented_eligible e ctx p L)"
  shows "rc_privacy_class ctx = repo_sensitive \<Longrightarrow> rented_trust_ok p"
    and "fst (can_reserve_rental p L)" and "budget_admits e p ctx"
  using assms
  by (auto simp: rented_eligible_def budget_gate_None [symmetric] split: if_splits prod.splits option.splits)

lemma ok_forD:
  assumes "ok_for e ctx ms L p"
  shows "p_privacy p \<in> set (allowed_privacy_tiers e ctx)" and "is_available (registry e) (provider_id p)"
    and "p_type p = ''cloud'' \<Longrightarrow> fst (fst (cloud_eligible no_threads e ctx p L))"
    and "is_rented p \<Longrightarrow> fst (rented_eligible e ctx p L)"
    and "p_type p = ''local'' \<Longrightarrow> \<not> is_rented p \<Longrightarrow> fst (local_eligible e ctx ms)"
  using assms by (auto simp: ok_for_def eligibility_def Let_def is_rented_def split: if_splits)

text \<open>C35. Nothing the score can do overrides a hard constraint: a selected provider is healthy and of a
  tier that the task's privacy class admits; a cloud provider is selected only if the task allows
  external routing and its quota has room, a redaction pass succeeded if the class demands it, and
  a paid one only if the task allows paid routing and the spend budget is set and covers the
  call; a rented node is selected only within the rental and the spend budget and, for
  repository-sensitive tasks, only if its trust settings are met.\<close>

theorem route_respects_policy:
  assumes "registry_ok (reg_config (registry e))" and "route no_threads e ctx ms L = (Some d, L')"
    and "rd_selected_provider d = Some pid"
  shows "\<exists>p. reg_get (registry e) pid = Some p
    \<and> p_privacy p \<in> set (allowed_privacy_tiers e ctx) \<and> is_available (registry e) pid
    \<and> (p_type p = ''cloud'' \<longrightarrow> rc_allow_external ctx
         \<and> (rc_privacy_class ctx = low_sensitive \<longrightarrow> rc_cloud_safe ctx)
         \<and> fst (fst (can_reserve no_threads p (rc_est_input_tokens ctx) (rc_est_output_tokens ctx) L))
         \<and> (p_privacy p = ''external_paid'' \<longrightarrow> rc_allow_paid ctx \<and> budget_admits e p ctx))
    \<and> (is_rented p \<longrightarrow> fst (can_reserve_rental p L) \<and> budget_admits e p ctx
         \<and> (rc_privacy_class ctx = repo_sensitive \<longrightarrow> rented_trust_ok p))"
proof -
  have sel: "rd_selected_provider d = (case ranked e ctx ms L of [] \<Rightarrow> None | p # _ \<Rightarrow> Some (provider_id p))"
    using route_pure [OF assms(1), of ctx ms L] assms(2) by auto
  then obtain p ps where rk: "ranked e ctx ms L = p # ps" and pid: "pid = provider_id p"
    using assms(3) by (auto split: list.splits)
  note ok = ranked_Cons(2) [OF rk]
  have get: "reg_get (registry e) pid = Some p"
    unfolding pid by (rule reg_get_all [OF assms(1) ranked_Cons(1) [OF rk]])
  show ?thesis
    using get ok_forD [OF ok] cloud_eligibleD [of e ctx p L] rented_eligibleD [of e ctx p L]
    by (auto simp: pid)
qed

text \<open>A class with no admitted tier is never routed: no provider is selected whatever the scores,
  the budget and the opt-ins (which widen repository-sensitive tasks only), the decision says so,
  and every provider is rejected for that reason. This is the case of secret-sensitive tasks under
  the shipped policy.\<close>

theorem secret_never_routed:
  assumes "registry_ok (reg_config (registry e))"
    and "allowed_tiers (privacy e) (privacy_class_value (rc_privacy_class ctx)) = []"
    and "rc_privacy_class ctx \<noteq> repo_sensitive \<or> \<not> rc_allow_rented ctx"
    and "route no_threads e ctx ms L = (Some d, L')"
  shows "rd_selected_provider d = None \<and> rd_decision d = ''blocked_secret_sensitive'' \<and> rd_scores d = []
    \<and> rd_rejected d = map (\<lambda>p. (provider_id p, ''privacy_class_blocks_all_llm_routing'')) (reg_all (registry e))"
proof -
  have t: "allowed_privacy_tiers e ctx = []" using assms(2,3) by (auto simp: allowed_privacy_tiers_def Let_def)
  then have no: "\<not> ok_for e ctx ms L p" "why_not e ctx ms L p = ''privacy_class_blocks_all_llm_routing''" for p
    by (simp_all add: ok_for_def why_not_def eligibility_def)
  then have "ranked e ctx ms L = []" by (simp add: ranked_def)
  then show ?thesis
    using route_pure [OF assms(1), of ctx ms L] assms(4) t no by auto
qed

section \<open>Local models\<close>

text \<open>Resolution of a profile: an exact request yields that model or none; otherwise the model
  chosen is installed or the resident one, it needs a switch exactly when it is not the resident
  one, and with the default preference a resident model that satisfies the profile is kept.\<close>

theorem resolve_local_model_sound:
  fixes e ctx st
  defines "c \<equiv> resolve_local_model e ctx st"
  shows "(truthy_name (rc_require_exact_model ctx) \<longrightarrow>
        mc_model_id c \<in> {None, rc_require_exact_model ctx})
    \<and> (\<forall>m. mc_model_id c = Some m \<longrightarrow>
        (m \<in> am_model_id ` set (ms_available st) \<or> ms_loaded st = Some m)
        \<and> mc_switch_required c = (ms_loaded st \<noteq> Some m))
    \<and> (\<not> truthy_name (rc_require_exact_model ctx) \<and> prefer_resident_model (switching e) = None
        \<and> ms_loaded st = Some l
        \<and> pf_preferred (profile_of e (rc_profile ctx) ''resident_ok'') \<in> {Some l, Some ''current_resident'', Some ''any''}
        \<longrightarrow> mc_model_id c = Some l \<and> \<not> mc_switch_required c)"
proof (cases "truthy_name (rc_require_exact_model ctx)")
  case True
  then show ?thesis
    by (auto simp: c_def resolve_local_model_def Let_def truthy_name_def split: option.splits)
next
  case False
  define av where "av = map am_model_id (ms_available st)"
  define prof where "prof = profile_of e (rc_profile ctx) ''resident_ok''"
  define pm where "pm = deref e (ms_loaded st) av (pf_preferred prof)"
  define acc where "acc = filter (\<lambda>m. m \<in> set av)
    (List.map_filter (\<lambda>a. deref e (ms_loaded st) av (Some a)) (pf_acceptable prof))"
  define keepres where "keepres = (case prefer_resident_model (switching e) of None \<Rightarrow> True | Some b \<Rightarrow> b)"
  define fits where "fits = (case ms_loaded st of None \<Rightarrow> False
    | Some l \<Rightarrow> Some l = pm \<or> l \<in> set acc \<or> pf_preferred prof \<in> {Some ''current_resident'', Some ''any''})"
  have c: "c = (if keepres \<and> fits
      then \<lparr>mc_model_id = ms_loaded st, mc_switch_required = False, mc_reason = ''resident_satisfies_profile''\<rparr>
      else if (case pm of None \<Rightarrow> False | Some m \<Rightarrow> m \<in> set av)
      then \<lparr>mc_model_id = pm, mc_switch_required = (pm \<noteq> ms_loaded st), mc_reason = ''preferred_model''\<rparr>
      else case acc of
             m # _ \<Rightarrow> \<lparr>mc_model_id = Some m, mc_switch_required = (Some m \<noteq> ms_loaded st), mc_reason = ''acceptable_model''\<rparr>
           | [] \<Rightarrow> if truthy_name (ms_loaded st)
               then \<lparr>mc_model_id = ms_loaded st, mc_switch_required = False, mc_reason = ''fallback_resident''\<rparr>
               else \<lparr>mc_model_id = None, mc_switch_required = False, mc_reason = ''no_local_model_available''\<rparr>)"
    using False
    unfolding c_def resolve_local_model_def Let_def av_def prof_def pm_def acc_def keepres_def fits_def by simp
  have sub: "set acc \<subseteq> set av" by (auto simp: acc_def)
  have av: "set av = am_model_id ` set (ms_available st)" by (simp add: av_def)
  have 1: "(m \<in> set av \<or> ms_loaded st = Some m) \<and> mc_switch_required c = (ms_loaded st \<noteq> Some m)"
    if "mc_model_id c = Some m" for m
    using that sub unfolding c by (auto split: if_splits option.splits list.splits)
  have 2: "mc_model_id c = Some l \<and> \<not> mc_switch_required c"
    if "prefer_resident_model (switching e) = None" "ms_loaded st = Some l"
      "pf_preferred prof \<in> {Some l, Some ''current_resident'', Some ''any''}"
  proof -
    have "fits" using that by (auto simp: fits_def pm_def deref_def truthy_name_def)
    then show ?thesis unfolding c using that by (simp add: keepres_def)
  qed
  show ?thesis using False 1 2 unfolding av prof_def by blast
qed

section \<open>A registry of a local and a paid provider\<close>

definition local_node :: provider_config where
  "local_node = free_tier\<lparr>provider_id := ''gpu0'', p_type := ''local'', p_privacy := ''local_only'',
     p_quota := \<lparr>q_kind = Some ''local_gpu'', q_reset = None, q_num = Map.empty\<rparr>\<rparr>"

definition paid_cloud :: provider_config where
  "paid_cloud = free_tier\<lparr>provider_id := ''paid'', p_privacy := ''external_paid''\<rparr>"

definition demo_engine :: routing_engine where
  "demo_engine = \<lparr>registry = \<lparr>reg_config = \<lparr>policy_version = ''1'',
       providers = [(''paid'', paid_cloud), (''gpu0'', local_node)]\<rparr>, reg_health = Map.empty\<rparr>,
     profiles = \<lparr>default_resident_model = ''m'', pc_profiles = Map.empty, agent_defaults = Map.empty\<rparr>,
     privacy = default_routing,
     switching = \<lparr>prefer_resident_model = None, urgent_switch_allowed = None,
       avoid_switch_if_current_queue_nonempty = None, min_batch_size_for_switch = None\<rparr>,
     weights = Map.empty, scarcity_threshold = 2 / 10, learned = Map.empty, budget = unset_budget,
     set_first = hd\<rparr>"

definition demo_ctx :: "privacy_class \<Rightarrow> routing_context" where
  "demo_ctx pc = \<lparr>rc_task_id = ''t'', rc_privacy_class = pc, rc_needed_capabilities = [], rc_profile = None,
     rc_require_exact_model = None, rc_est_input_tokens = 10, rc_est_output_tokens = 10,
     rc_allow_external = True, rc_allow_paid = True, rc_priority = PNormal, rc_quality = ''standard'',
     rc_cloud_safe = True, rc_pending_same_model_batch = 0, rc_allow_rented = False\<rparr>"

definition demo_status :: manager_status where
  "demo_status = \<lparr>ms_loaded = Some ''m'', ms_available = [\<lparr>am_model_id = ''m'', am_max_model_len = 100\<rparr>],
     ms_local_waiting = 0, ms_oldest_wait_seconds = 0\<rparr>"

definition demo_route :: "routing_decision option \<times> ledger" where
  "demo_route = route no_threads demo_engine (demo_ctx public) (Some demo_status) ledger0"

lemma demo_registry_ok: "registry_ok (reg_config (registry demo_engine))"
  by code_simp

lemma some_pair: "\<not> Option.is_none (fst x) \<Longrightarrow> x = (Some (the (fst x)), snd x)"
  by (cases x) (auto simp: Option.is_none_def)

lemma demo_route_eq: "route no_threads demo_engine (demo_ctx public) (Some demo_status) ledger0 =
      (Some (the (fst demo_route)), snd demo_route)"
  unfolding demo_route_def by (rule some_pair) code_simp

lemma demo_route_ids: "map provider_id (reg_all (registry demo_engine)) = [''paid'', ''gpu0'']"
  and demo_route_sel: "rd_selected_provider (the (fst demo_route)) = Some ''gpu0''"
    "rd_rejected (the (fst demo_route)) = [(''paid'', ''budget_not_configured'')]"
  by code_simp+

theorem route_selects_best_witness:
  "\<exists>d L'. route no_threads demo_engine (demo_ctx public) (Some demo_status) ledger0 = (Some d, L')
     \<and> rd_selected_provider d = Some ''gpu0''"
proof -
  obtain d L' where "route no_threads demo_engine (demo_ctx public) (Some demo_status) ledger0 = (Some d, L')"
    using route_selects_best [OF demo_registry_ok] by blast
  then show ?thesis using demo_route_sel(1) by (auto simp: demo_route_def)
qed

theorem route_explains_witness:
  "rd_rejected (the (fst demo_route)) = [(''paid'', ''budget_not_configured'')]
   \<and> mset (map sb_provider (rd_scores (the (fst demo_route))) @ [''paid'']) = {#''paid'', ''gpu0''#}"
  using conjunct1 [OF route_explains [OF demo_registry_ok demo_route_eq]] demo_route_sel(2)
  unfolding demo_route_ids by simp

theorem route_respects_policy_witness:
  "\<exists>p. reg_get (registry demo_engine) ''gpu0'' = Some p
     \<and> p_privacy p \<in> set (allowed_privacy_tiers demo_engine (demo_ctx public))"
  using route_respects_policy [OF demo_registry_ok demo_route_eq demo_route_sel(1)] by blast

definition demo_secret :: "routing_decision option \<times> ledger" where
  "demo_secret = route no_threads demo_engine (demo_ctx secret_sensitive) (Some demo_status) ledger0"

theorem secret_never_routed_witness:
  "rd_selected_provider (the (fst demo_secret)) = None
   \<and> rd_decision (the (fst demo_secret)) = ''blocked_secret_sensitive''"
proof -
  have e: "route no_threads demo_engine (demo_ctx secret_sensitive) (Some demo_status) ledger0 =
      (Some (the (fst demo_secret)), snd demo_secret)"
    unfolding demo_secret_def by (rule some_pair) code_simp
  have t: "allowed_tiers (privacy demo_engine) (privacy_class_value (rc_privacy_class (demo_ctx secret_sensitive))) = []"
    by code_simp
  show ?thesis using secret_never_routed [OF demo_registry_ok t _ e] by (simp add: demo_ctx_def)
qed

theorem resolve_local_model_witness:
  "mc_model_id (resolve_local_model demo_engine (demo_ctx public) demo_status) = Some ''m''
   \<and> \<not> mc_switch_required (resolve_local_model demo_engine (demo_ctx public) demo_status)"
proof -
  have "mc_model_id (resolve_local_model demo_engine (demo_ctx public) demo_status) = Some ''m''" by code_simp
  then show ?thesis
    using resolve_local_model_sound [of "demo_ctx public" demo_engine demo_status "''m''"]
    by (simp add: demo_status_def)
qed

end
