(* ===== verification/Approval.thy ===== *)
theory Approval
  imports Prelude
begin

text \<open>
  The human gate on spending: the authorizers of \<^verbatim>\<open>common/authorization.py\<close> and the blocking
  approval queue of \<^verbatim>\<open>common/approval.py\<close>. What other threads do to the queue while an
  authorizer waits is an explicit list of queue operations, split into those before the wait
  ends and those that arrive after the timeout and before the item is taken off the queue.
\<close>

section \<open>Charges and answers\<close>

record charge_request =
  cr_provider :: string
  cr_kind :: string
  cr_estimated_cost_usd :: real
  cr_task_summary :: string
  cr_period :: "string option"
  cr_budget_amount_usd :: "real option"
  cr_remaining_usd :: "real option"

text \<open>What a user interface may resolve an item with: a decision or a form.\<close>

datatype answer = ANone | ABool bool | AForm "(string \<times> col) list"

definition answer_truthy :: "answer \<Rightarrow> bool" where
  "answer_truthy a = (case a of ANone \<Rightarrow> False | ABool b \<Rightarrow> b | AForm d \<Rightarrow> d \<noteq> [])"

type_synonym budget_answer = "real \<times> string"

section \<open>Authorizers without a queue\<close>

definition denying_request_budget :: "string \<Rightarrow> budget_answer option" where
  "denying_request_budget suggested = None"

definition denying_confirm_charge :: "charge_request \<Rightarrow> bool" where
  "denying_confirm_charge req = False"

definition auto_request_budget :: "real \<Rightarrow> string \<Rightarrow> string \<Rightarrow> budget_answer option" where
  "auto_request_budget amount p suggested = Some (amount, if suggested \<noteq> [] then suggested else p)"

definition auto_confirm_charge :: "charge_request \<Rightarrow> bool" where
  "auto_confirm_charge req = True"

definition callback_request_budget ::
  "(string \<Rightarrow> budget_answer option) option \<Rightarrow> string \<Rightarrow> budget_answer option" where
  "callback_request_budget fn suggested = (case fn of None \<Rightarrow> None | Some f \<Rightarrow> f suggested)"

definition callback_confirm_charge :: "(charge_request \<Rightarrow> bool) \<Rightarrow> charge_request \<Rightarrow> bool" where
  "callback_confirm_charge fn req = fn req"

text \<open>The console reads lines: \<open>strip\<close>, \<open>lower\<close> and \<open>float\<close> are the language's functions on text.\<close>

record console =
  strip :: "string \<Rightarrow> string"
  lower :: "string \<Rightarrow> string"
  parse_float :: "string \<Rightarrow> real option"

definition console_request_budget ::
  "console \<Rightarrow> string \<Rightarrow> string \<Rightarrow> string \<Rightarrow> budget_answer option" where
  "console_request_budget c amount_line period_line suggested =
    (let raw = strip c amount_line
     in if raw = [] then None
        else case parse_float c raw of
               None \<Rightarrow> None
             | Some amount \<Rightarrow>
                 if amount \<le> 0 then None
                 else (let p = strip c period_line
                       in Some (amount, if p = [] then suggested else p)))"

definition console_confirm_charge :: "console \<Rightarrow> string \<Rightarrow> bool" where
  "console_confirm_charge c line = (lower c (strip c line) \<in> {''y'', ''yes''})"

section \<open>The queue\<close>

record pending_approval =
  pa_kind :: string
  pa_text :: string
  pa_payload :: "(string \<times> col) list"
  pa_created_at :: real
  pa_event :: bool
  pa_result :: answer

record approval_queue =
  aq_items :: "(string \<times> pending_approval) list"
  aq_uuids :: "nat \<Rightarrow> string"
  aq_next :: nat

definition appr_id :: "approval_queue \<Rightarrow> string" where
  "appr_id q = ''appr_'' @ take 12 (aq_uuids q (aq_next q))"

definition submit ::
  "string \<Rightarrow> string \<Rightarrow> (string \<times> col) list \<Rightarrow> real \<Rightarrow> approval_queue \<Rightarrow> string \<times> approval_queue" where
  "submit kind desc payload now q =
    (appr_id q,
     q\<lparr>aq_items := AList.update (appr_id q)
         \<lparr>pa_kind = kind, pa_text = desc, pa_payload = payload, pa_created_at = now,
          pa_event = False, pa_result = ANone\<rparr> (aq_items q),
       aq_next := Suc (aq_next q)\<rparr>)"

definition aq_get :: "approval_queue \<Rightarrow> string \<Rightarrow> pending_approval option" where
  "aq_get q i = map_of (aq_items q) i"

definition to_public :: "string \<Rightarrow> pending_approval \<Rightarrow> (string \<times> col) list" where
  "to_public i p = fold (\<lambda>(k, v) d. AList.update k v d) (pa_payload p)
     [(''id'', CText i), (''kind'', CText (pa_kind p)), (''text'', CText (pa_text p))]"

definition pending :: "approval_queue \<Rightarrow> (string \<times> col) list list" where
  "pending q = map (\<lambda>(i, p). to_public i p) (filter (\<lambda>(i, p). \<not> pa_event p) (aq_items q))"

definition resolve :: "string \<Rightarrow> answer \<Rightarrow> approval_queue \<Rightarrow> bool \<times> approval_queue" where
  "resolve i res q =
    (case map_of (aq_items q) i of
       None \<Rightarrow> (False, q)
     | Some p \<Rightarrow>
         if pa_event p then (False, q)
         else (True, q\<lparr>aq_items := AList.update i (p\<lparr>pa_result := res, pa_event := True\<rparr>) (aq_items q)\<rparr>))"

definition pop_item :: "string \<Rightarrow> approval_queue \<Rightarrow> approval_queue" where
  "pop_item i q = q\<lparr>aq_items := AList.delete i (aq_items q)\<rparr>"

text \<open>What another thread may do: submit an item, resolve one, or take off the item it waited for
  (which is never the item of this waiter: identifiers are drawn afresh).\<close>

datatype aq_op =
    Submit string string "(string \<times> col) list" real
  | Resolve string answer
  | Take string

fun aq_run :: "aq_op \<Rightarrow> approval_queue \<Rightarrow> approval_queue" where
  "aq_run (Submit k d p t) q = snd (submit k d p t q)"
| "aq_run (Resolve i a) q = snd (resolve i a q)"
| "aq_run (Take i) q = pop_item i q"

definition aq_wait :: "string \<Rightarrow> aq_op list \<Rightarrow> aq_op list \<Rightarrow> approval_queue \<Rightarrow> (bool \<times> answer) \<times> approval_queue" where
  "aq_wait i during late q =
    (let q1 = fold aq_run during q;
         p = map_of (aq_items q1) i;
         done = (case p of None \<Rightarrow> False | Some x \<Rightarrow> pa_event x);
         res = (case p of None \<Rightarrow> ANone | Some x \<Rightarrow> if pa_event x then pa_result x else ANone);
         q2 = (if done then q1 else fold aq_run late q1)
     in ((done, res), pop_item i q2))"

section \<open>The web authorizer\<close>

definition charge_payload :: "charge_request \<Rightarrow> (string \<times> col) list" where
  "charge_payload req =
    (let num = (\<lambda>x. case x of None \<Rightarrow> CNull | Some r \<Rightarrow> CReal r)
     in [(''provider'', CText (cr_provider req)), (''kind_of_spend'', CText (cr_kind req)),
         (''estimated_cost_usd'', CReal (cr_estimated_cost_usd req)),
         (''period'', case cr_period req of None \<Rightarrow> CNull | Some p \<Rightarrow> CText p),
         (''budget_amount_usd'', num (cr_budget_amount_usd req)),
         (''remaining_usd'', num (cr_remaining_usd req))])"

text \<open>\<open>describe\<close> is the human-readable text of the request.\<close>

definition web_confirm_charge ::
  "(charge_request \<Rightarrow> string) \<Rightarrow> aq_op list \<Rightarrow> aq_op list \<Rightarrow> real \<Rightarrow> charge_request \<Rightarrow> approval_queue
    \<Rightarrow> bool \<times> approval_queue" where
  "web_confirm_charge describe during late now req q =
    (case submit ''charge'' (describe req) (charge_payload req) now q of (i, q1) \<Rightarrow>
       (case aq_wait i during late q1 of ((done, res), q2) \<Rightarrow>
          if \<not> done then (False, q2) else (answer_truthy res, q2)))"

definition web_request_budget ::
  "(string \<Rightarrow> real option) \<Rightarrow> aq_op list \<Rightarrow> aq_op list \<Rightarrow> real \<Rightarrow> string \<Rightarrow> approval_queue
    \<Rightarrow> (real \<times> col) option \<times> approval_queue" where
  "web_request_budget float_text during late now suggested q =
    (case submit ''budget''
        (''Set a spend budget (suggested period: '' @ suggested @ '') to enable paid/rented.'')
        [(''suggested_period'', CText suggested)] now q of (i, q1) \<Rightarrow>
       (case aq_wait i during late q1 of ((done, res), q2) \<Rightarrow>
          if \<not> done \<or> \<not> answer_truthy res then (None, q2)
          else case res of
                 AForm d \<Rightarrow>
                   (let amount = (case map_of d ''amount_usd'' of
                          Some (CReal x) \<Rightarrow> Some x | Some (CInt x) \<Rightarrow> Some (of_int x)
                        | Some (CText t) \<Rightarrow> float_text t | _ \<Rightarrow> None)
                    in case amount of
                         None \<Rightarrow> (None, q2)
                       | Some x \<Rightarrow>
                           if x \<le> 0 then (None, q2)
                           else (Some (x, case map_of d ''period'' of None \<Rightarrow> CText suggested | Some p \<Rightarrow> p), q2))
               | _ \<Rightarrow> (None, q2)))"

section \<open>An item gets the first answer given to it\<close>

fun first_answer :: "string \<Rightarrow> aq_op list \<Rightarrow> answer option" where
  "first_answer i [] = None"
| "first_answer i (Resolve j a # ops) = (if i = j then Some a else first_answer i ops)"
| "first_answer i (op # ops) = first_answer i ops"

definition ids_from :: "approval_queue \<Rightarrow> nat \<Rightarrow> string" where
  "ids_from q k = ''appr_'' @ take 12 (aq_uuids q k)"

text \<open>The identifier of the next item is not on the queue and is not drawn again.\<close>

definition next_fresh :: "approval_queue \<Rightarrow> bool" where
  "next_fresh q \<longleftrightarrow> appr_id q \<notin> fst ` set (aq_items q) \<and> (\<forall>k > aq_next q. ids_from q k \<noteq> appr_id q)"

lemma map_of_update: "map_of (AList.update k v al) j = (if j = k then Some v else map_of al j)"
  by (simp add: update_conv')

lemma map_of_AList_delete: "map_of (AList.delete k al) j = (if j = k then None else map_of al j)"
  by (simp add: delete_conv')

lemma aq_run_frame: "aq_uuids (aq_run op q) = aq_uuids q \<and> aq_next q \<le> aq_next (aq_run op q)"
  by (cases op) (auto simp: submit_def resolve_def pop_item_def split: option.split)

lemma aq_run_item:
  assumes "map_of (aq_items q) i = Some p" and "op \<noteq> Take i" and "\<forall>k \<ge> aq_next q. ids_from q k \<noteq> i"
  shows "map_of (aq_items (aq_run op q)) i =
    Some (if pa_event p then p
          else case op of Resolve j a \<Rightarrow> if j = i then p\<lparr>pa_result := a, pa_event := True\<rparr> else p | _ \<Rightarrow> p)"
proof (cases op)
  case (Submit k d pl t)
  have "appr_id q \<noteq> i" using assms(3) by (auto simp: appr_id_def ids_from_def)
  then show ?thesis using Submit assms(1) by (auto simp: submit_def map_of_update)
next
  case (Resolve j a)
  then show ?thesis using assms(1) by (auto simp: resolve_def map_of_update split: option.split)
next
  case (Take j)
  then show ?thesis using assms by (auto simp: pop_item_def map_of_AList_delete)
qed

lemma ids_from_run: "ids_from (aq_run op q) = ids_from q"
  using aq_run_frame [of op q] by (auto simp: ids_from_def)

lemma aq_fold_item:
  assumes "map_of (aq_items q) i = Some p" and "Take i \<notin> set ops" and "\<forall>k \<ge> aq_next q. ids_from q k \<noteq> i"
  shows "map_of (aq_items (fold aq_run ops q)) i =
    Some (if pa_event p then p
          else case first_answer i ops of None \<Rightarrow> p | Some a \<Rightarrow> p\<lparr>pa_result := a, pa_event := True\<rparr>)"
  using assms
proof (induction ops arbitrary: q p)
  case (Cons op ops)
  define p' where "p' = (if pa_event p then p
    else case op of Resolve j a \<Rightarrow> if j = i then p\<lparr>pa_result := a, pa_event := True\<rparr> else p | _ \<Rightarrow> p)"
  have "map_of (aq_items (aq_run op q)) i = Some p'"
    unfolding p'_def using Cons.prems by (intro aq_run_item) auto
  moreover have "\<forall>k \<ge> aq_next (aq_run op q). ids_from (aq_run op q) k \<noteq> i"
    using Cons.prems(3) aq_run_frame [of op q] ids_from_run [of op q] by auto
  ultimately have "map_of (aq_items (fold aq_run (op # ops) q)) i =
    Some (if pa_event p' then p'
          else case first_answer i ops of None \<Rightarrow> p' | Some a \<Rightarrow> p'\<lparr>pa_result := a, pa_event := True\<rparr>)"
    using Cons.IH [of "aq_run op q" p'] Cons.prems(2) by simp
  then show ?case
    by (cases op) (auto simp: p'_def split: option.split)
qed simp

lemma submit_wait:
  assumes "next_fresh q" and "Take (appr_id q) \<notin> set during"
  shows "fst (aq_wait (appr_id q) during late (snd (submit kind desc payload now q))) =
    (case first_answer (appr_id q) during of None \<Rightarrow> (False, ANone) | Some a \<Rightarrow> (True, a))"
proof -
  let ?q = "snd (submit kind desc payload now q)"
  let ?p = "\<lparr>pa_kind = kind, pa_text = desc, pa_payload = payload, pa_created_at = now,
          pa_event = False, pa_result = ANone\<rparr>"
  have "map_of (aq_items ?q) (appr_id q) = Some ?p" by (simp add: submit_def map_of_update)
  moreover have "\<forall>k \<ge> aq_next ?q. ids_from ?q k \<noteq> appr_id q"
    using assms(1) by (auto simp: next_fresh_def submit_def ids_from_def)
  ultimately have "map_of (aq_items (fold aq_run during ?q)) (appr_id q) =
      Some (case first_answer (appr_id q) during of None \<Rightarrow> ?p | Some a \<Rightarrow> ?p\<lparr>pa_result := a, pa_event := True\<rparr>)"
    using aq_fold_item [of ?q "appr_id q" ?p during] assms(2) by simp
  then show ?thesis by (simp add: aq_wait_def Let_def split: option.split)
qed

lemma aq_wait_removes: "aq_get (snd (aq_wait i during late q)) i = None"
  by (simp add: aq_wait_def Let_def aq_get_def pop_item_def map_of_AList_delete)

text \<open>A charge goes through only on an explicit yes: whatever else happens on the queue meanwhile
  (other items, answers to them, answers after the timeout), the web authorizer approves exactly when the
  first answer given to this item before the timeout is a yes; silence, a no, and a yes that
  follows a no all deny. The item is then gone: a late answer is refused and not listed as pending.\<close>

theorem web_confirm_exact:
  assumes "next_fresh q" and "Take (appr_id q) \<notin> set during"
    and "web_confirm_charge describe during late now req q = (ok, q')"
  shows "(ok \<longleftrightarrow> (\<exists>a. first_answer (appr_id q) during = Some a \<and> answer_truthy a))
    \<and> aq_get q' (appr_id q) = None \<and> resolve (appr_id q) ans q' = (False, q')"
proof -
  let ?w = "aq_wait (appr_id q) during late (snd (submit ''charge'' (describe req) (charge_payload req) now q))"
  have f: "fst (submit ''charge'' (describe req) (charge_payload req) now q) = appr_id q"
    by (simp add: submit_def)
  have q': "q' = snd ?w" and ok: "ok = (fst (fst ?w) \<and> answer_truthy (snd (fst ?w)))"
    using assms(3) f by (auto simp: web_confirm_charge_def split: prod.splits if_splits)
  have "aq_get q' (appr_id q) = None" unfolding q' by (rule aq_wait_removes)
  then show ?thesis
    using ok submit_wait [OF assms(1,2), of late "''charge''" "describe req" "charge_payload req" now]
    by (auto simp: resolve_def aq_get_def split: option.splits)
qed

text \<open>No authorizer invents a budget: a budget that the console or the web form returns has a
  positive amount that the user entered, and the default authorizer grants neither a budget nor
  a charge.\<close>

theorem request_budget_positive:
  "(case console_request_budget c line1 line2 suggested of
      None \<Rightarrow> True | Some (a, p) \<Rightarrow> 0 < a \<and> parse_float c (strip c line1) = Some a)
   \<and> (case web_request_budget ft during late now suggested q of
      (None, _) \<Rightarrow> True | (Some (a, p), _) \<Rightarrow> 0 < a)
   \<and> denying_request_budget suggested = None \<and> \<not> denying_confirm_charge req"
proof -
  have "case console_request_budget c line1 line2 suggested of
      None \<Rightarrow> True | Some (a, p) \<Rightarrow> 0 < a \<and> parse_float c (strip c line1) = Some a"
    by (auto simp: console_request_budget_def Let_def split: option.splits if_splits)
  moreover have "case web_request_budget ft during late now suggested q of
      (None, _) \<Rightarrow> True | (Some (a, p), _) \<Rightarrow> 0 < a"
    by (auto simp: web_request_budget_def Let_def split: option.splits if_splits prod.splits answer.splits)
  ultimately show ?thesis by (simp add: denying_request_budget_def denying_confirm_charge_def)
qed

section \<open>A charge that is answered twice\<close>

definition aq0 :: approval_queue where
  "aq0 = \<lparr>aq_items = [], aq_uuids = (\<lambda>n. replicate (min n 12) CHR ''u'' @ (if n < 12 then [] else ''v'')), aq_next = 0\<rparr>"

lemma aq0_fresh: "next_fresh aq0" "appr_id aq0 = ''appr_''"
  by (auto simp: next_fresh_def aq0_def appr_id_def ids_from_def)

theorem web_confirm_witness:
  "\<not> fst (web_confirm_charge (\<lambda>_. []) [Resolve ''appr_'' (ABool False), Resolve ''appr_'' (ABool True)] [] 0
      \<lparr>cr_provider = ''p'', cr_kind = ''paid_cloud'', cr_estimated_cost_usd = 1, cr_task_summary = [],
       cr_period = None, cr_budget_amount_usd = None, cr_remaining_usd = None\<rparr> aq0)"
  using web_confirm_exact [OF aq0_fresh(1) _ prod.collapse [symmetric],
      of "[Resolve ''appr_'' (ABool False), Resolve ''appr_'' (ABool True)]" "\<lambda>_. []" "[]" 0]
  by (simp add: aq0_fresh(2) answer_truthy_def)

end
