(* ===== verification/Gateway.thy ===== *)
theory Gateway
  imports Routing
begin

text \<open>
  What the router hands to a model and how: token estimates (\<^verbatim>\<open>common/tokens.py\<close>), generation
  requests, the provider gateway of \<^verbatim>\<open>router/gateway.py\<close>, and the optional content guard of
  \<^verbatim>\<open>router/guard_hook.py\<close>. The HTTP client of a node, the secret resolver, the completion function
  of LiteLLM and the guard package are parameters: each is the function from what it is given to
  what it answers or to the text of the exception it raises.
\<close>

section \<open>Token estimates\<close>

definition estimate_tokens :: "string \<Rightarrow> int" where
  "estimate_tokens s = (if s = [] then 0 else max 1 ((int (length s) + 4 - 1) div 4))"

definition estimate_io_tokens :: "string \<Rightarrow> int \<Rightarrow> int \<times> int" where
  "estimate_io_tokens prompt max_output_tokens = (estimate_tokens prompt, max 1 max_output_tokens)"

lemma estimate_tokens_bounds: "0 \<le> estimate_tokens s \<and> estimate_tokens s \<le> int (length s)"
  by (cases s) (auto simp: estimate_tokens_def)

section \<open>Requests and answers\<close>

record generate_request =
  gr_request_id :: string
  gr_task_id :: string
  gr_model_id :: string
  gr_messages :: "(string \<times> string) list"
  gr_max_output_tokens :: int
  gr_temperature :: real
  gr_priority :: priority

record generate_response =
  gp_request_id :: string
  gp_model_id :: string
  gp_output_text :: string
  gp_input_tokens :: int
  gp_output_tokens :: int
  gp_finish_reason :: string

record gateway_result =
  gw_output_text :: string
  gw_input_tokens :: int
  gw_output_tokens :: int
  gw_provider :: string
  gw_model :: string

type_synonym local_client = "generate_request \<Rightarrow> string + generate_response"

section \<open>Provider gateway\<close>

record completion_args =
  ca_messages :: "(string \<times> string) list"
  ca_max_tokens :: int
  ca_temperature :: real
  ca_api_key :: string
  ca_model :: string
  ca_api_base :: "string option"

record completion_reply =
  cp_content :: "string option"
  cp_usage :: "(int option \<times> int option) option"

text \<open>\<open>gc_completion\<close> answers or gives the name of the type of the exception; with \<open>None\<close> the package
  is not installed.\<close>

record gateway =
  gc_local :: "local_client option"
  gc_http :: "string \<Rightarrow> local_client"
  gc_resolve :: "string option \<Rightarrow> string + string option"
  gc_completion :: "(completion_args \<Rightarrow> string + completion_reply) option"

definition bind_local :: "local_client \<Rightarrow> gateway \<Rightarrow> gateway" where
  "bind_local c g = g\<lparr>gc_local := Some c\<rparr>"

definition local_client_for :: "gateway \<Rightarrow> provider_config \<Rightarrow> string + local_client" where
  "local_client_for g cfg =
    (case gc_local g of
       Some c \<Rightarrow> Inr c
     | None \<Rightarrow>
         (case manager_endpoint cfg of
            None \<Rightarrow> Inl (''Local provider '' @ provider_id cfg @ '' has no manager_endpoint configured.'')
          | Some ep \<Rightarrow>
              if ep = [] then Inl (''Local provider '' @ provider_id cfg @ '' has no manager_endpoint configured.'')
              else Inr (gc_http g ep)))"

definition rstrip_slash :: "string \<Rightarrow> string" where
  "rstrip_slash s = rev (dropWhile (\<lambda>c. c = CHR ''/'') (rev s))"

definition litellm_args :: "provider_config \<Rightarrow> generate_request \<Rightarrow> string \<Rightarrow> completion_args" where
  "litellm_args cfg req api_key =
    (let base = \<lparr>ca_messages = gr_messages req, ca_max_tokens = gr_max_output_tokens req,
                 ca_temperature = gr_temperature req, ca_api_key = api_key, ca_model = [], ca_api_base = None\<rparr>
     in case litellm_model cfg of
          Some m \<Rightarrow>
            if m \<noteq> [] then base\<lparr>ca_model := m,
                ca_api_base := (if endpoint cfg = [] then None else Some (rstrip_slash (endpoint cfg)))\<rparr>
            else base\<lparr>ca_model := ''openai/'' @ gr_model_id req, ca_api_base := Some (rstrip_slash (endpoint cfg))\<rparr>
        | None \<Rightarrow> base\<lparr>ca_model := ''openai/'' @ gr_model_id req, ca_api_base := Some (rstrip_slash (endpoint cfg))\<rparr>)"

definition int_or_0 :: "int option \<Rightarrow> int" where
  "int_or_0 x = (case x of None \<Rightarrow> 0 | Some i \<Rightarrow> i)"

definition call_via_litellm ::
  "gateway \<Rightarrow> provider_config \<Rightarrow> generate_request \<Rightarrow> string \<Rightarrow> string + gateway_result" where
  "call_via_litellm g cfg req api_key =
    (case gc_completion g of
       None \<Rightarrow> Inl ''RuntimeError''
     | Some completion \<Rightarrow>
         (case completion (litellm_args cfg req api_key) of
            Inl e \<Rightarrow> Inl e
          | Inr resp \<Rightarrow> Inr
              \<lparr>gw_output_text = (case cp_content resp of None \<Rightarrow> [] | Some t \<Rightarrow> t),
               gw_input_tokens = (case cp_usage resp of None \<Rightarrow> 0 | Some (i, _) \<Rightarrow> int_or_0 i),
               gw_output_tokens = (case cp_usage resp of None \<Rightarrow> 0 | Some (_, k) \<Rightarrow> int_or_0 k),
               gw_provider = provider_id cfg, gw_model = gr_model_id req\<rparr>))"

definition cloud_stub :: "provider_config \<Rightarrow> generate_request \<Rightarrow> gateway_result" where
  "cloud_stub cfg req =
    (let t = ''[cloud-stub:'' @ provider_id cfg @ ''/'' @ gr_model_id req @ ''] task '' @ gr_task_id req
             @ '' (no live call).''
     in \<lparr>gw_output_text = t,
         gw_input_tokens = int (sum_list (map (length \<circ> snd) (gr_messages req)) div 4),
         gw_output_tokens = int (length t div 4 + 1),
         gw_provider = provider_id cfg, gw_model = gr_model_id req\<rparr>)"

definition call_cloud :: "gateway \<Rightarrow> provider_config \<Rightarrow> generate_request \<Rightarrow> string + gateway_result" where
  "call_cloud g cfg req =
    (let api_key = (case gc_resolve g (secret_ref cfg) of Inl e \<Rightarrow> None | Inr k \<Rightarrow> k)
     in case api_key of
          Some k \<Rightarrow>
            if k \<noteq> [] then
              (case call_via_litellm g cfg req k of
                 Inl e \<Rightarrow> Inl (''cloud call to '' @ provider_id cfg @ '' failed: '' @ e)
               | Inr res \<Rightarrow> Inr res)
            else Inr (cloud_stub cfg req)
        | None \<Rightarrow> Inr (cloud_stub cfg req))"


definition gateway_call :: "gateway \<Rightarrow> provider_config \<Rightarrow> generate_request \<Rightarrow> string + gateway_result" where
  "gateway_call g cfg req =
    (if p_type cfg = ''local'' then
       (case local_client_for g cfg of
          Inl e \<Rightarrow> Inl e
        | Inr client \<Rightarrow>
            (case client req of
               Inl e \<Rightarrow> Inl e
             | Inr resp \<Rightarrow> Inr
                 \<lparr>gw_output_text = gp_output_text resp, gw_input_tokens = gp_input_tokens resp,
                  gw_output_tokens = gp_output_tokens resp, gw_provider = provider_id cfg,
                  gw_model = gp_model_id resp\<rparr>))
     else call_cloud g cfg req)"

text \<open>The secret: no local call resolves it, a cloud answer without a key is the stub, and what a failing
  cloud call says is the provider and the type of the exception only.\<close>

lemma local_call_uses_no_secret:
  "p_type cfg = ''local'' \<Longrightarrow> gateway_call (g\<lparr>gc_resolve := r\<rparr>) cfg req = gateway_call g cfg req"
  by (simp add: gateway_call_def local_client_for_def split: option.splits sum.splits)

lemma cloud_error_text:
  "p_type cfg \<noteq> ''local'' \<Longrightarrow> gateway_call g cfg req = Inl e \<Longrightarrow>
    \<exists>ty. e = ''cloud call to '' @ provider_id cfg @ '' failed: '' @ ty"
  by (auto simp: gateway_call_def call_cloud_def Let_def split: option.splits sum.splits if_splits)

section \<open>Content guard\<close>

record guard_verdict =
  gv_decision :: string
  gv_categories :: "string list"
  gv_redacted_text :: string
  gv_engines :: string
  gv_errors :: nat

text \<open>\<open>gd_available\<close> tells whether the package is installed; the flags are the environment variables
  \<open>FASCIA_GUARD\<close> and \<open>FASCIA_GUARD_ENFORCE\<close> as text.\<close>

record guard =
  gd_available :: bool
  gd_env :: "string \<Rightarrow> string"
  gd_strip_lower :: "string \<Rightarrow> string"
  gd_task :: "string \<Rightarrow> string \<Rightarrow> guard_verdict"
  gd_artifact :: "string \<Rightarrow> string \<Rightarrow> guard_verdict"
  gd_spotlight :: "string \<Rightarrow> string \<Rightarrow> string"

definition guard_flag :: "guard \<Rightarrow> string \<Rightarrow> bool" where
  "guard_flag g name \<longleftrightarrow> gd_strip_lower g (gd_env g name) \<notin> {[], ''0'', ''false'', ''no''}"

definition active :: "guard \<Rightarrow> bool" where
  "active g \<longleftrightarrow> gd_available g \<and> (guard_flag g ''FASCIA_GUARD'' \<or> guard_flag g ''FASCIA_GUARD_ENFORCE'')"

definition enforcing :: "guard \<Rightarrow> bool" where
  "enforcing g \<longleftrightarrow> gd_available g \<and> guard_flag g ''FASCIA_GUARD_ENFORCE''"

definition scan_task :: "guard \<Rightarrow> string \<Rightarrow> string \<Rightarrow> guard_verdict option" where
  "scan_task g t tid = (if \<not> active g then None else Some (gd_task g t tid))"

definition scan_output :: "guard \<Rightarrow> string \<Rightarrow> string \<Rightarrow> guard_verdict option" where
  "scan_output g t tid = (if \<not> active g then None else Some (gd_artifact g t tid))"

fun str_le :: "string \<Rightarrow> string \<Rightarrow> bool" where
  "str_le [] ys = True"
| "str_le (x # xs) [] = False"
| "str_le (x # xs) (y # ys) =
    ((of_char x :: nat) < of_char y \<or> (x = y \<and> str_le xs ys))"

fun insert_str :: "string \<Rightarrow> string list \<Rightarrow> string list" where
  "insert_str x [] = [x]"
| "insert_str x (y # ys) = (if str_le x y then x # y # ys else y # insert_str x ys)"

definition sorted_strings :: "string list \<Rightarrow> string list" where
  "sorted_strings xs = foldr insert_str xs []"

fun join :: "string \<Rightarrow> string list \<Rightarrow> string" where
  "join sep [] = []"
| "join sep [x] = x"
| "join sep (x # y # ys) = x @ sep @ join sep (y # ys)"

definition show_list :: "string list \<Rightarrow> string" where
  "show_list xs = ''['' @ join '', '' (map (\<lambda>x. [CHR 39] @ x @ [CHR 39]) xs) @ '']''"

definition describe :: "guard_verdict \<Rightarrow> string \<Rightarrow> string" where
  "describe v side =
    (let cats = sorted_strings (remdups (gv_categories v))
     in ''fascia-guard['' @ side @ ''] decision='' @ gv_decision v
        @ '' findings='' @ show_int (int (length (gv_categories v)))
        @ '' categories='' @ (if cats = [] then ''-'' else show_list cats)
        @ '' engines='' @ gv_engines v
        @ (if gv_errors v \<noteq> 0 then '' errors='' @ show_int (int (gv_errors v)) else []))"

definition is_block :: "guard \<Rightarrow> guard_verdict option \<Rightarrow> bool" where
  "is_block g v = (gd_available g \<and> (case v of None \<Rightarrow> False | Some x \<Rightarrow> gv_decision x = ''BLOCK''))"

definition should_redact_output :: "guard \<Rightarrow> guard_verdict option \<Rightarrow> bool" where
  "should_redact_output g v =
    (gd_available g \<and> (case v of None \<Rightarrow> False | Some x \<Rightarrow> gv_decision x \<in> {''BLOCK'', ''REDACT''}))"

definition has_injection :: "guard \<Rightarrow> guard_verdict option \<Rightarrow> bool" where
  "has_injection g v =
    (gd_available g \<and> (case v of None \<Rightarrow> False | Some x \<Rightarrow> ''injection'' \<in> set (gv_categories x)))"

definition safe_output :: "guard \<Rightarrow> guard_verdict option \<Rightarrow> string \<Rightarrow> string" where
  "safe_output g v original =
    (case v of
       None \<Rightarrow> original
     | Some x \<Rightarrow>
         if \<not> gd_available g then original
         else (let t = (if should_redact_output g v then gv_redacted_text x else original)
               in if has_injection g v then gd_spotlight g t ''worker-artifact'' else t))"

end
