(* ===== verification/Evaluation.thy ===== *)
theory Evaluation
  imports Shared_Memory
begin

text \<open>
  Evaluation and learning of \<^verbatim>\<open>common/evaluation.py\<close>: the aggregate of the recorded outcomes per
  provider (the GROUP BY query of the store), the scorecards made from it, and the bounded
  learned-quality signal that the routing engine adds to its scores. SQL's \<open>AVG\<close> ignores NULLs
  and is NULL over none.
\<close>

section \<open>Aggregates and scorecards\<close>

definition avg :: "real list \<Rightarrow> real option" where
  "avg xs = (if xs = [] then None else Some (sum_list xs / real (length xs)))"

record eval_aggregate =
  ag_provider :: string
  ag_samples :: nat
  ag_successes :: nat
  ag_avg_latency_ms :: "real option"
  ag_avg_cost_usd :: "real option"
  ag_avg_confidence :: "real option"

definition aggregate_of :: "string \<Rightarrow> eval_row list \<Rightarrow> eval_aggregate" where
  "aggregate_of p rows =
    \<lparr>ag_provider = p, ag_samples = length rows,
     ag_successes = length (filter (\<lambda>r. e_status r = ''completed'') rows),
     ag_avg_latency_ms = avg (List.map_filter e_latency_ms rows),
     ag_avg_cost_usd = avg (List.map_filter e_cost_usd rows),
     ag_avg_confidence = avg (List.map_filter e_confidence rows)\<rparr>"

definition provider_eval_aggregate :: "db \<Rightarrow> eval_aggregate list" where
  "provider_eval_aggregate s =
    map (\<lambda>p. aggregate_of p (filter (\<lambda>r. e_provider r = p) (evaluations s)))
      (remdups (map e_provider (evaluations s)))"

record scorecard =
  sc_provider :: string
  sc_samples :: nat
  sc_success_rate :: real
  sc_avg_latency_ms :: real
  sc_avg_cost_usd :: real
  sc_avg_confidence :: "real option"

definition or_zero :: "real option \<Rightarrow> real" where
  "or_zero x = (case x of None \<Rightarrow> 0 | Some v \<Rightarrow> v)"

definition scorecard_of :: "eval_aggregate \<Rightarrow> scorecard" where
  "scorecard_of a =
    \<lparr>sc_provider = ag_provider a, sc_samples = ag_samples a,
     sc_success_rate = (if ag_samples a = 0 then 0 else real (ag_successes a) / real (ag_samples a)),
     sc_avg_latency_ms = or_zero (ag_avg_latency_ms a), sc_avg_cost_usd = or_zero (ag_avg_cost_usd a),
     sc_avg_confidence = ag_avg_confidence a\<rparr>"

definition scorecards :: "db \<Rightarrow> (string \<times> scorecard) list" where
  "scorecards s = map (\<lambda>a. (ag_provider a, scorecard_of a)) (provider_eval_aggregate s)"

section \<open>The learned signal\<close>

definition card_quality :: "nat \<Rightarrow> real \<Rightarrow> real \<Rightarrow> scorecard \<Rightarrow> real" where
  "card_quality min_samples fastest slowest c =
    (if sc_samples c < min_samples then 0
     else
       (let success_term = (sc_success_rate c - 1 / 2) * 2;
            span = slowest - fastest;
            latency_term = (if span > 1 / 10 ^ 6
              then ((1 - (sc_avg_latency_ms c - fastest) / span) - 1 / 2) * (6 / 10) else 0)
        in max (- 1) (min 1 (85 / 100 * success_term + 15 / 100 * latency_term))))"

definition learned_quality :: "nat \<Rightarrow> db \<Rightarrow> (string \<times> real) list" where
  "learned_quality min_samples s =
    (let cards = scorecards s;
         eligible = filter (\<lambda>c. min_samples \<le> sc_samples c) (map snd cards)
     in case map sc_avg_latency_ms eligible of
          [] \<Rightarrow> map (\<lambda>(p, c). (p, 0)) cards
        | x # xs \<Rightarrow>
            (let fastest = fold min xs x; slowest = fold max xs x
             in map (\<lambda>(p, c). (p, card_quality min_samples fastest slowest c)) cards))"

section \<open>Bounds\<close>

lemma card_quality_bounds: "- 1 \<le> card_quality m f s c \<and> card_quality m f s c \<le> 1"
  by (simp add: card_quality_def Let_def)

lemma card_quality_few: "sc_samples c < m \<Longrightarrow> card_quality m f s c = 0"
  by (simp add: card_quality_def)

lemma learned_quality_map:
  "\<exists>f g. learned_quality m s = map (\<lambda>(p, c). (p, if \<exists>c' \<in> snd ` set (scorecards s). m \<le> sc_samples c'
      then card_quality m f g c else 0)) (scorecards s)"
proof -
  define el where "el = filter (\<lambda>c. m \<le> sc_samples c) (map snd (scorecards s))"
  have ex: "(\<exists>c' \<in> snd ` set (scorecards s). m \<le> sc_samples c') \<longleftrightarrow> el \<noteq> []"
    unfolding el_def filter_empty_conv by auto
  show ?thesis
  proof (cases "map sc_avg_latency_ms el")
    case Nil
    then show ?thesis unfolding ex by (simp add: learned_quality_def el_def [symmetric])
  next
    case (Cons x xs)
    then have "el \<noteq> []" by auto
    then show ?thesis unfolding ex
      by (intro exI [of _ "fold min xs x"] exI [of _ "fold max xs x"])
        (simp add: learned_quality_def el_def [symmetric] Cons)
  qed
qed

lemma scorecards_facts:
  assumes "(p, c) \<in> set (scorecards s)"
  shows "sc_samples c = length (filter (\<lambda>r. e_provider r = p) (evaluations s))"
    and "0 < sc_samples c" and "0 \<le> sc_success_rate c \<and> sc_success_rate c \<le> 1"
proof -
  have c: "c = scorecard_of (aggregate_of p (filter (\<lambda>r. e_provider r = p) (evaluations s)))"
    and p: "p \<in> e_provider ` set (evaluations s)"
    using assms by (auto simp: scorecards_def provider_eval_aggregate_def aggregate_of_def)
  show n: "sc_samples c = length (filter (\<lambda>r. e_provider r = p) (evaluations s))"
    by (simp add: c scorecard_of_def aggregate_of_def)
  show "0 < sc_samples c" unfolding n using p by (auto simp: filter_empty_conv)
  show "0 \<le> sc_success_rate c \<and> sc_success_rate c \<le> 1"
    by (auto simp: c scorecard_of_def aggregate_of_def divide_le_eq simp del: filter_filter)
qed

lemma learned_of:
  assumes "(p, q) \<in> set (learned_quality m s)"
  shows "- 1 \<le> q \<and> q \<le> 1" and "length (filter (\<lambda>r. e_provider r = p) (evaluations s)) < m \<Longrightarrow> q = 0"
proof -
  obtain f g where lq: "learned_quality m s = map (\<lambda>(p, c). (p, if \<exists>c' \<in> snd ` set (scorecards s). m \<le> sc_samples c'
      then card_quality m f g c else 0)) (scorecards s)"
    using learned_quality_map by blast
  obtain c where c: "(p, c) \<in> set (scorecards s)"
    "q = (if \<exists>c' \<in> snd ` set (scorecards s). m \<le> sc_samples c' then card_quality m f g c else 0)"
    using assms unfolding lq by auto
  show "- 1 \<le> q \<and> q \<le> 1" using c(2) card_quality_bounds [of m f g c] by simp
  show "q = 0" if "length (filter (\<lambda>r. e_provider r = p) (evaluations s)) < m"
    using that c(2) card_quality_few [of c m f g] scorecards_facts(1) [OF c(1)] by simp
qed

lemma clamp_mono: "x \<le> y \<Longrightarrow> max (- 1) (min 1 x) \<le> max (- 1) (min 1 y)" for x y :: real
  by (auto simp: max_def min_def)

text \<open>The learned prior is a bounded tilt: for every provider with outcomes on record it is between
  -1 and 1, it is zero until \<open>min_samples\<close> outcomes were recorded, and between two providers with enough
  outcomes the one that succeeds at least as often and is not slower never gets less.\<close>

theorem learned_quality_bounded:
  assumes "(p, q) \<in> set (learned_quality m s)"
  shows "- 1 \<le> q \<and> q \<le> 1
    \<and> (length (filter (\<lambda>r. e_provider r = p) (evaluations s)) < m \<longrightarrow> q = 0)
    \<and> (\<forall>f g c c'. m \<le> sc_samples c \<and> m \<le> sc_samples c' \<and> sc_success_rate c' \<le> sc_success_rate c
          \<and> sc_avg_latency_ms c \<le> sc_avg_latency_ms c' \<longrightarrow> card_quality m f g c' \<le> card_quality m f g c)"
proof -
  have "card_quality m f g c' \<le> card_quality m f g c"
    if "m \<le> sc_samples c" "m \<le> sc_samples c'" "sc_success_rate c' \<le> sc_success_rate c"
      "sc_avg_latency_ms c \<le> sc_avg_latency_ms c'" for f g c c'
  proof -
    define lat where "lat = (\<lambda>x. if g - f > 1 / 10 ^ 6 then ((1 - (x - f) / (g - f)) - 1 / 2) * (6 / 10) else 0)"
    have "lat (sc_avg_latency_ms c') \<le> lat (sc_avg_latency_ms c)"
    proof (cases "g - f > 1 / 10 ^ 6")
      case True
      then have "0 \<le> g - f" by (rule order.strict_implies_order [OF order.strict_trans [rotated]]) simp
      then have "(sc_avg_latency_ms c - f) / (g - f) \<le> (sc_avg_latency_ms c' - f) / (g - f)"
        using that(4) by (intro divide_right_mono) auto
      then show ?thesis using True by (simp only: lat_def if_True) (rule mult_right_mono, simp_all)
    qed (simp add: lat_def)
    then have "85 / 100 * ((sc_success_rate c' - 1 / 2) * 2) + 15 / 100 * lat (sc_avg_latency_ms c')
        \<le> 85 / 100 * ((sc_success_rate c - 1 / 2) * 2) + 15 / 100 * lat (sc_avg_latency_ms c)"
      using that(3) by (intro add_mono mult_left_mono mult_right_mono) auto
    from clamp_mono [OF this] show ?thesis
      using that(1,2) by (simp only: card_quality_def Let_def lat_def not_less [symmetric] if_False simp_thms)
  qed
  then show ?thesis using learned_of [OF assms] by blast
qed

section \<open>Two providers with outcomes\<close>

definition eval_demo :: db where
  "eval_demo = (empty_db 0 (\<lambda>_. []))\<lparr>evaluations :=
     [\<lparr>e_provider = ''a'', e_model = None, e_task_id = None, e_agent_type = None, e_status = ''completed'',
       e_latency_ms = Some 10, e_input_tokens = None, e_output_tokens = None, e_cost_usd = None,
       e_confidence = None, e_retries = None, e_created = 0\<rparr>,
      \<lparr>e_provider = ''b'', e_model = None, e_task_id = None, e_agent_type = None, e_status = ''failed'',
       e_latency_ms = Some 20, e_input_tokens = None, e_output_tokens = None, e_cost_usd = None,
       e_confidence = None, e_retries = None, e_created = 0\<rparr>]\<rparr>"

lemma eval_demo_learned: "learned_quality 1 eval_demo = [(''a'', 179 / 200), (''b'', - 179 / 200)]"
  by code_simp

theorem learned_quality_witness:
  "(''b'', - 179 / 200) \<in> set (learned_quality 1 eval_demo) \<and> - 1 \<le> (- 179 / 200 :: real)"
proof -
  have "(''b'', - 179 / 200) \<in> set (learned_quality 1 eval_demo)" unfolding eval_demo_learned by simp
  then show ?thesis using learned_quality_bounded [of "''b''" "- 179 / 200" 1 eval_demo] by blast
qed

end
