(* ===== verification/Node_Pool.thy ===== *)
theory Node_Pool
  imports Quota
begin

text \<open>
  Rented nodes of \<^verbatim>\<open>router/provisioning.py\<close>: the specification made from a provider, the stub
  provisioner, and the pool that keeps nodes warm. A provisioner is the record of what its calls
  answer, each answer possibly depending on the number of calls made before; the calls it receives
  are kept in order, since they are what the vendor bills. What other threads do to the pool
  inside a call, outside its locked sections, is the parameter \<open>peers\<close>.
\<close>

section \<open>Nodes\<close>

datatype node_state = absent | provisioning | ready | draining | terminated

record node_trust =
  ephemeral :: bool
  encrypted_volume :: bool
  own_image :: bool
  no_external_logging :: bool

definition satisfies_repo_sensitive :: "node_trust \<Rightarrow> bool" where
  "satisfies_repo_sensitive t \<longleftrightarrow> ephemeral t \<and> encrypted_volume t \<and> own_image t \<and> no_external_logging t"

record node_spec =
  ns_provider_id :: string
  ns_vendor :: string
  ns_instance_type :: "string option"
  ns_model_id :: "string option"
  ns_min_rental_seconds :: int
  ns_max_hourly_usd :: real
  ns_trust :: node_trust

record node_handle =
  nh_node_id :: string
  nh_provider_id :: string
  nh_state :: node_state
  nh_manager_endpoint :: "string option"
  nh_started_at :: "real option"
  nh_hourly_usd :: real
  nh_trust :: node_trust

definition trust_of :: "(string \<rightharpoonup> bool) \<Rightarrow> node_trust" where
  "trust_of t =
    (let b = (\<lambda>k. case t k of None \<Rightarrow> False | Some v \<Rightarrow> v)
     in \<lparr>ephemeral = b ''ephemeral'', encrypted_volume = b ''encrypted_volume'',
         own_image = b ''own_image'', no_external_logging = b ''no_external_logging''\<rparr>)"

definition spec_from_provider :: "provider_config \<Rightarrow> string option \<Rightarrow> node_spec" where
  "spec_from_provider cfg model =
    (case rental cfg of
       None \<Rightarrow> \<lparr>ns_provider_id = provider_id cfg, ns_vendor = ''generic'', ns_instance_type = None,
                ns_model_id = model, ns_min_rental_seconds = 900, ns_max_hourly_usd = 0,
                ns_trust = trust_of Map.empty\<rparr>
     | Some r \<Rightarrow> \<lparr>ns_provider_id = provider_id cfg, ns_vendor = vendor r, ns_instance_type = instance_type r,
                ns_model_id = model, ns_min_rental_seconds = min_rental_seconds r,
                ns_max_hourly_usd = max_hourly_usd r, ns_trust = trust_of (trust r)\<rparr>)"

section \<open>Provisioners\<close>

datatype vendor_call = VProvision string | VTerminate string | VTerminateFailed string

record provisioner =
  pv_provision :: "nat \<Rightarrow> node_spec \<Rightarrow> string + node_handle"
  pv_wait_ready :: "nat \<Rightarrow> node_handle \<Rightarrow> string + node_handle"
  pv_terminate :: "nat \<Rightarrow> node_handle \<Rightarrow> string + node_handle"

definition stub_node_id :: "(nat \<Rightarrow> string) \<Rightarrow> nat \<Rightarrow> node_spec \<Rightarrow> string" where
  "stub_node_id pad3 counter spec = ns_provider_id spec @ ''-rented-'' @ pad3 counter"

text \<open>\<open>pad3\<close> is the format \<open>:03d\<close> and \<open>tmpl\<close> the endpoint template with the provider filled in; the stub's
  counter is one more than the calls before it that provisioned.\<close>

definition stub_provisioner :: "(nat \<Rightarrow> string) \<Rightarrow> (string \<Rightarrow> string) \<Rightarrow> real \<Rightarrow> provisioner" where
  "stub_provisioner pad3 tmpl clk =
    \<lparr>pv_provision = (\<lambda>n spec. Inr
       \<lparr>nh_node_id = stub_node_id pad3 (Suc n) spec, nh_provider_id = ns_provider_id spec, nh_state = ready,
        nh_manager_endpoint = Some (tmpl (ns_provider_id spec)), nh_started_at = Some clk,
        nh_hourly_usd = ns_max_hourly_usd spec, nh_trust = ns_trust spec\<rparr>),
     pv_wait_ready = (\<lambda>n h. Inr (h\<lparr>nh_state := ready\<rparr>)),
     pv_terminate = (\<lambda>n h. Inr (h\<lparr>nh_state := terminated\<rparr>))\<rparr>"

section \<open>The pool\<close>

record node_pool =
  live :: "(string \<times> node_handle) list"
  last_used :: "string \<rightharpoonup> real"
  provisioned_at :: "string \<rightharpoonup> real"
  vendor_calls :: "vendor_call list"

type_synonym pool_peers = "nat \<Rightarrow> node_pool \<Rightarrow> node_pool"

definition empty_pool :: node_pool where
  "empty_pool = \<lparr>live = [], last_used = Map.empty, provisioned_at = Map.empty, vendor_calls = []\<rparr>"

definition provisions :: "vendor_call list \<Rightarrow> nat" where
  "provisions cs = length (filter (\<lambda>c. case c of VProvision i \<Rightarrow> True | _ \<Rightarrow> False) cs)"

definition record_call :: "vendor_call \<Rightarrow> node_pool \<Rightarrow> node_pool" where
  "record_call c p = p\<lparr>vendor_calls := vendor_calls p @ [c]\<rparr>"

text \<open>Provision, wait, store. A failure of \<open>wait_ready\<close> leaves the call on record and nothing in the pool.\<close>

definition acquire_fresh ::
  "pool_peers \<Rightarrow> provisioner \<Rightarrow> string \<Rightarrow> node_spec \<Rightarrow> real \<Rightarrow> node_pool
    \<Rightarrow> (string + (node_handle \<times> bool)) \<times> node_pool" where
  "acquire_fresh peers pv pid spec now p =
    (let n = provisions (vendor_calls p)
     in case pv_provision pv n spec of
          Inl e \<Rightarrow> (Inl e, p)
        | Inr h0 \<Rightarrow>
            (let p1 = record_call (VProvision (nh_node_id h0)) p
             in case pv_wait_ready pv n h0 of
                  Inl e \<Rightarrow> (Inl e, p1)
                | Inr h \<Rightarrow>
                    (let p2 = peers 0 p1
                     in (Inr (h, False),
                         p2\<lparr>live := AList.update pid h (live p2),
                            last_used := (last_used p2)(pid \<mapsto> now),
                            provisioned_at := (provisioned_at p2)(pid \<mapsto> now)\<rparr>))))"

definition acquire ::
  "pool_peers \<Rightarrow> provisioner \<Rightarrow> provider_config \<Rightarrow> node_spec \<Rightarrow> real \<Rightarrow> node_pool
    \<Rightarrow> (string + (node_handle \<times> bool)) \<times> node_pool" where
  "acquire peers pv cfg spec now p =
    (let pid = provider_id cfg
     in case map_of (live p) pid of
          Some h \<Rightarrow>
            if nh_state h = ready then (Inr (h, True), p\<lparr>last_used := (last_used p)(pid \<mapsto> now)\<rparr>)
            else acquire_fresh peers pv pid spec now p
        | None \<Rightarrow> acquire_fresh peers pv pid spec now p)"

definition pool_release :: "provider_config \<Rightarrow> real \<Rightarrow> node_pool \<Rightarrow> node_pool" where
  "pool_release cfg now p =
    (if provider_id cfg \<in> fst ` set (live p)
     then p\<lparr>last_used := (last_used p)(provider_id cfg \<mapsto> now)\<rparr> else p)"

definition drop_node :: "string \<Rightarrow> node_pool \<Rightarrow> node_pool" where
  "drop_node pid p = p\<lparr>live := AList.delete pid (live p), last_used := (last_used p)(pid := None),
     provisioned_at := (provisioned_at p)(pid := None)\<rparr>"

definition terminate_call :: "provisioner \<Rightarrow> nat \<Rightarrow> node_handle \<Rightarrow> vendor_call" where
  "terminate_call pv n h =
    (case pv_terminate pv n h of Inl e \<Rightarrow> VTerminateFailed (nh_node_id h) | Inr _ \<Rightarrow> VTerminate (nh_node_id h))"

text \<open>The evicted handle with its time of provisioning, for the true-up of its cost. A failing
  \<open>terminate\<close> is swallowed.\<close>

definition evict ::
  "provisioner \<Rightarrow> string \<Rightarrow> node_pool \<Rightarrow> (node_handle \<times> real option) option \<times> node_pool" where
  "evict pv pid p =
    (let p1 = drop_node pid p
     in case map_of (live p) pid of
          None \<Rightarrow> (None, p1)
        | Some h \<Rightarrow>
            (Some (h, provisioned_at p pid),
             record_call (terminate_call pv (length (vendor_calls p)) h) p1))"

definition idle_cap :: "(string \<rightharpoonup> provider_config) \<Rightarrow> string \<Rightarrow> int" where
  "idle_cap cfgs pid =
    (case cfgs pid of None \<Rightarrow> 600
     | Some c \<Rightarrow> (case rental c of None \<Rightarrow> 600 | Some r \<Rightarrow> terminate_when_idle_seconds r))"

definition idle :: "(string \<rightharpoonup> provider_config) \<Rightarrow> real \<Rightarrow> node_pool \<Rightarrow> string \<Rightarrow> bool" where
  "idle cfgs now p pid \<longleftrightarrow>
    now - (case last_used p pid of None \<Rightarrow> now | Some t \<Rightarrow> t) \<ge> of_int (idle_cap cfgs pid)"

text \<open>The loop over the snapshot of the live nodes; an exception of \<open>terminate\<close> ends it.\<close>

fun reap_loop ::
  "pool_peers \<Rightarrow> provisioner \<Rightarrow> (string \<rightharpoonup> provider_config) \<Rightarrow> real \<Rightarrow> (string \<times> node_handle) list \<Rightarrow> node_pool
    \<Rightarrow> string option \<times> (string \<times> node_handle \<times> real option) list \<times> node_pool" where
  "reap_loop peers pv cfgs now [] p = (None, [], p)"
| "reap_loop peers pv cfgs now ((pid, h) # items) p =
    (if \<not> idle cfgs now p pid then reap_loop peers pv cfgs now items p
     else
       (let p1 = record_call (terminate_call pv (length (vendor_calls p)) h) (peers (length items) p)
        in case pv_terminate pv (length (vendor_calls p)) h of
             Inl e \<Rightarrow> (Some e, [], p1)
           | Inr _ \<Rightarrow>
               (let since = provisioned_at p1 pid
                in case reap_loop peers pv cfgs now items (drop_node pid p1) of (err, reaped, p2) \<Rightarrow>
                     (err, (pid, h, since) # reaped, p2))))"

definition reap_idle ::
  "pool_peers \<Rightarrow> provisioner \<Rightarrow> (string \<rightharpoonup> provider_config) \<Rightarrow> real \<Rightarrow> node_pool
    \<Rightarrow> string option \<times> (string \<times> node_handle \<times> real option) list \<times> node_pool" where
  "reap_idle peers pv cfgs now p = reap_loop peers pv cfgs now (live p) p"

definition live_nodes :: "node_pool \<Rightarrow> (string \<times> node_handle) list" where
  "live_nodes p = live p"

section \<open>Choice of a provisioner\<close>

datatype provisioner_choice = UseStub | UseRunPod string | NoProvisioner string

text \<open>\<open>lower\<close> is the language's function; \<open>resolver\<close> the secret resolver, if one was passed.\<close>

definition provisioner_for ::
  "(string \<Rightarrow> string) \<Rightarrow> (string \<Rightarrow> string) option \<Rightarrow> provider_config \<Rightarrow> provisioner_choice" where
  "provisioner_for lower resolver cfg =
    (let v = lower (case rental cfg of None \<Rightarrow> ''generic'' | Some r \<Rightarrow> vendor r)
     in if v \<in> {''generic'', [], ''stub''} then UseStub
        else if v = ''runpod'' then
          (case (resolver, rental cfg) of
             (Some res, Some r) \<Rightarrow>
               (case rental_secret_ref r of
                  Some k \<Rightarrow> if k = [] then NoProvisioner ''RunPod provisioner needs a secret_resolver and rental.secret_ref''
                            else UseRunPod (res k)
                | None \<Rightarrow> NoProvisioner ''RunPod provisioner needs a secret_resolver and rental.secret_ref'')
           | _ \<Rightarrow> NoProvisioner ''RunPod provisioner needs a secret_resolver and rental.secret_ref'')
        else NoProvisioner ''No provisioner adapter for vendor'')"

section \<open>The cost true-up\<close>

text \<open>What the router does for a node that was taken down: it commits the cost beyond the window that
  was billed at spin-up.\<close>

definition true_up_rental_cost ::
  "provider_registry \<Rightarrow> string \<Rightarrow> real option \<Rightarrow> real \<Rightarrow> ledger \<Rightarrow> ledger" where
  "true_up_rental_cost reg pid at_time now L =
    (case (reg_get reg pid, at_time) of
       (Some cfg, Some t) \<Rightarrow>
         (let billed = (case rental cfg of None \<Rightarrow> 0 | Some r \<Rightarrow> min_rental_seconds r);
              extra = max 0 ((now - t) - of_int billed)
          in if extra > 0 then snd (record_rental_window cfg (''reap:'' @ pid) extra ''rental_true_up'' L) else L)
     | _ \<Rightarrow> L)"

section \<open>No box without an owner\<close>

text \<open>The boxes the vendor bills: provisioned and not terminated since.\<close>

definition running :: "vendor_call list \<Rightarrow> string set" where
  "running cs = fold (\<lambda>c R. case c of VProvision i \<Rightarrow> insert i R | VTerminate i \<Rightarrow> R - {i}
     | VTerminateFailed i \<Rightarrow> R) cs {}"

lemma running_snoc [simp]:
  "running (cs @ [VProvision i]) = insert i (running cs)"
  "running (cs @ [VTerminate i]) = running cs - {i}"
  by (simp_all add: running_def)

definition live_ids :: "node_pool \<Rightarrow> string list" where
  "live_ids p = map (nh_node_id \<circ> snd) (live p)"

definition pool_inv :: "node_pool \<Rightarrow> bool" where
  "pool_inv p \<longleftrightarrow> distinct (map fst (live p)) \<and> distinct (live_ids p)
     \<and> (\<forall>(k, h) \<in> set (live p). nh_state h = ready) \<and> running (vendor_calls p) = set (live_ids p)"

text \<open>What the pool relies on: a provisioned box has an identifier that no running box has, waiting for
  it keeps the identifier and makes it ready.\<close>

definition vendor_ok :: "provisioner \<Rightarrow> node_pool \<Rightarrow> bool" where
  "vendor_ok pv p \<longleftrightarrow>
    (\<forall>spec h0 h. pv_provision pv (provisions (vendor_calls p)) spec = Inr h0 \<longrightarrow>
       nh_node_id h0 \<notin> running (vendor_calls p)
       \<and> (pv_wait_ready pv (provisions (vendor_calls p)) h0 = Inr h \<longrightarrow>
            nh_node_id h = nh_node_id h0 \<and> nh_state h = ready))"

definition no_pool_peers :: pool_peers where "no_pool_peers k p = p"

inductive pool_run :: "provisioner \<Rightarrow> node_pool \<Rightarrow> node_pool \<Rightarrow> bool" for pv where
  pool_refl: "pool_run pv p p"
| pool_acquire: "pool_run pv p0 p \<Longrightarrow> vendor_ok pv p
    \<Longrightarrow> acquire no_pool_peers pv cfg spec now p = (Inr r, p') \<Longrightarrow> pool_run pv p0 p'"
| pool_rel: "pool_run pv p0 p \<Longrightarrow> pool_run pv p0 (pool_release cfg now p)"
| pool_evict: "pool_run pv p0 p
    \<Longrightarrow> \<forall>h. map_of (live p) pid = Some h \<longrightarrow> (\<exists>x. pv_terminate pv (length (vendor_calls p)) h = Inr x)
    \<Longrightarrow> evict pv pid p = (r, p') \<Longrightarrow> pool_run pv p0 p'"
| pool_reap: "pool_run pv p0 p \<Longrightarrow> reap_idle no_pool_peers pv cfgs now p = (None, r, p') \<Longrightarrow> pool_run pv p0 p'"

lemma pool_inv_frame:
  "pool_inv p \<Longrightarrow> live p' = live p \<Longrightarrow> vendor_calls p' = vendor_calls p \<Longrightarrow> pool_inv p'"
  by (simp add: pool_inv_def live_ids_def)

lemma update_absent: "map_of al k = None \<Longrightarrow> AList.update k v al = al @ [(k, v)]"
  by (induction al) (auto split: if_splits)

lemma acquire_inv:
  assumes "pool_inv p" and "vendor_ok pv p" and "acquire no_pool_peers pv cfg spec now p = (Inr r, p')"
  shows "pool_inv p'"
proof (cases "map_of (live p) (provider_id cfg)")
  case (Some h)
  then have "nh_state h = ready" using assms(1) map_of_SomeD by (fastforce simp: pool_inv_def)
  then show ?thesis
    using assms(3) Some by (auto simp: acquire_def intro: pool_inv_frame [OF assms(1)])
next
  case None
  then obtain h0 h where *: "pv_provision pv (provisions (vendor_calls p)) spec = Inr h0"
    "pv_wait_ready pv (provisions (vendor_calls p)) h0 = Inr h"
    and p': "live p' = AList.update (provider_id cfg) h (live p)"
      "vendor_calls p' = vendor_calls p @ [VProvision (nh_node_id h0)]"
    using assms(3) None
    by (auto simp: acquire_def acquire_fresh_def Let_def no_pool_peers_def record_call_def
        split: sum.splits)
  have v: "nh_node_id h0 \<notin> running (vendor_calls p)" "nh_node_id h = nh_node_id h0" "nh_state h = ready"
    using assms(2) [unfolded vendor_ok_def, rule_format, OF *(1), of h] *(2) by blast+
  have "live p' = live p @ [(provider_id cfg, h)]" unfolding p' by (rule update_absent [OF None])
  moreover have "provider_id cfg \<notin> fst ` set (live p)" using None by (simp add: map_of_eq_None_iff)
  ultimately show ?thesis
    using assms(1) v p'(2) by (auto simp: pool_inv_def live_ids_def)
qed

lemma drop_terminated_inv:
  assumes "pool_inv p" and "map_of (live p) pid = Some h"
  shows "pool_inv (drop_node pid (record_call (VTerminate (nh_node_id h)) p))"
proof -
  have d: "distinct (map fst (live p))" "distinct (live_ids p)" using assms(1) by (simp_all add: pool_inv_def)
  have mem: "(pid, h) \<in> set (live p)" using assms(2) by (rule map_of_SomeD)
  have del: "AList.delete pid (live p) = filter (\<lambda>(k, x). nh_node_id x \<noteq> nh_node_id h) (live p)"
    unfolding AList.delete_eq
  proof (rule filter_cong [OF refl])
    fix y assume y: "y \<in> set (live p)"
    have "map_of (live p) (fst y) = Some (snd y)" using d(1) y by (intro map_of_is_SomeI) auto
    then have "fst y = pid \<longleftrightarrow> y = (pid, h)" using assms(2) by (cases y) auto
    moreover have "nh_node_id (snd y) = nh_node_id h \<longleftrightarrow> y = (pid, h)"
      using d(2) y mem unfolding live_ids_def distinct_map inj_on_def by fastforce
    ultimately show "(case y of (k', _) \<Rightarrow> pid \<noteq> k') = (case y of (k, x) \<Rightarrow> nh_node_id x \<noteq> nh_node_id h)"
      by (cases y) auto
  qed
  show ?thesis
    using assms(1) unfolding pool_inv_def drop_node_def record_call_def live_ids_def
    by (auto simp: del distinct_map_filter)
qed

lemma evict_inv:
  assumes inv: "pool_inv p"
    and ok: "\<forall>h. map_of (live p) pid = Some h \<longrightarrow> (\<exists>x. pv_terminate pv (length (vendor_calls p)) h = Inr x)"
    and ev: "evict pv pid p = (r, p')"
  shows "pool_inv p'"
proof (cases "map_of (live p) pid")
  case None
  then have "AList.delete pid (live p) = live p" by (simp add: map_of_eq_None_iff)
  then show ?thesis using None ev
    by (auto simp: evict_def Let_def drop_node_def intro: pool_inv_frame [OF inv])
next
  case (Some h)
  have "record_call c (drop_node pid p) = drop_node pid (record_call c p)" for c
    by (simp add: record_call_def drop_node_def)
  moreover have "terminate_call pv (length (vendor_calls p)) h = VTerminate (nh_node_id h)"
    using ok Some by (auto simp: terminate_call_def)
  ultimately show ?thesis
    using Some ev drop_terminated_inv [OF inv Some] by (auto simp: evict_def Let_def)
qed

lemma reap_loop_inv:
  assumes "pool_inv p" and "\<forall>(k, h) \<in> set items. map_of (live p) k = Some h" and "distinct (map fst items)"
    and "reap_loop no_pool_peers pv cfgs now items p = (None, r, p')"
  shows "pool_inv p'"
  using assms
proof (induction items arbitrary: p r p')
  case (Cons x items)
  obtain pid h where x: "x = (pid, h)" by fastforce
  show ?case
  proof (cases "idle cfgs now p pid")
    case False
    then show ?thesis using Cons.IH [of p r p'] Cons.prems x by auto
  next
    case True
    let ?p = "drop_node pid (record_call (VTerminate (nh_node_id h)) p)"
    have inv: "pool_inv ?p" using Cons.prems x by (intro drop_terminated_inv) auto
    have "\<forall>(k, h) \<in> set items. map_of (live ?p) k = Some h"
    proof (clarify)
      fix k h' assume "(k, h') \<in> set items"
      moreover from this have "k \<noteq> pid" using Cons.prems(3) x by force
      ultimately show "map_of (live ?p) k = Some h'"
        using Cons.prems(2) by (auto simp: drop_node_def record_call_def delete_conv')
    qed
    then show ?thesis
      using Cons.IH [OF inv] Cons.prems True x
      by (auto simp: no_pool_peers_def Let_def terminate_call_def split: sum.splits prod.splits)
  qed
qed simp


text \<open>Warm reuse: when the pool has a ready node for a provider, acquiring again returns that node as
  reused and makes no vendor call, so a batch pays for one spin-up.\<close>

theorem acquire_reuses:
  assumes "map_of (live p) (provider_id cfg) = Some h" and "nh_state h = ready"
  shows "\<exists>p'. acquire peers pv cfg spec now p = (Inr (h, True), p') \<and> vendor_calls p' = vendor_calls p
    \<and> live p' = live p \<and> last_used p' (provider_id cfg) = Some now"
  using assms by (simp add: acquire_def)

text \<open>The exception path loses a box: when the vendor provisions it but waiting for it fails (a
  timeout), acquire raises and the box stays on the vendor's bill without being in the pool,
  where neither eviction nor the reaper can find it.\<close>

theorem acquire_timeout_orphans:
  assumes "map_of (live p) (provider_id cfg) = None"
    and "pv_provision pv (provisions (vendor_calls p)) spec = Inr h0"
    and "pv_wait_ready pv (provisions (vendor_calls p)) h0 = Inl e"
  shows "\<exists>p'. acquire peers pv cfg spec now p = (Inl e, p') \<and> live p' = live p
    \<and> nh_node_id h0 \<in> running (vendor_calls p')"
  using assms by (simp add: acquire_def acquire_fresh_def record_call_def)

section \<open>One rented node\<close>

definition demo_pv :: provisioner where
  "demo_pv = stub_provisioner (\<lambda>n. replicate n CHR ''0'') (\<lambda>p. p) 0"

definition demo_gpu :: provider_config where
  "demo_gpu = \<lparr>provider_id = ''gpu'', p_type = ''local'', endpoint = [], p_privacy = ''private_rented'',
     capabilities = [], secret_ref = None, p_quota = \<lparr>q_kind = None, q_reset = None, q_num = Map.empty\<rparr>,
     manager_endpoint = None, node_id = None, node_class = Some ''rented'', rental = None, litellm_model = None\<rparr>"

definition demo_pool :: node_pool where
  "demo_pool = snd (acquire no_pool_peers demo_pv demo_gpu (spec_from_provider demo_gpu None) 5 empty_pool)"

lemma demo_pool_facts:
  "live_ids demo_pool = [''gpu-rented-0'']" "map_of (live demo_pool) ''gpu'' = Some (snd (hd (live demo_pool)))"
  "nh_state (snd (hd (live demo_pool))) = ready" "provider_id demo_gpu = ''gpu''"
  by code_simp+


theorem acquire_reuses_witness:
  "fst (acquire no_pool_peers demo_pv demo_gpu (spec_from_provider demo_gpu None) 9 demo_pool) =
     Inr (snd (hd (live demo_pool)), True)"
  using acquire_reuses [of demo_pool demo_gpu "snd (hd (live demo_pool))" no_pool_peers demo_pv
      "spec_from_provider demo_gpu None" 9] demo_pool_facts(2,3)
  unfolding demo_pool_facts(4) by fastforce

theorem acquire_timeout_orphans_witness:
  "\<exists>p'. acquire no_pool_peers (demo_pv\<lparr>pv_wait_ready := (\<lambda>n h. Inl ''timeout'')\<rparr>) demo_gpu
       (spec_from_provider demo_gpu None) 5 empty_pool = (Inl ''timeout'', p')
     \<and> live p' = live empty_pool \<and> ''gpu-rented-0'' \<in> running (vendor_calls p')"
proof -
  let ?h = "projr (pv_provision demo_pv 0 (spec_from_provider demo_gpu None))"
  have "nh_node_id ?h = ''gpu-rented-0''" by code_simp
  then show ?thesis
    using acquire_timeout_orphans [of empty_pool demo_gpu "demo_pv\<lparr>pv_wait_ready := (\<lambda>n h. Inl ''timeout'')\<rparr>"
        "spec_from_provider demo_gpu None" ?h "''timeout''" no_pool_peers 5]
    by (simp add: empty_pool_def demo_pv_def stub_provisioner_def provisions_def)
qed

end
