(* ===== verification/Router_State.thy ===== *)
theory Router_State
  imports Work_Queue Gateway Budget Approval Evaluation Node_Pool
begin

text \<open>
  The state and the surroundings of the router service (\<^verbatim>\<open>router/service.py\<close>, class \<open>RouterService\<close>):
  submissions and summaries, what the service keeps (ledger with the shared store, engine, node
  pool), the calls it makes to the outside in the order it makes them, and everything it is
  constructed with that is not its own code. An operation is a function on that state that
  returns a value or an exception; \<open>bnd\<close>, \<open>catch\<close> and \<open>finally_do\<close> are Python's sequencing,
  \<open>try ... except Exception\<close> and \<open>try ... finally\<close>.
\<close>

section \<open>Submissions and summaries\<close>

record task_constraints =
  tc_profile :: "string option"
  tc_require_exact_model :: "string option"
  tc_privacy_class :: "privacy_class option"
  tc_max_output_tokens :: "int option"
  tc_allow_external :: bool
  tc_allow_paid :: bool
  tc_allow_rented :: bool
  tc_priority :: priority
  tc_quality :: string
  tc_execution :: string

record task_submission =
  ts_task :: string
  ts_agent_type :: "string option"
  ts_constraints :: task_constraints
  ts_refs :: "string list"

definition default_constraints :: task_constraints where
  "default_constraints =
    \<lparr>tc_profile = None, tc_require_exact_model = None, tc_privacy_class = None,
     tc_max_output_tokens = None, tc_allow_external = True, tc_allow_paid = False,
     tc_allow_rented = False, tc_priority = PNormal, tc_quality = ''standard'',
     tc_execution = ''oneshot''\<rparr>"

record task_summary =
  sm_task_id :: string
  sm_status :: task_state
  sm_summary :: "col option"
  sm_artifacts :: "(string \<times> string) list"
  sm_next_action :: "col option"
  sm_risks :: "col option"

section \<open>Agent runtimes\<close>

text \<open>
  A runtime is what it does next: finish with a result, raise, or ask its model source and go on
  with the answer (or with the exception of that call). Being a tree, each run ends.
\<close>

datatype runtime =
    Finish worker_result
  | Crash string
  | Ask generate_request "string + generate_response \<Rightarrow> runtime"

record runtime_config =
  rt_model_id :: string
  rt_max_output_tokens :: int
  rt_allow_delegation :: bool
  rt_delegation_depth :: nat
  rt_max_delegation_depth :: nat
  rt_max_subtasks :: int

record remote_worker =
  rw_worker_id :: string
  rw_endpoint :: string
  rw_tier :: string

record remote_runtime =
  rr_can_accept :: "string + bool"
  rr_run :: "task_submission \<Rightarrow> string \<Rightarrow> string + worker_result"

section \<open>Calls to the outside\<close>

datatype ext_call =
    GatewayCall provider_config generate_request
  | RentedCall provider_config string generate_request
  | RemoteRun string task_submission string
  | AgentRun provider_config nat "privacy_class option" task_submission
  | AskBudget string
  | AskCharge charge_request bool

record authorizer =
  au_request_budget :: "ext_call list \<Rightarrow> string \<Rightarrow> string + (real \<times> string option) option"
  au_confirm_charge :: "ext_call list \<Rightarrow> charge_request \<Rightarrow> string + bool"

text \<open>
  What the service is built with. Answers of the outside may depend on the calls made before.
  \<open>o_peers\<close> is what other processes commit to the store around the write of a state, \<open>o_threads\<close>
  and \<open>o_pool_threads\<close> what other threads do inside a call of the ledger or of the pool; the
  \<open>o_dump\<close> and \<open>o_str\<close> fields are serializers and formatters.
\<close>

datatype rexc = Store exc | TaskSuperseded string string | AssertionError | Outside string

record outside =
  o_peers :: "task_state \<Rightarrow> nat \<Rightarrow> db \<Rightarrow> db"
  o_threads :: ledger_peers
  o_pool_threads :: pool_peers
  o_world :: world
  o_detectors :: "detector list"
  o_sensitive_path :: "string \<Rightarrow> bool"
  o_guard :: guard
  o_gateway :: "ext_call list \<Rightarrow> gateway"
  o_local_client :: "(ext_call list \<Rightarrow> string + manager_status) option"
  o_provisioner :: provisioner
  o_pooled :: bool
  o_rented_factory :: "(provider_config \<Rightarrow> node_handle \<Rightarrow> string + (ext_call list \<Rightarrow> local_client)) option"
  o_http_client :: "string \<Rightarrow> ext_call list \<Rightarrow> local_client"
  o_wq :: "wq_config option"
  o_evaluator :: "nat option"
  o_budget :: "budget_manager option"
  o_authorizer :: "authorizer option"
  o_remote_workers :: "remote_worker list"
  o_remote_factory :: "(remote_worker \<Rightarrow> ext_call list \<Rightarrow> string + remote_runtime) option"
  o_local_runtime :: "task_submission \<Rightarrow> string \<Rightarrow> runtime_config \<Rightarrow> ext_call list \<Rightarrow> string + runtime"
  o_enable_delegation :: bool
  o_max_delegation_depth :: nat
  o_max_subtasks :: int
  o_default_max_output_tokens :: "int option"
  o_default_max_chars :: "int option"
  o_hard_max_chars :: "int option"
  o_latency_ms :: "ext_call list \<Rightarrow> real"
  o_dump_submission :: "task_submission \<Rightarrow> string"
  o_dump_decision :: "routing_decision \<Rightarrow> string"
  o_dump_worker :: "worker_result \<Rightarrow> string"
  o_str_exc :: "rexc \<Rightarrow> string"
  o_str_float :: "string \<Rightarrow> real \<Rightarrow> string"

section \<open>State and operations\<close>

record router =
  rs_quota :: ledger
  rs_engine :: routing_engine
  rs_pool :: node_pool
  rs_trace :: "ext_call list"

type_synonym 'a rm = "router \<Rightarrow> (rexc + 'a) \<times> router"

abbreviation mem :: "router \<Rightarrow> db" where "mem r \<equiv> memory (rs_quota r)"

definition put_mem :: "db \<Rightarrow> router \<Rightarrow> router" where
  "put_mem m r = r\<lparr>rs_quota := (rs_quota r)\<lparr>memory := m\<rparr>\<rparr>"

definition ret :: "'a \<Rightarrow> 'a rm" where "ret x r = (Inr x, r)"

definition raise_exc :: "rexc \<Rightarrow> 'a rm" where "raise_exc e r = (Inl e, r)"

definition bnd :: "'a rm \<Rightarrow> ('a \<Rightarrow> 'b rm) \<Rightarrow> 'b rm" where
  "bnd m f r = (case m r of (Inl e, r1) \<Rightarrow> (Inl e, r1) | (Inr x, r1) \<Rightarrow> f x r1)"

definition seq :: "'a rm \<Rightarrow> 'b rm \<Rightarrow> 'b rm" where
  "seq m k = bnd m (\<lambda>_. k)"

definition catch :: "'a rm \<Rightarrow> (rexc \<Rightarrow> 'a rm) \<Rightarrow> 'a rm" where
  "catch m h r = (case m r of (Inl e, r1) \<Rightarrow> h e r1 | (Inr x, r1) \<Rightarrow> (Inr x, r1))"

definition finally_do :: "'a rm \<Rightarrow> unit rm \<Rightarrow> 'a rm" where
  "finally_do m f r =
    (case m r of (out, r1) \<Rightarrow> (case f r1 of (Inl e, r2) \<Rightarrow> (Inl e, r2) | (Inr _, r2) \<Rightarrow> (out, r2)))"

definition asks :: "(router \<Rightarrow> 'a) \<Rightarrow> 'a rm" where "asks f r = (Inr (f r), r)"

definition modify :: "(router \<Rightarrow> router) \<Rightarrow> unit rm" where "modify f r = (Inr (), f r)"

definition of_result :: "string + 'a \<Rightarrow> 'a rm" where
  "of_result x r = (case x of Inl e \<Rightarrow> (Inl (Outside e), r) | Inr v \<Rightarrow> (Inr v, r))"

definition of_store :: "exc + 'a \<Rightarrow> 'a rm" where
  "of_store x r = (case x of Inl e \<Rightarrow> (Inl (Store e), r) | Inr v \<Rightarrow> (Inr v, r))"

definition on_db :: "(db \<Rightarrow> (exc + 'a) \<times> db) \<Rightarrow> 'a rm" where
  "on_db f r = (case f (mem r) of (x, m) \<Rightarrow> of_store x (put_mem m r))"

definition mod_db :: "(db \<Rightarrow> db) \<Rightarrow> unit rm" where
  "mod_db f = modify (\<lambda>r. put_mem (f (mem r)) r)"

definition on_quota :: "(ledger \<Rightarrow> 'a \<times> ledger) \<Rightarrow> 'a rm" where
  "on_quota f r = (case f (rs_quota r) of (x, L) \<Rightarrow> (Inr x, r\<lparr>rs_quota := L\<rparr>))"

definition note_call :: "ext_call \<Rightarrow> unit rm" where
  "note_call c = modify (\<lambda>r. r\<lparr>rs_trace := rs_trace r @ [c]\<rparr>)"

definition append_line :: "string \<Rightarrow> string \<Rightarrow> string \<Rightarrow> unit rm" where
  "append_line tid msg level = mod_db (append_log tid msg level)"

definition set_task :: "string \<Rightarrow> (string \<times> col) list \<Rightarrow> unit rm" where
  "set_task tid flds = on_db (update_task tid flds)"

lemmas rm_defs = ret_def raise_exc_def bnd_def seq_def catch_def finally_do_def asks_def modify_def
  of_result_def of_store_def on_db_def mod_db_def on_quota_def note_call_def append_line_def set_task_def

end
