(* ===== verification/Router_Dispatch.thy ===== *)
theory Router_Dispatch
  imports Router_State
begin

text \<open>
  The parts of \<open>RouterService\<close> that run work (\<^verbatim>\<open>router/service.py\<close>, with the model sources of
  \<^verbatim>\<open>router/runtime_dispatch.py\<close>): state writes, evaluation records, rented nodes, one-shot dispatch,
  the agent loop in process, on a rented node and on a remote worker, and hierarchical delegation.
\<close>

section \<open>Small helpers\<close>

definition show_bool :: "bool \<Rightarrow> string" where
  "show_bool b = (if b then ''True'' else ''False'')"

definition show_opt :: "string option \<Rightarrow> string" where
  "show_opt x = (case x of None \<Rightarrow> ''None'' | Some s \<Rightarrow> s)"

definition first_line :: "string \<Rightarrow> string" where
  "first_line t = take 240 (takeWhile (\<lambda>c. \<not> line_break c) (py_strip t))"

definition capabilities_for :: "string option \<Rightarrow> string list" where
  "capabilities_for agent_type =
    (let a = str_or agent_type []
     in if a = ''repo_scout'' then [''summarization'', ''coding'']
        else if a = ''patch_worker'' then [''patch_generation'', ''coding'']
        else if a = ''patch_reviewer'' then [''review'', ''coding'']
        else if a = ''log_summarizer'' then [''summarization'']
        else if a = ''test_worker'' then [''coding'']
        else if a = ''memory_indexer'' then [''summarization'']
        else if a = ''cloud_safe_transformer'' then [''summarization'']
        else if a = ''critic_worker'' then [''review'']
        else [''coding''])"

definition summary_of :: "string \<Rightarrow> task_summary rm" where
  "summary_of tid r =
    (case get_task (mem r) tid of
       None \<Rightarrow> (Inl AssertionError, r)
     | Some row \<Rightarrow>
         (Inr \<lparr>sm_task_id = tid, sm_status = t_state row, sm_summary = t_cols row ''summary'',
               sm_artifacts = task_artifacts (mem r) tid,
               sm_next_action = t_cols row ''recommended_next_action'',
               sm_risks = t_cols row ''risks''\<rparr>, r))"

section \<open>State writes\<close>

text \<open>Other processes may have committed before the call (index 3) and between a read of the state and
  its guarded update (indices 2 to 0). A refusal becomes \<open>TaskSuperseded\<close>.\<close>

definition transition_to :: "outside \<Rightarrow> string \<Rightarrow> task_state \<Rightarrow> task_state rm" where
  "transition_to O1 tid dst r =
    (case transition TASK_STATE_VOCAB (transition_task (o_peers O1 dst)) tid dst ''router'' (Some tid) []
            (peer_commit (o_peers O1 dst) 3 (mem r)) of
       (Inl e, m) \<Rightarrow>
         (Inl (case e of TransitionRefused eid stored \<Rightarrow> TaskSuperseded tid stored | _ \<Rightarrow> Store e), put_mem m r)
     | (Inr s, m) \<Rightarrow> (Inr s, put_mem m r))"

definition note_outcome :: "string \<Rightarrow> string \<Rightarrow> string \<Rightarrow> unit rm" where
  "note_outcome tid summary next_action =
    set_task tid [(''summary'', CText summary), (''recommended_next_action'', CText next_action)]"

definition router_reject :: "outside \<Rightarrow> string \<Rightarrow> string \<Rightarrow> string \<Rightarrow> task_summary rm" where
  "router_reject O1 tid summary next_action =
    seq (transition_to O1 tid REJECTED) (seq (note_outcome tid summary next_action) (summary_of tid))"

definition record_eval ::
  "string \<Rightarrow> string \<Rightarrow> string \<Rightarrow> string option \<Rightarrow> string \<Rightarrow> real \<Rightarrow> int \<Rightarrow> int \<Rightarrow> real \<Rightarrow> real option \<Rightarrow> unit rm" where
  "record_eval provider model tid agent_type st latency_ms in_tok out_tok cost confidence =
    on_db (record_evaluation
      \<lparr>ev_provider = Some provider, ev_model = Some model, ev_task_id = Some tid,
       ev_agent_type = agent_type, ev_status = st, ev_latency_ms = Some latency_ms,
       ev_input_tokens = Some in_tok, ev_output_tokens = Some out_tok, ev_cost_usd = Some cost,
       ev_confidence = confidence, ev_retries = Some 0\<rparr>)"

definition latency :: "outside \<Rightarrow> real rm" where
  "latency O1 = asks (\<lambda>r. o_latency_ms O1 (rs_trace r))"

definition local_status :: "outside \<Rightarrow> manager_status option rm" where
  "local_status O1 r =
    (case o_local_client O1 of
       None \<Rightarrow> (Inr None, r)
     | Some f \<Rightarrow>
         (case f (rs_trace r) of
            Inl e \<Rightarrow> (Inr None, r\<lparr>rs_engine := (rs_engine r)\<lparr>registry :=
                        set_health ''local_r9700'' ''down'' (registry (rs_engine r))\<rparr>\<rparr>)
          | Inr st \<Rightarrow> (Inr (Some st), r)))"

section \<open>Rented nodes\<close>

definition cfgs_of :: "router \<Rightarrow> string \<rightharpoonup> provider_config" where
  "cfgs_of r pid = map_of (map (\<lambda>p. (provider_id p, p)) (rev (reg_all (registry (rs_engine r))))) pid"

definition true_up :: "string \<Rightarrow> real option \<Rightarrow> unit rm" where
  "true_up pid at_time = modify (\<lambda>r. r\<lparr>rs_quota :=
     true_up_rental_cost (registry (rs_engine r)) pid at_time (clock (mem r)) (rs_quota r)\<rparr>)"

fun true_up_all :: "(string \<times> node_handle \<times> real option) list \<Rightarrow> unit rm" where
  "true_up_all [] = ret ()"
| "true_up_all ((pid, h, at_time) # xs) = seq (true_up pid at_time) (true_up_all xs)"

definition reap_idle_nodes :: "outside \<Rightarrow> string list rm" where
  "reap_idle_nodes O1 r =
    (if \<not> o_pooled O1 then (Inr [], r)
     else
       (case reap_idle (o_pool_threads O1) (o_provisioner O1) (cfgs_of r) (clock (mem r)) (rs_pool r) of
          (err, reaped, p) \<Rightarrow>
            seq (true_up_all reaped)
              (case err of None \<Rightarrow> ret (map fst reaped) | Some e \<Rightarrow> raise_exc (Outside e))
              (r\<lparr>rs_pool := p\<rparr>)))"

text \<open>Without a pool of its own each dispatch uses a fresh one.\<close>

definition enter_pool :: "outside \<Rightarrow> unit rm" where
  "enter_pool O1 = modify (\<lambda>r. if o_pooled O1 then r
     else r\<lparr>rs_pool := (rs_pool r)\<lparr>live := [], last_used := Map.empty, provisioned_at := Map.empty\<rparr>\<rparr>)"

definition acquire_node :: "outside \<Rightarrow> provider_config \<Rightarrow> node_spec \<Rightarrow> (node_handle \<times> bool) rm" where
  "acquire_node O1 cfg spec r =
    (case acquire (o_pool_threads O1) (o_provisioner O1) cfg spec (clock (mem r)) (rs_pool r) of
       (x, p) \<Rightarrow> of_result x (r\<lparr>rs_pool := p\<rparr>))"

definition release_node :: "provider_config \<Rightarrow> unit rm" where
  "release_node cfg = modify (\<lambda>r. r\<lparr>rs_pool := pool_release cfg (clock (mem r)) (rs_pool r)\<rparr>)"

definition evict_rented_node :: "outside \<Rightarrow> provider_config \<Rightarrow> string \<Rightarrow> unit rm" where
  "evict_rented_node O1 cfg tid r =
    (case evict (o_provisioner O1) (provider_id cfg) (rs_pool r) of
       (None, p) \<Rightarrow> (Inr (), r\<lparr>rs_pool := p\<rparr>)
     | (Some (h, at_time), p) \<Rightarrow>
         seq (true_up (provider_id cfg) at_time)
           (if tid \<noteq> [] then append_line tid (''rented_node_evicted='' @ nh_node_id h @ '' provider=''
               @ provider_id cfg @ '' reason=dispatch_failure'') ''warn'' else ret ())
           (r\<lparr>rs_pool := p\<rparr>))"

definition bill_window :: "provider_config \<Rightarrow> string \<Rightarrow> bool \<Rightarrow> unit rm" where
  "bill_window cfg tid reused =
    (if reused then ret ()
     else modify (\<lambda>r. r\<lparr>rs_quota := snd (record_rental_window cfg tid
       (case rental cfg of None \<Rightarrow> 0 | Some x \<Rightarrow> of_int (min_rental_seconds x)) ''rented'' (rs_quota r))\<rparr>))"

definition default_rented_client ::
  "outside \<Rightarrow> provider_config \<Rightarrow> node_handle \<Rightarrow> string + (ext_call list \<Rightarrow> local_client)" where
  "default_rented_client O1 cfg h =
    (case nh_manager_endpoint h of
       None \<Rightarrow> Inl (''Rented node '' @ nh_node_id h @ '' has no endpoint after provisioning.'')
     | Some ep \<Rightarrow>
         if ep = [] then Inl (''Rented node '' @ nh_node_id h @ '' has no endpoint after provisioning.'')
         else Inr (o_http_client O1 ep))"

definition rented_client ::
  "outside \<Rightarrow> provider_config \<Rightarrow> node_handle \<Rightarrow> (ext_call list \<Rightarrow> local_client) rm" where
  "rented_client O1 cfg h =
    of_result (case o_rented_factory O1 of Some f \<Rightarrow> f cfg h | None \<Rightarrow> default_rented_client O1 cfg h)"

definition rented_generate ::
  "provider_config \<Rightarrow> node_handle \<Rightarrow> (ext_call list \<Rightarrow> local_client) \<Rightarrow> generate_request
    \<Rightarrow> generate_response rm" where
  "rented_generate cfg h client req =
    bnd (asks rs_trace) (\<lambda>t. seq (note_call (RentedCall cfg (nh_node_id h) req)) (of_result (client t req)))"

section \<open>One-shot dispatch\<close>

definition gateway_generate :: "outside \<Rightarrow> provider_config \<Rightarrow> generate_request \<Rightarrow> gateway_result rm" where
  "gateway_generate O1 cfg req =
    bnd (asks rs_trace) (\<lambda>t.
      seq (note_call (GatewayCall cfg req)) (of_result (gateway_call (o_gateway O1 t) cfg req)))"

definition dispatch :: "outside \<Rightarrow> provider_config \<Rightarrow> generate_request \<Rightarrow> gateway_result rm" where
  "dispatch O1 cfg req =
    (if \<not> is_rented cfg then gateway_generate O1 cfg req
     else
       seq (enter_pool O1)
       (seq (reap_idle_nodes O1)
       (bnd (acquire_node O1 cfg (spec_from_provider cfg (Some (gr_model_id req)))) (\<lambda>(h, reused).
        seq (bill_window cfg (gr_task_id req) reused)
       (bnd (finally_do
               (catch
                 (bnd (rented_client O1 cfg h) (\<lambda>client. rented_generate cfg h client req))
                 (\<lambda>e. seq (evict_rented_node O1 cfg (gr_task_id req)) (raise_exc e)))
               (release_node cfg)) (\<lambda>resp.
        seq (append_line (gr_task_id req) (''rented_node='' @ nh_node_id h @ '' endpoint=''
               @ show_opt (nh_manager_endpoint h) @ '' reused='' @ show_bool reused) ''info'')
        (ret \<lparr>gw_output_text = gp_output_text resp, gw_input_tokens = gp_input_tokens resp,
              gw_output_tokens = gp_output_tokens resp, gw_provider = provider_id cfg,
              gw_model = gp_model_id resp\<rparr>)))))))"

section \<open>Model sources\<close>

record model_source =
  src_calls :: int
  src_input_tokens :: int
  src_output_tokens :: int

definition fresh_source :: model_source where
  "fresh_source = \<lparr>src_calls = 0, src_input_tokens = 0, src_output_tokens = 0\<rparr>"

text \<open>A source sends the request with its model pinned; \<open>send\<close> is the provider behind it.\<close>

definition source_generate ::
  "(generate_request \<Rightarrow> (string \<times> string \<times> int \<times> int) rm) \<Rightarrow> string \<Rightarrow> generate_request \<Rightarrow> model_source \<Rightarrow> router
    \<Rightarrow> (rexc + generate_response) \<times> model_source \<times> router" where
  "source_generate send model_id req src r =
    (case send (req\<lparr>gr_model_id := model_id\<rparr>) r of
       (Inl e, r1) \<Rightarrow> (Inl e, src, r1)
     | (Inr (m, t, i, k), r1) \<Rightarrow>
         (Inr \<lparr>gp_request_id = gr_request_id req, gp_model_id = m, gp_output_text = t, gp_input_tokens = i,
               gp_output_tokens = k, gp_finish_reason = ''stop''\<rparr>,
          \<lparr>src_calls = src_calls src + 1, src_input_tokens = src_input_tokens src + i,
           src_output_tokens = src_output_tokens src + k\<rparr>, r1))"

definition gateway_send :: "outside \<Rightarrow> provider_config \<Rightarrow> generate_request \<Rightarrow> (string \<times> string \<times> int \<times> int) rm" where
  "gateway_send O1 cfg req =
    bnd (gateway_generate O1 cfg req) (\<lambda>g.
      ret (gw_model g, gw_output_text g, gw_input_tokens g, gw_output_tokens g))"

definition rented_send ::
  "provider_config \<Rightarrow> node_handle \<Rightarrow> (ext_call list \<Rightarrow> local_client) \<Rightarrow> generate_request
    \<Rightarrow> (string \<times> string \<times> int \<times> int) rm" where
  "rented_send cfg h client req =
    bnd (rented_generate cfg h client req) (\<lambda>g.
      ret (gp_model_id g, gp_output_text g, gp_input_tokens g, gp_output_tokens g))"

definition exc_text :: "rexc \<Rightarrow> string" where
  "exc_text e = (case e of Outside t \<Rightarrow> t | _ \<Rightarrow> [])"

primrec run_runtime ::
  "runtime \<Rightarrow> (generate_request \<Rightarrow> (string \<times> string \<times> int \<times> int) rm) \<Rightarrow> string \<Rightarrow> model_source \<Rightarrow> router
    \<Rightarrow> (rexc + worker_result) \<times> model_source \<times> router" where
  "run_runtime (Finish w) send model_id src r = (Inr w, src, r)"
| "run_runtime (Crash e) send model_id src r = (Inl (Outside e), src, r)"
| "run_runtime (Ask req k) send model_id src r =
    (case source_generate send model_id req src r of
       (Inl e, src1, r1) \<Rightarrow> run_runtime (k (Inl (exc_text e))) send model_id src1 r1
     | (Inr resp, src1, r1) \<Rightarrow> run_runtime (k (Inr resp)) send model_id src1 r1)"

section \<open>Hierarchical delegation\<close>

record meter =
  mt_in :: int
  mt_out :: int
  mt_calls :: int
  mt_children :: int

definition no_usage :: meter where
  "no_usage = \<lparr>mt_in = 0, mt_out = 0, mt_calls = 0, mt_children = 0\<rparr>"

definition meter_add :: "model_source \<Rightarrow> meter \<Rightarrow> meter" where
  "meter_add src mt = mt\<lparr>mt_in := mt_in mt + src_input_tokens src, mt_out := mt_out mt + src_output_tokens src,
     mt_calls := mt_calls mt + src_calls src\<rparr>"

definition child_privacy_class ::
  "routing_privacy \<Rightarrow> privacy_class option \<Rightarrow> privacy_class option \<Rightarrow> privacy_class option" where
  "child_privacy_class rp parent_pc proposed =
    (case (parent_pc, proposed) of
       (None, _) \<Rightarrow> proposed
     | (Some p, None) \<Rightarrow> parent_pc
     | (Some p, Some c) \<Rightarrow>
         if privacy_class_value c \<in> fst ` set (classes_map rp)
            \<and> set (allowed_tiers rp (privacy_class_value c)) \<subseteq> set (allowed_tiers rp (privacy_class_value p))
         then proposed else parent_pc)"

definition refused_child :: worker_result where
  "refused_child =
    \<lparr>wr_status = ''failed'', wr_summary = ''Sub-task refused: secret_sensitive content must not reach an LLM.'',
     wr_confidence = 0, wr_changed_artifacts = [], wr_evidence_refs = [],
     wr_risks = [''secret_sensitive_child_refused''], wr_recommended_next_action = None, wr_usage = None,
     wr_subtasks = []\<rparr>"

definition child_submission :: "task_submission \<Rightarrow> sub_task \<Rightarrow> privacy_class option \<Rightarrow> task_submission" where
  "child_submission sub st pc =
    \<lparr>ts_task = st_task st,
     ts_agent_type = (case st_agent_type st of None \<Rightarrow> ts_agent_type sub
       | Some a \<Rightarrow> if a = [] then ts_agent_type sub else Some a),
     ts_constraints = default_constraints\<lparr>tc_privacy_class := pc, tc_execution := ''agentic'',
       tc_max_output_tokens := tc_max_output_tokens (ts_constraints sub)\<rparr>,
     ts_refs = []\<rparr>"

definition model_for :: "task_submission \<Rightarrow> router \<Rightarrow> string" where
  "model_for sub r = str_or (tc_require_exact_model (ts_constraints sub))
     (default_resident_model (profiles (rs_engine r)))"

definition synth_prompt :: "task_submission \<Rightarrow> worker_result \<Rightarrow> (string \<times> worker_result) list \<Rightarrow> string" where
  "synth_prompt sub parent kids =
    join ''\<newline>''
      ([''Parent task: '' @ ts_task sub,
        ''Your own findings: '' @ (if wr_summary parent = [] then ''(none)'' else wr_summary parent), [],
        ''Results of the sub-tasks you delegated:'']
       @ map (\<lambda>(t, w). ''- ['' @ wr_status w @ ''] '' @ t @ '': ''
               @ (if wr_summary w = [] then ''(no summary)'' else wr_summary w)) kids
       @ [[], ''Write a SINGLE consolidated summary of the overall task for the manager, integrating the sub-task results. Be concise; do not repeat this prompt.''])"

definition fold_children :: "worker_result \<Rightarrow> string \<Rightarrow> (string \<times> worker_result) list \<Rightarrow> worker_result" where
  "fold_children parent synth kids =
    parent\<lparr>wr_summary := (if synth = [] then wr_summary parent else synth),
      wr_confidence := fold (\<lambda>(_, w) c. min c (wr_confidence w)) kids (wr_confidence parent),
      wr_risks := fold (\<lambda>(_, w) xs. xs @ wr_risks w) kids (wr_risks parent),
      wr_changed_artifacts := fold (\<lambda>(_, w) xs. xs @ filter (\<lambda>a. a \<notin> set xs) (wr_changed_artifacts w))
        kids (wr_changed_artifacts parent)\<rparr>"

definition synthesize_children ::
  "outside \<Rightarrow> provider_config \<Rightarrow> string \<Rightarrow> string \<Rightarrow> task_submission \<Rightarrow> worker_result
    \<Rightarrow> (string \<times> worker_result) list \<Rightarrow> int \<Rightarrow> meter \<Rightarrow> router \<Rightarrow> (rexc + worker_result) \<times> meter \<times> router" where
  "synthesize_children O1 cfg model_id tid sub parent kids max_out mt r =
    (let req = \<lparr>gr_request_id = ''req_'' @ tid @ ''_synth'', gr_task_id = tid, gr_model_id = model_id,
                gr_messages = [(''user'', synth_prompt sub parent kids)], gr_max_output_tokens = max_out,
                gr_temperature = 2 / 10, gr_priority = PNormal\<rparr>
     in case source_generate (gateway_send O1 cfg) model_id req fresh_source r of
          (Inl e, src, r1) \<Rightarrow> (Inl e, meter_add src mt, r1)
        | (Inr resp, src, r1) \<Rightarrow>
            (Inr (fold_children parent (py_strip (gp_output_text resp)) kids), meter_add src mt, r1))"

text \<open>Run one worker: build the runtime, run it, and meter what it used however it ends.\<close>

definition run_worker ::
  "outside \<Rightarrow> provider_config \<Rightarrow> task_submission \<Rightarrow> string \<Rightarrow> privacy_class option \<Rightarrow> nat \<Rightarrow> int \<Rightarrow> meter \<Rightarrow> router
    \<Rightarrow> (rexc + worker_result) \<times> meter \<times> router" where
  "run_worker O1 cfg sub tid pc depth max_out mt r =
    (let model_id = model_for sub r;
         rc = \<lparr>rt_model_id = model_id, rt_max_output_tokens = max_out,
               rt_allow_delegation = (o_enable_delegation O1 \<and> depth < o_max_delegation_depth O1),
               rt_delegation_depth = depth, rt_max_delegation_depth = o_max_delegation_depth O1,
               rt_max_subtasks = o_max_subtasks O1\<rparr>
     in case o_local_runtime O1 sub tid rc (rs_trace r) of
          Inl e \<Rightarrow> (Inl (Outside e), mt, r)
        | Inr rt \<Rightarrow>
            (case run_runtime rt (gateway_send O1 cfg) model_id fresh_source
                    (r\<lparr>rs_trace := rs_trace r @ [AgentRun cfg depth pc sub]\<rparr>) of
               (out, src, r1) \<Rightarrow> (out, meter_add src mt, r1)))"

text \<open>What is stored and logged of a child when it has ended.\<close>

definition note_child :: "outside \<Rightarrow> string \<Rightarrow> nat \<Rightarrow> nat \<Rightarrow> string \<Rightarrow> privacy_class option \<Rightarrow> worker_result \<Rightarrow> unit rm" where
  "note_child O1 tid depth i child_id pc w =
    seq (on_db (put_artifact (Some tid) ''child_output'' (o_dump_worker O1 w) ''text/plain''))
      (append_line tid (''delegate_child depth='' @ show_int (int depth + 1) @ '' idx='' @ show_int (int i + 1)
         @ '' child='' @ child_id @ '' privacy='' @ (case pc of None \<Rightarrow> ''inherit'' | Some c \<Rightarrow> privacy_class_value c)
         @ '' status='' @ wr_status w @ '' confidence='' @ o_str_float O1 [] (wr_confidence w)) ''info'')"

function (sequential) agentic_tree ::
  "outside \<Rightarrow> provider_config \<Rightarrow> task_submission \<Rightarrow> string \<Rightarrow> privacy_class option \<Rightarrow> nat \<Rightarrow> int \<Rightarrow> meter \<Rightarrow> router
    \<Rightarrow> (rexc + worker_result) \<times> meter \<times> router"
and agentic_children ::
  "outside \<Rightarrow> provider_config \<Rightarrow> task_submission \<Rightarrow> string \<Rightarrow> privacy_class option \<Rightarrow> nat \<Rightarrow> int \<Rightarrow> nat
    \<Rightarrow> sub_task list \<Rightarrow> meter \<Rightarrow> router \<Rightarrow> (rexc + (string \<times> worker_result) list) \<times> meter \<times> router" where
  "agentic_tree O1 cfg sub tid pc depth max_out mt r =
    (case run_worker O1 cfg sub tid pc depth max_out mt r of
       (Inl e, mt1, r1) \<Rightarrow> (Inl e, mt1, r1)
     | (Inr w, mt1, r1) \<Rightarrow>
         if \<not> (o_enable_delegation O1 \<and> depth < o_max_delegation_depth O1 \<and> wr_status w = ''completed''
               \<and> wr_subtasks w \<noteq> [])
         then (Inr w, mt1, r1)
         else
           (case agentic_children O1 cfg sub tid pc depth max_out 0 (wr_subtasks w) mt1 r1 of
              (Inl e, mt2, r2) \<Rightarrow> (Inl e, mt2, r2)
            | (Inr kids, mt2, r2) \<Rightarrow>
                synthesize_children O1 cfg (model_for sub r) tid sub w kids max_out mt2 r2))"
| "agentic_children O1 cfg sub tid pc depth max_out i [] mt r = (Inr [], mt, r)"
| "agentic_children O1 cfg sub tid pc depth max_out i (st # sts) mt r =
    (let child_pc = child_privacy_class (privacy (rs_engine r)) pc (st_privacy_class st);
         child_id = tid @ ''/d'' @ show_int (int depth + 1) @ ''.'' @ show_int (int i + 1)
     in case (if child_pc = Some secret_sensitive then (Inr refused_child, mt, r)
              else agentic_tree O1 cfg (child_submission sub st child_pc) child_id child_pc (Suc depth) max_out mt r) of
          (Inl e, mt1, r1) \<Rightarrow> (Inl e, mt1, r1)
        | (Inr w, mt1, r1) \<Rightarrow>
            (let mt2 = mt1\<lparr>mt_children := mt_children mt1 + 1\<rparr>
             in case note_child O1 tid depth i child_id child_pc w r1 of
                  (Inl e, r2) \<Rightarrow> (Inl e, mt2, r2)
                | (Inr _, r2) \<Rightarrow>
                    (case agentic_children O1 cfg sub tid pc depth max_out (Suc i) sts mt2 r2 of
                       (Inl e, mt3, r3) \<Rightarrow> (Inl e, mt3, r3)
                     | (Inr kids, mt3, r3) \<Rightarrow> (Inr ((st_task st, w) # kids), mt3, r3))))"
  by pat_completeness auto

termination
  by (relation "measures
      [\<lambda>x. case x of Inl (O1, _, _, _, _, depth, _) \<Rightarrow> 2 * (o_max_delegation_depth O1 - depth)
                 | Inr (O1, _, _, _, _, depth, _) \<Rightarrow> 2 * (o_max_delegation_depth O1 - depth) - 1,
       \<lambda>x. case x of Inl _ \<Rightarrow> 0 | Inr (_, _, _, _, _, _, _, _, sts, _) \<Rightarrow> length sts]") auto

section \<open>Agentic execution\<close>

definition first_line_or :: "string \<Rightarrow> string \<Rightarrow> string" where
  "first_line_or t d = (if first_line t = [] then d else first_line t)"

definition complete_task :: "outside \<Rightarrow> string \<Rightarrow> unit rm" where
  "complete_task O1 tid =
    seq (transition_to O1 tid ARTIFACTS_WRITTEN)
    (seq (transition_to O1 tid CHECKS_RUN)
    (seq (transition_to O1 tid REVIEW_READY)
    (seq (transition_to O1 tid APPROVED)
    (seq (transition_to O1 tid COMPLETE) (ret ())))))"

text \<open>The tail the three agentic paths share: the result decides between COMPLETE and FAILED.\<close>

definition conclude :: "outside \<Rightarrow> string \<Rightarrow> worker_result \<Rightarrow> string \<Rightarrow> string \<Rightarrow> task_summary rm" where
  "conclude O1 tid w if_done if_not =
    seq (if wr_status w = ''completed'' then
           seq (complete_task O1 tid)
             (note_outcome tid (first_line_or (wr_summary w) if_done)
               (str_or (wr_recommended_next_action w) ''Read the output artifact chunk if details are needed.''))
         else
           seq (transition_to O1 tid FAILED)
             (note_outcome tid (first_line_or (wr_summary w) if_not)
               (str_or (wr_recommended_next_action w) ''Raise the step limit or narrow the task, then retry.'')))
        (summary_of tid)"

definition eval_status :: "worker_result \<Rightarrow> string" where
  "eval_status w = (if wr_status w = ''completed'' then ''completed'' else ''failed'')"

definition fail_task :: "outside \<Rightarrow> string \<Rightarrow> string \<Rightarrow> string \<Rightarrow> string \<Rightarrow> task_summary rm" where
  "fail_task O1 tid line summary next_action =
    seq (append_line tid line ''error'')
    (seq (transition_to O1 tid FAILED)
    (seq (note_outcome tid summary next_action) (summary_of tid)))"

definition settle :: "outside \<Rightarrow> quota_reservation option \<Rightarrow> provider_config \<Rightarrow> int \<Rightarrow> int \<Rightarrow> string \<Rightarrow> string option \<Rightarrow> unit rm" where
  "settle O1 reservation cfg in_tok out_tok st why =
    (case reservation of
       None \<Rightarrow> ret ()
     | Some q \<Rightarrow> modify (\<lambda>r. r\<lparr>rs_quota := reconcile (o_threads O1) q cfg in_tok out_tok st why (rs_quota r)\<rparr>))"

definition agentic_line ::
  "outside \<Rightarrow> provider_config \<Rightarrow> string \<Rightarrow> worker_result \<Rightarrow> meter \<Rightarrow> string \<Rightarrow> string" where
  "agentic_line O1 cfg model_id w mt output_ref =
    ''agentic provider='' @ provider_id cfg @ '' model='' @ model_id @ '' steps='' @ show_int (mt_calls mt)
    @ '' status='' @ wr_status w @ '' confidence='' @ o_str_float O1 [] (wr_confidence w)
    @ '' in='' @ show_int (mt_in mt) @ '' out='' @ show_int (mt_out mt)
    @ '' changed='' @ show_int (int (length (wr_changed_artifacts w)))
    @ '' delegated='' @ show_int (mt_children mt) @ '' output_ref='' @ output_ref"

definition agentic_failed ::
  "outside \<Rightarrow> provider_config \<Rightarrow> task_submission \<Rightarrow> string \<Rightarrow> string \<Rightarrow> quota_reservation option \<Rightarrow> meter \<Rightarrow> rexc
    \<Rightarrow> task_summary rm" where
  "agentic_failed O1 cfg sub tid model_id reservation mt e =
    bnd (latency O1) (\<lambda>ms.
    seq (settle O1 reservation cfg (mt_in mt) (mt_out mt) ''failed'' (Some (o_str_exc O1 e)))
    (seq (record_eval (provider_id cfg) model_id tid (ts_agent_type sub) ''failed'' ms (mt_in mt) (mt_out mt) 0 None)
    (fail_task O1 tid (''agentic_run_failed: '' @ o_str_exc O1 e)
      (''Agentic run on '' @ provider_id cfg @ '' failed.'')
      ''Inspect logs via get_log_slice; retry or reroute.'')))"

definition agentic_done ::
  "outside \<Rightarrow> provider_config \<Rightarrow> task_submission \<Rightarrow> string \<Rightarrow> string \<Rightarrow> quota_reservation option \<Rightarrow> meter \<Rightarrow> worker_result
    \<Rightarrow> task_summary rm" where
  "agentic_done O1 cfg sub tid model_id reservation mt w =
    bnd (latency O1) (\<lambda>ms.
    seq (settle O1 reservation cfg (mt_in mt) (mt_out mt) ''completed'' None)
    (seq (record_eval (provider_id cfg) model_id tid (ts_agent_type sub) (eval_status w) ms (mt_in mt) (mt_out mt)
           (estimate_cost_usd cfg (mt_in mt) (mt_out mt)) (Some (wr_confidence w)))
    (bnd (on_db (put_artifact (Some tid) ''output'' (o_dump_worker O1 w) ''text/plain'')) (\<lambda>output_ref.
     seq (append_line tid (agentic_line O1 cfg model_id w mt output_ref) ''info'')
     (conclude O1 tid w ''Agentic task completed.'' ''Agentic task did not complete.'')))))"

section \<open>Agentic execution on a rented node\<close>

definition rented_line ::
  "outside \<Rightarrow> provider_config \<Rightarrow> string \<Rightarrow> node_handle \<Rightarrow> worker_result \<Rightarrow> model_source \<Rightarrow> string \<Rightarrow> string" where
  "rented_line O1 cfg model_id h w src output_ref =
    ''agentic provider='' @ provider_id cfg @ '' model='' @ model_id @ '' rented_node='' @ nh_node_id h
    @ '' steps='' @ show_int (src_calls src) @ '' status='' @ wr_status w
    @ '' confidence='' @ o_str_float O1 [] (wr_confidence w) @ '' in='' @ show_int (src_input_tokens src)
    @ '' out='' @ show_int (src_output_tokens src)
    @ '' changed='' @ show_int (int (length (wr_changed_artifacts w))) @ '' output_ref='' @ output_ref"

text \<open>Acquire, wire, bill and run. An exception is returned with what it left behind: whether the node
  was engaged (its loop had started) and the usage metered until then.\<close>

definition rented_loop ::
  "outside \<Rightarrow> provider_config \<Rightarrow> task_submission \<Rightarrow> string \<Rightarrow> string \<Rightarrow> int \<Rightarrow> router
    \<Rightarrow> ((rexc \<times> bool \<times> model_source) + (worker_result \<times> node_handle \<times> model_source)) \<times> router" where
  "rented_loop O1 cfg sub tid model_id max_out r =
    (case acquire_node O1 cfg (spec_from_provider cfg (Some model_id)) r of
       (Inl e, r1) \<Rightarrow> (Inl (e, False, fresh_source), r1)
     | (Inr (h, reused), r1) \<Rightarrow>
         (case rented_client O1 cfg h r1 of
            (Inl e, r2) \<Rightarrow> (Inl (e, False, fresh_source), r2)
          | (Inr client, r2) \<Rightarrow>
              (case bill_window cfg tid reused r2 of (_, r3) \<Rightarrow>
                 (case o_local_runtime O1 sub tid
                     \<lparr>rt_model_id = model_id, rt_max_output_tokens = max_out, rt_allow_delegation = False,
                      rt_delegation_depth = 0, rt_max_delegation_depth = 2, rt_max_subtasks = 8\<rparr> (rs_trace r3) of
                    Inl e \<Rightarrow> (Inl (Outside e, False, fresh_source), r3)
                  | Inr rt \<Rightarrow>
                      (case run_runtime rt (rented_send cfg h client) model_id fresh_source
                         (r3\<lparr>rs_trace := rs_trace r3 @ [AgentRun cfg 0 None sub]\<rparr>) of
                         (Inl e, src, r4) \<Rightarrow> (Inl (e, True, src), r4)
                       | (Inr w, src, r4) \<Rightarrow> (Inr (w, h, src), r4))))))"

definition rented_failed ::
  "outside \<Rightarrow> provider_config \<Rightarrow> task_submission \<Rightarrow> string \<Rightarrow> string \<Rightarrow> rexc \<Rightarrow> bool \<Rightarrow> model_source \<Rightarrow> task_summary rm" where
  "rented_failed O1 cfg sub tid model_id e engaged src =
    seq (if engaged then evict_rented_node O1 cfg tid else ret ())
    (bnd (latency O1) (\<lambda>ms.
     seq (record_eval (provider_id cfg) model_id tid (ts_agent_type sub) ''failed'' ms
            (src_input_tokens src) (src_output_tokens src) 0 None)
     (fail_task O1 tid (''agentic_run_failed: '' @ o_str_exc O1 e)
       (''Agentic run on rented node '' @ provider_id cfg @ '' failed.'')
       ''Inspect logs via get_log_slice; retry or reroute.'')))"

definition rented_done ::
  "outside \<Rightarrow> provider_config \<Rightarrow> task_submission \<Rightarrow> string \<Rightarrow> string \<Rightarrow> worker_result \<Rightarrow> node_handle \<Rightarrow> model_source
    \<Rightarrow> task_summary rm" where
  "rented_done O1 cfg sub tid model_id w h src =
    bnd (latency O1) (\<lambda>ms.
    seq (record_eval (provider_id cfg) model_id tid (ts_agent_type sub) (eval_status w) ms
           (src_input_tokens src) (src_output_tokens src)
           (estimate_cost_usd cfg (src_input_tokens src) (src_output_tokens src)) (Some (wr_confidence w)))
    (bnd (on_db (put_artifact (Some tid) ''output'' (o_dump_worker O1 w) ''text/plain'')) (\<lambda>output_ref.
     seq (append_line tid (rented_line O1 cfg model_id h w src output_ref) ''info'')
     (conclude O1 tid w ''Agentic task completed.'' ''Agentic task did not complete.''))))"

definition run_agentic_rented ::
  "outside \<Rightarrow> provider_config \<Rightarrow> task_submission \<Rightarrow> string \<Rightarrow> int \<Rightarrow> task_summary rm" where
  "run_agentic_rented O1 cfg sub tid max_out =
    bnd (asks (model_for sub)) (\<lambda>model_id.
    seq (enter_pool O1)
    (seq (reap_idle_nodes O1)
    (\<lambda>r. case rented_loop O1 cfg sub tid model_id max_out r of
       (Inl (e, engaged, src), r1) \<Rightarrow>
         finally_do (rented_failed O1 cfg sub tid model_id e engaged src) (release_node cfg) r1
     | (Inr (w, h, src), r1) \<Rightarrow>
         seq (release_node cfg) (rented_done O1 cfg sub tid model_id w h src) r1)))"

definition run_agentic ::
  "outside \<Rightarrow> provider_config \<Rightarrow> task_submission \<Rightarrow> string \<Rightarrow> int \<Rightarrow> quota_reservation option \<Rightarrow> privacy_class
    \<Rightarrow> task_summary rm" where
  "run_agentic O1 cfg sub tid max_out reservation pc =
    (if is_rented cfg then run_agentic_rented O1 cfg sub tid max_out
     else
       bnd (asks (model_for sub)) (\<lambda>model_id r.
         case agentic_tree O1 cfg sub tid (Some pc) 0 max_out no_usage r of
           (Inl e, mt, r1) \<Rightarrow> agentic_failed O1 cfg sub tid model_id reservation mt e r1
         | (Inr w, mt, r1) \<Rightarrow> agentic_done O1 cfg sub tid model_id reservation mt w r1))"

section \<open>Remote workers\<close>

fun pick_worker ::
  "outside \<Rightarrow> wq_config \<Rightarrow> (remote_worker \<Rightarrow> ext_call list \<Rightarrow> string + remote_runtime) \<Rightarrow> string \<Rightarrow> ext_call list
    \<Rightarrow> remote_worker list \<Rightarrow> (remote_worker \<times> remote_runtime) option" where
  "pick_worker O1 wq factory pc t [] = None"
| "pick_worker O1 wq factory pc t (w # ws) =
    (if \<not> may_claim wq (Some (rw_tier w)) pc then pick_worker O1 wq factory pc t ws
     else (case factory w t of
             Inl e \<Rightarrow> pick_worker O1 wq factory pc t ws
           | Inr rt \<Rightarrow> (if rr_can_accept rt = Inr True then Some (w, rt) else pick_worker O1 wq factory pc t ws)))"

definition select_remote_worker :: "outside \<Rightarrow> privacy_class \<Rightarrow> (remote_worker \<times> remote_runtime) option rm" where
  "select_remote_worker O1 pc =
    (case (o_wq O1, o_remote_factory O1) of
       (Some wq, Some factory) \<Rightarrow>
         asks (\<lambda>r. pick_worker O1 wq factory (privacy_class_value pc) (rs_trace r) (o_remote_workers O1))
     | _ \<Rightarrow> ret None)"

definition remote_line :: "outside \<Rightarrow> remote_worker \<Rightarrow> string \<Rightarrow> worker_result \<Rightarrow> int \<Rightarrow> int \<Rightarrow> string \<Rightarrow> string" where
  "remote_line O1 wk model_id w in_tok out_tok output_ref =
    ''agentic_remote worker='' @ rw_worker_id wk @ '' model='' @ model_id @ '' status='' @ wr_status w
    @ '' confidence='' @ o_str_float O1 [] (wr_confidence w) @ '' in='' @ show_int in_tok
    @ '' out='' @ show_int out_tok @ '' changed='' @ show_int (int (length (wr_changed_artifacts w)))
    @ '' output_ref='' @ output_ref"

definition remote_done ::
  "outside \<Rightarrow> remote_worker \<Rightarrow> task_submission \<Rightarrow> string \<Rightarrow> worker_result \<Rightarrow> task_summary rm" where
  "remote_done O1 wk sub tid w =
    bnd (latency O1) (\<lambda>ms.
    (let (in_tok, out_tok, model_id) = (case wr_usage w of None \<Rightarrow> (0, 0, [])
           | Some u \<Rightarrow> (wu_input_tokens u, wu_output_tokens u, str_or (wu_model_id u) []))
     in
     seq (if wr_usage w = None then append_line tid (''usage_unreported worker='' @ rw_worker_id wk) ''info'' else ret ())
     (seq (record_eval (''remote:'' @ rw_worker_id wk) model_id tid (ts_agent_type sub) (eval_status w) ms
             in_tok out_tok 0 (Some (wr_confidence w)))
     (bnd (on_db (put_artifact (Some tid) ''output'' (o_dump_worker O1 w) ''text/plain'')) (\<lambda>output_ref.
      seq (append_line tid (remote_line O1 wk model_id w in_tok out_tok output_ref) ''info'')
      (conclude O1 tid w ''Remote agentic task completed.'' ''Remote agentic task did not complete.''))))))"

definition run_agentic_remote ::
  "outside \<Rightarrow> remote_worker \<Rightarrow> remote_runtime \<Rightarrow> task_submission \<Rightarrow> string \<Rightarrow> privacy_class \<Rightarrow> task_summary rm" where
  "run_agentic_remote O1 wk rt sub tid pc =
    seq (transition_to O1 tid ELIGIBLE_PROVIDERS_COMPUTED)
    (seq (append_line tid (''remote_dispatch worker='' @ rw_worker_id wk @ '' tier='' @ rw_tier wk
            @ '' privacy_class='' @ privacy_class_value pc @ '' endpoint='' @ rw_endpoint wk) ''info'')
    (seq (transition_to O1 tid QUEUED)
    (seq (transition_to O1 tid DISPATCHED)
    (seq (transition_to O1 tid RUNNING)
    (seq (note_call (RemoteRun (rw_worker_id wk) sub tid))
    (case rr_run rt sub tid of
       Inl e \<Rightarrow>
         bnd (latency O1) (\<lambda>ms.
         seq (record_eval (''remote:'' @ rw_worker_id wk) [] tid (ts_agent_type sub) ''failed'' ms 0 0 0 None)
         (fail_task O1 tid (''remote_dispatch_failed worker='' @ rw_worker_id wk @ '': '' @ e)
           (''Remote agentic dispatch to '' @ rw_worker_id wk @ '' failed.'')
           ''Inspect logs via get_log_slice; retry or run in-process.''))
     | Inr w \<Rightarrow> remote_done O1 wk sub tid w))))))"

end
