(* ===== verification/Router_Service.thy ===== *)
theory Router_Service
  imports Router_Dispatch
begin

text \<open>
  The router service of \<^verbatim>\<open>router/service.py\<close>: the submission pipeline from classification to the
  stored result, the tie-in with the work queue, decision-only routing, the spend gate, and the
  tools on tasks, artifacts and budget.
\<close>

section \<open>Budget\<close>

datatype budget_reply = BudgetError string | BudgetStatus status_result

definition refresh_budget_state :: "outside \<Rightarrow> unit rm" where
  "refresh_budget_state O1 =
    (case o_budget O1 of
       None \<Rightarrow> ret ()
     | Some bm \<Rightarrow>
         bnd (asks mem) (\<lambda>m.
         bnd (of_store (is_configured bm m)) (\<lambda>c.
         bnd (of_store (budget_remaining bm m (clock m))) (\<lambda>rem.
         bnd (of_store (pressure bm m (clock m))) (\<lambda>pr.
         modify (\<lambda>r. r\<lparr>rs_engine := set_budget_state c rem pr (require_explicit bm) (rs_engine r)\<rparr>))))))"

definition refresh_learned :: "outside \<Rightarrow> unit rm" where
  "refresh_learned O1 =
    (case o_evaluator O1 of
       None \<Rightarrow> ret ()
     | Some n \<Rightarrow> modify (\<lambda>r. r\<lparr>rs_engine :=
         set_learned_quality (map_of (learned_quality n (mem r))) (rs_engine r)\<rparr>))"

definition set_budget_tool :: "outside \<Rightarrow> real \<Rightarrow> string \<Rightarrow> budget_reply rm" where
  "set_budget_tool O1 amount p =
    (case o_budget O1 of
       None \<Rightarrow> ret (BudgetError ''budget_manager_unavailable'')
     | Some bm \<Rightarrow> (\<lambda>r.
         case set_budget amount p (mem r) of
           (Inl (ValueError msg), m) \<Rightarrow> (Inr (BudgetError msg), put_mem m r)
         | (Inl e, m) \<Rightarrow> (Inl (Store e), put_mem m r)
         | (Inr _, m) \<Rightarrow>
             bnd (of_store (budget_status bm m (clock m))) (\<lambda>s. ret (BudgetStatus s)) (put_mem m r)))"

definition get_budget_status :: "outside \<Rightarrow> budget_reply rm" where
  "get_budget_status O1 =
    (case o_budget O1 of
       None \<Rightarrow> ret (BudgetError ''budget_manager_unavailable'')
     | Some bm \<Rightarrow> bnd (asks mem) (\<lambda>m. bnd (of_store (budget_status bm m (clock m))) (\<lambda>s. ret (BudgetStatus s))))"

section \<open>Routing\<close>

definition route_now :: "outside \<Rightarrow> routing_context \<Rightarrow> manager_status option \<Rightarrow> routing_decision rm" where
  "route_now O1 ctx st r =
    (case route (o_threads O1) (rs_engine r) ctx st (rs_quota r) of
       (None, L) \<Rightarrow> (Inl AssertionError, r\<lparr>rs_quota := L\<rparr>)
     | (Some d, L) \<Rightarrow> (Inr d, r\<lparr>rs_quota := L\<rparr>))"

definition decide_route :: "outside \<Rightarrow> routing_context \<Rightarrow> routing_decision rm" where
  "decide_route O1 ctx =
    seq (refresh_learned O1) (seq (refresh_budget_state O1) (bnd (local_status O1) (route_now O1 ctx)))"

text \<open>Asking the user for a budget; \<open>True\<close> when one was set, so that routing is tried again.\<close>

definition prompt_budget :: "outside \<Rightarrow> bool rm" where
  "prompt_budget O1 =
    (case (o_budget O1, o_authorizer O1) of
       (Some bm, Some au) \<Rightarrow>
         bnd (asks rs_trace) (\<lambda>t.
         seq (note_call (AskBudget (suggested_period bm)))
         (bnd (of_result (au_request_budget au t (suggested_period bm))) (\<lambda>got.
          case got of
            None \<Rightarrow> ret False
          | Some (amount, p) \<Rightarrow>
              if amount > 0 then
                (\<lambda>r. case set_budget amount (case p of None \<Rightarrow> suggested_period bm | Some x \<Rightarrow> x) (mem r) of
                   (Inl (ValueError _), m) \<Rightarrow> (Inr False, put_mem m r)
                 | (Inl e, m) \<Rightarrow> (Inl (Store e), put_mem m r)
                 | (Inr _, m) \<Rightarrow> (Inr True, put_mem m r))
              else ret False)))
     | _ \<Rightarrow> ret False)"

definition route_with_budget_prompt ::
  "outside \<Rightarrow> routing_context \<Rightarrow> manager_status option \<Rightarrow> routing_decision rm" where
  "route_with_budget_prompt O1 ctx st =
    seq (refresh_budget_state O1)
    (bnd (route_now O1 ctx st) (\<lambda>d.
     if rd_selected_provider d \<noteq> None then ret d
     else if ''budget_not_configured'' \<in> set (map snd (rd_rejected d)) then
       bnd (prompt_budget O1) (\<lambda>again.
         if again then seq (refresh_budget_state O1) (route_now O1 ctx st) else ret d)
     else ret d))"

definition charge_of :: "outside \<Rightarrow> provider_config \<Rightarrow> routing_context \<Rightarrow> string \<Rightarrow> charge_request rm" where
  "charge_of O1 cfg ctx task_text =
    bnd (asks mem) (\<lambda>m.
    (let base = \<lparr>cr_provider = provider_id cfg,
                 cr_kind = (if is_rented cfg then ''rented_gpu'' else ''paid_cloud''),
                 cr_estimated_cost_usd =
                   (if is_rented cfg then (case rental cfg of None \<Rightarrow> 0 | Some x \<Rightarrow> rental_window_cost x)
                    else estimate_cost_usd cfg (rc_est_input_tokens ctx) (rc_est_output_tokens ctx)),
                 cr_task_summary = take 120 task_text, cr_period = None, cr_budget_amount_usd = None,
                 cr_remaining_usd = None\<rparr>
     in case o_budget O1 of
          None \<Rightarrow> ret base
        | Some bm \<Rightarrow>
            bnd (of_store (config bm m)) (\<lambda>c. case c of
              None \<Rightarrow> ret base
            | Some b \<Rightarrow>
                bnd (of_store (budget_remaining bm m (clock m))) (\<lambda>rem.
                ret (base\<lparr>cr_period := Some (period b), cr_budget_amount_usd := Some (amount_usd b),
                          cr_remaining_usd := Some rem\<rparr>)))))"

definition confirm_charge :: "outside \<Rightarrow> provider_config \<Rightarrow> routing_context \<Rightarrow> string \<Rightarrow> string \<Rightarrow> bool rm" where
  "confirm_charge O1 cfg ctx task_text tid =
    bnd (charge_of O1 cfg ctx task_text) (\<lambda>req.
    bnd (case o_authorizer O1 of
           None \<Rightarrow> ret False
         | Some au \<Rightarrow>
             bnd (asks rs_trace) (\<lambda>t.
             bnd (of_result (au_confirm_charge au t req)) (\<lambda>ok.
             seq (note_call (AskCharge req ok)) (ret ok)))) (\<lambda>approved.
    seq (append_line tid (''spend_confirmation provider='' @ provider_id cfg @ '' est_cost=''
           @ o_str_float O1 ''.4f'' (cr_estimated_cost_usd req) @ '' approved='' @ show_bool approved) ''info'')
    (ret approved)))"

section \<open>Submission\<close>

definition classify_submission :: "outside \<Rightarrow> task_submission \<Rightarrow> privacy_class" where
  "classify_submission O1 sub =
    classify (o_detectors O1) (o_sensitive_path O1) (ts_task sub)
      (Some \<lparr>file_paths = ts_refs sub, from_private_repo = False,
             declared = tc_privacy_class (ts_constraints sub)\<rparr>)"

definition redact_submission :: "outside \<Rightarrow> task_submission \<Rightarrow> redaction_result \<times> string" where
  "redact_submission O1 sub = redact (o_detectors O1) (ts_task sub) (classify_submission O1 sub)"

definition is_agentic :: "task_submission \<Rightarrow> bool" where
  "is_agentic sub \<longleftrightarrow> tc_execution (ts_constraints sub) = ''agentic''"

text \<open>Steps 1 to 4: the task row, its class, and the redacted payload.\<close>

definition receive :: "outside \<Rightarrow> task_submission \<Rightarrow> string rm" where
  "receive O1 sub =
    bnd (on_db (create_task (o_dump_submission O1 sub) (ts_agent_type sub))) (\<lambda>tid.
    seq (append_line tid (''submitted agent_type='' @ show_opt (ts_agent_type sub)) ''info'')
    (seq (transition_to O1 tid CLASSIFIED)
    (let pc = classify_submission O1 sub; (red, redacted) = redact_submission O1 sub
     in seq (on_db (put_artifact (Some tid) ''sanitized_payload'' redacted ''text/plain''))
        (seq (append_line tid (''privacy_class='' @ privacy_class_value pc @ '' cloud_safe='' @ show_bool (rr_cloud_safe red)
                @ '' redactions='' @ show_int (int (length (rr_redactions red))) @ '' lossiness='' @ rr_lossiness red) ''info'')
        (seq (set_task tid [(''privacy_class'', CText (privacy_class_value pc))])
        (seq (transition_to O1 tid PRIVACY_CHECKED) (ret tid)))))))"

definition max_out_of :: "outside \<Rightarrow> task_submission \<Rightarrow> int" where
  "max_out_of O1 sub =
    (let d = (case o_default_max_output_tokens O1 of None \<Rightarrow> 1200 | Some n \<Rightarrow> n)
     in case tc_max_output_tokens (ts_constraints sub) of None \<Rightarrow> d | Some n \<Rightarrow> if n = 0 then d else n)"

definition profile_for :: "task_submission \<Rightarrow> router \<Rightarrow> string" where
  "profile_for sub r =
    str_or (tc_profile (ts_constraints sub))
      (case agent_defaults (profiles (rs_engine r)) (str_or (ts_agent_type sub) []) of
         None \<Rightarrow> ''resident_ok'' | Some p \<Rightarrow> p)"

definition context_for :: "outside \<Rightarrow> task_submission \<Rightarrow> string \<Rightarrow> router \<Rightarrow> routing_context" where
  "context_for O1 sub tid r =
    (let tc = ts_constraints sub; (in_tok, out_tok) = estimate_io_tokens (ts_task sub) (max_out_of O1 sub)
     in \<lparr>rc_task_id = tid, rc_privacy_class = classify_submission O1 sub,
         rc_needed_capabilities = capabilities_for (ts_agent_type sub),
         rc_profile = Some (profile_for sub r), rc_require_exact_model = tc_require_exact_model tc,
         rc_est_input_tokens = in_tok, rc_est_output_tokens = out_tok,
         rc_allow_external = tc_allow_external tc, rc_allow_paid = tc_allow_paid tc,
         rc_priority = tc_priority tc,
         rc_quality = (if tc_quality tc = ''high'' then ''high'' else ''standard''),
         rc_cloud_safe = rr_cloud_safe (fst (redact_submission O1 sub)),
         rc_pending_same_model_batch = 0, rc_allow_rented = tc_allow_rented tc\<rparr>)"

section \<open>One-shot execution\<close>

definition oneshot_request :: "outside \<Rightarrow> task_submission \<Rightarrow> string \<Rightarrow> provider_config \<Rightarrow> string \<Rightarrow> string \<Rightarrow> generate_request" where
  "oneshot_request O1 sub tid cfg model_id h =
    \<lparr>gr_request_id = ''req_'' @ take 10 h, gr_task_id = tid, gr_model_id = model_id,
     gr_messages = [(''user'', if p_type cfg = ''cloud'' then snd (redact_submission O1 sub) else ts_task sub)],
     gr_max_output_tokens = max_out_of O1 sub, gr_temperature = 2 / 10,
     gr_priority = tc_priority (ts_constraints sub)\<rparr>"

definition oneshot_failed ::
  "outside \<Rightarrow> task_submission \<Rightarrow> string \<Rightarrow> provider_config \<Rightarrow> quota_reservation option \<Rightarrow> string \<Rightarrow> rexc \<Rightarrow> task_summary rm" where
  "oneshot_failed O1 sub tid cfg reservation model_id e =
    bnd (latency O1) (\<lambda>ms.
    seq (settle O1 reservation cfg 0 0 ''failed'' (Some (o_str_exc O1 e)))
    (seq (record_eval (provider_id cfg) model_id tid (ts_agent_type sub) ''failed'' ms 0 0 0 None)
    (fail_task O1 tid (''dispatch_failed: '' @ o_str_exc O1 e)
      (''Dispatch to '' @ provider_id cfg @ '' failed.'') ''Inspect logs via get_log_slice; retry or reroute.'')))"

definition stored_output :: "outside \<Rightarrow> string \<Rightarrow> string \<Rightarrow> string rm" where
  "stored_output O1 tid t =
    (case scan_output (o_guard O1) t tid of
       None \<Rightarrow> ret t
     | Some v \<Rightarrow>
         seq (append_line tid (describe v ''output'') ''info'')
         (ret (if enforcing (o_guard O1) then safe_output (o_guard O1) (Some v) t else t)))"

definition oneshot_done ::
  "outside \<Rightarrow> task_submission \<Rightarrow> string \<Rightarrow> provider_config \<Rightarrow> quota_reservation option \<Rightarrow> gateway_result \<Rightarrow> task_summary rm" where
  "oneshot_done O1 sub tid cfg reservation g =
    bnd (latency O1) (\<lambda>ms.
    seq (settle O1 reservation cfg (gw_input_tokens g) (gw_output_tokens g) ''completed'' None)
    (seq (record_eval (provider_id cfg) (gw_model g) tid (ts_agent_type sub) ''completed'' ms (gw_input_tokens g)
            (gw_output_tokens g) (estimate_cost_usd cfg (gw_input_tokens g) (gw_output_tokens g)) None)
    (bnd (stored_output O1 tid (gw_output_text g)) (\<lambda>stored.
     bnd (on_db (put_artifact (Some tid) ''output'' stored ''text/plain'')) (\<lambda>output_ref.
     seq (complete_task O1 tid)
     (seq (note_outcome tid (first_line stored) ''Read the output artifact chunk if details are needed.'')
     (seq (append_line tid (''completed provider='' @ provider_id cfg @ '' model='' @ gw_model g
             @ '' in='' @ show_int (gw_input_tokens g) @ '' out='' @ show_int (gw_output_tokens g)
             @ '' output_ref='' @ output_ref) ''info'')
     (summary_of tid))))))))"

definition run_oneshot ::
  "outside \<Rightarrow> task_submission \<Rightarrow> string \<Rightarrow> provider_config \<Rightarrow> quota_reservation option \<Rightarrow> string option \<Rightarrow> task_summary rm" where
  "run_oneshot O1 sub tid cfg reservation selected_model =
    bnd (asks (\<lambda>r. str_or selected_model (default_resident_model (profiles (rs_engine r))))) (\<lambda>model_id.
    bnd (on_db (\<lambda>m. case draw m of (h, m') \<Rightarrow> (Inr h, m'))) (\<lambda>h r.
      case dispatch O1 cfg (oneshot_request O1 sub tid cfg model_id h) r of
        (Inl e, r1) \<Rightarrow> oneshot_failed O1 sub tid cfg reservation model_id e r1
      | (Inr g, r1) \<Rightarrow> oneshot_done O1 sub tid cfg reservation g r1))"

section \<open>The pipeline\<close>

definition rented_refusal :: "provider_config \<Rightarrow> string \<times> string" where
  "rented_refusal cfg =
    (if is_rented cfg then
       (''Agentic execution on a rented node ('' @ provider_id cfg @ '') needs allow_rented=True and a node whose trust satisfies the repo_sensitive policy (ephemeral/encrypted_volume/own_image/no_external_logging).'',
        ''Set allow_rented=True and route to a trusted private rented node, or resubmit as one-shot.'')
     else
       (''Agentic execution needs a local or trusted rented node; routing selected '' @ provider_id cfg
          @ '' ('' @ p_type cfg @ '').'',
        ''Resubmit as one-shot, or constrain the task so a local (or trusted rented) model is eligible.''))"

definition agentic_allowed :: "task_submission \<Rightarrow> provider_config \<Rightarrow> bool" where
  "agentic_allowed sub cfg \<longleftrightarrow>
    (p_type cfg = ''local'' \<and> \<not> is_rented cfg)
    \<or> (is_rented cfg \<and> tc_allow_rented (ts_constraints sub) \<and> rented_trust_ok cfg)"

definition needs_confirmation :: "provider_config \<Rightarrow> bool" where
  "needs_confirmation cfg \<longleftrightarrow> p_privacy cfg = ''external_paid'' \<or> is_rented cfg"

text \<open>Step 14 on: the states up to RUNNING, then the execution.\<close>

definition execute ::
  "outside \<Rightarrow> task_submission \<Rightarrow> string \<Rightarrow> provider_config \<Rightarrow> quota_reservation option \<Rightarrow> string option \<Rightarrow> task_summary rm" where
  "execute O1 sub tid cfg reservation selected_model =
    seq (transition_to O1 tid QUEUED)
    (seq (transition_to O1 tid DISPATCHED)
    (seq (transition_to O1 tid RUNNING)
    (if is_agentic sub then run_agentic O1 cfg sub tid (max_out_of O1 sub) reservation (classify_submission O1 sub)
     else run_oneshot O1 sub tid cfg reservation selected_model)))"

text \<open>Step 13: the reservation of cloud quota.\<close>

definition reserve_and_execute ::
  "outside \<Rightarrow> task_submission \<Rightarrow> string \<Rightarrow> provider_config \<Rightarrow> routing_context \<Rightarrow> string option \<Rightarrow> task_summary rm" where
  "reserve_and_execute O1 sub tid cfg ctx selected_model =
    (if p_type cfg = ''cloud'' then
       bnd (on_quota (reserve (o_threads O1) cfg tid (rc_est_input_tokens ctx) (rc_est_output_tokens ctx) 120)) (\<lambda>q.
         if \<not> qr_granted q then
           router_reject O1 tid (''Quota reservation denied for '' @ provider_id cfg @ '': '' @ qr_reason q @ ''.'')
             ''Wait for quota reset or route to a local model.''
         else execute O1 sub tid cfg (Some q) selected_model)
     else execute O1 sub tid cfg None selected_model)"

definition confirm_and_execute ::
  "outside \<Rightarrow> task_submission \<Rightarrow> string \<Rightarrow> provider_config \<Rightarrow> routing_context \<Rightarrow> string option \<Rightarrow> task_summary rm" where
  "confirm_and_execute O1 sub tid cfg ctx selected_model =
    (if needs_confirmation cfg then
       bnd (confirm_charge O1 cfg ctx (ts_task sub) tid) (\<lambda>ok.
         if \<not> ok then
           router_reject O1 tid ''Spend not confirmed by the user.''
             ''Approve the charge when prompted, adjust the budget, or resubmit constrained to free/local providers.''
         else reserve_and_execute O1 sub tid cfg ctx selected_model)
     else reserve_and_execute O1 sub tid cfg ctx selected_model)"

definition no_provider :: "routing_decision \<Rightarrow> string \<times> string" where
  "no_provider d =
    (if ''budget_not_configured'' \<in> set (map snd (rd_rejected d)) then
       (''No eligible provider: paid/rented need a spend budget, and none was set.'',
        ''The user declined / no budget is set. Set one via set_budget, or run the task on free/local providers.'')
     else
       (''No eligible provider ('' @ rd_decision d @ '').'',
        ''Relax constraints, sanitize the payload, or wait for quota/capacity.''))"

definition dispatch_selected ::
  "outside \<Rightarrow> task_submission \<Rightarrow> string \<Rightarrow> routing_context \<Rightarrow> routing_decision \<Rightarrow> task_summary rm" where
  "dispatch_selected O1 sub tid ctx d =
    (case rd_selected_provider d of
       None \<Rightarrow> router_reject O1 tid (fst (no_provider d)) (snd (no_provider d))
     | Some pid \<Rightarrow>
         bnd (asks (\<lambda>r. reg_get (registry (rs_engine r)) pid)) (\<lambda>x. case x of
           None \<Rightarrow> raise_exc AssertionError
         | Some cfg \<Rightarrow>
             if is_agentic sub \<and> \<not> agentic_allowed sub cfg
             then router_reject O1 tid (fst (rented_refusal cfg)) (snd (rented_refusal cfg))
             else confirm_and_execute O1 sub tid cfg ctx (rd_selected_model d)))"

text \<open>Steps 5 to 12: status, context, decision.\<close>

definition route_and_dispatch :: "outside \<Rightarrow> task_submission \<Rightarrow> string \<Rightarrow> task_summary rm" where
  "route_and_dispatch O1 sub tid =
    bnd (local_status O1) (\<lambda>st.
    bnd (asks (context_for O1 sub tid)) (\<lambda>ctx.
    seq (transition_to O1 tid ELIGIBLE_PROVIDERS_COMPUTED)
    (seq (refresh_learned O1)
    (bnd (route_with_budget_prompt O1 ctx st) (\<lambda>d.
     seq (mod_db (record_routing_decision tid (o_dump_decision O1 d)))
     (seq (append_line tid (''routing_decision='' @ rd_decision d @ '' provider='' @ show_opt (rd_selected_provider d)
             @ '' model='' @ show_opt (rd_selected_model d)) ''info'')
     (dispatch_selected O1 sub tid ctx d)))))))"

definition remote_or_route :: "outside \<Rightarrow> task_submission \<Rightarrow> string \<Rightarrow> task_summary rm" where
  "remote_or_route O1 sub tid =
    (if is_agentic sub then
       bnd (select_remote_worker O1 (classify_submission O1 sub)) (\<lambda>sel. case sel of
         Some (wk, rt) \<Rightarrow> run_agentic_remote O1 wk rt sub tid (classify_submission O1 sub)
       | None \<Rightarrow> route_and_dispatch O1 sub tid)
     else route_and_dispatch O1 sub tid)"

definition guard_task :: "outside \<Rightarrow> task_submission \<Rightarrow> string \<Rightarrow> task_summary rm" where
  "guard_task O1 sub tid =
    (case scan_task (o_guard O1) (ts_task sub) tid of
       None \<Rightarrow> remote_or_route O1 sub tid
     | Some v \<Rightarrow>
         seq (append_line tid (describe v ''task'') ''info'')
         (if enforcing (o_guard O1) \<and> is_block (o_guard O1) (Some v)
          then router_reject O1 tid ''Blocked by fascia-guard: task contains secret/credential material.''
                 ''Remove/redact the flagged content; do not route to an LLM.''
          else remote_or_route O1 sub tid))"

definition submit_task_pipeline :: "outside \<Rightarrow> task_submission \<Rightarrow> task_summary rm" where
  "submit_task_pipeline O1 sub =
    bnd (receive O1 sub) (\<lambda>tid.
      if classify_submission O1 sub = secret_sensitive
      then router_reject O1 tid ''Blocked: task contains secret-sensitive content and may not be sent to any model.''
             ''Remove/redact secrets or handle out-of-band; do not route to an LLM.''
      else guard_task O1 sub tid)"

definition submit_task :: "outside \<Rightarrow> task_submission \<Rightarrow> task_summary rm" where
  "submit_task O1 sub =
    catch (submit_task_pipeline O1 sub) (\<lambda>e. case e of
      TaskSuperseded tid stored \<Rightarrow>
        seq (append_line tid (''pipeline result discarded: task reached terminal state '' @ stored
               @ '' (e.g. cancelled) while work was in flight'') ''warn'')
        (summary_of tid)
    | _ \<Rightarrow> raise_exc e)"

section \<open>Enqueueing\<close>

definition enqueue_context :: "outside \<Rightarrow> task_submission \<Rightarrow> string \<Rightarrow> routing_context" where
  "enqueue_context O1 sub tid =
    (let tc = ts_constraints sub
     in \<lparr>rc_task_id = tid, rc_privacy_class = classify_submission O1 sub,
         rc_needed_capabilities = capabilities_for (ts_agent_type sub),
         rc_profile = tc_profile tc, rc_require_exact_model = None,
         rc_est_input_tokens = 0, rc_est_output_tokens = 0,
         rc_allow_external = tc_allow_external tc, rc_allow_paid = tc_allow_paid tc,
         rc_priority = tc_priority tc,
         rc_quality = (if tc_quality tc = ''high'' then ''high'' else ''standard''),
         rc_cloud_safe = rr_cloud_safe (fst (redact_submission O1 sub)),
         rc_pending_same_model_batch = 0, rc_allow_rented = tc_allow_rented tc\<rparr>)"

text \<open>A best-effort routing pass for the hint \<open>assignee\<close>; no exception of it fails the call.\<close>

definition advise_assignee :: "outside \<Rightarrow> task_submission \<Rightarrow> string \<Rightarrow> string option rm" where
  "advise_assignee O1 sub tid =
    catch
      (bnd (local_status O1) (\<lambda>st.
       bnd (route_now O1 (enqueue_context O1 sub tid) st) (\<lambda>d.
       seq (mod_db (record_routing_decision tid (o_dump_decision O1 d))) (ret (rd_selected_provider d)))))
      (\<lambda>e. seq (append_line tid (''enqueue_task advisory routing failed: '' @ o_str_exc O1 e) ''warn'') (ret None))"

datatype enqueue_reply = Enqueued public_row | EnqueueError wq_error

definition of_outcome :: "public_row outcome \<Rightarrow> enqueue_reply rm" where
  "of_outcome x = (case x of Ok t \<Rightarrow> ret (Enqueued t) | Err e \<Rightarrow> ret (EnqueueError e)
     | Raised e \<Rightarrow> raise_exc (Store e) | Diverges \<Rightarrow> raise_exc (Outside []))"

definition enqueue_add ::
  "outside \<Rightarrow> wq_config \<Rightarrow> add_args \<Rightarrow> enqueue_reply rm" where
  "enqueue_add O1 wq a r = (case add wq (o_world O1) a None (mem r) of (x, m) \<Rightarrow> of_outcome x (put_mem m r))"

definition enqueue_fresh ::
  "outside \<Rightarrow> wq_config \<Rightarrow> task_submission \<Rightarrow> string option \<Rightarrow> string list option \<Rightarrow> string \<Rightarrow> string list
    \<Rightarrow> enqueue_reply rm" where
  "enqueue_fresh O1 wq sub dedup caps prio deps =
    bnd (on_db (create_task (o_dump_submission O1 sub) (ts_agent_type sub))) (\<lambda>tid.
    seq (append_line tid (''enqueue_task agent_type='' @ show_opt (ts_agent_type sub)) ''info'')
    (let pc = privacy_class_value (classify_submission O1 sub); (red, redacted) = redact_submission O1 sub
     in bnd (on_db (put_artifact (Some tid) ''sanitized_payload'' redacted ''text/plain'')) (\<lambda>ref.
        seq (set_task tid [(''privacy_class'', CText pc)])
        (bnd (advise_assignee O1 sub tid) (\<lambda>who.
         bnd (enqueue_add O1 wq
           \<lparr>ad_origin = ''router:'' @ str_or (ts_agent_type sub) ''unknown'', ad_privacy_class = pc,
            ad_payload = None, ad_payload_ref = Some ref, ad_task_id = Some tid,
            ad_required_capabilities = (case caps of None \<Rightarrow> capabilities_for (ts_agent_type sub) | Some cs \<Rightarrow> cs),
            ad_priority = prio, ad_dedup_key = dedup, ad_depends_on = deps, ad_max_attempts = 3,
            ad_assignee = who, ad_cloud_safe = rr_cloud_safe red\<rparr>) (\<lambda>t.
         seq (case (dedup, t) of
                (Some _, Enqueued row) \<Rightarrow>
                  mod_db (\<lambda>m. case task_id_for_ticket m (pr_ticket_id row) of
                    None \<Rightarrow> m
                  | Some w \<Rightarrow> if w \<noteq> tid then delete_task_cascade tid m else m)
              | _ \<Rightarrow> ret ())
         (ret t)))))))"

definition enqueue_task ::
  "outside \<Rightarrow> task_submission \<Rightarrow> string option \<Rightarrow> string list option \<Rightarrow> string \<Rightarrow> string list \<Rightarrow> enqueue_reply rm" where
  "enqueue_task O1 sub dedup caps prio deps =
    (case o_wq O1 of
       None \<Rightarrow> raise_exc (Outside ''RouterService has no workqueue configured'')
     | Some wq \<Rightarrow>
         bnd (asks (\<lambda>r. Option.bind dedup (find_by_dedup (mem r)))) (\<lambda>x. case x of
           Some row \<Rightarrow> ret (Enqueued row)
         | None \<Rightarrow> enqueue_fresh O1 wq sub dedup caps prio deps))"

section \<open>Other tools\<close>

definition reap_work_queue :: "outside \<Rightarrow> (string list \<times> string list) rm" where
  "reap_work_queue O1 r =
    (case o_wq O1 of
       None \<Rightarrow> (Inr ([], []), r)
     | Some _ \<Rightarrow> (case reap_expired (Some (clock (mem r))) (mem r) of (x, m) \<Rightarrow> (Inr x, put_mem m r)))"

definition get_task_status :: "string \<Rightarrow> task_summary option rm" where
  "get_task_status tid =
    bnd (asks (\<lambda>r. get_task (mem r) tid)) (\<lambda>t.
      if t = None then ret None else bnd (summary_of tid) (\<lambda>s. ret (Some s)))"

definition read_chunk_tool :: "outside \<Rightarrow> string \<Rightarrow> int \<Rightarrow> int option \<Rightarrow> artifact_chunk option rm" where
  "read_chunk_tool O1 aid offset max_chars =
    (let dflt = (case o_default_max_chars O1 of None \<Rightarrow> 4000 | Some n \<Rightarrow> n);
         hard = (case o_hard_max_chars O1 of None \<Rightarrow> 12000 | Some n \<Rightarrow> n);
         mc = min (case max_chars of None \<Rightarrow> dflt | Some n \<Rightarrow> if n = 0 then dflt else n) hard
     in asks (\<lambda>r. read_artifact_chunk (mem r) aid offset mc))"

datatype task_reply =
    TaskNotFound
  | Promoted string
  | Cancelled string task_state bool "string list"

definition promote_task :: "string \<Rightarrow> task_reply rm" where
  "promote_task tid =
    bnd (asks (\<lambda>r. get_task (mem r) tid)) (\<lambda>t.
      if t = None then ret TaskNotFound
      else seq (append_line tid ''promoted priority=urgent'' ''info'') (ret (Promoted tid)))"

definition cancel_tickets :: "outside \<Rightarrow> string \<Rightarrow> string list rm" where
  "cancel_tickets O1 tid =
    (case o_wq O1 of
       None \<Rightarrow> ret []
     | Some _ \<Rightarrow>
         bnd (\<lambda>r. case cancel_for_task tid None (mem r) of (ids, m) \<Rightarrow> (Inr ids, put_mem m r)) (\<lambda>ids.
         seq (if ids \<noteq> [] then append_line tid (''cancelled linked work-queue tickets: '' @ join '', '' ids) ''info''
              else ret ())
         (ret ids)))"

definition cancel_task :: "outside \<Rightarrow> string \<Rightarrow> task_reply rm" where
  "cancel_task O1 tid r =
    (case cancel TASK_STATE_VOCAB (transition_task (o_peers O1 CANCELLED)) tid CANCELLED ''router'' (Some tid) []
            (mem r) of
       (Inl (EntityNotFound v i), m) \<Rightarrow> (Inr TaskNotFound, put_mem m r)
     | (Inl e, m) \<Rightarrow> (Inl (Store e), put_mem m r)
     | (Inr res, m) \<Rightarrow>
         if cr_already_terminal res then (Inr (Cancelled tid (cr_state res) True []), put_mem m r)
         else
           seq (set_task tid [(''summary'', CText ''Cancelled by manager.'')])
           (seq (append_line tid (''cancelled by manager (was ''
                   @ (case cr_previous_state res of None \<Rightarrow> [] | Some p \<Rightarrow> task_state_value p) @ '')'') ''info'')
           (bnd (cancel_tickets O1 tid) (\<lambda>ids. ret (Cancelled tid CANCELLED False ids)))) (put_mem m r))"

record provider_status =
  ps_provider :: string
  ps_type :: string
  ps_privacy :: string
  ps_health :: string
  ps_capabilities :: "string list"
  ps_quota_remaining :: headroom

fun provider_statuses :: "outside \<Rightarrow> provider_config list \<Rightarrow> provider_status list rm" where
  "provider_statuses O1 [] = ret []"
| "provider_statuses O1 (cfg # cfgs) =
    bnd (on_quota (remaining (o_threads O1) cfg None)) (\<lambda>rem.
    bnd (asks (\<lambda>r. health (registry (rs_engine r)) (provider_id cfg))) (\<lambda>h.
    bnd (provider_statuses O1 cfgs) (\<lambda>rest.
    ret (\<lparr>ps_provider = provider_id cfg, ps_type = p_type cfg, ps_privacy = p_privacy cfg, ps_health = h,
          ps_capabilities = capabilities cfg, ps_quota_remaining = rem\<rparr> # rest))))"

definition get_provider_status :: "outside \<Rightarrow> provider_status list rm" where
  "get_provider_status O1 =
    bnd (asks (\<lambda>r. reg_all (registry (rs_engine r)))) (provider_statuses O1)"

record scorecard_row =
  sr_card :: scorecard
  sr_signal :: real

definition get_provider_scorecards :: "outside \<Rightarrow> scorecard_row list rm" where
  "get_provider_scorecards O1 =
    (case o_evaluator O1 of
       None \<Rightarrow> ret []
     | Some n \<Rightarrow> asks (\<lambda>r.
         let learned = learned_quality n (mem r)
         in sort_key (\<lambda>row. sc_provider (sr_card row))
              (map (\<lambda>(pid, c).
                 \<lparr>sr_card = c\<lparr>sc_success_rate := py_round 4 (sc_success_rate c),
                    sc_avg_latency_ms := py_round 2 (sc_avg_latency_ms c),
                    sc_avg_cost_usd := py_round 6 (sc_avg_cost_usd c)\<rparr>,
                  sr_signal = py_round 4 (case map_of learned pid of None \<Rightarrow> 0 | Some q \<Rightarrow> q)\<rparr>)
                (scorecards (mem r)))))"

end
