(* ===== verification/Router_Effects.thy ===== *)
theory Router_Effects
  imports Router_Service
begin

text \<open>
  A logic for the effects of router operations. An effect is a relation between the state before
  and the state after; the locale \<open>effect\<close> gives the rules by which an operation built from
  others stays within a preorder, and \<open>trace_effect\<close> those for relations that only look at the calls
  made to the outside (and at the privacy policy, which nothing changes). The interpretations
  are the effects that the safety theorems speak of.
\<close>

definition within_eff :: "(router \<Rightarrow> router \<Rightarrow> bool) \<Rightarrow> (router \<Rightarrow> 'x \<times> router) \<Rightarrow> bool" where
  "within_eff R m \<longleftrightarrow> (\<forall>r. R r (snd (m r)))"

lemma within_effI: "(\<And>r. R r (snd (m r))) \<Longrightarrow> within_eff R m"
  by (simp add: within_eff_def)

lemma within_effD: "within_eff R m \<Longrightarrow> m r = (x, r') \<Longrightarrow> R r r'"
  by (metis within_eff_def snd_conv)

lemma within_eff_mono: "within_eff R m \<Longrightarrow> (\<And>a b. R a b \<Longrightarrow> S a b) \<Longrightarrow> within_eff S m"
  by (simp add: within_eff_def)

text \<open>What an operation that talks to nobody leaves as it is.\<close>

definition silent :: "router \<Rightarrow> router \<Rightarrow> bool" where
  "silent a b \<longleftrightarrow> rs_trace b = rs_trace a \<and> privacy (rs_engine b) = privacy (rs_engine a)"

text \<open>Calls are appended, each of them one of \<open>Q\<close>.\<close>

definition calls :: "(ext_call \<Rightarrow> bool) \<Rightarrow> router \<Rightarrow> router \<Rightarrow> bool" where
  "calls Q a b \<longleftrightarrow> privacy (rs_engine b) = privacy (rs_engine a)
     \<and> (\<exists>es. rs_trace b = rs_trace a @ es \<and> list_all Q es)"

locale effect =
  fixes R :: "router \<Rightarrow> router \<Rightarrow> bool"
  assumes eff_refl: "R r r"
    and eff_trans: "R a b \<Longrightarrow> R b c \<Longrightarrow> R a c"
begin

lemma eff_ret: "within_eff R (ret x)"
  by (rule within_effI) (simp add: ret_def eff_refl)

lemma eff_raise: "within_eff R (raise_exc e)"
  by (rule within_effI) (simp add: raise_exc_def eff_refl)

lemma eff_asks: "within_eff R (asks f)"
  by (rule within_effI) (simp add: asks_def eff_refl)

lemma eff_of_result: "within_eff R (of_result x)"
  by (rule within_effI) (simp add: of_result_def eff_refl split: sum.split)

lemma eff_of_store: "within_eff R (of_store x)"
  by (rule within_effI) (simp add: of_store_def eff_refl split: sum.split)

lemma eff_bnd_val:
  assumes m: "within_eff R m" and f: "\<And>r x r'. m r = (Inr x, r') \<Longrightarrow> within_eff R (f x)"
  shows "within_eff R (bnd m f)"
proof (rule within_effI)
  fix r :: router
  show "R r (snd (bnd m f r))"
  proof (cases "m r" rule: prod.exhaust)
    case (Pair x r1)
    have "R r r1" using m Pair by (rule within_effD)
    then show ?thesis
    proof (cases x)
      case (Inr y)
      with f Pair have "within_eff R (f y)" by blast
      then have "R r1 (snd (f y r1))" by (simp add: within_eff_def)
      with \<open>R r r1\<close> Pair Inr show ?thesis by (simp add: bnd_def) (rule eff_trans)
    qed (simp add: bnd_def Pair)
  qed
qed

lemma eff_bnd: "within_eff R m \<Longrightarrow> (\<And>x. within_eff R (f x)) \<Longrightarrow> within_eff R (bnd m f)"
  by (rule eff_bnd_val)

lemma eff_seq: "within_eff R m \<Longrightarrow> within_eff R k \<Longrightarrow> within_eff R (seq m k)"
  unfolding seq_def by (rule eff_bnd)

lemma eff_catch:
  assumes "within_eff R m" and "\<And>e. within_eff R (h e)"
  shows "within_eff R (catch m h)"
proof (rule within_effI)
  fix r :: router
  obtain x r1 where m: "m r = (x, r1)" by fastforce
  with assms(1) have "R r r1" by (blast intro: within_effD)
  moreover have "R r1 (snd (h e r1))" for e using assms(2) by (simp add: within_eff_def)
  ultimately show "R r (snd (catch m h r))" using m eff_trans by (cases x) (auto simp: catch_def)
qed

lemma eff_finally:
  assumes "within_eff R m" and "within_eff R f"
  shows "within_eff R (finally_do m f)"
proof (rule within_effI)
  fix r :: router
  obtain x r1 where m: "m r = (x, r1)" by fastforce
  obtain y r2 where f: "f r1 = (y, r2)" by fastforce
  have "R r r1" "R r1 r2" using assms m f by (blast intro: within_effD)+
  then show "R r (snd (finally_do m f r))" using m f eff_trans by (cases y) (auto simp: finally_do_def)
qed

lemma eff_case:
  assumes "within_eff R m" and "\<And>e. within_eff R (h e)" and "\<And>x. within_eff R (k x)"
  shows "within_eff R (\<lambda>r. case m r of (Inl e, r1) \<Rightarrow> h e r1 | (Inr x, r1) \<Rightarrow> k x r1)"
proof (rule within_effI)
  fix r :: router
  obtain x r1 where m: "m r = (x, r1)" by fastforce
  with assms(1) have "R r r1" by (blast intro: within_effD)
  moreover have "R r1 (snd (h e r1))" "R r1 (snd (k y r1))" for e y using assms(2,3) by (simp_all add: within_eff_def)
  ultimately show "R r (snd (case m r of (Inl e, r1) \<Rightarrow> h e r1 | (Inr x, r1) \<Rightarrow> k x r1))"
    using m eff_trans by (cases x) auto
qed

lemmas eff_rules = eff_ret eff_raise eff_asks eff_of_result eff_of_store eff_bnd eff_seq eff_catch eff_finally eff_case

end

locale trace_effect = effect +
  assumes eff_silent: "silent a b \<Longrightarrow> R a b"
begin

lemma eff_of_silent: "within_eff silent m \<Longrightarrow> within_eff R m"
  by (erule within_eff_mono) (rule eff_silent)

end

lemma silent_refl [simp]: "silent r r" by (simp add: silent_def)

interpretation silence: trace_effect silent
  by unfold_locales (auto simp: silent_def)

lemma calls_append:
  "calls Q a b \<Longrightarrow> calls Q b c \<Longrightarrow> calls Q a c"
  unfolding calls_def by (metis append.assoc list_all_append)

text \<open>The same from states with the policy \<open>rp\<close> on, which is never changed.\<close>

definition calls_at :: "routing_privacy \<Rightarrow> (ext_call \<Rightarrow> bool) \<Rightarrow> router \<Rightarrow> router \<Rightarrow> bool" where
  "calls_at rp Q a b \<longleftrightarrow> (privacy (rs_engine a) = rp \<longrightarrow> calls Q a b)"

lemma calls_keeps: "calls Q a b \<Longrightarrow> privacy (rs_engine b) = privacy (rs_engine a)"
  by (simp add: calls_def)

lemma calls_mono: "calls Q a b \<Longrightarrow> (\<And>c. Q c \<Longrightarrow> Q' c) \<Longrightarrow> calls Q' a b"
  unfolding calls_def by (metis (mono_tags, lifting) list.pred_mono_strong)

interpretation calling: trace_effect "calls_at rp Q" for rp Q
proof unfold_locales
  show "calls_at rp Q r r" for r by (simp add: calls_at_def calls_def)
  show "calls_at rp Q a c" if "calls_at rp Q a b" "calls_at rp Q b c" for a b c
    using that calls_append [of Q a b c] calls_keeps [of Q a b] by (auto simp: calls_at_def)
  show "calls_at rp Q a b" if "silent a b" for a b using that by (simp add: calls_at_def calls_def silent_def)
qed

lemma calls_at_mono:
  "within_eff (calls_at rp Q) m \<Longrightarrow> (\<And>c. Q c \<Longrightarrow> Q' c) \<Longrightarrow> within_eff (calls_at rp Q') m"
  by (erule within_eff_mono) (auto simp: calls_at_def intro: calls_mono)

section \<open>Operations that talk to nobody\<close>

named_theorems quiet \<open>operations that make no call to the outside\<close>

declare silence.eff_ret [quiet] silence.eff_raise [quiet] silence.eff_asks [quiet] silence.eff_of_result [quiet]
  silence.eff_of_store [quiet]

lemma trace_put_mem [simp]: "rs_trace (put_mem m r) = rs_trace r" "rs_engine (put_mem m r) = rs_engine r"
  "rs_pool (put_mem m r) = rs_pool r" "mem (put_mem m r) = m"
  by (simp_all add: put_mem_def)

lemma quiet_on_db [quiet]: "within_eff silent (on_db f)"
  by (rule within_effI) (simp add: on_db_def of_store_def silent_def split: prod.split sum.split)

lemma quiet_mod_db [quiet]: "within_eff silent (mod_db f)"
  by (rule within_effI) (simp add: mod_db_def modify_def silent_def)

lemma quiet_on_quota [quiet]: "within_eff silent (on_quota f)"
  by (rule within_effI) (simp add: on_quota_def silent_def split: prod.split)

lemma quiet_modify: "(\<And>r. silent r (f r)) \<Longrightarrow> within_eff silent (modify f)"
  by (rule within_effI) (simp add: modify_def)

lemma quiet_append_line [quiet]: "within_eff silent (append_line tid msg l)"
  unfolding append_line_def by (rule quiet_mod_db)

lemma quiet_set_task [quiet]: "within_eff silent (set_task tid flds)"
  unfolding set_task_def by (rule quiet_on_db)

lemma quiet_note_outcome [quiet]: "within_eff silent (note_outcome tid a b)"
  unfolding note_outcome_def by (rule quiet_set_task)

lemma quiet_summary_of [quiet]: "within_eff silent (summary_of tid)"
  by (rule within_effI) (simp add: summary_of_def split: option.split)

lemma quiet_transition_to [quiet]: "within_eff silent (transition_to O1 tid dst)"
  by (rule within_effI) (simp add: transition_to_def silent_def split: prod.split sum.split)

lemma quiet_reject [quiet]: "within_eff silent (router_reject O1 tid a b)"
  unfolding router_reject_def by (intro silence.eff_seq quiet)

lemma quiet_record_eval [quiet]: "within_eff silent (record_eval p m t a s l i k c f)"
  unfolding record_eval_def by (rule quiet_on_db)

lemma quiet_latency [quiet]: "within_eff silent (latency O1)"
  unfolding latency_def by (rule silence.eff_asks)

lemma quiet_local_status [quiet]: "within_eff silent (local_status O1)"
  by (rule within_effI) (simp add: local_status_def silent_def split: option.split sum.split)

lemma quiet_true_up [quiet]: "within_eff silent (true_up pid t)"
  unfolding true_up_def by (rule quiet_modify) (simp add: silent_def)

lemma quiet_true_up_all [quiet]: "within_eff silent (true_up_all xs)"
  by (induction xs rule: true_up_all.induct) (auto intro!: silence.eff_seq quiet)

lemma quiet_at: "within_eff silent m \<Longrightarrow> silent r r1 \<Longrightarrow> silent r (snd (m r1))"
  by (auto simp: within_eff_def silent_def)

lemma quiet_reap_idle_nodes [quiet]: "within_eff silent (reap_idle_nodes O1)"
proof (rule within_effI)
  fix r :: router
  show "silent r (snd (reap_idle_nodes O1 r))"
  proof (cases "o_pooled O1")
    case True
    obtain err reaped p where
      *: "reap_idle (o_pool_threads O1) (o_provisioner O1) (cfgs_of r) (clock (mem r)) (rs_pool r) = (err, reaped, p)"
      by (metis prod_cases3)
    have "within_eff silent (seq (true_up_all reaped)
        (case err of None \<Rightarrow> ret (map fst reaped) | Some e \<Rightarrow> raise_exc (Outside e)))"
      by (intro silence.eff_seq quiet) (simp add: quiet split: option.split)
    then show ?thesis using True * by (simp add: reap_idle_nodes_def) (erule quiet_at, simp add: silent_def)
  qed (simp add: reap_idle_nodes_def)
qed

lemma quiet_enter_pool [quiet]: "within_eff silent (enter_pool O1)"
  unfolding enter_pool_def by (rule quiet_modify) (simp add: silent_def)

lemma quiet_acquire_node [quiet]: "within_eff silent (acquire_node O1 cfg spec)"
  by (rule within_effI) (simp add: acquire_node_def of_result_def silent_def split: prod.split sum.split)

lemma quiet_release_node [quiet]: "within_eff silent (release_node cfg)"
  unfolding release_node_def by (rule quiet_modify) (simp add: silent_def)

lemma quiet_evict [quiet]: "within_eff silent (evict_rented_node O1 cfg tid)"
proof (rule within_effI)
  fix r :: router
  obtain x p where *: "evict (o_provisioner O1) (provider_id cfg) (rs_pool r) = (x, p)" by fastforce
  show "silent r (snd (evict_rented_node O1 cfg tid r))"
  proof (cases x)
    case (Some y)
    obtain h t where y: "y = (h, t)" by fastforce
    have "within_eff silent (seq (true_up (provider_id cfg) t) (if tid \<noteq> [] then append_line tid m ''warn'' else ret ()))" for m
      by (simp add: silence.eff_seq quiet)
    then show ?thesis using * Some y by (simp only: evict_rented_node_def prod.case option.case) (rule quiet_at, simp_all add: silent_def)
  qed (use * in \<open>simp add: evict_rented_node_def silent_def\<close>)
qed

lemma quiet_bill_window [quiet]: "within_eff silent (bill_window cfg tid b)"
  unfolding bill_window_def by (simp add: quiet) (intro impI quiet_modify, simp add: silent_def)

lemma quiet_rented_client [quiet]: "within_eff silent (rented_client O1 cfg h)"
  unfolding rented_client_def by (rule silence.eff_of_result)

lemma quiet_complete_task [quiet]: "within_eff silent (complete_task O1 tid)"
  unfolding complete_task_def by (intro silence.eff_seq quiet)

lemma quiet_conclude [quiet]: "within_eff silent (conclude O1 tid w a b)"
  unfolding conclude_def by (intro silence.eff_seq quiet) (auto intro!: silence.eff_seq quiet)

lemma quiet_fail_task [quiet]: "within_eff silent (fail_task O1 tid a b c)"
  unfolding fail_task_def by (intro silence.eff_seq quiet)

lemma quiet_settle [quiet]: "within_eff silent (settle O1 q cfg i k st w)"
  unfolding settle_def by (cases q) (auto simp: silent_def intro!: quiet quiet_modify)

lemma quiet_agentic_failed [quiet]: "within_eff silent (agentic_failed O1 cfg sub tid m q mt e)"
  unfolding agentic_failed_def by (intro silence.eff_bnd silence.eff_seq quiet)

lemma quiet_agentic_done [quiet]: "within_eff silent (agentic_done O1 cfg sub tid m q mt w)"
  unfolding agentic_done_def by (intro silence.eff_bnd silence.eff_seq quiet)

lemma quiet_rented_failed [quiet]: "within_eff silent (rented_failed O1 cfg sub tid m e b src)"
  unfolding rented_failed_def by (intro silence.eff_bnd silence.eff_seq quiet) (simp_all add: quiet)

lemma quiet_rented_done [quiet]: "within_eff silent (rented_done O1 cfg sub tid m w h src)"
  unfolding rented_done_def by (intro silence.eff_bnd silence.eff_seq quiet)

lemma quiet_select [quiet]: "within_eff silent (select_remote_worker O1 pc)"
  unfolding select_remote_worker_def by (auto intro: quiet split: option.split)

lemma quiet_remote_done [quiet]: "within_eff silent (remote_done O1 wk sub tid w)"
  unfolding remote_done_def Let_def
  by (intro silence.eff_bnd quiet) (auto intro!: silence.eff_bnd silence.eff_seq quiet split: prod.split)

lemma quiet_refresh_budget [quiet]: "within_eff silent (refresh_budget_state O1)"
  unfolding refresh_budget_state_def
  by (cases "o_budget O1") (auto simp: silent_def set_budget_state_def intro!: silence.eff_bnd quiet quiet_modify)

lemma quiet_refresh_learned [quiet]: "within_eff silent (refresh_learned O1)"
  unfolding refresh_learned_def
  by (cases "o_evaluator O1") (auto simp: silent_def set_learned_quality_def intro!: quiet quiet_modify)

lemma quiet_route_now [quiet]: "within_eff silent (route_now O1 ctx st)"
  by (rule within_effI) (simp add: route_now_def silent_def split: prod.split option.split)

lemma quiet_charge_of [quiet]: "within_eff silent (charge_of O1 cfg ctx t)"
  unfolding charge_of_def Let_def
  by (intro silence.eff_bnd quiet) (auto intro!: silence.eff_bnd quiet split: option.split)

lemma quiet_receive [quiet]: "within_eff silent (receive O1 sub)"
  unfolding receive_def Let_def
  by (intro silence.eff_bnd silence.eff_seq quiet) (auto intro!: silence.eff_seq quiet split: prod.split)

lemma quiet_stored_output [quiet]: "within_eff silent (stored_output O1 tid t)"
  unfolding stored_output_def by (auto intro!: silence.eff_seq quiet split: option.split)

lemma quiet_oneshot_failed [quiet]: "within_eff silent (oneshot_failed O1 sub tid cfg q m e)"
  unfolding oneshot_failed_def by (intro silence.eff_bnd silence.eff_seq quiet)

lemma quiet_oneshot_done [quiet]: "within_eff silent (oneshot_done O1 sub tid cfg q g)"
  unfolding oneshot_done_def by (intro silence.eff_bnd silence.eff_seq quiet)

lemma quiet_note_child [quiet]: "within_eff silent (note_child O1 tid d i c pc w)"
  unfolding note_child_def by (intro silence.eff_seq quiet)

section \<open>Operations that call a model\<close>

lemmas quiet_calls = quiet [THEN calling.eff_of_silent]

lemma calls_note: "Q c \<Longrightarrow> within_eff (calls_at rp Q) (note_call c)"
  by (rule within_effI) (simp add: calls_at_def calls_def note_call_def modify_def)

lemma calls_gateway_generate:
  assumes "Q (GatewayCall cfg req)"
  shows "within_eff (calls_at rp Q) (gateway_generate O1 cfg req)"
  unfolding gateway_generate_def
  by (intro calling.eff_bnd calling.eff_seq calling.eff_asks calling.eff_of_result calls_note assms)

lemma calls_rented_generate:
  assumes "Q (RentedCall cfg (nh_node_id h) req)"
  shows "within_eff (calls_at rp Q) (rented_generate cfg h client req)"
  unfolding rented_generate_def
  by (intro calling.eff_bnd calling.eff_seq calling.eff_asks calling.eff_of_result calls_note assms)

lemma calls_gateway_send:
  "Q (GatewayCall cfg req) \<Longrightarrow> within_eff (calls_at rp Q) (gateway_send O1 cfg req)"
  unfolding gateway_send_def by (intro calling.eff_bnd calling.eff_ret calls_gateway_generate)

lemma calls_rented_send:
  "Q (RentedCall cfg (nh_node_id h) req) \<Longrightarrow> within_eff (calls_at rp Q) (rented_send cfg h client req)"
  unfolding rented_send_def by (intro calling.eff_bnd calling.eff_ret calls_rented_generate)

lemma calls_source_generate:
  assumes send: "\<And>req. within_eff (calls_at rp Q) (send req)" and "source_generate send model req src r = (x, src', r')"
  shows "calls_at rp Q r r'"
proof -
  obtain y r1 where y: "send (req\<lparr>gr_model_id := model\<rparr>) r = (y, r1)" by fastforce
  then have "calls_at rp Q r r1" by (rule within_effD [OF send])
  moreover have "r' = r1" using assms(2) y by (auto simp: source_generate_def split: sum.splits prod.splits)
  ultimately show ?thesis by simp
qed

lemma calls_run_runtime:
  assumes send: "\<And>req. within_eff (calls_at rp Q) (send req)"
  shows "run_runtime rt send model src r = (x, src', r') \<Longrightarrow> calls_at rp Q r r'"
proof (induction rt arbitrary: src r)
  case (Ask req k)
  obtain y src1 r1 where y: "source_generate send model req src r = (y, src1, r1)" by (metis prod_cases3)
  have "calls_at rp Q r r1" by (rule calls_source_generate [OF send y])
  moreover have "calls_at rp Q r1 r'" using Ask.prems y by (cases y) (auto intro: Ask.IH [OF rangeI])
  ultimately show ?case by (rule calling.eff_trans)
qed (auto simp: calling.eff_refl)

text \<open>The calls of one-shot dispatch: one generation, on the provider it was asked for.\<close>

lemma calls_dispatch:
  assumes "\<not> is_rented cfg \<Longrightarrow> Q (GatewayCall cfg req)" and "\<And>n. is_rented cfg \<Longrightarrow> Q (RentedCall cfg n req)"
  shows "within_eff (calls_at rp Q) (dispatch O1 cfg req)"
proof (cases "is_rented cfg")
  case True
  show ?thesis unfolding dispatch_def using True
    by (auto intro!: calling.eff_bnd calling.eff_seq calling.eff_finally calling.eff_catch
        calls_rented_generate quiet_calls assms(2))
qed (simp add: dispatch_def calls_gateway_generate assms(1))

section \<open>Delegation\<close>

text \<open>The calls of a delegation tree for a task of class \<open>pc0\<close> on \<open>cfg\<close>: generations on that provider, and runs
  no deeper than the limit, of a class that is not \<open>secret_sensitive\<close> and admits no tier the pc0 does not.\<close>

definition narrower :: "routing_privacy \<Rightarrow> privacy_class \<Rightarrow> privacy_class \<Rightarrow> bool" where
  "narrower rp pc0 c \<longleftrightarrow> c \<noteq> secret_sensitive
     \<and> set (allowed_tiers rp (privacy_class_value c)) \<subseteq> set (allowed_tiers rp (privacy_class_value pc0))"

fun tree_call :: "routing_privacy \<Rightarrow> privacy_class \<Rightarrow> provider_config \<Rightarrow> nat \<Rightarrow> ext_call \<Rightarrow> bool" where
  "tree_call rp pc0 cfg d (GatewayCall c req) \<longleftrightarrow> c = cfg"
| "tree_call rp pc0 cfg d (AgentRun c k pc sub) \<longleftrightarrow>
    c = cfg \<and> k \<le> d \<and> (case pc of None \<Rightarrow> False | Some x \<Rightarrow> narrower rp pc0 x)"
| "tree_call rp pc0 cfg d _ \<longleftrightarrow> False"

lemma child_class_narrower:
  assumes "narrower rp pc0 c" and "child_privacy_class rp (Some c) p = Some x" and "x \<noteq> secret_sensitive"
  shows "narrower rp pc0 x"
  using assms by (auto simp: child_privacy_class_def narrower_def split: option.splits if_splits)

lemma child_class_Some: "\<exists>x. child_privacy_class rp (Some c) p = Some x"
  by (auto simp: child_privacy_class_def split: option.split)

lemma calls_run_worker:
  assumes "run_worker O1 cfg sub tid (Some c) depth max_out mt r = (x, mt', r')" and "narrower rp pc0 c" and "depth \<le> d"
  shows "calls_at rp (tree_call rp pc0 cfg d) r r'"
proof -
  let ?r1 = "r\<lparr>rs_trace := rs_trace r @ [AgentRun cfg depth (Some c) sub]\<rparr>"
  have "calls_at rp (tree_call rp pc0 cfg d) r ?r1"
    using assms(2,3) by (simp add: calls_at_def calls_def)
  moreover have "calls_at rp (tree_call rp pc0 cfg d) ?r1 s"
    if "run_runtime rt (gateway_send O1 cfg) m src ?r1 = (y, src', s)" for rt m src y src' s
    using calls_run_runtime [OF calls_gateway_send that, where rp = rp and Q = "tree_call rp pc0 cfg d"] by simp
  ultimately show ?thesis using assms(1)
    by (auto simp: run_worker_def Let_def calling.eff_refl split: sum.splits prod.splits intro: calling.eff_trans)
qed

lemma calls_synthesize:
  assumes "synthesize_children O1 cfg m tid sub w kids k mt r = (x, mt', r')"
  shows "calls_at rp (tree_call rp pc0 cfg d) r r'"
proof -
  have *: "calls_at rp (tree_call rp pc0 cfg d) r s"
    if "source_generate (gateway_send O1 cfg) m req fresh_source r = (y, src, s)" for req y src s
    by (rule calls_source_generate [OF calls_gateway_send that]) simp
  show ?thesis using assms
    by (auto simp: synthesize_children_def Let_def split: sum.splits prod.splits dest: *)
qed

declare agentic_tree.simps [simp del]

lemma calls_agentic:
  "agentic_tree O1 cfg sub tid pc depth max_out mt r = (x, mt', r') \<Longrightarrow> pc = Some c \<Longrightarrow> narrower rp pc0 c
     \<Longrightarrow> privacy (rs_engine r) = rp \<Longrightarrow> depth \<le> o_max_delegation_depth O1
     \<Longrightarrow> calls (tree_call rp pc0 cfg (o_max_delegation_depth O1)) r r'"
  "agentic_children O1 cfg sub tid pc depth max_out i sts mt r = (xs, mt', r') \<Longrightarrow> pc = Some c \<Longrightarrow> narrower rp pc0 c
     \<Longrightarrow> privacy (rs_engine r) = rp \<Longrightarrow> depth < o_max_delegation_depth O1
     \<Longrightarrow> calls (tree_call rp pc0 cfg (o_max_delegation_depth O1)) r r'"
proof (induction O1 cfg sub tid pc depth max_out mt r and O1 cfg sub tid pc depth max_out i sts mt r
    arbitrary: x mt' r' c and xs mt' r' c rule: agentic_tree_agentic_children.induct)
  case (1 O1 cfg sub tid pc depth max_out mt r)
  let ?Q = "tree_call rp pc0 cfg (o_max_delegation_depth O1)"
  obtain y mt1 r1 where w: "run_worker O1 cfg sub tid pc depth max_out mt r = (y, mt1, r1)" by (metis prod_cases3)
  have c1: "calls ?Q r r1"
    using calls_run_worker [of O1 cfg sub tid c depth max_out mt r y mt1 r1 rp pc0] w 1 by (simp add: calls_at_def)
  then have p1: "privacy (rs_engine r1) = rp" using 1(5) calls_keeps by metis
  show ?case
  proof (cases "\<exists>v. y = Inr v \<and> o_enable_delegation O1 \<and> depth < o_max_delegation_depth O1
      \<and> wr_status v = ''completed'' \<and> wr_subtasks v \<noteq> []")
    case False
    then have "r' = r1" using 1(2) w by (auto simp: agentic_tree.simps split: sum.splits if_splits)
    with c1 show ?thesis by simp
  next
    case True
    then obtain v where v: "y = Inr v" "o_enable_delegation O1" "depth < o_max_delegation_depth O1"
      "wr_status v = ''completed''" "wr_subtasks v \<noteq> []" by blast
    obtain ks mt2 r2 where k: "agentic_children O1 cfg sub tid pc depth max_out 0 (wr_subtasks v) mt1 r1 = (ks, mt2, r2)"
      by (metis prod_cases3)
    have c2: "calls ?Q r1 r2"
      using 1(1) [OF w [symmetric] v(1) refl _ k 1(3,4) p1 v(3)] v by simp
    have "calls ?Q r2 r'"
    proof (cases ks)
      case (Inl e)
      then have "r' = r2" using 1(2) w k v by (simp add: agentic_tree.simps)
      then show ?thesis by (simp add: calls_def)
    next
      case (Inr kids)
      then have "synthesize_children O1 cfg (model_for sub r) tid sub v kids max_out mt2 r2 = (x, mt', r')"
        using 1(2) w k v by (simp add: agentic_tree.simps)
      then have "calls_at rp ?Q r2 r'" by (rule calls_synthesize)
      then show ?thesis using p1 calls_keeps [OF c2] by (simp add: calls_at_def)
    qed
    then show ?thesis using calls_append [OF c1 calls_append [OF c2]] by blast
  qed
next
  case (2 O1 cfg sub tid pc depth max_out i mt r)
  then show ?case by (simp add: calls_def)
next
  case (3 O1 cfg sub tid pc depth max_out i st sts mt r)
  let ?Q = "tree_call rp pc0 cfg (o_max_delegation_depth O1)"
  define cpc where "cpc = child_privacy_class (privacy (rs_engine r)) pc (st_privacy_class st)"
  define cid where "cid = tid @ ''/d'' @ show_int (int depth + 1) @ ''.'' @ show_int (int i + 1)"
  obtain y mt1 r1 where y: "(if cpc = Some secret_sensitive then (Inr refused_child, mt, r)
      else agentic_tree O1 cfg (child_submission sub st cpc) cid cpc (Suc depth) max_out mt r) = (y, mt1, r1)"
    by (metis prod_cases3)
  note eq = 3(3) [unfolded agentic_children.simps Let_def, folded cpc_def cid_def, unfolded y]
  obtain cc where cc: "cpc = Some cc" using child_class_Some [of rp c] 3(4,6) cpc_def by metis
  have c1: "calls ?Q r r1"
  proof (cases "cpc = Some secret_sensitive")
    case True
    with y show ?thesis by (simp add: calls_def)
  next
    case False
    then have n: "narrower rp pc0 cc" using child_class_narrower [OF 3(5)] cc 3(4,6) cpc_def by metis
    from False y have t: "agentic_tree O1 cfg (child_submission sub st cpc) cid cpc (Suc depth) max_out mt r = (y, mt1, r1)"
      by simp
    show ?thesis using 3(1) [OF cpc_def cid_def False t cc n 3(6)] 3(7) by simp
  qed
  then have p1: "privacy (rs_engine r1) = rp" using 3(6) calls_keeps by metis
  show ?case
  proof (cases y)
    case (Inl e)
    then have "r' = r1" using eq by simp
    with c1 show ?thesis by simp
  next
    case (Inr w)
    obtain z r2 where z: "note_child O1 tid depth i cid cpc w r1 = (z, r2)" by fastforce
    have "silent r1 r2" using within_effD [OF quiet_note_child z] .
    then have c2: "calls ?Q r r2" and p2: "privacy (rs_engine r2) = rp"
      using c1 p1 by (auto simp: calls_def silent_def)
    show ?thesis
    proof (cases z)
      case (Inl e)
      then have "r' = r2" using eq z Inr by simp
      with c2 show ?thesis by simp
    next
      case z2: (Inr u)
      obtain ks mt3 r3 where k: "agentic_children O1 cfg sub tid pc depth max_out (Suc i) sts
          (mt1\<lparr>mt_children := mt_children mt1 + 1\<rparr>) r2 = (ks, mt3, r3)" by (metis prod_cases3)
      have "r' = r3" using eq z Inr z2 k by (auto split: sum.splits)
      moreover have "calls ?Q r2 r3"
        using 3(2) [OF cpc_def cid_def y [symmetric] Inr refl refl z [symmetric] z2 k 3(4,5) p2 3(7)] .
      ultimately show ?thesis using calls_append [OF c2] by blast
    qed
  qed
qed

end
