(* ===== verification/Router_Theorems.thy ===== *)
theory Router_Theorems
  imports Router_Effects
begin

text \<open>
  What the router service guarantees about the outside: which text reaches which provider, that money
  is spent after a confirmation only, where agent loops run, and how far delegation goes.
\<close>

section \<open>Licensed calls\<close>

text \<open>The calls one submission may make, whatever the outside answers.\<close>

fun licensed :: "outside \<Rightarrow> task_submission \<Rightarrow> routing_privacy \<Rightarrow> ext_call \<Rightarrow> bool" where
  "licensed O1 sub rp (GatewayCall cfg req) \<longleftrightarrow>
    (p_type cfg = ''cloud'' \<longrightarrow> \<not> is_agentic sub \<and> gr_messages req = [(''user'', snd (redact_submission O1 sub))])"
| "licensed O1 sub rp (RentedCall cfg n req) \<longleftrightarrow> is_rented cfg"
| "licensed O1 sub rp (RemoteRun wid s tid) \<longleftrightarrow> is_agentic sub \<and> s = sub
    \<and> (\<exists>wq wk. o_wq O1 = Some wq \<and> wk \<in> set (o_remote_workers O1) \<and> rw_worker_id wk = wid
         \<and> may_claim wq (Some (rw_tier wk)) (privacy_class_value (classify_submission O1 sub)))"
| "licensed O1 sub rp (AgentRun cfg d pc s) \<longleftrightarrow> is_agentic sub \<and> agentic_allowed sub cfg
    \<and> d \<le> o_max_delegation_depth O1
    \<and> (case pc of None \<Rightarrow> is_rented cfg | Some c \<Rightarrow> narrower rp (classify_submission O1 sub) c)"
| "licensed O1 sub rp (AskBudget p) \<longleftrightarrow> True"
| "licensed O1 sub rp (AskCharge req ok) \<longleftrightarrow> True"

fun on_provider :: "provider_config \<Rightarrow> ext_call \<Rightarrow> bool" where
  "on_provider cfg (GatewayCall c req) \<longleftrightarrow> c = cfg"
| "on_provider cfg (RentedCall c n req) \<longleftrightarrow> c = cfg"
| "on_provider cfg (AgentRun c d pc s) \<longleftrightarrow> c = cfg"
| "on_provider cfg _ \<longleftrightarrow> False"

abbreviation lic :: "outside \<Rightarrow> task_submission \<Rightarrow> routing_privacy \<Rightarrow> provider_config \<Rightarrow> ext_call \<Rightarrow> bool" where
  "lic O1 sub rp cfg \<equiv> \<lambda>c. licensed O1 sub rp c \<and> on_provider cfg c"

lemma calls_run_oneshot:
  assumes "\<not> is_agentic sub"
  shows "within_eff (calls_at rp (lic O1 sub rp cfg)) (run_oneshot O1 sub tid cfg q m)"
  unfolding run_oneshot_def
  by (intro calling.eff_bnd calling.eff_case quiet_calls calls_dispatch) (auto simp: oneshot_request_def assms)

lemma agentic_allowed_local: "agentic_allowed sub cfg \<Longrightarrow> p_type cfg = ''local''"
  by (auto simp: agentic_allowed_def is_rented_def)

lemma calls_rented_loop:
  assumes "rented_loop O1 cfg sub tid m k r = (x, r')" and "is_rented cfg" "is_agentic sub" "agentic_allowed sub cfg"
  shows "calls_at rp (lic O1 sub rp cfg) r r'"
proof -
  let ?R = "calls_at rp (lic O1 sub rp cfg)"
  have acq: "?R r s" if "acquire_node O1 cfg spec r = (y, s)" for spec y s
    using within_effD [OF quiet_acquire_node that] by (rule calling.eff_silent)
  have cli: "?R a s" if "rented_client O1 cfg h a = (y, s)" for h y a s
    using within_effD [OF quiet_rented_client that] by (rule calling.eff_silent)
  have bill: "?R a s" if "bill_window cfg tid b a = (y, s)" for b y a s
    using within_effD [OF quiet_bill_window that] by (rule calling.eff_silent)
  have run: "?R a s" if "run_runtime rt (rented_send cfg h client) m src
      (a\<lparr>rs_trace := rs_trace a @ [AgentRun cfg 0 None sub]\<rparr>) = (y, src', s)" for rt h client src a y src' s
  proof -
    have "?R (a\<lparr>rs_trace := rs_trace a @ [AgentRun cfg 0 None sub]\<rparr>) s"
      using calls_run_runtime [OF calls_rented_send that, where Q = "lic O1 sub rp cfg"] assms(2) by simp
    moreover have "?R a (a\<lparr>rs_trace := rs_trace a @ [AgentRun cfg 0 None sub]\<rparr>)"
      using assms(2-4) by (simp add: calls_at_def calls_def)
    ultimately show ?thesis by (blast intro: calling.eff_trans)
  qed
  show ?thesis using assms(1)
    by (auto simp: rented_loop_def split: sum.splits prod.splits
        dest!: acq cli bill run intro: calling.eff_trans)
qed

lemma run_agentic_rented_alt:
  "run_agentic_rented O1 cfg sub tid k = bnd (asks (model_for sub)) (\<lambda>m. seq (enter_pool O1) (seq (reap_idle_nodes O1)
    (\<lambda>r. case rented_loop O1 cfg sub tid m k r of
       (Inl y, r1) \<Rightarrow> (case y of (e, b, src) \<Rightarrow>
          finally_do (rented_failed O1 cfg sub tid m e b src) (release_node cfg)) r1
     | (Inr y, r1) \<Rightarrow> (case y of (w, h, src) \<Rightarrow>
          seq (release_node cfg) (rented_done O1 cfg sub tid m w h src)) r1)))"
proof -
  have "(\<lambda>r. case rented_loop O1 cfg sub tid m k r of
       (Inl y, r1) \<Rightarrow> (case y of (e, b, src) \<Rightarrow>
          finally_do (rented_failed O1 cfg sub tid m e b src) (release_node cfg)) r1
     | (Inr y, r1) \<Rightarrow> (case y of (w, h, src) \<Rightarrow>
          seq (release_node cfg) (rented_done O1 cfg sub tid m w h src)) r1) =
     (\<lambda>r. case rented_loop O1 cfg sub tid m k r of
       (Inl (e, engaged, src), r1) \<Rightarrow>
         finally_do (rented_failed O1 cfg sub tid m e engaged src) (release_node cfg) r1
     | (Inr (w, h, src), r1) \<Rightarrow>
         seq (release_node cfg) (rented_done O1 cfg sub tid m w h src) r1)" for m
    by (auto simp: fun_eq_iff split: prod.split sum.split)
  then show ?thesis unfolding run_agentic_rented_def by simp
qed

lemma calls_run_agentic_rented:
  assumes "is_rented cfg" "is_agentic sub" "agentic_allowed sub cfg"
  shows "within_eff (calls_at rp (lic O1 sub rp cfg)) (run_agentic_rented O1 cfg sub tid k)"
proof -
  have loop: "within_eff (calls_at rp (lic O1 sub rp cfg)) (rented_loop O1 cfg sub tid m k)" for m
    by (rule within_effI) (metis calls_rented_loop assms prod.collapse)
  show ?thesis unfolding run_agentic_rented_alt
    by (intro calling.eff_bnd calling.eff_seq calling.eff_case quiet_calls loop)
      (auto intro!: calling.eff_finally calling.eff_seq quiet_calls split: prod.split)
qed

lemma calls_run_agentic:
  assumes "is_agentic sub" "agentic_allowed sub cfg" "classify_submission O1 sub \<noteq> secret_sensitive"
  shows "within_eff (calls_at rp (lic O1 sub rp cfg))
    (run_agentic O1 cfg sub tid k q (classify_submission O1 sub))"
proof (cases "is_rented cfg")
  case True
  then show ?thesis using calls_run_agentic_rented [OF True assms(1,2)] by (simp add: run_agentic_def)
next
  case False
  let ?R = "calls_at rp (lic O1 sub rp cfg)" and ?c = "classify_submission O1 sub"
  have tree: "?R r r'" if t: "agentic_tree O1 cfg sub tid (Some ?c) 0 k mt r = (x, mt', r')" for mt r x mt' r'
  proof -
    have c: "calls (tree_call rp ?c cfg (o_max_delegation_depth O1)) r r'" if "privacy (rs_engine r) = rp"
      using calls_agentic(1) [OF t refl _ that, of ?c] assms(3) by (simp add: narrower_def)
    have m: "lic O1 sub rp cfg c" if "tree_call rp ?c cfg (o_max_delegation_depth O1) c" for c
      using that assms agentic_allowed_local [OF assms(2)] by (cases c) (auto split: option.splits)
    show ?thesis unfolding calls_at_def using calls_mono [OF c, of "lic O1 sub rp cfg"] m by blast
  qed
  have fin: "?R a s" if "agentic_failed O1 cfg sub tid m q mt e a = (y, s)"
    for m mt e a y s using within_effD [OF quiet_agentic_failed that] by (rule calling.eff_silent)
  have fin2: "?R a s" if "agentic_done O1 cfg sub tid m q mt w a = (y, s)"
    for m mt w a y s using within_effD [OF quiet_agentic_done that] by (rule calling.eff_silent)
  have "within_eff ?R (\<lambda>r. case agentic_tree O1 cfg sub tid (Some ?c) 0 k no_usage r of
           (Inl e, mt, r1) \<Rightarrow> agentic_failed O1 cfg sub tid m q mt e r1
         | (Inr w, mt, r1) \<Rightarrow> agentic_done O1 cfg sub tid m q mt w r1)" for m
  proof (rule within_effI)
    fix r :: router
    obtain x mt r1 where t: "agentic_tree O1 cfg sub tid (Some ?c) 0 k no_usage r = (x, mt, r1)" by (metis prod_cases3)
    show "?R r (snd (case agentic_tree O1 cfg sub tid (Some ?c) 0 k no_usage r of
           (Inl e, mt, r1) \<Rightarrow> agentic_failed O1 cfg sub tid m q mt e r1
         | (Inr w, mt, r1) \<Rightarrow> agentic_done O1 cfg sub tid m q mt w r1))"
      using calling.eff_trans [OF tree [OF t]] fin fin2 by (cases x) (simp_all add: t, (metis prod.collapse)+)
  qed
  then show ?thesis using False unfolding run_agentic_def
    by (auto intro!: calling.eff_bnd calling.eff_asks)
qed

lemma calls_execute:
  assumes "is_agentic sub \<Longrightarrow> agentic_allowed sub cfg" "classify_submission O1 sub \<noteq> secret_sensitive"
  shows "within_eff (calls_at rp (lic O1 sub rp cfg)) (execute O1 sub tid cfg q m)"
  unfolding execute_def using assms
  by (intro calling.eff_seq quiet_calls) (auto intro: calls_run_agentic calls_run_oneshot)

lemma calls_reserve_and_execute:
  assumes "is_agentic sub \<Longrightarrow> agentic_allowed sub cfg" "classify_submission O1 sub \<noteq> secret_sensitive"
  shows "within_eff (calls_at rp (lic O1 sub rp cfg)) (reserve_and_execute O1 sub tid cfg ctx m)"
  unfolding reserve_and_execute_def using calls_execute [OF assms]
  by (auto intro!: calling.eff_bnd quiet_calls)

section \<open>Spending\<close>

text \<open>The provider whose bill a call goes to, when it costs real money.\<close>

fun billed_to :: "ext_call \<Rightarrow> string option" where
  "billed_to (GatewayCall cfg req) = (if needs_confirmation cfg then Some (provider_id cfg) else None)"
| "billed_to (RentedCall cfg n req) = Some (provider_id cfg)"
| "billed_to _ = None"

fun consent :: "ext_call \<Rightarrow> string set" where
  "consent (AskCharge req True) = {cr_provider req}"
| "consent _ = {}"

text \<open>Every billed call comes after a confirmation for its provider.\<close>

fun consented :: "string set \<Rightarrow> ext_call list \<Rightarrow> bool" where
  "consented S [] = True"
| "consented S (c # cs) = ((case billed_to c of None \<Rightarrow> True | Some p \<Rightarrow> p \<in> S) \<and> consented (S \<union> consent c) cs)"

lemma consented_append:
  "consented S (xs @ ys) \<longleftrightarrow> consented S xs \<and> consented (S \<union> \<Union> (consent ` set xs)) ys"
  by (induction xs arbitrary: S) (auto simp: Un_assoc)

lemma consented_mono: "consented S xs \<Longrightarrow> S \<subseteq> T \<Longrightarrow> consented T xs"
proof (induction xs arbitrary: S T)
  case (Cons c cs)
  have "consented (T \<union> consent c) cs" by (rule Cons.IH [of "S \<union> consent c"]) (use Cons.prems in auto)
  then show ?case using Cons.prems by (auto split: option.splits)
qed simp

definition paid_after_consent :: "router \<Rightarrow> router \<Rightarrow> bool" where
  "paid_after_consent a b \<longleftrightarrow> (\<exists>es. rs_trace b = rs_trace a @ es \<and> consented {} es)"

interpretation paying: trace_effect paid_after_consent
proof unfold_locales
  show "paid_after_consent r r" for r by (simp add: paid_after_consent_def)
  show "paid_after_consent a b" if "silent a b" for a b using that by (simp add: paid_after_consent_def silent_def)
  show "paid_after_consent a c" if "paid_after_consent a b" "paid_after_consent b c" for a b c
    using that unfolding paid_after_consent_def
    by (metis append.assoc consented_append consented_mono empty_subsetI)
qed

lemmas quiet_pays = quiet [THEN paying.eff_of_silent]

lemma on_provider_consented:
  "list_all (on_provider cfg) es \<Longrightarrow> needs_confirmation cfg \<longrightarrow> provider_id cfg \<in> S
    \<Longrightarrow> (\<And>c n r. RentedCall c n r \<in> set es \<Longrightarrow> is_rented c) \<Longrightarrow> consented S es"
proof (induction es arbitrary: S)
  case (Cons c es)
  have "consented (S \<union> consent c) es" by (rule Cons.IH) (use Cons.prems in auto)
  then show ?case using Cons.prems by (cases c) (auto simp: needs_confirmation_def)
qed simp

lemma lic_consented:
  assumes "within_eff (calls_at rp (lic O1 sub rp cfg)) m" "privacy (rs_engine r) = rp" "m r = (x, r')"
    and "needs_confirmation cfg \<longrightarrow> provider_id cfg \<in> S"
  shows "\<exists>es. rs_trace r' = rs_trace r @ es \<and> consented S es"
proof -
  have "calls (lic O1 sub rp cfg) r r'" using within_effD [OF assms(1,3)] assms(2) by (simp add: calls_at_def)
  then obtain es where es: "rs_trace r' = rs_trace r @ es" "list_all (lic O1 sub rp cfg) es" by (auto simp: calls_def)
  have "consented S es"
    by (rule on_provider_consented [OF _ assms(4)]) (use es(2) in \<open>auto simp: list_all_iff\<close>)
  then show ?thesis using es(1) by blast
qed

lemma charge_of_provider: "charge_of O1 cfg ctx t r = (Inr req, r') \<Longrightarrow> cr_provider req = provider_id cfg"
  by (auto simp: charge_of_def Let_def bnd_def asks_def ret_def of_store_def
      split: option.splits sum.splits prod.splits)

lemma calls_confirm_charge: "within_eff (calls_at rp (licensed O1 sub rp)) (confirm_charge O1 cfg ctx t tid)"
  unfolding confirm_charge_def
  by (intro calling.eff_bnd calling.eff_seq quiet_calls)
    (auto intro!: calling.eff_bnd calling.eff_seq quiet_calls calls_note split: option.split)

lemma pays_note: "billed_to c = None \<Longrightarrow> within_eff paid_after_consent (note_call c)"
  by (rule within_effI) (simp add: paid_after_consent_def note_call_def modify_def)

lemma pays_confirm_charge: "within_eff paid_after_consent (confirm_charge O1 cfg ctx t tid)"
  unfolding confirm_charge_def
  by (intro paying.eff_bnd paying.eff_seq quiet_pays)
    (auto intro!: paying.eff_bnd paying.eff_seq quiet_pays pays_note split: option.split)

text \<open>An approval is on record.\<close>

lemma confirm_charge_recorded:
  assumes "confirm_charge O1 cfg ctx t tid r = (Inr True, r')"
  shows "\<exists>req. cr_provider req = provider_id cfg \<and> rs_trace r' = rs_trace r @ [AskCharge req True]
    \<and> privacy (rs_engine r') = privacy (rs_engine r)"
proof -
  obtain y r1 where c: "charge_of O1 cfg ctx t r = (y, r1)" by fastforce
  then have s: "silent r r1" by (rule within_effD [OF quiet_charge_of])
  obtain req where y: "y = Inr req" using assms c by (cases y) (auto simp: confirm_charge_def bnd_def)
  have p: "cr_provider req = provider_id cfg" using c y by (auto intro: charge_of_provider)
  show ?thesis
  proof (cases "o_authorizer O1")
    case None
    then show ?thesis using assms c y
      by (simp add: confirm_charge_def bnd_def seq_def ret_def append_line_def mod_db_def modify_def)
  next
    case (Some au)
    have "rs_trace r' = rs_trace r1 @ [AskCharge req True] \<and> privacy (rs_engine r') = privacy (rs_engine r1)"
      using assms c y Some
      by (auto simp: confirm_charge_def bnd_def seq_def ret_def append_line_def mod_db_def modify_def asks_def
          of_result_def note_call_def put_mem_def split: sum.splits)
    then show ?thesis using s p by (auto simp: silent_def)
  qed
qed

lemma pays_execute:
  assumes "is_agentic sub \<Longrightarrow> agentic_allowed sub cfg" "classify_submission O1 sub \<noteq> secret_sensitive"
    and "needs_confirmation cfg \<longrightarrow> provider_id cfg \<in> S"
    and "reserve_and_execute O1 sub tid cfg ctx m r = (x, r')"
  shows "\<exists>es. rs_trace r' = rs_trace r @ es \<and> consented S es"
  using lic_consented [OF calls_reserve_and_execute [OF assms(1,2)] refl assms(4,3)] by simp

lemma pays_confirm_and_execute:
  assumes "is_agentic sub \<Longrightarrow> agentic_allowed sub cfg" "classify_submission O1 sub \<noteq> secret_sensitive"
  shows "within_eff paid_after_consent (confirm_and_execute O1 sub tid cfg ctx m)"
proof (rule within_effI)
  fix r :: router
  show "paid_after_consent r (snd (confirm_and_execute O1 sub tid cfg ctx m r))"
  proof (cases "needs_confirmation cfg")
    case False
    obtain x r' where e: "reserve_and_execute O1 sub tid cfg ctx m r = (x, r')" by fastforce
    show ?thesis using False pays_execute [OF assms _ e, of "{}"]
      by (simp add: confirm_and_execute_def e paid_after_consent_def)
  next
    case True
    obtain y r1 where c: "confirm_charge O1 cfg ctx (ts_task sub) tid r = (y, r1)" by fastforce
    have p1: "paid_after_consent r r1" by (rule within_effD [OF pays_confirm_charge c])
    show ?thesis
    proof (cases "y = Inr True")
      case True
      with confirm_charge_recorded c obtain req where
        q: "cr_provider req = provider_id cfg" "rs_trace r1 = rs_trace r @ [AskCharge req True]" by blast
      obtain x r' where e: "reserve_and_execute O1 sub tid cfg ctx m r1 = (x, r')" by fastforce
      obtain es where es: "rs_trace r' = rs_trace r1 @ es" "consented {provider_id cfg} es"
        using pays_execute [OF assms _ e, of "{provider_id cfg}"] by auto
      have "consented {} (AskCharge req True # es)" using es(2) q(1) by simp
      then show ?thesis using \<open>needs_confirmation cfg\<close> True c e q(2) es(1)
        by (simp add: confirm_and_execute_def bnd_def paid_after_consent_def)
    next
      case False
      have "paid_after_consent a (snd (router_reject O1 tid u v a))" for a u v
        using paying.eff_of_silent [OF quiet_reject] by (simp add: within_eff_def)
      then show ?thesis using \<open>needs_confirmation cfg\<close> False c p1 paying.eff_trans [OF p1]
        by (cases y) (auto simp: confirm_and_execute_def bnd_def)
    qed
  qed
qed

lemma calls_confirm_and_execute:
  assumes "is_agentic sub \<Longrightarrow> agentic_allowed sub cfg" "classify_submission O1 sub \<noteq> secret_sensitive"
  shows "within_eff (calls_at rp (licensed O1 sub rp)) (confirm_and_execute O1 sub tid cfg ctx m)"
proof -
  have "within_eff (calls_at rp (licensed O1 sub rp)) (reserve_and_execute O1 sub tid cfg ctx m)"
    by (rule calls_at_mono [OF calls_reserve_and_execute [OF assms]]) simp_all
  then show ?thesis unfolding confirm_and_execute_def
    by (auto intro!: calling.eff_bnd calls_confirm_charge quiet_calls)
qed

section \<open>The whole submission\<close>

lemma calls_prompt_budget: "within_eff (calls_at rp (licensed O1 sub rp)) (prompt_budget O1)"
proof -
  have "within_eff silent (\<lambda>r. case set_budget a p (mem r) of
       (Inl (ValueError v), m) \<Rightarrow> (Inr False, put_mem m r)
     | (Inl e, m) \<Rightarrow> (Inl (Store e), put_mem m r)
     | (Inr u, m) \<Rightarrow> (Inr True, put_mem m r))" for a p
    by (rule within_effI) (auto simp: silent_def split: prod.split sum.split exc.split)
  note calling.eff_of_silent [OF this, intro!]
  show ?thesis unfolding prompt_budget_def
    by (auto intro!: calling.eff_bnd calling.eff_seq quiet_calls calls_note split: option.split)
qed

lemma pays_prompt_budget: "within_eff paid_after_consent (prompt_budget O1)"
proof -
  have "within_eff silent (\<lambda>r. case set_budget a p (mem r) of
       (Inl (ValueError v), m) \<Rightarrow> (Inr False, put_mem m r)
     | (Inl e, m) \<Rightarrow> (Inl (Store e), put_mem m r)
     | (Inr u, m) \<Rightarrow> (Inr True, put_mem m r))" for a p
    by (rule within_effI) (auto simp: silent_def split: prod.split sum.split exc.split)
  note paying.eff_of_silent [OF this, intro!]
  show ?thesis unfolding prompt_budget_def
    by (auto intro!: paying.eff_bnd paying.eff_seq quiet_pays pays_note split: option.split)
qed

text \<open>What holds of every stage before the dispatch and of the dispatch holds of the submission.\<close>

lemma submit_within:
  assumes R: "trace_effect R" and prompt: "within_eff R (prompt_budget O1)"
    and dispatch: "\<And>cfg tid ctx m. (is_agentic sub \<Longrightarrow> agentic_allowed sub cfg) \<Longrightarrow>
      classify_submission O1 sub \<noteq> secret_sensitive \<Longrightarrow> within_eff R (confirm_and_execute O1 sub tid cfg ctx m)"
    and remote: "\<And>wk rt tid r r'. is_agentic sub \<Longrightarrow>
      select_remote_worker O1 (classify_submission O1 sub) r = (Inr (Some (wk, rt)), r') \<Longrightarrow>
      within_eff R (run_agentic_remote O1 wk rt sub tid (classify_submission O1 sub))"
  shows "within_eff R (submit_task O1 sub)"
proof -
  note E = effect.eff_bnd [OF trace_effect.axioms(1) [OF R]] effect.eff_seq [OF trace_effect.axioms(1) [OF R]]
  note q = quiet [THEN trace_effect.eff_of_silent [OF R]]
  have sel: "within_eff R (dispatch_selected O1 sub tid ctx d)" if "classify_submission O1 sub \<noteq> secret_sensitive"
    for tid ctx d
    unfolding dispatch_selected_def using dispatch [OF _ that]
    by (auto intro!: E q split: option.split)
  have "within_eff R (route_with_budget_prompt O1 ctx st)" for ctx st
    unfolding route_with_budget_prompt_def by (auto intro!: E q prompt)
  then have route: "within_eff R (route_and_dispatch O1 sub tid)" if "classify_submission O1 sub \<noteq> secret_sensitive" for tid
    unfolding route_and_dispatch_def using sel [OF that] by (intro E q) auto
  have rem: "within_eff R (remote_or_route O1 sub tid)" if "classify_submission O1 sub \<noteq> secret_sensitive" for tid
  proof (cases "is_agentic sub")
    case True
    have "within_eff R (bnd (select_remote_worker O1 (classify_submission O1 sub)) (\<lambda>sel. case sel of
         Some (wk, rt) \<Rightarrow> run_agentic_remote O1 wk rt sub tid (classify_submission O1 sub)
       | None \<Rightarrow> route_and_dispatch O1 sub tid))"
      by (rule effect.eff_bnd_val [OF trace_effect.axioms(1) [OF R]
            trace_effect.eff_of_silent [OF R quiet_select]])
        (use remote [OF True] route [OF that] in \<open>auto split: option.split\<close>)
    then show ?thesis using True by (simp add: remote_or_route_def)
  qed (simp add: remote_or_route_def route [OF that])
  have "within_eff R (guard_task O1 sub tid)" if "classify_submission O1 sub \<noteq> secret_sensitive" for tid
    unfolding guard_task_def using rem [OF that] by (auto intro!: E q split: option.split)
  then have "within_eff R (submit_task_pipeline O1 sub)"
    unfolding submit_task_pipeline_def by (auto intro!: E q)
  then show ?thesis unfolding submit_task_def
    by (auto intro!: effect.eff_catch [OF trace_effect.axioms(1) [OF R]] E q split: rexc.split)
qed

lemma pick_worker_trusted:
  "pick_worker O1 wq factory pc t ws = Some (wk, rt) \<Longrightarrow> wk \<in> set ws \<and> may_claim wq (Some (rw_tier wk)) pc"
  by (induction ws) (auto split: if_splits sum.splits)

lemma select_trusted:
  assumes "select_remote_worker O1 pc r = (Inr (Some (wk, rt)), r')"
  shows "\<exists>wq. o_wq O1 = Some wq \<and> wk \<in> set (o_remote_workers O1) \<and> may_claim wq (Some (rw_tier wk)) (privacy_class_value pc)"
  using assms by (auto simp: select_remote_worker_def asks_def ret_def dest: pick_worker_trusted split: option.splits)

lemma calls_run_agentic_remote:
  assumes "Q (RemoteRun (rw_worker_id wk) sub tid)"
  shows "within_eff (calls_at rp Q) (run_agentic_remote O1 wk rt sub tid pc)"
  unfolding run_agentic_remote_def
  by (intro calling.eff_seq quiet_calls calls_note assms)
    (auto intro!: calling.eff_bnd calling.eff_seq quiet_calls split: sum.split)

lemma pays_run_agentic_remote: "within_eff paid_after_consent (run_agentic_remote O1 wk rt sub tid pc)"
  unfolding run_agentic_remote_def
  by (intro paying.eff_seq quiet_pays pays_note)
    (auto intro!: paying.eff_bnd paying.eff_seq quiet_pays split: sum.split)

lemma submit_licensed: "within_eff (calls_at rp (licensed O1 sub rp)) (submit_task O1 sub)"
proof (rule submit_within [OF calling.trace_effect_axioms calls_prompt_budget calls_confirm_and_execute])
  fix wk rt tid and r r' :: router
  assume a: "is_agentic sub" and s: "select_remote_worker O1 (classify_submission O1 sub) r = (Inr (Some (wk, rt)), r')"
  show "within_eff (calls_at rp (licensed O1 sub rp)) (run_agentic_remote O1 wk rt sub tid (classify_submission O1 sub))"
    by (rule calls_run_agentic_remote) (use select_trusted [OF s] a in auto)
qed auto

lemma submit_secret_silent:
  assumes "classify_submission O1 sub = secret_sensitive"
  shows "within_eff silent (submit_task O1 sub)"
proof -
  have "within_eff silent (submit_task_pipeline O1 sub)"
    unfolding submit_task_pipeline_def using assms by (auto intro!: silence.eff_bnd quiet)
  then show ?thesis unfolding submit_task_def
    by (auto intro!: silence.eff_catch silence.eff_seq quiet split: rexc.split)
qed

text \<open>The calls that one submission makes.\<close>

definition calls_made :: "outside \<Rightarrow> task_submission \<Rightarrow> router \<Rightarrow> ext_call list" where
  "calls_made O1 sub r = drop (length (rs_trace r)) (rs_trace (snd (submit_task O1 sub r)))"

lemma calls_made_licensed: "list_all (licensed O1 sub (privacy (rs_engine r))) (calls_made O1 sub r)"
proof -
  have "calls_at (privacy (rs_engine r)) (licensed O1 sub (privacy (rs_engine r))) r (snd (submit_task O1 sub r))"
    using submit_licensed by (simp add: within_eff_def)
  then show ?thesis by (auto simp: calls_at_def calls_def calls_made_def)
qed

lemma calls_made_secret: "classify_submission O1 sub = secret_sensitive \<Longrightarrow> calls_made O1 sub r = []"
  using submit_secret_silent [of O1 sub] by (simp add: calls_made_def within_eff_def silent_def)

lemma calls_made_extends: "rs_trace (snd (submit_task O1 sub r)) = rs_trace r @ calls_made O1 sub r"
proof -
  have "calls_at (privacy (rs_engine r)) (licensed O1 sub (privacy (rs_engine r))) r (snd (submit_task O1 sub r))"
    using submit_licensed by (simp add: within_eff_def)
  then show ?thesis by (auto simp: calls_at_def calls_def calls_made_def)
qed

text \<open>A generation as the text policy wants it: what goes to a cloud provider is one user message with the
  output of the redaction pass, for a one-shot task that is not \<open>secret_sensitive\<close>.\<close>

fun cloud_redacted :: "outside \<Rightarrow> task_submission \<Rightarrow> ext_call \<Rightarrow> bool" where
  "cloud_redacted O1 sub (GatewayCall cfg req) \<longleftrightarrow> p_type cfg \<noteq> ''cloud''
     \<or> gr_messages req = [(''user'', snd (redact_submission O1 sub))] \<and> tc_execution (ts_constraints sub) \<noteq> ''agentic''"
| "cloud_redacted O1 sub (RentedCall cfg n req) \<longleftrightarrow> p_type cfg \<noteq> ''cloud''"
| "cloud_redacted O1 sub (AgentRun cfg d pc s) \<longleftrightarrow> p_type cfg \<noteq> ''cloud''"
| "cloud_redacted O1 sub _ \<longleftrightarrow> True"

text \<open>C7. A cloud provider sees the redacted text of a task and nothing else of it. Whatever the outside
  answers and whatever other processes do, every request that a submission sends to a cloud provider
  consists of one user message with the output of the redaction pass and is sent for a one-shot task
  only; no agent loop and no rented generation runs on a cloud provider; and a submission classified
  \<open>secret_sensitive\<close> makes no call at all.\<close>

theorem cloud_sees_redacted_text:
  "list_all (\<lambda>c. cloud_redacted O1 sub c \<and> classify_submission O1 sub \<noteq> secret_sensitive) (calls_made O1 sub r)
   \<and> rs_trace (snd (submit_task O1 sub r)) = rs_trace r @ calls_made O1 sub r"
proof -
  have "cloud_redacted O1 sub c" if "licensed O1 sub (privacy (rs_engine r)) c" for c
    using that agentic_allowed_local by (cases c) (auto simp: is_agentic_def is_rented_def)
  moreover have "classify_submission O1 sub \<noteq> secret_sensitive" if "c \<in> set (calls_made O1 sub r)" for c
    using that calls_made_secret by fastforce
  ultimately show ?thesis using calls_made_licensed [of O1 sub r] calls_made_extends by (auto simp: list_all_iff)
qed

text \<open>C8. Nothing is spent without consent: in the calls of a submission every generation on a paid cloud
  provider and every generation on a rented node is preceded, in the same submission, by a charge for
  that provider that the user confirmed.\<close>

theorem spend_confirmed_first:
  "consented {} (calls_made O1 sub r)
   \<and> rs_trace (snd (submit_task O1 sub r)) = rs_trace r @ calls_made O1 sub r"
proof -
  have "within_eff paid_after_consent (submit_task O1 sub)"
    by (rule submit_within [OF paying.trace_effect_axioms pays_prompt_budget pays_confirm_and_execute
          pays_run_agentic_remote]) auto
  then have "paid_after_consent r (snd (submit_task O1 sub r))" by (simp add: within_eff_def)
  then show ?thesis by (auto simp: paid_after_consent_def calls_made_def)
qed

text \<open>An agent run or a remote run as the trust policy wants it.\<close>

fun confined :: "outside \<Rightarrow> task_submission \<Rightarrow> routing_privacy \<Rightarrow> ext_call \<Rightarrow> bool" where
  "confined O1 sub rp (AgentRun cfg d pc s) \<longleftrightarrow>
    p_type cfg = ''local'' \<and> (is_rented cfg \<longrightarrow> tc_allow_rented (ts_constraints sub) \<and> rented_trust_ok cfg)
    \<and> d \<le> o_max_delegation_depth O1
    \<and> (case pc of None \<Rightarrow> is_rented cfg | Some c \<Rightarrow> narrower rp (classify_submission O1 sub) c)"
| "confined O1 sub rp (RemoteRun wid s tid) \<longleftrightarrow> s = sub
    \<and> (\<exists>wq wk. o_wq O1 = Some wq \<and> wk \<in> set (o_remote_workers O1) \<and> rw_worker_id wk = wid
         \<and> may_claim wq (Some (rw_tier wk)) (privacy_class_value (classify_submission O1 sub)))"
| "confined O1 sub rp _ \<longleftrightarrow> True"


end
