(* ===== verification/Delegation.thy ===== *)
theory Delegation
  imports Router_Theorems
begin

text \<open>
  How much work a delegation tree can cause: the recursion of \<open>_agentic_tree\<close> ends, and with at most \<open>F\<close>
  sub-tasks per worker and the depth limit \<open>D\<close> it starts at most \<open>1 + F + ... + F ^ D\<close> workers.
\<close>

primrec delegates_at_most :: "nat \<Rightarrow> runtime \<Rightarrow> bool" where
  "delegates_at_most F (Finish w) \<longleftrightarrow> length (wr_subtasks w) \<le> F"
| "delegates_at_most F (Crash e) \<longleftrightarrow> True"
| "delegates_at_most F (Ask req k) \<longleftrightarrow> (\<forall>x. delegates_at_most F (k x))"

fun is_agent_run :: "ext_call \<Rightarrow> bool" where
  "is_agent_run (AgentRun c d pc s) \<longleftrightarrow> True"
| "is_agent_run _ \<longleftrightarrow> False"

definition runs_at_most :: "nat \<Rightarrow> router \<Rightarrow> router \<Rightarrow> bool" where
  "runs_at_most n a b \<longleftrightarrow>
    (\<exists>es. rs_trace b = rs_trace a @ es \<and> length (filter is_agent_run es) \<le> n)"

fun tree_size :: "nat \<Rightarrow> nat \<Rightarrow> nat" where
  "tree_size F 0 = 1"
| "tree_size F (Suc n) = 1 + F * tree_size F n"

lemma tree_size_sum: "tree_size F n = (\<Sum>i\<le>n. F ^ i)"
  by (induction n) (simp_all add: sum.atMost_Suc_shift sum_distrib_left del: sum.atMost_Suc)

lemma runs_refl: "runs_at_most n a a"
  by (simp add: runs_at_most_def)

lemma runs_trans: "runs_at_most m a b \<Longrightarrow> runs_at_most n b c \<Longrightarrow> runs_at_most (m + n) a c"
  unfolding runs_at_most_def by (force simp: add_mono)

lemma runs_mono: "runs_at_most m a b \<Longrightarrow> m \<le> n \<Longrightarrow> runs_at_most n a b"
  unfolding runs_at_most_def using order.trans by blast

lemma runs_of_calls: "calls_at (privacy (rs_engine a)) (\<lambda>c. \<not> is_agent_run c) a b \<Longrightarrow> runs_at_most 0 a b"
  by (auto simp: calls_at_def calls_def runs_at_most_def list_all_iff)

lemma runs_of_silent: "silent a b \<Longrightarrow> runs_at_most 0 a b"
  by (simp add: silent_def runs_at_most_def)

lemma run_runtime_delegates:
  "delegates_at_most F rt \<Longrightarrow> run_runtime rt send m src r = (Inr w, src', r') \<Longrightarrow> length (wr_subtasks w) \<le> F"
proof (induction rt arbitrary: src r)
  case (Ask req k)
  then show ?case by (auto split: prod.splits sum.splits intro: Ask.IH [OF rangeI])
qed auto

lemma run_worker_runs:
  assumes "run_worker O1 cfg sub tid pc depth max_out mt r = (x, mt', r')"
  shows "runs_at_most 1 r r'"
proof -
  let ?r1 = "r\<lparr>rs_trace := rs_trace r @ [AgentRun cfg depth pc sub]\<rparr>"
  have one: "runs_at_most 1 r ?r1" by (simp add: runs_at_most_def)
  have "runs_at_most 0 ?r1 s" if "run_runtime rt (gateway_send O1 cfg) m src ?r1 = (y, src', s)" for rt m src y src' s
    by (rule runs_of_calls, rule calls_run_runtime [OF calls_gateway_send that]) simp
  then have "runs_at_most 1 r s" if "run_runtime rt (gateway_send O1 cfg) m src ?r1 = (y, src', s)" for rt m src y src' s
    using runs_trans [OF one] that by fastforce
  then show ?thesis using assms by (auto simp: run_worker_def Let_def runs_refl split: sum.splits prod.splits)
qed

lemma run_worker_delegates:
  assumes "run_worker O1 cfg sub tid pc depth max_out mt r = (Inr w, mt', r')"
    and "\<And>sub tid rc t rt. o_local_runtime O1 sub tid rc t = Inr rt \<Longrightarrow> delegates_at_most F rt"
  shows "length (wr_subtasks w) \<le> F"
  using assms(1) by (auto simp: run_worker_def Let_def split: sum.splits prod.splits
      intro: run_runtime_delegates [OF assms(2)])

lemma synthesize_runs:
  assumes "synthesize_children O1 cfg m tid sub w kids k mt r = (x, mt', r')"
  shows "runs_at_most 0 r r'"
proof -
  have *: "runs_at_most 0 r s" if "source_generate (gateway_send O1 cfg) m req fresh_source r = (y, src, s)" for req y src s
    by (rule runs_of_calls, rule calls_source_generate [OF calls_gateway_send that]) simp
  show ?thesis using assms
    by (auto simp: synthesize_children_def Let_def split: sum.splits prod.splits dest: *)
qed

lemma agentic_runs:
  "agentic_tree O1 cfg sub tid pc depth max_out mt r = (x, mt', r')
     \<Longrightarrow> (\<And>sub tid rc t rt. o_local_runtime O1 sub tid rc t = Inr rt \<Longrightarrow> delegates_at_most F rt)
     \<Longrightarrow> runs_at_most (tree_size F (o_max_delegation_depth O1 - depth)) r r'"
  "agentic_children O1 cfg sub tid pc depth max_out i sts mt r = (xs, mt', r')
     \<Longrightarrow> (\<And>sub tid rc t rt. o_local_runtime O1 sub tid rc t = Inr rt \<Longrightarrow> delegates_at_most F rt)
     \<Longrightarrow> runs_at_most (length sts * tree_size F (o_max_delegation_depth O1 - Suc depth)) r r'"
proof (induction O1 cfg sub tid pc depth max_out mt r and O1 cfg sub tid pc depth max_out i sts mt r
    arbitrary: x mt' r' and xs mt' r' rule: agentic_tree_agentic_children.induct)
  case (1 O1 cfg sub tid pc depth max_out mt r)
  let ?D = "o_max_delegation_depth O1"
  obtain y mt1 r1 where w: "run_worker O1 cfg sub tid pc depth max_out mt r = (y, mt1, r1)" by (metis prod_cases3)
  have c1: "runs_at_most 1 r r1" by (rule run_worker_runs [OF w])
  show ?case
  proof (cases "\<exists>v. y = Inr v \<and> o_enable_delegation O1 \<and> depth < ?D
      \<and> wr_status v = ''completed'' \<and> wr_subtasks v \<noteq> []")
    case False
    then have "r' = r1" using 1(2) w by (auto simp: agentic_tree.simps split: sum.splits if_splits)
    moreover have "1 \<le> tree_size F (?D - depth)" by (cases "?D - depth") auto
    ultimately show ?thesis using c1 runs_mono by blast
  next
    case True
    then obtain v where v: "y = Inr v" "o_enable_delegation O1" "depth < ?D"
      "wr_status v = ''completed''" "wr_subtasks v \<noteq> []" by blast
    obtain ks mt2 r2 where k: "agentic_children O1 cfg sub tid pc depth max_out 0 (wr_subtasks v) mt1 r1 = (ks, mt2, r2)"
      by (metis prod_cases3)
    have c2: "runs_at_most (length (wr_subtasks v) * tree_size F (?D - Suc depth)) r1 r2"
      using 1(1) [OF w [symmetric] v(1) refl _ k 1(3)] v by simp
    have c3: "runs_at_most 0 r2 r'"
      using 1(2) w k v by (cases ks) (auto simp: agentic_tree.simps runs_refl intro: synthesize_runs)
    have "length (wr_subtasks v) \<le> F" using run_worker_delegates [OF w [unfolded v(1)] 1(3)] .
    then have "1 + (length (wr_subtasks v) * tree_size F (?D - Suc depth) + 0) \<le> tree_size F (?D - depth)"
      using v(3) by (simp add: Suc_diff_Suc [symmetric])
    then show ?thesis using runs_mono [OF runs_trans [OF c1 runs_trans [OF c2 c3]]] by blast
  qed
next
  case (2 O1 cfg sub tid pc depth max_out i mt r)
  then show ?case by (simp add: runs_refl)
next
  case (3 O1 cfg sub tid pc depth max_out i st sts mt r)
  let ?T = "tree_size F (o_max_delegation_depth O1 - Suc depth)"
  define cpc where "cpc = child_privacy_class (privacy (rs_engine r)) pc (st_privacy_class st)"
  define cid where "cid = tid @ ''/d'' @ show_int (int depth + 1) @ ''.'' @ show_int (int i + 1)"
  obtain y mt1 r1 where y: "(if cpc = Some secret_sensitive then (Inr refused_child, mt, r)
      else agentic_tree O1 cfg (child_submission sub st cpc) cid cpc (Suc depth) max_out mt r) = (y, mt1, r1)"
    by (metis prod_cases3)
  note eq = 3(3) [unfolded agentic_children.simps Let_def, folded cpc_def cid_def, unfolded y]
  have c1: "runs_at_most ?T r r1"
  proof (cases "cpc = Some secret_sensitive")
    case False
    then show ?thesis using 3(1) [OF cpc_def cid_def False _ 3(4)] y by simp
  qed (use y in \<open>simp add: runs_refl\<close>)
  show ?case
  proof (cases y)
    case (Inl e)
    then show ?thesis using eq c1 by (auto intro: runs_mono)
  next
    case (Inr w)
    obtain z r2 where z: "note_child O1 tid depth i cid cpc w r1 = (z, r2)" by fastforce
    have c2: "runs_at_most ?T r r2"
      using runs_trans [OF c1 runs_of_silent [OF within_effD [OF quiet_note_child z]]] by simp
    show ?thesis
    proof (cases z)
      case (Inl e)
      then show ?thesis using eq z Inr c2 by (auto intro: runs_mono)
    next
      case z2: (Inr u)
      obtain ks mt3 r3 where k: "agentic_children O1 cfg sub tid pc depth max_out (Suc i) sts
          (mt1\<lparr>mt_children := mt_children mt1 + 1\<rparr>) r2 = (ks, mt3, r3)" by (metis prod_cases3)
      have "r' = r3" using eq z Inr z2 k by (auto split: sum.splits)
      then show ?thesis
        using runs_trans [OF c2 3(2) [OF cpc_def cid_def y [symmetric] Inr refl refl z [symmetric] z2 k 3(4)]] by simp
    qed
  qed
qed

text \<open>C10. Delegation ends and is bounded. When no worker delegates more than \<open>F\<close> sub-tasks, the whole tree that a
  task at depth \<open>d\<close> unfolds, whatever its workers and the providers answer, starts at most \<open>1 + F + ... + F ^ (D - d)\<close>
  worker runs, where \<open>D\<close> is the depth limit; in particular a worker at the limit runs alone. (Being a total
  function, the recursion itself ends for every runtime.)\<close>

theorem delegation_terminates:
  assumes "\<And>sub tid rc t rt. o_local_runtime O1 sub tid rc t = Inr rt \<Longrightarrow> delegates_at_most F rt"
  shows "length (filter is_agent_run (rs_trace (snd (snd (agentic_tree O1 cfg sub tid pc depth max_out mt r)))))
    \<le> length (filter is_agent_run (rs_trace r)) + (\<Sum>i\<le>o_max_delegation_depth O1 - depth. F ^ i)"
proof -
  obtain x mt' r' where t: "agentic_tree O1 cfg sub tid pc depth max_out mt r = (x, mt', r')" by (metis prod_cases3)
  have "runs_at_most (tree_size F (o_max_delegation_depth O1 - depth)) r r'"
    by (rule agentic_runs(1) [OF t assms])
  then show ?thesis by (auto simp: t runs_at_most_def tree_size_sum)
qed

end
