(* ===== verification/Router_Demo.thy ===== *)
theory Router_Demo
  imports Delegation
begin

text \<open>
  A small deployment that the witnesses evaluate: one free cloud provider and one owned local node,
  the offline gateway, no detectors, and an authorizer that answers as told.
\<close>

definition demo_quota :: quota_rules where
  "demo_quota = \<lparr>q_kind = Some ''free_tier'', q_reset = None, q_num = [''max_requests'' \<mapsto> 5]\<rparr>"

definition demo_cloud :: provider_config where
  "demo_cloud = \<lparr>provider_id = ''cloud'', p_type = ''cloud'', endpoint = [], p_privacy = ''external'',
     capabilities = [''coding''], secret_ref = None, p_quota = demo_quota, manager_endpoint = None,
     node_id = None, node_class = None, rental = None, litellm_model = None\<rparr>"

definition demo_paid :: provider_config where
  "demo_paid = demo_cloud\<lparr>provider_id := ''paid'', p_privacy := ''external_paid''\<rparr>"

definition demo_local :: provider_config where
  "demo_local = demo_cloud\<lparr>provider_id := ''gpu0'', p_type := ''local'', p_privacy := ''local_only'',
     manager_endpoint := Some ''node''\<rparr>"

definition demo_router :: "provider_config \<Rightarrow> router" where
  "demo_router cfg =
    \<lparr>rs_quota = \<lparr>memory = empty_db 90000 (\<lambda>n. replicate n CHR ''u''), reservations = []\<rparr>,
     rs_engine = \<lparr>registry = \<lparr>reg_config = \<lparr>policy_version = ''1'', providers = [(provider_id cfg, cfg)]\<rparr>,
         reg_health = Map.empty\<rparr>,
       profiles = \<lparr>default_resident_model = ''m'', pc_profiles = Map.empty, agent_defaults = Map.empty\<rparr>,
       privacy = default_routing,
       switching = \<lparr>prefer_resident_model = None, urgent_switch_allowed = None,
         avoid_switch_if_current_queue_nonempty = None, min_batch_size_for_switch = None\<rparr>,
       weights = Map.empty, scarcity_threshold = 2 / 10, learned = Map.empty,
       budget = \<lparr>b_configured = True, b_remaining_usd = 10, b_pressure = 0, b_require_explicit = True\<rparr>,
       set_first = hd\<rparr>,
     rs_pool = empty_pool, rs_trace = []\<rparr>"

definition demo_worker :: "sub_task list \<Rightarrow> worker_result" where
  "demo_worker sts =
    \<lparr>wr_status = ''completed'', wr_summary = ''ok'', wr_confidence = 1, wr_changed_artifacts = [],
     wr_evidence_refs = [], wr_risks = [], wr_recommended_next_action = None, wr_usage = None, wr_subtasks = sts\<rparr>"

definition demo_subtask :: sub_task where
  "demo_subtask = \<lparr>st_task = ''part'', st_agent_type = None, st_privacy_class = None\<rparr>"

text \<open>The agent asks its model once and then finishes; where it may, it delegates one sub-task.\<close>

definition demo_request :: generate_request where
  "demo_request = \<lparr>gr_request_id = ''r'', gr_task_id = ''t'', gr_model_id = [], gr_messages = [(''user'', ''go'')],
     gr_max_output_tokens = 10, gr_temperature = 0, gr_priority = PNormal\<rparr>"

definition demo_runtime :: "runtime_config \<Rightarrow> runtime" where
  "demo_runtime rc = Ask demo_request (\<lambda>x. case x of Inl e \<Rightarrow> Crash e
     | Inr y \<Rightarrow> Finish (demo_worker (if rt_allow_delegation rc then [demo_subtask] else [])))"

definition demo_node :: local_client where
  "demo_node req = Inr \<lparr>gp_request_id = gr_request_id req, gp_model_id = gr_model_id req, gp_output_text = ''done'',
     gp_input_tokens = 1, gp_output_tokens = 1, gp_finish_reason = ''stop''\<rparr>"

definition demo_outside :: "(task_state \<Rightarrow> nat \<Rightarrow> db \<Rightarrow> db) \<Rightarrow> bool \<Rightarrow> outside" where
  "demo_outside peers yes =
    \<lparr>o_peers = peers, o_threads = no_threads, o_pool_threads = no_pool_peers, o_world = alone,
     o_detectors = [], o_sensitive_path = (\<lambda>_. False),
     o_guard = \<lparr>gd_available = False, gd_env = (\<lambda>_. []), gd_strip_lower = id, gd_task = (\<lambda>_ _. undefined),
       gd_artifact = (\<lambda>_ _. undefined), gd_spotlight = (\<lambda>t _. t)\<rparr>,
     o_gateway = (\<lambda>_. \<lparr>gc_local = None, gc_http = (\<lambda>_. demo_node), gc_resolve = (\<lambda>_. Inr None),
       gc_completion = None\<rparr>),
     o_local_client = Some (\<lambda>_. Inr \<lparr>ms_loaded = Some ''m'',
       ms_available = [\<lparr>am_model_id = ''m'', am_max_model_len = 10000\<rparr>], ms_local_waiting = 0,
       ms_oldest_wait_seconds = 0\<rparr>),
     o_provisioner = stub_provisioner (\<lambda>_. ''001'') (\<lambda>p. p) 90000, o_pooled = True,
     o_rented_factory = None, o_http_client = (\<lambda>_ _. demo_node), o_wq = None, o_evaluator = None,
     o_budget = None,
     o_authorizer = Some \<lparr>au_request_budget = (\<lambda>_ _. Inr None), au_confirm_charge = (\<lambda>_ _. Inr yes)\<rparr>,
     o_remote_workers = [], o_remote_factory = None, o_local_runtime = (\<lambda>_ _ rc _. Inr (demo_runtime rc)),
     o_enable_delegation = True, o_max_delegation_depth = 1, o_max_subtasks = 8,
     o_default_max_output_tokens = None, o_default_max_chars = None, o_hard_max_chars = None,
     o_latency_ms = (\<lambda>_. 1), o_dump_submission = (\<lambda>_. []), o_dump_decision = (\<lambda>_. []),
     o_dump_worker = (\<lambda>_. []), o_str_exc = (\<lambda>_. []), o_str_float = (\<lambda>_ _. [])\<rparr>"

definition demo_task :: "string \<Rightarrow> privacy_class option \<Rightarrow> task_submission" where
  "demo_task how pc = \<lparr>ts_task = ''hi'', ts_agent_type = None,
     ts_constraints = default_constraints\<lparr>tc_privacy_class := pc, tc_execution := how, tc_allow_paid := True\<rparr>,
     ts_refs = []\<rparr>"

abbreviation peerless :: outside where "peerless \<equiv> demo_outside (\<lambda>_. no_peers) True"

lemma demo_runtime_delegates: "delegates_at_most 1 (demo_runtime rc)"
  by (simp add: demo_runtime_def demo_worker_def split: sum.split)

theorem delegation_terminates_witness:
  "length (filter is_agent_run (rs_trace (snd (snd (agentic_tree peerless demo_local (demo_task ''agentic'' None)
      ''t'' (Some public) 0 100 no_usage (demo_router demo_local)))))) \<le> 2"
proof -
  have "length (filter is_agent_run (rs_trace (snd (snd (agentic_tree peerless demo_local (demo_task ''agentic'' None)
      ''t'' (Some public) 0 100 no_usage (demo_router demo_local))))))
    \<le> length (filter is_agent_run (rs_trace (demo_router demo_local))) + (\<Sum>i\<le>o_max_delegation_depth peerless - 0. 1 ^ i)"
    by (rule delegation_terminates) (use demo_runtime_delegates in \<open>auto simp: demo_outside_def\<close>)
  then show ?thesis by (simp add: demo_router_def demo_outside_def)
qed

end
