(* ===== verification/Router_Settlement.thy ===== *)
theory Router_Settlement
  imports Router_Demo
begin

text \<open>
  What a submission leaves behind in the store and in the ledger: the schema stays intact, the summary
  that is returned carries the stored state, the state is a settled one, and no quota reservation
  is left open. Other processes may write the store around every state write; other threads are
  assumed not to touch the ledger inside a call (\<open>no_threads\<close>).
\<close>

section \<open>The ledger under routing\<close>

definition shrinks :: "ledger \<Rightarrow> ledger \<Rightarrow> bool" where
  "shrinks L L' \<longleftrightarrow> memory L' = memory L \<and> set (reservations L') \<subseteq> set (reservations L)"

lemma shrinks_refl [simp]: "shrinks L L" by (simp add: shrinks_def)

lemma shrinks_trans: "shrinks L M \<Longrightarrow> shrinks M N \<Longrightarrow> shrinks L N" by (auto simp: shrinks_def)

lemma shrinks_expire: "shrinks L (expire t L)" by (auto simp: shrinks_def expire_def)

lemma shrinks_remaining: "remaining no_threads cfg t L = (h, L') \<Longrightarrow> shrinks L L'"
  by (auto simp: remaining_def Let_def no_threads_def shrinks_expire split: if_splits prod.splits)

lemma shrinks_can_reserve: "can_reserve no_threads cfg i k L = (b, L') \<Longrightarrow> shrinks L L'"
  by (auto simp: can_reserve_def Let_def dest: shrinks_remaining split: headroom.splits prod.splits if_splits)

lemma shrinks_eligibility: "eligibility no_threads e ctx st cfg L = (b, L') \<Longrightarrow> shrinks L L'"
  by (auto simp: eligibility_def cloud_eligible_def Let_def dest: shrinks_can_reserve
      split: if_splits prod.splits option.splits)

lemma shrinks_score: "score no_threads e ctx st cfg L = (b, L') \<Longrightarrow> shrinks L L'"
  by (auto simp: score_def Let_def dest: shrinks_remaining split: if_splits prod.splits option.splits bool.splits)

lemma shrinks_survey: "survey no_threads e ctx st cfgs L = (a, b, L') \<Longrightarrow> shrinks L L'"
proof (induction cfgs arbitrary: L a b)
  case (Cons cfg cfgs)
  obtain ok why L1 where e: "eligibility no_threads e ctx st cfg L = ((ok, why), L1)" by (metis surj_pair)
  note s1 = shrinks_eligibility [OF e]
  show ?case
  proof (cases ok)
    case False
    then show ?thesis using Cons e by (auto split: prod.splits intro: shrinks_trans [OF s1])
  next
    case True
    obtain sb L2 where s: "score no_threads e ctx st cfg L1 = (sb, L2)" by fastforce
    show ?thesis using Cons True e s shrinks_trans [OF s1 shrinks_score [OF s]]
      by (auto split: prod.splits intro: shrinks_trans)
  qed
qed simp

lemma shrinks_route: "route no_threads e ctx st L = (d, L') \<Longrightarrow> shrinks L L'"
  by (auto simp: route_def Let_def dest: shrinks_survey split: prod.splits list.splits option.splits)

section \<open>State writes\<close>

lemma schema_cong:
  "tasks s' = tasks s \<Longrightarrow> artifacts s' = artifacts s \<Longrightarrow> work_queue s' = work_queue s
    \<Longrightarrow> work_queue_deps s' = work_queue_deps s \<Longrightarrow> schema_ok s' = schema_ok s"
  by (simp add: schema_ok_def)

lemma schema_log [simp]: "schema_ok (insert_transition_log tid r s) = schema_ok s"
  by (rule schema_cong) (simp_all add: insert_transition_log_def)

lemma schema_bus [simp]: "schema_ok (emit_bus_event a b c d e f g h s) = schema_ok s"
  by (rule schema_cong) (simp_all add: emit_bus_event_def draw_def)

lemma schema_upd_tasks:
  "(\<And>r. t_id (f r) = t_id r) \<Longrightarrow> schema_ok s \<Longrightarrow> schema_ok (s\<lparr>tasks := upd_where P f (tasks s)\<rparr>)"
  by (simp add: schema_ok_def map_key_upd_where)

lemma transition_task_schema:
  "schema_ok s \<Longrightarrow> schema_ok (snd (transition_task_loop n env tid d seen s))"
proof (induction n arbitrary: s seen)
  case (Suc n)
  note ok = peer_commit_ok [OF Suc.prems, of env n]
  show ?case using Suc.IH [OF ok] schema_upd_tasks [OF _ ok] Suc.prems
    by (cases "d (task_state_of s tid)") (auto simp: Let_def split: option.split)
qed simp

lemma transition_task_reads:
  "schema_ok s \<Longrightarrow> transition_task_loop n env tid d seen s = (Inr (a, st, seen'), s') \<Longrightarrow> st = task_state_of s' tid"
proof (induction n arbitrary: s seen)
  case (Suc n)
  let ?cur = "task_state_of s tid" and ?x = "peer_commit env n s"
  note ok = peer_commit_ok [OF Suc.prems(1), of env n]
  show ?case
  proof (cases "d ?cur")
    case (Proceed dst ex rc)
    show ?thesis
    proof (cases "rowcount (\<lambda>r. t_id r = tid \<and> Some (t_state r) = ?cur) (tasks ?x) = 1")
      case False
      with Proceed Suc.prems(2) have "\<exists>sn. transition_task_loop n env tid d sn ?x = (Inr (a, st, seen'), s')"
        by (auto simp: Let_def)
      then show ?thesis using Suc.IH [OF ok] by blast
    next
      case True
      have "a" "st = Some dst" using Suc.prems(2) Proceed True by (auto simp: Let_def split: option.splits)
      then show ?thesis
        using transition_task_loop_applied [OF Suc.prems(1), of "Suc n" env tid d seen st seen' s'] Suc.prems(2) by auto
    qed
  next
    case (Hold rc)
    then have "st = ?cur" "tasks s' = tasks s"
      using Suc.prems(2) by (auto simp: Let_def split: option.splits)
    then show ?thesis using task_state_of_cong [of s' s] by simp
  qed (use Suc.prems in \<open>simp add: Let_def\<close>)
qed simp

lemma transition_to_writes:
  assumes "schema_ok (mem r)" and "transition_to O1 tid dst r = (x, r')"
  shows "schema_ok (mem r')" and "rs_quota r' = (rs_quota r)\<lparr>memory := mem r'\<rparr>"
    and "x = Inr s \<Longrightarrow> task_state_of (mem r') tid = Some dst"
proof -
  let ?m = "peer_commit (o_peers O1 dst) 3 (mem r)"
  let ?t = "transition TASK_STATE_VOCAB (transition_task (o_peers O1 dst)) tid dst ''router'' (Some tid) [] ?m"
  have ok: "schema_ok ?m" by (rule peer_commit_ok [OF assms(1)])
  obtain y m' where t: "?t = (y, m')" by fastforce
  have m: "mem r' = m'" and q: "rs_quota r' = (rs_quota r)\<lparr>memory := m'\<rparr>"
    using assms(2) t by (auto simp: transition_to_def put_mem_def split: sum.splits)
  have "m' = snd (transition_task (o_peers O1 dst) tid
      (transition_decide TASK_STATE_VOCAB tid dst ''router'' (Some tid) []) ?m)"
    using t tasks_writer.snd_verb(1) by (metis snd_conv)
  then show "schema_ok (mem r')" unfolding m by (simp add: transition_task_def transition_task_schema [OF ok])
  show "rs_quota r' = (rs_quota r)\<lparr>memory := mem r'\<rparr>" using q m by simp
  show "task_state_of (mem r') tid = Some dst" if x: "x = Inr s"
  proof -
    obtain s' where y: "y = Inr s'" using x assms(2) t by (auto simp: transition_to_def split: sum.splits)
    have "s' = dst" using tasks_writer.transition_returns [OF ok t [unfolded y]] .
    moreover have "task_state_of m' tid = Some s'"
      using t [unfolded y] transition_task_reads [OF ok]
      by (auto simp: transition_def transition_task_def split: sum.splits prod.splits option.splits if_splits)
    ultimately show ?thesis unfolding m by simp
  qed
qed

section \<open>Two effects\<close>

text \<open>\<open>orderly\<close>: no reservation is added and the schema is kept. \<open>calm\<close>: moreover the state of the task is
  not written.\<close>

definition orderly :: "router \<Rightarrow> router \<Rightarrow> bool" where
  "orderly a b \<longleftrightarrow> set (reservations (rs_quota b)) \<subseteq> set (reservations (rs_quota a))
     \<and> (schema_ok (mem a) \<longrightarrow> schema_ok (mem b))"

definition calm :: "string \<Rightarrow> router \<Rightarrow> router \<Rightarrow> bool" where
  "calm tid a b \<longleftrightarrow> orderly a b
     \<and> (schema_ok (mem a) \<longrightarrow> task_state_of (mem b) tid = task_state_of (mem a) tid)"

interpretation order: effect orderly
  by unfold_locales (auto simp: orderly_def)

interpretation calmness: effect "calm tid" for tid
  by unfold_locales (auto simp: calm_def orderly_def)

lemma calm_orderly: "within_eff (calm tid) m \<Longrightarrow> within_eff orderly m"
  by (erule within_eff_mono) (simp add: calm_def)

text \<open>Store operations that keep the schema and the states of all tasks.\<close>

definition tame :: "(db \<Rightarrow> 'x \<times> db) \<Rightarrow> bool" where
  "tame f \<longleftrightarrow> (\<forall>m. schema_ok m \<longrightarrow> schema_ok (snd (f m)) \<and> task_state_of (snd (f m)) = task_state_of m)"

lemma calm_on_db: "tame f \<Longrightarrow> within_eff (calm tid) (on_db f)"
  by (rule within_effI)
    (auto simp: on_db_def of_store_def calm_def orderly_def tame_def put_mem_def split: prod.split sum.split)

lemma calm_mod_db: "tame (\<lambda>m. ((), f m)) \<Longrightarrow> within_eff (calm tid) (mod_db f)"
  by (rule within_effI) (auto simp: mod_db_def modify_def calm_def orderly_def tame_def put_mem_def)

lemma tameI:
  "(\<And>m. tasks (snd (f m)) = tasks m \<and> artifacts (snd (f m)) = artifacts m
      \<and> work_queue (snd (f m)) = work_queue m \<and> work_queue_deps (snd (f m)) = work_queue_deps m) \<Longrightarrow> tame f"
  unfolding tame_def by (metis schema_cong task_state_of_cong)

lemma tame_update_task: "tame (update_task tid flds)"
proof -
  have "task_state_of (m\<lparr>tasks := upd_where P (set_cols f) (tasks m)\<rparr>) = task_state_of m" for m P f
    by (rule ext) (simp add: task_state_of_def row_of_upd_where option.map_comp comp_def if_distrib cong: if_cong)
  then show ?thesis
    by (auto simp: tame_def update_task_def Let_def intro: schema_upd_tasks)
qed

lemma tame_put_artifact: "tame (put_artifact t k c mi)"
proof -
  have "schema_ok (m\<lparr>uuid_ctr := n, artifacts := artifacts m @ [x]\<rparr>)"
    if "schema_ok m" "a_id x \<notin> a_id ` set (artifacts m)" for m n x
    using that by (simp add: schema_ok_def)
  moreover have "schema_ok (m\<lparr>uuid_ctr := n\<rparr>) = schema_ok m" for m n by (rule schema_cong) simp_all
  moreover have "task_state_of (m\<lparr>uuid_ctr := n, artifacts := a\<rparr>) = task_state_of m"
    "task_state_of (m\<lparr>uuid_ctr := n\<rparr>) = task_state_of m" for m n a by (rule task_state_of_cong, simp)+
  ultimately show ?thesis
    by (auto simp: tame_def put_artifact_def new_id_def draw_def)
qed

lemma tame_simple:
  "tame (record_evaluation e)" "tame (\<lambda>m. ((), append_log t s l m))"
  "tame (\<lambda>m. ((), record_routing_decision t d m))" "tame (\<lambda>m. case draw m of (h, m') \<Rightarrow> (Inr h :: exc + string, m'))"
  by (rule tameI, simp add: record_evaluation_def append_log_def record_routing_decision_def draw_def
      split: option.split)+

section \<open>Operations that do not write the state\<close>

named_theorems calmly \<open>operations that leave the state of tasks and the schema alone\<close>

declare calmness.eff_ret [calmly] calmness.eff_raise [calmly] calmness.eff_asks [calmly]
  calmness.eff_of_result [calmly] calmness.eff_of_store [calmly]

lemma calm_same: "rs_quota b = rs_quota a \<Longrightarrow> calm tid a b"
  by (simp add: calm_def orderly_def)

lemma calm_modify: "(\<And>r. calm tid r (f r)) \<Longrightarrow> within_eff (calm tid) (modify f)"
  by (rule within_effI) (simp add: modify_def)

lemma calm_append_line [calmly]: "within_eff (calm tid) (append_line t msg l)"
  unfolding append_line_def by (rule calm_mod_db) (rule tame_simple)

lemma calm_set_task [calmly]: "within_eff (calm tid) (set_task t flds)"
  unfolding set_task_def by (rule calm_on_db) (rule tame_update_task)

lemma calm_note_outcome [calmly]: "within_eff (calm tid) (note_outcome t a b)"
  unfolding note_outcome_def by (rule calm_set_task)

lemma calm_put_artifact [calmly]: "within_eff (calm tid) (on_db (put_artifact t k c mi))"
  by (rule calm_on_db) (rule tame_put_artifact)

lemma calm_draw [calmly]: "within_eff (calm tid) (on_db (\<lambda>m. case draw m of (h, m') \<Rightarrow> (Inr h, m')))"
  by (rule calm_on_db) (rule tame_simple)

lemma calm_decision [calmly]: "within_eff (calm tid) (mod_db (record_routing_decision t d))"
  by (rule calm_mod_db) (rule tame_simple)

lemma calm_summary_of [calmly]: "within_eff (calm tid) (summary_of t)"
  by (rule within_effI) (simp add: summary_of_def calm_same split: option.split)

lemma calm_record_eval [calmly]: "within_eff (calm tid) (record_eval p m t a s l i k c f)"
  unfolding record_eval_def by (rule calm_on_db) (rule tame_simple)

lemma calm_latency [calmly]: "within_eff (calm tid) (latency O1)"
  unfolding latency_def by (rule calmness.eff_asks)

lemma calm_local_status [calmly]: "within_eff (calm tid) (local_status O1)"
  by (rule within_effI) (simp add: local_status_def calm_same split: option.split sum.split)

lemma calm_note_call [calmly]: "within_eff (calm tid) (note_call c)"
  unfolding note_call_def by (rule calm_modify) (simp add: calm_same)

lemma quota_records_frame [simp]:
  "schema_ok (m\<lparr>quota_records := q\<rparr>) = schema_ok m" "task_state_of (m\<lparr>quota_records := q\<rparr>) = task_state_of m"
  by (rule schema_cong task_state_of_cong, simp_all)+

lemma calm_rental:
  "calm tid a (a\<lparr>rs_quota := snd (record_rental_window cfg t secs st (rs_quota a))\<rparr>)"
  by (simp add: calm_def orderly_def record_rental_window_def Let_def record_quota_usage_def)

lemma calm_true_up [calmly]: "within_eff (calm tid) (true_up pid t)"
  unfolding true_up_def
  by (rule calm_modify) (auto simp: true_up_rental_cost_def Let_def calm_same calm_rental split: option.split)

lemma calm_true_up_all [calmly]: "within_eff (calm tid) (true_up_all xs)"
  by (induction xs rule: true_up_all.induct) (auto intro!: calmness.eff_seq calmly)

lemma calm_at: "within_eff (calm tid) m \<Longrightarrow> rs_quota r1 = rs_quota r \<Longrightarrow> calm tid r (snd (m r1))"
  using calmness.eff_trans calm_same unfolding within_eff_def by blast

lemma calm_reap_idle_nodes [calmly]: "within_eff (calm tid) (reap_idle_nodes O1)"
proof (rule within_effI)
  fix r :: router
  obtain err reaped p where
    *: "reap_idle (o_pool_threads O1) (o_provisioner O1) (cfgs_of r) (clock (mem r)) (rs_pool r) = (err, reaped, p)"
    by (metis prod_cases3)
  have "within_eff (calm tid) (seq (true_up_all reaped)
      (case err of None \<Rightarrow> ret (map fst reaped) | Some e \<Rightarrow> raise_exc (Outside e)))"
    by (intro calmness.eff_seq calmly) (simp add: calmly split: option.split)
  from calm_at [OF this] show "calm tid r (snd (reap_idle_nodes O1 r))"
    using * by (simp add: reap_idle_nodes_def calm_same)
qed

lemma calm_enter_pool [calmly]: "within_eff (calm tid) (enter_pool O1)"
  unfolding enter_pool_def by (rule calm_modify) (simp add: calm_same)

lemma calm_acquire_node [calmly]: "within_eff (calm tid) (acquire_node O1 cfg spec)"
  by (rule within_effI) (simp add: acquire_node_def of_result_def calm_same split: prod.split sum.split)

lemma calm_release_node [calmly]: "within_eff (calm tid) (release_node cfg)"
  unfolding release_node_def by (rule calm_modify) (simp add: calm_same)

lemma calm_evict [calmly]: "within_eff (calm tid) (evict_rented_node O1 cfg t)"
proof (rule within_effI)
  fix r :: router
  obtain x p where *: "evict (o_provisioner O1) (provider_id cfg) (rs_pool r) = (x, p)" by fastforce
  show "calm tid r (snd (evict_rented_node O1 cfg t r))"
  proof (cases x)
    case (Some y)
    obtain h at_time where y: "y = (h, at_time)" by fastforce
    have "within_eff (calm tid) (seq (true_up (provider_id cfg) at_time) (if t \<noteq> [] then append_line t m ''warn'' else ret ()))" for m
      by (simp add: calmness.eff_seq calmly)
    then show ?thesis using * Some y
      by (simp only: evict_rented_node_def prod.case option.case) (rule calm_at, simp_all)
  qed (use * in \<open>simp add: evict_rented_node_def calm_same\<close>)
qed

lemma calm_bill_window [calmly]: "within_eff (calm tid) (bill_window cfg t b)"
  unfolding bill_window_def by (auto intro!: calmly calm_modify calm_rental)

lemma calm_rented_client [calmly]: "within_eff (calm tid) (rented_client O1 cfg h)"
  unfolding rented_client_def by (rule calmness.eff_of_result)

lemma calm_rented_generate [calmly]: "within_eff (calm tid) (rented_generate cfg h client req)"
  unfolding rented_generate_def by (intro calmness.eff_bnd calmness.eff_seq calmly)

lemma calm_gateway_generate [calmly]: "within_eff (calm tid) (gateway_generate O1 cfg req)"
  unfolding gateway_generate_def by (intro calmness.eff_bnd calmness.eff_seq calmly)

lemma calm_dispatch [calmly]: "within_eff (calm tid) (dispatch O1 cfg req)"
  unfolding dispatch_def
  by (auto intro!: calmness.eff_bnd calmness.eff_seq calmness.eff_finally calmness.eff_catch calmly)

lemma calm_gateway_send [calmly]: "within_eff (calm tid) (gateway_send O1 cfg req)"
  unfolding gateway_send_def by (intro calmness.eff_bnd calmly)

lemma calm_rented_send [calmly]: "within_eff (calm tid) (rented_send cfg h client req)"
  unfolding rented_send_def by (intro calmness.eff_bnd calmly)

lemma calm_source_generate:
  assumes "\<And>req. within_eff (calm tid) (send req)" "source_generate send m req src r = (x, src', r')"
  shows "calm tid r r'"
proof -
  obtain y r1 where y: "send (req\<lparr>gr_model_id := m\<rparr>) r = (y, r1)" by fastforce
  then have "calm tid r r1" by (rule within_effD [OF assms(1)])
  moreover have "r' = r1" using assms(2) y by (auto simp: source_generate_def split: sum.splits prod.splits)
  ultimately show ?thesis by simp
qed

lemma calm_run_runtime:
  assumes send: "\<And>req. within_eff (calm tid) (send req)"
  shows "run_runtime rt send model src r = (x, src', r') \<Longrightarrow> calm tid r r'"
proof (induction rt arbitrary: src r)
  case (Ask req k)
  obtain y src1 r1 where y: "source_generate send model req src r = (y, src1, r1)" by (metis prod_cases3)
  have "calm tid r r1" by (rule calm_source_generate [OF send y])
  moreover have "calm tid r1 r'" using Ask.prems y by (cases y) (auto intro: Ask.IH [OF rangeI])
  ultimately show ?case by (rule calmness.eff_trans)
qed (auto simp: calmness.eff_refl)

lemma calm_note_child [calmly]: "within_eff (calm tid) (note_child O1 t d i c pc w)"
  unfolding note_child_def by (intro calmness.eff_seq calmly)

lemma calm_run_worker: "run_worker O1 cfg sub t pc depth max_out mt r = (x, mt', r') \<Longrightarrow> calm tid r r'"
proof -
  have "calm tid r s" if "run_runtime rt (gateway_send O1 cfg) m src
      (r\<lparr>rs_trace := rs_trace r @ [AgentRun cfg depth pc sub]\<rparr>) = (y, src', s)" for rt m src y src' s
    using calmness.eff_trans [OF calm_same calm_run_runtime [OF calm_gateway_send that]] by simp
  then show "run_worker O1 cfg sub t pc depth max_out mt r = (x, mt', r') \<Longrightarrow> calm tid r r'"
    by (auto simp: run_worker_def Let_def calmness.eff_refl split: sum.splits prod.splits)
qed

lemma calm_synthesize:
  assumes "synthesize_children O1 cfg m t sub w kids k mt r = (x, mt', r')"
  shows "calm tid r r'"
proof -
  have *: "calm tid r s" if "source_generate (gateway_send O1 cfg) m req fresh_source r = (y, src, s)" for req y src s
    by (rule calm_source_generate [OF calm_gateway_send that])
  show ?thesis using assms
    by (auto simp: synthesize_children_def Let_def split: sum.splits prod.splits dest: *)
qed

lemma calm_agentic:
  "agentic_tree O1 cfg sub t pc depth max_out mt r = (x, mt', r') \<Longrightarrow> calm tid r r'"
  "agentic_children O1 cfg sub t pc depth max_out i sts mt r = (xs, mt', r') \<Longrightarrow> calm tid r r'"
proof (induction O1 cfg sub t pc depth max_out mt r and O1 cfg sub t pc depth max_out i sts mt r
    arbitrary: x mt' r' and xs mt' r' rule: agentic_tree_agentic_children.induct)
  case (1 O1 cfg sub t pc depth max_out mt r)
  obtain y mt1 r1 where w: "run_worker O1 cfg sub t pc depth max_out mt r = (y, mt1, r1)" by (metis prod_cases3)
  have c1: "calm tid r r1" by (rule calm_run_worker [OF w])
  show ?case
  proof (cases "\<exists>v. y = Inr v \<and> o_enable_delegation O1 \<and> depth < o_max_delegation_depth O1
      \<and> wr_status v = ''completed'' \<and> wr_subtasks v \<noteq> []")
    case False
    then have "r' = r1" using 1(2) w by (auto simp: agentic_tree.simps split: sum.splits if_splits)
    with c1 show ?thesis by simp
  next
    case True
    then obtain v where v: "y = Inr v" "o_enable_delegation O1" "depth < o_max_delegation_depth O1"
      "wr_status v = ''completed''" "wr_subtasks v \<noteq> []" by blast
    obtain ks mt2 r2 where k: "agentic_children O1 cfg sub t pc depth max_out 0 (wr_subtasks v) mt1 r1 = (ks, mt2, r2)"
      by (metis prod_cases3)
    have c2: "calm tid r1 r2" using 1(1) [OF w [symmetric] v(1) refl _ k] v by simp
    have c3: "calm tid r2 r'"
      using 1(2) w k v by (cases ks) (auto simp: agentic_tree.simps calmness.eff_refl intro: calm_synthesize)
    show ?thesis using c1 c2 c3 calmness.eff_trans by blast
  qed
next
  case (2 O1 cfg sub t pc depth max_out i mt r)
  then show ?case by (simp add: calmness.eff_refl)
next
  case (3 O1 cfg sub t pc depth max_out i st sts mt r)
  define cpc where "cpc = child_privacy_class (privacy (rs_engine r)) pc (st_privacy_class st)"
  define cid where "cid = t @ ''/d'' @ show_int (int depth + 1) @ ''.'' @ show_int (int i + 1)"
  obtain y mt1 r1 where y: "(if cpc = Some secret_sensitive then (Inr refused_child, mt, r)
      else agentic_tree O1 cfg (child_submission sub st cpc) cid cpc (Suc depth) max_out mt r) = (y, mt1, r1)"
    by (metis prod_cases3)
  note eq = 3(3) [unfolded agentic_children.simps Let_def, folded cpc_def cid_def, unfolded y]
  have c1: "calm tid r r1"
  proof (cases "cpc = Some secret_sensitive")
    case False
    then show ?thesis using 3(1) [OF cpc_def cid_def False] y by simp
  qed (use y in \<open>simp add: calmness.eff_refl\<close>)
  show ?case
  proof (cases y)
    case (Inl e)
    then show ?thesis using eq c1 by simp
  next
    case (Inr w)
    obtain z r2 where z: "note_child O1 t depth i cid cpc w r1 = (z, r2)" by fastforce
    have c2: "calm tid r r2" using calmness.eff_trans [OF c1 within_effD [OF calm_note_child z]] .
    show ?thesis
    proof (cases z)
      case (Inl e)
      then show ?thesis using eq z Inr c2 by simp
    next
      case z2: (Inr u)
      obtain ks mt3 r3 where k: "agentic_children O1 cfg sub t pc depth max_out (Suc i) sts
          (mt1\<lparr>mt_children := mt_children mt1 + 1\<rparr>) r2 = (ks, mt3, r3)" by (metis prod_cases3)
      have "r' = r3" using eq z Inr z2 k by (auto split: sum.splits)
      then show ?thesis
        using calmness.eff_trans [OF c2 3(2) [OF cpc_def cid_def y [symmetric] Inr refl refl z [symmetric] z2 k]] by simp
    qed
  qed
qed

lemma calm_rented_loop [calmly]: "within_eff (calm tid) (rented_loop O1 cfg sub t m k)"
proof (rule within_effI)
  fix r :: router
  have run: "calm tid a s" if "run_runtime rt (rented_send cfg h client) m src
      (a\<lparr>rs_trace := rs_trace a @ [AgentRun cfg 0 None sub]\<rparr>) = (y, src', s)" for rt h client src a y src' s
    using calmness.eff_trans [OF calm_same calm_run_runtime [OF calm_rented_send that]] by simp
  obtain x r' where l: "rented_loop O1 cfg sub t m k r = (x, r')" by fastforce
  then have "calm tid r r'"
    by (auto simp: rented_loop_def split: sum.splits prod.splits intro: calmness.eff_trans
        dest!: within_effD [OF calm_acquire_node] within_effD [OF calm_rented_client]
          within_effD [OF calm_bill_window] run)
  then show "calm tid r (snd (rented_loop O1 cfg sub t m k r))" by (simp add: l)
qed

lemma calm_settle:
  assumes "o_threads O1 = no_threads"
  shows "within_eff (calm tid) (settle O1 q cfg i k st w)"
proof (cases q)
  case (Some x)
  have "calm tid r (r\<lparr>rs_quota := reconcile no_threads x cfg i k st w (rs_quota r)\<rparr>)" for r :: router
    by (auto simp: calm_def orderly_def reconcile_def no_threads_def pop_reservation_def record_quota_usage_def
        Let_def AList.delete_eq)
  then show ?thesis unfolding settle_def Some assms by (auto intro: calm_modify)
qed (simp add: settle_def calmly)

lemma calm_refresh_budget [calmly]: "within_eff (calm tid) (refresh_budget_state O1)"
  unfolding refresh_budget_state_def
  by (cases "o_budget O1") (auto simp: calm_same intro!: calmness.eff_bnd calmly calm_modify)

lemma calm_refresh_learned [calmly]: "within_eff (calm tid) (refresh_learned O1)"
  unfolding refresh_learned_def by (cases "o_evaluator O1") (auto simp: calm_same intro!: calmly calm_modify)

lemma calm_of_shrinks: "shrinks (rs_quota a) L \<Longrightarrow> calm tid a (a\<lparr>rs_quota := L\<rparr>)"
  by (simp add: shrinks_def calm_def orderly_def)

lemma calm_route_now:
  assumes "o_threads O1 = no_threads"
  shows "within_eff (calm tid) (route_now O1 ctx st)"
proof (rule within_effI)
  fix r :: router
  obtain d L where d: "route no_threads (rs_engine r) ctx st (rs_quota r) = (d, L)" by fastforce
  show "calm tid r (snd (route_now O1 ctx st r))"
    using calm_of_shrinks [OF shrinks_route [OF d]] by (simp add: route_now_def assms d split: option.split)
qed

lemma settings_frame [simp]:
  "schema_ok (m\<lparr>settings := q\<rparr>) = schema_ok m" "task_state_of (m\<lparr>settings := q\<rparr>) = task_state_of m"
  by (rule schema_cong task_state_of_cong, simp_all)+

lemma calm_prompt_budget [calmly]: "within_eff (calm tid) (prompt_budget O1)"
proof -
  have "within_eff (calm tid) (\<lambda>r. case set_budget a p (mem r) of
       (Inl (ValueError v), m) \<Rightarrow> (Inr False, put_mem m r)
     | (Inl e, m) \<Rightarrow> (Inl (Store e), put_mem m r)
     | (Inr u, m) \<Rightarrow> (Inr True, put_mem m r))" for a p
    by (rule within_effI)
      (auto simp: set_budget_def set_setting_def calm_def orderly_def put_mem_def split: prod.split sum.split exc.split)
  note this [intro!]
  show ?thesis unfolding prompt_budget_def
    by (auto intro!: calmness.eff_bnd calmness.eff_seq calmly split: option.split)
qed

lemma calm_route_with_budget_prompt:
  assumes "o_threads O1 = no_threads"
  shows "within_eff (calm tid) (route_with_budget_prompt O1 ctx st)"
  unfolding route_with_budget_prompt_def
  by (auto intro!: calmness.eff_bnd calmness.eff_seq calmly calm_route_now assms)

lemma calm_charge_of [calmly]: "within_eff (calm tid) (charge_of O1 cfg ctx t)"
  unfolding charge_of_def Let_def
  by (intro calmness.eff_bnd calmly) (auto intro!: calmness.eff_bnd calmly split: option.split)

lemma calm_confirm_charge [calmly]: "within_eff (calm tid) (confirm_charge O1 cfg ctx t i)"
  unfolding confirm_charge_def
  by (intro calmness.eff_bnd calmness.eff_seq calmly)
    (auto intro!: calmness.eff_bnd calmness.eff_seq calmly split: option.split)

lemma calm_select [calmly]: "within_eff (calm tid) (select_remote_worker O1 pc)"
  unfolding select_remote_worker_def by (auto intro: calmly split: option.split)

lemma calm_stored_output [calmly]: "within_eff (calm tid) (stored_output O1 t s)"
  unfolding stored_output_def by (auto intro!: calmness.eff_seq calmly split: option.split)

lemmas calm_order = calmly [THEN calm_orderly]

lemma order_transition_to [calmly]: "within_eff orderly (transition_to O1 tid dst)"
proof (rule within_effI)
  fix r :: router
  obtain x r' where t: "transition_to O1 tid dst r = (x, r')" by fastforce
  have "reservations (rs_quota r') = reservations (rs_quota r)"
    using t by (auto simp: transition_to_def put_mem_def split: prod.splits sum.splits)
  then show "orderly r (snd (transition_to O1 tid dst r))"
    using transition_to_writes(1) [OF _ t] by (simp add: orderly_def t)
qed

lemma order_complete_task: "within_eff orderly (complete_task O1 tid)"
  unfolding complete_task_def by (intro order.eff_seq order_transition_to order.eff_ret)

section \<open>Where a submission ends\<close>

text \<open>After a successful \<open>m\<close> the task is in state \<open>dst\<close>; a successful \<open>m\<close> returns the summary of the task, with its
  stored state, which is one of \<open>S\<close>.\<close>

definition reaches :: "task_state \<Rightarrow> string \<Rightarrow> 'a rm \<Rightarrow> bool" where
  "reaches dst tid m \<longleftrightarrow> (\<forall>r x r'. schema_ok (mem r) \<longrightarrow> m r = (Inr x, r') \<longrightarrow>
     schema_ok (mem r') \<and> task_state_of (mem r') tid = Some dst)"

definition ends_in :: "task_state set \<Rightarrow> string \<Rightarrow> task_summary rm \<Rightarrow> bool" where
  "ends_in S tid m \<longleftrightarrow> (\<forall>r sm r'. schema_ok (mem r) \<longrightarrow> m r = (Inr sm, r') \<longrightarrow>
     sm_task_id sm = tid \<and> task_state_of (mem r') tid = Some (sm_status sm) \<and> sm_status sm \<in> S)"

lemma reaches_transition: "reaches dst tid (transition_to O1 tid dst)"
  using transition_to_writes unfolding reaches_def by blast

lemma ends_mono: "ends_in S tid m \<Longrightarrow> S \<subseteq> T \<Longrightarrow> ends_in T tid m"
  unfolding ends_in_def by blast

lemma orderly_schema: "within_eff orderly m \<Longrightarrow> m r = (x, r') \<Longrightarrow> schema_ok (mem r) \<Longrightarrow> schema_ok (mem r')"
  by (drule (1) within_effD) (simp add: orderly_def)

lemma bnd_Inr: "bnd m f r = (Inr x, r') \<Longrightarrow> \<exists>y r1. m r = (Inr y, r1) \<and> f y r1 = (Inr x, r')"
  by (auto simp: bnd_def split: prod.splits sum.splits)

lemma ends_bnd:
  assumes "within_eff orderly m" and "\<And>x. ends_in S tid (f x)"
  shows "ends_in S tid (bnd m f)"
  unfolding ends_in_def
proof (intro allI impI)
  fix r sm r'
  assume ok: "schema_ok (mem r)" and b: "bnd m f r = (Inr sm, r')"
  obtain y r1 where m: "m r = (Inr y, r1)" "f y r1 = (Inr sm, r')" using bnd_Inr [OF b] by blast
  show "sm_task_id sm = tid \<and> task_state_of (mem r') tid = Some (sm_status sm) \<and> sm_status sm \<in> S"
    using assms(2) [of y] orderly_schema [OF assms(1) m(1) ok] m(2) unfolding ends_in_def by blast
qed

lemma ends_seq: "within_eff orderly m \<Longrightarrow> ends_in S tid k \<Longrightarrow> ends_in S tid (seq m k)"
  unfolding seq_def by (rule ends_bnd)

lemma reaches_seq:
  assumes "within_eff orderly m" and "reaches dst tid k"
  shows "reaches dst tid (seq m k)"
  unfolding reaches_def seq_def
proof (intro allI impI)
  fix r x r'
  assume ok: "schema_ok (mem r)" and b: "bnd m (\<lambda>_. k) r = (Inr x, r')"
  obtain y r1 where m: "m r = (Inr y, r1)" "k r1 = (Inr x, r')" using bnd_Inr [OF b] by blast
  show "schema_ok (mem r') \<and> task_state_of (mem r') tid = Some dst"
    using assms(2) orderly_schema [OF assms(1) m(1) ok] m(2) unfolding reaches_def by blast
qed

lemma reaches_seq_calm:
  assumes "reaches dst tid m" and "within_eff (calm tid) k"
  shows "reaches dst tid (seq m k)"
  unfolding reaches_def
proof (intro allI impI)
  fix r x r'
  assume ok: "schema_ok (mem r)" and s: "seq m k r = (Inr x, r')"
  obtain y r1 where m: "m r = (Inr y, r1)" "k r1 = (Inr x, r')"
    using s by (auto simp: seq_def bnd_def split: prod.splits sum.splits)
  have "schema_ok (mem r1)" "task_state_of (mem r1) tid = Some dst" using assms(1) ok m(1) unfolding reaches_def by blast+
  moreover have "calm tid r1 r'" by (rule within_effD [OF assms(2) m(2)])
  ultimately show "schema_ok (mem r') \<and> task_state_of (mem r') tid = Some dst" by (simp add: calm_def orderly_def)
qed

lemma summary_of_reads:
  "summary_of tid r = (Inr sm, r') \<Longrightarrow> r' = r \<and> sm_task_id sm = tid \<and> task_state_of (mem r) tid = Some (sm_status sm)"
  by (auto simp: summary_of_def get_task_def task_state_of_def split: option.splits)

lemma ends_summary:
  assumes "reaches dst tid m"
  shows "ends_in {dst} tid (seq m (summary_of tid))"
  unfolding ends_in_def seq_def
proof (intro allI impI)
  fix r sm r'
  assume ok: "schema_ok (mem r)" and b: "bnd m (\<lambda>_. summary_of tid) r = (Inr sm, r')"
  obtain y r1 where m: "m r = (Inr y, r1)" "summary_of tid r1 = (Inr sm, r')" using bnd_Inr [OF b] by blast
  have "task_state_of (mem r1) tid = Some dst" using assms ok m(1) unfolding reaches_def by blast
  then show "sm_task_id sm = tid \<and> task_state_of (mem r') tid = Some (sm_status sm) \<and> sm_status sm \<in> {dst}"
    using summary_of_reads [OF m(2)] by simp
qed

lemma seq_assoc: "seq (seq a b) c = seq a (seq b c)"
  by (auto simp: seq_def bnd_def fun_eq_iff split: prod.split sum.split)

lemma ends_outcome:
  "ends_in {dst} tid (seq (transition_to O1 tid dst) (seq (note_outcome tid a b) (summary_of tid)))"
  using ends_summary [OF reaches_seq_calm [OF reaches_transition calm_note_outcome]] by (simp add: seq_assoc)

definition settled :: "task_state set" where
  "settled = {REJECTED, COMPLETE, FAILED}"

lemma ends_reject: "ends_in settled tid (router_reject O1 tid a b)"
  unfolding router_reject_def by (rule ends_mono [OF ends_outcome]) (simp add: settled_def)

lemma ends_fail_task: "ends_in settled tid (fail_task O1 tid a b c)"
  unfolding fail_task_def
  by (rule ends_seq [OF calm_orderly [OF calm_append_line [of tid]] ends_mono [OF ends_outcome]]) (simp add: settled_def)

lemma reaches_complete: "reaches COMPLETE tid (complete_task O1 tid)"
  unfolding complete_task_def
  by (intro reaches_seq order_transition_to reaches_seq_calm reaches_transition calmness.eff_ret)

lemma ends_conclude: "ends_in settled tid (conclude O1 tid w a b)"
proof (cases "wr_status w = ''completed''")
  case True
  have "ends_in {COMPLETE} tid (conclude O1 tid w a b)"
    unfolding conclude_def using True
    by (simp add: ends_summary reaches_seq_calm [OF reaches_complete calm_note_outcome])
  then show ?thesis by (rule ends_mono) (simp add: settled_def)
next
  case False
  have "ends_in {FAILED} tid (conclude O1 tid w a b)"
    unfolding conclude_def using False
    by (simp add: ends_summary reaches_seq_calm [OF reaches_transition calm_note_outcome])
  then show ?thesis by (rule ends_mono) (simp add: settled_def)
qed

lemmas order_rules = order.eff_bnd order.eff_seq order.eff_catch order.eff_finally order_transition_to order_complete_task
  calm_order

lemma order_settle: "o_threads O1 = no_threads \<Longrightarrow> within_eff orderly (settle O1 q cfg i k st w)"
  by (rule calm_orderly) (rule calm_settle)

lemma ends_agentic_failed:
  "o_threads O1 = no_threads \<Longrightarrow> ends_in settled tid (agentic_failed O1 cfg sub tid m q mt e)"
  unfolding agentic_failed_def by (intro ends_bnd ends_seq ends_fail_task calm_order order_settle)

lemma ends_agentic_done:
  "o_threads O1 = no_threads \<Longrightarrow> ends_in settled tid (agentic_done O1 cfg sub tid m q mt w)"
  unfolding agentic_done_def by (intro ends_bnd ends_seq ends_conclude calm_order order_settle)

lemma ends_rented_failed: "ends_in settled tid (rented_failed O1 cfg sub tid m e b src)"
  unfolding rented_failed_def
  by (intro ends_bnd ends_seq ends_fail_task calm_order) (simp_all add: calm_order)

lemma ends_rented_done: "ends_in settled tid (rented_done O1 cfg sub tid m w h src)"
  unfolding rented_done_def by (intro ends_bnd ends_seq ends_conclude calm_order)

lemma ends_finally:
  assumes "ends_in S tid m" and "within_eff (calm tid) f" and "within_eff orderly m"
  shows "ends_in S tid (finally_do m f)"
  unfolding ends_in_def
proof (intro allI impI)
  fix r sm r'
  assume ok: "schema_ok (mem r)" and b: "finally_do m f r = (Inr sm, r')"
  obtain y r1 where m: "m r = (Inr sm, r1)" "f r1 = (y, r')"
    using b by (auto simp: finally_do_def split: prod.splits sum.splits)
  have "calm tid r1 r'" by (rule within_effD [OF assms(2) m(2)])
  moreover have "schema_ok (mem r1)" by (rule orderly_schema [OF assms(3) m(1) ok])
  ultimately show "sm_task_id sm = tid \<and> task_state_of (mem r') tid = Some (sm_status sm) \<and> sm_status sm \<in> S"
    using assms(1) ok m(1) unfolding ends_in_def calm_def by metis
qed

lemma order_fail_task: "within_eff orderly (fail_task O1 tid a b c)"
  unfolding fail_task_def by (intro order_rules)

lemma order_conclude: "within_eff orderly (conclude O1 tid w a b)"
  unfolding conclude_def by (intro order.eff_seq calm_order) (auto intro!: order_rules)

lemma order_rented_failed: "within_eff orderly (rented_failed O1 cfg sub tid m e b src)"
  unfolding rented_failed_def by (intro order_rules order_fail_task) (simp_all add: calm_order)

lemma order_rented_done: "within_eff orderly (rented_done O1 cfg sub tid m w h src)"
  unfolding rented_done_def by (intro order_rules order_conclude)

lemma order_agentic_failed:
  "o_threads O1 = no_threads \<Longrightarrow> within_eff orderly (agentic_failed O1 cfg sub tid m q mt e)"
  unfolding agentic_failed_def by (intro order_rules order_fail_task order_settle)

lemma order_agentic_done:
  "o_threads O1 = no_threads \<Longrightarrow> within_eff orderly (agentic_done O1 cfg sub tid m q mt w)"
  unfolding agentic_done_def by (intro order_rules order_conclude order_settle)

text \<open>A case distinction on how a first part ended.\<close>

lemma ends_case:
  assumes "within_eff orderly m" and "\<And>e. ends_in S tid (h e)" and "\<And>x. ends_in S tid (k x)"
  shows "ends_in S tid (\<lambda>r. case m r of (Inl e, r1) \<Rightarrow> h e r1 | (Inr x, r1) \<Rightarrow> k x r1)"
  unfolding ends_in_def
proof (intro allI impI)
  fix r sm r'
  assume ok: "schema_ok (mem r)" and b: "(case m r of (Inl e, r1) \<Rightarrow> h e r1 | (Inr x, r1) \<Rightarrow> k x r1) = (Inr sm, r')"
  obtain x r1 where m: "m r = (x, r1)" by fastforce
  have ok1: "schema_ok (mem r1)" by (rule orderly_schema [OF assms(1) m ok])
  show "sm_task_id sm = tid \<and> task_state_of (mem r') tid = Some (sm_status sm) \<and> sm_status sm \<in> S"
  proof (cases x)
    case (Inl e)
    then show ?thesis using assms(2) [of e] ok1 b m unfolding ends_in_def by auto
  next
    case (Inr y)
    then show ?thesis using assms(3) [of y] ok1 b m unfolding ends_in_def by auto
  qed
qed

lemma ends_run_agentic_rented: "ends_in settled tid (run_agentic_rented O1 cfg sub tid k)"
  unfolding run_agentic_rented_alt
  by (intro ends_bnd ends_seq ends_case calm_order)
    (auto intro!: ends_finally ends_rented_failed calmly order_rented_failed ends_seq calm_order ends_rented_done)

lemma order_run_agentic_rented: "within_eff orderly (run_agentic_rented O1 cfg sub tid k)"
  unfolding run_agentic_rented_alt
  by (intro order.eff_bnd order.eff_seq order.eff_case calm_order)
    (auto intro!: order.eff_finally order_rented_failed order.eff_seq calm_order order_rented_done)

lemma agentic_tree_order:
  "within_eff orderly (\<lambda>r. case agentic_tree O1 cfg sub tid pc d k mt r of (x, mt', r') \<Rightarrow>
     ((case x of Inl e \<Rightarrow> Inl (e, mt') | Inr w \<Rightarrow> Inr (w, mt')), r'))"
  by (rule calm_orderly [of "[]"], rule within_effI) (auto split: prod.split dest: calm_agentic(1))

lemma run_agentic_alt:
  "\<not> is_rented cfg \<Longrightarrow> run_agentic O1 cfg sub tid k q pc = bnd (asks (model_for sub)) (\<lambda>m r.
     case (case agentic_tree O1 cfg sub tid (Some pc) 0 k no_usage r of (x, mt', r') \<Rightarrow>
        ((case x of Inl e \<Rightarrow> Inl (e, mt') | Inr w \<Rightarrow> Inr (w, mt')), r')) of
       (Inl y, r1) \<Rightarrow> (case y of (e, mt) \<Rightarrow> agentic_failed O1 cfg sub tid m q mt e) r1
     | (Inr y, r1) \<Rightarrow> (case y of (w, mt) \<Rightarrow> agentic_done O1 cfg sub tid m q mt w) r1)"
  by (auto simp: run_agentic_def fun_eq_iff bnd_def asks_def split: prod.split sum.split)

lemma ends_run_agentic:
  "o_threads O1 = no_threads \<Longrightarrow> ends_in settled tid (run_agentic O1 cfg sub tid k q pc)"
proof (cases "is_rented cfg")
  case False
  assume "o_threads O1 = no_threads"
  then show ?thesis unfolding run_agentic_alt [OF False]
    by (intro ends_bnd ends_case agentic_tree_order calm_order)
      (auto intro: ends_agentic_failed ends_agentic_done)
qed (simp add: run_agentic_def ends_run_agentic_rented)

lemma order_run_agentic:
  "o_threads O1 = no_threads \<Longrightarrow> within_eff orderly (run_agentic O1 cfg sub tid k q pc)"
proof (cases "is_rented cfg")
  case False
  assume "o_threads O1 = no_threads"
  then show ?thesis unfolding run_agentic_alt [OF False]
    by (intro order.eff_bnd order.eff_case agentic_tree_order calm_order)
      (auto intro: order_agentic_failed order_agentic_done)
qed (simp add: run_agentic_def order_run_agentic_rented)

end
