(* ===== verification/Router_Outcome.thy ===== *)
theory Router_Outcome
  imports Router_Settlement
begin

text \<open>
  The outcome of a whole submission: the stored state that the summary reports, the rejection of
  secret material, and that no quota reservation outlives its submission unless another process
  takes the task away in between.
\<close>

section \<open>Execution\<close>

lemma ends_oneshot_failed:
  "o_threads O1 = no_threads \<Longrightarrow> ends_in settled tid (oneshot_failed O1 sub tid cfg q m e)"
  unfolding oneshot_failed_def by (intro ends_bnd ends_seq ends_fail_task calm_order order_settle)

lemma order_oneshot_failed:
  "o_threads O1 = no_threads \<Longrightarrow> within_eff orderly (oneshot_failed O1 sub tid cfg q m e)"
  unfolding oneshot_failed_def by (intro order_rules order_fail_task order_settle)

lemma ends_oneshot_done:
  assumes "o_threads O1 = no_threads"
  shows "ends_in settled tid (oneshot_done O1 sub tid cfg q g)"
proof -
  have "ends_in {COMPLETE} tid (seq (complete_task O1 tid) (seq (note_outcome tid a b) (seq (append_line tid c l) (summary_of tid))))"
    for a b c l
    using ends_summary [OF reaches_seq_calm [OF reaches_seq_calm [OF reaches_complete calm_note_outcome] calm_append_line]]
    by (simp add: seq_assoc)
  then have tail: "ends_in settled tid (seq (complete_task O1 tid) (seq (note_outcome tid a b) (seq (append_line tid c l) (summary_of tid))))"
    for a b c l by (rule ends_mono) (simp add: settled_def)
  show ?thesis unfolding oneshot_done_def
    apply (rule ends_bnd, rule calm_latency [THEN calm_orderly])
    apply (rule ends_seq, rule order_settle [OF assms])
    apply (rule ends_seq, rule calm_record_eval [THEN calm_orderly])
    apply (rule ends_bnd, rule calm_stored_output [THEN calm_orderly])
    apply (rule ends_bnd, rule calm_put_artifact [THEN calm_orderly])
    apply (rule tail)
    done
qed

lemma order_oneshot_done:
  "o_threads O1 = no_threads \<Longrightarrow> within_eff orderly (oneshot_done O1 sub tid cfg q g)"
  unfolding oneshot_done_def by (intro order_rules order_settle)

lemma ends_run_oneshot:
  assumes "o_threads O1 = no_threads"
  shows "ends_in settled tid (run_oneshot O1 sub tid cfg q m)"
  unfolding run_oneshot_def
  by (intro ends_bnd ends_case calm_order ends_oneshot_failed ends_oneshot_done assms)

lemma order_run_oneshot:
  assumes "o_threads O1 = no_threads"
  shows "within_eff orderly (run_oneshot O1 sub tid cfg q m)"
  unfolding run_oneshot_def
  by (intro order.eff_bnd order.eff_case calm_order order_oneshot_failed order_oneshot_done assms)

lemma ends_execute:
  "o_threads O1 = no_threads \<Longrightarrow> ends_in settled tid (execute O1 sub tid cfg q m)"
  unfolding execute_def
  by (intro ends_seq order_transition_to) (auto intro: ends_run_agentic ends_run_oneshot)

lemma order_execute:
  "o_threads O1 = no_threads \<Longrightarrow> within_eff orderly (execute O1 sub tid cfg q m)"
  unfolding execute_def
  by (intro order.eff_seq order_transition_to) (auto intro: order_run_agentic order_run_oneshot)

lemma ends_remote_done: "ends_in settled tid (remote_done O1 wk sub tid w)"
  unfolding remote_done_def Let_def
  by (intro ends_bnd calm_order) (auto intro!: ends_bnd ends_seq ends_conclude calm_order split: prod.split)

lemma order_remote_done: "within_eff orderly (remote_done O1 wk sub tid w)"
  unfolding remote_done_def Let_def
  by (intro order.eff_bnd calm_order) (auto intro!: order.eff_bnd order.eff_seq order_conclude calm_order split: prod.split)

lemma ends_run_agentic_remote: "ends_in settled tid (run_agentic_remote O1 wk rt sub tid pc)"
  unfolding run_agentic_remote_def
  by (intro ends_seq order_transition_to calm_order)
    (auto intro!: ends_bnd ends_seq ends_fail_task ends_remote_done calm_order split: sum.split)

lemma order_run_agentic_remote: "within_eff orderly (run_agentic_remote O1 wk rt sub tid pc)"
  unfolding run_agentic_remote_def
  by (intro order.eff_seq order_transition_to calm_order)
    (auto intro!: order.eff_bnd order.eff_seq order_fail_task order_remote_done calm_order split: sum.split)

section \<open>Reservations\<close>

lemma set_delete: "set (AList.delete k xs) \<subseteq> set xs"
  by (auto simp: AList.delete_eq)

lemma reserve_effect:
  assumes "reserve no_threads cfg tid i k ttl L = (q, L')"
  shows "\<exists>m. memory L' = (memory L)\<lparr>uuid_ctr := m\<rparr>"
    and "set (AList.delete (qr_reservation_id q) (reservations L')) \<subseteq> set (reservations L)"
    and "\<not> qr_granted q \<Longrightarrow> set (reservations L') \<subseteq> set (reservations L)"
proof -
  obtain ok why L1 where c: "can_reserve no_threads cfg i k L = ((ok, why), L1)" by (metis surj_pair)
  have s: "memory L1 = memory L" "set (reservations L1) \<subseteq> set (reservations L)"
    using shrinks_can_reserve [OF c] by (auto simp: shrinks_def)
  show "\<exists>m. memory L' = (memory L)\<lparr>uuid_ctr := m\<rparr>"
    using assms s(1) by (auto simp: reserve_def c Let_def draw_def no_threads_def split: if_splits)
  show "set (AList.delete (qr_reservation_id q) (reservations L')) \<subseteq> set (reservations L)"
    using assms s(2) set_delete [of "qr_reservation_id q" "reservations L1"]
    by (auto simp: reserve_def c Let_def draw_def no_threads_def delete_update_same split: if_splits)
  show "set (reservations L') \<subseteq> set (reservations L)" if "\<not> qr_granted q"
    using assms s(2) that by (auto simp: reserve_def c Let_def draw_def no_threads_def split: if_splits)
qed

lemma uuid_frame [simp]:
  "schema_ok (m\<lparr>uuid_ctr := n\<rparr>) = schema_ok m" "task_state_of (m\<lparr>uuid_ctr := n\<rparr>) = task_state_of m"
  by (rule schema_cong task_state_of_cong, simp_all)+

lemma ends_reserve_and_execute:
  assumes "o_threads O1 = no_threads"
  shows "ends_in settled tid (reserve_and_execute O1 sub tid cfg ctx m)"
proof (cases "p_type cfg = ''cloud''")
  case True
  show ?thesis unfolding ends_in_def
  proof (intro allI impI)
    fix r sm r'
    assume ok: "schema_ok (mem r)" and e: "reserve_and_execute O1 sub tid cfg ctx m r = (Inr sm, r')"
    obtain q L where q: "reserve no_threads cfg tid (rc_est_input_tokens ctx) (rc_est_output_tokens ctx) 120 (rs_quota r) = (q, L)"
      by fastforce
    have "schema_ok (mem (r\<lparr>rs_quota := L\<rparr>))" using reserve_effect(1) [OF q] ok by auto
    moreover have "(if \<not> qr_granted q then router_reject O1 tid (''Quota reservation denied for '' @ provider_id cfg @ '': '' @ qr_reason q @ ''.'')
             ''Wait for quota reset or route to a local model.''
         else execute O1 sub tid cfg (Some q) m) (r\<lparr>rs_quota := L\<rparr>) = (Inr sm, r')"
      using e True q assms by (simp add: reserve_and_execute_def bnd_def on_quota_def)
    moreover have "ends_in settled tid (if b then router_reject O1 tid x y else execute O1 sub tid cfg (Some q) m)" for b x y
      by (simp add: ends_reject ends_execute [OF assms])
    ultimately show "sm_task_id sm = tid \<and> task_state_of (mem r') tid = Some (sm_status sm) \<and> sm_status sm \<in> settled"
      unfolding ends_in_def by blast
  qed
qed (simp add: reserve_and_execute_def ends_execute [OF assms])

section \<open>The pipeline\<close>

lemma order_create: "within_eff orderly (on_db (create_task j a))"
proof (rule within_effI)
  fix r :: router
  have "schema_ok (snd (create_task j a m))" if "schema_ok m" for m
    using that by (auto simp: create_task_def new_id_def draw_def schema_ok_def)
  then show "orderly r (snd (on_db (create_task j a) r))"
    by (auto simp: on_db_def of_store_def orderly_def put_mem_def split: prod.split sum.split)
       (metis snd_conv)+
qed

lemma order_receive: "within_eff orderly (receive O1 sub)"
  unfolding receive_def Let_def
  by (intro order.eff_bnd order.eff_seq order_create order_transition_to calm_order)
    (auto intro!: order.eff_seq order_transition_to calm_order split: prod.split)

lemma ends_confirm_and_execute:
  assumes "o_threads O1 = no_threads"
  shows "ends_in settled tid (confirm_and_execute O1 sub tid cfg ctx m)"
  unfolding confirm_and_execute_def
  by (auto intro!: ends_bnd calm_order ends_reject ends_reserve_and_execute assms)

lemma ends_raise: "ends_in S tid (raise_exc e)"
  by (simp add: ends_in_def raise_exc_def)

lemma ends_dispatch_selected:
  assumes "o_threads O1 = no_threads"
  shows "ends_in settled tid (dispatch_selected O1 sub tid ctx d)"
  unfolding dispatch_selected_def
  by (auto intro!: ends_bnd calm_order ends_reject ends_raise ends_confirm_and_execute assms split: option.split)

lemma ends_route_and_dispatch:
  assumes "o_threads O1 = no_threads"
  shows "ends_in settled tid (route_and_dispatch O1 sub tid)"
  unfolding route_and_dispatch_def
  by (intro ends_bnd ends_seq order_transition_to calm_order ends_dispatch_selected assms
      calm_route_with_budget_prompt [THEN calm_orderly])

lemma ends_remote_or_route:
  assumes "o_threads O1 = no_threads"
  shows "ends_in settled tid (remote_or_route O1 sub tid)"
  unfolding remote_or_route_def
  by (auto intro!: ends_bnd calm_order ends_run_agentic_remote ends_route_and_dispatch assms split: option.split)

lemma ends_guard_task:
  assumes "o_threads O1 = no_threads"
  shows "ends_in settled tid (guard_task O1 sub tid)"
  unfolding guard_task_def
  by (auto intro!: ends_seq calm_order ends_reject ends_remote_or_route assms split: option.split)

lemma pipeline_outcome:
  assumes "o_threads O1 = no_threads" and "schema_ok (mem r)" and "submit_task_pipeline O1 sub r = (Inr sm, r')"
  shows "task_state_of (mem r') (sm_task_id sm) = Some (sm_status sm) \<and> sm_status sm \<in> settled"
proof -
  obtain tid r1 where t: "receive O1 sub r = (Inr tid, r1)"
    and k: "(if classify_submission O1 sub = secret_sensitive
      then router_reject O1 tid ''Blocked: task contains secret-sensitive content and may not be sent to any model.''
             ''Remove/redact secrets or handle out-of-band; do not route to an LLM.''
      else guard_task O1 sub tid) r1 = (Inr sm, r')"
    using bnd_Inr [OF assms(3) [unfolded submit_task_pipeline_def]] by blast
  have "schema_ok (mem r1)" by (rule orderly_schema [OF order_receive t assms(2)])
  moreover have "ends_in settled tid (if b then router_reject O1 tid x y else guard_task O1 sub tid)" for b x y
    by (simp add: ends_reject ends_guard_task [OF assms(1)])
  ultimately show ?thesis using k unfolding ends_in_def by metis
qed

text \<open>The summary a caller gets is the truth about the task. Whatever other processes write to the store
  around the state writes of the pipeline, a submission that returns reports the state that is stored for
  its task at that moment; and this state is REJECTED, COMPLETE or FAILED unless the pipeline was
  superseded, that is, one of its state writes was refused because of another process.\<close>

theorem submit_reports_stored_state:
  assumes "o_threads O1 = no_threads" and "schema_ok (mem r)" and "submit_task O1 sub r = (Inr sm, r')"
  shows "task_state_of (mem r') (sm_task_id sm) = Some (sm_status sm)
    \<and> (sm_status sm \<in> {REJECTED, COMPLETE, FAILED}
       \<or> (\<exists>stored r1. submit_task_pipeline O1 sub r = (Inl (TaskSuperseded (sm_task_id sm) stored), r1)))"
proof (cases "submit_task_pipeline O1 sub r" rule: prod.exhaust)
  case (Pair x r1)
  show ?thesis
  proof (cases x)
    case (Inr y)
    then show ?thesis using assms(3) Pair pipeline_outcome [OF assms(1,2)] by (simp add: submit_task_def catch_def settled_def)
  next
    case (Inl e)
    obtain tid stored where e: "e = TaskSuperseded tid stored"
      using assms(3) Pair Inl by (cases e) (auto simp: submit_task_def catch_def raise_exc_def)
    then obtain r2 where "summary_of tid r2 = (Inr sm, r')"
      using assms(3) Pair Inl by (auto simp: submit_task_def catch_def seq_def dest!: bnd_Inr)
    then show ?thesis using summary_of_reads [of tid r2 sm r'] Pair Inl e by simp
  qed
qed

section \<open>Without other processes\<close>

definition undisturbed :: "outside \<Rightarrow> bool" where
  "undisturbed O1 \<longleftrightarrow> o_threads O1 = no_threads \<and> o_peers O1 = (\<lambda>_. no_peers)"

lemma quiet_peer_commit [simp]: "peer_commit no_peers n s = s"
  by (simp add: peer_commit_def no_peers_def Let_def)

text \<open>A legal state write succeeds.\<close>

lemma transition_to_alone:
  assumes "undisturbed O1" and "schema_ok (mem r)" and "task_state_of (mem r) tid = Some cur"
    and "cur \<notin> TERMINAL_STATES" and "dst \<in> allowed_table cur" and "dst \<noteq> cur"
  shows "\<exists>m. transition_to O1 tid dst r = (Inr dst, put_mem m r)"
proof -
  have d: "keys_distinct t_id (tasks (mem r))" using assms(2) by (simp add: schema_ok_def)
  have "transition_decide TASK_STATE_VOCAB tid dst ''router'' (Some tid) [] (Some cur) =
      Proceed dst (write_fields TASK_STATE_VOCAB [])
        (Some (mk_record TASK_STATE_VOCAB tid cur dst ''applied'' ''router'' (Some tid) [] None))"
    using assms(4-6) by (simp add: transition_decide_def is_terminal_def TASK_STATE_VOCAB_def allowed_def edge_get_def)
  then show ?thesis
    using assms(1,3) by (auto simp: transition_to_def undisturbed_def transition_def transition_task_quiet [OF d] Let_def)
qed

lemma advance_alone:
  assumes "undisturbed O1" and "schema_ok (mem r)" and "task_state_of (mem r) tid = Some cur"
    and "cur \<notin> TERMINAL_STATES" and "dst \<in> allowed_table cur" and "dst \<noteq> cur"
  shows "\<exists>r1. transition_to O1 tid dst r = (Inr dst, r1) \<and> schema_ok (mem r1)
    \<and> task_state_of (mem r1) tid = Some dst \<and> reservations (rs_quota r1) = reservations (rs_quota r)"
proof -
  obtain m where t: "transition_to O1 tid dst r = (Inr dst, put_mem m r)" using transition_to_alone [OF assms] by blast
  have "reservations (rs_quota (put_mem m r)) = reservations (rs_quota r)" by (simp add: put_mem_def)
  then show ?thesis using t transition_to_writes(1) [OF assms(2) t] transition_to_writes(3) [OF assms(2) t refl] by blast
qed

definition res_of :: "router \<Rightarrow> (string \<times> live_reservation) set" where
  "res_of r = set (reservations (rs_quota r))"

lemma settle_then:
  assumes "o_threads O1 = no_threads" and k: "\<And>ms. within_eff orderly (k' ms)"
  shows "res_of (snd (bnd (latency O1) (\<lambda>ms. seq (settle O1 (Some q) cfg i j st w) (k' ms)) r))
    \<subseteq> set (AList.delete (qr_reservation_id q) (reservations (rs_quota r)))"
proof -
  let ?r1 = "r\<lparr>rs_quota := reconcile no_threads q cfg i j st w (rs_quota r)\<rparr>"
  have "orderly ?r1 (snd (k' ms ?r1))" for ms using k by (simp add: within_eff_def)
  then have "res_of (snd (k' ms ?r1)) \<subseteq> set (AList.delete (qr_reservation_id q) (reservations (rs_quota r)))" for ms
    by (auto simp: orderly_def res_of_def reconcile_def no_threads_def pop_reservation_def Let_def)
  then show ?thesis
    by (simp add: bnd_def latency_def asks_def seq_def settle_def modify_def assms(1))
qed

lemma run_oneshot_settles:
  assumes "o_threads O1 = no_threads"
  shows "res_of (snd (run_oneshot O1 sub tid cfg (Some q) m r))
    \<subseteq> set (AList.delete (qr_reservation_id q) (reservations (rs_quota r)))"
proof -
  let ?D = "\<lambda>r. set (AList.delete (qr_reservation_id q) (reservations (rs_quota r)))"
  have mono: "?D a \<subseteq> ?D b" if "res_of a \<subseteq> res_of b" for a b :: router
    using that by (auto simp: AList.delete_eq res_of_def)
  define mid where "mid = str_or m (default_resident_model (profiles (rs_engine r)))"
  obtain h m' where h: "draw (mem r) = (h, m')" by fastforce
  define req where "req = oneshot_request O1 sub tid cfg mid h"
  define r0 where "r0 = put_mem m' r"
  obtain x r1 where d: "dispatch O1 cfg req r0 = (x, r1)" by fastforce
  have "orderly r0 r1" by (rule within_effD [OF calm_dispatch [THEN calm_orderly] d])
  then have r1: "res_of r1 \<subseteq> res_of r" by (auto simp: orderly_def res_of_def r0_def put_mem_def)
  have f: "res_of (snd (oneshot_failed O1 sub tid cfg (Some q) mid e r1)) \<subseteq> ?D r1" for e
    unfolding oneshot_failed_def
    by (rule settle_then [OF assms]) (intro order_rules order_fail_task)
  have g: "res_of (snd (oneshot_done O1 sub tid cfg (Some q) y r1)) \<subseteq> ?D r1" for y
    unfolding oneshot_done_def
    by (rule settle_then [OF assms]) (intro order_rules)
  have "snd (run_oneshot O1 sub tid cfg (Some q) m r) =
      snd (case x of Inl e \<Rightarrow> oneshot_failed O1 sub tid cfg (Some q) mid e r1
           | Inr y \<Rightarrow> oneshot_done O1 sub tid cfg (Some q) y r1)"
    using d h by (cases x) (simp_all add: run_oneshot_def bnd_def asks_def on_db_def of_store_def mid_def req_def r0_def)
  then show ?thesis
    using order.trans [OF f mono [OF r1]] order.trans [OF g mono [OF r1]] by (cases x) simp_all
qed

lemma execute_settles:
  assumes "undisturbed O1" and "schema_ok (mem r)" and "task_state_of (mem r) tid = Some ELIGIBLE_PROVIDERS_COMPUTED"
    and "\<not> is_agentic sub"
  shows "res_of (snd (execute O1 sub tid cfg (Some q) m r))
    \<subseteq> set (AList.delete (qr_reservation_id q) (reservations (rs_quota r)))"
proof -
  obtain r1 where r1: "transition_to O1 tid QUEUED r = (Inr QUEUED, r1)" "schema_ok (mem r1)"
    "task_state_of (mem r1) tid = Some QUEUED" "reservations (rs_quota r1) = reservations (rs_quota r)"
    using advance_alone [OF assms(1-3), of QUEUED] by (auto simp: TERMINAL_STATES_def)
  obtain r2 where r2: "transition_to O1 tid DISPATCHED r1 = (Inr DISPATCHED, r2)" "schema_ok (mem r2)"
    "task_state_of (mem r2) tid = Some DISPATCHED" "reservations (rs_quota r2) = reservations (rs_quota r1)"
    using advance_alone [OF assms(1) r1(2,3), of DISPATCHED] by (auto simp: TERMINAL_STATES_def)
  obtain r3 where r3: "transition_to O1 tid RUNNING r2 = (Inr RUNNING, r3)"
    "reservations (rs_quota r3) = reservations (rs_quota r2)"
    using advance_alone [OF assms(1) r2(2,3), of RUNNING] by (auto simp: TERMINAL_STATES_def)
  have "execute O1 sub tid cfg (Some q) m r = run_oneshot O1 sub tid cfg (Some q) m r3"
    using assms(4) by (simp add: execute_def seq_def bnd_def r1(1) r2(1) r3(1))
  then show ?thesis using run_oneshot_settles [of O1 sub tid cfg q m r3] assms(1) r1(4) r2(4) r3(2)
    by (simp add: undisturbed_def)
qed

text \<open>From a state \<open>st\<close> of the task on, no reservation is left behind.\<close>

definition tidy_from :: "task_state \<Rightarrow> string \<Rightarrow> 'a rm \<Rightarrow> bool" where
  "tidy_from st tid m \<longleftrightarrow>
    (\<forall>r. schema_ok (mem r) \<longrightarrow> task_state_of (mem r) tid = Some st \<longrightarrow> res_of (snd (m r)) \<subseteq> res_of r)"

lemma tidy_orderly: "within_eff orderly m \<Longrightarrow> tidy_from st tid m"
  by (auto simp: tidy_from_def within_eff_def orderly_def res_of_def)

lemma tidy_bnd:
  assumes "within_eff (calm tid) m" and "\<And>x. tidy_from st tid (f x)"
  shows "tidy_from st tid (bnd m f)"
  unfolding tidy_from_def
proof (intro allI impI)
  fix r
  assume ok: "schema_ok (mem r)" "task_state_of (mem r) tid = Some st"
  obtain x r1 where m: "m r = (x, r1)" by fastforce
  have c: "calm tid r r1" by (rule within_effD [OF assms(1) m])
  then have r1: "schema_ok (mem r1)" "task_state_of (mem r1) tid = Some st" "res_of r1 \<subseteq> res_of r"
    using ok by (auto simp: calm_def orderly_def res_of_def)
  show "res_of (snd (bnd m f r)) \<subseteq> res_of r"
  proof (cases x)
    case (Inl e)
    then show ?thesis using m r1(3) by (simp add: bnd_def)
  next
    case (Inr y)
    have "res_of (snd (f y r1)) \<subseteq> res_of r1" using assms(2) [of y] r1(1,2) by (auto simp: tidy_from_def)
    then show ?thesis using m Inr r1(3) by (simp add: bnd_def)
  qed
qed

lemma tidy_seq: "within_eff (calm tid) m \<Longrightarrow> tidy_from st tid k \<Longrightarrow> tidy_from st tid (seq m k)"
  unfolding seq_def by (rule tidy_bnd)

lemma order_reject: "within_eff orderly (router_reject O1 tid a b)"
  unfolding router_reject_def by (intro order_rules)

lemmas tidy_reject = order_reject [THEN tidy_orderly] and tidy_raise = order.eff_raise [THEN tidy_orderly]

lemma tidy_reserve_and_execute:
  assumes u: "undisturbed O1" and a: "is_agentic sub \<Longrightarrow> agentic_allowed sub cfg"
  shows "tidy_from ELIGIBLE_PROVIDERS_COMPUTED tid (reserve_and_execute O1 sub tid cfg ctx m)"
proof (cases "p_type cfg = ''cloud''")
  case False
  then show ?thesis using u order_execute [of O1]
    by (auto simp: reserve_and_execute_def undisturbed_def intro: tidy_orderly)
next
  case True
  then have na: "\<not> is_agentic sub" using a agentic_allowed_local by fastforce
  show ?thesis unfolding tidy_from_def
  proof (intro allI impI)
    fix r
    assume ok: "schema_ok (mem r)" "task_state_of (mem r) tid = Some ELIGIBLE_PROVIDERS_COMPUTED"
    obtain q L where q: "reserve no_threads cfg tid (rc_est_input_tokens ctx) (rc_est_output_tokens ctx) 120 (rs_quota r) = (q, L)"
      by fastforce
    note eff = reserve_effect [OF q]
    let ?r1 = "r\<lparr>rs_quota := L\<rparr>"
    have ok1: "schema_ok (mem ?r1)" "task_state_of (mem ?r1) tid = Some ELIGIBLE_PROVIDERS_COMPUTED"
      using eff(1) ok by auto
    have e: "res_of (snd (execute O1 sub tid cfg (Some q) m ?r1)) \<subseteq> res_of r"
      using execute_settles [OF u ok1 na, of cfg q m] eff(2) by (auto simp: res_of_def)
    have "orderly ?r1 (snd (router_reject O1 tid x y ?r1))" for x y using order_reject by (simp add: within_eff_def)
    then have j: "\<not> qr_granted q \<Longrightarrow> res_of (snd (router_reject O1 tid x y ?r1)) \<subseteq> res_of r" for x y
      using eff(3) by (fastforce simp: orderly_def res_of_def)
    show "res_of (snd (reserve_and_execute O1 sub tid cfg ctx m r)) \<subseteq> res_of r"
      using True u q e j by (simp add: reserve_and_execute_def bnd_def on_quota_def undisturbed_def)
  qed
qed

lemma tidy_dispatch_selected:
  assumes "undisturbed O1"
  shows "tidy_from ELIGIBLE_PROVIDERS_COMPUTED tid (dispatch_selected O1 sub tid ctx d)"
proof -
  have c: "tidy_from ELIGIBLE_PROVIDERS_COMPUTED tid (confirm_and_execute O1 sub tid cfg ctx m)"
    if "is_agentic sub \<Longrightarrow> agentic_allowed sub cfg" for cfg m
    unfolding confirm_and_execute_def
    by (auto intro!: tidy_bnd calmly tidy_reject tidy_reserve_and_execute assms that)
  show ?thesis unfolding dispatch_selected_def
    by (auto intro!: tidy_bnd calmly tidy_reject c tidy_raise split: option.split)
qed

text \<open>The same for operations that are run in any state of the task.\<close>

definition tidy :: "router \<Rightarrow> router \<Rightarrow> bool" where
  "tidy a b \<longleftrightarrow> (schema_ok (mem a) \<longrightarrow> schema_ok (mem b) \<and> res_of b \<subseteq> res_of a)"

interpretation tidiness: effect tidy
  by unfold_locales (auto simp: tidy_def)

lemma tidy_of_orderly: "within_eff orderly m \<Longrightarrow> within_eff tidy m"
  by (erule within_eff_mono) (auto simp: tidy_def orderly_def res_of_def)

lemmas tidy_calm = calm_order [THEN tidy_of_orderly]

definition keeps_schema :: "router \<Rightarrow> router \<Rightarrow> bool" where
  "keeps_schema a b \<longleftrightarrow> (schema_ok (mem a) \<longrightarrow> schema_ok (mem b))"

interpretation keeping: effect keeps_schema
  by unfold_locales (auto simp: keeps_schema_def)

lemma keeps_of_orderly: "within_eff orderly m \<Longrightarrow> within_eff keeps_schema m"
  by (erule within_eff_mono) (simp add: orderly_def keeps_schema_def)

lemma keeps_reserve: "within_eff keeps_schema (on_quota (reserve no_threads cfg t i k ttl))"
proof (rule within_effI)
  fix r :: router
  obtain q L where q: "reserve no_threads cfg t i k ttl (rs_quota r) = (q, L)" by fastforce
  then show "keeps_schema r (snd (on_quota (reserve no_threads cfg t i k ttl) r))"
    using reserve_effect(1) [OF q] by (auto simp: keeps_schema_def on_quota_def)
qed

lemma keeps_dispatch_selected:
  assumes "o_threads O1 = no_threads"
  shows "within_eff keeps_schema (dispatch_selected O1 sub tid ctx d)"
proof -
  have r: "within_eff keeps_schema (reserve_and_execute O1 sub tid cfg c m)" for cfg c m
    unfolding reserve_and_execute_def assms
    by (auto intro!: keeping.eff_bnd keeps_reserve order_reject [THEN keeps_of_orderly]
        order_execute [OF assms, THEN keeps_of_orderly])
  have "within_eff keeps_schema (confirm_and_execute O1 sub tid cfg c m)" for cfg c m
    unfolding confirm_and_execute_def
    by (auto intro!: keeping.eff_bnd calm_order [THEN keeps_of_orderly] order_reject [THEN keeps_of_orderly] r)
  then show ?thesis unfolding dispatch_selected_def
    by (auto intro!: keeping.eff_bnd calm_order [THEN keeps_of_orderly] order_reject [THEN keeps_of_orderly]
        split: option.split)
qed

lemma tidy_after_transition:
  assumes "tidy_from dst tid k" and "within_eff keeps_schema k"
  shows "within_eff tidy (seq (transition_to O1 tid dst) k)"
proof (rule within_effI)
  fix r :: router
  obtain x r1 where t: "transition_to O1 tid dst r = (x, r1)" by fastforce
  have o: "orderly r r1" by (rule within_effD [OF order_transition_to t])
  have "keeps_schema r1 (snd (k r1))" using assms(2) by (simp add: within_eff_def)
  moreover have "res_of (snd (k r1)) \<subseteq> res_of r1" if "schema_ok (mem r)" "x = Inr y" for y
    using transition_to_writes [OF that(1) t] that(2) assms(1) by (auto simp: tidy_from_def)
  ultimately show "tidy r (snd (seq (transition_to O1 tid dst) k r))"
    using o t by (cases x) (auto simp: tidy_def orderly_def res_of_def seq_def bnd_def keeps_schema_def)
qed

lemma tidy_route_and_dispatch:
  assumes u: "undisturbed O1"
  shows "within_eff tidy (route_and_dispatch O1 sub tid)"
proof -
  have n: "o_threads O1 = no_threads" using u by (simp add: undisturbed_def)
  have tail: "tidy_from ELIGIBLE_PROVIDERS_COMPUTED tid (seq (refresh_learned O1) (bnd (route_with_budget_prompt O1 ctx st) (\<lambda>d.
      seq (mod_db (record_routing_decision tid (o_dump_decision O1 d))) (seq (append_line tid (msg d) l)
      (dispatch_selected O1 sub tid ctx d)))))" for ctx st msg l
    by (intro tidy_bnd tidy_seq calmly calm_route_with_budget_prompt n tidy_dispatch_selected u)
  have keep: "within_eff keeps_schema (seq (refresh_learned O1) (bnd (route_with_budget_prompt O1 ctx st) (\<lambda>d.
      seq (mod_db (record_routing_decision tid (o_dump_decision O1 d))) (seq (append_line tid (msg d) l)
      (dispatch_selected O1 sub tid ctx d)))))" for ctx st msg l
    by (intro keeping.eff_bnd keeping.eff_seq calm_order [THEN keeps_of_orderly] keeps_dispatch_selected n
        calm_route_with_budget_prompt [OF n, THEN calm_orderly, THEN keeps_of_orderly])
  show ?thesis unfolding route_and_dispatch_def
    by (intro tidiness.eff_bnd tidy_calm tidy_after_transition tail keep)
qed



section \<open>Secret material\<close>

text \<open>The identifiers that will be drawn are not taken.\<close>

definition fresh_ids :: "db \<Rightarrow> bool" where
  "fresh_ids m \<longleftrightarrow> (\<forall>k \<ge> uuid_ctr m. ''task_'' @ take 12 (uuids m k) \<notin> t_id ` set (tasks m)
     \<and> ''artifact_'' @ take 12 (uuids m k) \<notin> a_id ` set (artifacts m))"

definition artifact_free :: "db \<Rightarrow> bool" where
  "artifact_free m \<longleftrightarrow> (\<forall>k \<ge> uuid_ctr m. ''artifact_'' @ take 12 (uuids m k) \<notin> a_id ` set (artifacts m))"

lemma advance_alone_free:
  assumes "undisturbed O1" and "schema_ok (mem r)" and "task_state_of (mem r) tid = Some cur"
    and "cur \<notin> TERMINAL_STATES" and "dst \<in> allowed_table cur" and "dst \<noteq> cur" and "artifact_free (mem r)"
  shows "\<exists>r1. transition_to O1 tid dst r = (Inr dst, r1) \<and> schema_ok (mem r1)
    \<and> task_state_of (mem r1) tid = Some dst \<and> artifact_free (mem r1)"
proof -
  obtain m where t: "transition_to O1 tid dst r = (Inr dst, put_mem m r)" using transition_to_alone [OF assms(1-6)] by blast
  have d: "keys_distinct t_id (tasks (mem r))" using assms(2) by (simp add: schema_ok_def)
  have td: "transition_decide TASK_STATE_VOCAB tid dst ''router'' (Some tid) [] (Some cur) =
      Proceed dst (write_fields TASK_STATE_VOCAB [])
        (Some (mk_record TASK_STATE_VOCAB tid cur dst ''applied'' ''router'' (Some tid) [] None))"
    using assms(4-6) by (simp add: transition_decide_def is_terminal_def TASK_STATE_VOCAB_def allowed_def edge_get_def)
  have "put_mem m r = snd (transition_to O1 tid dst r)" by (simp add: t)
  then have "artifact_free (mem (put_mem m r))"
    using assms(1,3,7) td
    by (simp add: transition_to_def undisturbed_def transition_def transition_task_quiet [OF d] Let_def artifact_free_def
        insert_transition_log_def emit_bus_event_def draw_def)
  then show ?thesis using t transition_to_writes(1) [OF assms(2) t] transition_to_writes(3) [OF assms(2) t refl] by blast
qed

lemma create_task_fresh:
  assumes "schema_ok m" and "fresh_ids m"
  shows "\<exists>tid m1. create_task j ag m = (Inr tid, m1) \<and> schema_ok m1 \<and> task_state_of m1 tid = Some CREATED
    \<and> artifact_free m1"
proof -
  define tid where "tid = ''task_'' @ take 12 (uuids m (uuid_ctr m))"
  have free: "tid \<notin> t_id ` set (tasks m)" and af: "artifact_free m"
    using assms(2) by (auto simp: fresh_ids_def artifact_free_def tid_def)
  have n: "row_of t_id tid (tasks m) = None" using free by (simp only: row_of_None_iff simp_thms)
  define m0 where "m0 = snd (new_id ''task'' m)"
  have i: "new_id ''task'' m = (tid, m0)" by (simp add: m0_def new_id_def draw_def tid_def)
  have m0: "tasks m0 = tasks m" "artifacts m0 = artifacts m" "work_queue m0 = work_queue m" "uuids m0 = uuids m" "work_queue_deps m0 = work_queue_deps m"
    "uuid_ctr m \<le> uuid_ctr m0"
    by (simp_all add: m0_def new_id_def draw_def)
  from i free n af assms(1) m0 show ?thesis
    by (simp add: create_task_def schema_ok_def task_state_of_def artifact_free_def)
qed

lemma receive_alone:
  assumes u: "undisturbed O1" and ok: "schema_ok (mem r)" and fr: "fresh_ids (mem r)"
  shows "\<exists>tid r1. receive O1 sub r = (Inr tid, r1) \<and> schema_ok (mem r1) \<and> task_state_of (mem r1) tid = Some PRIVACY_CHECKED"
proof -
  obtain tid m1 where c: "create_task (o_dump_submission O1 sub) (ts_agent_type sub) (mem r) = (Inr tid, m1)"
    and m1: "schema_ok m1" "task_state_of m1 tid = Some CREATED" "artifact_free m1"
    using create_task_fresh [OF ok fr] by blast
  define r1 where "r1 = snd (append_line tid (''submitted agent_type='' @ show_opt (ts_agent_type sub)) ''info'' (put_mem m1 r))"
  have "schema_ok (mem r1)" "task_state_of (mem r1) tid = Some CREATED" "artifact_free (mem r1)"
    using m1 by (auto simp: r1_def append_line_def mod_db_def modify_def append_log_def artifact_free_def
        schema_ok_def task_state_of_def)
  then obtain r2 where r2: "transition_to O1 tid CLASSIFIED r1 = (Inr CLASSIFIED, r2)" "schema_ok (mem r2)"
    "task_state_of (mem r2) tid = Some CLASSIFIED" "artifact_free (mem r2)"
    using advance_alone_free [OF u, of r1 tid CREATED CLASSIFIED] by (auto simp: TERMINAL_STATES_def)
  obtain aid m3 where p: "put_artifact (Some tid) ''sanitized_payload'' (snd (redact_submission O1 sub)) ''text/plain'' (mem r2)
      = (Inr aid, m3)"
    using r2(4) by (simp add: put_artifact_def new_id_def draw_def artifact_free_def)
  have m3: "schema_ok m3" "task_state_of m3 tid = Some CLASSIFIED"
    using tame_put_artifact [unfolded tame_def] p r2(2,3) by (metis snd_conv)+
  define msg where "msg = ''privacy_class='' @ privacy_class_value (classify_submission O1 sub) @ '' cloud_safe=''
    @ show_bool (rr_cloud_safe (fst (redact_submission O1 sub))) @ '' redactions=''
    @ show_int (int (length (rr_redactions (fst (redact_submission O1 sub)))))
    @ '' lossiness='' @ rr_lossiness (fst (redact_submission O1 sub))"
  have cr: "on_db (create_task (o_dump_submission O1 sub) (ts_agent_type sub)) r = (Inr tid, put_mem m1 r)"
    using c by (simp add: on_db_def of_store_def)
  have ar: "append_line tid (''submitted agent_type='' @ show_opt (ts_agent_type sub)) ''info'' (put_mem m1 r) = (Inr (), r1)"
    by (simp add: r1_def append_line_def mod_db_def modify_def)
  have pr: "on_db (put_artifact (Some tid) ''sanitized_payload'' (snd (redact_submission O1 sub)) ''text/plain'') r2
      = (Inr aid, put_mem m3 r2)"
    using p by (simp add: on_db_def of_store_def)
  have msg: "receive O1 sub r = seq (append_line tid msg ''info'')
      (seq (set_task tid [(''privacy_class'', CText (privacy_class_value (classify_submission O1 sub)))])
      (seq (transition_to O1 tid PRIVACY_CHECKED) (ret tid))) (put_mem m3 r2)"
    unfolding receive_def Let_def case_prod_beta msg_def
    by (simp only: seq_def bnd_def cr ar r2(1) pr prod.case sum.case)
  let ?k = "seq (append_line tid msg ''info'')
      (set_task tid [(''privacy_class'', CText (privacy_class_value (classify_submission O1 sub)))])"
  obtain x r4 where r4: "?k (put_mem m3 r2) = (x, r4)" by fastforce
  have x: "x = Inr ()" using r4
    by (auto simp: seq_def bnd_def append_line_def mod_db_def modify_def set_task_def on_db_def of_store_def update_task_def Let_def)
  have "within_eff (calm tid) ?k" by (intro calmness.eff_seq calmly)
  from within_effD [OF this r4] have "schema_ok (mem r4)" "task_state_of (mem r4) tid = Some CLASSIFIED"
    using m3 by (auto simp: calm_def orderly_def)
  then obtain r5 where r5: "transition_to O1 tid PRIVACY_CHECKED r4 = (Inr PRIVACY_CHECKED, r5)" "schema_ok (mem r5)"
    "task_state_of (mem r5) tid = Some PRIVACY_CHECKED"
    using advance_alone [OF u, of r4 tid CLASSIFIED PRIVACY_CHECKED] by (auto simp: TERMINAL_STATES_def)
  have "receive O1 sub r = seq ?k (seq (transition_to O1 tid PRIVACY_CHECKED) (ret tid)) (put_mem m3 r2)"
    unfolding msg by (simp only: seq_assoc)
  also have "\<dots> = (Inr tid, r5)" using r4 x r5(1) by (simp add: seq_def bnd_def ret_def)
  finally show ?thesis using r5 by blast
qed

lemma reject_alone:
  assumes u: "undisturbed O1" and ok: "schema_ok (mem r)" and st: "task_state_of (mem r) tid = Some PRIVACY_CHECKED"
  shows "\<exists>sm r'. router_reject O1 tid a b r = (Inr sm, r') \<and> sm_status sm = REJECTED"
proof -
  obtain r1 where r1: "transition_to O1 tid REJECTED r = (Inr REJECTED, r1)" "schema_ok (mem r1)"
    "task_state_of (mem r1) tid = Some REJECTED"
    using advance_alone [OF assms, of REJECTED] by (auto simp: TERMINAL_STATES_def)
  obtain x r2 where r2: "note_outcome tid a b r1 = (x, r2)" by fastforce
  have "x = Inr ()" using r2
    by (auto simp: note_outcome_def set_task_def on_db_def of_store_def update_task_def Let_def)
  moreover have "task_state_of (mem r2) tid = Some REJECTED"
    using within_effD [OF calm_note_outcome [of tid] r2] r1 by (auto simp: calm_def)
  ultimately show ?thesis using r1(1) r2
    by (auto simp: router_reject_def seq_def bnd_def summary_of_def get_task_def task_state_of_def split: option.splits)
qed

lemma secret_submission_returns:
  assumes a: "o_threads O1 = no_threads \<and> o_peers O1 = (\<lambda>_. no_peers)" and c: "classify_submission O1 sub = secret_sensitive"
    and ok: "schema_ok (mem r)" and fr: "fresh_ids (mem r)"
  shows "\<exists>sm r'. submit_task O1 sub r = (Inr sm, r') \<and> sm_status sm = REJECTED
    \<and> task_state_of (mem r') (sm_task_id sm) = Some REJECTED"
proof -
  have u: "undisturbed O1" using a by (simp add: undisturbed_def)
  obtain tid r1 where t: "receive O1 sub r = (Inr tid, r1)" "schema_ok (mem r1)"
    "task_state_of (mem r1) tid = Some PRIVACY_CHECKED" using receive_alone [OF u ok fr] by blast
  obtain sm r' where p: "submit_task_pipeline O1 sub r = (Inr sm, r')" "sm_status sm = REJECTED"
    using reject_alone [OF u t(2,3)] t(1) c unfolding submit_task_pipeline_def bnd_def by fastforce
  moreover from p(1) have "submit_task O1 sub r = (Inr sm, r')" by (simp add: submit_task_def catch_def)
  moreover have "task_state_of (mem r') (sm_task_id sm) = Some REJECTED"
    using pipeline_outcome [OF _ ok p(1)] a p(2) by simp
  ultimately show ?thesis by blast
qed

text \<open>Secret material is fail-closed. A submission that is classified \<open>secret_sensitive\<close> calls nobody
  outside, whatever other processes do; and in a process of its own it returns a summary with the
  status REJECTED, which is stored, and reserves nothing.\<close>

theorem secret_submission_blocked:
  assumes "classify_submission O1 sub = secret_sensitive" and "schema_ok (mem r)" and "fresh_ids (mem r)"
  shows "rs_trace (snd (submit_task O1 sub r)) = rs_trace r
    \<and> (o_threads O1 = no_threads \<and> o_peers O1 = (\<lambda>_. no_peers) \<longrightarrow>
        (\<exists>sm r'. submit_task O1 sub r = (Inr sm, r') \<and> sm_status sm = REJECTED
           \<and> task_state_of (mem r') (sm_task_id sm) = Some REJECTED))"
  using submit_secret_silent [OF assms(1)] secret_submission_returns [OF _ assms]
  by (simp add: within_eff_def silent_def)

lemma demo_secret_ready:
  "classify_submission peerless (demo_task ''oneshot'' (Some secret_sensitive)) = secret_sensitive"
  "schema_ok (mem (demo_router demo_cloud))" "fresh_ids (mem (demo_router demo_cloud))"
  "o_threads peerless = no_threads" "o_peers peerless = (\<lambda>_. no_peers)"
  by (simp_all add: classify_submission_def classify_def demo_task_def demo_router_def schema_ok_def fresh_ids_def
      empty_db_def demo_outside_def)

theorem secret_submission_witness:
  "\<exists>sm r'. submit_task peerless (demo_task ''oneshot'' (Some secret_sensitive)) (demo_router demo_cloud) = (Inr sm, r')
     \<and> sm_status sm = REJECTED"
  using secret_submission_blocked [OF demo_secret_ready(1-3)] demo_secret_ready(4,5) by blast

theorem submit_reports_witness:
  "\<exists>sm r'. submit_task peerless (demo_task ''oneshot'' (Some secret_sensitive)) (demo_router demo_cloud) = (Inr sm, r')
     \<and> task_state_of (mem r') (sm_task_id sm) = Some (sm_status sm)"
  using secret_submission_returns [OF conjI [OF demo_secret_ready(4,5)] demo_secret_ready(1-3)]
    submit_reports_stored_state [OF demo_secret_ready(4,2)] by blast

end
