(* ===== verification/Core_Models.thy ===== *)
theory Core_Models
  imports Prelude "HOL-Library.Char_ord" "HOL-Library.List_Lexorder"
begin

text \<open>
  The data model of the task ledger (\<^verbatim>\<open>core/models.py\<close>) and the errors its service raises
  (\<^verbatim>\<open>core/errors.py\<close>). An error is its class: the text of the message is not modelled;
  \<open>Integrity\<close> is the error of the database, \<open>RecursionLimit\<close> that of the interpreter and \<open>Validation\<close>
  that of the data classes. Python
  dictionaries of strings (environments) are association lists with one entry per key, in the
  order of insertion.
\<close>

section \<open>Errors\<close>

datatype core_error =
    NotFound | Conflict | Unauthenticated | PolicyViolation | InvalidRequest | Integrity
  | RecursionLimit | Validation | Transition exc

section \<open>Enumerations\<close>

datatype task_status =
    TsQueued | TsInProgress | TsBlocked | TsNeedsReview | TsNeedsApproval | TsSucceeded | TsFailed
  | TsCancelled

definition TERMINAL_TASK_STATUSES :: "task_status list" where
  "TERMINAL_TASK_STATUSES = [TsSucceeded, TsFailed, TsCancelled]"

datatype claim_role =
    PrimaryManager | ReviewerRole | Planner | Implementer | Observer | HumanOwner | WorkerDelegate

definition DECISION_AUTHORITY_ROLES :: "claim_role list" where
  "DECISION_AUTHORITY_ROLES = [HumanOwner]"

datatype review_status = RvOpen | RvClaimed | RvInProgress | RvCompleted | RvRejected | RvCancelled

datatype subtask_status =
    StQueued | StRunning | StSucceeded | StFailed | StCancelled | StNeedsApproval | StBlocked

datatype run_status = RnRunning | RnSucceeded | RnFailed | RnCancelled

datatype approval_status = ApPending | ApGranted | ApDenied | ApExpired

datatype session_status = SnPrepared | SnRunning | SnEnded | SnFailed | SnAbandoned

datatype session_mode = SmManager | SmReviewer | SmReadonly | SmOperator

primrec session_mode_value :: "session_mode \<Rightarrow> string" where
  "session_mode_value SmManager = ''manager''"
| "session_mode_value SmReviewer = ''reviewer''"
| "session_mode_value SmReadonly = ''readonly''"
| "session_mode_value SmOperator = ''operator''"

definition is_managed_agent :: "session_mode \<Rightarrow> bool" where
  "is_managed_agent m \<longleftrightarrow> m \<noteq> SmOperator"

datatype privacy_tier = TierPublic | PublicRedacted | RepoSensitive | SecretSensitive | LocalOnly

primrec PRIVACY_STRICTNESS :: "privacy_tier \<Rightarrow> nat" where
  "PRIVACY_STRICTNESS TierPublic = 0"
| "PRIVACY_STRICTNESS PublicRedacted = 1"
| "PRIVACY_STRICTNESS RepoSensitive = 2"
| "PRIVACY_STRICTNESS LocalOnly = 3"
| "PRIVACY_STRICTNESS SecretSensitive = 4"

text \<open>\<open>max\<close> with a key keeps the first of the elements with the greatest key.\<close>

fun max_key :: "('a \<Rightarrow> nat) \<Rightarrow> 'a \<Rightarrow> 'a list \<Rightarrow> 'a" where
  "max_key k best [] = best"
| "max_key k best (x # xs) = max_key k (if k best < k x then x else best) xs"

definition strictest :: "privacy_tier list \<Rightarrow> privacy_tier" where
  "strictest tiers =
    (case tiers of [] \<Rightarrow> TierPublic | t # ts \<Rightarrow> max_key PRIVACY_STRICTNESS t ts)"

primrec privacy_tier_value :: "privacy_tier \<Rightarrow> string" where
  "privacy_tier_value TierPublic = ''public''"
| "privacy_tier_value PublicRedacted = ''public_redacted''"
| "privacy_tier_value RepoSensitive = ''repo_sensitive''"
| "privacy_tier_value SecretSensitive = ''secret_sensitive''"
| "privacy_tier_value LocalOnly = ''local_only''"

definition SOURCE_PRODUCTS :: "string list" where
  "SOURCE_PRODUCTS = [''agentconnect'', ''brainconnect'', ''toolconnect'', ''computeconnect'']"

datatype filesystem_access = FsNone | FsReadonly | FsWorkspaceWrite

primrec FS_ORDER :: "filesystem_access \<Rightarrow> nat" where
  "FS_ORDER FsNone = 0"
| "FS_ORDER FsReadonly = 1"
| "FS_ORDER FsWorkspaceWrite = 2"

datatype worker_location = LocLocal | LocCloud | LocRented

primrec worker_location_value :: "worker_location \<Rightarrow> string" where
  "worker_location_value LocLocal = ''local''"
| "worker_location_value LocCloud = ''cloud''"
| "worker_location_value LocRented = ''rented''"

section \<open>Value types\<close>

record sandbox_spec =
  sb_filesystem :: filesystem_access
  sb_network :: bool
  sb_shell :: bool

definition satisfied_by :: "sandbox_spec \<Rightarrow> sandbox_spec \<Rightarrow> bool" where
  "satisfied_by self offered \<longleftrightarrow>
    FS_ORDER (sb_filesystem self) \<le> FS_ORDER (sb_filesystem offered)
    \<and> (sb_network offered \<or> \<not> sb_network self)
    \<and> (sb_shell offered \<or> \<not> sb_shell self)"

section \<open>Routes and subtasks\<close>

text \<open>
  The metadata keys \<open>blocked_on\<close> and \<open>dependency_failed\<close>, which the ledger itself maintains, are
  fields of a subtask of their own. The reason a worker was rejected carries what its sentence
  quotes. A route explanation is the
  record \<open>RouteExplanation\<close>; a nested estimate of an external manager is its columns.
\<close>

datatype gate = GHealthy | GPrivacy | GCapability | GSandbox | GBudget | GApproval

datatype gate_reason =
    Unavailable string
  | TierRefused privacy_tier worker_location "privacy_tier list"
  | MissingCapabilities "string list"
  | SandboxExceeds sandbox_spec
  | OverCeiling real real
  | OverTotalCap real real real
  | ApprovalRequired worker_location

record rejected_worker =
  rej_worker :: string
  rej_reason :: gate_reason
  rej_gate :: gate

record route_explanation =
  rx_subtask_id :: string
  rx_selected_worker :: "string option"
  rx_selected_harness :: "string option"
  rx_selected_model :: "string option"
  rx_hard_gates :: "gate list"
  rx_score_terms :: "(string \<times> real) list"
  rx_total_score :: real
  rx_estimated_cost_usd :: real
  rx_rejected_workers :: "rejected_worker list"
  rx_worker_type :: "string option"
  rx_local_estimate :: "(string \<times> col) list option"
  rx_needs_approval :: bool
  rx_approval_candidate :: "string option"
  rx_approval_reason :: "gate_reason option"
  rx_approval_location :: "worker_location option"
  rx_selected_location :: "worker_location option"

record subtask =
  sub_id :: string
  sub_parent_task_id :: string
  sub_title :: string
  sub_instructions :: string
  sub_status :: subtask_status
  sub_privacy_tier :: privacy_tier
  sub_preferred_worker :: "string option"
  sub_assigned_worker :: "string option"
  sub_created_at :: real
  sub_updated_at :: real
  sub_result_artifact_id :: "string option"
  sub_route_reason :: "route_explanation option"
  sub_sandbox :: sandbox_spec
  sub_required_capabilities :: "string list"
  sub_approved_by :: "string option"
  sub_approved_max_cost_usd :: "real option"
  sub_metadata :: "(string \<times> col) list"
  sub_blocked_on :: "string list"
  sub_dependency_failed :: "string option"
  sub_depends_on :: "string list"

section \<open>Lemmas\<close>

lemma satisfied_by_refl [simp]: "satisfied_by s s"
  by (simp add: satisfied_by_def)

lemma satisfied_by_trans: "satisfied_by a b \<Longrightarrow> satisfied_by b c \<Longrightarrow> satisfied_by a c"
  by (auto simp: satisfied_by_def)

lemma max_key_greatest: "x \<in> set (t # ts) \<Longrightarrow> k x \<le> k (max_key k t ts)"
proof (induction ts arbitrary: t x)
  case Nil
  then show ?case by simp
next
  case (Cons y ts)
  let ?b = "if k t < k y then y else t"
  have "k ?b \<le> k (max_key k ?b ts)" by (rule Cons.IH) simp
  then show ?case using Cons.IH[of x ?b] Cons.prems by (auto split: if_splits)
qed

lemma max_key_mem: "max_key k t ts \<in> set (t # ts)"
proof (induction ts arbitrary: t)
  case (Cons y ts)
  then show ?case using Cons.IH[of "if k t < k y then y else t"] by (auto split: if_splits)
qed simp

lemma strictest_bound: "t \<in> set tiers \<Longrightarrow> PRIVACY_STRICTNESS t \<le> PRIVACY_STRICTNESS (strictest tiers)"
  by (cases tiers) (auto simp: strictest_def intro: max_key_greatest)

end
