(* ===== verification/Sessions.thy ===== *)
theory Sessions
  imports Core_Models
begin

text \<open>
  Session credentials (\<^verbatim>\<open>core/sessions.py\<close> and the token operations of \<^verbatim>\<open>core/service.py\<close>):
  which actions a mode grants, the environment a launched agent inherits, the file its session
  variables are written to, and the table of hashed tokens with the one authorization rule
  \<open>authorize\<close>. The hash and the random plaintexts and identifiers are arguments.
\<close>

section \<open>Actions\<close>

definition ORIENTATION_ACTIONS :: "string list" where
  "ORIENTATION_ACTIONS =
    [''get_task_context_pack'', ''list_artifacts'', ''read_artifact_chunk'', ''get_task'', ''get_status'']"

definition MANAGER_ACTIONS :: "string list" where
  "MANAGER_ACTIONS = ORIENTATION_ACTIONS @
    [''create_task'', ''claim_task'', ''record_attempt'', ''record_decision'',
     ''submit_subtask'', ''get_subtask_status'', ''explain_route'', ''decide_route'',
     ''get_handoff_summary'',
     ''request_review'', ''release_task'', ''register_artifact'', ''add_constraint'',
     ''recall_memory'', ''capture_memory_candidate'', ''record_memory_feedback'',
     ''authorize_tool'']"

definition REVIEWER_ACTIONS :: "string list" where
  "REVIEWER_ACTIONS = ORIENTATION_ACTIONS @
    [''claim_review'', ''record_attempt'', ''get_review'', ''complete_review'',
     ''recall_memory'', ''get_handoff_summary'']"

definition READONLY_ACTIONS :: "string list" where
  "READONLY_ACTIONS = ORIENTATION_ACTIONS @ [''get_subtask_status'', ''get_review'', ''explain_route'']"

definition OPERATOR_ACTIONS :: "string list" where
  "OPERATOR_ACTIONS = MANAGER_ACTIONS @ REVIEWER_ACTIONS @
    [''complete_task'', ''force_complete_task'', ''cancel_subtask'',
     ''approve_subtask'', ''deny_subtask'', ''grant_approval'',
     ''promote_memory_candidate'', ''list_pending_memory'',
     ''launch_session'', ''end_session'', ''list_sessions'', ''list_workspaces'',
     ''audit_task'', ''audit_review'', ''list_tasks'', ''get_inbox'',
     ''linear_sync'', ''temporal_signal'', ''get_execution_status'',
     ''list_events'', ''observe_tree'']"

primrec ACTIONS_BY_MODE :: "session_mode \<Rightarrow> string list" where
  "ACTIONS_BY_MODE SmManager = MANAGER_ACTIONS"
| "ACTIONS_BY_MODE SmReviewer = REVIEWER_ACTIONS"
| "ACTIONS_BY_MODE SmReadonly = READONLY_ACTIONS"
| "ACTIONS_BY_MODE SmOperator = OPERATOR_ACTIONS"

definition AGENT_FORBIDDEN_ACTIONS :: "string list" where
  "AGENT_FORBIDDEN_ACTIONS =
    [''complete_task'', ''force_complete_task'',
     ''promote_memory_candidate'', ''wikibrain_promote'', ''wikibrain_admin'',
     ''brainconnect_promote'', ''brainconnect_admin'',
     ''cognee_write'', ''graphiti_write'',
     ''temporal_signal'', ''temporal_admin'', ''workflow_terminate'',
     ''local_model_generate'', ''secrets_read'', ''admin_settings'',
     ''grant_approval'', ''approve_subtask'', ''deny_subtask'']"

definition NEVER_TOKEN_ACTIONS :: "string list" where
  "NEVER_TOKEN_ACTIONS =
    [''wikibrain_promote'', ''wikibrain_admin'', ''brainconnect_promote'', ''brainconnect_admin'',
     ''cognee_write'', ''graphiti_write'',
     ''temporal_admin'', ''workflow_terminate'', ''local_model_generate'',
     ''secrets_read'', ''admin_settings'']"

definition PUBLISH_EVENT_ACTION :: string where
  "PUBLISH_EVENT_ACTION = ''publish_event''"

definition actions_for :: "session_mode \<Rightarrow> string list" where
  "actions_for mode = ACTIONS_BY_MODE mode"

section \<open>The environment of an agent\<close>

definition SECRET_DENYLIST :: "string list" where
  "SECRET_DENYLIST =
    [''OPENAI_API_KEY'', ''ANTHROPIC_API_KEY'', ''GOOGLE_API_KEY'', ''LINEAR_API_KEY'',
     ''LINEAR_WEBHOOK_SECRET'',
     ''TEMPORAL_ADDRESS'', ''TEMPORAL_NAMESPACE'', ''TEMPORAL_CLIENT_CERT'',
     ''TEMPORAL_CLIENT_KEY'',
     ''WIKIBRAIN_ADMIN_TOKEN'', ''WIKIBRAIN_WRITE_TOKEN'',
     ''COGNEE_WRITE_TOKEN'', ''GRAPHITI_WRITE_TOKEN'',
     ''LOCAL_MODEL_MANAGER_TOKEN'',
     ''AWS_ACCESS_KEY_ID'', ''AWS_SECRET_ACCESS_KEY'', ''AZURE_CLIENT_SECRET'',
     ''GCP_SERVICE_ACCOUNT'', ''SECRETS_MANAGER_TOKEN'']"

text \<open>
  The expression \<open>(^|_)(API_KEY|...)($|_)\<close>, searched anywhere: \<open>$\<close> also holds before a final
  line feed.
\<close>

definition SECRET_WORDS :: "string list" where
  "SECRET_WORDS =
    [''API_KEY'', ''APIKEY'', ''SECRET'', ''TOKEN'', ''PASSWORD'', ''PASSWD'', ''CREDENTIALS'', ''PRIVATE_KEY'']"

definition word_end :: "string \<Rightarrow> bool" where
  "word_end r \<longleftrightarrow>
    (case r of [] \<Rightarrow> True | c # t \<Rightarrow> c = CHR ''_'' \<or> c = CHR 0x0A \<and> t = [])"

definition secret_word_at :: "string \<Rightarrow> bool" where
  "secret_word_at s \<longleftrightarrow>
    list_ex (\<lambda>w. starts_with w s \<and> word_end (drop (length w) s)) SECRET_WORDS"

fun secret_word_after :: "string \<Rightarrow> bool" where
  "secret_word_after [] \<longleftrightarrow> False"
| "secret_word_after (c # s) \<longleftrightarrow> c = CHR ''_'' \<and> secret_word_at s \<or> secret_word_after s"

definition SECRETISH :: "string \<Rightarrow> bool" where
  "SECRETISH s \<longleftrightarrow> secret_word_at s \<or> secret_word_after s"

definition is_secretish :: "string \<Rightarrow> bool" where
  "is_secretish name =
    (let upper = py_upper name in upper \<in> set SECRET_DENYLIST \<or> SECRETISH upper)"

definition BASE_ALLOWLIST :: "string list" where
  "BASE_ALLOWLIST =
    [''PATH'', ''HOME'', ''SHELL'', ''TERM'', ''LANG'', ''LC_ALL'', ''USER'', ''LOGNAME'', ''TMPDIR'', ''TZ'']"

definition SESSION_VARS :: "string list" where
  "SESSION_VARS =
    [''AGENTCONNECT_API_URL'', ''AGENTCONNECT_TASK_ID'', ''AGENTCONNECT_REVIEW_ID'',
     ''AGENTCONNECT_MANAGER_ID'', ''AGENTCONNECT_WORKSPACE_ID'', ''AGENTCONNECT_SESSION_ID'',
     ''AGENTCONNECT_SESSION_TOKEN'', ''AGENTCONNECT_MODE'']"

definition FORWARDED_CONFIG_VARS :: "string list" where
  "FORWARDED_CONFIG_VARS =
    [''AGENTCONNECT_DB_PATH'', ''AGENTCONNECT_ARTIFACT_DIR'', ''AGENTCONNECT_WORKSPACE_DIR'',
     ''AGENTCONNECT_MEMORY_CONFIG'', ''AGENTCONNECT_WORKERS'', ''AGENTCONNECT_MAX_COST_USD'',
     ''AGENTCONNECT_API_HOST'', ''AGENTCONNECT_API_PORT'']"

definition ALLOW_ENV_VAR :: string where
  "ALLOW_ENV_VAR = ''AGENTCONNECT_SHELL_ALLOW_ENV''"

type_synonym env = "(string \<times> string) list"

definition env_get :: "env \<Rightarrow> string \<Rightarrow> string" where
  "env_get e k = (case map_of e k of None \<Rightarrow> [] | Some v \<Rightarrow> v)"

definition dict_update :: "env \<Rightarrow> env \<Rightarrow> env" where
  "dict_update d e = fold (\<lambda>(k, v). AList.update k v) e d"

definition forwarded_config :: "env \<Rightarrow> env" where
  "forwarded_config environ =
    map (\<lambda>n. (n, env_get environ n)) (filter (\<lambda>n. env_get environ n \<noteq> []) FORWARDED_CONFIG_VARS)"

definition extra_allowed :: "env \<Rightarrow> string list" where
  "extra_allowed environ =
    map py_strip (filter (\<lambda>n. py_strip n \<noteq> []) (py_split (CHR '','') (env_get environ ALLOW_ENV_VAR)))"

definition extras :: "env \<Rightarrow> string list option \<Rightarrow> string list" where
  "extras environ extra_allow =
    (case extra_allow of None \<Rightarrow> extra_allowed environ
     | Some xs \<Rightarrow> if xs = [] then extra_allowed environ else xs)"

definition helper_path :: "string \<Rightarrow> env \<Rightarrow> string" where
  "helper_path helper_bin clean = py_rstrip (CHR '':'') (helper_bin @ '':'' @ env_get clean ''PATH'')"

definition sanitize_env ::
  "env \<Rightarrow> env \<Rightarrow> string list option \<Rightarrow> string option \<Rightarrow> exc + env" where
  "sanitize_env environ session_env extra_allow helper_bin =
    (case find is_secretish (extras environ extra_allow) of
       Some name \<Rightarrow> Inl (ValueError name)
     | None \<Rightarrow>
         let allowed = BASE_ALLOWLIST @ extras environ extra_allow;
             clean = filter (\<lambda>(k, v). k \<in> set allowed \<and> \<not> is_secretish k) environ;
             clean1 = dict_update clean (forwarded_config environ);
             clean2 = dict_update clean1 (filter (\<lambda>(k, v). v \<noteq> []) session_env);
             hb = str_or helper_bin []
         in Inr (if hb = [] then clean2 else AList.update ''PATH'' (helper_path hb clean2) clean2))"

definition session_env_vars ::
  "string \<Rightarrow> string option \<Rightarrow> string option \<Rightarrow> string \<Rightarrow> string option \<Rightarrow> string \<Rightarrow> string option
    \<Rightarrow> session_mode \<Rightarrow> env" where
  "session_env_vars api_url task_id review_id manager_id workspace_id session_id token mode =
    [(''AGENTCONNECT_API_URL'', api_url),
     (''AGENTCONNECT_TASK_ID'', str_or task_id []),
     (''AGENTCONNECT_REVIEW_ID'', str_or review_id []),
     (''AGENTCONNECT_MANAGER_ID'', manager_id),
     (''AGENTCONNECT_WORKSPACE_ID'', str_or workspace_id []),
     (''AGENTCONNECT_SESSION_ID'', session_id),
     (''AGENTCONNECT_SESSION_TOKEN'', str_or token []),
     (''AGENTCONNECT_MODE'', session_mode_value mode)]"

definition ENV_HEADER :: "string list" where
  "ENV_HEADER =
    [''# Written by `agentconnect launch`. Mode 0600: it holds a session token.'',
     ''# AgentConnect is the source of truth. See AGENTCONNECT.md.'']"

definition env_lines :: "env \<Rightarrow> string list" where
  "env_lines e = map (\<lambda>name. name @ ''='' @ env_get e name) SESSION_VARS"

definition render_env_file :: "env \<Rightarrow> string" where
  "render_env_file e = concat (map (\<lambda>l. l @ [CHR 0x0A]) (ENV_HEADER @ env_lines e))"

definition parse_line :: "string \<Rightarrow> env \<Rightarrow> env" where
  "parse_line raw_line e =
    (let line = py_strip raw_line
     in if line = [] \<or> starts_with ''#'' line \<or> CHR ''='' \<notin> set line then e
        else (case py_partition (CHR ''='') line of
                (key, value) \<Rightarrow> AList.update (py_strip key) (py_strip value) e))"

definition parse_env_file :: "string \<Rightarrow> env" where
  "parse_env_file text = fold parse_line (py_splitlines text) []"

section \<open>What an agent inherits\<close>

lemma map_of_dict_update: "map_of (dict_update d e) k =
    (case map_of (rev e) k of None \<Rightarrow> map_of d k | Some v \<Rightarrow> Some v)"
  unfolding dict_update_def
  by (induction e arbitrary: d)
     (auto simp: update_conv' map_of_append map_add_def split: option.splits)

lemma map_of_filter_key: "map_of (filter (\<lambda>(k, v). P k) e) k = (if P k then map_of e k else None)"
  by (induction e) auto

lemma map_of_rev_SomeD: "map_of (rev e) k = Some v \<Longrightarrow> (k, v) \<in> set e"
  by (auto dest: map_of_SomeD)

lemma forwarded_mem:
  "(k, v) \<in> set (forwarded_config environ) \<Longrightarrow>
    k \<in> set FORWARDED_CONFIG_VARS \<and> map_of environ k = Some v"
  by (auto simp: forwarded_config_def env_get_def split: option.splits)

lemma py_upper_capitals:
  "list_all (\<lambda>c. c = CHR ''_'' \<or> (64::nat) < of_char c \<and> (of_char c :: nat) < 91) s \<Longrightarrow> py_upper s = s"
  by (induction s) (auto simp: py_upper_def py_upper_char_def)

lemma plain_names:
  "list_all (\<lambda>n. \<not> is_secretish n) (''PATH'' # FORWARDED_CONFIG_VARS @ removeAll ''AGENTCONNECT_SESSION_TOKEN'' SESSION_VARS)"
proof -
  let ?N = "''PATH'' # FORWARDED_CONFIG_VARS @ removeAll ''AGENTCONNECT_SESSION_TOKEN'' SESSION_VARS"
  have up: "list_all (\<lambda>n. py_upper n = n) ?N"
    by (simp add: FORWARDED_CONFIG_VARS_def SESSION_VARS_def py_upper_capitals)
  have "list_all (\<lambda>n. n \<notin> set SECRET_DENYLIST \<and> \<not> SECRETISH n) ?N"
    by code_simp
  with up show ?thesis by (simp add: list_all_iff is_secretish_def)
qed

lemma session_env_names: "map fst (session_env_vars a t r m w s tok mode) = SESSION_VARS"
  by (simp add: session_env_vars_def SESSION_VARS_def)

lemma session_env_token:
  "(''AGENTCONNECT_SESSION_TOKEN'', v) \<in> set (session_env_vars a t r m w s tok mode) \<Longrightarrow> v = str_or tok []"
  by (simp add: session_env_vars_def)

lemma sanitize_env_origin:
  assumes "sanitize_env environ session_env extra_allow helper_bin = Inr e" "map_of e k = Some v"
  shows "(k, v) \<in> set session_env
    \<or> k \<in> set FORWARDED_CONFIG_VARS \<and> map_of environ k = Some v
    \<or> k \<in> set (BASE_ALLOWLIST @ extras environ extra_allow) \<and> \<not> is_secretish k \<and> map_of environ k = Some v
    \<or> k = ''PATH''"
proof -
  define clean where "clean = filter (\<lambda>(k, v). k \<in> set (BASE_ALLOWLIST @ extras environ extra_allow)
    \<and> \<not> is_secretish k) environ"
  define clean2 where "clean2 = dict_update (dict_update clean (forwarded_config environ))
    (filter (\<lambda>(k, v). v \<noteq> []) session_env)"
  have e: "e = clean2 \<or> (\<exists>w. e = AList.update ''PATH'' w clean2)"
    using assms(1) unfolding sanitize_env_def Let_def clean_def[symmetric] clean2_def[symmetric]
    by (auto split: option.splits if_splits)
  show ?thesis
  proof (cases "k = ''PATH''")
    case False
    with e assms(2) have "map_of clean2 k = Some v" by (auto simp: update_conv')
    then consider "(k, v) \<in> set session_env" | "(k, v) \<in> set (forwarded_config environ)"
      | "map_of clean k = Some v"
      by (auto simp: clean2_def map_of_dict_update split: option.splits dest!: map_of_rev_SomeD)
    then show ?thesis
      by cases (auto simp: clean_def map_of_filter_key dest: forwarded_mem split: if_splits)
  qed simp
qed

text \<open>
  The environment of a launched agent. Whatever the operator's own environment and opt-in
  list hold, each variable of the agent's environment is a variable of its session, one of the
  forwarded configuration paths, an allowed variable with a name that does not look like a
  credential, or the search path; the one variable whose name looks like a credential is the
  session token, with the token minted for this session as its value.
\<close>

theorem agent_environment_clean:
  assumes "sanitize_env environ (session_env_vars api_url task_id review_id manager_id workspace_id
             session_id token mode) extra_allow helper_bin = Inr e"
    and "map_of e k = Some v"
  shows "(k \<in> set (SESSION_VARS @ [''PATH''])
       \<or> map_of environ k = Some v
         \<and> k \<in> set (FORWARDED_CONFIG_VARS @ BASE_ALLOWLIST @ extras environ extra_allow))
    \<and> (is_secretish k \<longrightarrow> k = ''AGENTCONNECT_SESSION_TOKEN'' \<and> v = str_or token [])"
proof -
  let ?S = "session_env_vars api_url task_id review_id manager_id workspace_id session_id token mode"
  have mem: "(k, v) \<in> set ?S \<Longrightarrow> k \<in> set SESSION_VARS"
    using session_env_names[of api_url task_id review_id manager_id workspace_id session_id token mode]
    by (metis fst_conv image_eqI set_map)
  from plain_names have plain: "\<And>n. n = ''PATH'' \<or> n \<in> set FORWARDED_CONFIG_VARS
      \<or> n \<in> set SESSION_VARS \<and> n \<noteq> ''AGENTCONNECT_SESSION_TOKEN'' \<Longrightarrow> \<not> is_secretish n"
    unfolding list_all_iff by auto
  from sanitize_env_origin[OF assms] show ?thesis
  proof (elim disjE)
    assume "(k, v) \<in> set ?S"
    with mem plain session_env_token show ?thesis by (metis UnCI set_append)
  qed (use plain in auto)
qed

text \<open>The sanitizer refuses a launch exactly when an opted-in name looks like a credential.\<close>

lemma sanitize_env_refuses:
  "(\<exists>x. sanitize_env environ session_env extra_allow helper_bin = Inl x) \<longleftrightarrow>
    (\<exists>n \<in> set (extras environ extra_allow). is_secretish n)"
  by (auto simp: sanitize_env_def Let_def find_None_iff find_Some_iff split: option.splits)

section \<open>The environment file\<close>

definition clean_value :: "string \<Rightarrow> bool" where
  "clean_value v \<longleftrightarrow> py_strip v = v \<and> list_all (\<lambda>c. \<not> line_break c) v"

lemma splitlines_line:
  "list_all (\<lambda>c. \<not> line_break c) l \<Longrightarrow> py_splitlines (l @ CHR 0x0A # rest) = l # py_splitlines rest"
  by (induction l) (auto simp: line_break_def split: list.splits)

lemma splitlines_lines:
  "list_all (list_all (\<lambda>c. \<not> line_break c)) ls \<Longrightarrow>
    py_splitlines (concat (map (\<lambda>l. l @ [CHR 0x0A]) ls)) = ls"
  by (induction ls) (simp_all add: splitlines_line)

lemma py_strip_id:
  assumes "s \<noteq> []" "\<not> py_space (hd s)" "\<not> py_space (last s)"
  shows "py_strip s = s"
proof -
  have "dropWhile py_space s = s" using assms by (cases s) auto
  moreover have "dropWhile py_space (rev s) = rev s"
    using assms by (cases s rule: rev_cases) auto
  ultimately show ?thesis by (simp add: py_strip_def)
qed

lemma py_strip_last: "py_strip v = v \<Longrightarrow> v \<noteq> [] \<Longrightarrow> \<not> py_space (last v)"
  by (metis hd_dropWhile hd_rev last_rev py_strip_def rev_is_Nil_conv rev_rev_ident)

lemma py_strip_capitals:
  "list_all (\<lambda>c. \<not> py_space c) s \<Longrightarrow> py_strip s = s"
  by (cases "s = []") (auto simp: py_strip_id list_all_iff, simp add: py_strip_def)

lemma py_partition_pair:
  "list_all (\<lambda>c. c \<noteq> sep) a \<Longrightarrow> py_partition sep (a @ sep # b) = (a, b)"
  by (induction a) (auto simp: py_partition_def)

definition plain_name :: "string \<Rightarrow> bool" where
  "plain_name n \<longleftrightarrow> n \<noteq> [] \<and> list_all (\<lambda>c. \<not> py_space c \<and> \<not> line_break c \<and> c \<noteq> CHR ''='' \<and> c \<noteq> CHR ''#'') n"

lemma parse_env_line:
  assumes "plain_name n" "py_strip v = v"
  shows "parse_line (n @ ''='' @ v) e = AList.update n v e"
proof -
  let ?l = "n @ CHR ''='' # v"
  have n: "n \<noteq> []" "list_all (\<lambda>c. \<not> py_space c) n" "list_all (\<lambda>c. c \<noteq> CHR ''='') n" "hd n \<noteq> CHR ''#''"
    using assms(1) by (auto simp: plain_name_def list_all_iff)
  have "\<not> py_space (last ?l)"
    using py_strip_last[OF assms(2)] by (cases "v = []") (auto simp: py_space_def)
  moreover have "\<not> py_space (hd ?l)" using n by (cases n) auto
  ultimately have strip: "py_strip ?l = ?l" by (intro py_strip_id) simp_all
  have "\<not> starts_with ''#'' ?l" using n by (cases n) (auto simp: starts_with_def)
  then show ?thesis
    by (simp add: parse_line_def Let_def strip py_partition_pair[OF n(3)] py_strip_capitals[OF n(2)] assms(2))
qed

lemma fold_update_fresh:
  "distinct (map fst kvs @ map fst e) \<Longrightarrow> fold (\<lambda>(k, v). AList.update k v) kvs e = e @ kvs"
proof (induction kvs arbitrary: e)
  case (Cons kv kvs)
  obtain k v where kv: "kv = (k, v)" by (cases kv)
  have "k \<notin> fst ` set e \<Longrightarrow> AList.update k v e = e @ [(k, v)]"
    by (induction e) auto
  with Cons kv show ?case by auto
qed simp

lemma session_vars_plain: "list_all plain_name SESSION_VARS"
  by (simp add: SESSION_VARS_def plain_name_def py_space_def line_break_def)

lemma session_vars_distinct: "distinct SESSION_VARS"
  by (simp add: SESSION_VARS_def)

lemma parse_header: "parse_line l e = e" if "l \<in> set ENV_HEADER" for l
proof -
  have "py_strip l = l" using that by (auto simp: ENV_HEADER_def intro!: py_strip_id) (simp_all add: py_space_def)
  with that show ?thesis by (auto simp: ENV_HEADER_def parse_line_def starts_with_def)
qed

lemma header_no_breaks: "list_all (list_all (\<lambda>c. \<not> line_break c)) ENV_HEADER"
  by (simp add: ENV_HEADER_def line_break_def)

lemma fold_parse_lines:
  assumes "list_all plain_name ns" "list_all (\<lambda>n. py_strip (f n) = f n) ns"
  shows "fold parse_line (map (\<lambda>n. n @ ''='' @ f n) ns) e =
    fold (\<lambda>(k, v). AList.update k v) (map (\<lambda>n. (n, f n)) ns) e"
  using assms by (induction ns arbitrary: e) (simp_all add: parse_env_line[simplified])

lemma render_lines_no_breaks:
  assumes "list_all plain_name ns" "list_all (\<lambda>n. list_all (\<lambda>c. \<not> line_break c) (f n)) ns"
  shows "list_all (list_all (\<lambda>c. \<not> line_break c)) (map (\<lambda>n. n @ ''='' @ f n) ns)"
proof -
  have "\<not> line_break (CHR ''='')" by (simp add: line_break_def)
  with assms show ?thesis by (auto simp: list_all_iff plain_name_def)
qed

text \<open>
  The environment file of a session. Reading back the file that a launch writes gives each
  session variable the value it was written with, in the order of the file, whenever the values
  hold no line break and no white space at their ends.
\<close>

theorem env_file_roundtrip:
  assumes "list_all (\<lambda>n. clean_value (env_get e n)) SESSION_VARS"
  shows "parse_env_file (render_env_file e) = map (\<lambda>n. (n, env_get e n)) SESSION_VARS"
proof -
  have v: "list_all (\<lambda>n. list_all (\<lambda>c. \<not> line_break c) (env_get e n)) SESSION_VARS"
    "list_all (\<lambda>n. py_strip (env_get e n) = env_get e n) SESSION_VARS"
    using assms by (auto simp: clean_value_def list_all_iff)
  have "py_splitlines (render_env_file e) = ENV_HEADER @ env_lines e"
    unfolding render_env_file_def
    using header_no_breaks render_lines_no_breaks[OF session_vars_plain v(1)]
    by (intro splitlines_lines) (simp add: env_lines_def)
  then have "parse_env_file (render_env_file e) = fold parse_line (env_lines e) (fold parse_line ENV_HEADER [])"
    by (simp add: parse_env_file_def)
  also have "fold parse_line ENV_HEADER [] = []"
    by (simp add: ENV_HEADER_def parse_header[unfolded ENV_HEADER_def])
  also have "fold parse_line (env_lines e) [] = map (\<lambda>n. (n, env_get e n)) SESSION_VARS"
    unfolding env_lines_def fold_parse_lines[OF session_vars_plain v(2)]
    using session_vars_distinct by (subst fold_update_fresh) (simp_all add: comp_def)
  finally show ?thesis .
qed

section \<open>Tokens\<close>

record token_scope =
  sc_session_id :: string
  sc_manager_id :: string
  sc_mode :: string
  sc_source_product :: "string option"
  sc_task_id :: "string option"
  sc_review_id :: "string option"
  sc_actions :: "string list"

definition build_scope ::
  "string \<Rightarrow> string \<Rightarrow> session_mode \<Rightarrow> string option \<Rightarrow> string option \<Rightarrow> token_scope" where
  "build_scope session_id manager_id mode task_id review_id =
    \<lparr>sc_session_id = session_id, sc_manager_id = manager_id, sc_mode = session_mode_value mode,
     sc_source_product = None, sc_task_id = task_id, sc_review_id = review_id,
     sc_actions = sort (remdups (actions_for mode))\<rparr>"

definition OPERATOR_SESSION_ID :: string where
  "OPERATOR_SESSION_ID = ''operator''"

definition build_operator_scope :: "string \<Rightarrow> token_scope" where
  "build_operator_scope actor =
    \<lparr>sc_session_id = OPERATOR_SESSION_ID, sc_manager_id = actor,
     sc_mode = session_mode_value SmOperator, sc_source_product = None, sc_task_id = None,
     sc_review_id = None, sc_actions = sort (remdups (actions_for SmOperator))\<rparr>"

definition build_publish_scope :: "string \<Rightarrow> token_scope" where
  "build_publish_scope source_product =
    \<lparr>sc_session_id = ''publisher:'' @ source_product, sc_manager_id = ''publisher:'' @ source_product,
     sc_mode = ''publisher'', sc_source_product = Some source_product, sc_task_id = None,
     sc_review_id = None, sc_actions = [PUBLISH_EVENT_ACTION]\<rparr>"

text \<open>A row of \<open>session_tokens\<close>: the plaintext is never stored.\<close>

record token_row =
  st_id :: string
  st_session_id :: string
  st_hash :: string
  st_scope :: token_scope
  st_expires_at :: "real option"
  st_revoked_at :: "real option"
  st_created_at :: real

definition token_active :: "token_row \<Rightarrow> real \<Rightarrow> bool" where
  "token_active t now \<longleftrightarrow>
    (case st_revoked_at t of Some _ \<Rightarrow> False
     | None \<Rightarrow> (case st_expires_at t of None \<Rightarrow> True | Some x \<Rightarrow> now < x))"

text \<open>\<open>id\<close> is the primary key, \<open>token_hash\<close> is unique.\<close>

definition insert_token :: "token_row \<Rightarrow> token_row list \<Rightarrow> (core_error + token_row) \<times> token_row list" where
  "insert_token t rows =
    (if list_ex (\<lambda>r. st_id r = st_id t \<or> st_hash r = st_hash t) rows then (Inl Integrity, rows)
     else (Inr t, rows @ [t]))"

definition get_token_by_hash :: "string \<Rightarrow> token_row list \<Rightarrow> token_row option" where
  "get_token_by_hash h rows = row_of st_hash h rows"

definition revoke_tokens_for_session :: "string \<Rightarrow> real \<Rightarrow> token_row list \<Rightarrow> nat \<times> token_row list" where
  "revoke_tokens_for_session session_id now rows =
    (let P = (\<lambda>r. st_session_id r = session_id \<and> st_revoked_at r = None)
     in (rowcount P rows, upd_where P (\<lambda>r. r\<lparr>st_revoked_at := Some now\<rparr>) rows))"

definition new_token :: "(string \<Rightarrow> string) \<Rightarrow> string \<Rightarrow> string \<Rightarrow> real \<Rightarrow> int \<Rightarrow> string \<Rightarrow> token_scope \<Rightarrow> token_row" where
  "new_token hash_token tid plaintext now ttl session_id scope =
    \<lparr>st_id = tid, st_session_id = session_id, st_hash = hash_token plaintext, st_scope = scope,
     st_expires_at = Some (now + real_of_int (max 1 ttl)), st_revoked_at = None, st_created_at = now\<rparr>"

record session_ref =
  ref_id :: string
  ref_manager_id :: string
  ref_mode :: session_mode
  ref_task_id :: "string option"
  ref_review_id :: "string option"

definition mint_session_token ::
  "(string \<Rightarrow> string) \<Rightarrow> string \<Rightarrow> string \<Rightarrow> real \<Rightarrow> int \<Rightarrow> session_ref \<Rightarrow> token_row list
    \<Rightarrow> (core_error + token_row) \<times> token_row list" where
  "mint_session_token hash_token tid plaintext now ttl session rows =
    insert_token (new_token hash_token tid plaintext now ttl (ref_id session)
      (build_scope (ref_id session) (ref_manager_id session) (ref_mode session) (ref_task_id session)
        (ref_review_id session))) rows"

definition mint_operator_token ::
  "(string \<Rightarrow> string) \<Rightarrow> string \<Rightarrow> string \<Rightarrow> real \<Rightarrow> int \<Rightarrow> string \<Rightarrow> token_row list
    \<Rightarrow> (core_error + token_row) \<times> token_row list" where
  "mint_operator_token hash_token tid plaintext now ttl actor rows =
    (if py_strip actor = [] then (Inl InvalidRequest, rows)
     else insert_token (new_token hash_token tid plaintext now ttl OPERATOR_SESSION_ID
            (build_operator_scope (py_strip actor))) rows)"

definition mint_publish_token ::
  "(string \<Rightarrow> string) \<Rightarrow> string \<Rightarrow> string \<Rightarrow> real \<Rightarrow> int \<Rightarrow> string \<Rightarrow> token_row list
    \<Rightarrow> (core_error + token_row) \<times> token_row list" where
  "mint_publish_token hash_token tid plaintext now ttl source_product rows =
    (let sp = py_strip source_product
     in if sp \<notin> set SOURCE_PRODUCTS then (Inl InvalidRequest, rows)
        else insert_token (new_token hash_token tid plaintext now ttl (''publisher:'' @ sp)
               (build_publish_scope sp)) rows)"

definition mode_for :: "string option \<Rightarrow> bool \<Rightarrow> session_mode" where
  "mode_for review_id readonly =
    (if readonly then SmReadonly else if str_or review_id [] \<noteq> [] then SmReviewer else SmManager)"

text \<open>The mode a launch ends with: a refused claim downgrades it under \<open>force_readonly\<close>.\<close>

definition launch_mode :: "string option \<Rightarrow> bool \<Rightarrow> bool \<Rightarrow> session_mode" where
  "launch_mode review_id readonly downgraded =
    (if downgraded then SmReadonly else mode_for review_id readonly)"

definition out_of_scope :: "string option \<Rightarrow> string option \<Rightarrow> bool" where
  "out_of_scope bound requested \<longleftrightarrow> bound \<noteq> None \<and> requested \<noteq> None \<and> bound \<noteq> requested"

text \<open>
  The answer of \<open>authorize\<close> is the scope and the task for which an \<open>action.authorized\<close>
  observation is recorded, if any.
\<close>

definition authorize ::
  "(string \<Rightarrow> string) \<Rightarrow> token_row list \<Rightarrow> real \<Rightarrow> string option \<Rightarrow> string \<Rightarrow> string option \<Rightarrow> string option
    \<Rightarrow> string option \<Rightarrow> core_error + (token_scope \<times> string option)" where
  "authorize hash_token rows now token action task_id review_id source_product =
    (case get_token_by_hash (hash_token (str_or token [])) rows of
       None \<Rightarrow> Inl Unauthenticated
     | Some rec \<Rightarrow>
         if \<not> token_active rec now then Inl Unauthenticated
         else
           let scope = st_scope rec
           in if action \<in> set NEVER_TOKEN_ACTIONS then Inl PolicyViolation
              else if sc_mode scope \<noteq> session_mode_value SmOperator \<and> action \<in> set AGENT_FORBIDDEN_ACTIONS
                then Inl PolicyViolation
              else if action \<notin> set (sc_actions scope) then Inl PolicyViolation
              else if action = PUBLISH_EVENT_ACTION \<and> str_or (sc_source_product scope) [] = []
                then Inl PolicyViolation
              else if action = PUBLISH_EVENT_ACTION \<and> source_product \<noteq> None
                      \<and> source_product \<noteq> sc_source_product scope
                then Inl PolicyViolation
              else if out_of_scope (sc_task_id scope) task_id then Inl PolicyViolation
              else if out_of_scope (sc_review_id scope) review_id then Inl PolicyViolation
              else
                let scoped_task = str_or task_id (str_or (sc_task_id scope) [])
                in Inr (scope, if scoped_task = [] then None else Some scoped_task))"

section \<open>What a token can reach\<close>

text \<open>
  The token table over time: sessions are launched, operator and publisher tokens are minted,
  sessions end and have their tokens revoked. Each call may fail and leave the table as it is.
\<close>

inductive token_step :: "(string \<Rightarrow> string) \<Rightarrow> token_row list \<Rightarrow> token_row list \<Rightarrow> bool" for h where
  launch: "token_step h s (snd (mint_session_token h tid plaintext now ttl
    \<lparr>ref_id = sid, ref_manager_id = mgr, ref_mode = launch_mode rev_id ro down,
     ref_task_id = Some tsk, ref_review_id = rev_id\<rparr> s))"
| operator: "token_step h s (snd (mint_operator_token h tid plaintext now ttl actor s))"
| publisher: "token_step h s (snd (mint_publish_token h tid plaintext now ttl sp s))"
| revoke: "token_step h s (snd (revoke_tokens_for_session sid now s))"

abbreviation token_run :: "(string \<Rightarrow> string) \<Rightarrow> token_row list \<Rightarrow> token_row list \<Rightarrow> bool" where
  "token_run h \<equiv> (token_step h)\<^sup>*\<^sup>*"

text \<open>The three kinds of scope that are ever stored.\<close>

definition scope_kinds :: "token_row \<Rightarrow> bool" where
  "scope_kinds t \<longleftrightarrow>
    (\<exists>sid mgr mode tsk rv. is_managed_agent mode \<and> st_session_id t = sid
       \<and> st_scope t = build_scope sid mgr mode (Some tsk) rv)
    \<or> (\<exists>actor. st_session_id t = OPERATOR_SESSION_ID \<and> st_scope t = build_operator_scope actor)
    \<or> (\<exists>sp \<in> set SOURCE_PRODUCTS. st_scope t = build_publish_scope sp)"

definition token_inv :: "token_row list \<Rightarrow> bool" where
  "token_inv s \<longleftrightarrow> keys_distinct st_hash s \<and> (\<forall>t \<in> set s. scope_kinds t)"

lemma launch_mode_managed [simp]: "is_managed_agent (launch_mode r ro d)"
  by (simp add: launch_mode_def mode_for_def is_managed_agent_def)

lemma insert_token_inv: "token_inv s \<Longrightarrow> scope_kinds t \<Longrightarrow> token_inv (snd (insert_token t s))"
  by (auto simp: insert_token_def token_inv_def list_ex_iff)

lemma new_token_kinds:
  "is_managed_agent m \<Longrightarrow> scope_kinds (new_token h i p n ttl sid (build_scope sid mgr m (Some tsk) rv))"
  "scope_kinds (new_token h i p n ttl OPERATOR_SESSION_ID (build_operator_scope a))"
  "sp \<in> set SOURCE_PRODUCTS \<Longrightarrow> scope_kinds (new_token h i p n ttl x (build_publish_scope sp))"
  unfolding scope_kinds_def new_token_def by (simp; blast)+

lemma scope_kinds_revoked [simp]: "scope_kinds (t\<lparr>st_revoked_at := x\<rparr>) = scope_kinds t"
  by (simp add: scope_kinds_def)

lemma token_step_inv: "token_step h s s' \<Longrightarrow> token_inv s \<Longrightarrow> token_inv s'"
proof (induction rule: token_step.induct)
  case (revoke s sid now)
  then show ?case
    by (auto simp: token_inv_def revoke_tokens_for_session_def Let_def map_key_upd_where set_upd_where)
qed (simp_all add: mint_session_token_def mint_operator_token_def mint_publish_token_def Let_def
       insert_token_inv new_token_kinds)

lemma token_run_inv: "token_run h s s' \<Longrightarrow> token_inv s \<Longrightarrow> token_inv s'"
  by (induction rule: rtranclp_induct) (auto intro: token_step_inv)

lemma authorize_OkD:
  assumes "authorize h rows now token action task_id review_id source_product = Inr (scope, obs)"
  obtains t where "t \<in> set rows" "st_scope t = scope" "st_hash t = h (str_or token [])" "token_active t now"
    "action \<notin> set NEVER_TOKEN_ACTIONS" "action \<in> set (sc_actions scope)"
    "sc_mode scope \<noteq> ''operator'' \<longrightarrow> action \<notin> set AGENT_FORBIDDEN_ACTIONS"
    "action = PUBLISH_EVENT_ACTION \<longrightarrow> source_product = None \<or> source_product = sc_source_product scope"
    "\<not> out_of_scope (sc_task_id scope) task_id" "\<not> out_of_scope (sc_review_id scope) review_id"
  using assms
  by (auto simp: authorize_def Let_def get_token_by_hash_def split: option.splits if_splits
        dest!: row_of_SomeD)

text \<open>
  C13. What a session token reaches. In every token table that launches, mints and revocations
  produce, an authorized request carries the scope of a stored, live token whose hash is the hash
  of the presented text, and one of three cases holds. A launched agent uses an action of its
  mode that agents are not forbidden, on its own task and, if it has one, its own review. An
  operator uses an action of the operator's list. A publisher only publishes events, and only as
  the product the token was minted for. No token reaches a backend's administration.
\<close>

theorem token_confinement:
  assumes "token_run h [] s"
    and "authorize h s now token action task_id review_id source_product = Inr (scope, obs)"
  shows "action \<notin> set NEVER_TOKEN_ACTIONS
    \<and> (\<exists>t \<in> set s. st_scope t = scope \<and> st_hash t = h (str_or token []) \<and> token_active t now)
    \<and> ((\<exists>sid mgr mode tsk rv. is_managed_agent mode \<and> scope = build_scope sid mgr mode (Some tsk) rv
           \<and> action \<in> set (actions_for mode) \<and> action \<notin> set AGENT_FORBIDDEN_ACTIONS
           \<and> task_id \<in> {None, Some tsk} \<and> (rv = None \<or> review_id \<in> {None, rv}))
       \<or> (\<exists>actor. scope = build_operator_scope actor \<and> action \<in> set (actions_for SmOperator))
       \<or> (\<exists>sp \<in> set SOURCE_PRODUCTS. scope = build_publish_scope sp \<and> action = PUBLISH_EVENT_ACTION
           \<and> source_product \<in> {None, Some sp}))"
proof -
  have inv: "token_inv s" using token_run_inv[OF assms(1)] by (simp add: token_inv_def)
  from assms(2) obtain t where t: "t \<in> set s" "st_scope t = scope" "st_hash t = h (str_or token [])"
      "token_active t now" "action \<notin> set NEVER_TOKEN_ACTIONS"
    and act: "action \<in> set (sc_actions scope)"
      "sc_mode scope \<noteq> ''operator'' \<longrightarrow> action \<notin> set AGENT_FORBIDDEN_ACTIONS"
      "action = PUBLISH_EVENT_ACTION \<longrightarrow> source_product = None \<or> source_product = sc_source_product scope"
      "\<not> out_of_scope (sc_task_id scope) task_id" "\<not> out_of_scope (sc_review_id scope) review_id"
    by (rule authorize_OkD)
  have mode: "is_managed_agent m \<Longrightarrow> session_mode_value m \<noteq> ''operator''" for m
    by (cases m) (simp_all add: is_managed_agent_def)
  have "scope_kinds t" using inv t(1) by (simp add: token_inv_def)
  then consider (agent) sid mgr m tsk rv where "is_managed_agent m" "scope = build_scope sid mgr m (Some tsk) rv"
    | (op) actor where "scope = build_operator_scope actor"
    | (pub) sp where "sp \<in> set SOURCE_PRODUCTS" "scope = build_publish_scope sp"
    unfolding scope_kinds_def using t(2) by auto
  then show ?thesis
  proof cases
    case agent
    then have "action \<in> set (actions_for m)" "action \<notin> set AGENT_FORBIDDEN_ACTIONS"
      "task_id \<in> {None, Some tsk}" "rv = None \<or> review_id \<in> {None, rv}"
      using act mode by (auto simp: build_scope_def out_of_scope_def)
    with agent t show ?thesis by blast
  next
    case op
    then have "action \<in> set (actions_for SmOperator)" using act(1) by (simp add: build_operator_scope_def)
    with op t show ?thesis by blast
  next
    case pub
    then have "action = PUBLISH_EVENT_ACTION" using act(1) by (simp add: build_publish_scope_def)
    with pub act(3) have "source_product \<in> {None, Some sp}" by (auto simp: build_publish_scope_def)
    with pub t \<open>action = PUBLISH_EVENT_ACTION\<close> show ?thesis by blast
  qed
qed

definition dead_token :: "string \<Rightarrow> token_row list \<Rightarrow> bool" where
  "dead_token d s \<longleftrightarrow> (\<exists>t. row_of st_hash d s = Some t \<and> st_revoked_at t \<noteq> None)"

lemma dead_token_insert: "dead_token d s \<Longrightarrow> dead_token d (snd (insert_token t s))"
  by (auto simp: dead_token_def insert_token_def)

lemma dead_token_step: "token_step h s s' \<Longrightarrow> dead_token d s \<Longrightarrow> dead_token d s'"
proof (induction rule: token_step.induct)
  case (revoke s sid now)
  then obtain t y where "row_of st_hash d s = Some t" "st_revoked_at t = Some y"
    by (auto simp: dead_token_def)
  then show ?case
    by (simp add: dead_token_def revoke_tokens_for_session_def Let_def row_of_upd_where)
qed (simp_all add: mint_session_token_def mint_operator_token_def mint_publish_token_def Let_def
       dead_token_insert)

lemma dead_token_run: "token_run h s s' \<Longrightarrow> dead_token d s \<Longrightarrow> dead_token d s'"
  by (induction rule: rtranclp_induct) (auto intro: dead_token_step)

lemma dead_token_refused: "dead_token (h (str_or token [])) s \<Longrightarrow>
    authorize h s now token action task_id review_id source_product = Inl Unauthenticated"
  by (auto simp: dead_token_def authorize_def get_token_by_hash_def token_active_def)

text \<open>
  Revocation is final. Once the tokens of a session are revoked, the text of each of its
  tokens is refused for every action, at every later time and in every later table.
\<close>

theorem revoked_token_dead:
  assumes "token_run h [] s" "t \<in> set s" "st_session_id t = sid" "st_hash t = h (str_or token [])"
    and "token_run h (snd (revoke_tokens_for_session sid now s)) s'"
  shows "authorize h s' later token action task_id review_id source_product = Inl Unauthenticated"
proof -
  have "keys_distinct st_hash s" using token_run_inv[OF assms(1)] by (simp add: token_inv_def)
  then have "row_of st_hash (st_hash t) s = Some t" using assms(2) by (simp add: row_of_Some_iff)
  then have "dead_token (h (str_or token [])) (snd (revoke_tokens_for_session sid now s))"
    using assms(3,4)
    by (auto simp: dead_token_def revoke_tokens_for_session_def Let_def row_of_upd_where)
  then show ?thesis by (intro dead_token_refused dead_token_run[OF assms(5)])
qed

section \<open>Concrete sessions\<close>

definition demo_env :: env where
  "demo_env = [(''HOME'', ''/home/op''), (''OPENAI_API_KEY'', ''sk-1'')]"

definition demo_session_env :: env where
  "demo_session_env = session_env_vars ''http://127.0.0.1'' (Some ''task_1'') None ''codex'' (Some ''ws_1'')
    ''ses_1'' (Some ''act_1'') SmManager"

lemma demo_secretish: "is_secretish ''OPENAI_API_KEY''" "\<not> is_secretish ''HOME''"
  by (simp_all add: is_secretish_def py_upper_capitals SECRET_DENYLIST_def SECRETISH_def secret_word_at_def
        SECRET_WORDS_def starts_with_def)

lemma demo_sanitized: "sanitize_env demo_env demo_session_env None None =
    Inr [(''HOME'', ''/home/op''), (''AGENTCONNECT_API_URL'', ''http://127.0.0.1''),
      (''AGENTCONNECT_TASK_ID'', ''task_1''), (''AGENTCONNECT_MANAGER_ID'', ''codex''),
      (''AGENTCONNECT_WORKSPACE_ID'', ''ws_1''), (''AGENTCONNECT_SESSION_ID'', ''ses_1''),
      (''AGENTCONNECT_SESSION_TOKEN'', ''act_1''), (''AGENTCONNECT_MODE'', ''manager'')]"
proof -
  have x: "extras demo_env None = []"
    by (simp add: extras_def extra_allowed_def env_get_def demo_env_def ALLOW_ENV_VAR_def py_strip_def)
  have "filter (\<lambda>(k, v). k \<in> set (BASE_ALLOWLIST @ []) \<and> \<not> is_secretish k) demo_env = [(''HOME'', ''/home/op'')]"
    using demo_secretish by (simp add: demo_env_def BASE_ALLOWLIST_def)
  moreover have "forwarded_config demo_env = []"
    by (simp add: forwarded_config_def FORWARDED_CONFIG_VARS_def env_get_def demo_env_def)
  ultimately show ?thesis
    by (simp add: sanitize_env_def x Let_def dict_update_def demo_session_env_def session_env_vars_def str_or_def)
qed

theorem agent_environment_clean_witness:
  "(\<exists>e. sanitize_env demo_env demo_session_env None None = Inr e
     \<and> map_of e ''AGENTCONNECT_SESSION_TOKEN'' = Some ''act_1'')
   \<and> (''AGENTCONNECT_SESSION_TOKEN'' \<in> set (SESSION_VARS @ [''PATH''])
      \<or> map_of demo_env ''AGENTCONNECT_SESSION_TOKEN'' = Some ''act_1'')"
  using agent_environment_clean[OF demo_sanitized[unfolded demo_session_env_def],
    of "''AGENTCONNECT_SESSION_TOKEN''" "''act_1''"] demo_sanitized
  by auto

theorem env_file_roundtrip_witness:
  "parse_env_file (render_env_file demo_session_env) = map (\<lambda>n. (n, env_get demo_session_env n)) SESSION_VARS
   \<and> env_get demo_session_env ''AGENTCONNECT_TASK_ID'' = ''task_1''"
proof -
  have "list_all (\<lambda>n. clean_value (env_get demo_session_env n)) SESSION_VARS"
    by (simp add: SESSION_VARS_def demo_session_env_def session_env_vars_def env_get_def clean_value_def
          py_strip_capitals py_space_def line_break_def str_or_def py_strip_def)
  from env_file_roundtrip[OF this] show ?thesis
    by (simp add: demo_session_env_def session_env_vars_def env_get_def str_or_def)
qed

definition demo_tokens :: "token_row list" where
  "demo_tokens = snd (mint_session_token id ''tok_1'' ''act_1'' 0 60
    \<lparr>ref_id = ''ses_1'', ref_manager_id = ''codex'', ref_mode = launch_mode None False False,
     ref_task_id = Some ''task_1'', ref_review_id = None\<rparr> [])"

lemma demo_tokens_run: "token_run id [] demo_tokens"
  unfolding demo_tokens_def by (intro r_into_rtranclp token_step.launch)

lemma demo_tokens_eq: "demo_tokens = [new_token id ''tok_1'' ''act_1'' 0 60 ''ses_1''
    (build_scope ''ses_1'' ''codex'' SmManager (Some ''task_1'') None)]"
  by (simp add: demo_tokens_def mint_session_token_def insert_token_def launch_mode_def mode_for_def str_or_def)

lemma demo_authorized: "authorize id demo_tokens 10 (Some ''act_1'') ''get_task'' (Some ''task_1'') None None
    = Inr (build_scope ''ses_1'' ''codex'' SmManager (Some ''task_1'') None, Some ''task_1'')"
proof -
  define sc where "sc = build_scope ''ses_1'' ''codex'' SmManager (Some ''task_1'') None"
  have sc: "sc_mode sc = ''manager''" "sc_task_id sc = Some ''task_1''" "sc_review_id sc = None"
    "set (sc_actions sc) = set MANAGER_ACTIONS"
    by (simp_all add: sc_def build_scope_def actions_for_def)
  have "''get_task'' \<in> set MANAGER_ACTIONS"
    by (simp add: MANAGER_ACTIONS_def ORIENTATION_ACTIONS_def)
  then show ?thesis
    unfolding demo_tokens_eq sc_def[symmetric]
    by (simp add: authorize_def get_token_by_hash_def new_token_def str_or_def token_active_def sc
          NEVER_TOKEN_ACTIONS_def AGENT_FORBIDDEN_ACTIONS_def PUBLISH_EVENT_ACTION_def out_of_scope_def Let_def)
qed

theorem token_confinement_witness:
  "token_run id [] demo_tokens
   \<and> authorize id demo_tokens 10 (Some ''act_1'') ''get_task'' (Some ''task_1'') None None
       = Inr (build_scope ''ses_1'' ''codex'' SmManager (Some ''task_1'') None, Some ''task_1'')
   \<and> (\<exists>t \<in> set demo_tokens. st_hash t = ''act_1'' \<and> token_active t 10)"
  using token_confinement[OF demo_tokens_run demo_authorized] demo_tokens_run demo_authorized
  by (auto simp: str_or_def)

theorem revoked_token_dead_witness:
  "authorize id (snd (revoke_tokens_for_session ''ses_1'' 20 demo_tokens)) 30 (Some ''act_1'') ''get_task''
     None None None = Inl Unauthenticated"
  by (rule revoked_token_dead[OF demo_tokens_run, of "hd demo_tokens" "''ses_1''" _ 20])
     (simp_all add: demo_tokens_eq new_token_def str_or_def)

end
