(* ===== verification/Core_Ledger.thy ===== *)
theory Core_Ledger
  imports Core_Models Transitions
begin

text \<open>
  The tables of the task ledger (\<^verbatim>\<open>core/storage.py\<close>), the seven status vocabularies of
  \<^verbatim>\<open>core/transition_vocab.py\<close> and the one writer of status columns, \<open>transition_row\<close>, as an
  instance of the contract \<open>locked_writer\<close> for each of the seven tables. The ledger is that of
  one process, whose writers serialise on the lock of the store; an operation reads its clock
  once. The JSON body of an artifact, the Linear columns of a task and the rich observation
  events are not part of the ledger modelled here.
\<close>

section \<open>Rows\<close>

record core_task =
  ct_id :: string
  ct_title :: string
  ct_goal :: string
  ct_status :: task_status
  ct_priority :: string
  ct_created_by :: string
  ct_created_at :: real
  ct_updated_at :: real
  ct_current_manager :: "string option"

record core_claim_row =
  cl_id :: string
  cl_task_id :: string
  cl_manager_id :: string
  cl_role :: claim_role
  cl_expires_at :: real
  cl_created_at :: real
  cl_released_at :: "real option"

record core_decision_row =
  de_id :: string
  de_task_id :: string
  de_made_by :: string
  de_decision :: string
  de_rationale :: string
  de_locked :: bool
  de_created_at :: real
  de_superseded_by :: "string option"

record constraint_row =
  cn_task_id :: string
  cn_text :: string
  cn_created_by :: string

record attempt_row =
  att_id :: string
  att_task_id :: string
  att_actor_id :: string
  att_actor_type :: string
  att_summary :: string
  att_outcome :: string
  att_created_at :: real
  att_artifact_refs :: "string list"

record core_artifact_row =
  ar_id :: string
  ar_task_id :: string
  ar_type :: string
  ar_summary :: string
  ar_created_by :: string
  ar_created_at :: real

record review_row =
  rv_id :: string
  rv_task_id :: string
  rv_requested_by :: string
  rv_assigned_to :: string
  rv_status :: review_status
  rv_criteria :: "string list"
  rv_artifact_refs :: "string list"
  rv_result_artifact_id :: "string option"
  rv_created_at :: real
  rv_updated_at :: real

record run_row =
  rn_id :: string
  rn_subtask_id :: string
  rn_worker_id :: string
  rn_harness :: string
  rn_model :: "string option"
  rn_status :: run_status
  rn_started_at :: real
  rn_finished_at :: "real option"
  rn_output_artifact_id :: "string option"
  rn_cost_usd :: "real option"
  rn_error :: "string option"

record approval_row =
  ap_id :: string
  ap_task_id :: string
  ap_subtask_id :: string
  ap_status :: approval_status
  ap_requested_worker :: "string option"
  ap_requested_location :: "worker_location option"
  ap_estimated_cost_usd :: real
  ap_max_cost_usd :: "real option"
  ap_decided_by :: "string option"
  ap_reason :: string
  ap_created_at :: real
  ap_decided_at :: "real option"

datatype execution_state =
    ExRunning | ExWaitingApproval | ExWaitingReview | ExCompleted | ExFailed | ExCancelled | ExUnknown

record execution_row =
  ex_handle_id :: string
  ex_backend :: string
  ex_entity_type :: string
  ex_entity_id :: string
  ex_state :: execution_state
  ex_created_at :: real
  ex_updated_at :: real
  ex_detail :: string

record inbox_row =
  ib_id :: string
  ib_manager_id :: string
  ib_kind :: string
  ib_ref_id :: string
  ib_task_id :: "string option"
  ib_created_at :: real
  ib_dismissed_at :: "real option"

record session_row =
  ses_id :: string
  ses_task_id :: "string option"
  ses_review_id :: "string option"
  ses_manager_id :: string
  ses_mode :: session_mode
  ses_status :: session_status
  ses_started_at :: real
  ses_ended_at :: "real option"
  ses_shell_command :: string

record ledger_event =
  le_task_id :: "string option"
  le_kind :: string
  le_actor :: string
  le_ref :: string

text \<open>A \<open>state.changed\<close> row of the event bus, with the identifiers it is correlated with.\<close>

record bus_row =
  bus_record :: transition_record
  bus_task_id :: "string option"
  bus_subtask_id :: "string option"
  bus_run_id :: "string option"
  bus_review_id :: "string option"
  bus_session_id :: "string option"

record core_ledger =
  lg_tasks :: "core_task list"
  lg_constraints :: "constraint_row list"
  lg_claims :: "core_claim_row list"
  lg_decisions :: "core_decision_row list"
  lg_attempts :: "attempt_row list"
  lg_artifacts :: "core_artifact_row list"
  lg_reviews :: "review_row list"
  lg_subtasks :: "subtask list"
  lg_runs :: "run_row list"
  lg_approvals :: "approval_row list"
  lg_executions :: "execution_row list"
  lg_inbox :: "inbox_row list"
  lg_sessions :: "session_row list"
  lg_events :: "ledger_event list"
  lg_audit :: "transition_record list"
  lg_bus :: "bus_row list"
  lg_uuid :: "nat \<Rightarrow> string"
  lg_drawn :: nat

definition core_new_id :: "string \<Rightarrow> core_ledger \<Rightarrow> string \<times> core_ledger" where
  "core_new_id prefix s = (prefix @ ''_'' @ lg_uuid s (lg_drawn s), s\<lparr>lg_drawn := Suc (lg_drawn s)\<rparr>)"

section \<open>Vocabularies\<close>

primrec task_status_value :: "task_status \<Rightarrow> string" where
  "task_status_value TsQueued = ''queued''"
| "task_status_value TsInProgress = ''in_progress''"
| "task_status_value TsBlocked = ''blocked''"
| "task_status_value TsNeedsReview = ''needs_review''"
| "task_status_value TsNeedsApproval = ''needs_approval''"
| "task_status_value TsSucceeded = ''succeeded''"
| "task_status_value TsFailed = ''failed''"
| "task_status_value TsCancelled = ''cancelled''"

primrec subtask_status_value :: "subtask_status \<Rightarrow> string" where
  "subtask_status_value StQueued = ''queued''"
| "subtask_status_value StRunning = ''running''"
| "subtask_status_value StSucceeded = ''succeeded''"
| "subtask_status_value StFailed = ''failed''"
| "subtask_status_value StCancelled = ''cancelled''"
| "subtask_status_value StNeedsApproval = ''needs_approval''"
| "subtask_status_value StBlocked = ''blocked''"

primrec run_status_value :: "run_status \<Rightarrow> string" where
  "run_status_value RnRunning = ''running''"
| "run_status_value RnSucceeded = ''succeeded''"
| "run_status_value RnFailed = ''failed''"
| "run_status_value RnCancelled = ''cancelled''"

primrec review_status_value :: "review_status \<Rightarrow> string" where
  "review_status_value RvOpen = ''open''"
| "review_status_value RvClaimed = ''claimed''"
| "review_status_value RvInProgress = ''in_progress''"
| "review_status_value RvCompleted = ''completed''"
| "review_status_value RvRejected = ''rejected''"
| "review_status_value RvCancelled = ''cancelled''"

primrec approval_status_value :: "approval_status \<Rightarrow> string" where
  "approval_status_value ApPending = ''pending''"
| "approval_status_value ApGranted = ''granted''"
| "approval_status_value ApDenied = ''denied''"
| "approval_status_value ApExpired = ''expired''"

primrec session_status_value :: "session_status \<Rightarrow> string" where
  "session_status_value SnPrepared = ''prepared''"
| "session_status_value SnRunning = ''running''"
| "session_status_value SnEnded = ''ended''"
| "session_status_value SnFailed = ''failed''"
| "session_status_value SnAbandoned = ''abandoned''"

primrec execution_state_value :: "execution_state \<Rightarrow> string" where
  "execution_state_value ExRunning = ''running''"
| "execution_state_value ExWaitingApproval = ''waiting_approval''"
| "execution_state_value ExWaitingReview = ''waiting_review''"
| "execution_state_value ExCompleted = ''completed''"
| "execution_state_value ExFailed = ''failed''"
| "execution_state_value ExCancelled = ''cancelled''"
| "execution_state_value ExUnknown = ''unknown''"

primrec TASK_STATUS_EDGES :: "task_status \<Rightarrow> task_status set" where
  "TASK_STATUS_EDGES TsQueued = {TsInProgress, TsNeedsReview, TsNeedsApproval, TsSucceeded}"
| "TASK_STATUS_EDGES TsInProgress = {TsNeedsReview, TsNeedsApproval, TsSucceeded}"
| "TASK_STATUS_EDGES TsNeedsReview = {TsInProgress, TsSucceeded}"
| "TASK_STATUS_EDGES TsNeedsApproval = {TsInProgress, TsSucceeded}"
| "TASK_STATUS_EDGES TsBlocked = {TsInProgress, TsNeedsReview, TsNeedsApproval, TsSucceeded}"
| "TASK_STATUS_EDGES TsFailed = {}"
| "TASK_STATUS_EDGES TsSucceeded = {}"
| "TASK_STATUS_EDGES TsCancelled = {}"

definition TASK_STATUS_VOCAB :: "task_status vocabulary" where
  "TASK_STATUS_VOCAB =
    \<lparr>v_name = ''task_status'', v_value = task_status_value, v_column = ''status'',
     v_edges = (\<lambda>x. Some (TASK_STATUS_EDGES x)), v_terminal = {TsSucceeded, TsFailed, TsCancelled},
     v_universal = {TsCancelled}\<rparr>"

primrec SUBTASK_TRANSITIONS :: "subtask_status \<Rightarrow> subtask_status set" where
  "SUBTASK_TRANSITIONS StBlocked = {StQueued, StFailed, StCancelled}"
| "SUBTASK_TRANSITIONS StQueued = {StRunning, StNeedsApproval, StFailed, StCancelled}"
| "SUBTASK_TRANSITIONS StNeedsApproval = {StRunning, StQueued, StFailed, StCancelled}"
| "SUBTASK_TRANSITIONS StRunning = {StSucceeded, StFailed, StCancelled}"
| "SUBTASK_TRANSITIONS StSucceeded = {}"
| "SUBTASK_TRANSITIONS StFailed = {}"
| "SUBTASK_TRANSITIONS StCancelled = {}"

definition SUBTASK_TERMINAL :: "subtask_status set" where
  "SUBTASK_TERMINAL = {StSucceeded, StFailed, StCancelled}"

definition SUBTASK_STATUS_VOCAB :: "subtask_status vocabulary" where
  "SUBTASK_STATUS_VOCAB =
    \<lparr>v_name = ''subtask_status'', v_value = subtask_status_value, v_column = ''status'',
     v_edges = (\<lambda>x. Some (SUBTASK_TRANSITIONS x)), v_terminal = SUBTASK_TERMINAL, v_universal = {}\<rparr>"

primrec RUN_STATUS_EDGES :: "run_status \<Rightarrow> run_status set" where
  "RUN_STATUS_EDGES RnRunning = {RnSucceeded, RnFailed, RnCancelled}"
| "RUN_STATUS_EDGES RnSucceeded = {}"
| "RUN_STATUS_EDGES RnFailed = {}"
| "RUN_STATUS_EDGES RnCancelled = {}"

definition RUN_STATUS_VOCAB :: "run_status vocabulary" where
  "RUN_STATUS_VOCAB =
    \<lparr>v_name = ''run_status'', v_value = run_status_value, v_column = ''status'',
     v_edges = (\<lambda>x. Some (RUN_STATUS_EDGES x)), v_terminal = {RnSucceeded, RnFailed, RnCancelled},
     v_universal = {}\<rparr>"

primrec REVIEW_TRANSITIONS :: "review_status \<Rightarrow> review_status set" where
  "REVIEW_TRANSITIONS RvOpen = {RvClaimed, RvCancelled}"
| "REVIEW_TRANSITIONS RvClaimed = {RvInProgress, RvCompleted, RvRejected, RvCancelled, RvOpen}"
| "REVIEW_TRANSITIONS RvInProgress = {RvCompleted, RvRejected, RvCancelled}"
| "REVIEW_TRANSITIONS RvCompleted = {}"
| "REVIEW_TRANSITIONS RvRejected = {}"
| "REVIEW_TRANSITIONS RvCancelled = {}"

definition REVIEW_TERMINAL :: "review_status set" where
  "REVIEW_TERMINAL = {RvCompleted, RvRejected, RvCancelled}"

definition REVIEW_STATUS_VOCAB :: "review_status vocabulary" where
  "REVIEW_STATUS_VOCAB =
    \<lparr>v_name = ''review_status'', v_value = review_status_value, v_column = ''status'',
     v_edges = (\<lambda>x. Some (REVIEW_TRANSITIONS x)), v_terminal = REVIEW_TERMINAL, v_universal = {}\<rparr>"

primrec APPROVAL_STATUS_EDGES :: "approval_status \<Rightarrow> approval_status set" where
  "APPROVAL_STATUS_EDGES ApPending = {ApGranted, ApDenied, ApExpired}"
| "APPROVAL_STATUS_EDGES ApGranted = {}"
| "APPROVAL_STATUS_EDGES ApDenied = {}"
| "APPROVAL_STATUS_EDGES ApExpired = {}"

definition APPROVAL_STATUS_VOCAB :: "approval_status vocabulary" where
  "APPROVAL_STATUS_VOCAB =
    \<lparr>v_name = ''approval_status'', v_value = approval_status_value, v_column = ''status'',
     v_edges = (\<lambda>x. Some (APPROVAL_STATUS_EDGES x)), v_terminal = {ApGranted, ApDenied, ApExpired},
     v_universal = {}\<rparr>"

primrec SESSION_STATUS_EDGES :: "session_status \<Rightarrow> session_status set" where
  "SESSION_STATUS_EDGES SnPrepared = {SnRunning, SnEnded, SnFailed, SnAbandoned}"
| "SESSION_STATUS_EDGES SnRunning = {SnEnded, SnFailed, SnAbandoned}"
| "SESSION_STATUS_EDGES SnEnded = {}"
| "SESSION_STATUS_EDGES SnFailed = {}"
| "SESSION_STATUS_EDGES SnAbandoned = {}"

definition SESSION_STATUS_VOCAB :: "session_status vocabulary" where
  "SESSION_STATUS_VOCAB =
    \<lparr>v_name = ''session_status'', v_value = session_status_value, v_column = ''status'',
     v_edges = (\<lambda>x. Some (SESSION_STATUS_EDGES x)), v_terminal = {SnEnded, SnFailed, SnAbandoned},
     v_universal = {}\<rparr>"

definition EXECUTION_LIVE :: "execution_state set" where
  "EXECUTION_LIVE = {ExRunning, ExWaitingApproval, ExWaitingReview}"

definition EXECUTION_TERMINAL :: "execution_state set" where
  "EXECUTION_TERMINAL = {ExCompleted, ExFailed, ExCancelled}"

definition EXECUTION_STATE_EDGES :: "execution_state \<Rightarrow> execution_state set" where
  "EXECUTION_STATE_EDGES x =
    (if x = ExUnknown then EXECUTION_LIVE \<union> EXECUTION_TERMINAL
     else if x \<in> EXECUTION_LIVE then (EXECUTION_LIVE - {x}) \<union> EXECUTION_TERMINAL
     else {})"

definition EXECUTION_STATE_VOCAB :: "execution_state vocabulary" where
  "EXECUTION_STATE_VOCAB =
    \<lparr>v_name = ''execution_state'', v_value = execution_state_value, v_column = ''state'',
     v_edges = (\<lambda>x. Some (EXECUTION_STATE_EDGES x)), v_terminal = EXECUTION_TERMINAL, v_universal = {}\<rparr>"

section \<open>Columns of a status write\<close>

definition opt_text :: "col \<Rightarrow> string option" where
  "opt_text c = (case c of CText t \<Rightarrow> Some t | _ \<Rightarrow> None)"

definition opt_real :: "col \<Rightarrow> real option" where
  "opt_real c = (case c of CReal x \<Rightarrow> Some x | _ \<Rightarrow> None)"

definition the_text :: "col \<Rightarrow> string" where
  "the_text c = (case c of CText t \<Rightarrow> t | _ \<Rightarrow> [])"

definition the_real :: "col \<Rightarrow> real" where
  "the_real c = (case c of CReal x \<Rightarrow> x | _ \<Rightarrow> 0)"

definition text_col :: "string option \<Rightarrow> col" where
  "text_col x = (case x of None \<Rightarrow> CNull | Some t \<Rightarrow> CText t)"

definition real_col :: "real option \<Rightarrow> col" where
  "real_col x = (case x of None \<Rightarrow> CNull | Some t \<Rightarrow> CReal t)"

definition task_col :: "string \<times> col \<Rightarrow> core_task \<Rightarrow> core_task" where
  "task_col kc r =
    (case kc of (k, c) \<Rightarrow> (if k = ''updated_at'' then r\<lparr>ct_updated_at := the_real c\<rparr>
     else if k = ''current_manager'' then r\<lparr>ct_current_manager := opt_text c\<rparr> else r))"

text \<open>The new metadata drops \<open>blocked_on\<close>, and gains \<open>dependency_failed\<close> if the column holds a subtask.\<close>

definition subtask_col :: "string \<times> col \<Rightarrow> subtask \<Rightarrow> subtask" where
  "subtask_col kc r =
    (case kc of (k, c) \<Rightarrow> (if k = ''updated_at'' then r\<lparr>sub_updated_at := the_real c\<rparr>
     else if k = ''assigned_worker'' then r\<lparr>sub_assigned_worker := opt_text c\<rparr>
     else if k = ''result_artifact_id'' then r\<lparr>sub_result_artifact_id := opt_text c\<rparr>
     else if k = ''approved_by'' then r\<lparr>sub_approved_by := opt_text c\<rparr>
     else if k = ''approved_max_cost_usd'' then r\<lparr>sub_approved_max_cost_usd := opt_real c\<rparr>
     else if k = ''metadata'' then
       r\<lparr>sub_blocked_on := [],
         sub_dependency_failed := (case opt_text c of None \<Rightarrow> sub_dependency_failed r | Some p \<Rightarrow> Some p)\<rparr>
     else r))"

definition run_col :: "string \<times> col \<Rightarrow> run_row \<Rightarrow> run_row" where
  "run_col kc r =
    (case kc of (k, c) \<Rightarrow> (if k = ''finished_at'' then r\<lparr>rn_finished_at := opt_real c\<rparr>
     else if k = ''output_artifact_id'' then r\<lparr>rn_output_artifact_id := opt_text c\<rparr>
     else if k = ''metrics'' then r\<lparr>rn_cost_usd := opt_real c\<rparr>
     else if k = ''error'' then r\<lparr>rn_error := opt_text c\<rparr> else r))"

definition review_col :: "string \<times> col \<Rightarrow> review_row \<Rightarrow> review_row" where
  "review_col kc r =
    (case kc of (k, c) \<Rightarrow> (if k = ''updated_at'' then r\<lparr>rv_updated_at := the_real c\<rparr>
     else if k = ''result_artifact_id'' then r\<lparr>rv_result_artifact_id := opt_text c\<rparr> else r))"

definition approval_col :: "string \<times> col \<Rightarrow> approval_row \<Rightarrow> approval_row" where
  "approval_col kc r =
    (case kc of (k, c) \<Rightarrow> (if k = ''decided_by'' then r\<lparr>ap_decided_by := opt_text c\<rparr>
     else if k = ''max_cost_usd'' then r\<lparr>ap_max_cost_usd := opt_real c\<rparr>
     else if k = ''reason'' then r\<lparr>ap_reason := the_text c\<rparr>
     else if k = ''decided_at'' then r\<lparr>ap_decided_at := opt_real c\<rparr> else r))"

definition session_col :: "string \<times> col \<Rightarrow> session_row \<Rightarrow> session_row" where
  "session_col kc r =
    (case kc of (k, c) \<Rightarrow> (if k = ''ended_at'' then r\<lparr>ses_ended_at := opt_real c\<rparr>
     else if k = ''shell_command'' then r\<lparr>ses_shell_command := the_text c\<rparr> else r))"

definition execution_col :: "string \<times> col \<Rightarrow> execution_row \<Rightarrow> execution_row" where
  "execution_col kc r =
    (case kc of (k, c) \<Rightarrow> (if k = ''updated_at'' then r\<lparr>ex_updated_at := the_real c\<rparr>
     else if k = ''detail'' then r\<lparr>ex_detail := the_text c\<rparr> else r))"

section \<open>The writer of status columns\<close>

record ('r, 'e) table_access =
  ta_rows :: "core_ledger \<Rightarrow> 'r list"
  ta_put :: "'r list \<Rightarrow> core_ledger \<Rightarrow> core_ledger"
  ta_key :: "'r \<Rightarrow> string"
  ta_state :: "'r \<Rightarrow> 'e"
  ta_set :: "'e \<Rightarrow> 'r \<Rightarrow> 'r"
  ta_col :: "string \<times> col \<Rightarrow> 'r \<Rightarrow> 'r"

definition T_tasks :: "(core_task, task_status) table_access" where
  "T_tasks = \<lparr>ta_rows = lg_tasks, ta_put = (\<lambda>rs s. s\<lparr>lg_tasks := rs\<rparr>), ta_key = ct_id,
     ta_state = ct_status, ta_set = (\<lambda>e r. r\<lparr>ct_status := e\<rparr>), ta_col = task_col\<rparr>"

definition T_subtasks :: "(subtask, subtask_status) table_access" where
  "T_subtasks = \<lparr>ta_rows = lg_subtasks, ta_put = (\<lambda>rs s. s\<lparr>lg_subtasks := rs\<rparr>), ta_key = sub_id,
     ta_state = sub_status, ta_set = (\<lambda>e r. r\<lparr>sub_status := e\<rparr>), ta_col = subtask_col\<rparr>"

definition T_runs :: "(run_row, run_status) table_access" where
  "T_runs = \<lparr>ta_rows = lg_runs, ta_put = (\<lambda>rs s. s\<lparr>lg_runs := rs\<rparr>), ta_key = rn_id,
     ta_state = rn_status, ta_set = (\<lambda>e r. r\<lparr>rn_status := e\<rparr>), ta_col = run_col\<rparr>"

definition T_reviews :: "(review_row, review_status) table_access" where
  "T_reviews = \<lparr>ta_rows = lg_reviews, ta_put = (\<lambda>rs s. s\<lparr>lg_reviews := rs\<rparr>), ta_key = rv_id,
     ta_state = rv_status, ta_set = (\<lambda>e r. r\<lparr>rv_status := e\<rparr>), ta_col = review_col\<rparr>"

definition T_approvals :: "(approval_row, approval_status) table_access" where
  "T_approvals = \<lparr>ta_rows = lg_approvals, ta_put = (\<lambda>rs s. s\<lparr>lg_approvals := rs\<rparr>), ta_key = ap_id,
     ta_state = ap_status, ta_set = (\<lambda>e r. r\<lparr>ap_status := e\<rparr>), ta_col = approval_col\<rparr>"

definition T_sessions :: "(session_row, session_status) table_access" where
  "T_sessions = \<lparr>ta_rows = lg_sessions, ta_put = (\<lambda>rs s. s\<lparr>lg_sessions := rs\<rparr>), ta_key = ses_id,
     ta_state = ses_status, ta_set = (\<lambda>e r. r\<lparr>ses_status := e\<rparr>), ta_col = session_col\<rparr>"

definition T_executions :: "(execution_row, execution_state) table_access" where
  "T_executions = \<lparr>ta_rows = lg_executions, ta_put = (\<lambda>rs s. s\<lparr>lg_executions := rs\<rparr>), ta_key = ex_handle_id,
     ta_state = ex_state, ta_set = (\<lambda>e r. r\<lparr>ex_state := e\<rparr>), ta_col = execution_col\<rparr>"

definition or_else :: "string option \<Rightarrow> string option \<Rightarrow> string option" where
  "or_else a b = (if str_or a [] = [] then b else a)"

definition event_correlation :: "core_ledger \<Rightarrow> transition_record \<Rightarrow> bus_row" where
  "event_correlation s r =
    (let b = \<lparr>bus_record = r, bus_task_id = tr_task_id r, bus_subtask_id = None, bus_run_id = None,
              bus_review_id = None, bus_session_id = None\<rparr>; eid = tr_entity_id r
     in if tr_vocabulary r = ''task_status'' then b\<lparr>bus_task_id := Some eid\<rparr>
        else if tr_vocabulary r = ''subtask_status'' then
          (case row_of sub_id eid (lg_subtasks s) of None \<Rightarrow> b
           | Some x \<Rightarrow> b\<lparr>bus_task_id := or_else (Some (sub_parent_task_id x)) (bus_task_id b),
                        bus_subtask_id := Some eid\<rparr>)
        else if tr_vocabulary r = ''run_status'' then
          (case row_of rn_id eid (lg_runs s) of None \<Rightarrow> b
           | Some x \<Rightarrow> b\<lparr>bus_run_id := Some eid, bus_subtask_id := Some (rn_subtask_id x)\<rparr>)
        else if tr_vocabulary r = ''session_status'' then
          (case row_of ses_id eid (lg_sessions s) of None \<Rightarrow> b
           | Some x \<Rightarrow> b\<lparr>bus_task_id := or_else (ses_task_id x) (bus_task_id b), bus_session_id := Some eid\<rparr>)
        else if tr_vocabulary r = ''review_status'' then
          (case row_of rv_id eid (lg_reviews s) of None \<Rightarrow> b
           | Some x \<Rightarrow> b\<lparr>bus_task_id := or_else (Some (rv_task_id x)) (bus_task_id b),
                        bus_review_id := Some eid\<rparr>)
        else if tr_vocabulary r = ''approval_status'' then
          (case row_of ap_id eid (lg_approvals s) of None \<Rightarrow> b
           | Some x \<Rightarrow> b\<lparr>bus_task_id := or_else (Some (ap_task_id x)) (bus_task_id b),
                        bus_subtask_id := Some (ap_subtask_id x)\<rparr>)
        else b)"

definition insert_transition_audit :: "transition_record \<Rightarrow> core_ledger \<Rightarrow> core_ledger" where
  "insert_transition_audit r s =
    (let s1 = s\<lparr>lg_audit := lg_audit s @ [r]\<rparr>
     in if tr_outcome r = ''applied'' then s1\<lparr>lg_bus := lg_bus s1 @ [event_correlation s1 r]\<rparr> else s1)"

definition audit_opt :: "transition_record option \<Rightarrow> core_ledger \<Rightarrow> core_ledger" where
  "audit_opt r s = (case r of None \<Rightarrow> s | Some q \<Rightarrow> insert_transition_audit q s)"

definition stored_of :: "('r, 'e) table_access \<Rightarrow> core_ledger \<Rightarrow> string \<Rightarrow> 'e option" where
  "stored_of T s eid = map_option (ta_state T) (row_of (ta_key T) eid (ta_rows T s))"

definition transition_attempt ::
  "('r, 'e) table_access \<Rightarrow> string \<Rightarrow> 'e decide_fn \<Rightarrow> core_ledger
    \<Rightarrow> (exc + (bool \<times> 'e option \<times> bool)) \<times> core_ledger" where
  "transition_attempt T eid decide s =
    (let current_raw = stored_of T s eid
     in case decide current_raw of
          Raise e \<Rightarrow> (Inl e, s)
        | Hold record \<Rightarrow> (Inr (False, current_raw, True), audit_opt record s)
        | Proceed dst flds record \<Rightarrow>
            (let hit = (\<lambda>r. ta_key T r = eid \<and> Some (ta_state T r) = current_raw)
             in if rowcount hit (ta_rows T s) \<noteq> 1 then (Inr (False, current_raw, False), s)
                else (Inr (True, Some dst, True),
                      audit_opt record
                        (ta_put T (upd_where hit (\<lambda>r. fold (ta_col T) flds (ta_set T dst r)) (ta_rows T s)) s))))"

fun transition_row_loop ::
  "nat \<Rightarrow> ('r, 'e) table_access \<Rightarrow> string \<Rightarrow> 'e decide_fn \<Rightarrow> bool \<times> 'e option \<times> 'e list \<Rightarrow> core_ledger
    \<Rightarrow> (exc + (bool \<times> 'e option \<times> 'e list)) \<times> core_ledger" where
  "transition_row_loop 0 T eid decide res s = (Inr res, s)"
| "transition_row_loop (Suc n) T eid decide (a, st, seen) s =
    (let seen' = seen @ (case stored_of T s eid of None \<Rightarrow> [] | Some c \<Rightarrow> [c])
     in case transition_attempt T eid decide s of
          (Inl e, s') \<Rightarrow> (Inl e, s')
        | (Inr (applied, stored, over), s') \<Rightarrow>
            if over then (Inr (applied, stored, seen'), s')
            else transition_row_loop n T eid decide (applied, stored, seen') s')"

text \<open>
  Without a connection of the caller the writer opens its own transaction and retries a lost
  compare-and-set twice; on the caller's connection it tries once.
\<close>

definition transition_row :: "bool \<Rightarrow> ('r, 'e) table_access \<Rightarrow> ('e, core_ledger) locked_writer_fn" where
  "transition_row in_transaction T eid decide s =
    transition_row_loop (if in_transaction then 1 else 3) T eid decide (False, None, []) s"

section \<open>The contract\<close>

locale ledger_table =
  fixes T :: "('r, 'e) table_access"
  assumes put_rows: "ta_rows T (ta_put T rs s) = rs"
    and rows_audit: "ta_rows T (insert_transition_audit q s) = ta_rows T s"
    and put_audit: "lg_audit (ta_put T rs s) = lg_audit s"
    and key_set: "ta_key T (ta_set T e r) = ta_key T r"
    and key_col: "ta_key T (ta_col T c r) = ta_key T r"
    and state_set: "ta_state T (ta_set T e r) = e"
    and state_col: "ta_state T (ta_col T c r) = ta_state T r"
begin

lemma fold_col [simp]:
  "ta_key T (fold (ta_col T) cs r) = ta_key T r" "ta_state T (fold (ta_col T) cs r) = ta_state T r"
  by (induction cs arbitrary: r) (simp_all add: key_col state_col)

lemma rows_audit_opt [simp]: "ta_rows T (audit_opt r s) = ta_rows T s"
  by (simp add: audit_opt_def rows_audit split: option.split)

lemma hit_once:
  assumes "keys_distinct (ta_key T) (ta_rows T s)" "stored_of T s eid = Some c"
  shows "rowcount (\<lambda>r. ta_key T r = eid \<and> Some (ta_state T r) = Some c) (ta_rows T s) = 1"
  using assms rowcount_key_1[OF assms(1), of eid "\<lambda>r. Some (ta_state T r) = Some c"]
  by (auto simp: stored_of_def)

lemma stored_write:
  assumes "keys_distinct (ta_key T) (ta_rows T s)" "stored_of T s eid = Some c"
  shows "stored_of T (ta_put T (upd_where (\<lambda>r. ta_key T r = eid \<and> Some (ta_state T r) = Some c)
      (\<lambda>r. fold (ta_col T) ex (ta_set T dst r)) (ta_rows T s)) s) = (stored_of T s)(eid \<mapsto> dst)"
proof
  fix k
  let ?P = "\<lambda>r. ta_key T r = eid \<and> Some (ta_state T r) = Some c"
    and ?f = "\<lambda>r. fold (ta_col T) ex (ta_set T dst r)"
  have "row_of (ta_key T) k (upd_where ?P ?f (ta_rows T s)) =
      map_option (\<lambda>r. if ?P r then ?f r else r) (row_of (ta_key T) k (ta_rows T s))"
    by (rule row_of_upd_where) (simp add: key_set)
  then show "stored_of T (ta_put T (upd_where ?P ?f (ta_rows T s)) s) k = ((stored_of T s)(eid \<mapsto> dst)) k"
    using assms(2) row_of_SomeD[of "ta_key T" k "ta_rows T s"]
    by (cases "row_of (ta_key T) k (ta_rows T s)") (auto simp: stored_of_def put_rows state_set)
qed

text \<open>With one process the first attempt settles the write.\<close>

lemma transition_row_eq:
  assumes "keys_distinct (ta_key T) (ta_rows T s)"
  shows "transition_row b T eid d s =
    (let cur = stored_of T s eid; seen = (case cur of None \<Rightarrow> [] | Some c \<Rightarrow> [c])
     in case d cur of
          Raise e \<Rightarrow> (Inl e, s)
        | Hold r \<Rightarrow> (Inr (False, cur, seen), audit_opt r s)
        | Proceed dst ex r \<Rightarrow>
            if cur = None then (Inr (False, None, []), s)
            else (Inr (True, Some dst, seen),
                  audit_opt r (ta_put T (upd_where (\<lambda>r. ta_key T r = eid \<and> Some (ta_state T r) = cur)
                    (\<lambda>r. fold (ta_col T) ex (ta_set T dst r)) (ta_rows T s)) s)))"
proof (cases "stored_of T s eid")
  case None
  have "rowcount (\<lambda>r. ta_key T r = eid \<and> Some (ta_state T r) = None) (ta_rows T s) = 0"
    by (simp add: rowcount_def)
  with None show ?thesis
    by (cases "d None"; cases b)
       (simp_all add: transition_row_def transition_attempt_def eval_nat_numeral rowcount_def Let_def)
next
  case (Some c)
  obtain n where n: "(if b then 1 else 3 :: nat) = Suc n" by (cases b) auto
  from Some hit_once[OF assms Some] show ?thesis
    by (cases "d (Some c)") (simp_all add: transition_row_def n transition_attempt_def Let_def)
qed

end

definition same_ledger :: "core_ledger \<Rightarrow> core_ledger \<Rightarrow> bool" where
  "same_ledger s x \<longleftrightarrow> x = s"

definition table_ok :: "('r, 'e) table_access \<Rightarrow> core_ledger \<Rightarrow> bool" where
  "table_ok T s \<longleftrightarrow> keys_distinct (ta_key T) (ta_rows T s)"

lemma lg_audit_insert [simp]: "lg_audit (insert_transition_audit r s) = lg_audit s @ [r]"
  by (simp add: insert_transition_audit_def Let_def)

lemma lg_audit_opt: "lg_audit (audit_opt r s) = lg_audit s @ (case r of None \<Rightarrow> [] | Some q \<Rightarrow> [q])"
  by (simp add: audit_opt_def split: option.split)

sublocale ledger_table \<subseteq> row: locked_writer "stored_of T" lg_audit "\<lambda>s eid r. r" same_ledger
  "table_ok T" "transition_row b T" for b
proof
  fix s eid d st seen s'
  assume ok: "table_ok T s"
  note eq = transition_row_eq[OF ok[unfolded table_ok_def], of b eid d]
  show "\<exists>x cur dst ex r. same_ledger s x \<and> stored_of T x eid = Some cur \<and> d (Some cur) = Proceed dst ex r
      \<and> st = Some dst \<and> seen \<noteq> [] \<and> last seen = cur \<and> stored_of T s' = (stored_of T x)(eid \<mapsto> dst)
      \<and> lg_audit s' = lg_audit x @ (case r of None \<Rightarrow> [] | Some q \<Rightarrow> [q])"
    if "transition_row b T eid d s = (Inr (True, st, seen), s')"
  proof -
    from that eq obtain cur dst ex r where c: "stored_of T s eid = Some cur" "d (Some cur) = Proceed dst ex r"
      "st = Some dst" "seen = [cur]"
      "s' = audit_opt r (ta_put T (upd_where (\<lambda>r. ta_key T r = eid \<and> Some (ta_state T r) = Some cur)
          (\<lambda>r. fold (ta_col T) ex (ta_set T dst r)) (ta_rows T s)) s)"
      by (cases "stored_of T s eid"; cases "d (stored_of T s eid)") (auto simp: Let_def)
    have "stored_of T s' = (stored_of T s)(eid \<mapsto> dst)"
      using stored_write[OF ok[unfolded table_ok_def] c(1), of ex dst]
      by (simp add: c(5) stored_of_def fun_eq_iff)
    with c show ?thesis by (auto simp: same_ledger_def lg_audit_opt put_audit)
  qed
  show "(\<exists>x r. same_ledger s x \<and> d (stored_of T x eid) = Hold r \<and> st = stored_of T x eid
        \<and> stored_of T s' = stored_of T x \<and> (st \<noteq> None \<longrightarrow> seen \<noteq> [] \<and> Some (last seen) = st)
        \<and> lg_audit s' = lg_audit x @ (case r of None \<Rightarrow> [] | Some q \<Rightarrow> [q]))
      \<or> (same_ledger s s' \<and> (\<exists>y. same_ledger s y \<and> st = stored_of T y eid))"
    if "transition_row b T eid d s = (Inr (False, st, seen), s')"
    using that eq
    by (cases "stored_of T s eid"; cases "d (stored_of T s eid)")
       (auto simp: Let_def same_ledger_def lg_audit_opt stored_of_def fun_eq_iff)
  show "same_ledger s s' \<and> d (stored_of T s' eid) = Raise e"
    if "transition_row b T eid d s = (Inl e, s')" for e
    using that eq by (cases "d (stored_of T s eid)") (auto simp: Let_def same_ledger_def split: if_splits)
qed

lemma audit_frames [simp]:
  "lg_tasks (insert_transition_audit q s) = lg_tasks s" "lg_claims (insert_transition_audit q s) = lg_claims s"
  "lg_decisions (insert_transition_audit q s) = lg_decisions s"
  "lg_attempts (insert_transition_audit q s) = lg_attempts s"
  "lg_artifacts (insert_transition_audit q s) = lg_artifacts s"
  "lg_reviews (insert_transition_audit q s) = lg_reviews s"
  "lg_subtasks (insert_transition_audit q s) = lg_subtasks s"
  "lg_runs (insert_transition_audit q s) = lg_runs s"
  "lg_approvals (insert_transition_audit q s) = lg_approvals s"
  "lg_executions (insert_transition_audit q s) = lg_executions s"
  "lg_sessions (insert_transition_audit q s) = lg_sessions s"
  by (simp_all add: insert_transition_audit_def Let_def)

interpretation tasks_t: ledger_table T_tasks
  by unfold_locales (auto simp: T_tasks_def task_col_def split: prod.split)

interpretation subtasks_t: ledger_table T_subtasks
  by unfold_locales (auto simp: T_subtasks_def subtask_col_def split: prod.split)

interpretation runs_t: ledger_table T_runs
  by unfold_locales (auto simp: T_runs_def run_col_def split: prod.split)

interpretation reviews_t: ledger_table T_reviews
  by unfold_locales (auto simp: T_reviews_def review_col_def split: prod.split)

interpretation approvals_t: ledger_table T_approvals
  by unfold_locales (auto simp: T_approvals_def approval_col_def split: prod.split)

interpretation sessions_t: ledger_table T_sessions
  by unfold_locales (auto simp: T_sessions_def session_col_def split: prod.split)

interpretation executions_t: ledger_table T_executions
  by unfold_locales (auto simp: T_executions_def execution_col_def split: prod.split)

section \<open>Operations that may raise\<close>

type_synonym 'a lm = "core_ledger \<Rightarrow> (core_error + 'a) \<times> core_ledger"

definition lret :: "'a \<Rightarrow> 'a lm" where
  "lret x s = (Inr x, s)"

definition lraise :: "core_error \<Rightarrow> 'a lm" where
  "lraise e s = (Inl e, s)"

definition lbnd :: "'a lm \<Rightarrow> ('a \<Rightarrow> 'b lm) \<Rightarrow> 'b lm" where
  "lbnd m f s = (case m s of (Inl e, s1) \<Rightarrow> (Inl e, s1) | (Inr x, s1) \<Rightarrow> f x s1)"

definition lseq :: "'a lm \<Rightarrow> 'b lm \<Rightarrow> 'b lm" where
  "lseq m n = lbnd m (\<lambda>_. n)"

definition lmod :: "(core_ledger \<Rightarrow> core_ledger) \<Rightarrow> unit lm" where
  "lmod f s = (Inr (), f s)"

definition lget :: "(core_ledger \<Rightarrow> 'a) \<Rightarrow> 'a lm" where
  "lget g s = (Inr (g s), s)"

definition lwhen :: "bool \<Rightarrow> unit lm \<Rightarrow> unit lm" where
  "lwhen b m = (if b then m else lret ())"

definition lguard :: "bool \<Rightarrow> core_error \<Rightarrow> unit lm" where
  "lguard b e = (if b then lret () else lraise e)"

definition lsome :: "core_error \<Rightarrow> 'a option \<Rightarrow> 'a lm" where
  "lsome e x = (case x of None \<Rightarrow> lraise e | Some y \<Rightarrow> lret y)"

primrec lfor :: "'a list \<Rightarrow> ('a \<Rightarrow> unit lm) \<Rightarrow> unit lm" where
  "lfor [] f = lret ()"
| "lfor (x # xs) f = lseq (f x) (lfor xs f)"

text \<open>A transaction that raises is rolled back.\<close>

definition ltx :: "'a lm \<Rightarrow> 'a lm" where
  "ltx m s = (case m s of (Inl e, s1) \<Rightarrow> (Inl e, s) | (Inr x, s1) \<Rightarrow> (Inr x, s1))"

text \<open>A verb of the transition authority: what it raises reaches the caller.\<close>

definition lverb :: "(core_ledger \<Rightarrow> (exc + 'a) \<times> core_ledger) \<Rightarrow> 'a lm" where
  "lverb v s = (case v s of (Inl e, s1) \<Rightarrow> (Inl (Transition e), s1) | (Inr x, s1) \<Rightarrow> (Inr x, s1))"

definition new_idM :: "string \<Rightarrow> string lm" where
  "new_idM prefix s = (case core_new_id prefix s of (i, s1) \<Rightarrow> (Inr i, s1))"

text \<open>An INSERT fails on a primary key that is in use.\<close>

definition linsert :: "('r, 'e) table_access \<Rightarrow> 'r \<Rightarrow> unit lm" where
  "linsert T r s =
    (if ta_key T r \<in> ta_key T ` set (ta_rows T s) then (Inl Integrity, s)
     else (Inr (), ta_put T (ta_rows T s @ [r]) s))"

definition record_event :: "string option \<Rightarrow> string \<Rightarrow> string \<Rightarrow> string \<Rightarrow> unit lm" where
  "record_event task_id kind actor ref =
    lmod (\<lambda>s. s\<lparr>lg_events := lg_events s @
      [\<lparr>le_task_id = task_id, le_kind = kind, le_actor = actor, le_ref = ref\<rparr>]\<rparr>)"

definition require_task :: "string \<Rightarrow> core_task lm" where
  "require_task task_id s = lsome NotFound (row_of ct_id task_id (lg_tasks s)) s"

definition require_subtask :: "string \<Rightarrow> subtask lm" where
  "require_subtask subtask_id s = lsome NotFound (row_of sub_id subtask_id (lg_subtasks s)) s"

definition require_review :: "string \<Rightarrow> review_row lm" where
  "require_review review_id s = lsome NotFound (row_of rv_id review_id (lg_reviews s)) s"

definition core_update_task :: "string \<Rightarrow> (core_task \<Rightarrow> core_task) \<Rightarrow> unit lm" where
  "core_update_task task_id f = lmod (\<lambda>s. s\<lparr>lg_tasks := upd_where (\<lambda>r. ct_id r = task_id) f (lg_tasks s)\<rparr>)"

definition touch :: "real \<Rightarrow> string \<Rightarrow> unit lm" where
  "touch now task_id = core_update_task task_id (\<lambda>r. r\<lparr>ct_updated_at := now\<rparr>)"

text \<open>The authorities of the seven tables.\<close>

definition task_transition where
  "task_transition b eid dst actor ex = transition TASK_STATUS_VOCAB (transition_row b T_tasks) eid dst actor (Some eid) ex"

definition task_advance where
  "task_advance eid dst from actor ex =
    lverb (advance TASK_STATUS_VOCAB (transition_row False T_tasks) eid dst from actor (Some eid) ex)"

definition advance_task :: "real \<Rightarrow> string \<Rightarrow> task_status \<Rightarrow> task_status set \<Rightarrow> unit lm" where
  "advance_task now task_id dst from =
    lseq (require_task task_id)
      (lseq (task_advance task_id dst from ''system'' [(''updated_at'', CReal now)]) (lret ()))"

definition subtask_transition where
  "subtask_transition eid dst actor task_id ex =
    lverb (transition SUBTASK_STATUS_VOCAB (transition_row False T_subtasks) eid dst actor (Some task_id) ex)"

definition subtask_advance where
  "subtask_advance eid dst from actor task_id ex =
    lverb (advance SUBTASK_STATUS_VOCAB (transition_row False T_subtasks) eid dst from actor (Some task_id) ex)"

section \<open>Effects of operations\<close>

definition keeps :: "(core_ledger \<Rightarrow> core_ledger \<Rightarrow> bool) \<Rightarrow> 'a lm \<Rightarrow> bool" where
  "keeps R m \<longleftrightarrow> (\<forall>s. R s (snd (m s)))"

locale ledger_effect =
  fixes R :: "core_ledger \<Rightarrow> core_ledger \<Rightarrow> bool"
  assumes refl: "R s s" and trans: "R s x \<Longrightarrow> R x y \<Longrightarrow> R s y"
begin

lemma keeps_pure [simp, intro]:
  "keeps R (lret x)" "keeps R (lraise e)" "keeps R (lget g)" "keeps R (lguard b e)" "keeps R (lsome e y)"
  "keeps R (require_task tid)" "keeps R (require_subtask sid)" "keeps R (require_review rid)"
  by (auto simp: keeps_def lret_def lraise_def lget_def lguard_def lsome_def require_task_def
        require_subtask_def require_review_def refl split: option.splits)

lemma keeps_bnd [intro]: "keeps R m \<Longrightarrow> (\<And>x. keeps R (f x)) \<Longrightarrow> keeps R (lbnd m f)"
  unfolding keeps_def
proof
  fix s assume a: "\<forall>s. R s (snd (m s))" "\<And>x. \<forall>s. R s (snd (f x s))"
  obtain r s1 where m: "m s = (r, s1)" by (cases "m s")
  with a(1) have "R s s1" by (metis snd_conv)
  with m a(2) show "R s (snd (lbnd m f s))"
    by (cases r) (auto simp: lbnd_def intro: trans)
qed

lemma keeps_seq [intro]: "keeps R m \<Longrightarrow> keeps R n \<Longrightarrow> keeps R (lseq m n)"
  unfolding lseq_def by (rule keeps_bnd)

lemma keeps_when [intro]: "keeps R m \<Longrightarrow> keeps R (lwhen b m)"
  by (simp add: lwhen_def)

lemma keeps_for [intro]: "(\<And>x. keeps R (f x)) \<Longrightarrow> keeps R (lfor xs f)"
  by (induction xs) auto

lemma keeps_tx [intro]: "keeps R m \<Longrightarrow> keeps R (ltx m)"
proof -
  assume m: "keeps R m"
  show ?thesis unfolding keeps_def
  proof
    fix s
    obtain r s1 where p: "m s = (r, s1)" by (cases "m s")
    with m have "R s s1" unfolding keeps_def by (metis snd_conv)
    with p show "R s (snd (ltx m s))" by (cases r) (simp_all add: ltx_def refl)
  qed
qed

lemma keeps_if: "keeps R m \<Longrightarrow> keeps R n \<Longrightarrow> keeps R (if b then m else n)"
  by simp

lemma keeps_case_option:
  "keeps R m \<Longrightarrow> (\<And>x. keeps R (f x)) \<Longrightarrow> keeps R (case y of None \<Rightarrow> m | Some x \<Rightarrow> f x)"
  by (cases y) simp_all

lemmas keeps_rules = keeps_pure keeps_bnd keeps_seq keeps_when keeps_for keeps_tx keeps_if keeps_case_option

lemma keeps_verb: "(\<And>s. R s (snd (v s))) \<Longrightarrow> keeps R (lverb v)"
  unfolding keeps_def
proof
  fix s assume a: "\<And>s. R s (snd (v s))"
  obtain r s1 where "v s = (r, s1)" by (cases "v s")
  with a[of s] show "R s (snd (lverb v s))" by (cases r) (simp_all add: lverb_def)
qed

lemma keeps_mod: "(\<And>s. R s (f s)) \<Longrightarrow> keeps R (lmod f)"
  by (simp add: keeps_def lmod_def)

end

section \<open>Frames of status writes\<close>

lemma transition_row_frame:
  assumes "\<And>rs s. g (ta_put T rs s) = g s" "\<And>q s. g (insert_transition_audit q s) = g s"
  shows "g (snd (transition_row b T eid d s)) = g s"
proof -
  have audit: "g (audit_opt r s) = g s" for r s
    by (simp add: audit_opt_def assms(2) split: option.split)
  have att: "g (snd (transition_attempt T eid d s)) = g s" for s
    by (cases "d (stored_of T s eid)") (simp_all add: transition_attempt_def Let_def assms(1) audit)
  have "g (snd (transition_row_loop n T eid d res s)) = g s" for n res
  proof (induction n arbitrary: res s)
    case (Suc n)
    obtain a st seen where res: "res = (a, st, seen)" by (cases res)
    obtain out s1 where o: "transition_attempt T eid d s = (out, s1)" by (cases "transition_attempt T eid d s")
    have s1: "g s1 = g s" using att[of s] o by simp
    show ?case using Suc.IH s1 o res by (cases out) (auto simp: Let_def split: prod.splits)
  qed simp
  then show ?thesis by (simp add: transition_row_def)
qed

lemma snd_verbs:
  "snd (transition v w eid dst actor tid ex s) = snd (w eid (transition_decide v eid dst actor tid ex) s)"
  "snd (advance v w eid dst from actor tid ex s) = snd (w eid (advance_decide v eid dst from actor tid ex) s)"
  "snd (converge v w eid dst actor ov tid ex fa fr s)
     = snd (w eid (converge_decide v eid dst actor ov tid ex fa fr) s)"
  "snd (cancel v w eid dst actor tid ex s) = snd (w eid (cancel_decide v eid dst actor tid ex) s)"
  by (auto simp: verb_defs Let_def split: prod.splits sum.splits option.splits)

lemma snd_lverb: "snd (lverb v s) = snd (v s)"
  by (simp add: lverb_def split: prod.splits sum.splits)

lemma snd_task_verbs:
  "snd (task_transition b eid dst actor ex s)
     = snd (transition_row b T_tasks eid (transition_decide TASK_STATUS_VOCAB eid dst actor (Some eid) ex) s)"
  "snd (task_advance eid dst from actor ex s)
     = snd (transition_row False T_tasks eid (advance_decide TASK_STATUS_VOCAB eid dst from actor (Some eid) ex) s)"
  by (simp_all add: task_transition_def task_advance_def snd_lverb snd_verbs)

end
