(* ===== verification/Core_Claims.thy ===== *)
theory Core_Claims
  imports Core_Ledger
begin

text \<open>
  Tasks, leases and decisions of the ledger (\<^verbatim>\<open>core/service.py\<close> with \<^verbatim>\<open>core/claims.py\<close> and
  \<^verbatim>\<open>core/decisions.py\<close>): \<open>core_create_task\<close>, \<open>add_constraint\<close>, \<open>claim_task\<close>, \<open>release_task\<close> and
  \<open>record_decision\<close>, the exclusivity of the primary manager and the authority over locked
  decisions.
\<close>

section \<open>Tasks\<close>

definition add_constraint :: "real \<Rightarrow> string \<Rightarrow> string \<Rightarrow> string \<Rightarrow> unit lm" where
  "add_constraint now task_id body created_by =
    lseq (require_task task_id)
      (lseq (lmod (\<lambda>s. s\<lparr>lg_constraints := lg_constraints s @
          [\<lparr>cn_task_id = task_id, cn_text = body, cn_created_by = created_by\<rparr>]\<rparr>))
        (touch now task_id))"

definition core_create_task ::
  "real \<Rightarrow> string \<Rightarrow> string \<Rightarrow> string \<Rightarrow> string \<Rightarrow> string list \<Rightarrow> string lm" where
  "core_create_task now title goal prio created_by constraints =
    lbnd (new_idM ''task'') (\<lambda>tid.
    lseq (linsert T_tasks \<lparr>ct_id = tid, ct_title = title, ct_goal = goal, ct_status = TsQueued,
        ct_priority = prio, ct_created_by = created_by, ct_created_at = now, ct_updated_at = now,
        ct_current_manager = None\<rparr>)
    (lseq (lfor constraints (\<lambda>c. add_constraint now tid c created_by)) (lret tid)))"

section \<open>Claims\<close>

definition MAX_TTL_SECONDS :: int where
  "MAX_TTL_SECONDS = 24 * 3600"

definition validate_ttl :: "int \<Rightarrow> int lm" where
  "validate_ttl ttl = (if ttl < 1 then lraise InvalidRequest else lret (min ttl MAX_TTL_SECONDS))"

definition claim_active :: "core_claim_row \<Rightarrow> real \<Rightarrow> bool" where
  "claim_active c inst \<longleftrightarrow> cl_released_at c = None \<and> cl_expires_at c > inst"

definition active_claims :: "core_ledger \<Rightarrow> string \<Rightarrow> real \<Rightarrow> core_claim_row list" where
  "active_claims s task_id now =
    sort_key cl_created_at (filter (\<lambda>c. cl_task_id c = task_id \<and> claim_active c now) (lg_claims s))"

definition active_primary :: "core_claim_row list \<Rightarrow> real \<Rightarrow> core_claim_row option" where
  "active_primary claims now = find (\<lambda>c. cl_role c = PrimaryManager \<and> claim_active c now) claims"

definition check_primary_exclusivity :: "core_claim_row list \<Rightarrow> string \<Rightarrow> real \<Rightarrow> unit lm" where
  "check_primary_exclusivity claims manager_id now =
    (case active_primary claims now of None \<Rightarrow> lret ()
     | Some holder \<Rightarrow> lguard (cl_manager_id holder = manager_id) Conflict)"

definition claim_role_of :: "string \<Rightarrow> claim_role option" where
  "claim_role_of r =
    map_of [(''primary_manager'', PrimaryManager), (''reviewer'', ReviewerRole), (''planner'', Planner),
      (''implementer'', Implementer), (''observer'', Observer), (''human_owner'', HumanOwner),
      (''worker_delegate'', WorkerDelegate)] r"

definition insert_claim :: "core_claim_row \<Rightarrow> unit lm" where
  "insert_claim c s =
    (if cl_id c \<in> cl_id ` set (lg_claims s) then (Inl Integrity, s)
     else (Inr (), s\<lparr>lg_claims := lg_claims s @ [c]\<rparr>))"

text \<open>What a primary claim does to its task, inside the transaction of the claim.\<close>

definition take_task :: "real \<Rightarrow> string \<Rightarrow> string \<Rightarrow> unit lm" where
  "take_task now task_id manager_id =
    lbnd (require_task task_id) (\<lambda>task.
      if ct_status task = TsQueued then
        lseq (lverb (task_transition True task_id TsInProgress manager_id
               [(''current_manager'', CText manager_id), (''updated_at'', CReal now)])) (lret ())
      else core_update_task task_id (\<lambda>r. r\<lparr>ct_current_manager := Some manager_id, ct_updated_at := now\<rparr>))"

text \<open>Check and insert are one transaction.\<close>

definition claim_span :: "real \<Rightarrow> string \<Rightarrow> string \<Rightarrow> claim_role \<Rightarrow> int \<Rightarrow> core_claim_row lm" where
  "claim_span now task_id manager_id role_enum ttl = ltx (
       lbnd (lget (\<lambda>s. active_claims s task_id now)) (\<lambda>existing.
       lseq (if role_enum = PrimaryManager then check_primary_exclusivity existing manager_id now else lret ())
       (lbnd (new_idM ''claim'') (\<lambda>cid.
        let claim = \<lparr>cl_id = cid, cl_task_id = task_id, cl_manager_id = manager_id, cl_role = role_enum,
              cl_expires_at = now + real_of_int ttl, cl_created_at = now, cl_released_at = None\<rparr>
        in lseq (insert_claim claim)
           (lseq (lwhen (role_enum = PrimaryManager) (take_task now task_id manager_id))
             (lret claim))))))"

definition claim_task :: "real \<Rightarrow> string \<Rightarrow> string \<Rightarrow> string \<Rightarrow> int \<Rightarrow> core_claim_row lm" where
  "claim_task now task_id manager_id role ttl_seconds =
    lseq (require_task task_id)
    (lbnd (lsome InvalidRequest (claim_role_of role)) (\<lambda>role_enum.
     lbnd (validate_ttl ttl_seconds) (\<lambda>ttl.
     lbnd (claim_span now task_id manager_id role_enum ttl)
      (\<lambda>claim. lseq (record_event (Some task_id) ''task_claimed'' manager_id role) (lret claim)))))"

definition release_claims :: "string \<Rightarrow> string \<Rightarrow> real \<Rightarrow> nat lm" where
  "release_claims task_id manager_id now s =
    (let P = (\<lambda>c. cl_task_id c = task_id \<and> cl_manager_id c = manager_id \<and> cl_released_at c = None)
     in (Inr (rowcount P (lg_claims s)),
         s\<lparr>lg_claims := upd_where P (\<lambda>c. c\<lparr>cl_released_at := Some now\<rparr>) (lg_claims s)\<rparr>))"

definition release_task :: "real \<Rightarrow> string \<Rightarrow> string \<Rightarrow> unit lm" where
  "release_task now task_id manager_id =
    lbnd (require_task task_id) (\<lambda>task.
    lbnd (release_claims task_id manager_id now) (\<lambda>n.
    lseq (lguard (n \<noteq> 0) NotFound)
    (lseq (lwhen (ct_current_manager task = Some manager_id)
            (core_update_task task_id (\<lambda>r. r\<lparr>ct_updated_at := now, ct_current_manager := None\<rparr>)))
      (record_event (Some task_id) ''task_released'' manager_id []))))"

section \<open>Decisions\<close>

definition has_decision_authority :: "core_claim_row list \<Rightarrow> string \<Rightarrow> real \<Rightarrow> bool" where
  "has_decision_authority claims manager_id now \<longleftrightarrow>
    list_ex (\<lambda>c. cl_manager_id c = manager_id \<and> cl_role c = HumanOwner \<and> claim_active c now) claims"

definition check_supersede_allowed ::
  "core_decision_row list \<Rightarrow> string list \<Rightarrow> string \<Rightarrow> core_claim_row list \<Rightarrow> real \<Rightarrow> unit lm" where
  "check_supersede_allowed targets missing made_by claims now =
    (if missing \<noteq> [] then lraise NotFound
     else if filter de_locked targets = [] then lret ()
     else lguard (has_decision_authority claims made_by now) PolicyViolation)"

definition locked_decisions :: "core_decision_row list \<Rightarrow> core_decision_row list" where
  "locked_decisions ds = filter (\<lambda>d. de_locked d \<and> de_superseded_by d = None) ds"

definition get_decision :: "core_ledger \<Rightarrow> string \<Rightarrow> core_decision_row option" where
  "get_decision s decision_id = row_of de_id decision_id (lg_decisions s)"

definition insert_decision :: "core_decision_row \<Rightarrow> unit lm" where
  "insert_decision d s =
    (if de_id d \<in> de_id ` set (lg_decisions s) then (Inl Integrity, s)
     else (Inr (), s\<lparr>lg_decisions := lg_decisions s @ [d]\<rparr>))"

definition mark_superseded :: "string \<Rightarrow> string \<Rightarrow> unit lm" where
  "mark_superseded decision_id succ =
    lmod (\<lambda>s. s\<lparr>lg_decisions := upd_where (\<lambda>d. de_id d = decision_id)
      (\<lambda>d. d\<lparr>de_superseded_by := Some succ\<rparr>) (lg_decisions s)\<rparr>)"

record decision_request =
  dr_made_by :: string
  dr_decision :: string
  dr_rationale :: string
  dr_locked :: bool
  dr_supersedes :: "string list"

definition record_decision :: "real \<Rightarrow> string \<Rightarrow> decision_request \<Rightarrow> core_decision_row lm" where
  "record_decision now task_id req =
    lseq (require_task task_id)
    (ltx (
      lbnd (lget (\<lambda>s. List.map_filter (get_decision s) (dr_supersedes req))) (\<lambda>targets.
      lbnd (lget (\<lambda>s. filter (\<lambda>i. get_decision s i = None) (dr_supersedes req))) (\<lambda>missing.
      lbnd (lget (\<lambda>s. active_claims s task_id now)) (\<lambda>active.
      lseq (if dr_supersedes req \<noteq> [] then check_supersede_allowed targets missing (dr_made_by req) active now
            else lret ())
      (lbnd (new_idM ''decision'') (\<lambda>did.
       let d = \<lparr>de_id = did, de_task_id = task_id, de_made_by = dr_made_by req,
                de_decision = dr_decision req, de_rationale = dr_rationale req, de_locked = dr_locked req,
                de_created_at = now, de_superseded_by = None\<rparr>
       in lseq (insert_decision d)
          (lseq (lfor targets (\<lambda>t. mark_superseded (de_id t) did))
          (lseq (touch now task_id) (lret d))))))))))"

section \<open>What leaves the claims alone\<close>

definition same_claims :: "core_ledger \<Rightarrow> core_ledger \<Rightarrow> bool" where
  "same_claims s s' \<longleftrightarrow> lg_claims s' = lg_claims s"

interpretation claims_fixed: ledger_effect same_claims
  by unfold_locales (auto simp: same_claims_def)

lemma same_claims_prims [simp, intro]:
  "keeps same_claims (new_idM p)" "keeps same_claims (linsert T_tasks r)"
  "keeps same_claims (record_event a b c d)" "keeps same_claims (core_update_task tid f)"
  "keeps same_claims (touch now tid)" "keeps same_claims (insert_decision dd)"
  "keeps same_claims (mark_superseded x y)"
  "keeps same_claims (lverb (task_transition bb eid dst actor ex))"
  "keeps same_claims (task_advance eid dst from actor ex)"
  by (auto simp: keeps_def same_claims_def new_idM_def core_new_id_def linsert_def T_tasks_def record_event_def
        lmod_def core_update_task_def touch_def insert_decision_def mark_superseded_def snd_lverb snd_task_verbs
        intro!: transition_row_frame)

lemma same_claims_constraint: "keeps same_claims (add_constraint now tid c who)"
  unfolding add_constraint_def
  by (intro claims_fixed.keeps_rules claims_fixed.keeps_mod same_claims_prims) (simp add: same_claims_def)

lemma same_claims_ops:
  "keeps same_claims (take_task now tid m)"
  "keeps same_claims (core_create_task now title goal prio who cs)"
  "keeps same_claims (record_decision now tid req)"
  unfolding take_task_def core_create_task_def record_decision_def check_supersede_allowed_def Let_def
  by (intro claims_fixed.keeps_rules same_claims_prims same_claims_constraint)+

section \<open>One primary manager at a time\<close>

text \<open>From an instant on, all live primary claims of a task belong to one manager.\<close>

definition exclusive :: "real \<Rightarrow> core_claim_row list \<Rightarrow> bool" where
  "exclusive t cs \<longleftrightarrow> (\<forall>inst \<ge> t. \<forall>c \<in> set cs. \<forall>d \<in> set cs.
     cl_task_id c = cl_task_id d \<and> cl_role c = PrimaryManager \<and> cl_role d = PrimaryManager
     \<and> claim_active c inst \<and> claim_active d inst \<longrightarrow> cl_manager_id c = cl_manager_id d)"

lemma lbnd_Inr: "lbnd m f s = (Inr y, s2) \<longleftrightarrow> (\<exists>x s1. m s = (Inr x, s1) \<and> f x s1 = (Inr y, s2))"
  by (auto simp: lbnd_def split: prod.splits sum.splits)

lemma lseq_Inr: "lseq m n s = (Inr y, s2) \<longleftrightarrow> (\<exists>x s1. m s = (Inr x, s1) \<and> n s1 = (Inr y, s2))"
  by (simp add: lseq_def lbnd_Inr)

lemma lprims_Inr [simp]:
  "lret x s = (Inr y, s') \<longleftrightarrow> y = x \<and> s' = s" "lraise e s = (Inr y, s') \<longleftrightarrow> False"
  "lget g s = (Inr z, s') \<longleftrightarrow> z = g s \<and> s' = s" "lguard b e s = (Inr u, s') \<longleftrightarrow> b \<and> s' = s"
  "lsome e o1 s = (Inr v, s') \<longleftrightarrow> o1 = Some v \<and> s' = s"
  by (auto simp: lret_def lraise_def lget_def lguard_def lsome_def split: option.splits)

lemma ltx_Inr: "ltx m s = (Inr y, s') \<longleftrightarrow> m s = (Inr y, s')"
  by (auto simp: ltx_def split: prod.splits sum.splits)

lemma ltx_Inl: "ltx m s = (Inl e, s') \<Longrightarrow> s' = s"
  by (auto simp: ltx_def split: prod.splits sum.splits)

lemma keepsD: "keeps R m \<Longrightarrow> m s = (r, s') \<Longrightarrow> R s s'"
  unfolding keeps_def by (metis snd_conv)

lemma claim_span_Inr:
  assumes "claim_span now task_id manager_id role_enum ttl s = (Inr c, s')"
  shows "lg_claims s' = lg_claims s @ [c] \<and> cl_task_id c = task_id \<and> cl_manager_id c = manager_id
    \<and> cl_role c = role_enum \<and> cl_created_at c = now \<and> cl_expires_at c = now + real_of_int ttl
    \<and> cl_released_at c = None
    \<and> (role_enum = PrimaryManager \<longrightarrow> fst (check_primary_exclusivity (active_claims s task_id now) manager_id now s) = Inr ())"
proof -
  from assms obtain s1 s2 s3 s4 cid where
    chk: "(if role_enum = PrimaryManager then check_primary_exclusivity (active_claims s task_id now) manager_id now
           else lret ()) s = (Inr (), s1)"
    and i: "new_idM ''claim'' s1 = (Inr cid, s2)"
    and c: "c = \<lparr>cl_id = cid, cl_task_id = task_id, cl_manager_id = manager_id, cl_role = role_enum,
              cl_expires_at = now + real_of_int ttl, cl_created_at = now, cl_released_at = None\<rparr>"
    and ins: "insert_claim c s2 = (Inr (), s3)"
    and t: "lwhen (role_enum = PrimaryManager) (take_task now task_id manager_id) s3 = (Inr (), s4)" "s' = s4"
    unfolding claim_span_def ltx_Inr lbnd_Inr lseq_Inr by (auto simp: Let_def lseq_Inr)
  have "s1 = s" using chk by (auto simp: check_primary_exclusivity_def split: if_splits option.splits)
  have "lg_claims s2 = lg_claims s1"
    using keepsD[OF same_claims_prims(1) i] by (simp add: same_claims_def)
  moreover have "lg_claims s3 = lg_claims s2 @ [c]" using ins by (auto simp: insert_claim_def split: if_splits)
  moreover have "lg_claims s4 = lg_claims s3"
    using keepsD[OF claims_fixed.keeps_when[OF same_claims_ops(1)] t(1)] by (simp add: same_claims_def)
  ultimately show ?thesis using c t(2) chk \<open>s1 = s\<close> by auto
qed

text \<open>How the claims change over a claim: not at all, or by one claim whose holder is alone.\<close>

definition fresh_claim :: "real \<Rightarrow> core_claim_row list \<Rightarrow> core_claim_row \<Rightarrow> bool" where
  "fresh_claim now cs c \<longleftrightarrow> cl_role c = PrimaryManager \<longrightarrow>
    (case active_primary (sort_key cl_created_at (filter (\<lambda>d. cl_task_id d = cl_task_id c \<and> claim_active d now) cs)) now of
       None \<Rightarrow> True | Some h \<Rightarrow> cl_manager_id h = cl_manager_id c)"

lemma claim_task_claims:
  "lg_claims (snd (claim_task now task_id manager_id role ttl s)) = lg_claims s
   \<or> (\<exists>c. lg_claims (snd (claim_task now task_id manager_id role ttl s)) = lg_claims s @ [c]
        \<and> fresh_claim now (lg_claims s) c)"
proof -
  obtain r s1 where t: "require_task task_id s = (r, s1)" by (cases "require_task task_id s")
  have "s1 = s" using t by (auto simp: require_task_def lsome_def lret_def lraise_def split: option.splits)
  have ttl: "snd (validate_ttl ttl s) = s" by (simp add: validate_ttl_def lret_def lraise_def)
  show ?thesis
  proof (cases "\<exists>re n c s2. r \<noteq> Inl NotFound \<and> claim_role_of role = Some re
      \<and> validate_ttl ttl s = (Inr n, s) \<and> claim_span now task_id manager_id re n s = (Inr c, s2)")
    case True
    then obtain re n c s2 where re: "claim_role_of role = Some re" "validate_ttl ttl s = (Inr n, s)"
      and sp: "claim_span now task_id manager_id re n s = (Inr c, s2)" and r: "r \<noteq> Inl NotFound" by blast
    from claim_span_Inr[OF sp] have cl: "lg_claims s2 = lg_claims s @ [c]" and fr: "fresh_claim now (lg_claims s) c"
      by (auto simp: fresh_claim_def check_primary_exclusivity_def active_claims_def lguard_def lret_def lraise_def
          split: option.splits if_splits)
    have "\<exists>x. r = Inr x" using t r
      by (auto simp: require_task_def lsome_def lret_def lraise_def split: option.splits)
    then have "lg_claims (snd (claim_task now task_id manager_id role ttl s)) = lg_claims s2"
      using t \<open>s1 = s\<close> re sp
      by (auto simp: claim_task_def lseq_def lbnd_def lsome_def lret_def record_event_def lmod_def)
    with cl fr show ?thesis by auto
  next
    case False
    have "snd (claim_task now task_id manager_id role ttl s) = s"
    proof (cases r)
      case (Inl e)
      then show ?thesis using t \<open>s1 = s\<close> by (simp add: claim_task_def lseq_def lbnd_def)
    next
      case (Inr x)
      have sp: "claim_span now task_id manager_id re n s = (Inl e, s2) \<Longrightarrow> s2 = s" for re n e s2
        unfolding claim_span_def by (rule ltx_Inl)
      show ?thesis using t \<open>s1 = s\<close> Inr False ttl
        by (cases "validate_ttl ttl s")
           (auto simp: claim_task_def lseq_def lbnd_def lsome_def lret_def lraise_def
             split: option.splits prod.splits sum.splits dest: sp)
    qed
    then show ?thesis by simp
  qed
qed

lemma claim_active_mono: "claim_active c later \<Longrightarrow> now \<le> later \<Longrightarrow> claim_active c now"
  by (auto simp: claim_active_def)

lemma exclusiveD:
  "exclusive t cs \<Longrightarrow> t \<le> inst \<Longrightarrow> c \<in> set cs \<Longrightarrow> d \<in> set cs \<Longrightarrow> cl_task_id c = cl_task_id d
    \<Longrightarrow> cl_role c = PrimaryManager \<Longrightarrow> cl_role d = PrimaryManager \<Longrightarrow> claim_active c inst \<Longrightarrow> claim_active d inst
    \<Longrightarrow> cl_manager_id c = cl_manager_id d"
  unfolding exclusive_def by blast

lemma find_SomeD: "find P xs = Some x \<Longrightarrow> x \<in> set xs \<and> P x"
  by (induction xs) (auto split: if_splits)

lemma fresh_claim_alone:
  assumes ex: "exclusive t cs" and "t \<le> now" and fr: "fresh_claim now cs c" and "cl_role c = PrimaryManager"
    and d: "d \<in> set cs" "cl_task_id d = cl_task_id c" "cl_role d = PrimaryManager" "claim_active d now"
  shows "cl_manager_id d = cl_manager_id c"
proof -
  let ?as = "sort_key cl_created_at (filter (\<lambda>d. cl_task_id d = cl_task_id c \<and> claim_active d now) cs)"
  have "d \<in> set ?as" using d by simp
  then obtain h where h: "active_primary ?as now = Some h"
    using d(3,4) by (cases "active_primary ?as now") (auto simp: active_primary_def find_None_iff)
  then have "h \<in> set ?as" "cl_role h = PrimaryManager" "claim_active h now"
    unfolding active_primary_def by (auto dest!: find_SomeD simp del: set_sort)
  then have "cl_manager_id d = cl_manager_id h"
    using exclusiveD[OF ex \<open>t \<le> now\<close> d(1), of h] d by simp
  moreover have "cl_manager_id h = cl_manager_id c" using fr h assms(4) by (simp add: fresh_claim_def)
  ultimately show ?thesis by simp
qed

lemma exclusive_later: "exclusive t cs \<Longrightarrow> t \<le> now \<Longrightarrow> exclusive now cs"
  unfolding exclusive_def by (meson order_trans)

lemma exclusive_claim:
  assumes "exclusive t cs" "t \<le> now" "fresh_claim now cs c"
  shows "exclusive now (cs @ [c])"
  unfolding exclusive_def
proof (intro allI impI ballI)
  fix inst a b
  assume w: "now \<le> inst" and ab: "a \<in> set (cs @ [c])" "b \<in> set (cs @ [c])"
    and p: "cl_task_id a = cl_task_id b \<and> cl_role a = PrimaryManager \<and> cl_role b = PrimaryManager
      \<and> claim_active a inst \<and> claim_active b inst"
  have "claim_active a now" "claim_active b now" using p w claim_active_mono by blast+
  note fa = fresh_claim_alone[OF assms]
  show "cl_manager_id a = cl_manager_id b"
  proof (cases "a = c \<or> b = c")
    case True
    then show ?thesis
      using ab p fa[of a] fa[of b] \<open>claim_active a now\<close> \<open>claim_active b now\<close> by auto
  next
    case False
    then show ?thesis using ab p exclusiveD[OF assms(1), of inst a b] assms(2) w by auto
  qed
qed

lemma exclusive_release:
  assumes "exclusive t cs" "\<And>c. cl_task_id (f c) = cl_task_id c" "\<And>c. cl_manager_id (f c) = cl_manager_id c"
    "\<And>c. cl_role (f c) = cl_role c" "\<And>c inst. claim_active (f c) inst \<Longrightarrow> claim_active c inst"
  shows "exclusive t (upd_where P f cs)"
proof -
  let ?g = "\<lambda>c. if P c then f c else c"
  have g: "cl_task_id (?g c) = cl_task_id c" "cl_manager_id (?g c) = cl_manager_id c" "cl_role (?g c) = cl_role c"
    "claim_active (?g c) inst \<Longrightarrow> claim_active c inst" for c inst
    using assms(2-5) by (auto split: if_splits)
  show ?thesis unfolding exclusive_def set_upd_where
  proof (intro allI impI ballI)
    fix inst c d
    assume w: "t \<le> inst" and m: "c \<in> ?g ` set cs" "d \<in> ?g ` set cs"
      and p: "cl_task_id c = cl_task_id d \<and> cl_role c = PrimaryManager \<and> cl_role d = PrimaryManager
        \<and> claim_active c inst \<and> claim_active d inst"
    from m obtain a b where a: "a \<in> set cs" "c = ?g a" and b: "b \<in> set cs" "d = ?g b" by blast
    have "cl_manager_id a = cl_manager_id b"
      using assms(1) w a(1) b(1) p g unfolding exclusive_def a(2) b(2) by metis
    then show "cl_manager_id c = cl_manager_id d" unfolding a(2) b(2) g(2) .
  qed
qed

lemma release_task_claims:
  "\<exists>P. lg_claims (snd (release_task now task_id manager_id s)) =
     upd_where P (\<lambda>c. c\<lparr>cl_released_at := Some now\<rparr>) (lg_claims s)"
proof (cases "row_of ct_id task_id (lg_tasks s)")
  case None
  have "upd_where (\<lambda>_. False) (\<lambda>c. c\<lparr>cl_released_at := Some now\<rparr>) (lg_claims s) = lg_claims s"
    by (rule upd_where_id) simp
  then show ?thesis using None
    by (intro exI[of _ "\<lambda>_. False"])
       (simp add: release_task_def lbnd_def require_task_def lsome_def lraise_def)
next
  case (Some t)
  then show ?thesis
    by (intro exI[of _ "\<lambda>c. cl_task_id c = task_id \<and> cl_manager_id c = manager_id \<and> cl_released_at c = None"])
       (simp add: release_task_def lbnd_def lseq_def require_task_def lsome_def lret_def release_claims_def Let_def
          lguard_def lraise_def lwhen_def core_update_task_def lmod_def record_event_def)
qed

text \<open>The claims over time; the clock does not run backwards, and other operations write no claim.\<close>

inductive lease_step :: "real \<times> core_ledger \<Rightarrow> real \<times> core_ledger \<Rightarrow> bool" where
  claim_step: "t \<le> now \<Longrightarrow> lease_step (t, s) (now, snd (claim_task now task_id manager_id role ttl s))"
| release_step: "t \<le> now \<Longrightarrow> lease_step (t, s) (now, snd (release_task now task_id manager_id s))"
| other_step: "t \<le> now \<Longrightarrow> same_claims s s' \<Longrightarrow> lease_step (t, s) (now, s')"

lemma lease_step_exclusive: "lease_step a b \<Longrightarrow> exclusive (fst a) (lg_claims (snd a)) \<Longrightarrow> exclusive (fst b) (lg_claims (snd b))"
proof (induction rule: lease_step.induct)
  case (claim_step t now s task_id manager_id role ttl)
  then show ?case
    using claim_task_claims[of now task_id manager_id role ttl s] exclusive_later exclusive_claim by fastforce
next
  case (release_step t now s task_id manager_id)
  obtain P where P: "lg_claims (snd (release_task now task_id manager_id s)) =
     upd_where P (\<lambda>c. c\<lparr>cl_released_at := Some now\<rparr>) (lg_claims s)"
    using release_task_claims by blast
  have "exclusive now (lg_claims s)" using release_step exclusive_later by simp
  then have "exclusive now (upd_where P (\<lambda>c. c\<lparr>cl_released_at := Some now\<rparr>) (lg_claims s))"
    by (rule exclusive_release) (simp_all add: claim_active_def)
  with P show ?case by simp
next
  case (other_step t now s s')
  then show ?case using exclusive_later by (simp add: same_claims_def)
qed

lemma lease_run_exclusive:
  "lease_step\<^sup>*\<^sup>* a b \<Longrightarrow> exclusive (fst a) (lg_claims (snd a)) \<Longrightarrow> exclusive (fst b) (lg_claims (snd b))"
  by (induction rule: rtranclp_induct) (auto intro: lease_step_exclusive)

text \<open>
  C29. A task has one primary manager at a time. Whatever sequence of claims, renewals, releases
  and other operations, under a clock that does not run backwards, two live primary claims on
  one task are held by the same manager.
\<close>

theorem primary_claim_exclusive:
  assumes "lease_step\<^sup>*\<^sup>* (t0, s0) (t, s)" "lg_claims s0 = []"
    and "c \<in> set (lg_claims s)" "d \<in> set (lg_claims s)" "cl_task_id c = cl_task_id d"
    and "cl_role c = PrimaryManager" "cl_role d = PrimaryManager" "claim_active c t" "claim_active d t"
  shows "cl_manager_id c = cl_manager_id d"
proof -
  have "exclusive t0 (lg_claims s0)" using assms(2) by (simp add: exclusive_def)
  then have "exclusive t (lg_claims s)" using lease_run_exclusive[OF assms(1)] by simp
  then show ?thesis by (rule exclusiveD) (use assms in auto)
qed

section \<open>Locked decisions\<close>

definition superseded :: "string set \<Rightarrow> string \<Rightarrow> core_decision_row list \<Rightarrow> core_decision_row list" where
  "superseded ids did = upd_where (\<lambda>d. de_id d \<in> ids) (\<lambda>d. d\<lparr>de_superseded_by := Some did\<rparr>)"

lemma mark_loop:
  "\<exists>s'. lfor targets (\<lambda>t. mark_superseded (de_id t) did) s = (Inr (), s')
    \<and> lg_decisions s' = superseded (de_id ` set targets) did (lg_decisions s)"
proof (induction targets arbitrary: s)
  case Nil
  then show ?case by (simp add: lret_def superseded_def upd_where_id)
next
  case (Cons t ts)
  let ?s = "s\<lparr>lg_decisions := upd_where (\<lambda>d. de_id d = de_id t) (\<lambda>d. d\<lparr>de_superseded_by := Some did\<rparr>) (lg_decisions s)\<rparr>"
  have "superseded (de_id ` set ts) did (lg_decisions ?s) = superseded (de_id ` set (t # ts)) did (lg_decisions s)"
    by (auto simp: superseded_def upd_where_def)
  with Cons.IH[of ?s] show ?case
    by (auto simp: lseq_def lbnd_def mark_superseded_def lmod_def)
qed

lemma set_map_filter_Some: "y \<in> set (List.map_filter f xs) \<longleftrightarrow> (\<exists>x \<in> set xs. f x = Some y)"
  by (force simp: List.map_filter_def)

text \<open>
  A decision that is recorded appends itself and marks what it supersedes; if a locked decision is
  among those, its author holds a live human-owner claim on the task of the request.
\<close>

lemma record_decision_Inr:
  assumes "record_decision now task_id req s = (Inr n, s')"
  shows "\<exists>ids. ids \<subseteq> set (dr_supersedes req) \<and> lg_decisions s' = superseded ids (de_id n) (lg_decisions s @ [n])
    \<and> de_id n \<notin> de_id ` set (lg_decisions s)
    \<and> ((\<exists>d \<in> set (lg_decisions s). de_id d \<in> ids \<and> de_locked d \<and> row_of de_id (de_id d) (lg_decisions s) = Some d)
       \<longrightarrow> has_decision_authority (active_claims s task_id now) (dr_made_by req) now)"
proof -
  define targets where "targets = List.map_filter (get_decision s) (dr_supersedes req)"
  define missing where "missing = filter (\<lambda>i. get_decision s i = None) (dr_supersedes req)"
  define chk where "chk = (if dr_supersedes req \<noteq> [] then
      check_supersede_allowed targets missing (dr_made_by req) (active_claims s task_id now) now else lret ())"
  have rt: "snd (require_task task_id s) = s" for s
    by (simp add: require_task_def lsome_def lret_def lraise_def split: option.split)
  from assms obtain s1 s2 s3 s4 s5 did where c: "chk s = (Inr (), s1)" and i: "new_idM ''decision'' s1 = (Inr did, s2)"
    and n: "n = \<lparr>de_id = did, de_task_id = task_id, de_made_by = dr_made_by req,
                de_decision = dr_decision req, de_rationale = dr_rationale req, de_locked = dr_locked req,
                de_created_at = now, de_superseded_by = None\<rparr>"
    and ins: "insert_decision n s2 = (Inr (), s3)"
    and l: "lfor targets (\<lambda>t. mark_superseded (de_id t) did) s3 = (Inr (), s4)"
    and t: "touch now task_id s4 = (Inr (), s5)" "s' = s5"
    unfolding record_decision_def lseq_Inr ltx_Inr lbnd_Inr chk_def targets_def missing_def
    using rt[of s] by (auto simp: Let_def lseq_Inr)
  have "s1 = s" using c by (auto simp: chk_def check_supersede_allowed_def split: if_splits)
  have s2: "lg_decisions s2 = lg_decisions s" using i \<open>s1 = s\<close> by (auto simp: new_idM_def core_new_id_def)
  have s3: "lg_decisions s3 = lg_decisions s @ [n]" "de_id n \<notin> de_id ` set (lg_decisions s)"
    using ins s2 by (auto simp: insert_decision_def split: if_splits)
  have s4: "lg_decisions s4 = superseded (de_id ` set targets) did (lg_decisions s3)"
    using mark_loop[of targets did s3] l by auto
  have s5: "lg_decisions s' = lg_decisions s4" using t by (auto simp: touch_def core_update_task_def lmod_def)
  have sub: "de_id ` set targets \<subseteq> set (dr_supersedes req)"
    by (auto simp: targets_def set_map_filter_Some get_decision_def dest!: row_of_SomeD)
  have auth: "has_decision_authority (active_claims s task_id now) (dr_made_by req) now"
    if d: "d \<in> set (lg_decisions s)" "de_id d \<in> de_id ` set targets" "de_locked d"
      "row_of de_id (de_id d) (lg_decisions s) = Some d" for d
  proof -
    have ne: "dr_supersedes req \<noteq> []" using d(2) by (auto simp: targets_def List.map_filter_def)
    from d(2) obtain t where t: "t \<in> set targets" "de_id t = de_id d" by auto
    then have "row_of de_id (de_id t) (lg_decisions s) = Some t"
      unfolding targets_def set_map_filter_Some get_decision_def by (metis row_of_SomeD)
    with t d(4) have "d \<in> set targets" by simp
    with d(3) ne c show ?thesis
      by (auto simp: chk_def check_supersede_allowed_def filter_empty_conv split: if_splits)
  qed
  show ?thesis using sub s3 s4 s5 auth n by (intro exI[of _ "de_id ` set targets"]) auto
qed

text \<open>
  Who may overturn a locked decision. If recording a decision changes what supersedes a
  locked decision of the ledger, the request names that decision, and its author holds a live
  human-owner claim on the task the request is made for; every other locked decision keeps its
  standing, and a refused request changes no decision at all.
\<close>

theorem locked_decision_authority:
  assumes "keys_distinct de_id (lg_decisions s)" "d \<in> set (lg_decisions s)" "de_locked d"
  shows "d \<in> set (lg_decisions (snd (record_decision now task_id req s)))
    \<or> de_id d \<in> set (dr_supersedes req)
      \<and> (\<exists>c \<in> set (lg_claims s). cl_task_id c = task_id \<and> cl_manager_id c = dr_made_by req
           \<and> cl_role c = HumanOwner \<and> claim_active c now)"
proof (cases "record_decision now task_id req s")
  case (Pair r s')
  show ?thesis
  proof (cases r)
    case (Inl e)
    have "s' = s" using Pair Inl
      by (auto simp: record_decision_def lseq_def lbnd_def require_task_def lsome_def lret_def lraise_def
            split: option.splits prod.splits sum.splits dest: ltx_Inl)
    with assms Pair show ?thesis by simp
  next
    case (Inr n)
    from record_decision_Inr[OF Pair[unfolded Inr]] obtain ids where i: "ids \<subseteq> set (dr_supersedes req)"
      "lg_decisions s' = superseded ids (de_id n) (lg_decisions s @ [n])"
      and auth: "(\<exists>d \<in> set (lg_decisions s). de_id d \<in> ids \<and> de_locked d
         \<and> row_of de_id (de_id d) (lg_decisions s) = Some d)
       \<longrightarrow> has_decision_authority (active_claims s task_id now) (dr_made_by req) now" by blast
    show ?thesis
    proof (cases "de_id d \<in> ids")
      case True
      have "row_of de_id (de_id d) (lg_decisions s) = Some d" using assms by (simp add: row_of_Some_iff)
      with auth True assms have "has_decision_authority (active_claims s task_id now) (dr_made_by req) now" by blast
      then show ?thesis using True i(1)
        by (auto simp: has_decision_authority_def list_ex_iff active_claims_def)
    next
      case False
      then have "d \<in> set (lg_decisions s')" using assms(2) unfolding i(2) superseded_def set_upd_where
        by (intro image_eqI[of _ _ d]) auto
      with Pair show ?thesis by simp
    qed
  qed
qed

section \<open>A concrete ledger\<close>

definition empty_ledger :: "(nat \<Rightarrow> string) \<Rightarrow> core_ledger" where
  "empty_ledger uuid =
    \<lparr>lg_tasks = [], lg_constraints = [], lg_claims = [], lg_decisions = [], lg_attempts = [], lg_artifacts = [],
     lg_reviews = [], lg_subtasks = [], lg_runs = [], lg_approvals = [], lg_executions = [], lg_inbox = [],
     lg_sessions = [], lg_events = [], lg_audit = [], lg_bus = [], lg_uuid = uuid, lg_drawn = 0\<rparr>"

definition demo_task :: "string \<Rightarrow> core_task" where
  "demo_task i = \<lparr>ct_id = i, ct_title = ''t'', ct_goal = [], ct_status = TsQueued, ct_priority = ''normal'',
     ct_created_by = ''u'', ct_created_at = 0, ct_updated_at = 0, ct_current_manager = None\<rparr>"

definition demo_claim :: "string \<Rightarrow> claim_role \<Rightarrow> core_claim_row" where
  "demo_claim tid role = \<lparr>cl_id = ''c1'', cl_task_id = tid, cl_manager_id = ''codex'', cl_role = role,
     cl_expires_at = 100, cl_created_at = 0, cl_released_at = None\<rparr>"

definition demo_locked :: core_decision_row where
  "demo_locked = \<lparr>de_id = ''d1'', de_task_id = ''A'', de_made_by = ''ann'', de_decision = ''x'', de_rationale = [],
     de_locked = True, de_created_at = 0, de_superseded_by = None\<rparr>"

definition demo_ledger :: core_ledger where
  "demo_ledger = (empty_ledger (\<lambda>n. replicate n (CHR ''x'')))
    \<lparr>lg_tasks := [demo_task ''A'', demo_task ''B''], lg_decisions := [demo_locked],
     lg_claims := [demo_claim ''B'' HumanOwner]\<rparr>"

definition demo_request :: decision_request where
  "demo_request = \<lparr>dr_made_by = ''codex'', dr_decision = ''y'', dr_rationale = [], dr_locked = False,
     dr_supersedes = [''d1'']\<rparr>"

lemma demo_supersede:
  "lg_decisions (snd (record_decision 10 ''B'' demo_request demo_ledger))
     = [demo_locked\<lparr>de_superseded_by := Some ''decision_''\<rparr>,
        \<lparr>de_id = ''decision_'', de_task_id = ''B'', de_made_by = ''codex'', de_decision = ''y'', de_rationale = [],
         de_locked = False, de_created_at = 10, de_superseded_by = None\<rparr>]"
  by code_simp

lemma demo_request_on_A: "fst (record_decision 10 ''A'' demo_request demo_ledger) = Inl PolicyViolation"
  by code_simp

theorem primary_claim_exclusive_witness:
  "lease_step\<^sup>*\<^sup>* (0, demo_ledger\<lparr>lg_claims := []\<rparr>)
     (5, snd (claim_task 5 ''A'' ''codex'' ''primary_manager'' 60 (demo_ledger\<lparr>lg_claims := []\<rparr>)))
   \<and> (let s = snd (claim_task 5 ''A'' ''codex'' ''primary_manager'' 60 (demo_ledger\<lparr>lg_claims := []\<rparr>))
      in length (lg_claims s) = 1 \<and> cl_manager_id (hd (lg_claims s)) = cl_manager_id (last (lg_claims s)))"
proof -
  let ?z = "demo_ledger\<lparr>lg_claims := []\<rparr>"
  let ?s = "snd (claim_task 5 ''A'' ''codex'' ''primary_manager'' 60 ?z)"
  have run: "lease_step\<^sup>*\<^sup>* (0, ?z) (5, ?s)" by (rule r_into_rtranclp, rule lease_step.claim_step) simp
  have cl: "lg_claims ?s = [\<lparr>cl_id = ''claim_'', cl_task_id = ''A'', cl_manager_id = ''codex'',
      cl_role = PrimaryManager, cl_expires_at = 65, cl_created_at = 5, cl_released_at = None\<rparr>]"
    by code_simp
  have "cl_manager_id (hd (lg_claims ?s)) = cl_manager_id (last (lg_claims ?s))"
    by (rule primary_claim_exclusive[OF run]) (simp_all add: cl claim_active_def)
  with run cl show ?thesis by (simp add: Let_def)
qed

theorem locked_decision_authority_witness:
  "demo_locked \<in> set (lg_decisions (snd (record_decision 10 ''B'' demo_request demo_ledger)))
    \<or> (\<exists>c \<in> set (lg_claims demo_ledger). cl_task_id c = ''B'' \<and> cl_role c = HumanOwner)"
  using locked_decision_authority[of demo_ledger demo_locked 10 "''B''" demo_request]
  by (auto simp: demo_ledger_def demo_locked_def)

text \<open>
  The authority over a locked decision is looked up on the task of the request, not on the
  task of the decision. In a ledger where a manager owns task B only, the request to supersede a
  locked decision of task A is refused when it is made for task A, and the same request made for
  task B supersedes it.
\<close>

theorem foreign_locked_decision_superseded:
  "fst (record_decision 10 ''A'' demo_request demo_ledger) = Inl PolicyViolation
   \<and> de_task_id demo_locked = ''A'' \<and> de_locked demo_locked
   \<and> row_of de_id ''d1'' (lg_decisions (snd (record_decision 10 ''B'' demo_request demo_ledger)))
       = Some (demo_locked\<lparr>de_superseded_by := Some ''decision_''\<rparr>)"
  using demo_request_on_A by (simp add: demo_supersede demo_locked_def)

end
