(* ===== verification/Core_Reviews.thy ===== *)
theory Core_Reviews
  imports Core_Claims
begin

text \<open>
  Attempts, artifacts and reviews of the ledger (\<^verbatim>\<open>core/service.py\<close> with \<^verbatim>\<open>core/reviews.py\<close>):
  \<open>record_attempt\<close>, \<open>create_artifact\<close>, \<open>request_review\<close>, \<open>claim_review\<close> and \<open>complete_review\<close> over the
  direct execution backend. The body of an artifact is stored in a file after it was scanned;
  the ledger holds its row.
\<close>

section \<open>Attempts and artifacts\<close>

definition insert_attempt :: "attempt_row \<Rightarrow> unit lm" where
  "insert_attempt a s =
    (if att_id a \<in> att_id ` set (lg_attempts s) then (Inl Integrity, s)
     else (Inr (), s\<lparr>lg_attempts := lg_attempts s @ [a]\<rparr>))"

definition get_artifact_row :: "core_ledger \<Rightarrow> string \<Rightarrow> core_artifact_row option" where
  "get_artifact_row s i = row_of ar_id i (lg_artifacts s)"

definition require_artifact :: "string \<Rightarrow> core_artifact_row lm" where
  "require_artifact i s = lsome NotFound (get_artifact_row s i) s"

definition record_attempt ::
  "real \<Rightarrow> string \<Rightarrow> string \<Rightarrow> string \<Rightarrow> string \<Rightarrow> string \<Rightarrow> string list \<Rightarrow> string lm" where
  "record_attempt now task_id actor_id actor_type summary outcome refs =
    lseq (require_task task_id)
    (lseq (lfor refs (\<lambda>r. lseq (require_artifact r) (lret ())))
    (lbnd (new_idM ''attempt'') (\<lambda>aid.
     lseq (insert_attempt \<lparr>att_id = aid, att_task_id = task_id, att_actor_id = actor_id,
         att_actor_type = actor_type, att_summary = summary, att_outcome = outcome, att_created_at = now,
         att_artifact_refs = refs\<rparr>)
     (lseq (touch now task_id) (lret aid)))))"

definition insert_artifact :: "core_artifact_row \<Rightarrow> unit lm" where
  "insert_artifact a s =
    (if ar_id a \<in> ar_id ` set (lg_artifacts s) then (Inl Integrity, s)
     else (Inr (), s\<lparr>lg_artifacts := lg_artifacts s @ [a]\<rparr>))"

definition create_artifact :: "real \<Rightarrow> string \<Rightarrow> string \<Rightarrow> string \<Rightarrow> string \<Rightarrow> string lm" where
  "create_artifact now task_id type summary created_by =
    lseq (require_task task_id)
    (lbnd (new_idM ''artifact'') (\<lambda>aid.
     lseq (insert_artifact \<lparr>ar_id = aid, ar_task_id = task_id, ar_type = type, ar_summary = summary,
         ar_created_by = created_by, ar_created_at = now\<rparr>)
     (lseq (touch now task_id) (lret aid))))"

section \<open>Execution handles of the direct backend\<close>

definition upsert_execution :: "execution_row \<Rightarrow> unit lm" where
  "upsert_execution h = lmod (\<lambda>s.
    if ex_handle_id h \<in> ex_handle_id ` set (lg_executions s) then
      s\<lparr>lg_executions := upd_where (\<lambda>r. ex_handle_id r = ex_handle_id h)
        (\<lambda>r. r\<lparr>ex_state := ex_state h, ex_updated_at := ex_updated_at h, ex_detail := ex_detail h\<rparr>)
        (lg_executions s)\<rparr>
    else s\<lparr>lg_executions := lg_executions s @ [h]\<rparr>)"

definition direct_handle_id :: "string \<Rightarrow> string \<Rightarrow> string" where
  "direct_handle_id entity_type entity_id = ''direct-'' @ entity_type @ ''-'' @ entity_id"

definition direct_handle :: "real \<Rightarrow> string \<Rightarrow> string \<Rightarrow> execution_state \<Rightarrow> string \<Rightarrow> unit lm" where
  "direct_handle now entity_type entity_id state detail =
    upsert_execution \<lparr>ex_handle_id = direct_handle_id entity_type entity_id, ex_backend = ''direct'',
      ex_entity_type = entity_type, ex_entity_id = entity_id, ex_state = state, ex_created_at = now,
      ex_updated_at = now, ex_detail = detail\<rparr>"

definition executions_for :: "core_ledger \<Rightarrow> string \<Rightarrow> string \<Rightarrow> execution_row list" where
  "executions_for s entity_type entity_id =
    sort_key ex_created_at (filter (\<lambda>h. ex_entity_type h = entity_type \<and> ex_entity_id h = entity_id) (lg_executions s))"

section \<open>Reviews\<close>

definition TO_NEEDS_REVIEW :: "task_status set" where
  "TO_NEEDS_REVIEW = {TsQueued, TsInProgress}"

definition dismiss_inbox_items :: "string \<Rightarrow> real \<Rightarrow> unit lm" where
  "dismiss_inbox_items ref now = lmod (\<lambda>s. s\<lparr>lg_inbox :=
    upd_where (\<lambda>i. ib_ref_id i = ref \<and> ib_dismissed_at i = None) (\<lambda>i. i\<lparr>ib_dismissed_at := Some now\<rparr>) (lg_inbox s)\<rparr>)"

definition insert_inbox_item :: "inbox_row \<Rightarrow> unit lm" where
  "insert_inbox_item i = lmod (\<lambda>s. s\<lparr>lg_inbox := lg_inbox s @ [i]\<rparr>)"

definition check_ref :: "string \<Rightarrow> string \<Rightarrow> unit lm" where
  "check_ref task_id r =
    lbnd (require_artifact r) (\<lambda>a. lguard (ar_task_id a = task_id) InvalidRequest)"

definition request_review ::
  "real \<Rightarrow> string \<Rightarrow> string \<Rightarrow> string \<Rightarrow> string list \<Rightarrow> string list \<Rightarrow> string lm" where
  "request_review now task_id requested_by assigned_to criteria refs =
    lseq (require_task task_id)
    (lseq (lguard (assigned_to \<noteq> requested_by) InvalidRequest)
    (lseq (lfor refs (check_ref task_id))
    (lbnd (new_idM ''review'') (\<lambda>rid.
     lseq (linsert T_reviews \<lparr>rv_id = rid, rv_task_id = task_id, rv_requested_by = requested_by,
         rv_assigned_to = assigned_to, rv_status = RvOpen, rv_criteria = criteria, rv_artifact_refs = refs,
         rv_result_artifact_id = None, rv_created_at = now, rv_updated_at = now\<rparr>)
     (lbnd (new_idM ''inbox'') (\<lambda>iid.
      lseq (insert_inbox_item \<lparr>ib_id = iid, ib_manager_id = assigned_to, ib_kind = ''review'', ib_ref_id = rid,
          ib_task_id = Some task_id, ib_created_at = now, ib_dismissed_at = None\<rparr>)
      (lseq (advance_task now task_id TsNeedsReview TO_NEEDS_REVIEW)
      (lseq (record_event (Some task_id) ''review_requested'' requested_by rid)
      (lseq (direct_handle now ''review'' rid ExWaitingReview ''awaiting reviewer'')
       (lret rid))))))))))"

definition check_claimable :: "review_row \<Rightarrow> string \<Rightarrow> unit lm" where
  "check_claimable review manager_id =
    (if rv_status review \<noteq> RvOpen then lraise Conflict
     else lguard (rv_assigned_to review = manager_id) PolicyViolation)"

definition review_transition where
  "review_transition b eid dst actor task_id ex =
    lverb (transition REVIEW_STATUS_VOCAB (transition_row b T_reviews) eid dst actor (Some task_id) ex)"

definition claim_review :: "real \<Rightarrow> string \<Rightarrow> string \<Rightarrow> review_row lm" where
  "claim_review now review_id manager_id =
    lseq (ltx (lbnd (require_review review_id) (\<lambda>review.
        lseq (check_claimable review manager_id)
        (lseq (review_transition True review_id RvClaimed manager_id (rv_task_id review) [(''updated_at'', CReal now)])
          (lret ())))))
      (require_review review_id)"

definition check_completable :: "review_row \<Rightarrow> string \<Rightarrow> unit lm" where
  "check_completable review completed_by =
    (if rv_status review \<in> REVIEW_TERMINAL then lraise Conflict
     else lguard (rv_assigned_to review = completed_by) PolicyViolation)"

record review_result =
  rr_completed_by :: string
  rr_status :: review_status
  rr_summary :: string
  rr_result_artifact_id :: "string option"

definition open_reviews :: "core_ledger \<Rightarrow> string \<Rightarrow> review_row list" where
  "open_reviews s task_id =
    filter (\<lambda>r. rv_task_id r = task_id \<and> rv_status r \<in> {RvOpen, RvClaimed, RvInProgress}) (lg_reviews s)"

definition result_artifact :: "real \<Rightarrow> review_row \<Rightarrow> review_result \<Rightarrow> string lm" where
  "result_artifact now review req =
    (case rr_result_artifact_id req of
       None \<Rightarrow> create_artifact now (rv_task_id review) ''review''
         (if rr_summary req = [] then ''Review result for '' @ rv_id review else rr_summary req) (rr_completed_by req)
     | Some a \<Rightarrow> lseq (check_ref (rv_task_id review) a) (lret a))"

text \<open>A signal to the direct backend concerns subtasks only: a review has nothing to resume.\<close>

definition complete_review :: "real \<Rightarrow> string \<Rightarrow> review_result \<Rightarrow> review_row lm" where
  "complete_review now review_id req =
    lbnd (require_review review_id) (\<lambda>review.
    lseq (check_completable review (rr_completed_by req))
    (lseq (lguard (rr_status req \<in> {RvCompleted, RvRejected}) InvalidRequest)
    (lbnd (result_artifact now review req) (\<lambda>aid.
     lseq (review_transition False review_id (rr_status req) (rr_completed_by req) (rv_task_id review)
            [(''result_artifact_id'', CText aid), (''updated_at'', CReal now)])
     (lseq (dismiss_inbox_items review_id now)
     (lbnd (lget (\<lambda>s. open_reviews s (rv_task_id review))) (\<lambda>remaining.
      lseq (lwhen (remaining = [])
             (lseq (task_advance (rv_task_id review) TsInProgress {TsNeedsReview} ''system''
                [(''updated_at'', CReal now)]) (lret ())))
      (lseq (record_event (Some (rv_task_id review)) ''review_completed'' (rr_completed_by req) review_id)
        (require_review review_id)))))))))"

end
