(* ===== verification/Worker_Routing.thy ===== *)
theory Worker_Routing
  imports Core_Models "HOL-Library.Product_Lexorder"
begin

text \<open>
  Worker routing of the task ledger (\<^verbatim>\<open>core/routing.py\<close>, \<^verbatim>\<open>core/workers.py\<close>): the hard gates in
  their order, the weighted score, the choice of the best eligible worker and the explanation
  that is stored with it. A worker adapter is the record of what the router asks it.
\<close>

section \<open>Workers\<close>

record worker_capabilities =
  wc_worker_id :: string
  wc_harness :: string
  wc_model :: "string option"
  wc_tools :: "string list"
  wc_sandbox :: sandbox_spec
  wc_privacy_tiers :: "privacy_tier list"
  wc_capability_tags :: "string list"
  wc_location :: worker_location
  wc_cost_per_1k :: real
  wc_availability :: real
  wc_requires_approval :: bool

record worker_estimate =
  we_cost_usd :: real
  we_tokens_in :: int
  we_tokens_out :: int
  we_seconds :: real

record worker_adapter =
  wk_id :: string
  wk_capabilities :: worker_capabilities
  wk_available :: bool
  wk_health_detail :: string
  wk_estimate :: "subtask \<Rightarrow> worker_estimate"
  wk_local_estimate :: "subtask \<Rightarrow> (string \<times> col) list option"

text \<open>The estimate every adapter inherits.\<close>

definition default_estimate :: "worker_capabilities \<Rightarrow> subtask \<Rightarrow> worker_estimate" where
  "default_estimate caps subtask =
    (let tokens_in = max 1 (int (length (sub_instructions subtask)) div 4);
         tokens_out = max 1 (tokens_in div 4);
         cost = real_of_int (tokens_in + tokens_out) / 1000 * wc_cost_per_1k caps
     in \<lparr>we_cost_usd = py_round 6 cost, we_tokens_in = tokens_in, we_tokens_out = tokens_out,
         we_seconds = 0\<rparr>)"

definition no_sandbox :: sandbox_spec where
  "no_sandbox = \<lparr>sb_filesystem = FsNone, sb_network = False, sb_shell = False\<rparr>"

definition echo_capabilities :: "string \<Rightarrow> worker_capabilities" where
  "echo_capabilities worker_id =
    \<lparr>wc_worker_id = worker_id, wc_harness = ''echo'', wc_model = None, wc_tools = [''write_artifact''],
     wc_sandbox = no_sandbox,
     wc_privacy_tiers = [TierPublic, PublicRedacted, RepoSensitive, SecretSensitive, LocalOnly],
     wc_capability_tags = [''echo'', ''inspect'', ''summarize''], wc_location = LocLocal,
     wc_cost_per_1k = 0, wc_availability = 1, wc_requires_approval = False\<rparr>"

definition echo_worker :: "string \<Rightarrow> worker_adapter" where
  "echo_worker worker_id =
    \<lparr>wk_id = worker_id, wk_capabilities = echo_capabilities worker_id, wk_available = True,
     wk_health_detail = [], wk_estimate = default_estimate (echo_capabilities worker_id),
     wk_local_estimate = (\<lambda>_. None)\<rparr>"

definition list_or :: "'a list option \<Rightarrow> 'a list \<Rightarrow> 'a list" where
  "list_or x d = (case x of None \<Rightarrow> d | Some ys \<Rightarrow> if ys = [] then d else ys)"

definition raw_model_capabilities ::
  "string \<Rightarrow> string \<Rightarrow> string \<Rightarrow> worker_location \<Rightarrow> privacy_tier list option \<Rightarrow> string list option \<Rightarrow> real
    \<Rightarrow> bool option \<Rightarrow> worker_capabilities" where
  "raw_model_capabilities worker_id model harness location privacy_tiers capability_tags cost requires_approval =
    \<lparr>wc_worker_id = worker_id, wc_harness = harness, wc_model = Some model,
     wc_tools = [''generate'', ''write_artifact''], wc_sandbox = no_sandbox,
     wc_privacy_tiers = list_or privacy_tiers [TierPublic, PublicRedacted],
     wc_capability_tags = list_or capability_tags [''generate''], wc_location = location,
     wc_cost_per_1k = cost, wc_availability = 1,
     wc_requires_approval =
       (case requires_approval of Some b \<Rightarrow> b | None \<Rightarrow> location \<noteq> LocLocal)\<rparr>"

definition raw_model_worker :: "worker_capabilities \<Rightarrow> worker_adapter" where
  "raw_model_worker caps =
    \<lparr>wk_id = wc_worker_id caps, wk_capabilities = caps, wk_available = True, wk_health_detail = [],
     wk_estimate = default_estimate caps, wk_local_estimate = (\<lambda>_. None)\<rparr>"

section \<open>The registry\<close>

text \<open>A registry is the dictionary of the workers by their \<open>worker_id\<close>, in the order of registration.\<close>

type_synonym worker_registry = "(string \<times> worker_adapter) list"

definition register :: "worker_adapter \<Rightarrow> worker_registry \<Rightarrow> worker_registry" where
  "register w reg = AList.update (wk_id w) w reg"

definition registry_of :: "worker_adapter list \<Rightarrow> worker_registry" where
  "registry_of ws = fold register ws []"

definition unregister :: "string \<Rightarrow> worker_registry \<Rightarrow> worker_registry" where
  "unregister worker_id reg = AList.delete worker_id reg"

definition registry_get :: "worker_registry \<Rightarrow> string \<Rightarrow> core_error + worker_adapter" where
  "registry_get reg worker_id =
    (case map_of reg worker_id of None \<Rightarrow> Inl NotFound | Some w \<Rightarrow> Inr w)"

definition registry_all :: "worker_registry \<Rightarrow> worker_adapter list" where
  "registry_all reg = map (\<lambda>k. the (map_of reg k)) (sort (map fst reg))"

section \<open>Gates\<close>

definition HARD_GATES :: "gate list" where
  "HARD_GATES = [GHealthy, GPrivacy, GCapability, GSandbox, GBudget, GApproval]"

definition WEIGHTS :: "(string \<times> real) list" where
  "WEIGHTS = [(''privacy_fit'', 35/100), (''cost'', 25/100), (''availability'', 15/100),
     (''capability'', 15/100), (''preferred'', 10/100)]"

primrec LOCATION_FIT :: "worker_location \<Rightarrow> real" where
  "LOCATION_FIT LocLocal = 1"
| "LOCATION_FIT LocRented = 6/10"
| "LOCATION_FIT LocCloud = 3/10"

definition UNKNOWN_CAPABILITY_FIT :: real where
  "UNKNOWN_CAPABILITY_FIT = 7/10"

record route_policy =
  max_cost_usd :: real
  max_total_cost_usd :: "real option"

definition default_policy :: route_policy where
  "default_policy = \<lparr>max_cost_usd = 0, max_total_cost_usd = None\<rparr>"

definition effective_ceiling :: "subtask \<Rightarrow> route_policy \<Rightarrow> real" where
  "effective_ceiling subtask policy =
    (case sub_approved_max_cost_usd subtask of Some c \<Rightarrow> c | None \<Rightarrow> max_cost_usd policy)"

definition preferred_match :: "subtask \<Rightarrow> worker_capabilities \<Rightarrow> bool" where
  "preferred_match subtask caps =
    (let pref = py_strip (str_or (sub_preferred_worker subtask) [])
     in pref \<noteq> [] \<and> pref \<in> {wc_worker_id caps, wc_harness caps, worker_location_value (wc_location caps)})"

definition missing_capabilities :: "subtask \<Rightarrow> worker_capabilities \<Rightarrow> string list" where
  "missing_capabilities subtask caps =
    sort (remdups (filter (\<lambda>c. c \<notin> set (wc_capability_tags caps)) (sub_required_capabilities subtask)))"

definition over_total_cap :: "route_policy option \<Rightarrow> real \<Rightarrow> real \<Rightarrow> real option" where
  "over_total_cap policy spent cost =
    (case policy of None \<Rightarrow> None
     | Some p \<Rightarrow>
         (case max_total_cost_usd p of None \<Rightarrow> None
          | Some cap \<Rightarrow> if cost > 0 \<and> spent + cost > cap then Some cap else None))"

definition gate_failure ::
  "subtask \<Rightarrow> worker_capabilities \<Rightarrow> worker_estimate \<Rightarrow> bool \<Rightarrow> string \<Rightarrow> real \<Rightarrow> route_policy option \<Rightarrow> real
    \<Rightarrow> (gate \<times> gate_reason) option" where
  "gate_failure subtask caps est healthy detail limit policy spent =
    (if \<not> healthy then
       Some (GHealthy, Unavailable (if detail = [] then ''health check failed'' else detail))
     else if sub_privacy_tier subtask \<notin> set (wc_privacy_tiers caps) then
       Some (GPrivacy, TierRefused (sub_privacy_tier subtask) (wc_location caps) (wc_privacy_tiers caps))
     else if missing_capabilities subtask caps \<noteq> [] then
       Some (GCapability, MissingCapabilities (missing_capabilities subtask caps))
     else if \<not> satisfied_by (sub_sandbox subtask) (wc_sandbox caps) then
       Some (GSandbox, SandboxExceeds (sub_sandbox subtask))
     else if we_cost_usd est > limit then
       Some (GBudget, OverCeiling (we_cost_usd est) limit)
     else case over_total_cap policy spent (we_cost_usd est) of
       Some cap \<Rightarrow> Some (GBudget, OverTotalCap spent (we_cost_usd est) cap)
     | None \<Rightarrow>
         if wc_requires_approval caps \<and> str_or (sub_approved_by subtask) [] = [] then
           Some (GApproval, ApprovalRequired (wc_location caps))
         else None)"

section \<open>Scores\<close>

definition cost_term :: "real \<Rightarrow> real \<Rightarrow> real" where
  "cost_term cost limit =
    (if cost \<le> 0 then 1 else if limit > 0 then max 0 (1 - cost / limit) else 0)"

definition worker_score :: "subtask \<Rightarrow> worker_capabilities \<Rightarrow> worker_estimate \<Rightarrow> real \<Rightarrow> (string \<times> real) list" where
  "worker_score subtask caps est limit =
    [(''privacy_fit'', LOCATION_FIT (wc_location caps)),
     (''cost'', py_round 4 (cost_term (we_cost_usd est) limit)),
     (''availability'', py_round 4 (max 0 (min 1 (wc_availability caps)))),
     (''capability'', if sub_required_capabilities subtask \<noteq> [] then 1 else UNKNOWN_CAPABILITY_FIT),
     (''preferred'', if preferred_match subtask caps then 1 else 0)]"

definition total :: "(string \<times> real) list \<Rightarrow> real" where
  "total terms = py_round 6 (sum_list (map (\<lambda>(k, v). the (map_of WEIGHTS k) * v) terms))"

section \<open>The choice\<close>

record eligible_worker =
  el_total :: real
  el_id :: string
  el_caps :: worker_capabilities
  el_estimate :: worker_estimate
  el_terms :: "(string \<times> real) list"

record blocked_worker =
  bl_caps :: worker_capabilities
  bl_estimate :: worker_estimate
  bl_reason :: gate_reason

definition empty_explanation :: "subtask \<Rightarrow> route_explanation" where
  "empty_explanation subtask =
    \<lparr>rx_subtask_id = sub_id subtask, rx_selected_worker = None, rx_selected_harness = None,
     rx_selected_model = None, rx_hard_gates = [], rx_score_terms = [], rx_total_score = 0,
     rx_estimated_cost_usd = 0, rx_rejected_workers = [], rx_worker_type = None,
     rx_local_estimate = None, rx_needs_approval = False, rx_approval_candidate = None,
     rx_approval_reason = None, rx_approval_location = None, rx_selected_location = None\<rparr>"

text \<open>One turn of the loop over the workers: it extends the rejections, the eligible and the blocked.\<close>

definition assess ::
  "subtask \<Rightarrow> route_policy \<Rightarrow> real \<Rightarrow> worker_adapter
    \<Rightarrow> rejected_worker list \<times> eligible_worker list \<times> blocked_worker list
    \<Rightarrow> rejected_worker list \<times> eligible_worker list \<times> blocked_worker list" where
  "assess subtask policy spent w acc =
    (case acc of (rejected, eligible, blocked) \<Rightarrow>
      let caps = wk_capabilities w; est = wk_estimate w subtask; limit = effective_ceiling subtask policy
      in case gate_failure subtask caps est (wk_available w) (wk_health_detail w) limit (Some policy) spent of
           Some (gate, reason) \<Rightarrow>
             (rejected @ [\<lparr>rej_worker = wc_worker_id caps, rej_reason = reason, rej_gate = gate\<rparr>], eligible,
              if gate = GApproval
              then blocked @ [\<lparr>bl_caps = caps, bl_estimate = est, bl_reason = reason\<rparr>] else blocked)
         | None \<Rightarrow>
             let terms = worker_score subtask caps est limit
             in (rejected,
                 eligible @ [\<lparr>el_total = total terms, el_id = wc_worker_id caps, el_caps = caps,
                              el_estimate = est, el_terms = terms\<rparr>],
                 blocked))"

definition selected ::
  "subtask \<Rightarrow> worker_registry \<Rightarrow> rejected_worker list \<Rightarrow> eligible_worker \<Rightarrow> core_error + route_explanation" where
  "selected subtask reg rejected e =
    (case registry_get reg (wc_worker_id (el_caps e)) of
       Inl x \<Rightarrow> Inl x
     | Inr w \<Rightarrow>
         Inr ((empty_explanation subtask)
           \<lparr>rx_rejected_workers := rejected,
            rx_selected_worker := Some (wc_worker_id (el_caps e)),
            rx_selected_harness := Some (wc_harness (el_caps e)),
            rx_selected_model := wc_model (el_caps e),
            rx_selected_location := Some (wc_location (el_caps e)),
            rx_worker_type := Some (wc_harness (el_caps e)),
            rx_hard_gates := HARD_GATES,
            rx_score_terms := el_terms e,
            rx_total_score := el_total e,
            rx_estimated_cost_usd := we_cost_usd (el_estimate e),
            rx_local_estimate := wk_local_estimate w subtask\<rparr>))"

definition awaiting_approval ::
  "subtask \<Rightarrow> rejected_worker list \<Rightarrow> blocked_worker \<Rightarrow> route_explanation" where
  "awaiting_approval subtask rejected b =
    (empty_explanation subtask)
      \<lparr>rx_rejected_workers := rejected,
       rx_needs_approval := True,
       rx_approval_candidate := Some (wc_worker_id (bl_caps b)),
       rx_approval_reason := Some (bl_reason b),
       rx_approval_location := Some (wc_location (bl_caps b)),
       rx_estimated_cost_usd := we_cost_usd (bl_estimate b)\<rparr>"

definition worker_route ::
  "subtask \<Rightarrow> worker_registry \<Rightarrow> route_policy option \<Rightarrow> real \<Rightarrow> core_error + route_explanation" where
  "worker_route subtask reg policy_arg spent =
    (let policy = (case policy_arg of None \<Rightarrow> default_policy | Some p \<Rightarrow> p)
     in case fold (assess subtask policy spent) (registry_all reg) ([], [], []) of
          (rejected, eligible, blocked) \<Rightarrow>
            if eligible \<noteq> [] then
              selected subtask reg rejected (hd (sort_key (\<lambda>e. (- el_total e, el_id e)) eligible))
            else if blocked \<noteq> [] then
              Inr (awaiting_approval subtask rejected
                (hd (sort_key (\<lambda>b. (we_cost_usd (bl_estimate b), wc_worker_id (bl_caps b))) blocked)))
            else Inr ((empty_explanation subtask)\<lparr>rx_rejected_workers := rejected\<rparr>))"

definition local_rejections :: "route_explanation \<Rightarrow> (string \<times> gate_reason) list" where
  "local_rejections ex = map (\<lambda>r. (rej_worker r, rej_reason r)) (rx_rejected_workers ex)"

definition privacy_allows_external :: "privacy_tier \<Rightarrow> bool" where
  "privacy_allows_external tier \<longleftrightarrow> tier = TierPublic \<or> tier = PublicRedacted"

section \<open>What the router guarantees\<close>

definition registry_wf :: "worker_registry \<Rightarrow> bool" where
  "registry_wf reg \<longleftrightarrow> distinct (map fst reg)
    \<and> list_all (\<lambda>(k, w). wk_id w = k \<and> wc_worker_id (wk_capabilities w) = k) reg"

definition may_run :: "subtask \<Rightarrow> route_policy \<Rightarrow> real \<Rightarrow> worker_adapter \<Rightarrow> bool" where
  "may_run subtask policy spent w \<longleftrightarrow>
    (let caps = wk_capabilities w; cost = we_cost_usd (wk_estimate w subtask)
     in wk_available w
      \<and> sub_privacy_tier subtask \<in> set (wc_privacy_tiers caps)
      \<and> set (sub_required_capabilities subtask) \<subseteq> set (wc_capability_tags caps)
      \<and> satisfied_by (sub_sandbox subtask) (wc_sandbox caps)
      \<and> cost \<le> effective_ceiling subtask policy
      \<and> (case max_total_cost_usd policy of None \<Rightarrow> True | Some cap \<Rightarrow> cost \<le> 0 \<or> spent + cost \<le> cap)
      \<and> (wc_requires_approval caps \<longrightarrow> str_or (sub_approved_by subtask) [] \<noteq> []))"

definition verdict :: "subtask \<Rightarrow> route_policy \<Rightarrow> real \<Rightarrow> worker_adapter \<Rightarrow> (gate \<times> gate_reason) option" where
  "verdict subtask policy spent w =
    gate_failure subtask (wk_capabilities w) (wk_estimate w subtask) (wk_available w) (wk_health_detail w)
      (effective_ceiling subtask policy) (Some policy) spent"

definition merit :: "subtask \<Rightarrow> route_policy \<Rightarrow> worker_adapter \<Rightarrow> real" where
  "merit subtask policy w =
    total (worker_score subtask (wk_capabilities w) (wk_estimate w subtask) (effective_ceiling subtask policy))"

definition eligible_of :: "subtask \<Rightarrow> route_policy \<Rightarrow> worker_adapter \<Rightarrow> eligible_worker" where
  "eligible_of subtask policy w =
    \<lparr>el_total = merit subtask policy w, el_id = wc_worker_id (wk_capabilities w), el_caps = wk_capabilities w,
     el_estimate = wk_estimate w subtask,
     el_terms = worker_score subtask (wk_capabilities w) (wk_estimate w subtask) (effective_ceiling subtask policy)\<rparr>"

definition rejected_of :: "worker_adapter \<Rightarrow> gate \<times> gate_reason \<Rightarrow> rejected_worker" where
  "rejected_of w f =
    \<lparr>rej_worker = wc_worker_id (wk_capabilities w), rej_reason = snd f, rej_gate = fst f\<rparr>"

definition blocked_of :: "subtask \<Rightarrow> worker_adapter \<Rightarrow> gate \<times> gate_reason \<Rightarrow> blocked_worker" where
  "blocked_of subtask w f =
    \<lparr>bl_caps = wk_capabilities w, bl_estimate = wk_estimate w subtask, bl_reason = snd f\<rparr>"

lemma missing_capabilities_Nil:
  "missing_capabilities s c = [] \<longleftrightarrow> set (sub_required_capabilities s) \<subseteq> set (wc_capability_tags c)"
proof -
  have "missing_capabilities s c = [] \<longleftrightarrow> set (missing_capabilities s c) = {}" by simp
  also have "\<dots> \<longleftrightarrow> set (sub_required_capabilities s) \<subseteq> set (wc_capability_tags c)"
    unfolding missing_capabilities_def by auto
  finally show ?thesis .
qed

lemma verdict_None: "verdict subtask policy spent w = None \<longleftrightarrow> may_run subtask policy spent w"
  by (simp add: verdict_def gate_failure_def may_run_def Let_def missing_capabilities_Nil over_total_cap_def
        not_less not_le split: option.split)

lemma fold_assess:
  "fold (assess subtask policy spent) ws (r, e, b) =
    (r @ concat (map (\<lambda>w. case verdict subtask policy spent w of None \<Rightarrow> [] | Some f \<Rightarrow> [rejected_of w f]) ws),
     e @ map (eligible_of subtask policy) (filter (may_run subtask policy spent) ws),
     b @ concat (map (\<lambda>w. case verdict subtask policy spent w of None \<Rightarrow> []
           | Some f \<Rightarrow> if fst f = GApproval then [blocked_of subtask w f] else []) ws))"
proof (induction ws arbitrary: r e b)
  case (Cons w ws)
  show ?case
  proof (cases "verdict subtask policy spent w")
    case None
    then have "may_run subtask policy spent w" by (simp add: verdict_None)
    with None Cons.IH show ?thesis
      by (simp add: assess_def verdict_def[symmetric] Let_def eligible_of_def merit_def)
  next
    case (Some f)
    then have "\<not> may_run subtask policy spent w" using verdict_None[of subtask policy spent w] by simp
    with Some Cons.IH show ?thesis
      by (cases f) (simp add: assess_def verdict_def[symmetric] Let_def rejected_of_def blocked_of_def)
  qed
qed simp

lemma set_registry_all: "set (registry_all reg) = (\<lambda>k. the (map_of reg k)) ` fst ` set reg"
  by (simp add: registry_all_def)

lemma registry_all_mem:
  assumes "registry_wf reg"
  shows "w \<in> set (registry_all reg) \<longleftrightarrow> map_of reg (wc_worker_id (wk_capabilities w)) = Some w"
proof -
  have d: "distinct (map fst reg)" and k: "\<And>k w. (k, w) \<in> set reg \<Longrightarrow> wc_worker_id (wk_capabilities w) = k"
    using assms by (auto simp: registry_wf_def list_all_iff)
  have "w \<in> set (registry_all reg) \<longleftrightarrow> w \<in> snd ` set reg"
    unfolding set_registry_all using d by (force simp: image_iff)
  also have "\<dots> \<longleftrightarrow> map_of reg (wc_worker_id (wk_capabilities w)) = Some w"
    using d k by (force simp: map_of_eq_Some_iff)
  finally show ?thesis .
qed

lemma hd_sort_key:
  assumes "xs \<noteq> []"
  shows "hd (sort_key f xs) \<in> set xs" "y \<in> set xs \<Longrightarrow> f (hd (sort_key f xs)) \<le> f y"
proof -
  have ne: "sort_key f xs \<noteq> []" using assms by (metis length_0_conv length_sort)
  show "hd (sort_key f xs) \<in> set xs" using ne by (metis list.set_sel(1) set_sort)
  assume "y \<in> set xs"
  then have "y \<in> set (sort_key f xs)" by simp
  moreover have "sorted (map f (sort_key f xs))" by simp
  ultimately show "f (hd (sort_key f xs)) \<le> f y" using ne by (cases "sort_key f xs") auto
qed

text \<open>What the loop collects, and which workers it is about.\<close>

definition rejections :: "subtask \<Rightarrow> route_policy \<Rightarrow> real \<Rightarrow> worker_registry \<Rightarrow> rejected_worker list" where
  "rejections subtask policy spent reg = concat (map (\<lambda>w. case verdict subtask policy spent w of None \<Rightarrow> []
    | Some f \<Rightarrow> [rejected_of w f]) (registry_all reg))"

definition eligibles :: "subtask \<Rightarrow> route_policy \<Rightarrow> real \<Rightarrow> worker_registry \<Rightarrow> eligible_worker list" where
  "eligibles subtask policy spent reg =
    map (eligible_of subtask policy) (filter (may_run subtask policy spent) (registry_all reg))"

definition blockeds :: "subtask \<Rightarrow> route_policy \<Rightarrow> real \<Rightarrow> worker_registry \<Rightarrow> blocked_worker list" where
  "blockeds subtask policy spent reg = concat (map (\<lambda>w. case verdict subtask policy spent w of None \<Rightarrow> []
    | Some f \<Rightarrow> if fst f = GApproval then [blocked_of subtask w f] else []) (registry_all reg))"

lemma route_eq:
  "worker_route subtask reg (Some policy) spent =
    (let R = rejections subtask policy spent reg; E = eligibles subtask policy spent reg;
         B = blockeds subtask policy spent reg
     in if E \<noteq> [] then selected subtask reg R (hd (sort_key (\<lambda>e. (- el_total e, el_id e)) E))
        else if B \<noteq> [] then
          Inr (awaiting_approval subtask R
            (hd (sort_key (\<lambda>b. (we_cost_usd (bl_estimate b), wc_worker_id (bl_caps b))) B)))
        else Inr ((empty_explanation subtask)\<lparr>rx_rejected_workers := R\<rparr>))"
  by (simp add: worker_route_def fold_assess rejections_def eligibles_def blockeds_def Let_def)

lemma registry_mem:
  assumes "registry_wf reg"
  shows "map_of reg k = Some w \<longleftrightarrow> w \<in> set (registry_all reg) \<and> wc_worker_id (wk_capabilities w) = k"
proof -
  have "map_of reg k = Some w \<Longrightarrow> wc_worker_id (wk_capabilities w) = k"
    using assms by (auto simp: registry_wf_def list_all_iff dest!: map_of_SomeD)
  then show ?thesis unfolding registry_all_mem[OF assms] by auto
qed

lemma rejections_mem:
  assumes "registry_wf reg" "map_of reg k = Some w" "verdict subtask policy spent w = Some (gate, why)"
  shows "\<lparr>rej_worker = k, rej_reason = why, rej_gate = gate\<rparr> \<in> set (rejections subtask policy spent reg)"
  using assms(2,3) unfolding registry_mem[OF assms(1)] rejections_def
  by (auto simp: rejected_of_def intro!: bexI[of _ w])

lemma eligibles_mem:
  "registry_wf reg \<Longrightarrow> e \<in> set (eligibles subtask policy spent reg) \<longleftrightarrow>
    (\<exists>k w. map_of reg k = Some w \<and> may_run subtask policy spent w \<and> e = eligible_of subtask policy w)"
  by (auto simp: registry_mem eligibles_def)

lemma blockeds_mem:
  "registry_wf reg \<Longrightarrow> b \<in> set (blockeds subtask policy spent reg) \<longleftrightarrow>
    (\<exists>k w why. map_of reg k = Some w \<and> verdict subtask policy spent w = Some (GApproval, why)
       \<and> b = blocked_of subtask w (GApproval, why))"
proof -
  assume wf: "registry_wf reg"
  have "b \<in> set (blockeds subtask policy spent reg) \<longleftrightarrow> (\<exists>w \<in> set (registry_all reg).
      \<exists>why. verdict subtask policy spent w = Some (GApproval, why) \<and> b = blocked_of subtask w (GApproval, why))"
    unfolding blockeds_def set_concat set_map by (auto split: option.splits if_splits intro!: bexI) metis
  then show ?thesis by (simp add: registry_mem[OF wf] Bex_def)
qed

lemma best_eligible:
  assumes wf: "registry_wf reg" and ne: "eligibles subtask policy spent reg \<noteq> []"
  shows "\<exists>k w. map_of reg k = Some w \<and> may_run subtask policy spent w
    \<and> hd (sort_key (\<lambda>e. (- el_total e, el_id e)) (eligibles subtask policy spent reg)) = eligible_of subtask policy w
    \<and> (\<forall>k' w'. map_of reg k' = Some w' \<and> may_run subtask policy spent w' \<longrightarrow>
       merit subtask policy w' < merit subtask policy w
       \<or> merit subtask policy w' = merit subtask policy w \<and> k \<le> k')"
proof -
  let ?f = "\<lambda>e. (- el_total e, el_id e)" and ?E = "eligibles subtask policy spent reg"
  obtain k w where w: "map_of reg k = Some w" "may_run subtask policy spent w"
      "hd (sort_key ?f ?E) = eligible_of subtask policy w"
    using hd_sort_key(1)[OF ne, of ?f] unfolding eligibles_mem[OF wf] by blast
  have "merit subtask policy w' < merit subtask policy w
       \<or> merit subtask policy w' = merit subtask policy w \<and> k \<le> k'"
    if "map_of reg k' = Some w'" "may_run subtask policy spent w'" for k' w'
  proof -
    have "eligible_of subtask policy w' \<in> set ?E" using that eligibles_mem[OF wf] by blast
    from hd_sort_key(2)[OF ne this, of ?f] show ?thesis
      using w(1) that(1) unfolding w(3) registry_mem[OF wf] by (auto simp: eligible_of_def)
  qed
  with w show ?thesis by blast
qed

lemma cheapest_blocked:
  assumes wf: "registry_wf reg" and ne: "blockeds subtask policy spent reg \<noteq> []"
    and "map_of reg k = Some w" "verdict subtask policy spent w = Some (GApproval, why)"
  shows "we_cost_usd (bl_estimate (hd (sort_key (\<lambda>b. (we_cost_usd (bl_estimate b), wc_worker_id (bl_caps b)))
      (blockeds subtask policy spent reg)))) \<le> we_cost_usd (wk_estimate w subtask)"
proof -
  have "blocked_of subtask w (GApproval, why) \<in> set (blockeds subtask policy spent reg)"
    using assms(3,4) blockeds_mem[OF wf] by blast
  from hd_sort_key(2)[OF ne this, of "\<lambda>b. (we_cost_usd (bl_estimate b), wc_worker_id (bl_caps b))"]
  show ?thesis by (auto simp: blocked_of_def)
qed

text \<open>
  The router picks the best worker that passes every gate. With adapters that report the
  identifier they are registered under, routing always answers. A selected worker is registered,
  is healthy, admits the privacy tier, has the capabilities, offers the sandbox, fits the ceiling
  and the cumulative cap, and is approved if it needs to be; no other admissible worker has a
  higher score, nor the same score and a smaller identifier. If nothing is selected, no
  registered worker is admissible. Approval is asked for only then, exactly when some worker
  fails at nothing but the approval gate, and for a cheapest such worker. Every worker that is
  not admissible is listed with the first gate it fails.
\<close>

theorem worker_route_exact:
  assumes "registry_wf reg"
  shows "\<exists>ex. worker_route subtask reg (Some policy) spent = Inr ex
    \<and> (case rx_selected_worker ex of
         Some wid \<Rightarrow> \<not> rx_needs_approval ex
           \<and> (\<exists>w. map_of reg wid = Some w \<and> may_run subtask policy spent w
               \<and> rx_total_score ex = merit subtask policy w
               \<and> (\<forall>k w'. map_of reg k = Some w' \<and> may_run subtask policy spent w'
                    \<longrightarrow> merit subtask policy w' < merit subtask policy w
                      \<or> merit subtask policy w' = merit subtask policy w \<and> wid \<le> k))
       | None \<Rightarrow> (\<forall>k w. map_of reg k = Some w \<longrightarrow> \<not> may_run subtask policy spent w)
           \<and> (rx_needs_approval ex \<longleftrightarrow>
                (\<exists>k w why. map_of reg k = Some w \<and> verdict subtask policy spent w = Some (GApproval, why)))
           \<and> (\<forall>k w why. map_of reg k = Some w \<and> verdict subtask policy spent w = Some (GApproval, why)
                \<longrightarrow> rx_estimated_cost_usd ex \<le> we_cost_usd (wk_estimate w subtask)))
    \<and> (\<forall>k w gate why. map_of reg k = Some w \<and> verdict subtask policy spent w = Some (gate, why)
         \<longrightarrow> \<lparr>rej_worker = k, rej_reason = why, rej_gate = gate\<rparr> \<in> set (rx_rejected_workers ex))"
proof (cases "eligibles subtask policy spent reg = []")
  case False
  from best_eligible[OF assms this] obtain k w where w: "map_of reg k = Some w" "may_run subtask policy spent w"
      "hd (sort_key (\<lambda>e. (- el_total e, el_id e)) (eligibles subtask policy spent reg)) = eligible_of subtask policy w"
    and best: "\<forall>k' w'. map_of reg k' = Some w' \<and> may_run subtask policy spent w' \<longrightarrow>
       merit subtask policy w' < merit subtask policy w
       \<or> merit subtask policy w' = merit subtask policy w \<and> k \<le> k'"
    by blast
  have k: "wc_worker_id (wk_capabilities w) = k" using w(1) registry_mem[OF assms] by simp
  show ?thesis
    using w(1,2) best rejections_mem[OF assms]
    by (auto simp: route_eq False w(3) selected_def registry_get_def eligible_of_def k empty_explanation_def)
next
  case True
  then have none: "\<And>k w. map_of reg k = Some w \<Longrightarrow> \<not> may_run subtask policy spent w"
    using eligibles_mem[OF assms, of _ subtask policy spent] by force
  show ?thesis
  proof (cases "blockeds subtask policy spent reg = []")
    case nb: True
    have "\<not> (map_of reg k = Some w \<and> verdict subtask policy spent w = Some (GApproval, why))" for k w why
      using blockeds_mem[OF assms, of _ subtask policy spent] nb by force
    then show ?thesis using none rejections_mem[OF assms]
      by (auto simp: route_eq True nb empty_explanation_def)
  next
    case nb: False
    have "hd (sort_key (\<lambda>b. (we_cost_usd (bl_estimate b), wc_worker_id (bl_caps b)))
        (blockeds subtask policy spent reg)) \<in> set (blockeds subtask policy spent reg)"
      by (rule hd_sort_key(1)[OF nb])
    then have "\<exists>k w why. map_of reg k = Some w \<and> verdict subtask policy spent w = Some (GApproval, why)"
      using blockeds_mem[OF assms] by blast
    then show ?thesis using none rejections_mem[OF assms] cheapest_blocked[OF assms nb]
      by (simp add: route_eq True nb awaiting_approval_def empty_explanation_def Let_def) blast
  qed
qed

section \<open>Registration\<close>

lemma register_wf: "registry_wf reg \<Longrightarrow> wc_worker_id (wk_capabilities w) = wk_id w \<Longrightarrow> registry_wf (register w reg)"
proof -
  assume wf: "registry_wf reg" and w: "wc_worker_id (wk_capabilities w) = wk_id w"
  have "set (AList.update (wk_id w) w reg) \<subseteq> insert (wk_id w, w) (set reg)"
    by (induction reg) auto
  with wf w show ?thesis
    by (auto simp: registry_wf_def register_def distinct_update list_all_iff)
qed

lemma registry_of_wf:
  assumes "list_all (\<lambda>w. wc_worker_id (wk_capabilities w) = wk_id w) ws"
  shows "registry_wf (registry_of ws)"
proof -
  have "registry_wf reg \<Longrightarrow> registry_wf (fold register ws reg)" for reg
    using assms by (induction ws arbitrary: reg) (simp_all add: register_wf)
  then show ?thesis by (simp add: registry_of_def registry_wf_def)
qed

lemma registry_all_cong:
  assumes "distinct (map fst r1)" "distinct (map fst r2)" "map_of r1 = map_of r2"
  shows "registry_all r1 = registry_all r2"
proof -
  have "set (map fst r1) = set (map fst r2)"
    using assms(3) by (metis dom_map_of_conv_image_fst list.set_map)
  then have "sort (map fst r1) = sort (map fst r2)"
    using assms(1,2) by (metis sorted_list_of_set_sort_remdups distinct_remdups_id)
  with assms(3) show ?thesis by (simp add: registry_all_def)
qed

text \<open>
  Routing does not depend on how the registry came about: two registries that hold the same
  worker under each identifier, whatever the order of the registrations, give every subtask the
  same explanation.
\<close>

theorem route_order_irrelevant:
  assumes "distinct (map fst r1)" "distinct (map fst r2)" "map_of r1 = map_of r2"
  shows "worker_route subtask r1 policy spent = worker_route subtask r2 policy spent"
proof -
  have sel: "selected subtask r1 = selected subtask r2"
    using assms(3) by (simp add: fun_eq_iff selected_def registry_get_def)
  show ?thesis unfolding worker_route_def registry_all_cong[OF assms] sel ..
qed

section \<open>Bounds of the score\<close>

lemma score_terms_bounded: "(k, v) \<in> set (worker_score subtask caps est limit) \<Longrightarrow> 0 \<le> v \<and> v \<le> 1"
proof -
  assume m: "(k, v) \<in> set (worker_score subtask caps est limit)"
  have "0 \<le> cost_term (we_cost_usd est) limit" "cost_term (we_cost_usd est) limit \<le> 1"
    by (auto simp: cost_term_def)
  note c = py_round_fraction[OF this, of 4]
  have "0 \<le> max 0 (min 1 (wc_availability caps))" "max 0 (min 1 (wc_availability caps)) \<le> (1::real)" by auto
  note a = py_round_fraction[OF this, of 4]
  have l: "0 \<le> LOCATION_FIT (wc_location caps)" "LOCATION_FIT (wc_location caps) \<le> 1"
    by (cases "wc_location caps"; simp)+
  show ?thesis using m c a l by (auto simp: worker_score_def UNKNOWN_CAPABILITY_FIT_def split: if_splits)
qed

text \<open>
  The total score of a selected worker reads as a fraction: it lies between zero and one, and
  so does each of its terms, whatever the worker reports as its availability and estimate.
\<close>

theorem route_score_fraction:
  "0 \<le> total (worker_score subtask caps est limit) \<and> total (worker_score subtask caps est limit) \<le> 1
   \<and> list_all (\<lambda>(k, v). 0 \<le> v \<and> v \<le> 1) (worker_score subtask caps est limit)"
proof -
  have b: "list_all (\<lambda>(k, v). 0 \<le> v \<and> v \<le> 1) (worker_score subtask caps est limit)"
    using score_terms_bounded by (auto simp: list_all_iff)
  define s where "s = sum_list (map (\<lambda>(k, v). the (map_of WEIGHTS k) * v) (worker_score subtask caps est limit))"
  have "0 \<le> s \<and> s \<le> 1"
    using b unfolding s_def worker_score_def by (simp add: WEIGHTS_def)
  then show ?thesis using b py_round_fraction[of s 6] by (simp add: total_def s_def)
qed

section \<open>A concrete registry\<close>

definition demo_cloud :: worker_capabilities where
  "demo_cloud = raw_model_capabilities ''cloud_1'' ''m'' ''raw_model'' LocCloud None None 1 None"

definition demo_registry :: worker_registry where
  "demo_registry = registry_of [raw_model_worker demo_cloud, echo_worker ''echo_1'']"

definition demo_subtask :: subtask where
  "demo_subtask =
    \<lparr>sub_id = ''st_1'', sub_parent_task_id = ''task_1'', sub_title = ''t'', sub_instructions = ''do it'',
     sub_status = StQueued, sub_privacy_tier = TierPublic, sub_preferred_worker = None,
     sub_assigned_worker = None, sub_created_at = 0, sub_updated_at = 0, sub_result_artifact_id = None,
     sub_route_reason = None, sub_sandbox = no_sandbox, sub_required_capabilities = [],
     sub_approved_by = None, sub_approved_max_cost_usd = None, sub_metadata = [],
     sub_blocked_on = [], sub_dependency_failed = None, sub_depends_on = []\<rparr>"

lemma demo_registry_wf: "registry_wf demo_registry"
  unfolding demo_registry_def
  by (rule registry_of_wf) (simp add: raw_model_worker_def echo_worker_def echo_capabilities_def)

lemma demo_echo_runs: "map_of demo_registry ''echo_1'' = Some (echo_worker ''echo_1'')
    \<and> may_run demo_subtask default_policy 0 (echo_worker ''echo_1'')"
  by (simp add: demo_registry_def registry_of_def register_def demo_cloud_def raw_model_worker_def
        raw_model_capabilities_def echo_worker_def echo_capabilities_def may_run_def demo_subtask_def
        default_policy_def effective_ceiling_def default_estimate_def Let_def py_round_def)

theorem worker_route_exact_witness:
  "registry_wf demo_registry
   \<and> (\<exists>ex. worker_route demo_subtask demo_registry (Some default_policy) 0 = Inr ex \<and> rx_selected_worker ex \<noteq> None)"
  using worker_route_exact[OF demo_registry_wf, of demo_subtask default_policy 0] demo_registry_wf demo_echo_runs
  by (fastforce split: option.splits)

theorem route_order_irrelevant_witness:
  "worker_route demo_subtask (registry_of [raw_model_worker demo_cloud, echo_worker ''echo_1'']) None 0
   = worker_route demo_subtask (registry_of [echo_worker ''echo_1'', raw_model_worker demo_cloud]) None 0"
  by (rule route_order_irrelevant)
     (simp_all add: registry_of_def register_def raw_model_worker_def echo_worker_def demo_cloud_def
        raw_model_capabilities_def fun_upd_twist)

end
