(* ===== verification/Tool_Governor.thy ===== *)
theory Tool_Governor
  imports Worker_Routing
begin

text \<open>
  Authorization of the declared tools of a worker (\<open>_consult_tool_governor\<close> of
  \<^verbatim>\<open>core/service.py\<close> with the decision types of \<^verbatim>\<open>core/toolconnect_client.py\<close>). The policy
  engine behind the governor is an argument: for a worker, a subtask, a source and a tool it
  answers with a decision, or raises.
\<close>

record tool_decision =
  td_allowed :: bool
  td_reason :: string
  td_decision_id :: string
  td_default_deny :: bool
  td_unavailable :: bool

definition deny_decision :: "string \<Rightarrow> bool \<Rightarrow> tool_decision" where
  "deny_decision reason unavail =
    \<lparr>td_allowed = False, td_reason = reason, td_decision_id = [], td_default_deny = True, td_unavailable = unavail\<rparr>"

record tool_use_authorization =
  tu_allowed :: bool
  tu_governed :: bool
  tu_decisions :: "(string \<times> string \<times> tool_decision) list"
  tu_denied_tool :: string
  tu_decision :: "tool_decision option"

definition tu_unavailable :: "tool_use_authorization \<Rightarrow> bool" where
  "tu_unavailable a = (case tu_decision a of None \<Rightarrow> False | Some d \<Rightarrow> td_unavailable d)"

definition split_tool_ref :: "string \<Rightarrow> string \<Rightarrow> string \<times> string" where
  "split_tool_ref entry default_source_id =
    (if CHR '':'' \<in> set entry then
       (case py_partition (CHR '':'') entry of (source_id, name) \<Rightarrow>
          if source_id \<noteq> [] \<and> name \<noteq> [] then (source_id, name) else (default_source_id, entry))
     else (default_source_id, entry))"

type_synonym tool_engine = "worker_capabilities \<Rightarrow> subtask \<Rightarrow> string \<Rightarrow> string \<Rightarrow> string + tool_decision"

definition engine_decision :: "string + tool_decision \<Rightarrow> tool_decision" where
  "engine_decision r = (case r of Inl exc \<Rightarrow> deny_decision (''governor raised: '' @ exc) True | Inr d \<Rightarrow> d)"

fun consult_tools ::
  "(string \<Rightarrow> string \<Rightarrow> string + tool_decision) \<Rightarrow> string \<Rightarrow> string list \<Rightarrow> (string \<times> string \<times> tool_decision) list
    \<Rightarrow> tool_use_authorization" where
  "consult_tools ask source_id [] decisions =
    \<lparr>tu_allowed = True, tu_governed = True, tu_decisions = decisions, tu_denied_tool = [], tu_decision = None\<rparr>"
| "consult_tools ask source_id (entry # tools) decisions =
    (case split_tool_ref entry source_id of (sid, name) \<Rightarrow>
       let d = engine_decision (ask sid name); ds = decisions @ [(sid, name, d)]
       in if \<not> td_allowed d then
            \<lparr>tu_allowed = False, tu_governed = True, tu_decisions = ds, tu_denied_tool = sid @ '':'' @ name,
             tu_decision = Some d\<rparr>
          else consult_tools ask source_id tools ds)"

definition consult_tool_governor ::
  "tool_engine option \<Rightarrow> worker_capabilities \<Rightarrow> subtask \<Rightarrow> tool_use_authorization" where
  "consult_tool_governor engine caps x =
    (case engine of
       None \<Rightarrow> \<lparr>tu_allowed = True, tu_governed = False, tu_decisions = [], tu_denied_tool = [], tu_decision = None\<rparr>
     | Some ask \<Rightarrow> consult_tools (ask caps x) (wc_harness caps) (wc_tools caps) [])"

definition denial_reason :: "tool_use_authorization \<Rightarrow> string" where
  "denial_reason a =
    ''tool-use denied by governor: '' @ tu_denied_tool a @ '' ('' @
    (if tu_unavailable a then ''unavailable/fail-closed'' else ''policy deny'') @ '')'' @
    (case tu_decision a of
       None \<Rightarrow> [] | Some d \<Rightarrow> if td_reason d = [] then [] else '': '' @ take 160 (td_reason d))"

lemma consult_tools_allowed:
  "tu_allowed (consult_tools ask src tools ds) \<longleftrightarrow>
    (\<forall>entry \<in> set tools. case split_tool_ref entry src of (sid, name) \<Rightarrow> \<exists>d. ask sid name = Inr d \<and> td_allowed d)"
  by (induction tools arbitrary: ds)
     (auto simp: Let_def engine_decision_def deny_decision_def split: prod.splits sum.splits)

text \<open>The consultation stops at the first denial, and every tool before it was allowed.\<close>

lemma consult_tools_decisions:
  "\<exists>rest. tu_decisions (consult_tools ask src tools ds) = ds @ rest
     \<and> (\<forall>x \<in> set (butlast rest). td_allowed (snd (snd x)))
     \<and> (tu_allowed (consult_tools ask src tools ds) \<longrightarrow> length rest = length tools)"
proof (induction tools arbitrary: ds)
  case (Cons entry tools)
  obtain sid name where e: "split_tool_ref entry src = (sid, name)" by fastforce
  let ?d = "engine_decision (ask sid name)"
  show ?case
  proof (cases "td_allowed ?d")
    case True
    from Cons.IH[of "ds @ [(sid, name, ?d)]"] obtain rest where
      "tu_decisions (consult_tools ask src tools (ds @ [(sid, name, ?d)])) = (ds @ [(sid, name, ?d)]) @ rest"
      "\<forall>x \<in> set (butlast rest). td_allowed (snd (snd x))"
      "tu_allowed (consult_tools ask src tools (ds @ [(sid, name, ?d)])) \<longrightarrow> length rest = length tools" by blast
    with True e show ?thesis by (intro exI[of _ "(sid, name, ?d) # rest"]) auto
  qed (use e in \<open>auto simp: Let_def\<close>)
qed simp

end
