(* ===== verification/Core_Subtasks.thy ===== *)
theory Core_Subtasks
  imports Core_Reviews Tool_Governor
begin

text \<open>
  Subtasks of the ledger (\<^verbatim>\<open>core/service.py\<close> over the direct backend of \<^verbatim>\<open>core/execution.py\<close>):
  submission with dependencies, routing, approval, execution, the recording of results, release
  and failure of dependents, cancellation and completion of a task. What a worker does while it
  runs, and what others do to the ledger meanwhile, is the argument \<open>worker_run\<close>; the tool
  governor is the argument \<open>governor\<close>. The direct backend calls itself for every subtask it
  releases: \<open>n\<close> bounds the depth of these calls, which the interpreter's stack bounds.
\<close>

section \<open>Parameters\<close>

record core_worker_result =
  wr_status :: string
  wr_summary :: string
  wr_artifacts :: "string list"
  wr_warnings :: "string list"
  wr_cost_usd :: "real option"
  wr_error :: "string option"

record core_env =
  env_registry :: worker_registry
  env_policy :: route_policy
  governor :: "tool_engine option"
  worker_run :: "string \<Rightarrow> subtask \<Rightarrow> string \<Rightarrow> core_ledger \<Rightarrow> (string + core_worker_result) \<times> core_ledger"

definition TO_IN_PROGRESS :: "task_status set" where
  "TO_IN_PROGRESS = {TsQueued, TsNeedsApproval}"

definition TO_NEEDS_APPROVAL :: "task_status set" where
  "TO_NEEDS_APPROVAL = {TsQueued, TsInProgress}"

definition COMPLETABLE_TASK_STATUSES :: "task_status set" where
  "COMPLETABLE_TASK_STATUSES = set (filter (\<lambda>x. TsSucceeded \<in> TASK_STATUS_EDGES x)
    [TsQueued, TsInProgress, TsBlocked, TsNeedsReview, TsNeedsApproval, TsSucceeded, TsFailed, TsCancelled])"

section \<open>Dependencies\<close>

definition list_subtasks :: "core_ledger \<Rightarrow> string \<Rightarrow> subtask list" where
  "list_subtasks s task_id = sort_key sub_created_at (filter (\<lambda>x. sub_parent_task_id x = task_id) (lg_subtasks s))"

definition get_subtask :: "core_ledger \<Rightarrow> string \<Rightarrow> subtask option" where
  "get_subtask s i = row_of sub_id i (lg_subtasks s)"

definition dep_met :: "core_ledger \<Rightarrow> string \<Rightarrow> bool" where
  "dep_met s i \<longleftrightarrow> (case get_subtask s i of None \<Rightarrow> False | Some x \<Rightarrow> sub_status x = StSucceeded)"

definition unmet_dependencies :: "core_ledger \<Rightarrow> string list \<Rightarrow> string list" where
  "unmet_dependencies s deps = filter (\<lambda>i. \<not> dep_met s i) deps"

text \<open>
  The walk of \<open>_validate_dependencies\<close>: depth first, with the path in \<open>visiting\<close> and what is done
  in \<open>visited\<close>; the depth is that of the stored graph, so the stack bounds it too.
\<close>

primrec walk_dep :: "nat \<Rightarrow> core_ledger \<Rightarrow> string list \<Rightarrow> string \<Rightarrow> string list \<Rightarrow> core_error + string list" where
  "walk_dep 0 s visiting i visited =
    (if i \<in> set visited then Inr visited else Inl RecursionLimit)"
| "walk_dep (Suc n) s visiting i visited =
    (if i \<in> set visited then Inr visited
     else if i \<in> set visiting then Inl InvalidRequest
     else
       (case fold (\<lambda>j acc. case acc of Inl e \<Rightarrow> Inl e | Inr v \<Rightarrow> walk_dep n s (i # visiting) j v)
              (case get_subtask s i of None \<Rightarrow> [] | Some x \<Rightarrow> sub_depends_on x) (Inr visited) of
          Inl e \<Rightarrow> Inl e
        | Inr v \<Rightarrow> Inr (i # v)))"

definition validate_dependencies :: "nat \<Rightarrow> string \<Rightarrow> string list \<Rightarrow> unit lm" where
  "validate_dependencies n task_id deps s =
    (if \<not> list_all (\<lambda>i. case get_subtask s i of None \<Rightarrow> False | Some x \<Rightarrow> sub_parent_task_id x = task_id) deps
     then (Inl InvalidRequest, s)
     else (case fold (\<lambda>j acc. case acc of Inl e \<Rightarrow> Inl e | Inr v \<Rightarrow> walk_dep n s [] j v) deps (Inr []) of
             Inl e \<Rightarrow> (Inl e, s)
           | Inr _ \<Rightarrow> (Inr (), s)))"

section \<open>Settling the parent, failing the dependents\<close>

definition settle_parent :: "real \<Rightarrow> string \<Rightarrow> unit lm" where
  "settle_parent now task_id =
    lbnd (require_task task_id) (\<lambda>task.
    lbnd (lget (\<lambda>s. filter (\<lambda>x. sub_status x = StNeedsApproval) (list_subtasks s task_id))) (\<lambda>waiting.
    lwhen (ct_status task = TsNeedsApproval \<and> waiting = [])
      (lseq (task_advance task_id TsInProgress {TsNeedsApproval} ''system'' [(''updated_at'', CReal now)]) (lret ()))))"

primrec lfold :: "('a \<Rightarrow> 'acc \<Rightarrow> 'acc lm) \<Rightarrow> 'a list \<Rightarrow> 'acc \<Rightarrow> 'acc lm" where
  "lfold f [] acc = lret acc"
| "lfold f (x # xs) acc = lbnd (f x acc) (lfold f xs)"

definition cascade_dependent ::
  "real \<Rightarrow> string \<Rightarrow> string \<Rightarrow> subtask \<Rightarrow> string list \<times> string list \<Rightarrow> (string list \<times> string list) lm" where
  "cascade_dependent now task_id parent_id dep acc =
    (case acc of (stack, seen) \<Rightarrow>
      if parent_id \<notin> set (sub_depends_on dep) \<or> sub_id dep \<in> set seen then lret (stack, seen)
      else
        lbnd (require_subtask (sub_id dep)) (\<lambda>current.
          if sub_status current \<noteq> StBlocked then lret (stack, sub_id dep # seen)
          else
            lbnd (subtask_advance (sub_id current) StFailed {StBlocked} ''system'' task_id
                   [(''metadata'', CText parent_id), (''updated_at'', CReal now)]) (\<lambda>applied.
              case applied of
                None \<Rightarrow> lret (stack, sub_id dep # seen)
              | Some _ \<Rightarrow>
                  lseq (record_attempt now task_id ''system'' ''system''
                          (''dependency '' @ parent_id @ '' failed; cannot run'') ''failed'' [])
                  (lseq (record_event (Some task_id) ''subtask_dependency_failed'' ''system'' (sub_id current))
                    (lret (sub_id current # stack, sub_id dep # seen))))))"

primrec core_cascade_loop ::
  "nat \<Rightarrow> real \<Rightarrow> string \<Rightarrow> string list \<times> string list \<Rightarrow> unit lm" where
  "core_cascade_loop 0 now task_id acc = lret ()"
| "core_cascade_loop (Suc n) now task_id acc =
    (case fst acc of
       [] \<Rightarrow> lret ()
     | parent_id # stack \<Rightarrow>
         lbnd (lget (\<lambda>s. list_subtasks s task_id)) (\<lambda>deps.
         lbnd (lfold (cascade_dependent now task_id parent_id) deps (stack, snd acc))
           (core_cascade_loop n now task_id)))"

text \<open>Every subtask is pushed at most once, so the loop ends within one turn more than there are subtasks.\<close>

definition cascade_dependency_failure :: "real \<Rightarrow> string \<Rightarrow> string \<Rightarrow> unit lm" where
  "cascade_dependency_failure now task_id failed_id =
    lbnd (lget (\<lambda>s. Suc (length (lg_subtasks s)))) (\<lambda>n. core_cascade_loop n now task_id ([failed_id], []))"

section \<open>Routing\<close>

definition update_subtask :: "string \<Rightarrow> (subtask \<Rightarrow> subtask) \<Rightarrow> unit lm" where
  "update_subtask i f = lmod (\<lambda>s. s\<lparr>lg_subtasks := upd_where (\<lambda>r. sub_id r = i) f (lg_subtasks s)\<rparr>)"

definition total_run_cost_usd :: "core_ledger \<Rightarrow> real" where
  "total_run_cost_usd s =
    sum_list (map (\<lambda>r. case rn_cost_usd r of None \<Rightarrow> 0 | Some c \<Rightarrow> c) (lg_runs s))"

definition pending_approval_for :: "core_ledger \<Rightarrow> string \<Rightarrow> approval_row option" where
  "pending_approval_for s i =
    (case sort_key (\<lambda>a. - ap_created_at a)
       (filter (\<lambda>a. ap_subtask_id a = i \<and> ap_status a = ApPending) (lg_approvals s)) of
       [] \<Rightarrow> None | a # _ \<Rightarrow> Some a)"

definition create_approval :: "real \<Rightarrow> subtask \<Rightarrow> route_explanation \<Rightarrow> string lm" where
  "create_approval now x ex =
    lbnd (new_idM ''approval'') (\<lambda>aid.
    lseq (linsert T_approvals \<lparr>ap_id = aid, ap_task_id = sub_parent_task_id x, ap_subtask_id = sub_id x,
        ap_status = ApPending, ap_requested_worker = rx_approval_candidate ex,
        ap_requested_location = rx_approval_location ex, ap_estimated_cost_usd = rx_estimated_cost_usd ex,
        ap_max_cost_usd = None, ap_decided_by = None, ap_reason = [], ap_created_at = now, ap_decided_at = None\<rparr>)
    (lret aid))"

text \<open>What follows the decision of the router: run, wait for a human, or fail.\<close>

definition routed :: "real \<Rightarrow> subtask \<Rightarrow> route_explanation \<Rightarrow> unit lm" where
  "routed now x ex =
    (if rx_selected_worker ex \<noteq> None then
       lseq (subtask_transition (sub_id x) StQueued ''router'' (sub_parent_task_id x) [(''updated_at'', CReal now)])
         (lret ())
     else if rx_needs_approval ex then
       lseq (subtask_transition (sub_id x) StNeedsApproval ''router'' (sub_parent_task_id x)
               [(''updated_at'', CReal now)])
       (lseq (advance_task now (sub_parent_task_id x) TsNeedsApproval TO_NEEDS_APPROVAL)
       (lbnd (lget (\<lambda>s. pending_approval_for s (sub_id x))) (\<lambda>p.
         lwhen (p = None) (lseq (create_approval now x ex) (lret ())))))
     else
       lseq (subtask_transition (sub_id x) StFailed ''router'' (sub_parent_task_id x) [(''updated_at'', CReal now)])
       (lseq (record_attempt now (sub_parent_task_id x) ''router'' ''system''
                (''No eligible worker for subtask '' @ sub_id x) ''failed'' [])
         (settle_parent now (sub_parent_task_id x))))"

definition route_subtask :: "core_env \<Rightarrow> real \<Rightarrow> string \<Rightarrow> route_explanation lm" where
  "route_subtask env now i =
    lbnd (require_subtask i) (\<lambda>x.
    lseq (lguard (sub_status x \<in> {StQueued, StNeedsApproval}) Conflict)
    (lbnd (lget (\<lambda>s. if max_total_cost_usd (env_policy env) \<noteq> None then total_run_cost_usd s else 0)) (\<lambda>spent.
     case worker_route x (env_registry env) (Some (env_policy env)) spent of
       Inl e \<Rightarrow> lraise e
     | Inr ex \<Rightarrow>
         lseq (create_artifact now (sub_parent_task_id x) ''route_explanation''
                (''Route explanation for subtask '' @ sub_id x) ''router'')
         (lseq (update_subtask (sub_id x) (\<lambda>r. r\<lparr>sub_route_reason := Some ex, sub_updated_at := now\<rparr>))
         (lseq (routed now x ex) (lret ex))))))"

section \<open>Running\<close>

definition block_subtask_on_governor ::
  "real \<Rightarrow> subtask \<Rightarrow> string \<Rightarrow> tool_use_authorization \<Rightarrow> unit lm" where
  "block_subtask_on_governor now x worker_id authz =
    lseq (subtask_advance (sub_id x) StFailed {StRunning} worker_id (sub_parent_task_id x)
           [(''updated_at'', CReal now)])
    (lseq (record_attempt now (sub_parent_task_id x) worker_id ''worker'' (denial_reason authz) ''failed'' [])
    (lseq (settle_parent now (sub_parent_task_id x))
      (cascade_dependency_failure now (sub_parent_task_id x) (sub_id x))))"

definition run_advance where
  "run_advance eid dst from actor task_id ex =
    lverb (advance RUN_STATUS_VOCAB (transition_row False T_runs) eid dst from actor (Some task_id) ex)"

definition first_ref :: "string list \<Rightarrow> col" where
  "first_ref refs = (case refs of [] \<Rightarrow> CNull | a # _ \<Rightarrow> CText a)"

fun py_join :: "string \<Rightarrow> string list \<Rightarrow> string" where
  "py_join sep [] = []"
| "py_join sep [x] = x"
| "py_join sep (x # y # xs) = x @ sep @ py_join sep (y # xs)"

definition result_summary :: "core_worker_result \<Rightarrow> string" where
  "result_summary result =
    (let summary = (if wr_summary result \<noteq> [] then wr_summary result
                    else if wr_status result = ''succeeded'' then ''Worker succeeded'' else ''Worker failed'')
     in if wr_warnings result \<noteq> []
        then summary @ '' (warnings: '' @ py_join ''; '' (wr_warnings result) @ '')'' else summary)"

definition stale_summary :: "core_worker_result \<Rightarrow> subtask \<Rightarrow> string" where
  "stale_summary result live =
    ''stale worker result ('' @ wr_status result @ '') discarded: subtask already ''
      @ subtask_status_value (sub_status live) @ '' (e.g. cancelled mid-run)''"

definition record_result ::
  "(string \<Rightarrow> unit lm) \<Rightarrow> real \<Rightarrow> subtask \<Rightarrow> string \<Rightarrow> core_worker_result \<Rightarrow> string \<Rightarrow> unit lm" where
  "record_result release_ready now x run_id result worker_id =
    (let ok = (wr_status result = ''succeeded''); tid = sub_parent_task_id x
     in lbnd (subtask_advance (sub_id x) (if ok then StSucceeded else StFailed) {StRunning} worker_id tid
               [(''result_artifact_id'', first_ref (wr_artifacts result)), (''updated_at'', CReal now)]) (\<lambda>landed.
        case landed of
          None \<Rightarrow>
            lbnd (require_subtask (sub_id x)) (\<lambda>live.
            lseq (record_attempt now tid worker_id ''worker'' (stale_summary result live) ''discarded''
                    (wr_artifacts result)) (lret ()))
        | Some _ \<Rightarrow>
            lseq (run_advance run_id (if ok then RnSucceeded else RnFailed) {RnRunning} worker_id tid
                   [(''finished_at'', CReal now), (''output_artifact_id'', first_ref (wr_artifacts result)),
                    (''metrics'', real_col (wr_cost_usd result)), (''error'', text_col (wr_error result))])
            (lseq (record_attempt now tid worker_id ''worker'' (result_summary result) (wr_status result)
                    (wr_artifacts result))
            (lseq (settle_parent now tid)
              (if ok then release_ready tid else cascade_dependency_failure now tid (sub_id x))))))"

definition call_worker :: "core_env \<Rightarrow> string \<Rightarrow> subtask \<Rightarrow> string \<Rightarrow> core_worker_result lm" where
  "call_worker env worker_id x run_id s =
    (case worker_run env worker_id x run_id s of
       (Inl exc, s') \<Rightarrow> (Inr \<lparr>wr_status = ''failed'', wr_summary = ''Worker raised'', wr_artifacts = [],
                              wr_warnings = [], wr_cost_usd = None, wr_error = Some exc\<rparr>, s')
     | (Inr r, s') \<Rightarrow> (Inr r, s'))"

definition core_execute ::
  "(string \<Rightarrow> unit lm) \<Rightarrow> core_env \<Rightarrow> real \<Rightarrow> subtask \<Rightarrow> route_explanation \<Rightarrow> unit lm" where
  "core_execute release_ready env now x0 ex =
    (case registry_get (env_registry env) (str_or (rx_selected_worker ex) []) of
       Inl e \<Rightarrow> lraise e
     | Inr w \<Rightarrow>
         let caps = wk_capabilities w; wid = wc_worker_id caps
         in lbnd (subtask_advance (sub_id x0) StRunning {StQueued} wid (sub_parent_task_id x0)
                   [(''assigned_worker'', CText wid), (''updated_at'', CReal now)]) (\<lambda>claimed.
            case claimed of
              None \<Rightarrow> lseq (require_subtask (sub_id x0)) (lraise Conflict)
            | Some _ \<Rightarrow>
                lbnd (require_subtask (sub_id x0)) (\<lambda>x.
                if \<not> tu_allowed (consult_tool_governor (governor env) caps x)
                then block_subtask_on_governor now x wid (consult_tool_governor (governor env) caps x)
                else
                  lbnd (new_idM ''run'') (\<lambda>rid.
                  lseq (linsert T_runs \<lparr>rn_id = rid, rn_subtask_id = sub_id x, rn_worker_id = wid,
                      rn_harness = wc_harness caps, rn_model = wc_model caps, rn_status = RnRunning,
                      rn_started_at = now, rn_finished_at = None, rn_output_artifact_id = None,
                      rn_cost_usd = None, rn_error = None\<rparr>)
                  (lseq (advance_task now (sub_parent_task_id x) TsInProgress TO_IN_PROGRESS)
                  (lseq (require_task (sub_parent_task_id x))
                  (lbnd (require_subtask (sub_id x)) (\<lambda>x1.
                   lbnd (call_worker env wid x1 rid) (\<lambda>result.
                   record_result release_ready now x1 rid result wid)))))))))"

definition run_subtask :: "(string \<Rightarrow> unit lm) \<Rightarrow> core_env \<Rightarrow> real \<Rightarrow> string \<Rightarrow> unit lm" where
  "run_subtask release_ready env now i =
    lbnd (require_subtask i) (\<lambda>x.
      if sub_status x \<in> SUBTASK_TERMINAL then lret ()
      else if sub_status x \<noteq> StQueued then lraise Conflict
      else case sub_route_reason x of
        None \<Rightarrow> lraise Conflict
      | Some ex \<Rightarrow> if rx_selected_worker ex = None then lraise Conflict else core_execute release_ready env now x ex)"

text \<open>\<open>DirectExecutionBackend.start_subtask\<close>; the recalled context that it attaches first is metadata.\<close>

definition start_body :: "(string \<Rightarrow> unit lm) \<Rightarrow> core_env \<Rightarrow> real \<Rightarrow> string \<Rightarrow> unit lm" where
  "start_body release_ready env now i =
    lseq (require_subtask i)
    (lbnd (route_subtask env now i) (\<lambda>ex.
      if rx_needs_approval ex then direct_handle now ''subtask'' i ExWaitingApproval
          (''awaiting approval for '' @ (case rx_approval_candidate ex of None \<Rightarrow> ''None'' | Some c \<Rightarrow> c))
      else if rx_selected_worker ex = None then direct_handle now ''subtask'' i ExFailed ''no eligible worker''
      else
        lseq (run_subtask release_ready env now i)
        (lbnd (require_subtask i) (\<lambda>x.
          direct_handle now ''subtask'' i (if sub_status x = StSucceeded then ExCompleted else ExFailed) []))))"

definition release_one :: "(string \<Rightarrow> unit lm) \<Rightarrow> real \<Rightarrow> string \<Rightarrow> string \<Rightarrow> unit lm" where
  "release_one start now task_id i =
    lbnd (require_subtask i) (\<lambda>current.
    lbnd (lget (\<lambda>s. unmet_dependencies s (sub_depends_on current))) (\<lambda>unmet.
      if sub_status current \<noteq> StBlocked \<or> unmet \<noteq> [] then lret ()
      else
        lseq (subtask_transition (sub_id current) StQueued ''system'' task_id
               [(''metadata'', CNull), (''updated_at'', CReal now)])
        (lseq (record_event (Some task_id) ''subtask_released'' ''system'' (sub_id current))
        (lseq (start (sub_id current))
        (lseq (require_subtask (sub_id current)) (lret ()))))))"

definition release_ready_with :: "(string \<Rightarrow> unit lm) \<Rightarrow> real \<Rightarrow> string \<Rightarrow> unit lm" where
  "release_ready_with start now task_id =
    lbnd (lget (\<lambda>s. filter (\<lambda>x. sub_status x = StBlocked \<and> unmet_dependencies s (sub_depends_on x) = [])
        (list_subtasks s task_id))) (\<lambda>candidates.
    lfor candidates (\<lambda>c. release_one start now task_id (sub_id c)))"

primrec start_subtask :: "nat \<Rightarrow> core_env \<Rightarrow> real \<Rightarrow> string \<Rightarrow> unit lm" where
  "start_subtask 0 env now i = lraise RecursionLimit"
| "start_subtask (Suc n) env now i =
    start_body (release_ready_with (start_subtask n env now) now) env now i"

definition release_ready_subtasks :: "nat \<Rightarrow> core_env \<Rightarrow> real \<Rightarrow> string \<Rightarrow> unit lm" where
  "release_ready_subtasks n env now = release_ready_with (start_subtask n env now) now"

section \<open>Submission\<close>

record subtask_request =
  sq_title :: string
  sq_instructions :: string
  sq_privacy_tier :: privacy_tier
  sq_preferred_worker :: "string option"
  sq_sandbox :: sandbox_spec
  sq_required_capabilities :: "string list"
  sq_metadata :: "(string \<times> col) list"
  sq_depends_on :: "string list"

definition new_subtask :: "real \<Rightarrow> string \<Rightarrow> string \<Rightarrow> subtask_request \<Rightarrow> string list \<Rightarrow> subtask" where
  "new_subtask now i task_id req unmet =
    \<lparr>sub_id = i, sub_parent_task_id = task_id, sub_title = sq_title req, sub_instructions = sq_instructions req,
     sub_status = (if unmet \<noteq> [] then StBlocked else StQueued), sub_privacy_tier = sq_privacy_tier req,
     sub_preferred_worker = sq_preferred_worker req, sub_assigned_worker = None, sub_created_at = now,
     sub_updated_at = now, sub_result_artifact_id = None, sub_route_reason = None, sub_sandbox = sq_sandbox req,
     sub_required_capabilities = sq_required_capabilities req, sub_approved_by = None,
     sub_approved_max_cost_usd = None, sub_metadata = sq_metadata req, sub_blocked_on = unmet,
     sub_dependency_failed = None, sub_depends_on = sq_depends_on req\<rparr>"

definition submit_subtask :: "nat \<Rightarrow> core_env \<Rightarrow> real \<Rightarrow> string \<Rightarrow> subtask_request \<Rightarrow> subtask lm" where
  "submit_subtask n env now task_id req =
    lbnd (require_task task_id) (\<lambda>task.
    lseq (lguard (ct_status task \<notin> set TERMINAL_TASK_STATUSES) Conflict)
    (lseq (validate_dependencies n task_id (sq_depends_on req))
    (lbnd (lget (\<lambda>s. unmet_dependencies s (sq_depends_on req))) (\<lambda>unmet.
     lbnd (new_idM ''subtask'') (\<lambda>i.
     lseq (linsert T_subtasks (new_subtask now i task_id req unmet))
     (if unmet \<noteq> [] then
        lseq (record_event (Some task_id) ''subtask_blocked'' ''system'' i) (require_subtask i)
      else lseq (start_subtask n env now i) (require_subtask i)))))))"

section \<open>Signals, approvals, cancellation\<close>

definition execution_converge where
  "execution_converge eid dst task_id ex =
    lseq (lverb (converge EXECUTION_STATE_VOCAB (transition_row False T_executions) eid dst ''system'' None task_id ex
            None None)) (lret ())"

definition update_execution_state :: "real \<Rightarrow> string \<Rightarrow> execution_state \<Rightarrow> (string \<times> col) list \<Rightarrow> unit lm" where
  "update_execution_state now handle_id state flds =
    lbnd (lget (\<lambda>s. row_of ex_handle_id handle_id (lg_executions s))) (\<lambda>h.
      case h of
        None \<Rightarrow> lret ()
      | Some _ \<Rightarrow> execution_converge handle_id state None (flds @ [(''updated_at'', CReal now)]))"

definition signal_granted :: "nat \<Rightarrow> core_env \<Rightarrow> real \<Rightarrow> string \<Rightarrow> string \<Rightarrow> unit lm" where
  "signal_granted n env now handle_id i =
    lbnd (route_subtask env now i) (\<lambda>ex.
      if rx_selected_worker ex = None then
        update_execution_state now handle_id ExFailed [(''detail'', CText ''no eligible worker after approval'')]
      else
        lseq (run_subtask (release_ready_with (start_subtask n env now) now) env now i)
        (lbnd (require_subtask i) (\<lambda>x.
          update_execution_state now handle_id (if sub_status x = StSucceeded then ExCompleted else ExFailed) [])))"

definition signal_entity :: "(string \<Rightarrow> unit lm) \<Rightarrow> string \<Rightarrow> string \<Rightarrow> unit lm" where
  "signal_entity deliver entity_type entity_id =
    lbnd (lget (\<lambda>s. filter (\<lambda>h. ex_state h \<in> EXECUTION_LIVE) (executions_for s entity_type entity_id))) (\<lambda>hs.
    lfor hs (\<lambda>h. deliver (ex_handle_id h)))"

definition approval_transition where
  "approval_transition eid dst actor task_id ex =
    lverb (transition APPROVAL_STATUS_VOCAB (transition_row False T_approvals) eid dst actor (Some task_id) ex)"

definition grant_approval :: "real \<Rightarrow> string \<Rightarrow> string \<Rightarrow> real option \<Rightarrow> unit lm" where
  "grant_approval now i approved_by max_cost =
    lbnd (require_subtask i) (\<lambda>x.
    lseq (lguard (sub_status x = StNeedsApproval) Conflict)
    (lbnd (lget (\<lambda>s. pending_approval_for s i)) (\<lambda>p.
     lbnd (case p of Some a \<Rightarrow> lret (ap_id a)
           | None \<Rightarrow> (case sub_route_reason x of None \<Rightarrow> lraise Validation
                      | Some ex \<Rightarrow> create_approval now x ex)) (\<lambda>aid.
     lseq (approval_transition aid ApGranted approved_by (sub_parent_task_id x)
            [(''decided_by'', CText approved_by), (''max_cost_usd'', real_col max_cost), (''decided_at'', CReal now)])
     (lseq (subtask_transition i StQueued approved_by (sub_parent_task_id x)
            [(''approved_by'', CText approved_by), (''approved_max_cost_usd'', real_col max_cost),
             (''updated_at'', CReal now)])
     (lseq (dismiss_inbox_items i now)
       (record_event (Some (sub_parent_task_id x)) ''subtask_approved'' approved_by i)))))))"

definition approve_subtask :: "nat \<Rightarrow> core_env \<Rightarrow> real \<Rightarrow> string \<Rightarrow> string \<Rightarrow> real option \<Rightarrow> subtask lm" where
  "approve_subtask n env now i approved_by max_cost =
    lseq (require_subtask i)
    (lseq (grant_approval now i approved_by max_cost)
    (lseq (signal_entity (\<lambda>h. signal_granted n env now h i) ''subtask'' i)
      (require_subtask i)))"

definition signal_denied :: "real \<Rightarrow> string \<Rightarrow> unit lm" where
  "signal_denied now i =
    signal_entity (\<lambda>h. update_execution_state now h ExFailed [(''detail'', CText ''approval denied'')]) ''subtask'' i"

definition deny_subtask :: "real \<Rightarrow> string \<Rightarrow> string \<Rightarrow> string \<Rightarrow> subtask lm" where
  "deny_subtask now i denied_by reason =
    lbnd (require_subtask i) (\<lambda>x.
    lseq (lguard (sub_status x = StNeedsApproval) Conflict)
    (lbnd (lget (\<lambda>s. pending_approval_for s i)) (\<lambda>p.
     lseq (case p of None \<Rightarrow> lret ()
           | Some a \<Rightarrow> lseq (approval_transition (ap_id a) ApDenied denied_by (sub_parent_task_id x)
               [(''decided_by'', CText denied_by), (''reason'', CText reason), (''decided_at'', CReal now)]) (lret ()))
     (lseq (subtask_transition i StFailed denied_by (sub_parent_task_id x) [(''updated_at'', CReal now)])
     (lseq (dismiss_inbox_items i now)
     (lseq (record_event (Some (sub_parent_task_id x)) ''subtask_denied'' denied_by i)
     (lseq (signal_denied now i)
     (lseq (settle_parent now (sub_parent_task_id x))
       (require_subtask i)))))))))"

definition expire_tail :: "real \<Rightarrow> string \<Rightarrow> approval_row \<Rightarrow> unit lm" where
  "expire_tail now actor rec =
    lbnd (lget (\<lambda>s. get_subtask s (ap_subtask_id rec))) (\<lambda>x.
      lwhen (case x of None \<Rightarrow> False | Some y \<Rightarrow> sub_status y = StNeedsApproval)
        (lseq (subtask_transition (ap_subtask_id rec) StFailed actor (ap_task_id rec) [(''updated_at'', CReal now)])
        (lseq (dismiss_inbox_items (ap_subtask_id rec) now)
        (lseq (signal_denied now (ap_subtask_id rec))
          (settle_parent now (ap_task_id rec))))))"

definition require_approval :: "string \<Rightarrow> approval_row lm" where
  "require_approval i s = lsome NotFound (row_of ap_id i (lg_approvals s)) s"

definition ltry :: "'a lm \<Rightarrow> (core_error + 'a) lm" where
  "ltry m s = (case m s of (r, s') \<Rightarrow> (Inr r, s'))"

definition expire_approval :: "real \<Rightarrow> string \<Rightarrow> string \<Rightarrow> approval_row lm" where
  "expire_approval now approval_id actor =
    lbnd (require_approval approval_id) (\<lambda>rec.
    lbnd (ltry (approval_transition approval_id ApExpired actor (ap_task_id rec)
           [(''decided_by'', CText actor), (''decided_at'', CReal now)])) (\<lambda>r.
      case r of
        Inl (Transition (TransitionRefused a b)) \<Rightarrow> require_approval approval_id
      | Inl e \<Rightarrow> lraise e
      | Inr _ \<Rightarrow>
          lseq (record_event (Some (ap_task_id rec)) ''approval_expired'' actor approval_id)
          (lseq (expire_tail now actor rec) (require_approval approval_id))))"

definition subtask_cancel where
  "subtask_cancel eid task_id ex =
    lverb (cancel SUBTASK_STATUS_VOCAB (transition_row False T_subtasks) eid StCancelled ''system'' (Some task_id) ex)"

definition run_cancel where
  "run_cancel eid task_id ex =
    lverb (cancel RUN_STATUS_VOCAB (transition_row False T_runs) eid RnCancelled ''system'' (Some task_id) ex)"

text \<open>The callback of the direct backend finds a terminal subtask and only mirrors its handle.\<close>

definition cancel_live :: "real \<Rightarrow> string \<Rightarrow> execution_row list \<Rightarrow> unit lm" where
  "cancel_live now task_id live = lfor live (\<lambda>h.
    lseq (execution_converge (ex_handle_id h) ExCancelled (Some task_id) [(''updated_at'', CReal now)])
      (update_execution_state now (ex_handle_id h) ExCancelled []))"

definition cancel_subtask :: "real \<Rightarrow> string \<Rightarrow> bool lm" where
  "cancel_subtask now i =
    lbnd (require_subtask i) (\<lambda>x.
    lbnd (subtask_cancel i (sub_parent_task_id x) [(''updated_at'', CReal now)]) (\<lambda>r.
      if cr_already_terminal r then lret False
      else
        lbnd (lget (\<lambda>s. filter (\<lambda>h. ex_state h \<in> EXECUTION_LIVE) (executions_for s ''subtask'' i))) (\<lambda>live.
        lbnd (lget (\<lambda>s. filter (\<lambda>rn. rn_subtask_id rn = i \<and> rn_status rn = RnRunning) (lg_runs s))) (\<lambda>runs.
        lseq (lfor runs (\<lambda>rn. lseq (run_cancel (rn_id rn) (sub_parent_task_id x) [(''finished_at'', CReal now)]) (lret ())))
        (lseq (cancel_live now (sub_parent_task_id x) live)
        (lseq (settle_parent now (sub_parent_task_id x)) (lret True)))))))"

definition task_cancel where
  "task_cancel eid actor ex =
    lverb (cancel TASK_STATUS_VOCAB (transition_row False T_tasks) eid TsCancelled actor (Some eid) ex)"

definition core_cancel_task :: "real \<Rightarrow> string \<Rightarrow> string \<Rightarrow> core_task lm" where
  "core_cancel_task now task_id actor =
    lbnd (ltry (task_cancel task_id actor [(''updated_at'', CReal now)])) (\<lambda>r.
      case r of
        Inl (Transition (EntityNotFound a b)) \<Rightarrow> lraise NotFound
      | Inl e \<Rightarrow> lraise e
      | Inr c \<Rightarrow>
          if cr_already_terminal c then require_task task_id
          else
            lseq (record_event (Some task_id) ''task_cancelled'' actor [])
            (lbnd (lget (\<lambda>s. filter (\<lambda>x. sub_status x \<notin> SUBTASK_TERMINAL) (list_subtasks s task_id))) (\<lambda>xs.
             lseq (lfor xs (\<lambda>x. lseq (cancel_subtask now (sub_id x)) (lret ())))
               (require_task task_id))))"

text \<open>
  \<open>audited\<close> is the verdict of the completion audit. The handoff summary that is refreshed first is
  a column of its own.
\<close>

definition core_complete_task :: "(core_ledger \<Rightarrow> bool) \<Rightarrow> real \<Rightarrow> string \<Rightarrow> string \<Rightarrow> bool \<Rightarrow> unit lm" where
  "core_complete_task audited now task_id completed_by force =
    lbnd (require_task task_id) (\<lambda>task.
    lseq (lguard (ct_status task \<noteq> TsSucceeded) Conflict)
    (lbnd (lget audited) (\<lambda>passed.
      if \<not> passed \<and> \<not> force then
        lseq (record_event (Some task_id) ''completion_refused'' completed_by []) (lraise PolicyViolation)
      else
        lbnd (task_advance task_id TsSucceeded COMPLETABLE_TASK_STATUSES completed_by [(''updated_at'', CReal now)])
          (\<lambda>landed. case landed of
             None \<Rightarrow> lseq (require_task task_id) (lraise Conflict)
           | Some _ \<Rightarrow> record_event (Some task_id) ''task_completed'' completed_by []))))"

end
