(* ===== verification/Core_Lifecycle.thy ===== *)
theory Core_Lifecycle
  imports Core_Subtasks
begin

text \<open>
  The life cycle of subtasks over every operation of the ledger. Its specification is a board
  that shows the status and the dependencies of every subtask: a submission adds an entry, a
  status moves along the declared transitions, and an entry only leaves the waiting room for the
  queue when everything it depends on has succeeded. Every operation of the ledger, whatever
  else happens while a worker runs, is a sequence of such moves.
\<close>

section \<open>The board\<close>

type_synonym board = "string \<rightharpoonup> subtask_status \<times> string list"

definition all_met :: "board \<Rightarrow> string list \<Rightarrow> bool" where
  "all_met b deps \<longleftrightarrow> list_all (\<lambda>d. map_option fst (b d) = Some StSucceeded) deps"

inductive board_step :: "board \<Rightarrow> board \<Rightarrow> bool" where
  post_ready: "b i = None \<Longrightarrow> all_met b deps \<Longrightarrow> board_step b (b(i \<mapsto> (StQueued, deps)))"
| post_blocked: "b i = None \<Longrightarrow> board_step b (b(i \<mapsto> (StBlocked, deps)))"
| move: "b i = Some (x, deps) \<Longrightarrow> y \<in> SUBTASK_TRANSITIONS x \<Longrightarrow> x = StBlocked \<and> y = StQueued \<longrightarrow> all_met b deps
    \<Longrightarrow> board_step b (b(i \<mapsto> (y, deps)))"

abbreviation board_steps :: "board \<Rightarrow> board \<Rightarrow> bool" where
  "board_steps \<equiv> board_step\<^sup>*\<^sup>*"

text \<open>Entries stay, with their dependencies, and a terminal status is final.\<close>

lemma board_step_entry:
  "board_step b b' \<Longrightarrow> b i = Some (x, deps)
    \<Longrightarrow> \<exists>y. b' i = Some (y, deps) \<and> (x \<in> SUBTASK_TERMINAL \<longrightarrow> y = x) \<and> (x \<noteq> StBlocked \<longrightarrow> y \<noteq> StBlocked)"
proof (induction rule: board_step.induct)
  case (move b j z ds y)
  then show ?case by (cases "j = i"; cases x; auto simp: SUBTASK_TERMINAL_def)
qed auto

lemma board_entry:
  "board_steps b b' \<Longrightarrow> b i = Some (x, deps)
    \<Longrightarrow> \<exists>y. b' i = Some (y, deps) \<and> (x \<in> SUBTASK_TERMINAL \<longrightarrow> y = x) \<and> (x \<noteq> StBlocked \<longrightarrow> y \<noteq> StBlocked)"
proof (induction rule: rtranclp_induct)
  case (step c d)
  then obtain z where z: "c i = Some (z, deps)" "x \<in> SUBTASK_TERMINAL \<longrightarrow> z = x" "x \<noteq> StBlocked \<longrightarrow> z \<noteq> StBlocked" by blast
  from board_step_entry[OF step.hyps(2) z(1)] z show ?case by auto
qed auto

lemma all_met_steps: "board_steps b b' \<Longrightarrow> all_met b deps \<Longrightarrow> all_met b' deps"
  unfolding all_met_def list_all_iff
  by (fastforce dest: board_entry simp: SUBTASK_TERMINAL_def)

text \<open>Whatever is queued, running, awaiting approval or done has all its dependencies met.\<close>

definition at_work :: "subtask_status set" where
  "at_work = {StQueued, StRunning, StNeedsApproval, StSucceeded}"

definition gated :: "board \<Rightarrow> bool" where
  "gated b \<longleftrightarrow> (\<forall>i x deps. b i = Some (x, deps) \<and> x \<in> at_work \<longrightarrow> all_met b deps)"

lemma edge_at_work: "y \<in> SUBTASK_TRANSITIONS x \<Longrightarrow> y \<in> at_work \<Longrightarrow> x \<in> at_work \<or> x = StBlocked \<and> y = StQueued"
  by (cases x) (auto simp: at_work_def)

lemma gated_step: "board_step b b' \<Longrightarrow> gated b \<Longrightarrow> gated b'"
proof -
  assume st: "board_step b b'" and g: "gated b"
  have mono: "all_met b deps \<Longrightarrow> all_met b' deps" for deps
    using all_met_steps[OF r_into_rtranclp[of board_step, OF st]] .
  show ?thesis unfolding gated_def
  proof (intro allI impI)
    fix i x deps assume "b' i = Some (x, deps) \<and> x \<in> at_work"
    with st g have "all_met b deps"
      by (cases rule: board_step.cases)
         (auto simp: gated_def at_work_def split: if_splits dest!: edge_at_work)
    then show "all_met b' deps" by (rule mono)
  qed
qed

lemma gated_steps: "board_steps b b' \<Longrightarrow> gated b \<Longrightarrow> gated b'"
  by (induction rule: rtranclp_induct) (auto intro: gated_step)

section \<open>The refinement\<close>

definition board_of :: "core_ledger \<Rightarrow> board" where
  "board_of s i = map_option (\<lambda>x. (sub_status x, sub_depends_on x)) (get_subtask s i)"

definition sub_good :: "core_ledger \<Rightarrow> core_ledger \<Rightarrow> bool" where
  "sub_good s s' \<longleftrightarrow> table_ok T_subtasks s \<longrightarrow> table_ok T_subtasks s' \<and> board_steps (board_of s) (board_of s')"

interpretation good: ledger_effect sub_good
proof
  show "sub_good s x \<Longrightarrow> sub_good x y \<Longrightarrow> sub_good s y" for s x y
    unfolding sub_good_def by (blast intro: rtranclp_trans)
qed (simp add: sub_good_def)

lemma dep_met_board: "list_all (dep_met s) deps \<longleftrightarrow> all_met (board_of s) deps"
  by (auto simp: all_met_def list_all_iff dep_met_def board_of_def option.map_comp comp_def split: option.splits)

lemma sub_good_frame: "lg_subtasks s' = lg_subtasks s \<Longrightarrow> sub_good s s'"
proof -
  assume e: "lg_subtasks s' = lg_subtasks s"
  then have "board_of s' = board_of s" by (simp add: board_of_def get_subtask_def fun_eq_iff)
  with e show ?thesis by (simp add: sub_good_def table_ok_def T_subtasks_def)
qed

lemma sub_good_audit: "sub_good s x \<Longrightarrow> sub_good s (audit_opt r x)"
  by (erule good.trans, rule sub_good_frame) (simp add: audit_opt_def split: option.split)

lemma get_subtask_upd:
  assumes "\<And>r. sub_id (f r) = sub_id r"
  shows "get_subtask (s\<lparr>lg_subtasks := upd_where P f (lg_subtasks s)\<rparr>) i =
    map_option (\<lambda>r. if P r then f r else r) (get_subtask s i)"
  by (simp add: get_subtask_def row_of_upd_where assms)

section \<open>Status writes\<close>

definition ok_edge :: "subtask_status \<Rightarrow> subtask_status \<Rightarrow> bool" where
  "ok_edge c d \<longleftrightarrow> d \<in> SUBTASK_TRANSITIONS c \<and> \<not> (c = StBlocked \<and> d = StQueued)"

lemma subtask_col_frame [simp]:
  "sub_id (fold subtask_col cs r) = sub_id r" "sub_status (fold subtask_col cs r) = sub_status r"
  "sub_depends_on (fold subtask_col cs r) = sub_depends_on r"
  by (induction cs arbitrary: r) (auto simp: subtask_col_def split: prod.split)

lemma write_step:
  assumes ok: "table_ok T_subtasks s" and x: "get_subtask s i = Some x"
    and e: "dst \<in> SUBTASK_TRANSITIONS (sub_status x)"
    and q: "sub_status x = StBlocked \<and> dst = StQueued \<longrightarrow> list_all (dep_met s) (sub_depends_on x)"
  shows "sub_good s (s\<lparr>lg_subtasks := upd_where (\<lambda>r. sub_id r = i \<and> sub_status r = sub_status x)
      (\<lambda>r. fold subtask_col ex (r\<lparr>sub_status := dst\<rparr>)) (lg_subtasks s)\<rparr>)" (is "sub_good s ?s")
proof -
  have id: "get_subtask s j = Some y \<Longrightarrow> sub_id y = j" for j y
    by (auto simp: get_subtask_def dest: row_of_SomeD)
  have "board_of ?s = (board_of s)(i \<mapsto> (dst, sub_depends_on x))"
  proof
    fix j
    show "board_of ?s j = ((board_of s)(i \<mapsto> (dst, sub_depends_on x))) j"
      using x id[of j] by (cases "get_subtask s j") (auto simp: board_of_def get_subtask_upd)
  qed
  moreover have "board_step (board_of s) ((board_of s)(i \<mapsto> (dst, sub_depends_on x)))"
    using x e q by (intro board_step.move) (auto simp: board_of_def dep_met_board)
  moreover have "table_ok T_subtasks ?s" using ok by (simp add: table_ok_def T_subtasks_def map_key_upd_where)
  ultimately show ?thesis by (simp add: sub_good_def r_into_rtranclp)
qed

lemma get_stored: "stored_of T_subtasks s i = map_option sub_status (get_subtask s i)"
  by (simp add: stored_of_def T_subtasks_def get_subtask_def)

lemma write_good:
  assumes "\<And>cur dst ex r. d (Some cur) = Proceed dst ex r \<Longrightarrow> stored_of T_subtasks s eid = Some cur \<Longrightarrow>
      ok_edge cur dst \<or> dst \<in> SUBTASK_TRANSITIONS cur
        \<and> (\<forall>x. get_subtask s eid = Some x \<longrightarrow> list_all (dep_met s) (sub_depends_on x))"
  shows "sub_good s (snd (transition_row b T_subtasks eid d s))"
proof (cases "table_ok T_subtasks s")
  case True
  note eq = subtasks_t.transition_row_eq[OF True[unfolded table_ok_def], of b eid d]
  show ?thesis
  proof (cases "d (stored_of T_subtasks s eid)")
    case (Proceed dst ex r)
    show ?thesis
    proof (cases "get_subtask s eid")
      case (Some x)
      have out: "snd (transition_row b T_subtasks eid d s) = audit_opt r
          (s\<lparr>lg_subtasks := upd_where (\<lambda>r. sub_id r = eid \<and> sub_status r = sub_status x)
            (\<lambda>r. fold subtask_col ex (r\<lparr>sub_status := dst\<rparr>)) (lg_subtasks s)\<rparr>)"
        using eq Some Proceed by (simp add: Let_def get_stored) (simp add: T_subtasks_def)
      show ?thesis unfolding out
        by (intro sub_good_audit write_step)
           (use True Some Proceed assms[of "sub_status x" dst ex r] in \<open>auto simp: ok_edge_def get_stored\<close>)
    qed (use eq Proceed in \<open>simp add: Let_def good.refl get_stored\<close>)
  next
    case (Hold r)
    then show ?thesis using eq by (simp add: Let_def sub_good_audit good.refl)
  next
    case (Raise e)
    then show ?thesis using eq by (simp add: Let_def good.refl)
  qed
qed (simp add: sub_good_def)

section \<open>Every operation keeps the relation\<close>

lemma good_verbs:
  "(\<And>c. c \<in> from \<Longrightarrow> ok_edge c dst) \<Longrightarrow> keeps sub_good (subtask_advance eid dst from actor tid ex)"
  "dst \<in> {StNeedsApproval, StFailed} \<Longrightarrow> keeps sub_good (subtask_transition eid dst actor tid ex)"
  "keeps sub_good (subtask_cancel eid tid ex)"
proof -
  show "keeps sub_good (subtask_advance eid dst from actor tid ex)" if "\<And>c. c \<in> from \<Longrightarrow> ok_edge c dst"
    unfolding subtask_advance_def
    by (rule good.keeps_verb, unfold snd_verbs, rule write_good)
       (use that in \<open>auto simp: advance_decide_def split: if_splits\<close>)
  show "keeps sub_good (subtask_transition eid dst actor tid ex)" if "dst \<in> {StNeedsApproval, StFailed}"
  proof -
    have e: "dst \<in> allowed SUBTASK_STATUS_VOCAB cur None \<Longrightarrow> ok_edge cur dst" for cur
      using that by (cases cur) (auto simp: allowed_def SUBTASK_STATUS_VOCAB_def SUBTASK_TERMINAL_def edge_get_def
          ok_edge_def at_work_def split: if_splits)
    show ?thesis unfolding subtask_transition_def
      by (rule good.keeps_verb, unfold snd_verbs, rule write_good)
         (auto simp: transition_decide_def intro: e split: if_splits)
  qed
  have c: "cur \<notin> SUBTASK_TERMINAL \<Longrightarrow> ok_edge cur StCancelled" for cur
    by (cases cur) (auto simp: SUBTASK_TERMINAL_def ok_edge_def at_work_def)
  show "keeps sub_good (subtask_cancel eid tid ex)"
    unfolding subtask_cancel_def
    by (rule good.keeps_verb, unfold snd_verbs, rule write_good)
       (auto simp: cancel_decide_def is_terminal_def SUBTASK_STATUS_VOCAB_def intro: c split: if_splits)
qed

lemma good_frame: "(\<And>s. lg_subtasks (snd (m s)) = lg_subtasks s) \<Longrightarrow> keeps sub_good m"
  unfolding keeps_def by (blast intro: sub_good_frame)

lemma good_other_verbs [simp, intro]:
  "keeps sub_good (task_advance eid dst from actor ex)" "keeps sub_good (task_cancel eid actor ex)"
  "keeps sub_good (lverb (task_transition b eid dst actor ex))"
  "keeps sub_good (run_advance eid rdst rfrom actor tid ex)" "keeps sub_good (run_cancel eid tid ex)"
  "keeps sub_good (approval_transition eid adst actor tid ex)"
  "keeps sub_good (review_transition b eid vdst actor tid ex)"
  "keeps sub_good (execution_converge eid edst otid ex)"
  unfolding task_advance_def task_cancel_def task_transition_def run_advance_def run_cancel_def
    approval_transition_def review_transition_def execution_converge_def
  by (intro good.keeps_rules good_frame; simp add: snd_lverb snd_verbs;
      rule transition_row_frame; simp add: T_tasks_def T_runs_def T_approvals_def T_reviews_def T_executions_def)+

lemma good_prims [simp, intro]:
  "keeps sub_good (new_idM p)" "keeps sub_good (record_event a b c d)" "keeps sub_good (core_update_task tid f)"
  "keeps sub_good (touch now tid)" "keeps sub_good (insert_attempt aa)" "keeps sub_good (insert_artifact ar)"
  "keeps sub_good (require_artifact i)" "keeps sub_good (upsert_execution h)"
  "keeps sub_good (dismiss_inbox_items r now)" "keeps sub_good (linsert T_runs rn)"
  "keeps sub_good (linsert T_approvals ap)" "keeps sub_good (require_approval i)"
  by (rule good_frame, simp add: new_idM_def core_new_id_def record_event_def core_update_task_def touch_def lmod_def
        insert_attempt_def insert_artifact_def require_artifact_def lsome_def lret_def lraise_def
        upsert_execution_def dismiss_inbox_items_def linsert_def T_runs_def T_approvals_def require_approval_def
        split: option.split)+

lemma good_fold: "(\<And>x acc. keeps sub_good (f x acc)) \<Longrightarrow> keeps sub_good (lfold f xs acc)"
  by (induction xs arbitrary: acc) (auto intro!: good.keeps_rules)

lemma good_parts [simp, intro]:
  "keeps sub_good (advance_task now tid dst from)" "keeps sub_good (record_attempt now tid a b c d refs)"
  "keeps sub_good (create_artifact now tid ty sm who)" "keeps sub_good (direct_handle now et ei st dt)"
  "keeps sub_good (settle_parent now tid)" "keeps sub_good (create_approval now x ex)"
  "keeps sub_good (update_execution_state now h es fl)"
  unfolding advance_task_def record_attempt_def create_artifact_def direct_handle_def settle_parent_def
    create_approval_def update_execution_state_def
  by (intro good.keeps_rules good_prims good_other_verbs)+

lemma good_cascade [simp, intro]:
  "keeps sub_good (cascade_dependent now tid p dep acc)"
  "keeps sub_good (core_cascade_loop n now tid acc)"
  "keeps sub_good (cascade_dependency_failure now tid i)"
proof -
  have dep: "keeps sub_good (cascade_dependent now tid p dep acc)" for p dep acc
    unfolding cascade_dependent_def
    by (cases acc; simp only: prod.case)
       (intro good.keeps_rules good_prims good_parts good_verbs(1); simp add: ok_edge_def at_work_def)
  show "keeps sub_good (cascade_dependent now tid p dep acc)" by (rule dep)
  have loop: "keeps sub_good (core_cascade_loop n now tid acc)" for n acc
  proof (induction n arbitrary: acc)
    case (Suc n)
    then show ?case by (cases "fst acc") (auto intro!: good.keeps_rules good_fold dep)
  qed simp
  then show "keeps sub_good (core_cascade_loop n now tid acc)" by blast
  show "keeps sub_good (cascade_dependency_failure now tid i)"
    unfolding cascade_dependency_failure_def by (intro good.keeps_rules loop)
qed

section \<open>Under a stable condition\<close>

text \<open>A condition that the relation does not break, and an operation that keeps the relation under it.\<close>

definition under :: "(core_ledger \<Rightarrow> bool) \<Rightarrow> 'a lm \<Rightarrow> bool" where
  "under P m \<longleftrightarrow> (\<forall>s. P s \<longrightarrow> sub_good s (snd (m s)))"

definition stable :: "(core_ledger \<Rightarrow> bool) \<Rightarrow> bool" where
  "stable P \<longleftrightarrow> (\<forall>s s'. P s \<longrightarrow> sub_good s s' \<longrightarrow> P s')"

lemma under_keeps: "keeps sub_good m \<Longrightarrow> under P m"
  by (simp add: under_def keeps_def)

lemma under_bnd: "stable P \<Longrightarrow> under P m \<Longrightarrow> (\<And>x. under P (f x)) \<Longrightarrow> under P (lbnd m f)"
  unfolding under_def
proof (intro allI impI)
  fix s assume a: "stable P" "\<forall>s. P s \<longrightarrow> sub_good s (snd (m s))" "\<And>x. \<forall>s. P s \<longrightarrow> sub_good s (snd (f x s))" "P s"
  obtain r s1 where m: "m s = (r, s1)" by (cases "m s")
  then have g: "sub_good s s1" using a(2,4) by (metis snd_conv)
  then have "P s1" using a(1,4) unfolding stable_def by blast
  then show "sub_good s (snd (lbnd m f s))"
    using m g a(3) by (cases r) (auto simp: lbnd_def intro: good.trans)
qed

lemma under_seq: "stable P \<Longrightarrow> under P m \<Longrightarrow> under P n \<Longrightarrow> under P (lseq m n)"
  unfolding lseq_def by (rule under_bnd)

text \<open>The subtask is known and has left the waiting room.\<close>

definition unblocked :: "string \<Rightarrow> core_ledger \<Rightarrow> bool" where
  "unblocked i s \<longleftrightarrow> table_ok T_subtasks s \<and> (\<exists>x. get_subtask s i = Some x \<and> sub_status x \<noteq> StBlocked)"

lemma stable_unblocked: "stable (unblocked i)"
  unfolding stable_def unblocked_def sub_good_def
proof (intro allI impI)
  fix s s' assume a: "table_ok T_subtasks s \<and> (\<exists>x. get_subtask s i = Some x \<and> sub_status x \<noteq> StBlocked)"
    "table_ok T_subtasks s \<longrightarrow> table_ok T_subtasks s' \<and> board_steps (board_of s) (board_of s')"
  then obtain x where "get_subtask s i = Some x" "sub_status x \<noteq> StBlocked" by blast
  then have "board_of s i = Some (sub_status x, sub_depends_on x)" "sub_status x \<noteq> StBlocked"
    by (auto simp: board_of_def)
  with a board_entry[of "board_of s" "board_of s'" i]
  show "table_ok T_subtasks s' \<and> (\<exists>x. get_subtask s' i = Some x \<and> sub_status x \<noteq> StBlocked)"
    by (fastforce simp: board_of_def)
qed

lemma under_queue: "under (unblocked i) (subtask_transition i StQueued actor tid ex)"
  unfolding under_def
proof (intro allI impI)
  fix s assume u: "unblocked i s"
  have e: "StQueued \<in> allowed SUBTASK_STATUS_VOCAB cur None \<Longrightarrow> cur \<noteq> StBlocked \<Longrightarrow> ok_edge cur StQueued" for cur
    by (cases cur) (auto simp: allowed_def SUBTASK_STATUS_VOCAB_def SUBTASK_TERMINAL_def edge_get_def
          ok_edge_def at_work_def split: if_splits)
  show "sub_good s (snd (subtask_transition i StQueued actor tid ex s))"
  proof (cases "table_ok T_subtasks s")
    case True
    with u have "\<And>c. stored_of T_subtasks s i = Some c \<Longrightarrow> c \<noteq> StBlocked"
      by (auto simp: unblocked_def get_stored)
    then show ?thesis unfolding subtask_transition_def snd_lverb snd_verbs
      by (intro write_good) (auto simp: transition_decide_def intro!: e split: if_splits)
  qed (simp add: sub_good_def)
qed

lemma good_after_require:
  assumes "\<And>x. sub_id x = i \<Longrightarrow> sub_status x \<in> A \<Longrightarrow> under (unblocked i) (f x)" "StBlocked \<notin> A" "\<And>x. sub_status x \<notin> A \<Longrightarrow> keeps sub_good (f x)"
  shows "keeps sub_good (lbnd (require_subtask i) f)"
  unfolding keeps_def
proof
  fix s
  show "sub_good s (snd (lbnd (require_subtask i) f s))"
  proof (cases "row_of sub_id i (lg_subtasks s)")
    case None
    then show ?thesis by (simp add: lbnd_def require_subtask_def lsome_def lraise_def good.refl)
  next
    case (Some x)
    then have e: "lbnd (require_subtask i) f s = f x s"
      by (simp add: lbnd_def require_subtask_def lsome_def lret_def)
    from Some have i: "sub_id x = i" by (blast dest: row_of_SomeD)
    show ?thesis
    proof (cases "sub_status x \<in> A")
      case True
      then have "table_ok T_subtasks s \<Longrightarrow> unblocked i s"
        using Some assms(2) by (auto simp: unblocked_def get_subtask_def)
      with assms(1)[OF i True] show ?thesis by (auto simp: e under_def sub_good_def)
    next
      case False
      with assms(3) show ?thesis by (simp add: e keeps_def)
    qed
  qed
qed

lemma good_update_subtask:
  assumes "\<And>r. sub_id (f r) = sub_id r" "\<And>r. sub_depends_on (f r) = sub_depends_on r"
    "\<And>r. sub_status (f r) = sub_status r"
  shows "keeps sub_good (update_subtask i f)"
proof -
  have "board_of (s\<lparr>lg_subtasks := upd_where P f (lg_subtasks s)\<rparr>) = board_of s" for s P
  proof
    fix j show "board_of (s\<lparr>lg_subtasks := upd_where P f (lg_subtasks s)\<rparr>) j = board_of s j"
      by (cases "get_subtask s j") (auto simp: board_of_def get_subtask_upd assms)
  qed
  then show ?thesis
    by (simp add: keeps_def update_subtask_def lmod_def sub_good_def table_ok_def T_subtasks_def map_key_upd_where assms)
qed

lemma under_routed: "sub_id x = i \<Longrightarrow> under (unblocked i) (routed now x ex)"
proof (cases "rx_selected_worker ex = None")
  case True
  assume "sub_id x = i"
  from True show ?thesis unfolding routed_def
    by (intro under_keeps) (auto intro!: good.keeps_rules good_verbs(2) good_parts)
next
  case False
  assume "sub_id x = i"
  with False show ?thesis unfolding routed_def
    by (auto intro!: under_seq stable_unblocked under_queue intro: under_keeps)
qed

lemma seq_guard: "lseq (lguard b e) m = (if b then m else lraise e)"
  by (auto simp: fun_eq_iff lseq_def lbnd_def lguard_def lret_def lraise_def)

lemma good_route_subtask [simp, intro]: "keeps sub_good (route_subtask env now i)"
  unfolding route_subtask_def seq_guard
  by (rule good_after_require[where A = "{StQueued, StNeedsApproval}"];
      auto intro!: under_bnd under_seq stable_unblocked under_routed split: sum.split;
      rule under_keeps; auto intro!: good_update_subtask)

section \<open>Running\<close>

definition worker_good :: "core_env \<Rightarrow> bool" where
  "worker_good env \<longleftrightarrow> (\<forall>wid x rid s. sub_good s (snd (worker_run env wid x rid s)))"

lemma good_governor [simp, intro]: "keeps sub_good (block_subtask_on_governor now x wid authz)"
  unfolding block_subtask_on_governor_def
  by (intro good.keeps_rules good_parts good_cascade good_verbs(1)) (auto simp: ok_edge_def at_work_def)

lemma good_record_result:
  "(\<And>tid. keeps sub_good (rel tid)) \<Longrightarrow> keeps sub_good (record_result rel now x rid res wid)"
  unfolding record_result_def Let_def
  by (intro good.keeps_rules good_parts good_other_verbs good_cascade good_verbs(1); simp add: ok_edge_def at_work_def)

lemma good_call_worker: "worker_good env \<Longrightarrow> keeps sub_good (call_worker env wid x rid)"
  by (auto simp: worker_good_def keeps_def call_worker_def split: prod.split sum.split) (metis snd_conv)+

lemma good_case_sum:
  "(\<And>e. keeps sub_good (f e)) \<Longrightarrow> (\<And>x. keeps sub_good (g x))
    \<Longrightarrow> keeps sub_good (case y of Inl e \<Rightarrow> f e | Inr x \<Rightarrow> g x)"
  by (cases y) simp_all

lemma good_execute:
  "(\<And>tid. keeps sub_good (rel tid)) \<Longrightarrow> worker_good env \<Longrightarrow> keeps sub_good (core_execute rel env now x ex)"
  unfolding core_execute_def Let_def
  by (intro good_case_sum good.keeps_rules good_parts good_prims good_governor good_record_result good_call_worker good_verbs(1);
      simp add: ok_edge_def at_work_def)

lemma good_run_subtask:
  "(\<And>tid. keeps sub_good (rel tid)) \<Longrightarrow> worker_good env \<Longrightarrow> keeps sub_good (run_subtask rel env now i)"
  unfolding run_subtask_def by (intro good.keeps_rules good_execute)

lemma good_start_body:
  "(\<And>tid. keeps sub_good (rel tid)) \<Longrightarrow> worker_good env \<Longrightarrow> keeps sub_good (start_body rel env now i)"
  unfolding start_body_def by (intro good.keeps_rules good_parts good_route_subtask good_run_subtask)

text \<open>A blocked subtask is only queued when all that it depends on has succeeded.\<close>

lemma good_seq_at: "sub_good s (snd (m s)) \<Longrightarrow> keeps sub_good n \<Longrightarrow> sub_good s (snd (lseq m n s))"
proof -
  assume a: "sub_good s (snd (m s))" "keeps sub_good n"
  obtain r s1 where m: "m s = (r, s1)" by (cases "m s")
  with a show ?thesis by (cases r) (auto simp: lseq_def lbnd_def keeps_def intro: good.trans)
qed

lemma unmet_Nil: "unmet_dependencies s deps = [] \<longleftrightarrow> list_all (dep_met s) deps"
  by (simp add: unmet_dependencies_def filter_empty_conv list_all_iff)

lemma release_edge:
  assumes "get_subtask s i = Some x" "list_all (dep_met s) (sub_depends_on x)"
  shows "sub_good s (snd (subtask_transition i StQueued actor tid ex s))"
proof -
  have e: "StQueued \<in> allowed SUBTASK_STATUS_VOCAB cur None \<Longrightarrow> StQueued \<in> SUBTASK_TRANSITIONS cur" for cur
    by (cases cur) (auto simp: allowed_def SUBTASK_STATUS_VOCAB_def SUBTASK_TERMINAL_def edge_get_def split: if_splits)
  show ?thesis unfolding subtask_transition_def snd_lverb snd_verbs
    by (intro write_good) (use assms in \<open>auto simp: transition_decide_def intro!: e split: if_splits\<close>)
qed

lemma good_release_one:
  assumes "\<And>i. keeps sub_good (start i)"
  shows "keeps sub_good (release_one start now tid i)"
  unfolding keeps_def
proof
  fix s
  show "sub_good s (snd (release_one start now tid i s))"
  proof (cases "get_subtask s i")
    case (Some x)
    then have i: "sub_id x = i" by (auto simp: get_subtask_def dest: row_of_SomeD)
    show ?thesis
      using Some i release_edge[OF Some] assms
      by (auto simp: release_one_def lbnd_def[of "require_subtask i"] lbnd_def[of "lget _"] require_subtask_def
          lsome_def lget_def get_subtask_def lret_def unmet_Nil good.refl
          intro!: good_seq_at good.keeps_rules good_prims)
  qed (auto simp: release_one_def lbnd_def require_subtask_def lsome_def get_subtask_def lraise_def good.refl)
qed

lemma good_release_ready: "(\<And>i. keeps sub_good (start i)) \<Longrightarrow> keeps sub_good (release_ready_with start now tid)"
  unfolding release_ready_with_def by (intro good.keeps_rules good_release_one)

lemma good_start_subtask: "worker_good env \<Longrightarrow> keeps sub_good (start_subtask n env now i)"
  by (induction n arbitrary: i) (auto intro!: good_start_body good_release_ready)

section \<open>Submission, approval, cancellation\<close>

definition ready :: "string list \<Rightarrow> string list \<Rightarrow> core_ledger \<Rightarrow> bool" where
  "ready deps unmet s \<longleftrightarrow> table_ok T_subtasks s \<and> (unmet = [] \<longrightarrow> list_all (dep_met s) deps)"

lemma stable_ready: "stable (ready deps unmet)"
  unfolding stable_def ready_def sub_good_def dep_met_board by (blast intro: all_met_steps)

lemma under_insert: "under (ready (sq_depends_on req) unmet) (linsert T_subtasks (new_subtask now i tid req unmet))"
  unfolding under_def
proof (intro allI impI)
  fix s assume r: "ready (sq_depends_on req) unmet s"
  let ?x = "new_subtask now i tid req unmet"
  show "sub_good s (snd (linsert T_subtasks ?x s))"
  proof (cases "i \<in> sub_id ` set (lg_subtasks s)")
    case True
    then show ?thesis by (simp add: linsert_def T_subtasks_def new_subtask_def good.refl)
  next
    case False
    let ?s = "s\<lparr>lg_subtasks := lg_subtasks s @ [?x]\<rparr>"
    have out: "snd (linsert T_subtasks ?x s) = ?s"
      using False by (simp add: linsert_def T_subtasks_def new_subtask_def)
    have none: "get_subtask s i = None" using False by (simp add: get_subtask_def row_of_None_iff)
    have id: "sub_id ?x = i" by (simp add: new_subtask_def)
    have get: "get_subtask ?s j = (if j = i then Some ?x else get_subtask s j)" for j
      using none id by (cases "row_of sub_id j (lg_subtasks s)") (auto simp: get_subtask_def)
    have "board_of ?s = (board_of s)(i \<mapsto> (sub_status ?x, sub_depends_on ?x))"
      by (auto simp: fun_eq_iff board_of_def get)
    moreover have "board_step (board_of s) ((board_of s)(i \<mapsto> (sub_status ?x, sub_depends_on ?x)))"
      using none r by (auto simp: new_subtask_def ready_def dep_met_board board_of_def intro!: board_step.intros)
    moreover have "table_ok T_subtasks ?s"
      using r False by (simp add: ready_def table_ok_def T_subtasks_def new_subtask_def)
    ultimately show ?thesis unfolding out by (simp add: sub_good_def r_into_rtranclp)
  qed
qed

lemma good_get:
  assumes "\<And>s. table_ok T_subtasks s \<Longrightarrow> P (g s) s" "\<And>v. under (P v) (f v)"
  shows "keeps sub_good (lbnd (lget g) f)"
  using assms by (auto simp: keeps_def under_def lbnd_def lget_def sub_good_def)

lemma good_submit_subtask: "worker_good env \<Longrightarrow> keeps sub_good (submit_subtask n env now tid req)"
proof -
  assume w: "worker_good env"
  have v: "keeps sub_good (validate_dependencies n tid deps)" for deps
    by (rule good_frame) (auto simp: validate_dependencies_def split: sum.split)
  show ?thesis
    unfolding submit_subtask_def
    by (intro good.keeps_rules v good_get[where P = "ready (sq_depends_on req)"] under_bnd under_seq stable_ready
          under_insert under_keeps good_prims good_start_subtask w)
       (auto simp: ready_def unmet_Nil)
qed

lemma good_signal_entity: "(\<And>h. keeps sub_good (deliver h)) \<Longrightarrow> keeps sub_good (signal_entity deliver et ei)"
  unfolding signal_entity_def by (intro good.keeps_rules)

lemma good_signal_granted: "worker_good env \<Longrightarrow> keeps sub_good (signal_granted n env now h i)"
  unfolding signal_granted_def
  by (intro good.keeps_rules good_parts good_route_subtask good_run_subtask good_release_ready good_start_subtask)

lemma good_grant_approval [simp, intro]: "keeps sub_good (grant_approval now i who mx)"
  unfolding grant_approval_def seq_guard
  by (rule good_after_require[where A = "{StNeedsApproval}"];
      auto intro!: under_bnd under_seq stable_unblocked under_queue;
      rule under_keeps; auto intro!: good.keeps_rules split: option.split)

lemma good_approve_subtask: "worker_good env \<Longrightarrow> keeps sub_good (approve_subtask n env now i who mx)"
  unfolding approve_subtask_def
  by (intro good.keeps_rules good_grant_approval good_signal_entity good_signal_granted)

lemma good_signal_denied [simp, intro]: "keeps sub_good (signal_denied now i)"
  unfolding signal_denied_def by (intro good_signal_entity good_parts)

lemma good_deny_subtask: "keeps sub_good (deny_subtask now i who why)"
  unfolding deny_subtask_def
  by (intro good.keeps_rules good_other_verbs good_prims good_parts good_signal_denied good_verbs(2)) simp

lemma good_expire_tail: "keeps sub_good (expire_tail now who a)"
  unfolding expire_tail_def
  by (intro good.keeps_rules good_prims good_parts good_signal_denied good_verbs(2)) simp

lemma good_try: "keeps sub_good m \<Longrightarrow> keeps sub_good (ltry m)"
  unfolding keeps_def ltry_def by (auto split: prod.split) (metis snd_conv)

lemma good_expire_approval: "keeps sub_good (expire_approval now aid who)"
  unfolding expire_approval_def
  by (intro good.keeps_rules good_try good_other_verbs good_prims)
     (auto intro!: good.keeps_rules good_expire_tail split: sum.split core_error.split exc.split)

lemma good_cancel_subtask [simp, intro]: "keeps sub_good (cancel_subtask now i)"
  unfolding cancel_subtask_def cancel_live_def
  by (intro good.keeps_rules good_verbs(3) good_other_verbs good_parts)

lemma good_cancel_task: "keeps sub_good (core_cancel_task now tid who)"
  unfolding core_cancel_task_def
  by (intro good.keeps_rules good_try good_other_verbs good_prims)
     (auto intro!: good.keeps_rules split: sum.split core_error.split exc.split)

lemma good_complete_task: "keeps sub_good (core_complete_task audited now tid who force)"
  unfolding core_complete_task_def by (intro good.keeps_rules good_prims) (auto split: option.split intro!: good.keeps_rules)

lemma good_more_prims [simp, intro]:
  "keeps sub_good (insert_claim cl)" "keeps sub_good (release_claims tid m now)" "keeps sub_good (insert_decision d)"
  "keeps sub_good (mark_superseded x y)" "keeps sub_good (linsert T_tasks t)" "keeps sub_good (linsert T_reviews r)"
  "keeps sub_good (insert_inbox_item it)" "keeps sub_good (add_constraint now tid c who)"
  unfolding add_constraint_def touch_def core_update_task_def
  by (rule good_frame, simp add: insert_claim_def release_claims_def insert_decision_def mark_superseded_def linsert_def
        T_tasks_def T_reviews_def insert_inbox_item_def lmod_def Let_def lseq_def lbnd_def require_task_def lsome_def
        lret_def lraise_def split: option.split)+

lemma good_claims:
  "keeps sub_good (core_create_task now title goal prio who cs)" "keeps sub_good (claim_task now tid m role ttl)"
  "keeps sub_good (release_task now tid m)" "keeps sub_good (record_decision now tid req)"
  unfolding core_create_task_def claim_task_def claim_span_def take_task_def check_primary_exclusivity_def validate_ttl_def
    release_task_def record_decision_def check_supersede_allowed_def Let_def
  by (intro good.keeps_rules good_prims good_more_prims good_other_verbs)+

lemma good_reviews:
  "keeps sub_good (request_review now tid who asg crit refs)" "keeps sub_good (claim_review now rid m)"
  "keeps sub_good (complete_review now rid res)"
  unfolding request_review_def claim_review_def complete_review_def check_ref_def check_claimable_def
    check_completable_def result_artifact_def
  by (intro good.keeps_rules good_prims good_more_prims good_other_verbs good_parts)+

section \<open>Runs of the system\<close>

text \<open>
  Steps of the ledger: one rule per operation. While a worker runs, the ledger moves by steps of
  its own, which may run further workers.
\<close>

inductive core_step :: "core_ledger \<Rightarrow> core_ledger \<Rightarrow> bool" where
  create_task: "core_step s (snd (core_create_task now title goal prio who cs s))"
| add_constraint: "core_step s (snd (add_constraint now tid c who s))"
| claim_task: "core_step s (snd (claim_task now tid m role ttl s))"
| release_task: "core_step s (snd (release_task now tid m s))"
| record_decision: "core_step s (snd (record_decision now tid req s))"
| record_attempt: "core_step s (snd (record_attempt now tid a b c d refs s))"
| create_artifact: "core_step s (snd (create_artifact now tid ty sm who s))"
| request_review: "core_step s (snd (request_review now tid who asg crit refs s))"
| claim_review: "core_step s (snd (claim_review now rid m s))"
| complete_review: "core_step s (snd (complete_review now rid res s))"
| route_subtask: "core_step s (snd (route_subtask env now i s))"
| deny_subtask: "core_step s (snd (deny_subtask now i who why s))"
| expire_approval: "core_step s (snd (expire_approval now aid who s))"
| cancel_subtask: "core_step s (snd (cancel_subtask now i s))"
| cancel_task: "core_step s (snd (core_cancel_task now tid who s))"
| complete_task: "core_step s (snd (core_complete_task audited now tid who force s))"
| submit_subtask: "(\<forall>wid x rid z. core_step\<^sup>*\<^sup>* z (snd (worker_run env wid x rid z)))
    \<Longrightarrow> core_step s (snd (submit_subtask n env now tid sreq s))"
| approve_subtask: "(\<forall>wid x rid z. core_step\<^sup>*\<^sup>* z (snd (worker_run env wid x rid z)))
    \<Longrightarrow> core_step s (snd (approve_subtask n env now i who mx s))"
| run_subtask: "(\<forall>wid x rid z. core_step\<^sup>*\<^sup>* z (snd (worker_run env wid x rid z)))
    \<Longrightarrow> core_step s (snd (run_subtask (release_ready_subtasks n env now) env now i s))"

lemma good_run: "(\<lambda>s t. core_step s t \<and> sub_good s t)\<^sup>*\<^sup>* s s' \<Longrightarrow> sub_good s s'"
  by (induction rule: rtranclp_induct) (auto intro: good.refl good.trans)

lemma step_good: "core_step s s' \<Longrightarrow> sub_good s s'"
proof (induction rule: core_step.induct)
  case (submit_subtask env s n now tid sreq)
  then have "worker_good env" unfolding worker_good_def by (blast intro: good_run)
  then show ?case by (blast intro: keepsD good_submit_subtask surjective_pairing)
next
  case (approve_subtask env s n now i who mx)
  then have "worker_good env" unfolding worker_good_def by (blast intro: good_run)
  then show ?case by (blast intro: keepsD good_approve_subtask surjective_pairing)
next
  case (run_subtask env s n now i)
  then have "worker_good env" unfolding worker_good_def by (blast intro: good_run)
  then have "keeps sub_good (run_subtask (release_ready_subtasks n env now) env now i)"
    unfolding release_ready_subtasks_def by (intro good_run_subtask good_release_ready good_start_subtask)
  then show ?case by (blast intro: keepsD surjective_pairing)
qed (blast intro: keepsD surjective_pairing good_claims good_reviews good_parts good_more_prims good_route_subtask
      good_deny_subtask good_expire_approval good_cancel_subtask good_cancel_task good_complete_task)+

lemma steps_good: "core_step\<^sup>*\<^sup>* s s' \<Longrightarrow> sub_good s s'"
  by (induction rule: rtranclp_induct) (auto intro: good.refl good.trans step_good)

section \<open>What follows for the ledger\<close>


text \<open>
  A subtask that has succeeded, failed or been cancelled keeps that status for good: no late
  result of a worker, approval, release, routing or cancellation brings it back, and its row and
  its dependencies stay.
\<close>
theorem terminal_subtask_final:
  assumes "core_step\<^sup>*\<^sup>* s s'" "table_ok T_subtasks s"
    and "get_subtask s i = Some x" "sub_status x \<in> SUBTASK_TERMINAL"
  shows "\<exists>y. get_subtask s' i = Some y \<and> sub_status y = sub_status x \<and> sub_depends_on y = sub_depends_on x"
proof -
  have "board_of s i = Some (sub_status x, sub_depends_on x)" using assms(3) by (simp add: board_of_def)
  with board_entry[of "board_of s" "board_of s'" i] steps_good[OF assms(1)] assms(2,4)
  show ?thesis by (fastforce simp: sub_good_def board_of_def)
qed

text \<open>
  C15. In every ledger reached from one where it holds, such as an empty one: a subtask that is
  queued, running, awaiting approval or done has only dependencies that exist and succeeded.
\<close>
theorem dependency_gate:
  assumes "core_step\<^sup>*\<^sup>* s s'" "table_ok T_subtasks s" "gated (board_of s)"
    and "get_subtask s' i = Some x" "sub_status x \<in> {StQueued, StRunning, StNeedsApproval, StSucceeded}"
    and "d \<in> set (sub_depends_on x)"
  shows "\<exists>y. get_subtask s' d = Some y \<and> sub_status y = StSucceeded"
proof -
  have "gated (board_of s')" using steps_good[OF assms(1)] assms(2,3) by (auto simp: sub_good_def intro: gated_steps)
  moreover have "board_of s' i = Some (sub_status x, sub_depends_on x)" using assms(4) by (simp add: board_of_def)
  ultimately have "all_met (board_of s') (sub_depends_on x)"
    using assms(5) unfolding gated_def at_work_def by blast
  with assms(6) show ?thesis by (auto simp: all_met_def list_all_iff board_of_def)
qed

end
