(* ===== verification/Core_Cascade.thy ===== *)
theory Core_Cascade
  imports Core_Lifecycle
begin

text \<open>
  The failure cascade over dependents (\<open>_cascade_dependency_failure\<close> of \<^verbatim>\<open>core/service.py\<close>): its
  worklist empties within one turn more than there are subtasks, and when it returns, nothing
  that depends on the failed subtask, directly or through others that it failed, still waits.
\<close>

section \<open>The cascade ends\<close>

definition blocked_count :: "core_ledger \<Rightarrow> nat" where
  "blocked_count s = rowcount (\<lambda>r. sub_status r = StBlocked) (lg_subtasks s)"

lemma rowcount_upd_down:
  assumes "rowcount hit rs = 1" "\<And>r. hit r \<Longrightarrow> P r" "\<And>r. hit r \<Longrightarrow> \<not> P (f r)"
  shows "Suc (rowcount P (upd_where hit f rs)) = rowcount P rs"
proof -
  have split: "rowcount P rs = rowcount (\<lambda>r. P r \<and> \<not> hit r) rs + rowcount hit rs" for rs
    by (induction rs) (use assms(2) in \<open>auto simp: rowcount_def\<close>)
  have "rowcount P (upd_where hit f rs) = rowcount (\<lambda>r. P r \<and> \<not> hit r) rs" for rs
    by (induction rs) (use assms(3) in \<open>auto simp: rowcount_def upd_where_def\<close>)
  with split[of rs] assms(1) show ?thesis by simp
qed

definition same_subs :: "core_ledger \<Rightarrow> core_ledger \<Rightarrow> bool" where
  "same_subs s s' \<longleftrightarrow> lg_subtasks s' = lg_subtasks s"

interpretation subs_fixed: ledger_effect same_subs
  by unfold_locales (auto simp: same_subs_def)

lemma same_subs_prims:
  "keeps same_subs (new_idM p)" "keeps same_subs (record_event a b c d)" "keeps same_subs (touch now tid)"
  "keeps same_subs (insert_attempt aa)" "keeps same_subs (require_artifact i)"
  by (auto simp: keeps_def same_subs_def new_idM_def core_new_id_def record_event_def touch_def core_update_task_def lmod_def
        insert_attempt_def require_artifact_def lsome_def lret_def lraise_def split: option.split)

lemma same_subs_attempt: "keeps same_subs (record_attempt now tid a b c d refs)"
  unfolding record_attempt_def by (intro subs_fixed.keeps_rules same_subs_prims)

lemma blocked_count_same: "same_subs s s' \<Longrightarrow> blocked_count s' = blocked_count s"
  by (simp add: same_subs_def blocked_count_def)

definition failed_by :: "string \<Rightarrow> core_ledger \<Rightarrow> core_ledger \<Rightarrow> bool" where
  "failed_by i s s' \<longleftrightarrow> rowcount (\<lambda>r. sub_id r = i \<and> sub_status r = StBlocked) (lg_subtasks s) = 1 \<and>
     (\<exists>cs. lg_subtasks s' = upd_where (\<lambda>r. sub_id r = i \<and> sub_status r = StBlocked)
        (\<lambda>r. fold subtask_col cs (r\<lparr>sub_status := StFailed\<rparr>)) (lg_subtasks s))"

lemma failed_by_count: "failed_by i s s' \<Longrightarrow> Suc (blocked_count s') = blocked_count s"
  unfolding failed_by_def blocked_count_def
  by (elim conjE exE, simp only:, rule rowcount_upd_down) auto

lemma fail_attempt:
  assumes "transition_attempt T_subtasks eid (advance_decide SUBTASK_STATUS_VOCAB eid StFailed {StBlocked} actor tid ex) s
      = (Inr (a, st, over), s')"
  shows "if a then over \<and> failed_by eid s s' else same_subs s s'"
proof -
  have audit: "lg_subtasks (audit_opt r z) = lg_subtasks z" for r z
    by (simp add: audit_opt_def split: option.split)
  show ?thesis
  proof (cases "stored_of T_subtasks s eid = Some StBlocked")
    case True
    with assms show ?thesis
      by (auto simp: transition_attempt_def advance_decide_def is_terminal_def SUBTASK_STATUS_VOCAB_def SUBTASK_TERMINAL_def
          Let_def audit T_subtasks_def same_subs_def failed_by_def split: if_splits)
  next
    case False
    with assms show ?thesis
      by (cases "stored_of T_subtasks s eid")
         (auto simp: transition_attempt_def advance_decide_def Let_def audit same_subs_def)
  qed
qed

lemma fail_loop:
  "transition_row_loop n T_subtasks eid (advance_decide SUBTASK_STATUS_VOCAB eid StFailed {StBlocked} actor tid ex)
     (False, x) s = (Inr (a, y), s') \<Longrightarrow> if a then failed_by eid s s' else same_subs s s'"
proof (induction n arbitrary: x s)
  case (Suc n)
  obtain st seen where x: "x = (st, seen)" by (cases x)
  let ?d = "advance_decide SUBTASK_STATUS_VOCAB eid StFailed {StBlocked} actor tid ex"
  obtain r s1 where t: "transition_attempt T_subtasks eid ?d s = (r, s1)" by (cases "transition_attempt T_subtasks eid ?d s")
  show ?case
  proof (cases r)
    case (Inr v)
    obtain b q over where v: "v = (b, q, over)" by (cases v)
    note f = fail_attempt[OF t[unfolded Inr v]]
    show ?thesis
    proof (cases over)
      case False
      with f have "same_subs s s1" "\<not> b" by (auto split: if_splits)
      then have "failed_by eid s1 s' \<Longrightarrow> failed_by eid s s'" "same_subs s1 s' \<Longrightarrow> same_subs s s'"
        by (auto simp: failed_by_def same_subs_def)
      with Suc.prems Suc.IH[of _ s1] False \<open>\<not> b\<close> show ?thesis by (auto simp: x t Inr v Let_def split: if_splits)
    qed (use Suc.prems f in \<open>auto simp: x t Inr v Let_def split: if_splits\<close>)
  qed (use Suc.prems in \<open>auto simp: x t Let_def\<close>)
qed (auto simp: same_subs_def)

lemma subtask_fail:
  "subtask_advance eid StFailed {StBlocked} actor tid ex s = (Inr res, s')
    \<Longrightarrow> if res = None then same_subs s s' else failed_by eid s s'"
  by (auto simp: subtask_advance_def lverb_def advance_def transition_row_def
      split: prod.splits sum.splits if_splits dest!: fail_loop)

lemma subtask_fail_count:
  "subtask_advance eid StFailed {StBlocked} actor tid ex s = (Inr res, s')
    \<Longrightarrow> blocked_count s' + (if res = None then 0 else 1) = blocked_count s"
  using subtask_fail[of eid actor tid ex s res s'] failed_by_count[of eid s s'] blocked_count_same[of s s']
  by (auto split: if_splits)

lemma cascade_dependent_weight:
  assumes "cascade_dependent now tid p dep (stack, seen) s = (Inr (stack', seen'), s')"
  shows "length stack' + blocked_count s' = length stack + blocked_count s"
proof -
  have req: "require_subtask i s = (Inr x, z) \<Longrightarrow> z = s" for i x z s
    by (auto simp: require_subtask_def)
  note att = keepsD[OF same_subs_attempt, THEN blocked_count_same]
    and ev = keepsD[OF same_subs_prims(2), THEN blocked_count_same]
  show ?thesis using assms
    by (auto simp: cascade_dependent_def lbnd_Inr lseq_Inr dest!: req att ev subtask_fail_count
        split: if_splits option.splits)
qed

lemma cascade_fold_weight:
  "lfold (cascade_dependent now tid p) deps acc s = (Inr acc', s')
    \<Longrightarrow> length (fst acc') + blocked_count s' = length (fst acc) + blocked_count s"
proof (induction deps arbitrary: acc s)
  case (Cons d ds)
  then obtain acc1 s1 where "cascade_dependent now tid p d acc s = (Inr acc1, s1)"
    "lfold (cascade_dependent now tid p) ds acc1 s1 = (Inr acc', s')" by (auto simp: lbnd_Inr)
  with Cons.IH[of acc1 s1] show ?case
    by (cases acc; cases acc1) (auto dest: cascade_dependent_weight)
qed simp

lemma cascade_loop_fuel:
  "length (fst acc) + blocked_count s \<le> n \<Longrightarrow> core_cascade_loop (n + k) now tid acc s = core_cascade_loop n now tid acc s"
proof (induction n arbitrary: acc s)
  case 0
  then show ?case by (cases k) simp_all
next
  case (Suc n)
  show ?case
  proof (cases "fst acc")
    case (Cons p stack)
    let ?f = "lfold (cascade_dependent now tid p) (list_subtasks s tid) (stack, snd acc) s"
    obtain r s1 where f: "?f = (r, s1)" by (cases ?f)
    show ?thesis
    proof (cases r)
      case (Inr acc1)
      with cascade_fold_weight[OF f[unfolded Inr]] Suc.prems Cons
      have "length (fst acc1) + blocked_count s1 \<le> n" by simp
      with Suc.IH f Inr Cons show ?thesis by (simp add: lbnd_def lget_def)
    qed (use f Cons in \<open>simp add: lbnd_def lget_def\<close>)
  qed simp
qed

text \<open>
  Failing a subtask fails its dependents in a loop that ends: within one turn more than there
  are subtasks nothing is left to do, so further turns change neither the ledger nor the result.
\<close>
theorem cascade_settles:
  "core_cascade_loop (Suc (length (lg_subtasks s)) + k) now tid ([failed], []) s
    = cascade_dependency_failure now tid failed s"
proof -
  have "blocked_count s \<le> length (lg_subtasks s)" by (simp add: blocked_count_def rowcount_def)
  then have "length (fst ([failed], [] :: string list)) + blocked_count s \<le> Suc (length (lg_subtasks s))" by simp
  from cascade_loop_fuel[OF this, of k now tid] show ?thesis
    by (simp only: cascade_dependency_failure_def lbnd_def lget_def prod.case sum.case)
qed

section \<open>The cascade reaches all dependents\<close>

definition blocked_in :: "string \<Rightarrow> core_ledger \<Rightarrow> bool" where
  "blocked_in i s \<longleftrightarrow> (\<exists>x \<in> set (lg_subtasks s). sub_id x = i \<and> sub_status x = StBlocked)"

text \<open>The cascade only turns blocked rows into failed ones.\<close>

definition fades :: "core_ledger \<Rightarrow> core_ledger \<Rightarrow> bool" where
  "fades s s' \<longleftrightarrow> list_all2 (\<lambda>x y. sub_id y = sub_id x \<and> sub_depends_on y = sub_depends_on x
     \<and> sub_parent_task_id y = sub_parent_task_id x
     \<and> (sub_status y = sub_status x \<or> sub_status x = StBlocked \<and> sub_status y = StFailed))
     (lg_subtasks s) (lg_subtasks s')"

interpretation fading: ledger_effect fades
proof
  show "fades s s" for s by (simp add: fades_def list_all2_refl)
  show "fades s y" if "fades s x" "fades x y" for s x y
    unfolding fades_def
    by (rule list_all2_trans[rotated, OF that(1)[unfolded fades_def] that(2)[unfolded fades_def]]) auto
qed

lemma fades_same: "same_subs s s' \<Longrightarrow> fades s s'"
  by (simp add: same_subs_def fades_def list_all2_refl)

lemma subtask_col_parent [simp]: "sub_parent_task_id (fold subtask_col cs r) = sub_parent_task_id r"
  by (induction cs arbitrary: r) (auto simp: subtask_col_def split: prod.split)

lemma fades_failed: "failed_by i s s' \<Longrightarrow> fades s s'"
  by (auto simp: failed_by_def fades_def upd_where_def list_all2_conv_all_nth split: if_splits)

lemma fades_blocked:
  assumes "fades s s'" "y \<in> set (lg_subtasks s')" "sub_status y = StBlocked"
  shows "\<exists>x \<in> set (lg_subtasks s). sub_status x = StBlocked \<and> sub_id x = sub_id y
    \<and> sub_depends_on x = sub_depends_on y \<and> sub_parent_task_id x = sub_parent_task_id y"
  using assms unfolding fades_def by (fastforce simp: list_all2_conv_all_nth in_set_conv_nth)

lemma fades_blocked_in: "fades s s' \<Longrightarrow> blocked_in i s' \<Longrightarrow> blocked_in i s"
  unfolding blocked_in_def by (blast dest: fades_blocked)

lemma fades_ok: "fades s s' \<Longrightarrow> table_ok T_subtasks s \<Longrightarrow> table_ok T_subtasks s'"
proof -
  assume f: "fades s s'"
  then have "map sub_id (lg_subtasks s') = map sub_id (lg_subtasks s)"
    unfolding fades_def by (induction rule: list_all2_induct) auto
  then show "table_ok T_subtasks s \<Longrightarrow> table_ok T_subtasks s'" by (simp add: table_ok_def T_subtasks_def)
qed

lemma failed_by_not_blocked: "failed_by i s s' \<Longrightarrow> \<not> blocked_in i s'"
proof
  assume f: "failed_by i s s'" and b: "blocked_in i s'"
  from f obtain cs where rows: "lg_subtasks s' = map (\<lambda>r. if sub_id r = i \<and> sub_status r = StBlocked
      then fold subtask_col cs (r\<lparr>sub_status := StFailed\<rparr>) else r) (lg_subtasks s)"
    by (auto simp: failed_by_def upd_where_def)
  from b obtain y where "y \<in> set (lg_subtasks s')" "sub_id y = i" "sub_status y = StBlocked"
    by (auto simp: blocked_in_def)
  moreover from this(1) obtain r where "y = (if sub_id r = i \<and> sub_status r = StBlocked
      then fold subtask_col cs (r\<lparr>sub_status := StFailed\<rparr>) else r)"
    unfolding rows set_map by blast
  ultimately show False by (cases "sub_id r = i \<and> sub_status r = StBlocked") simp_all
qed

lemma failed_by_others: "failed_by i s s' \<Longrightarrow> j \<noteq> i \<Longrightarrow> blocked_in j s \<Longrightarrow> blocked_in j s'"
  unfolding failed_by_def blocked_in_def upd_where_def by fastforce

lemma same_blocked_in: "same_subs s s' \<Longrightarrow> blocked_in i s' \<longleftrightarrow> blocked_in i s"
  by (simp add: same_subs_def blocked_in_def)

text \<open>A compare-and-set on a row that the same transaction just read as blocked lands.\<close>

lemma fail_lands:
  assumes "table_ok T_subtasks s" "get_subtask s i = Some x" "sub_status x = StBlocked"
    and "subtask_advance i StFailed {StBlocked} actor tid ex s = (Inr res, s')"
  shows "res \<noteq> None"
  using assms(4) assms(2,3)
  by (auto simp: subtask_advance_def lverb_def advance_def subtasks_t.transition_row_eq[OF assms(1)[unfolded table_ok_def]]
      get_stored Let_def advance_decide_def is_terminal_def SUBTASK_STATUS_VOCAB_def SUBTASK_TERMINAL_def
      split: prod.splits sum.splits if_splits)

definition cascade_ok :: "string \<Rightarrow> subtask \<Rightarrow> string list \<times> string list \<Rightarrow> core_ledger \<Rightarrow> string list \<times> string list \<Rightarrow> core_ledger \<Rightarrow> bool" where
  "cascade_ok p dep a s a' s' \<longleftrightarrow> fades s s' \<and> set (fst a) \<subseteq> set (fst a')
     \<and> (\<forall>i. blocked_in i s \<and> \<not> blocked_in i s' \<longrightarrow> i \<in> set (fst a'))
     \<and> ((\<forall>i \<in> set (snd a). \<not> blocked_in i s) \<longrightarrow> (\<forall>i \<in> set (snd a'). \<not> blocked_in i s')
         \<and> (p \<in> set (sub_depends_on dep) \<longrightarrow> \<not> blocked_in (sub_id dep) s'))"

lemma cascade_dependent_ok:
  assumes ok: "table_ok T_subtasks s"
    and run: "cascade_dependent now tid p dep (stack, seen) s = (Inr a', s')"
  shows "cascade_ok p dep (stack, seen) s a' s'"
proof (cases "p \<notin> set (sub_depends_on dep) \<or> sub_id dep \<in> set seen")
  case True
  then show ?thesis using run by (auto simp: cascade_dependent_def cascade_ok_def fading.refl)
next
  case False
  with run obtain x where x: "get_subtask s (sub_id dep) = Some x"
    and r: "(if sub_status x \<noteq> StBlocked then lret (stack, sub_id dep # seen)
          else
            lbnd (subtask_advance (sub_id x) StFailed {StBlocked} ''system'' tid
                   [(''metadata'', CText p), (''updated_at'', CReal now)]) (\<lambda>applied.
              case applied of
                None \<Rightarrow> lret (stack, sub_id dep # seen)
              | Some _ \<Rightarrow>
                  lseq (record_attempt now tid ''system'' ''system''
                          (''dependency '' @ p @ '' failed; cannot run'') ''failed'' [])
                  (lseq (record_event (Some tid) ''subtask_dependency_failed'' ''system'' (sub_id x))
                    (lret (sub_id x # stack, sub_id dep # seen))))) s = (Inr a', s')"
    by (auto simp: cascade_dependent_def lbnd_Inr require_subtask_def get_subtask_def)
  have id: "sub_id x = sub_id dep" using x by (auto simp: get_subtask_def dest: row_of_SomeD)
  have row: "y \<in> set (lg_subtasks s) \<and> sub_id y = sub_id dep \<longleftrightarrow> y = x" for y
    using ok x row_of_Some_iff[of sub_id "lg_subtasks s" "sub_id dep" y]
    by (auto simp: table_ok_def T_subtasks_def get_subtask_def)
  have only: "blocked_in (sub_id dep) s \<longleftrightarrow> sub_status x = StBlocked"
    unfolding blocked_in_def using row[of x] row[THEN iffD1, OF conjI] by blast
  show ?thesis
  proof (cases "sub_status x = StBlocked")
    case True
    with r obtain res s1 where adv: "subtask_advance (sub_id x) StFailed {StBlocked} ''system'' tid
        [(''metadata'', CText p), (''updated_at'', CReal now)] s = (Inr res, s1)" by (auto simp: lbnd_Inr)
    from fail_lands[OF ok _ True adv] x id have "res \<noteq> None" by simp
    with r True adv have a': "a' = (sub_id x # stack, sub_id dep # seen)" and same: "same_subs s1 s'"
      by (auto simp: lbnd_Inr lseq_Inr dest!: keepsD[OF same_subs_attempt] keepsD[OF same_subs_prims(2)]
          simp: same_subs_def split: option.splits)
    from subtask_fail[OF adv] \<open>res \<noteq> None\<close> id have f: "failed_by (sub_id dep) s s1" by simp
    have fd: "fades s s'" using fades_failed[OF f] fades_same[OF same] by (rule fading.trans)
    have nb: "\<not> blocked_in (sub_id dep) s'" using failed_by_not_blocked[OF f] same_blocked_in[OF same] by simp
    have others: "i \<noteq> sub_id dep \<Longrightarrow> blocked_in i s \<Longrightarrow> blocked_in i s'" for i
      using failed_by_others[OF f] same_blocked_in[OF same] by simp
    have before: "blocked_in i s' \<Longrightarrow> blocked_in i s" for i by (rule fades_blocked_in[OF fd])
    show ?thesis unfolding cascade_ok_def a' using fd nb others before id by auto
  qed (use r only in \<open>auto simp: cascade_ok_def fading.refl\<close>)
qed

lemma cascade_fold_ok:
  assumes "table_ok T_subtasks s" "lfold (cascade_dependent now tid p) deps a s = (Inr a', s')"
  shows "fades s s' \<and> set (fst a) \<subseteq> set (fst a') \<and> (\<forall>i. blocked_in i s \<and> \<not> blocked_in i s' \<longrightarrow> i \<in> set (fst a'))
     \<and> ((\<forall>i \<in> set (snd a). \<not> blocked_in i s) \<longrightarrow> (\<forall>i \<in> set (snd a'). \<not> blocked_in i s')
         \<and> (\<forall>dep \<in> set deps. p \<in> set (sub_depends_on dep) \<longrightarrow> \<not> blocked_in (sub_id dep) s'))"
  using assms
proof (induction deps arbitrary: a s)
  case (Cons d ds)
  then obtain a1 s1 where run: "cascade_dependent now tid p d a s = (Inr a1, s1)"
    and rest: "lfold (cascade_dependent now tid p) ds a1 s1 = (Inr a', s')" by (auto simp: lbnd_Inr)
  have one: "cascade_ok p d a s a1 s1"
    using cascade_dependent_ok[OF Cons.prems(1), of now tid p d "fst a" "snd a"] run by simp
  then have fd: "fades s s1" by (simp add: cascade_ok_def)
  note ih = Cons.IH[OF fades_ok[OF fd Cons.prems(1)] rest]
  then have bk: "blocked_in i s' \<Longrightarrow> blocked_in i s1" for i by (blast intro: fades_blocked_in)
  have fd': "fades s s'" using fd ih fading.trans by blast
  show ?case
  proof (intro conjI allI impI)
    fix i assume "blocked_in i s \<and> \<not> blocked_in i s'"
    then show "i \<in> set (fst a')" using one ih unfolding cascade_ok_def by blast
  next
    assume seen: "\<forall>i \<in> set (snd a). \<not> blocked_in i s"
    then have "\<forall>i \<in> set (snd a1). \<not> blocked_in i s1"
      and d: "p \<in> set (sub_depends_on d) \<longrightarrow> \<not> blocked_in (sub_id d) s1"
      using one unfolding cascade_ok_def by blast+
    with ih show "\<forall>i \<in> set (snd a'). \<not> blocked_in i s'"
      "\<forall>dep \<in> set (d # ds). p \<in> set (sub_depends_on dep) \<longrightarrow> \<not> blocked_in (sub_id dep) s'"
      using bk by auto
  qed (use one ih fd' in \<open>auto simp: cascade_ok_def\<close>)
qed (auto simp: fading.refl)

definition waiting_on :: "string \<Rightarrow> string \<Rightarrow> core_ledger \<Rightarrow> bool" where
  "waiting_on tid p s \<longleftrightarrow> (\<exists>x \<in> set (lg_subtasks s). sub_parent_task_id x = tid \<and> p \<in> set (sub_depends_on x)
     \<and> sub_status x = StBlocked)"

lemma fades_waiting: "fades s s' \<Longrightarrow> waiting_on tid p s' \<Longrightarrow> waiting_on tid p s"
  unfolding waiting_on_def by (metis fades_blocked)

lemma turn_clears:
  assumes "fades s s1" "\<forall>dep \<in> set (list_subtasks s tid). p \<in> set (sub_depends_on dep) \<longrightarrow> \<not> blocked_in (sub_id dep) s1"
  shows "\<not> waiting_on tid p s1"
proof
  assume "waiting_on tid p s1"
  then obtain y where y: "y \<in> set (lg_subtasks s1)" "sub_parent_task_id y = tid" "p \<in> set (sub_depends_on y)"
    "sub_status y = StBlocked" by (auto simp: waiting_on_def)
  from fades_blocked[OF assms(1) y(1,4)] obtain x where "x \<in> set (lg_subtasks s)" "sub_id x = sub_id y"
    "sub_depends_on x = sub_depends_on y" "sub_parent_task_id x = tid" using y(2) by metis
  then have "\<not> blocked_in (sub_id y) s1" using assms(2) y(3) by (force simp: list_subtasks_def)
  then show False using y(1,4) unfolding blocked_in_def by blast
qed

lemma cascade_loop_clears:
  assumes "length (fst a) + blocked_count s \<le> n" "table_ok T_subtasks s" "\<forall>i \<in> set (snd a). \<not> blocked_in i s"
    and "core_cascade_loop n now tid a s = (Inr (), s')"
  shows "fades s s' \<and> (\<forall>p. p \<in> set (fst a) \<or> blocked_in p s \<and> \<not> blocked_in p s' \<longrightarrow> \<not> waiting_on tid p s')"
  using assms
proof (induction n arbitrary: a s)
  case (Suc n)
  show ?case
  proof (cases "fst a")
    case Nil
    then show ?thesis using Suc.prems(4) by (auto simp: fading.refl)
  next
    case (Cons p stack)
    with Suc.prems(4) obtain a1 s1 where
      f: "lfold (cascade_dependent now tid p) (list_subtasks s tid) (stack, snd a) s = (Inr a1, s1)"
      and rest: "core_cascade_loop n now tid a1 s1 = (Inr (), s')" by (auto simp: lbnd_Inr)
    note fo = cascade_fold_ok[OF Suc.prems(2) f]
    have fd: "fades s s1" and seen: "\<forall>i \<in> set (snd a1). \<not> blocked_in i s1" using fo Suc.prems(3) by auto
    have w: "length (fst a1) + blocked_count s1 \<le> n" using cascade_fold_weight[OF f] Suc.prems(1) Cons by simp
    note ih = Suc.IH[OF w fades_ok[OF fd Suc.prems(2)] seen rest]
    have "\<not> waiting_on tid p s1" using fo Suc.prems(3) by (intro turn_clears[OF fd]) auto
    then have p: "\<not> waiting_on tid p s'" using fades_waiting ih by blast
    have "q \<in> set (fst a) \<or> blocked_in q s \<and> \<not> blocked_in q s' \<Longrightarrow> \<not> waiting_on tid q s'" for q
      using fo ih p Cons by auto
    then show ?thesis using fading.trans[OF fd] ih by blast
  qed
qed (auto simp: fading.refl)

text \<open>
  C28. When the cascade returns, no subtask of the task is left waiting for the failed one, nor
  for any subtask that the cascade itself failed: failure reaches every transitive dependent.
\<close>
theorem cascade_reaches_dependents:
  assumes "cascade_dependency_failure now tid failed s = (Inr (), s')" "table_ok T_subtasks s"
    and "p = failed \<or> blocked_in p s \<and> \<not> blocked_in p s'"
    and "x \<in> set (lg_subtasks s')" "sub_parent_task_id x = tid" "p \<in> set (sub_depends_on x)"
  shows "sub_status x \<noteq> StBlocked"
proof -
  have "blocked_count s \<le> length (lg_subtasks s)" by (simp add: blocked_count_def rowcount_def)
  then have w: "length (fst ([failed], [] :: string list)) + blocked_count s \<le> Suc (length (lg_subtasks s))" by simp
  have seen: "\<forall>i \<in> set (snd ([failed], [] :: string list)). \<not> blocked_in i s" by simp
  have run: "core_cascade_loop (Suc (length (lg_subtasks s))) now tid ([failed], []) s = (Inr (), s')"
    using assms(1) by (simp only: cascade_dependency_failure_def lbnd_def lget_def prod.case sum.case)
  have "p \<in> set (fst ([failed], [] :: string list)) \<or> blocked_in p s \<and> \<not> blocked_in p s'" using assms(3) by auto
  then have "\<not> waiting_on tid p s'" using cascade_loop_clears[OF w assms(2) seen run] by blast
  then show ?thesis using assms(4-6) by (auto simp: waiting_on_def)
qed

section \<open>A concrete ledger\<close>

definition demo_row :: "string \<Rightarrow> subtask_status \<Rightarrow> string list \<Rightarrow> subtask" where
  "demo_row i st deps = demo_subtask\<lparr>sub_id := i, sub_parent_task_id := ''A'', sub_status := st, sub_depends_on := deps,
     sub_route_reason := Some ((empty_explanation demo_subtask)\<lparr>rx_selected_worker := Some ''echo_1''\<rparr>)\<rparr>"

text \<open>Two chains: one whose head failed, one whose head succeeded and whose next member is queued.\<close>

definition demo_board :: core_ledger where
  "demo_board = demo_ledger\<lparr>lg_subtasks :=
    [demo_row ''a'' StFailed [], demo_row ''b'' StBlocked [''a''], demo_row ''c'' StBlocked [''b''],
     demo_row ''d'' StSucceeded [], demo_row ''e'' StQueued [''d'']]\<rparr>"

text \<open>A worker that reports success, while its subtask is cancelled under it.\<close>

definition late_env :: core_env where
  "late_env = \<lparr>env_registry = demo_registry, env_policy = default_policy, governor = None,
     worker_run = (\<lambda>wid x rid s. (Inr \<lparr>wr_status = ''succeeded'', wr_summary = [], wr_artifacts = [], wr_warnings = [],
       wr_cost_usd = None, wr_error = None\<rparr>, snd (cancel_subtask 7 (sub_id x) s)))\<rparr>"

lemma demo_board_ok: "table_ok T_subtasks demo_board"
  by (simp add: table_ok_def T_subtasks_def demo_board_def demo_row_def)

lemma demo_get:
  "get_subtask demo_board ''e'' = Some (demo_row ''e'' StQueued [''d''])"
  "get_subtask demo_board ''d'' = Some (demo_row ''d'' StSucceeded [])"
  by (simp_all add: get_subtask_def demo_board_def demo_row_def)

definition late_run :: core_ledger where
  "late_run = snd (run_subtask (release_ready_subtasks 5 late_env 9) late_env 9 ''e'' demo_board)"

lemma late_run_step: "core_step\<^sup>*\<^sup>* demo_board late_run"
  unfolding late_run_def
  by (rule r_into_rtranclp, rule core_step.run_subtask)
     (auto simp: late_env_def intro: r_into_rtranclp core_step.cancel_subtask)

lemma late_run_result: "map sub_status (lg_subtasks late_run) = [StFailed, StBlocked, StBlocked, StSucceeded, StCancelled]"
  by code_simp


theorem terminal_subtask_final_witness:
  "\<exists>y. get_subtask late_run ''d'' = Some y \<and> sub_status y = StSucceeded"
  using terminal_subtask_final[OF late_run_step demo_board_ok demo_get(2)]
  by (auto simp: demo_row_def SUBTASK_TERMINAL_def)

lemma demo_gated: "gated (board_of demo_board)"
proof -
  have "board_of demo_board = [''a'' \<mapsto> (StFailed, []), ''b'' \<mapsto> (StBlocked, [''a'']), ''c'' \<mapsto> (StBlocked, [''b'']),
      ''d'' \<mapsto> (StSucceeded, []), ''e'' \<mapsto> (StQueued, [''d''])]"
    by (auto simp: fun_eq_iff board_of_def get_subtask_def demo_board_def demo_row_def)
  then show ?thesis by (auto simp: gated_def at_work_def all_met_def split: if_splits)
qed

text \<open>The same run with a worker that is left in peace.\<close>

definition honest_env :: core_env where
  "honest_env = late_env\<lparr>worker_run := (\<lambda>wid x rid s. (Inr \<lparr>wr_status = ''succeeded'', wr_summary = [], wr_artifacts = [], wr_warnings = [],
     wr_cost_usd = None, wr_error = None\<rparr>, s))\<rparr>"

definition honest_run :: core_ledger where
  "honest_run = snd (run_subtask (release_ready_subtasks 5 honest_env 9) honest_env 9 ''e'' demo_board)"

lemma honest_run_step: "core_step\<^sup>*\<^sup>* demo_board honest_run"
  unfolding honest_run_def
  by (rule r_into_rtranclp, rule core_step.run_subtask) (simp add: honest_env_def)

lemma honest_run_result:
  "map_option (\<lambda>x. (sub_status x, sub_depends_on x)) (get_subtask honest_run ''e'') = Some (StSucceeded, [''d''])"
  by code_simp

theorem dependency_gate_witness:
  "map_option sub_status (get_subtask honest_run ''e'') = Some StSucceeded
   \<and> (\<exists>y. get_subtask honest_run ''d'' = Some y \<and> sub_status y = StSucceeded)"
proof -
  from honest_run_result obtain x where x: "get_subtask honest_run ''e'' = Some x" "sub_status x = StSucceeded"
    "sub_depends_on x = [''d'']" by auto
  with dependency_gate[OF honest_run_step demo_board_ok demo_gated x(1), of "''d''"] show ?thesis by simp
qed

definition cascaded :: core_ledger where
  "cascaded = snd (cascade_dependency_failure 9 ''A'' ''a'' demo_board)"

lemma cascaded_result:
  "fst (cascade_dependency_failure 9 ''A'' ''a'' demo_board) = Inr ()"
  "map (\<lambda>x. (sub_id x, sub_status x, sub_depends_on x, sub_parent_task_id x)) (lg_subtasks cascaded) =
    [(''a'', StFailed, [], ''A''), (''b'', StFailed, [''a''], ''A''), (''c'', StFailed, [''b''], ''A''),
     (''d'', StSucceeded, [], ''A''), (''e'', StQueued, [''d''], ''A'')]"
  by code_simp+

theorem cascade_reaches_dependents_witness:
  "sub_id (lg_subtasks cascaded ! 2) = ''c'' \<and> sub_status (lg_subtasks cascaded ! 2) \<noteq> StBlocked"
proof -
  have len: "length (lg_subtasks cascaded) = 5" using arg_cong[OF cascaded_result(2), of length] by simp
  then have row: "(sub_id (lg_subtasks cascaded ! i), sub_status (lg_subtasks cascaded ! i),
      sub_depends_on (lg_subtasks cascaded ! i), sub_parent_task_id (lg_subtasks cascaded ! i)) =
    [(''a'', StFailed, [], ''A''), (''b'', StFailed, [''a''], ''A''), (''c'', StFailed, [''b''], ''A''),
     (''d'', StSucceeded, [], ''A''), (''e'', StQueued, [''d''], ''A'')] ! i" if "i < 5" for i
    using arg_cong[OF cascaded_result(2), of "\<lambda>xs. xs ! i"] that by simp
  have run: "cascade_dependency_failure 9 ''A'' ''a'' demo_board = (Inr (), cascaded)"
    using cascaded_result(1) unfolding cascaded_def by (metis prod.collapse)
  have "\<not> blocked_in ''b'' cascaded"
  proof
    assume "blocked_in ''b'' cascaded"
    then obtain i where "i < 5" "sub_id (lg_subtasks cascaded ! i) = ''b''" "sub_status (lg_subtasks cascaded ! i) = StBlocked"
      using len by (auto simp: blocked_in_def in_set_conv_nth)
    with row[of i] show False by (auto simp: less_Suc_eq eval_nat_numeral)
  qed
  moreover have "blocked_in ''b'' demo_board" by (simp add: blocked_in_def demo_board_def demo_row_def)
  ultimately have "sub_status (lg_subtasks cascaded ! 2) \<noteq> StBlocked"
    using row[of 2] len by (intro cascade_reaches_dependents[OF run demo_board_ok, of "''b''"]) auto
  then show ?thesis using row[of 2] by simp
qed

end
