(* ===== verification/Core_Governance.thy ===== *)
theory Core_Governance
  imports Core_Subtasks
begin

text \<open>
  The tool governor as a gate of the run (\<open>_execute\<close> of \<^verbatim>\<open>core/service.py\<close>).
\<close>

text \<open>
  C16. The governor is fail-closed. If one is bound, a worker whose declared tools are not all
  explicitly allowed, because the engine denies one or raises, is never called: what the
  execution of the subtask returns and does to the ledger is the same whatever the worker does.
\<close>
theorem governor_fail_closed:
  assumes "governor env = Some ask" "registry_get (env_registry env) (str_or (rx_selected_worker ex) []) = Inr w"
    and "entry \<in> set (wc_tools (wk_capabilities w))"
    and "split_tool_ref entry (wc_harness (wk_capabilities w)) = (sid, name)"
    and "\<And>x. case ask (wk_capabilities w) x sid name of Inl exc \<Rightarrow> True | Inr d \<Rightarrow> \<not> td_allowed d"
  shows "core_execute rel env now x ex s = core_execute rel (env\<lparr>worker_run := other\<rparr>) now x ex s"
proof -
  have "\<not> tu_allowed (consult_tool_governor (governor env) (wk_capabilities w) y)" for y
    using assms(1,3,4) assms(5)[of y]
    by (auto simp: consult_tool_governor_def consult_tools_allowed split: sum.splits intro!: bexI[of _ entry])
  with assms(2) show ?thesis unfolding core_execute_def Let_def by simp
qed

text \<open>An engine that allows reading and raises on anything else, and a worker that declares both.\<close>

definition demo_engine :: tool_engine where
  "demo_engine caps x sid name =
    (if name = ''read'' then Inr \<lparr>td_allowed = True, td_reason = [], td_decision_id = ''d1'', td_default_deny = False,
       td_unavailable = False\<rparr> else Inl ''timeout'')"

definition demo_tool_worker :: worker_adapter where
  "demo_tool_worker = (echo_worker ''echo_1'')\<lparr>wk_capabilities := (echo_capabilities ''echo_1'')\<lparr>wc_tools := [''read'', ''fs:write'']\<rparr>\<rparr>"

definition governed_env :: core_env where
  "governed_env = \<lparr>env_registry = [(''echo_1'', demo_tool_worker)], env_policy = default_policy, governor = Some demo_engine,
     worker_run = (\<lambda>wid x rid s. (Inl ''boom'', s))\<rparr>"

theorem governor_fail_closed_witness:
  "core_execute (\<lambda>_. lret ()) governed_env 9 demo_subtask
     ((empty_explanation demo_subtask)\<lparr>rx_selected_worker := Some ''echo_1''\<rparr>) (demo_ledger\<lparr>lg_subtasks := [demo_subtask]\<rparr>)
   = core_execute (\<lambda>_. lret ()) (governed_env\<lparr>worker_run := (\<lambda>wid x rid s. (Inl ''other'', s\<lparr>lg_subtasks := []\<rparr>))\<rparr>) 9 demo_subtask
     ((empty_explanation demo_subtask)\<lparr>rx_selected_worker := Some ''echo_1''\<rparr>) (demo_ledger\<lparr>lg_subtasks := [demo_subtask]\<rparr>)"
  by (rule governor_fail_closed[where ask = demo_engine and w = demo_tool_worker and entry = "''fs:write''"
        and sid = "''fs''" and name = "''write''"])
     (simp_all add: governed_env_def demo_engine_def demo_tool_worker_def registry_get_def split_tool_ref_def
        py_partition_def str_or_def)

end
