(* ===== verification/Core_Review_Theorems.thy ===== *)
theory Core_Review_Theorems
  imports Core_Reviews
begin

text \<open>
  What completing a review requires and does (\<open>complete_review\<close> of \<^verbatim>\<open>core/service.py\<close>).
\<close>

definition same_reviews :: "core_ledger \<Rightarrow> core_ledger \<Rightarrow> bool" where
  "same_reviews s s' \<longleftrightarrow> lg_reviews s' = lg_reviews s"

interpretation reviews_fixed: ledger_effect same_reviews
  by unfold_locales (auto simp: same_reviews_def)

lemma same_reviews_prims [simp, intro]:
  "keeps same_reviews (new_idM p)" "keeps same_reviews (record_event a b c d)" "keeps same_reviews (touch now tid)"
  "keeps same_reviews (insert_artifact ar)" "keeps same_reviews (require_artifact i)"
  "keeps same_reviews (dismiss_inbox_items r now)" "keeps same_reviews (task_advance eid dst from actor ex)"
  by (auto simp: keeps_def same_reviews_def new_idM_def core_new_id_def record_event_def touch_def core_update_task_def lmod_def
        insert_artifact_def require_artifact_def lsome_def lret_def lraise_def dismiss_inbox_items_def T_tasks_def
        snd_task_verbs intro!: transition_row_frame split: option.split)

lemma same_reviews_artifact: "keeps same_reviews (result_artifact now r req)"
  unfolding result_artifact_def create_artifact_def check_ref_def
  by (intro reviews_fixed.keeps_rules same_reviews_prims)

lemma review_transition_Inr:
  assumes ok: "table_ok T_reviews s" and x: "row_of rv_id i (lg_reviews s) = Some x"
    and run: "review_transition b i dst actor tid ex s = (Inr v, s')"
  shows "(dst = rv_status x \<or> dst \<in> allowed REVIEW_STATUS_VOCAB (rv_status x) None)
    \<and> stored_of T_reviews s' = (stored_of T_reviews s)(i \<mapsto> dst)"
proof -
  have st: "stored_of T_reviews s i = Some (rv_status x)" using x by (simp add: stored_of_def T_reviews_def)
  have "stored_of T_reviews (ta_put T_reviews (upd_where (\<lambda>r. ta_key T_reviews r = i \<and> Some (ta_state T_reviews r) = Some (rv_status x))
      (\<lambda>r. fold (ta_col T_reviews) cs (ta_set T_reviews dst r)) (ta_rows T_reviews s)) s) = (stored_of T_reviews s)(i \<mapsto> dst)" for cs
    using reviews_t.stored_write[OF ok[unfolded table_ok_def] st] .
  moreover have "stored_of T_reviews (audit_opt q z) = stored_of T_reviews z" for q z
    by (simp add: stored_of_def fun_eq_iff)
  ultimately show ?thesis using run st
    by (auto simp: review_transition_def lverb_def transition_def
        reviews_t.transition_row_eq[OF ok[unfolded table_ok_def]] Let_def transition_decide_def
        split: prod.splits sum.splits if_splits)
qed

text \<open>
  A review is completed only by the manager it is assigned to, only after it has been claimed,
  and only as completed or rejected; the review then has that status and
  the completion is on the record. An attempt to complete a review that nobody
  claimed never returns.
\<close>
theorem review_completion_exact:
  assumes "complete_review now i req s = (Inr v, s')" "table_ok T_reviews s" "row_of rv_id i (lg_reviews s) = Some r"
  shows "rv_status r \<in> {RvClaimed, RvInProgress} \<and> rv_assigned_to r = rr_completed_by req
    \<and> rv_status v = rr_status req \<and> rr_status req \<in> {RvCompleted, RvRejected}
    \<and> last (lg_events s') = \<lparr>le_task_id = Some (rv_task_id r), le_kind = ''review_completed'',
        le_actor = rr_completed_by req, le_ref = i\<rparr>"
proof -
  from assms(1,3) obtain aid s1 s2 w s3 s4 where
    c: "rv_status r \<notin> REVIEW_TERMINAL" "rv_assigned_to r = rr_completed_by req" "rr_status req \<in> {RvCompleted, RvRejected}"
    and a: "result_artifact now r req s = (Inr aid, s1)"
    and t: "review_transition False i (rr_status req) (rr_completed_by req) (rv_task_id r)
            [(''result_artifact_id'', CText aid), (''updated_at'', CReal now)] s1 = (Inr w, s2)"
    and d: "dismiss_inbox_items i now s2 = (Inr (), s3)"
    and k: "lwhen (open_reviews s3 (rv_task_id r) = [])
             (lseq (task_advance (rv_task_id r) TsInProgress {TsNeedsReview} ''system''
                [(''updated_at'', CReal now)]) (lret ())) s3 = (Inr (), s4)"
    and e: "lseq (record_event (Some (rv_task_id r)) ''review_completed'' (rr_completed_by req) i)
        (require_review i) s4 = (Inr v, s')"
    by (auto simp: complete_review_def lbnd_Inr lseq_Inr[of "check_completable r _"] lseq_Inr[of "lguard _ _"] lseq_Inr[of "lraise _"]
        lseq_Inr[of "review_transition _ _ _ _ _ _"] lseq_Inr[of "dismiss_inbox_items _ _"] lseq_Inr[of "lwhen _ _"]
        require_review_def check_completable_def split: if_splits)
  have "lg_reviews s1 = lg_reviews s" using keepsD[OF same_reviews_artifact a] by (simp add: same_reviews_def)
  then have tr: "table_ok T_reviews s1" "row_of rv_id i (lg_reviews s1) = Some r"
    using assms(2,3) by (simp_all add: table_ok_def T_reviews_def)
  note t' = review_transition_Inr[OF tr t]
  have "rv_status r \<in> {RvClaimed, RvInProgress}"
    using t' c by (cases "rv_status r") (auto simp: REVIEW_TERMINAL_def allowed_def edge_get_def REVIEW_STATUS_VOCAB_def split: if_splits)
  moreover have kp: "keeps same_reviews (lwhen b (lseq (task_advance a1 a2 a3 a4 a5) (lret ())))" for b a1 a2 a3 a4 a5
    by (intro reviews_fixed.keeps_rules same_reviews_prims)
  have "lg_reviews s4 = lg_reviews s2"
    using keepsD[OF same_reviews_prims(6) d] keepsD[OF kp k] by (simp add: same_reviews_def)
  with e have "row_of rv_id i (lg_reviews s2) = Some v"
    and "s' = s4\<lparr>lg_events := lg_events s4 @ [\<lparr>le_task_id = Some (rv_task_id r), le_kind = ''review_completed'',
        le_actor = rr_completed_by req, le_ref = i\<rparr>]\<rparr>"
    by (auto simp: lseq_Inr record_event_def lmod_def require_review_def)
  moreover from this(1) have "stored_of T_reviews s2 i = Some (rv_status v)" by (simp add: stored_of_def T_reviews_def)
  then have "rv_status v = rr_status req" using t' by simp
  ultimately show ?thesis using c by simp
qed

section \<open>A concrete review\<close>

definition demo_review :: "review_status \<Rightarrow> review_row" where
  "demo_review st = \<lparr>rv_id = ''r1'', rv_task_id = ''A'', rv_requested_by = ''ann'', rv_assigned_to = ''bob'',
     rv_status = st, rv_criteria = [], rv_artifact_refs = [], rv_result_artifact_id = None,
     rv_created_at = 0, rv_updated_at = 0\<rparr>"

definition demo_reviews :: "review_status \<Rightarrow> core_ledger" where
  "demo_reviews st = demo_ledger\<lparr>lg_reviews := [demo_review st]\<rparr>"

definition demo_result :: review_result where
  "demo_result = \<lparr>rr_completed_by = ''bob'', rr_status = RvRejected, rr_summary = [], rr_result_artifact_id = None\<rparr>"

lemma demo_completion:
  "map_sum (\<lambda>e. ()) rv_status (fst (complete_review 9 ''r1'' demo_result (demo_reviews RvClaimed))) = Inr RvRejected"
  by code_simp

theorem review_completion_exact_witness:
  "\<exists>v s'. complete_review 9 ''r1'' demo_result (demo_reviews RvClaimed) = (Inr v, s')
    \<and> rv_status v = RvRejected \<and> le_kind (last (lg_events s')) = ''review_completed''"
proof -
  obtain r s' where c: "complete_review 9 ''r1'' demo_result (demo_reviews RvClaimed) = (r, s')"
    by (cases "complete_review 9 ''r1'' demo_result (demo_reviews RvClaimed)")
  with demo_completion obtain v where v: "r = Inr v" by (cases r) auto
  have ok: "table_ok T_reviews (demo_reviews RvClaimed)"
    "row_of rv_id ''r1'' (lg_reviews (demo_reviews RvClaimed)) = Some (demo_review RvClaimed)"
    by (simp_all add: table_ok_def T_reviews_def demo_reviews_def demo_review_def)
  from review_completion_exact[OF c[unfolded v] ok] c v show ?thesis by (auto simp: demo_result_def)
qed

text \<open>
  Completing a review that nobody claimed is refused only after the result has been stored:
  the review stays open, and the artifact of the refused result stays in the ledger.
\<close>
theorem unclaimed_completion_leaves_artifact:
  "let out = complete_review 9 ''r1'' demo_result (demo_reviews RvOpen) in
   fst out = Inl (Transition (IllegalTransition ''review_status'' ''r1'' ''open'' ''rejected''))
   \<and> map rv_status (lg_reviews (snd out)) = [RvOpen]
   \<and> map ar_type (lg_artifacts (snd out)) = [''review''] \<and> lg_artifacts (demo_reviews RvOpen) = []"
  by code_simp

end
