(* ===== verification/Completion.thy ===== *)
theory Completion
  imports Core_Subtasks "HOL-Library.Sublist"
begin

text \<open>
  The completion audit (\<^verbatim>\<open>core/audit.py\<close>) over the ledger, and what completing a task requires.
  What the audit reads outside the modelled tables is the argument \<open>audit_view\<close>: the managed
  workspace, the changed files of its worktree, the files named in the metadata of an artifact,
  whether the stored handoff is the current one, the mirrored issue and the memory setting. A
  check is its name, its verdict and whether it is required; the sentences are not modelled.
\<close>

section \<open>Checks\<close>

record audit_check =
  ck_name :: string
  ck_passed :: bool
  ck_required :: bool

definition check_required :: "string \<Rightarrow> bool \<Rightarrow> audit_check" where
  "check_required name passed = \<lparr>ck_name = name, ck_passed = passed, ck_required = True\<rparr>"

definition check_advisory :: "string \<Rightarrow> bool \<Rightarrow> audit_check" where
  "check_advisory name passed = \<lparr>ck_name = name, ck_passed = passed, ck_required = False\<rparr>"

definition problems :: "audit_check list \<Rightarrow> string list" where
  "problems checks = map ck_name (filter (\<lambda>c. \<not> ck_passed c \<and> ck_required c) checks)"

definition warnings :: "audit_check list \<Rightarrow> string list" where
  "warnings checks = map ck_name (filter (\<lambda>c. \<not> ck_passed c \<and> \<not> ck_required c) checks)"

definition report_passed :: "audit_check list \<Rightarrow> bool" where
  "report_passed checks \<longleftrightarrow> problems checks = []"

record audit_view =
  av_workspace :: bool
  av_changed :: "string list"
  av_artifact_files :: "string \<Rightarrow> string list"
  av_handoff_fresh :: bool
  av_linear :: "string option option"
  av_memory_enabled :: bool

definition DONE_STATES :: "string list" where
  "DONE_STATES = [''done'', ''completed'', ''closed'', ''shipped'', ''merged'']"

definition OPEN_REVIEW_STATUSES :: "review_status set" where
  "OPEN_REVIEW_STATUSES = {RvOpen, RvClaimed, RvInProgress}"

definition OPEN_SUBTASK_STATUSES :: "subtask_status set" where
  "OPEN_SUBTASK_STATUSES = {StQueued, StRunning, StNeedsApproval, StBlocked}"

text \<open>\<open>str.lower\<close>, the substring test and the last component of a path.\<close>

definition py_lower_char :: "char \<Rightarrow> char" where
  "py_lower_char c =
    (let n = (of_char c :: nat)
     in if 65 \<le> n \<and> n \<le> 90 \<or> 192 \<le> n \<and> n \<le> 222 \<and> n \<noteq> 215 then char_of (n + 32) else c)"

definition py_contains :: "string \<Rightarrow> string \<Rightarrow> bool" where
  "py_contains part whole \<longleftrightarrow> list_ex (starts_with part) (suffixes whole)"

definition path_name :: "string \<Rightarrow> string" where
  "path_name path =
    (case rev (filter (\<lambda>c. c \<noteq> [] \<and> c \<noteq> ''.'') (py_split (CHR ''/'') path)) of [] \<Rightarrow> [] | c # _ \<Rightarrow> c)"

section \<open>The audit of a task\<close>

definition artifacts_of :: "core_ledger \<Rightarrow> string \<Rightarrow> core_artifact_row list" where
  "artifacts_of s task_id = filter (\<lambda>a. ar_task_id a = task_id) (lg_artifacts s)"

definition registered_prose :: "core_ledger \<Rightarrow> string \<Rightarrow> string" where
  "registered_prose s task_id = py_join [CHR 0x0A] (map ar_summary (artifacts_of s task_id))"

definition unregistered :: "audit_view \<Rightarrow> core_ledger \<Rightarrow> string \<Rightarrow> string list" where
  "unregistered v s task_id =
    (let paths = concat (map (\<lambda>a. av_artifact_files v (ar_id a)) (artifacts_of s task_id));
         prose = registered_prose s task_id
     in filter (\<lambda>p. p \<notin> set paths \<and> \<not> py_contains p prose \<and> \<not> py_contains (path_name p) prose) (av_changed v))"

definition latest_session :: "core_ledger \<Rightarrow> string \<Rightarrow> session_row option" where
  "latest_session s task_id =
    (if task_id = [] then None
     else case sort_key (\<lambda>x. - ses_started_at x)
         (filter (\<lambda>x. ses_task_id x = Some task_id \<and> ses_review_id x = None) (lg_sessions s)) of
       [] \<Rightarrow> None | x # _ \<Rightarrow> Some x)"

definition attempt_during :: "core_ledger \<Rightarrow> string \<Rightarrow> session_row option \<Rightarrow> bool" where
  "attempt_during s task_id session =
    (let attempts = filter (\<lambda>a. att_task_id a = task_id) (lg_attempts s)
     in attempts \<noteq> [] \<and> (case session of None \<Rightarrow> True
          | Some x \<Rightarrow> list_ex (\<lambda>a. att_created_at a \<ge> ses_started_at x) attempts))"

definition memory_captured :: "core_ledger \<Rightarrow> string \<Rightarrow> bool" where
  "memory_captured s task_id =
    list_ex (\<lambda>e. le_kind e = ''memory_candidate_captured'')
      (take 200 (rev (filter (\<lambda>e. le_task_id e = Some task_id) (lg_events s))))"

definition linear_conflict :: "audit_view \<Rightarrow> core_task \<Rightarrow> bool" where
  "linear_conflict v task =
    (case av_linear v of Some (Some state) \<Rightarrow>
       map py_lower_char (py_strip state) \<in> set DONE_STATES \<and> ct_status task \<noteq> TsSucceeded
     | _ \<Rightarrow> False)"

definition audit_checks :: "audit_view \<Rightarrow> real \<Rightarrow> core_ledger \<Rightarrow> core_task \<Rightarrow> audit_check list" where
  "audit_checks v now s task =
    (let tid = ct_id task; session = latest_session s tid; arts = artifacts_of s tid; changed = av_changed v
     in [check_required ''task_exists'' True,
         check_required ''workspace_exists'' (av_workspace v),
         check_required ''manager_session_exists'' (session \<noteq> None),
         check_required ''task_claimed'' (ct_current_manager task \<noteq> None \<or> active_claims s tid now \<noteq> []),
         check_required ''attempt_recorded'' (attempt_during s tid session),
         check_required ''changed_files_registered'' (unregistered v s tid = []),
         check_required ''artifacts_registered'' (arts \<noteq> [] \<or> changed = []),
         check_required ''subtasks_resolved''
           (filter (\<lambda>x. sub_status x \<in> OPEN_SUBTASK_STATUSES) (list_subtasks s tid) = []),
         check_required ''reviews_completed''
           (filter (\<lambda>r. rv_task_id r = tid \<and> rv_status r \<in> OPEN_REVIEW_STATUSES) (lg_reviews s) = []),
         check_required ''decisions_recorded''
           (filter (\<lambda>d. de_task_id d = tid) (lg_decisions s) \<noteq> [] \<or> changed = [] \<and> arts = []),
         check_advisory ''handoff_fresh'' (av_handoff_fresh v),
         check_required ''linear_sync_current'' (\<not> linear_conflict v task),
         check_advisory ''memory_captured'' (memory_captured s tid \<or> \<not> av_memory_enabled v),
         check_required ''status_consistent'' (ct_status task \<notin> {TsCancelled, TsFailed})])"

definition task_audited :: "audit_view \<Rightarrow> real \<Rightarrow> string \<Rightarrow> core_ledger \<Rightarrow> bool" where
  "task_audited v now task_id s =
    (case row_of ct_id task_id (lg_tasks s) of None \<Rightarrow> False | Some task \<Rightarrow> report_passed (audit_checks v now s task))"

section \<open>The audit of a review\<close>

definition audit_review :: "audit_view \<Rightarrow> session_row option \<Rightarrow> core_ledger \<Rightarrow> review_row \<Rightarrow> audit_check list" where
  "audit_review v session s review =
    [check_required ''review_exists'' True,
     check_required ''workspace_exists'' (av_workspace v),
     check_required ''manager_session_exists'' (session \<noteq> None),
     check_required ''review_claimed'' (rv_status review \<noteq> RvOpen),
     check_required ''attempt_recorded'' (attempt_during s (rv_task_id review) session),
     check_required ''changed_files_registered'' (unregistered v s (rv_task_id review) = []),
     check_required ''review_is_decidable'' (rv_status review \<in> OPEN_REVIEW_STATUSES),
     check_advisory ''review_has_result'' (case rv_result_artifact_id review of None \<Rightarrow> False | Some a \<Rightarrow> a \<noteq> [])]"

section \<open>What completion requires\<close>

lemma open_subtask_iff: "x \<in> OPEN_SUBTASK_STATUSES \<longleftrightarrow> x \<notin> SUBTASK_TERMINAL"
  by (cases x) (auto simp: OPEN_SUBTASK_STATUSES_def SUBTASK_TERMINAL_def)

lemma open_review_iff: "x \<in> OPEN_REVIEW_STATUSES \<longleftrightarrow> x \<notin> REVIEW_TERMINAL"
  by (cases x) (auto simp: OPEN_REVIEW_STATUSES_def REVIEW_TERMINAL_def)

lemma report_passed_all: "report_passed checks \<longleftrightarrow> list_all (\<lambda>c. ck_required c \<longrightarrow> ck_passed c) checks"
  by (induction checks) (auto simp: report_passed_def problems_def)

lemma audit_passed_iff:
  "report_passed (audit_checks v now s task) \<longleftrightarrow>
    av_workspace v \<and> latest_session s (ct_id task) \<noteq> None
    \<and> (ct_current_manager task \<noteq> None \<or> active_claims s (ct_id task) now \<noteq> [])
    \<and> attempt_during s (ct_id task) (latest_session s (ct_id task)) \<and> unregistered v s (ct_id task) = []
    \<and> (artifacts_of s (ct_id task) \<noteq> [] \<or> av_changed v = [])
    \<and> filter (\<lambda>x. sub_status x \<in> OPEN_SUBTASK_STATUSES) (list_subtasks s (ct_id task)) = []
    \<and> filter (\<lambda>r. rv_task_id r = ct_id task \<and> rv_status r \<in> OPEN_REVIEW_STATUSES) (lg_reviews s) = []
    \<and> (filter (\<lambda>d. de_task_id d = ct_id task) (lg_decisions s) \<noteq> [] \<or> av_changed v = [] \<and> artifacts_of s (ct_id task) = [])
    \<and> \<not> linear_conflict v task \<and> ct_status task \<notin> {TsCancelled, TsFailed}"
  unfolding report_passed_all audit_checks_def Let_def by (simp add: check_required_def check_advisory_def)

lemma task_advance_Some:
  assumes ok: "table_ok T_tasks s" and run: "task_advance i dst from actor ex s = (Inr (Some d), s')"
  shows "\<exists>c. stored_of T_tasks s i = Some c \<and> c \<in> from \<and> stored_of T_tasks s' i = Some dst"
proof (cases "stored_of T_tasks s i")
  case (Some c)
  note w = tasks_t.stored_write[OF ok[unfolded table_ok_def] Some]
  have "stored_of T_tasks (audit_opt q z) = stored_of T_tasks z" for q z
    by (simp add: stored_of_def fun_eq_iff)
  with w Some run show ?thesis
    by (auto simp: task_advance_def lverb_def advance_def tasks_t.transition_row_eq[OF ok[unfolded table_ok_def]]
        Let_def advance_decide_def split: prod.splits sum.splits if_splits)
qed (use run in \<open>auto simp: task_advance_def lverb_def advance_def
    tasks_t.transition_row_eq[OF ok[unfolded table_ok_def]] Let_def advance_decide_def
    split: prod.splits sum.splits if_splits\<close>)

text \<open>
  C27. Completing a task without force succeeds only when nothing is outstanding: every subtask of
  the task has reached a terminal status and every review has its verdict, a manager session ran
  in a managed workspace and left an attempt, somebody claimed the task, every changed file is
  accounted for by an artifact, and durable work has a decision. The task is then succeeded, and
  it came from a status that is not terminal.
\<close>
theorem completion_gate:
  assumes run: "core_complete_task (task_audited v now tid) now tid who False s = (Inr (), s')" and ok: "table_ok T_tasks s"
  shows "(\<forall>x \<in> set (lg_subtasks s). sub_parent_task_id x = tid \<longrightarrow> sub_status x \<in> SUBTASK_TERMINAL)
    \<and> (\<forall>r \<in> set (lg_reviews s). rv_task_id r = tid \<longrightarrow> rv_status r \<in> REVIEW_TERMINAL)
    \<and> av_workspace v \<and> (\<exists>x. latest_session s tid = Some x \<and> attempt_during s tid (Some x))
    \<and> unregistered v s tid = []
    \<and> (av_changed v \<noteq> [] \<longrightarrow> artifacts_of s tid \<noteq> [] \<and> (\<exists>d \<in> set (lg_decisions s). de_task_id d = tid))
    \<and> (\<exists>task. row_of ct_id tid (lg_tasks s) = Some task \<and> ct_status task \<notin> {TsSucceeded, TsFailed, TsCancelled}
        \<and> (ct_current_manager task \<noteq> None \<or> active_claims s tid now \<noteq> []))
    \<and> stored_of T_tasks s' tid = Some TsSucceeded"
proof -
  from run obtain task d s1 where t: "row_of ct_id tid (lg_tasks s) = Some task" "task_audited v now tid s"
    and adv: "task_advance tid TsSucceeded COMPLETABLE_TASK_STATUSES who [(''updated_at'', CReal now)] s = (Inr (Some d), s1)"
    and e: "record_event (Some tid) ''task_completed'' who [] s1 = (Inr (), s')"
    by (auto simp: core_complete_task_def lbnd_Inr lseq_Inr require_task_def split: if_splits option.splits)
  have id: "ct_id task = tid" using t(1) by (blast dest: row_of_SomeD)
  have st: "stored_of T_tasks s tid = Some (ct_status task)" using t(1) by (simp add: stored_of_def T_tasks_def)
  from task_advance_Some[OF ok adv] st have c: "ct_status task \<in> COMPLETABLE_TASK_STATUSES" "stored_of T_tasks s1 tid = Some TsSucceeded"
    by auto
  have "stored_of T_tasks s' tid = Some TsSucceeded"
    using c(2) e by (auto simp: record_event_def lmod_def stored_of_def T_tasks_def)
  moreover have "ct_status task \<notin> {TsSucceeded, TsFailed, TsCancelled}"
    using c(1) by (auto simp: COMPLETABLE_TASK_STATUSES_def)
  moreover have "report_passed (audit_checks v now s task)" using t by (simp add: task_audited_def)
  note a = this[unfolded audit_passed_iff id]
  from a have "\<forall>x \<in> set (lg_subtasks s). sub_parent_task_id x = tid \<longrightarrow> sub_status x \<in> SUBTASK_TERMINAL"
    by (auto simp: list_subtasks_def filter_empty_conv open_subtask_iff)
  moreover from a have "\<forall>r \<in> set (lg_reviews s). rv_task_id r = tid \<longrightarrow> rv_status r \<in> REVIEW_TERMINAL"
    by (auto simp: filter_empty_conv open_review_iff)
  moreover from a have "\<exists>x. latest_session s tid = Some x \<and> attempt_during s tid (Some x)" by auto
  moreover from a have "av_changed v \<noteq> [] \<longrightarrow> artifacts_of s tid \<noteq> [] \<and> (\<exists>d \<in> set (lg_decisions s). de_task_id d = tid)"
    by (auto simp: filter_empty_conv)
  ultimately show ?thesis using a t(1) by blast
qed

section \<open>A concrete completion\<close>

definition demo_session :: session_row where
  "demo_session = \<lparr>ses_id = ''s1'', ses_task_id = Some ''B'', ses_review_id = None, ses_manager_id = ''codex'',
     ses_mode = SmManager, ses_status = SnEnded, ses_started_at = 1, ses_ended_at = Some 5, ses_shell_command = []\<rparr>"

definition demo_view :: audit_view where
  "demo_view = \<lparr>av_workspace = True, av_changed = [''src/auth.py''], av_artifact_files = (\<lambda>_. []),
     av_handoff_fresh = True, av_linear = Some (Some ''In Progress''), av_memory_enabled = True\<rparr>"

definition demo_done :: core_ledger where
  "demo_done = demo_ledger\<lparr>lg_sessions := [demo_session],
     lg_attempts := [\<lparr>att_id = ''t1'', att_task_id = ''B'', att_actor_id = ''codex'', att_actor_type = ''manager'',
       att_summary = [], att_outcome = ''ok'', att_created_at = 2, att_artifact_refs = []\<rparr>],
     lg_artifacts := [\<lparr>ar_id = ''f1'', ar_task_id = ''B'', ar_type = ''patch'', ar_summary = ''rewrote auth.py'',
       ar_created_by = ''codex'', ar_created_at = 2\<rparr>],
     lg_decisions := [demo_locked\<lparr>de_task_id := ''B''\<rparr>]\<rparr>"

lemma demo_done_completes:
  "fst (core_complete_task (task_audited demo_view 9 ''B'') 9 ''B'' ''ann'' False demo_done) = Inr ()"
  by code_simp

theorem completion_gate_witness:
  "unregistered demo_view demo_done ''B'' = []
   \<and> stored_of T_tasks (snd (core_complete_task (task_audited demo_view 9 ''B'') 9 ''B'' ''ann'' False demo_done)) ''B''
     = Some TsSucceeded"
proof -
  have ok: "table_ok T_tasks demo_done"
    by (simp add: table_ok_def T_tasks_def demo_done_def demo_ledger_def demo_task_def)
  obtain s' where "core_complete_task (task_audited demo_view 9 ''B'') 9 ''B'' ''ann'' False demo_done = (Inr (), s')"
    using demo_done_completes by (metis prod.collapse)
  from completion_gate[OF this ok] this show ?thesis by simp
qed

end
