(* ===== verification/Execution_Records.thy ===== *)
theory Execution_Records
  imports Core_Models
begin

text \<open>
  Execution records (\<^verbatim>\<open>core/execution_records.py\<close>) and their hash-chained ledger
  (\<^verbatim>\<open>core/execution_record_store.py\<close> over the table of \<^verbatim>\<open>core/storage.py\<close>). The canonical JSON encoding
  is modelled down to the bytes; the hash function is the argument \<open>sha\<close>. What is shown: a record
  of success needs a redeemed grant, every ledger that the writer produced verifies, and two
  ledgers that verify and end in the same hash are the same.
\<close>

section \<open>Canonical JSON\<close>

datatype json = JNull | JBool bool | JStr string | JObj "(string \<times> json) list"

definition hex_digit :: "nat \<Rightarrow> char" where
  "hex_digit n = (if n < 10 then char_of (48 + n) else char_of (87 + n))"

definition json_escape :: "char \<Rightarrow> string" where
  "json_escape c =
    (let n = (of_char c :: nat)
     in if n = 34 then [CHR 0x5C, CHR 0x22]
        else if n = 92 then [CHR 0x5C, CHR 0x5C]
        else if n = 10 then [CHR 0x5C, CHR ''n'']
        else if n = 13 then [CHR 0x5C, CHR ''r'']
        else if n = 9 then [CHR 0x5C, CHR ''t'']
        else if n = 12 then [CHR 0x5C, CHR ''f'']
        else if n = 8 then [CHR 0x5C, CHR ''b'']
        else if n < 32 then [CHR 0x5C, CHR ''u'', CHR ''0'', CHR ''0'', hex_digit (n div 16), hex_digit (n mod 16)]
        else [c])"

definition json_string :: "string \<Rightarrow> string" where
  "json_string s = CHR 0x22 # concat (map json_escape s) @ [CHR 0x22]"

fun joined :: "string list \<Rightarrow> string" where
  "joined [] = []"
| "joined [x] = x"
| "joined (x # y # xs) = x @ CHR '','' # joined (y # xs)"

fun json_dumps :: "json \<Rightarrow> string" where
  "json_dumps JNull = ''null''"
| "json_dumps (JBool b) = (if b then ''true'' else ''false'')"
| "json_dumps (JStr s) = json_string s"
| "json_dumps (JObj kvs) =
    CHR ''{'' # joined (map (\<lambda>(k, v). json_string k @ CHR '':'' # json_dumps v) kvs) @ [CHR ''}'']"

text \<open>\<open>sort_keys\<close>: the members of every object by the code points of their keys.\<close>

fun sort_keys :: "json \<Rightarrow> json" where
  "sort_keys (JObj kvs) = JObj (sort_key fst (map (\<lambda>(k, v). (k, sort_keys v)) kvs))"
| "sort_keys j = j"

definition utf8_char :: "char \<Rightarrow> string" where
  "utf8_char c =
    (let n = (of_char c :: nat)
     in if n < 128 then [c] else [char_of (192 + n div 64), char_of (128 + n mod 64)])"

definition canonical_json :: "json \<Rightarrow> string" where
  "canonical_json j = concat (map utf8_char (json_dumps (sort_keys j)))"

section \<open>Self-delimiting codes\<close>

text \<open>A code whose words can be told apart and cut off, whatever follows.\<close>

locale prefix_code =
  fixes code :: "'a \<Rightarrow> string"
  assumes cut: "code x @ r = code y @ r' \<Longrightarrow> x = y \<and> r = r'"
begin

lemma code_inj: "code x = code y \<Longrightarrow> x = y"
  using cut[of x "[]" y "[]"] by simp

lemma code_nonempty: "\<exists>x y. (x :: 'a) \<noteq> y \<Longrightarrow> code x \<noteq> []"
  by (metis append_Nil append_self_conv2 cut)

text \<open>Words written one after the other, up to a character that starts no word.\<close>

lemma words_cut:
  assumes "\<And>x. code x \<noteq> [] \<and> hd (code x) \<noteq> stop"
  shows "concat (map code xs) @ stop # r = concat (map code ys) @ stop # r' \<Longrightarrow> xs = ys \<and> r = r'"
proof (induction xs arbitrary: ys)
  case Nil
  then show ?case
  proof (cases ys)
    case (Cons y ys')
    with Nil assms[of y] show ?thesis by (cases "code y") auto
  qed simp
next
  case (Cons x xs)
  show ?case
  proof (cases ys)
    case Nil
    with Cons.prems assms[of x] show ?thesis by (cases "code x") auto
  next
    case (Cons y ys')
    with Cons.prems have "code x @ (concat (map code xs) @ stop # r) = code y @ (concat (map code ys') @ stop # r')" by simp
    from cut[OF this] Cons.IH[of ys'] show ?thesis using Cons by simp
  qed
qed

lemma words_inj: "(\<And>x. code x \<noteq> []) \<Longrightarrow> concat (map code xs) = concat (map code ys) \<Longrightarrow> xs = ys"
proof (induction xs arbitrary: ys)
  case Nil
  then show ?case by (cases ys) auto
next
  case (Cons x xs)
  then obtain y ys' where ys: "ys = y # ys'" by (cases ys) auto
  with Cons.prems have "code x @ concat (map code xs) = code y @ concat (map code ys')" by simp
  from cut[OF this] Cons.IH[of ys'] Cons.prems(1) ys show ?case by simp
qed

end

interpretation utf8: prefix_code utf8_char
proof
  fix c d r r' assume e: "utf8_char c @ r = utf8_char d @ r'"
  have lt: "(of_char x :: nat) < 256" for x :: char by (rule nat_of_char_less_256)
  have hi: "of_char (char_of (192 + (of_char x :: nat) div 64)) = 192 + (of_char x :: nat) div 64" for x :: char
  proof -
    have "192 + (of_char x :: nat) div 64 < 256" using lt[of x] by linarith
    then show ?thesis by simp
  qed
  have lo: "of_char (char_of (128 + (of_char x :: nat) mod 64)) = (128 + (of_char x :: nat) mod 64 :: nat)" for x :: char
    by simp
  show "c = d \<and> r = r'"
  proof (cases "(of_char c :: nat) < 128")
    case True
    then show ?thesis using e hi[of d] by (auto simp: utf8_char_def Let_def split: if_splits)
  next
    case False
    show ?thesis
    proof (cases "(of_char d :: nat) < 128")
      case True
      then show ?thesis using e False hi[of c] by (auto simp: utf8_char_def Let_def)
    next
      case d: False
      with e False have "char_of (192 + (of_char c :: nat) div 64) = (char_of (192 + (of_char d :: nat) div 64) :: char)"
        "char_of (128 + (of_char c :: nat) mod 64) = (char_of (128 + (of_char d :: nat) mod 64) :: char)" "r = r'"
        by (auto simp: utf8_char_def Let_def)
      then have "192 + (of_char c :: nat) div 64 = 192 + (of_char d :: nat) div 64"
        "128 + (of_char c :: nat) mod 64 = 128 + (of_char d :: nat) mod 64"
        using hi lo by metis+
      then have "(of_char c :: nat) = of_char d" by (metis add_left_cancel div_mult_mod_eq)
      then show ?thesis using \<open>r = r'\<close> by simp
    qed
  qed
qed

section \<open>The encoding is injective\<close>

lemma hex_digit_inj: "hex_digit m = hex_digit n \<Longrightarrow> m < 16 \<Longrightarrow> n < 16 \<Longrightarrow> m = n"
proof -
  assume e: "hex_digit m = hex_digit n" and lt: "m < 16" "n < 16"
  have v: "of_char (hex_digit k) = (if k < 10 then 48 + k else 87 + k)" if "k < 16" for k
    using that by (simp add: hex_digit_def)
  have "(if m < 10 then 48 + m else 87 + m) = (if n < 10 then 48 + n else 87 + n)"
    using v[OF lt(1)] v[OF lt(2)] e by metis
  then show ?thesis by (simp split: if_splits)
qed

text \<open>An escape is the character itself, or a backslash, a letter of its own and, after \<open>u\<close>, the code.\<close>

definition escape_letter :: "char \<Rightarrow> char option" where
  "escape_letter c =
    map_of [(34, CHR 0x22), (92, CHR 0x5C), (10, CHR ''n''), (13, CHR ''r''), (9, CHR ''t''), (12, CHR ''f''),
      (8, CHR ''b'')] (of_char c :: nat)"

lemma escape_letter_inj:
  assumes "escape_letter c = Some x" "escape_letter d = Some x"
  shows "c = d"
proof -
  have "map_of [(34 :: nat, CHR 0x22), (92, CHR 0x5C), (10, CHR ''n''), (13, CHR ''r''), (9, CHR ''t''), (12, CHR ''f''),
      (8, CHR ''b'')] k = Some x \<Longrightarrow> map_of [(34, CHR 0x22), (92, CHR 0x5C), (10, CHR ''n''), (13, CHR ''r''),
      (9, CHR ''t''), (12, CHR ''f''), (8, CHR ''b'')] l = Some x \<Longrightarrow> k = l" for k l
    by (auto split: if_splits)
  from this[OF assms[unfolded escape_letter_def]] show ?thesis by simp
qed

lemma json_escape_cases:
  "json_escape c =
    (case escape_letter c of
       Some x \<Rightarrow> [CHR 0x5C, x]
     | None \<Rightarrow> if (of_char c :: nat) < 32
         then [CHR 0x5C, CHR ''u'', CHR ''0'', CHR ''0'', hex_digit (of_char c div 16), hex_digit (of_char c mod 16)]
         else [c])"
  by (simp add: json_escape_def escape_letter_def Let_def)

lemma escape_letter_not_u: "escape_letter c \<noteq> Some CHR ''u''"
  by (simp add: escape_letter_def)

lemma escape_plain: "escape_letter c = None \<Longrightarrow> \<not> (of_char c :: nat) < 32 \<Longrightarrow> c \<noteq> CHR 0x5C \<and> c \<noteq> CHR 0x22"
  by (auto simp: escape_letter_def split: if_splits)

interpretation escapes: prefix_code json_escape
proof
  fix c d r r' assume e: "json_escape c @ r = json_escape d @ r'"
  have div16: "(of_char x :: nat) < 32 \<Longrightarrow> (of_char x :: nat) div 16 < 16" for x :: char by simp
  show "c = d \<and> r = r'"
  proof (cases "escape_letter c")
    case (Some x)
    then show ?thesis
      using e escape_letter_not_u[of c] escape_plain[of d] escape_letter_inj[of c x d]
      by (auto simp: json_escape_cases split: option.splits if_splits)
  next
    case None
    show ?thesis
    proof (cases "(of_char c :: nat) < 32")
      case True
      with None e escape_letter_not_u[of d] escape_plain[of d] have "escape_letter d = None" "(of_char d :: nat) < 32"
        by (auto simp: json_escape_cases split: option.splits if_splits)
      with None True e have "hex_digit (of_char c div 16) = hex_digit (of_char d div 16)"
        "hex_digit (of_char c mod 16) = hex_digit (of_char d mod 16)" "r = r'"
        by (auto simp: json_escape_cases)
      with div16[OF True] div16[OF \<open>(of_char d :: nat) < 32\<close>]
      have "(of_char c :: nat) div 16 = of_char d div 16" "(of_char c :: nat) mod 16 = of_char d mod 16"
        by (auto dest: hex_digit_inj)
      then have "(of_char c :: nat) = of_char d" by (metis div_mult_mod_eq)
      then show ?thesis using \<open>r = r'\<close> by simp
    next
      case False
      then show ?thesis using None e escape_plain[OF None False]
        by (auto simp: json_escape_cases split: option.splits if_splits)
    qed
  qed
qed

interpretation strings: prefix_code json_string
proof
  fix s t r r' assume "json_string s @ r = json_string t @ r'"
  then have e: "concat (map json_escape s) @ CHR 0x22 # r = concat (map json_escape t) @ CHR 0x22 # r'"
    by (simp add: json_string_def)
  have "json_escape c \<noteq> [] \<and> hd (json_escape c) \<noteq> CHR 0x22" for c
    using escape_plain[of c] by (auto simp: json_escape_cases split: option.split)
  from escapes.words_cut[OF this e] show "s = t \<and> r = r'" .
qed

lemma joined_Cons: "joined (x # xs) = x @ concat (map ((#) CHR '','') xs)"
  by (induction xs arbitrary: x) auto

definition member_text :: "string \<times> json \<Rightarrow> string" where
  "member_text kv = json_string (fst kv) @ CHR '':'' # json_dumps (snd kv)"

lemma dumps_obj: "json_dumps (JObj kvs) = CHR ''{'' # joined (map member_text kvs) @ [CHR ''}'']"
proof -
  have "(\<lambda>(k, v). json_string k @ CHR '':'' # json_dumps v) = member_text" by (auto simp: fun_eq_iff member_text_def)
  then show ?thesis by simp
qed

definition cuts :: "json \<Rightarrow> bool" where
  "cuts v \<longleftrightarrow> (\<forall>w r r'. json_dumps v @ r = json_dumps w @ r' \<longrightarrow> v = w \<and> r = r')"

lemma member_cut:
  "cuts (snd kv) \<Longrightarrow> member_text kv @ r = member_text lw @ r' \<Longrightarrow> kv = lw \<and> r = r'"
proof -
  assume c: "cuts (snd kv)" and e: "member_text kv @ r = member_text lw @ r'"
  then have "json_string (fst kv) @ (CHR '':'' # json_dumps (snd kv) @ r) = json_string (fst lw) @ (CHR '':'' # json_dumps (snd lw) @ r')"
    by (simp add: member_text_def)
  from strings.cut[OF this] c show ?thesis unfolding cuts_def by (auto simp: prod_eq_iff)
qed

lemma members_tail_cut:
  "\<forall>kv \<in> set kvs. cuts (snd kv) \<Longrightarrow>
    concat (map ((#) CHR '','') (map member_text kvs)) @ CHR ''}'' # r
      = concat (map ((#) CHR '','') (map member_text lws)) @ CHR ''}'' # r' \<Longrightarrow> kvs = lws \<and> r = r'"
proof (induction kvs arbitrary: lws)
  case Nil
  then show ?case by (cases lws) auto
next
  case (Cons kv kvs)
  then obtain lw lws' where l: "lws = lw # lws'" by (cases lws) auto
  with Cons.prems have "member_text kv @ (concat (map ((#) CHR '','') (map member_text kvs)) @ CHR ''}'' # r)
      = member_text lw @ (concat (map ((#) CHR '','') (map member_text lws')) @ CHR ''}'' # r')" by simp
  with member_cut Cons.prems(1) have "kv = lw"
    "concat (map ((#) CHR '','') (map member_text kvs)) @ CHR ''}'' # r
      = concat (map ((#) CHR '','') (map member_text lws')) @ CHR ''}'' # r'" by (meson list.set_intros(1))+
  with Cons.IH[of lws'] Cons.prems(1) l show ?case by simp
qed

lemma members_start: "\<exists>y. joined (map member_text (kv # kvs)) @ x = CHR 0x22 # y"
  by (simp add: joined_Cons member_text_def json_string_def)

lemma members_cut:
  assumes "\<forall>kv \<in> set kvs. cuts (snd kv)"
    and e: "joined (map member_text kvs) @ CHR ''}'' # r = joined (map member_text lws) @ CHR ''}'' # r'"
  shows "kvs = lws \<and> r = r'"
proof (cases kvs)
  case Nil
  show ?thesis
  proof (cases lws)
    case (Cons lw lws')
    then show ?thesis using e Nil members_start[of lw lws' "CHR ''}'' # r'"] by auto
  qed (use e Nil in simp)
next
  case (Cons kv kvs')
  with e obtain lw lws' where l: "lws = lw # lws'"
    using members_start[of kv kvs' "CHR ''}'' # r"] by (cases lws) auto
  with Cons e have "member_text kv @ (concat (map ((#) CHR '','') (map member_text kvs')) @ CHR ''}'' # r)
      = member_text lw @ (concat (map ((#) CHR '','') (map member_text lws')) @ CHR ''}'' # r')"
    by (simp add: joined_Cons del: map_map)
  with member_cut assms(1) Cons have "kv = lw"
    "concat (map ((#) CHR '','') (map member_text kvs')) @ CHR ''}'' # r
      = concat (map ((#) CHR '','') (map member_text lws')) @ CHR ''}'' # r'" by (meson list.set_intros(1))+
  with members_tail_cut[of kvs' r lws' r'] assms(1) Cons l show ?thesis by simp
qed

lemma dumps_cuts: "cuts v"
proof (induction v)
  case (JObj kvs)
  then have k: "\<forall>kv \<in> set kvs. cuts (snd kv)" by fastforce
  show ?case unfolding cuts_def
  proof (intro allI impI)
    fix w r r' assume e: "json_dumps (JObj kvs) @ r = json_dumps w @ r'"
    then obtain lws where w: "w = JObj lws" by (cases w) (auto simp: json_string_def split: if_splits)
    with e have "joined (map member_text kvs) @ CHR ''}'' # r = joined (map member_text lws) @ CHR ''}'' # r'"
      by (simp only: dumps_obj) simp
    from members_cut[OF k this] w show "JObj kvs = w \<and> r = r'" by simp
  qed
next
  case (JStr s)
  show ?case unfolding cuts_def
  proof (intro allI impI)
    fix w r r' assume e: "json_dumps (JStr s) @ r = json_dumps w @ r'"
    then obtain t where "w = JStr t" by (cases w) (auto simp: json_string_def split: if_splits)
    with e strings.cut[of s r t r'] show "JStr s = w \<and> r = r'" by simp
  qed
next
  case JNull
  have "json_dumps JNull @ r = json_dumps w @ r' \<Longrightarrow> JNull = w \<and> r = r'" for w r r'
    by (cases w) (auto simp: json_string_def split: if_splits)
  then show ?case unfolding cuts_def by blast
next
  case (JBool b)
  have "json_dumps (JBool b) @ r = json_dumps w @ r' \<Longrightarrow> JBool b = w \<and> r = r'" for w r r'
    by (cases b; cases w; simp add: json_string_def split: if_splits)
  then show ?case unfolding cuts_def by blast
qed

interpretation texts: prefix_code json_dumps
proof
  show "json_dumps x @ r = json_dumps y @ r' \<Longrightarrow> x = y \<and> r = r'" for x y r r'
    using dumps_cuts[of x] unfolding cuts_def by blast
qed

lemma canonical_json_inj: "canonical_json j = canonical_json k \<Longrightarrow> sort_keys j = sort_keys k"
proof -
  have ne: "utf8_char c \<noteq> []" for c by (simp add: utf8_char_def Let_def)
  assume "canonical_json j = canonical_json k"
  then have "json_dumps (sort_keys j) = json_dumps (sort_keys k)"
    unfolding canonical_json_def by (rule utf8.words_inj[OF ne])
  then show ?thesis by (rule texts.code_inj)
qed

section \<open>Records\<close>

record provider_enforcement_ref =
  pe_provider_id :: string
  pe_grant_id :: string
  pe_redemption_outcome :: string
  pe_verified :: bool
  pe_args_hash :: string
  pe_enforced_at :: string

record executor_identity =
  xi_executor_id :: string
  xi_executor_kind :: string
  xi_harness :: string

record tool_identity =
  ti_source_id :: string
  ti_name :: string

record execution_record =
  er_id :: string
  er_format_version :: string
  er_work_request_id :: string
  er_task_id :: string
  er_subtask_id :: "string option"
  er_decision_record_id :: string
  er_grant_id :: string
  er_correlation_id :: string
  er_provider_enforcement :: provider_enforcement_ref
  er_executor :: executor_identity
  er_tool :: tool_identity
  er_args_hash :: string
  er_outcome :: string
  er_refusal_reason :: "string option"
  er_started_at :: string
  er_finished_at :: string
  er_prev_hash :: "string option"
  er_record_hash :: string

definition EXECUTION_RECORD_FORMAT_VERSION :: string where
  "EXECUTION_RECORD_FORMAT_VERSION = ''1''"

definition OUTCOMES :: "string list" where
  "OUTCOMES = [''succeeded'', ''failed'', ''refused'']"

definition json_opt :: "string option \<Rightarrow> json" where
  "json_opt x = (case x of None \<Rightarrow> JNull | Some s \<Rightarrow> JStr s)"

definition enforcement_json :: "provider_enforcement_ref \<Rightarrow> json" where
  "enforcement_json p = JObj
    [(''provider_id'', JStr (pe_provider_id p)), (''grant_id'', JStr (pe_grant_id p)),
     (''redemption_outcome'', JStr (pe_redemption_outcome p)), (''verified'', JBool (pe_verified p)),
     (''args_hash'', JStr (pe_args_hash p)), (''enforced_at'', JStr (pe_enforced_at p))]"

definition executor_json :: "executor_identity \<Rightarrow> json" where
  "executor_json x = JObj
    [(''executor_id'', JStr (xi_executor_id x)), (''executor_kind'', JStr (xi_executor_kind x)),
     (''harness'', JStr (xi_harness x))]"

definition tool_json :: "tool_identity \<Rightarrow> json" where
  "tool_json t = JObj [(''source_id'', JStr (ti_source_id t)), (''name'', JStr (ti_name t))]"

text \<open>Every field but the seal itself, an absent one as \<open>null\<close>.\<close>

definition hashable_mapping :: "execution_record \<Rightarrow> json" where
  "hashable_mapping r = JObj
    [(''execution_record_id'', JStr (er_id r)), (''record_format_version'', JStr (er_format_version r)),
     (''work_request_id'', JStr (er_work_request_id r)), (''task_id'', JStr (er_task_id r)),
     (''subtask_id'', json_opt (er_subtask_id r)), (''decision_record_id'', JStr (er_decision_record_id r)),
     (''grant_id'', JStr (er_grant_id r)), (''correlation_id'', JStr (er_correlation_id r)),
     (''provider_enforcement'', enforcement_json (er_provider_enforcement r)),
     (''executor'', executor_json (er_executor r)), (''tool'', tool_json (er_tool r)),
     (''args_hash'', JStr (er_args_hash r)), (''outcome'', JStr (er_outcome r)),
     (''refusal_reason'', json_opt (er_refusal_reason r)), (''started_at'', JStr (er_started_at r)),
     (''finished_at'', JStr (er_finished_at r)), (''prev_hash'', json_opt (er_prev_hash r))]"

definition seal_hash :: "(string \<Rightarrow> string) \<Rightarrow> execution_record \<Rightarrow> string" where
  "seal_hash sha r = sha (canonical_json (hashable_mapping r))"

definition seal_execution_record :: "(string \<Rightarrow> string) \<Rightarrow> execution_record \<Rightarrow> execution_record" where
  "seal_execution_record sha r = r\<lparr>er_record_hash := seal_hash sha r\<rparr>"

definition verify_execution_record :: "(string \<Rightarrow> string) \<Rightarrow> execution_record \<Rightarrow> bool" where
  "verify_execution_record sha r \<longleftrightarrow> er_record_hash r \<noteq> [] \<and> er_record_hash r = seal_hash sha r"

text \<open>The fail-closed constructor: \<open>r\<close> carries the arguments, the version and the seal are its own.\<close>

definition build_execution_record :: "(string \<Rightarrow> string) \<Rightarrow> execution_record \<Rightarrow> core_error + execution_record" where
  "build_execution_record sha r =
    (let p = er_provider_enforcement r
     in if er_outcome r \<notin> set OUTCOMES then Inl Validation
        else if er_outcome r = ''succeeded'' \<and> \<not> (pe_verified p \<and> pe_redemption_outcome p = ''redeemed'')
        then Inl Validation
        else Inr (seal_execution_record sha (r\<lparr>er_format_version := EXECUTION_RECORD_FORMAT_VERSION\<rparr>)))"

definition with_prev_hash :: "(string \<Rightarrow> string) \<Rightarrow> execution_record \<Rightarrow> string option \<Rightarrow> execution_record" where
  "with_prev_hash sha r prev = seal_execution_record sha (r\<lparr>er_prev_hash := prev\<rparr>)"

section \<open>The ledger\<close>

record execution_record_row =
  xw_id :: string
  xw_record :: execution_record
  xw_record_hash :: string
  xw_created_at :: real

definition latest_execution_record_hash :: "execution_record_row list \<Rightarrow> string option" where
  "latest_execution_record_hash rows = (case rev rows of [] \<Rightarrow> None | w # _ \<Rightarrow> Some (xw_record_hash w))"

definition insert_execution_record ::
  "execution_record \<Rightarrow> real \<Rightarrow> execution_record_row list \<Rightarrow> core_error + execution_record_row list" where
  "insert_execution_record r created_at rows =
    (if er_id r \<in> xw_id ` set rows then Inl Integrity
     else Inr (rows @ [\<lparr>xw_id = er_id r, xw_record = r, xw_record_hash = er_record_hash r, xw_created_at = created_at\<rparr>]))"

text \<open>\<open>known\<close> says which tasks exist; a raise leaves the table as it was.\<close>

definition record_execution ::
  "(string \<Rightarrow> string) \<Rightarrow> (string \<Rightarrow> bool) \<Rightarrow> real \<Rightarrow> execution_record \<Rightarrow> execution_record_row list
    \<Rightarrow> (core_error + execution_record) \<times> execution_record_row list" where
  "record_execution sha known now r rows =
    (if \<not> known (er_task_id r) then (Inl NotFound, rows)
     else if \<not> verify_execution_record sha r then (Inl PolicyViolation, rows)
     else let chained = with_prev_hash sha r (latest_execution_record_hash rows)
          in case insert_execution_record chained now rows of
               Inl e \<Rightarrow> (Inl e, rows)
             | Inr rows' \<Rightarrow> (Inr chained, rows'))"

definition or_none :: "string option \<Rightarrow> string option" where
  "or_none x = (if x = Some [] then None else x)"

datatype chain_verification = ChainOk nat | ChainBreak nat string string

fun verify_from :: "(string \<Rightarrow> string) \<Rightarrow> string option \<Rightarrow> nat \<Rightarrow> execution_record list \<Rightarrow> chain_verification" where
  "verify_from sha prev n [] = ChainOk n"
| "verify_from sha prev n (r # rs) =
    (if or_none (er_prev_hash r) \<noteq> prev then
       ChainBreak n (er_id r) (if n \<noteq> 0 then ''prev_hash mismatch'' else ''first record carries a prev_hash'')
     else if \<not> verify_execution_record sha r then ChainBreak n (er_id r) ''record seal does not verify''
     else verify_from sha (Some (er_record_hash r)) (Suc n) rs)"

definition verify_chain :: "(string \<Rightarrow> string) \<Rightarrow> execution_record_row list \<Rightarrow> chain_verification" where
  "verify_chain sha rows = verify_from sha None 0 (map xw_record rows)"

section \<open>The seal determines the record\<close>

lemma sort_pairs_inj:
  assumes "map fst xs = map fst ys" "distinct (map fst xs)" "sort_key fst xs = sort_key fst ys"
  shows "xs = ys"
proof (rule nth_equalityI)
  show len: "length xs = length ys" using assms(1) by (metis length_map)
  have set: "set xs = set ys" using assms(3) by (metis set_sort)
  fix i assume i: "i < length xs"
  then have "xs ! i \<in> set ys" "ys ! i \<in> set ys" using nth_mem[of i xs] nth_mem[of i ys] set len by (simp_all only:)
  moreover have "fst (xs ! i) = fst (ys ! i)" using assms(1) i len by (metis nth_map)
  moreover have "distinct (map fst ys)" using assms(1,2) by simp
  ultimately have "snd (xs ! i) = snd (ys ! i)" using eq_key_imp_eq_value by (metis prod.collapse)
  with \<open>fst (xs ! i) = fst (ys ! i)\<close> show "xs ! i = ys ! i" by (rule prod_eqI)
qed

lemma sort_keys_obj:
  assumes "map fst kvs = map fst lws" "distinct (map fst kvs)" "sort_keys (JObj kvs) = sort_keys (JObj lws)"
  shows "map (sort_keys \<circ> snd) kvs = map (sort_keys \<circ> snd) lws"
proof -
  let ?f = "\<lambda>(k, v). (k, sort_keys v)"
  have fst: "map fst (map ?f xs) = map fst xs" for xs :: "(string \<times> json) list" by auto
  have eq: "map ?f kvs = map ?f lws"
  proof (rule sort_pairs_inj)
    show "map fst (map ?f kvs) = map fst (map ?f lws)" "distinct (map fst (map ?f kvs))"
      unfolding fst by (rule assms)+
    show "sort_key fst (map ?f kvs) = sort_key fst (map ?f lws)"
      using assms(3) unfolding sort_keys.simps json.inject .
  qed
  have "map snd (map ?f xs) = map (sort_keys \<circ> snd) xs" for xs :: "(string \<times> json) list" by auto
  then show ?thesis using arg_cong[OF eq, of "map snd"] by (simp only:)
qed

lemma sort_keys_opt [simp]: "sort_keys (json_opt x) = json_opt x"
  by (simp add: json_opt_def split: option.split)

lemma json_opt_inj [simp]: "json_opt x = json_opt y \<longleftrightarrow> x = y"
  by (auto simp: json_opt_def split: option.splits)

lemma enforcement_json_inj: "sort_keys (enforcement_json p) = sort_keys (enforcement_json q) \<Longrightarrow> p = q"
  unfolding enforcement_json_def by (drule sort_keys_obj[rotated 2]) simp_all

lemma executor_json_inj: "sort_keys (executor_json p) = sort_keys (executor_json q) \<Longrightarrow> p = q"
  unfolding executor_json_def by (drule sort_keys_obj[rotated 2]) simp_all

lemma tool_json_inj: "sort_keys (tool_json p) = sort_keys (tool_json q) \<Longrightarrow> p = q"
  unfolding tool_json_def by (drule sort_keys_obj[rotated 2]) simp_all

lemma record_keys_distinct:
  "distinct [''execution_record_id'', ''record_format_version'', ''work_request_id'', ''task_id'', ''subtask_id'',
     ''decision_record_id'', ''grant_id'', ''correlation_id'', ''provider_enforcement'', ''executor'', ''tool'', ''args_hash'',
     ''outcome'', ''refusal_reason'', ''started_at'', ''finished_at'', ''prev_hash'']"
  by code_simp

lemma hashable_inj:
  assumes "sort_keys (hashable_mapping r) = sort_keys (hashable_mapping t)" "er_record_hash r = er_record_hash t"
  shows "r = t"
proof -
  note e = sort_keys_obj[OF _ _ assms(1)[unfolded hashable_mapping_def], unfolded list.map fst_conv snd_conv comp_def,
      OF refl record_keys_distinct]
  from e have n: "er_provider_enforcement r = er_provider_enforcement t" "er_executor r = er_executor t" "er_tool r = er_tool t"
    by (simp_all only: list.inject enforcement_json_inj executor_json_inj tool_json_inj)
  from e assms(2) show ?thesis
    by (intro execution_record.equality) (simp_all only: list.inject json.inject sort_keys.simps sort_keys_opt json_opt_inj n, simp)
qed

lemma seal_inj:
  assumes "inj sha" "seal_hash sha r = seal_hash sha t" "er_record_hash r = er_record_hash t"
  shows "r = t"
proof (rule hashable_inj[OF _ assms(3)])
  have "canonical_json (hashable_mapping r) = canonical_json (hashable_mapping t)"
    using assms(1,2) unfolding seal_hash_def by (rule injD)
  then show "sort_keys (hashable_mapping r) = sort_keys (hashable_mapping t)" by (rule canonical_json_inj)
qed

section \<open>What the ledger guarantees\<close>

lemma verify_from_snoc:
  "verify_from sha prev n (rs @ [r]) = (case verify_from sha prev n rs of
     ChainOk m \<Rightarrow> verify_from sha (if rs = [] then prev else Some (er_record_hash (last rs))) m [r]
   | b \<Rightarrow> b)"
  by (induction rs arbitrary: prev n) (auto split: chain_verification.split)

lemma chain_ok_count: "verify_from sha prev n rs = ChainOk m \<Longrightarrow> m = n + length rs"
  by (induction rs arbitrary: prev n) (simp, fastforce split: if_splits)

lemma chain_snoc_ok:
  "verify_from sha prev n (rs @ [r]) = ChainOk m \<longleftrightarrow>
    (\<exists>k. verify_from sha prev n rs = ChainOk k \<and> m = Suc k)
    \<and> or_none (er_prev_hash r) = (if rs = [] then prev else Some (er_record_hash (last rs)))
    \<and> verify_execution_record sha r"
  by (auto simp: verify_from_snoc split: chain_verification.splits)

text \<open>The rows the writer produces: the lifted hash column is the seal, and the walk succeeds.\<close>

definition sound_rows :: "(string \<Rightarrow> string) \<Rightarrow> execution_record_row list \<Rightarrow> bool" where
  "sound_rows sha rows \<longleftrightarrow> verify_chain sha rows = ChainOk (length rows)
    \<and> (\<forall>w \<in> set rows. xw_record_hash w = er_record_hash (xw_record w) \<and> xw_id w = er_id (xw_record w))
    \<and> distinct (map xw_id rows)"

fun record_all ::
  "(string \<Rightarrow> string) \<Rightarrow> (string \<Rightarrow> bool) \<Rightarrow> (real \<times> execution_record) list \<Rightarrow> execution_record_row list
    \<Rightarrow> execution_record_row list" where
  "record_all sha known [] rows = rows"
| "record_all sha known ((now, r) # rs) rows = record_all sha known rs (snd (record_execution sha known now r rows))"

lemma sealed_verifies: "(\<And>b. sha b \<noteq> []) \<Longrightarrow> verify_execution_record sha (seal_execution_record sha r)"
  by (simp add: verify_execution_record_def seal_execution_record_def seal_hash_def hashable_mapping_def)

lemma record_execution_sound:
  assumes "\<And>b. sha b \<noteq> []" and s: "sound_rows sha rows"
  shows "sound_rows sha (snd (record_execution sha known now r rows))"
proof -
  let ?c = "with_prev_hash sha r (latest_execution_record_hash rows)"
  let ?w = "\<lparr>xw_id = er_id ?c, xw_record = ?c, xw_record_hash = er_record_hash ?c, xw_created_at = now\<rparr>"
  have "sound_rows sha (rows @ [?w])" if fresh: "er_id ?c \<notin> xw_id ` set rows"
  proof -
    have v: "verify_execution_record sha ?c" unfolding with_prev_hash_def by (rule sealed_verifies) (rule assms(1))
    have prev: "er_prev_hash ?c = latest_execution_record_hash rows"
      by (simp add: with_prev_hash_def seal_execution_record_def)
    have link: "or_none (er_prev_hash ?c) = (if rows = [] then None else Some (er_record_hash (xw_record (last rows))))"
    proof (cases rows rule: rev_cases)
      case (snoc rs w)
      with s have "xw_record_hash w = er_record_hash (xw_record w)" by (simp add: sound_rows_def)
      moreover have "er_record_hash (xw_record w) \<noteq> []"
        using s snoc by (auto simp: sound_rows_def verify_chain_def chain_snoc_ok verify_execution_record_def)
      ultimately show ?thesis using snoc prev by (simp add: latest_execution_record_hash_def or_none_def)
    qed (use prev in \<open>simp add: latest_execution_record_hash_def or_none_def\<close>)
    have "verify_chain sha (rows @ [?w]) = ChainOk (Suc (length rows))"
      using s v link by (simp add: verify_chain_def sound_rows_def chain_snoc_ok last_map)
    then show ?thesis using s fresh by (auto simp: sound_rows_def)
  qed
  then show ?thesis using s
    by (auto simp: record_execution_def insert_execution_record_def Let_def)
qed

text \<open>
  C23. Whatever records are offered to the ledger, genuine or forged, of known or unknown tasks,
  repeated or new: starting from an empty table, what it stores always verifies from the first
  record to the last, with distinct identifiers.
\<close>
theorem ledger_chain_verifies:
  assumes "\<And>b. sha b \<noteq> []"
  shows "verify_chain sha (record_all sha known rs []) = ChainOk (length (record_all sha known rs []))
    \<and> distinct (map xw_id (record_all sha known rs []))"
proof -
  have "sound_rows sha rows \<Longrightarrow> sound_rows sha (record_all sha known rs rows)" for rows
  proof (induction rs arbitrary: rows)
    case (Cons x rs)
    then show ?case using record_execution_sound[OF assms] by (cases x) simp
  qed simp
  from this[of "[]"] show ?thesis by (simp add: sound_rows_def verify_chain_def)
qed

text \<open>
  C24. Under a hash without collisions, the hash of the last record determines the whole history:
  two ledgers that verify and end in the same hash hold the same records in the same order. So a
  record that is changed, removed, inserted or moved before the tail cannot go unnoticed.
\<close>
theorem chain_head_determines_history:
  assumes "inj sha" "verify_from sha None 0 rs = ChainOk m" "verify_from sha None 0 ts = ChainOk n"
    and "rs \<noteq> []" "ts \<noteq> []" "er_record_hash (last rs) = er_record_hash (last ts)"
  shows "rs = ts"
  using assms(2-6)
proof (induction rs arbitrary: ts m n rule: rev_induct)
  case (snoc r rs)
  then obtain ts' t where ts: "ts = ts' @ [t]" by (cases ts rule: rev_cases) auto
  have "verify_execution_record sha r" "verify_execution_record sha t"
    using snoc.prems(1,2) ts by (auto simp: chain_snoc_ok)
  with snoc.prems(5) ts have "r = t"
    by (intro seal_inj[OF assms(1)]) (auto simp: verify_execution_record_def)
  then have link: "(if rs = [] then None else Some (er_record_hash (last rs)))
      = (if ts' = [] then None else Some (er_record_hash (last ts')))"
    using snoc.prems(1,2) ts by (simp add: chain_snoc_ok)
  show ?case
  proof (cases "rs = []")
    case False
    with link have "ts' \<noteq> []" "er_record_hash (last rs) = er_record_hash (last ts')" by (auto split: if_splits)
    with snoc.IH[of _ ts'] snoc.prems(1,2) ts False \<open>r = t\<close> show ?thesis by (auto simp: chain_snoc_ok)
  qed (use link ts \<open>r = t\<close> in \<open>auto split: if_splits\<close>)
qed simp

text \<open>
  The constructor is fail-closed: a record of success exists only over a verified, redeemed
  enforcement record, the outcome is one of the three, and what is built verifies.
\<close>
theorem build_record_fail_closed:
  assumes "build_execution_record sha r = Inr t" "\<And>b. sha b \<noteq> []"
  shows "er_outcome t \<in> set OUTCOMES \<and> verify_execution_record sha t
    \<and> (er_outcome t = ''succeeded'' \<longrightarrow> pe_verified (er_provider_enforcement t)
        \<and> pe_redemption_outcome (er_provider_enforcement t) = ''redeemed'')"
  using assms(1) sealed_verifies[OF assms(2), where r = "r\<lparr>er_format_version := EXECUTION_RECORD_FORMAT_VERSION\<rparr>"]
  by (auto simp: build_execution_record_def Let_def seal_execution_record_def split: if_splits)

section \<open>A concrete ledger\<close>

definition demo_sha :: "string \<Rightarrow> string" where
  "demo_sha b = CHR ''h'' # b"

lemma demo_sha: "inj demo_sha" "demo_sha b \<noteq> []"
  by (simp_all add: demo_sha_def inj_def)

definition demo_exec :: "string \<Rightarrow> string \<Rightarrow> execution_record" where
  "demo_exec i out = \<lparr>er_id = i, er_format_version = ''1'', er_work_request_id = ''w'', er_task_id = ''t'',
     er_subtask_id = None, er_decision_record_id = ''d'', er_grant_id = ''g'', er_correlation_id = ''c'',
     er_provider_enforcement = \<lparr>pe_provider_id = ''p'', pe_grant_id = ''g'', pe_redemption_outcome = ''redeemed'',
       pe_verified = True, pe_args_hash = [], pe_enforced_at = []\<rparr>,
     er_executor = \<lparr>xi_executor_id = ''x'', xi_executor_kind = ''worker'', xi_harness = ''h''\<rparr>,
     er_tool = \<lparr>ti_source_id = ''s'', ti_name = ''n''\<rparr>, er_args_hash = [], er_outcome = out,
     er_refusal_reason = None, er_started_at = [], er_finished_at = [], er_prev_hash = None, er_record_hash = []\<rparr>"

text \<open>Two sealed records, one that was never sealed and a repetition.\<close>

definition demo_rows :: "execution_record_row list" where
  "demo_rows = record_all demo_sha (\<lambda>t. t = ''t'')
    [(1, seal_execution_record demo_sha (demo_exec ''r1'' ''failed'')), (2, demo_exec ''r2'' ''failed''),
     (3, seal_execution_record demo_sha (demo_exec ''r1'' ''refused'')),
     (4, seal_execution_record demo_sha (demo_exec ''r3'' ''succeeded''))] []"

lemma demo_rows_ids: "map xw_id demo_rows = [''r1'', ''r3'']"
  by (simp add: demo_rows_def record_execution_def sealed_verifies[OF demo_sha(2)] insert_execution_record_def Let_def
      with_prev_hash_def seal_execution_record_def verify_execution_record_def demo_exec_def seal_hash_def
      hashable_mapping_def demo_sha_def)

theorem ledger_chain_verifies_witness:
  "map xw_id demo_rows = [''r1'', ''r3''] \<and> verify_chain demo_sha demo_rows = ChainOk 2"
proof -
  have "length demo_rows = 2" using arg_cong[OF demo_rows_ids, of length] by simp
  moreover have "verify_chain demo_sha demo_rows = ChainOk (length demo_rows)"
    unfolding demo_rows_def using ledger_chain_verifies[of demo_sha, OF demo_sha(2)] by blast
  ultimately show ?thesis using demo_rows_ids by simp
qed

definition demo_sealed :: execution_record where
  "demo_sealed = seal_execution_record demo_sha (demo_exec ''r1'' ''failed'')"

lemma demo_sealed_ok: "verify_from demo_sha None 0 [demo_sealed] = ChainOk 1"
  using sealed_verifies[OF demo_sha(2), where r = "demo_exec ''r1'' ''failed''"]
  by (simp add: demo_sealed_def seal_execution_record_def demo_exec_def or_none_def)

theorem chain_head_witness:
  "verify_from demo_sha None 0 [demo_sealed] = ChainOk 1
   \<and> verify_from demo_sha None 0 [demo_sealed\<lparr>er_outcome := ''succeeded''\<rparr>] \<noteq> ChainOk 1"
proof -
  have "[demo_sealed] \<noteq> [demo_sealed\<lparr>er_outcome := ''succeeded''\<rparr>]"
    by (simp add: demo_sealed_def seal_execution_record_def demo_exec_def)
  moreover have "er_record_hash (last [demo_sealed]) = er_record_hash (last [demo_sealed\<lparr>er_outcome := ''succeeded''\<rparr>])"
    by simp
  ultimately have "verify_from demo_sha None 0 [demo_sealed\<lparr>er_outcome := ''succeeded''\<rparr>] \<noteq> ChainOk 1"
    using chain_head_determines_history[OF demo_sha(1) demo_sealed_ok, of "[demo_sealed\<lparr>er_outcome := ''succeeded''\<rparr>]" 1]
    by blast
  then show ?thesis using demo_sealed_ok by blast
qed

theorem build_record_witness:
  "\<exists>t. build_execution_record demo_sha (demo_exec ''r1'' ''succeeded'') = Inr t \<and> verify_execution_record demo_sha t"
proof -
  obtain t where "build_execution_record demo_sha (demo_exec ''r1'' ''succeeded'') = Inr t"
    by (simp add: build_execution_record_def demo_exec_def OUTCOMES_def)
  with build_record_fail_closed[OF this demo_sha(2)] show ?thesis by blast
qed

end
