(* ===== verification/Residency.thy ===== *)
theory Residency
  imports Gateway
begin

text \<open>
  The local model manager (\<^verbatim>\<open>model_manager/residency.py\<close> with the stub of \<^verbatim>\<open>model_manager/backends.py\<close>):
  which model is resident, how many generations run, and admission by a semaphore. A method is
  the sequence of its locked sections; threads interleave between them. The models a backend has
  in memory are a set; what it generates is a parameter, of which the stub is an instance.
\<close>

section \<open>Inventory, requests and answers\<close>

record model_card =
  md_model_id :: string
  md_profiles :: "string list"
  md_loadable :: bool
  md_estimated_load_seconds :: int
  md_supports_tools :: bool
  md_supports_vision :: bool
  md_max_model_len :: int
  md_quantization :: "string option"

definition DEFAULT_INVENTORY :: "model_card list" where
  "DEFAULT_INVENTORY =
    [\<lparr>md_model_id = ''qwen3.6-35b-a3b'',
      md_profiles = [''main_concurrent_worker'', ''general_coder'', ''default_worker'', ''resident_ok''],
      md_loadable = True, md_estimated_load_seconds = 45, md_supports_tools = False, md_supports_vision = False,
      md_max_model_len = 16384, md_quantization = Some ''q4''\<rparr>,
     \<lparr>md_model_id = ''ornith-1.0-35b'', md_profiles = [''coding_specialist'', ''coding_patch''],
      md_loadable = True, md_estimated_load_seconds = 55, md_supports_tools = False, md_supports_vision = False,
      md_max_model_len = 16384, md_quantization = Some ''q4''\<rparr>,
     \<lparr>md_model_id = ''qwen3.6-27b'', md_profiles = [''review_worker'', ''critic'', ''coding_review''],
      md_loadable = True, md_estimated_load_seconds = 40, md_supports_tools = False, md_supports_vision = True,
      md_max_model_len = 16384, md_quantization = Some ''q4''\<rparr>]"

record load_response =
  lr_accepted :: bool
  lr_loaded_model :: "string option"
  lr_estimated_load_seconds :: int
  lr_reason :: string

record can_accept_response =
  ca_can_accept :: bool
  ca_estimated_queue_wait_seconds :: int
  ca_reason :: string

record node_status =
  ns_node_id :: string
  ns_backend :: string
  ns_gpu_name :: string
  ns_vram_total_gb :: real
  ns_available_models :: "model_card list"
  ns_status :: string
  ns_loaded :: "(string \<times> string option \<times> int \<times> nat \<times> nat) option"
  ns_vram_free_gb :: real
  ns_gpu_utilization_pct :: real
  ns_local_waiting :: nat
  ns_oldest_wait_seconds :: nat

record node =
  nd_node_id :: string
  nd_gpu_name :: string
  nd_backend :: string
  nd_inventory :: "model_card list"
  nd_max_active :: nat
  nd_max_model_len :: int
  nd_vram_total_gb :: real
  nd_active :: nat
  nd_waiting :: nat
  nd_loaded :: "string option"
  nd_loading :: bool
  nd_slots :: nat
  nd_resident :: "string set"

section \<open>The stub backend\<close>

definition backend_load :: "string \<Rightarrow> node \<Rightarrow> node" where
  "backend_load m s = s\<lparr>nd_resident := insert m (nd_resident s)\<rparr>"

definition backend_unload :: "string \<Rightarrow> node \<Rightarrow> node" where
  "backend_unload m s = s\<lparr>nd_resident := nd_resident s - {m}\<rparr>"

definition stub_generate :: "generate_request \<Rightarrow> generate_response" where
  "stub_generate req =
    (let last_user = (case find (\<lambda>m. fst m = ''user'') (rev (gr_messages req)) of None \<Rightarrow> [] | Some m \<Rightarrow> snd m);
         body = ''[stub:'' @ gr_model_id req @ ''] processed task '' @ gr_task_id req @ ''. prompt_chars=''
                @ py_str_nat (length last_user) @ ''.''
     in \<lparr>gp_request_id = gr_request_id req, gp_model_id = gr_model_id req, gp_output_text = body,
         gp_input_tokens = sum_list (map (\<lambda>m. int (length (snd m))) (gr_messages req)) div 4,
         gp_output_tokens = min (gr_max_output_tokens req) (int (length body) div 4 + 1), gp_finish_reason = ''stop''\<rparr>)"

section \<open>Status and admission\<close>

definition find_model :: "node \<Rightarrow> string \<Rightarrow> model_card option" where
  "find_model s m = find (\<lambda>c. md_model_id c = m) (nd_inventory s)"

definition node_status_of :: "node \<Rightarrow> node_status" where
  "node_status_of s =
    (let used = (case nd_loaded s of None \<Rightarrow> 0 | Some m \<Rightarrow> if m = [] then 0 else 20 + 2 * real (nd_active s))
     in \<lparr>ns_node_id = nd_node_id s, ns_backend = nd_backend s, ns_gpu_name = nd_gpu_name s,
         ns_vram_total_gb = nd_vram_total_gb s, ns_available_models = nd_inventory s,
         ns_status = (if nd_loading s then ''loading'' else if nd_active s \<ge> nd_max_active s then ''busy'' else ''ready''),
         ns_loaded = (case nd_loaded s of None \<Rightarrow> None
           | Some m \<Rightarrow> if m = [] then None
             else Some (case find_model s m of
               None \<Rightarrow> (m, None, nd_max_model_len s, nd_max_active s, nd_active s)
             | Some c \<Rightarrow> (m, md_quantization c, md_max_model_len c, nd_max_active s, nd_active s))),
         ns_vram_free_gb = py_round 1 (max 0 (nd_vram_total_gb s - used)),
         ns_gpu_utilization_pct = py_round 1 (min 100 (100 * real (nd_active s) / real (max 1 (nd_max_active s)))),
         ns_local_waiting = nd_waiting s,
         ns_oldest_wait_seconds = 0\<rparr>)"

definition can_accept :: "node \<Rightarrow> string \<Rightarrow> int \<Rightarrow> int \<Rightarrow> can_accept_response" where
  "can_accept s m input_tokens output_tokens =
    (case find_model s m of
       None \<Rightarrow> \<lparr>ca_can_accept = False, ca_estimated_queue_wait_seconds = 0, ca_reason = ''model_not_available''\<rparr>
     | Some c \<Rightarrow>
         let total = input_tokens + output_tokens
         in if total > md_max_model_len c then
              \<lparr>ca_can_accept = False, ca_estimated_queue_wait_seconds = 0,
               ca_reason = ''context_exceeds_max_model_len('' @ py_str_int total @ ''>'' @ py_str_int (md_max_model_len c) @ '')''\<rparr>
            else if nd_loaded s \<noteq> Some m then
              \<lparr>ca_can_accept = True, ca_estimated_queue_wait_seconds = md_estimated_load_seconds c,
               ca_reason = ''model_switch_required''\<rparr>
            else if nd_active s \<ge> nd_max_active s then
              \<lparr>ca_can_accept = True, ca_estimated_queue_wait_seconds = 6 * (int (nd_waiting s) + 1),
               ca_reason = ''queued_no_free_slot''\<rparr>
            else \<lparr>ca_can_accept = True, ca_estimated_queue_wait_seconds = 0, ca_reason = ''capacity_available''\<rparr>)"

section \<open>Loading\<close>

text \<open>The two locked sections of \<open>load\<close>, around the call of the backend.\<close>

definition load_check :: "string \<Rightarrow> node \<Rightarrow> load_response option \<times> node" where
  "load_check m s =
    (case find_model s m of
       None \<Rightarrow> (Some \<lparr>lr_accepted = False, lr_loaded_model = None, lr_estimated_load_seconds = 0,
                     lr_reason = ''model_not_available''\<rparr>, s)
     | Some c \<Rightarrow>
         if nd_loaded s = Some m then
           (Some \<lparr>lr_accepted = True, lr_loaded_model = Some m, lr_estimated_load_seconds = 0,
                 lr_reason = ''already_resident''\<rparr>, s)
         else (None, s\<lparr>nd_loading := True\<rparr>))"

definition load_swap :: "string \<Rightarrow> node \<Rightarrow> node" where
  "load_swap m s =
    (let s1 = (case nd_loaded s of None \<Rightarrow> s | Some old \<Rightarrow> if old = [] then s else backend_unload old s)
     in s1\<lparr>nd_loaded := Some m, nd_loading := False\<rparr>)"

definition load :: "string \<Rightarrow> string \<Rightarrow> node \<Rightarrow> load_response \<times> node" where
  "load m reason s =
    (case load_check m s of
       (Some r, s1) \<Rightarrow> (r, s1)
     | (None, s1) \<Rightarrow>
         (\<lparr>lr_accepted = True, lr_loaded_model = Some m,
           lr_estimated_load_seconds = (case find_model s m of None \<Rightarrow> 0 | Some c \<Rightarrow> md_estimated_load_seconds c),
           lr_reason = (if reason = [] then ''loaded'' else reason)\<rparr>,
          load_swap m (backend_load m s1)))"

definition unload :: "string \<Rightarrow> node \<Rightarrow> load_response \<times> node" where
  "unload m s =
    (if nd_loaded s \<noteq> Some m then
       (\<lparr>lr_accepted = False, lr_loaded_model = None, lr_estimated_load_seconds = 0, lr_reason = ''not_loaded''\<rparr>, s)
     else (\<lparr>lr_accepted = True, lr_loaded_model = None, lr_estimated_load_seconds = 0, lr_reason = ''unloaded''\<rparr>,
           (backend_unload m s)\<lparr>nd_loaded := None\<rparr>))"

definition new_node :: "model_card list \<Rightarrow> string \<Rightarrow> nat \<Rightarrow> node" where
  "new_node cards default_model max_active =
    snd (load default_model ''startup_default''
      \<lparr>nd_node_id = ''r9700-box-01'', nd_gpu_name = ''Radeon AI PRO R9700'', nd_backend = ''stub'',
       nd_inventory = cards, nd_max_active = max_active, nd_max_model_len = 16384, nd_vram_total_gb = 32,
       nd_active = 0, nd_waiting = 0, nd_loaded = None, nd_loading = False, nd_slots = max_active, nd_resident = {}\<rparr>)"

section \<open>Generating\<close>

definition gen_enqueue :: "node \<Rightarrow> node" where
  "gen_enqueue s = s\<lparr>nd_waiting := nd_waiting s + 1\<rparr>"

text \<open>\<open>acquire\<close> blocks while no slot is free.\<close>

definition slot_acquire :: "node \<Rightarrow> node option" where
  "slot_acquire s = (if nd_slots s = 0 then None else Some (s\<lparr>nd_slots := nd_slots s - 1\<rparr>))"

definition gen_admit :: "node \<Rightarrow> node" where
  "gen_admit s = s\<lparr>nd_waiting := nd_waiting s - 1, nd_active := nd_active s + 1\<rparr>"

definition gen_finish :: "node \<Rightarrow> node" where
  "gen_finish s = s\<lparr>nd_active := nd_active s - 1\<rparr>"

text \<open>The semaphore is bounded: a release above the initial value raises (\<open>None\<close>).\<close>

definition slot_release :: "node \<Rightarrow> node option" where
  "slot_release s = (if nd_slots s < nd_max_active s then Some (s\<lparr>nd_slots := nd_slots s + 1\<rparr>) else None)"

text \<open>
  A generation that no other thread interferes with; \<open>None\<close> is a call that blocks for good. The
  backend answers or raises; the slot is given back either way, and an error of the release
  replaces the answer.
\<close>

definition generate ::
  "(generate_request \<Rightarrow> string + generate_response) \<Rightarrow> generate_request \<Rightarrow> node
    \<Rightarrow> ((string + generate_response) \<times> node) option" where
  "generate backend req s =
    (let s1 = (if nd_loaded s \<noteq> Some (gr_model_id req)
               then snd (load (gr_model_id req) ''on_demand_for_generate'' s) else s)
     in case slot_acquire (gen_enqueue s1) of
          None \<Rightarrow> None
        | Some s2 \<Rightarrow>
            (let s3 = gen_finish (gen_admit s2)
             in Some (case slot_release s3 of
                        None \<Rightarrow> (Inl ''Semaphore released too many times'', s3)
                      | Some s4 \<Rightarrow> (backend req, s4))))"

section \<open>Threads\<close>

text \<open>
  The service runs every request in a thread. A thread is at one of these points between the
  atomic sections of \<open>load\<close>, \<open>unload\<close> and \<open>generate\<close>; the flag of the loading points says whether
  \<open>load\<close> was called by \<open>generate\<close>.
\<close>

datatype phase = Idle | CallLoad string bool | BackendLoad string bool | SwapLoad string bool
  | Enqueue | Queued | Acquired | Running | Leaving

definition after_load :: "bool \<Rightarrow> phase" where
  "after_load for_generate = (if for_generate then Enqueue else Idle)"

text \<open>The steps of a thread that is inside a call.\<close>

inductive inner_step :: "node \<Rightarrow> phase \<Rightarrow> node \<Rightarrow> phase \<Rightarrow> bool" where
  load_answered: "load_check m s = (Some r, s') \<Longrightarrow> inner_step s (CallLoad m g) s' (after_load g)"
| load_begun: "load_check m s = (None, s') \<Longrightarrow> inner_step s (CallLoad m g) s' (BackendLoad m g)"
| load_backend: "inner_step s (BackendLoad m g) (backend_load m s) (SwapLoad m g)"
| load_swapped: "inner_step s (SwapLoad m g) (load_swap m s) (after_load g)"
| enqueued: "inner_step s Enqueue (gen_enqueue s) Queued"
| slot_acquired: "slot_acquire s = Some s' \<Longrightarrow> inner_step s Queued s' Acquired"
| admitted: "inner_step s Acquired (gen_admit s) Running"
| generated: "inner_step s Running (gen_finish s) Leaving"
| slot_released: "slot_release s = Some s' \<Longrightarrow> inner_step s Leaving s' Idle"
| slot_raised: "slot_release s = None \<Longrightarrow> inner_step s Leaving s Idle"

text \<open>The calls a thread may make when it is idle.\<close>

inductive outer_step :: "node \<Rightarrow> phase \<Rightarrow> node \<Rightarrow> phase \<Rightarrow> bool" where
  call_load: "outer_step s Idle s (CallLoad m False)"
| call_unload: "unload m s = (r, s') \<Longrightarrow> outer_step s Idle s' Idle"
| call_generate_switch: "nd_loaded s \<noteq> Some m \<Longrightarrow> outer_step s Idle s (CallLoad m True)"
| call_generate: "nd_loaded s = Some m \<Longrightarrow> outer_step s Idle s Enqueue"

type_synonym threads_state = "node \<times> phase list"

text \<open>One thread of the pool steps; \<open>finishing_step\<close> starts no new call.\<close>

definition finishing_step :: "threads_state \<Rightarrow> threads_state \<Rightarrow> bool" where
  "finishing_step x y \<longleftrightarrow> (\<exists>i < length (snd x). \<exists>p. inner_step (fst x) (snd x ! i) (fst y) p \<and> snd y = (snd x)[i := p])"

definition node_step :: "threads_state \<Rightarrow> threads_state \<Rightarrow> bool" where
  "node_step x y \<longleftrightarrow> finishing_step x y \<or>
    (\<exists>i < length (snd x). \<exists>p. outer_step (fst x) (snd x ! i) (fst y) p \<and> snd y = (snd x)[i := p])"

text \<open>What runs of a node can reach from its start with \<open>n\<close> threads.\<close>

definition node_reachable :: "model_card list \<Rightarrow> string \<Rightarrow> nat \<Rightarrow> nat \<Rightarrow> threads_state \<Rightarrow> bool" where
  "node_reachable cards default_model max_active n =
    node_step\<^sup>*\<^sup>* (new_node cards default_model max_active, replicate n Idle)"

inductive_cases load_call_cases: "inner_step s (CallLoad m g) s' p"

lemmas node_defs = backend_load_def backend_unload_def load_check_def load_swap_def load_def unload_def
  gen_enqueue_def gen_admit_def gen_finish_def slot_acquire_def slot_release_def

section \<open>Gauges\<close>

text \<open>
  A gauge of the shared state that every atomic section moves by the change of a weight of the
  thread that executes it equals the total weight of the pool, whatever the interleaving.
\<close>

locale pool_gauge =
  fixes thread_step :: "'s \<Rightarrow> 'p \<Rightarrow> 's \<Rightarrow> 'p \<Rightarrow> bool"
    and sound :: "'s \<Rightarrow> bool"
    and gauge :: "'s \<Rightarrow> nat"
    and weight :: "'p \<Rightarrow> nat"
  assumes sound_step: "thread_step s p s' p' \<Longrightarrow> sound s \<Longrightarrow> weight p \<le> gauge s \<Longrightarrow> sound s'"
    and gauge_step: "thread_step s p s' p' \<Longrightarrow> sound s \<Longrightarrow> weight p \<le> gauge s \<Longrightarrow>
      gauge s' + weight p = gauge s + weight p'"
begin

definition exact :: "'s \<times> 'p list \<Rightarrow> bool" where
  "exact x \<longleftrightarrow> sound (fst x) \<and> gauge (fst x) = sum_list (map weight (snd x))"

lemma weight_le_gauge: "exact (s, ps) \<Longrightarrow> i < length ps \<Longrightarrow> weight (ps ! i) \<le> gauge s"
  unfolding exact_def by (simp add: elem_le_sum_list[of i "map weight ps", simplified])

lemma exact_update:
  assumes "exact (s, ps)" and "i < length ps" and "thread_step s (ps ! i) s' p"
  shows "exact (s', ps[i := p])"
proof -
  have le: "weight (ps ! i) \<le> gauge s" using weight_le_gauge assms(1,2) .
  have "sum_list (map weight (ps[i := p])) + weight (ps ! i) = sum_list (map weight ps) + weight p"
    using assms(2) elem_le_sum_list[of i "map weight ps"]
    by (simp add: map_update sum_list_update)
  moreover have "gauge s' + weight (ps ! i) = gauge s + weight p" and "sound s'"
    using gauge_step sound_step assms(1,3) le by (auto simp: exact_def)
  ultimately show ?thesis using assms(1) by (simp add: exact_def)
qed

end

definition thread_step :: "node \<Rightarrow> phase \<Rightarrow> node \<Rightarrow> phase \<Rightarrow> bool" where
  "thread_step s p s' p' \<longleftrightarrow> inner_step s p s' p' \<or> outer_step s p s' p'"

lemma node_step_thread:
  assumes "node_step x y"
  obtains i p where "i < length (snd x)" and "thread_step (fst x) (snd x ! i) (fst y) p" and "snd y = (snd x)[i := p]"
  using assms unfolding node_step_def finishing_step_def thread_step_def by blast

definition holds_slot :: "phase \<Rightarrow> nat" where
  "holds_slot p = (if p \<in> {Acquired, Running, Leaving} then 1 else 0)"

definition is_running :: "phase \<Rightarrow> nat" where
  "is_running p = (if p = Running then 1 else 0)"

definition is_waiting :: "phase \<Rightarrow> nat" where
  "is_waiting p = (if p \<in> {Queued, Acquired} then 1 else 0)"

definition slots_taken :: "node \<Rightarrow> nat" where
  "slots_taken s = nd_max_active s - nd_slots s"

lemmas weight_defs = holds_slot_def is_running_def is_waiting_def slots_taken_def after_load_def

interpretation slot_gauge: pool_gauge thread_step "\<lambda>s. nd_slots s \<le> nd_max_active s" slots_taken holds_slot
  by unfold_locales
    (auto simp: thread_step_def weight_defs node_defs Let_def elim!: inner_step.cases outer_step.cases
      split: if_splits option.splits)

interpretation active_gauge: pool_gauge thread_step "\<lambda>_. True" nd_active is_running
  by unfold_locales
    (auto simp: thread_step_def weight_defs node_defs Let_def elim!: inner_step.cases outer_step.cases
      split: if_splits option.splits)

interpretation waiting_gauge: pool_gauge thread_step "\<lambda>_. True" nd_waiting is_waiting
  by unfold_locales
    (auto simp: thread_step_def weight_defs node_defs Let_def elim!: inner_step.cases outer_step.cases
      split: if_splits option.splits)

section \<open>Admission\<close>

lemma load_gauges [simp]:
  "nd_active (snd (load m r s)) = nd_active s" "nd_waiting (snd (load m r s)) = nd_waiting s"
  "nd_slots (snd (load m r s)) = nd_slots s" "nd_max_active (snd (load m r s)) = nd_max_active s"
  "nd_inventory (snd (load m r s)) = nd_inventory s"
  by (simp_all add: node_defs Let_def split: option.split)

lemma new_node_gauges [simp]:
  "nd_active (new_node cards d k) = 0" "nd_waiting (new_node cards d k) = 0"
  "nd_slots (new_node cards d k) = k" "nd_max_active (new_node cards d k) = k"
  "nd_inventory (new_node cards d k) = cards"
  by (simp_all add: new_node_def)

lemma thread_step_fixed:
  "thread_step s p s' p' \<Longrightarrow> nd_max_active s' = nd_max_active s \<and> nd_inventory s' = nd_inventory s"
  by (auto simp: thread_step_def node_defs Let_def elim!: inner_step.cases outer_step.cases
      split: if_splits option.splits)

definition node_inv :: "nat \<Rightarrow> nat \<Rightarrow> threads_state \<Rightarrow> bool" where
  "node_inv k n x \<longleftrightarrow> nd_max_active (fst x) = k \<and> length (snd x) = n \<and>
    slot_gauge.exact x \<and> active_gauge.exact x \<and> waiting_gauge.exact x"

lemma node_inv_step:
  assumes "node_inv k n x" and "node_step x y"
  shows "node_inv k n y"
proof -
  obtain s ps where x: "x = (s, ps)" by (cases x)
  obtain s' ps' where y: "y = (s', ps')" by (cases y)
  from assms(2) obtain i p where i: "i < length ps" and st: "thread_step s (ps ! i) s' p" and ps': "ps' = ps[i := p]"
    by (rule node_step_thread) (auto simp: x y)
  show ?thesis
    using assms(1) thread_step_fixed[OF st] slot_gauge.exact_update[OF _ i st]
      active_gauge.exact_update[OF _ i st] waiting_gauge.exact_update[OF _ i st]
    by (simp add: node_inv_def x y ps')
qed

lemma node_inv_start: "node_inv k n (new_node cards d k, replicate n Idle)"
  by (simp add: node_inv_def slot_gauge.exact_def active_gauge.exact_def waiting_gauge.exact_def
      weight_defs sum_list_replicate)

lemma node_inv_steps: "node_step\<^sup>*\<^sup>* x y \<Longrightarrow> node_inv k n x \<Longrightarrow> node_inv k n y"
  by (induction rule: rtranclp_induct) (auto intro: node_inv_step)

lemma node_inv_reachable: "node_reachable cards d k n x \<Longrightarrow> node_inv k n x"
  using node_inv_steps node_inv_start unfolding node_reachable_def by blast

lemma weight_counts:
  "sum_list (map is_running ps) = length (filter (\<lambda>p. p = Running) ps)"
  "sum_list (map is_waiting ps) = length (filter (\<lambda>p. p = Queued \<or> p = Acquired) ps)"
  "sum_list (map holds_slot ps) = length (filter (\<lambda>p. p = Acquired \<or> p = Running \<or> p = Leaving) ps)"
  by (induction ps) (auto simp: weight_defs)

lemma running_hold_slots: "sum_list (map is_running ps) \<le> sum_list (map holds_slot ps)"
  by (induction ps) (auto simp: weight_defs)

lemma node_inv_slots:
  assumes "node_inv k n (s, ps)"
  shows "nd_slots s + sum_list (map holds_slot ps) = k" and "nd_active s = sum_list (map is_running ps)"
    and "nd_waiting s = sum_list (map is_waiting ps)"
  using assms by (auto simp: node_inv_def slot_gauge.exact_def active_gauge.exact_def waiting_gauge.exact_def
      slots_taken_def)

lemma leaving_releases:
  assumes "node_inv k n (s, ps)" and "Leaving \<in> set ps"
  shows "slot_release s \<noteq> None"
proof -
  have "1 \<le> sum_list (map holds_slot ps)"
    using assms(2) member_le_sum_list[of "holds_slot Leaving" "map holds_slot ps"] by (auto simp: holds_slot_def)
  then show ?thesis
    using node_inv_slots(1)[OF assms(1)] assms(1) by (auto simp: slot_release_def node_inv_def)
qed

text \<open>
  C25. However many threads call the node and however their calls interleave, the backend never runs
  more generations than the node admits; the counters it reports are exactly the number of
  generations running and of calls waiting for a slot, so the guards against negative counters
  never act; the slots free and taken add up to the bound, and giving a slot back never raises.
\<close>
theorem gpu_never_oversubscribed:
  assumes "node_reachable cards default_model max_active n (s, ps)"
  shows "length (filter (\<lambda>p. p = Running) ps) \<le> max_active
    \<and> nd_active s = length (filter (\<lambda>p. p = Running) ps)
    \<and> nd_waiting s = length (filter (\<lambda>p. p = Queued \<or> p = Acquired) ps)
    \<and> nd_slots s + length (filter (\<lambda>p. p = Acquired \<or> p = Running \<or> p = Leaving) ps) = max_active
    \<and> (Leaving \<in> set ps \<longrightarrow> slot_release s \<noteq> None)"
proof -
  have inv: "node_inv max_active n (s, ps)" using assms by (rule node_inv_reachable)
  show ?thesis
    using node_inv_slots[OF inv] running_hold_slots[of ps] leaving_releases[OF inv]
    by (simp only: weight_counts) linarith
qed

section \<open>Every call returns\<close>

fun phase_work :: "phase \<Rightarrow> nat" where
  "phase_work (CallLoad m g) = 8"
| "phase_work (BackendLoad m g) = 7"
| "phase_work (SwapLoad m g) = 6"
| "phase_work Enqueue = 5"
| "phase_work Queued = 4"
| "phase_work Acquired = 3"
| "phase_work Running = 2"
| "phase_work Leaving = 1"
| "phase_work Idle = 0"

definition pool_work :: "phase list \<Rightarrow> nat" where
  "pool_work ps = sum_list (map phase_work ps)"

lemma inner_step_work: "inner_step s p s' p' \<Longrightarrow> phase_work p' < phase_work p"
  by (induction rule: inner_step.induct) (simp_all add: after_load_def)

lemma finishing_step_work:
  assumes "finishing_step x y"
  shows "pool_work (snd y) < pool_work (snd x)"
proof -
  from assms obtain i p where i: "i < length (snd x)" and st: "inner_step (fst x) (snd x ! i) (fst y) p"
    and y: "snd y = (snd x)[i := p]"
    unfolding finishing_step_def by blast
  have "phase_work (snd x ! i) \<le> pool_work (snd x)"
    using elem_le_sum_list[of i "map phase_work (snd x)"] i by (simp add: pool_work_def)
  then show ?thesis using inner_step_work[OF st] i unfolding y pool_work_def
    by (simp add: map_update sum_list_update)
qed

lemma finishing_steps_work: "(finishing_step ^^ j) x y \<Longrightarrow> j + pool_work (snd y) \<le> pool_work (snd x)"
proof (induction j arbitrary: y)
  case (Suc j)
  then obtain z where "(finishing_step ^^ j) x z" and "finishing_step z y" by auto
  then show ?case using Suc.IH[of z] finishing_step_work[of z y] by linarith
qed simp

lemma pool_work_bound: "pool_work ps \<le> 8 * length ps"
proof (induction ps)
  case (Cons p ps)
  then show ?case by (cases p) (auto simp: pool_work_def)
qed (simp add: pool_work_def)

lemma finishing_steps_node: "(finishing_step ^^ j) x y \<Longrightarrow> node_step\<^sup>*\<^sup>* x y"
proof (induction j arbitrary: y)
  case (Suc j)
  then obtain z where "(finishing_step ^^ j) x z" and "finishing_step z y" by auto
  then show ?case using Suc.IH[of z] by (auto simp: node_step_def intro: rtranclp.rtrancl_into_rtrancl)
qed simp

text \<open>A thread that is not waiting for a slot can always go on; one that waits can when a slot is free.\<close>

lemma inner_step_enabled:
  assumes "p \<noteq> Idle" and "p = Queued \<Longrightarrow> 0 < nd_slots s"
  shows "\<exists>s' p'. inner_step s p s' p'"
proof (cases p)
  case (CallLoad m g)
  then show ?thesis by (cases "load_check m s"; cases "fst (load_check m s)") (auto intro: inner_step.intros)
next
  case Queued
  then show ?thesis using assms(2) slot_acquired[of s] by (auto simp: slot_acquire_def)
next
  case Leaving
  then show ?thesis by (cases "slot_release s") (auto intro: inner_step.intros)
qed (use assms(1) in \<open>auto intro: inner_step.intros\<close>)

lemma finishing_step_enabled:
  "i < length ps \<Longrightarrow> ps ! i \<noteq> Idle \<Longrightarrow> (ps ! i = Queued \<Longrightarrow> 0 < nd_slots s) \<Longrightarrow> \<exists>y. finishing_step (s, ps) y"
  using inner_step_enabled[of "ps ! i" s] unfolding finishing_step_def by fastforce

lemma busy_pool_steps:
  assumes "node_inv k n (s, ps)" and "0 < k" and "p \<in> set ps" and "p \<noteq> Idle"
  shows "\<exists>y. finishing_step (s, ps) y"
proof (cases "nd_slots s = 0")
  case True
  then have "sum_list (map holds_slot ps) \<noteq> 0" using node_inv_slots(1)[OF assms(1)] assms(2) by simp
  then obtain q where "q \<in> set ps" and "holds_slot q \<noteq> 0" by auto
  then obtain i where "i < length ps" and "ps ! i = q" and "q \<in> {Acquired, Running, Leaving}"
    by (auto simp: in_set_conv_nth holds_slot_def split: if_splits)
  then show ?thesis using finishing_step_enabled[of i ps s] by auto
next
  case False
  then show ?thesis using finishing_step_enabled[of _ ps s] assms(3,4) by (auto simp: in_set_conv_nth)
qed

text \<open>
  C26. No call is stuck for good: on a node that admits at least one generation, the calls under way
  end after at most eight sections each, in whatever order the threads run, and while one is under
  way some thread can go on. In particular threads waiting for a slot cannot deadlock.
\<close>
theorem calls_drain:
  assumes "node_reachable cards default_model max_active n x" and "0 < max_active"
    and "(finishing_step ^^ j) x (s, ps)"
  shows "j \<le> 8 * n \<and> (set ps \<subseteq> {Idle} \<or> (\<exists>y. finishing_step (s, ps) y))"
proof -
  have inv: "node_inv max_active n x" using assms(1) by (rule node_inv_reachable)
  have "node_inv max_active n (s, ps)" using node_inv_steps[OF finishing_steps_node[OF assms(3)] inv] .
  then have "set ps \<subseteq> {Idle} \<or> (\<exists>y. finishing_step (s, ps) y)" using busy_pool_steps assms(2) by blast
  moreover have "j \<le> 8 * n"
    using finishing_steps_work[OF assms(3)] pool_work_bound[of "snd x"] inv by (auto simp: node_inv_def)
  ultimately show ?thesis by blast
qed

section \<open>Residency\<close>

definition named_models :: "model_card list \<Rightarrow> bool" where
  "named_models cards \<longleftrightarrow> [] \<notin> md_model_id ` set cards"

definition swapping :: "phase list \<Rightarrow> string set" where
  "swapping ps = {m. \<exists>g. SwapLoad m g \<in> set ps}"

definition loading_names :: "phase \<Rightarrow> bool" where
  "loading_names p \<longleftrightarrow> (\<forall>g. p \<noteq> BackendLoad [] g \<and> p \<noteq> SwapLoad [] g)"

definition tracked :: "threads_state \<Rightarrow> bool" where
  "tracked x \<longleftrightarrow> named_models (nd_inventory (fst x)) \<and> nd_loaded (fst x) \<noteq> Some []
    \<and> (\<forall>p \<in> set (snd x). loading_names p) \<and> nd_resident (fst x) \<subseteq> set_option (nd_loaded (fst x)) \<union> swapping (snd x)"

lemma swapping_update:
  "i < length ps \<Longrightarrow> swapping ps \<subseteq> swapping (ps[i := p]) \<union> swapping [ps ! i]"
  unfolding swapping_def by (auto simp: in_set_conv_nth nth_list_update) metis

lemma swapping_update_in: "i < length ps \<Longrightarrow> swapping [p] \<subseteq> swapping (ps[i := p])"
  unfolding swapping_def using set_update_memI[of i ps p] by auto

lemma found_named [simp]: "named_models (nd_inventory s) \<Longrightarrow> find_model s [] = None"
  unfolding named_models_def find_model_def find_None_iff by (metis imageI)

text \<open>What one section does to the resident models, in terms of the thread that executes it.\<close>

lemma thread_step_names:
  assumes "thread_step s p s' p'" and "named_models (nd_inventory s)" and "nd_loaded s \<noteq> Some []" and "loading_names p"
  shows "nd_loaded s' \<noteq> Some [] \<and> loading_names p'"
  using assms
  by (auto simp: thread_step_def loading_names_def node_defs Let_def after_load_def
      elim!: inner_step.cases outer_step.cases split: if_splits option.splits)

lemma thread_step_resident:
  assumes "thread_step s p s' p'" and "nd_loaded s \<noteq> Some []"
    and "nd_resident s \<subseteq> set_option (nd_loaded s) \<union> swapping [p] \<union> R"
  shows "nd_resident s' \<subseteq> set_option (nd_loaded s') \<union> swapping [p'] \<union> R"
  using assms
  by (cases "nd_loaded s") ((auto simp: thread_step_def node_defs Let_def after_load_def swapping_def subset_iff
      elim!: inner_step.cases outer_step.cases split: if_splits option.splits), blast+)

lemma tracked_step:
  assumes "tracked x" and "node_step x y"
  shows "tracked y"
proof -
  obtain s ps where x: "x = (s, ps)" by (cases x)
  obtain s' ps' where y: "y = (s', ps')" by (cases y)
  from assms(2) obtain i p where i: "i < length ps" and st: "thread_step s (ps ! i) s' p" and ps': "ps' = ps[i := p]"
    by (rule node_step_thread) (auto simp: x y)
  have tr: "named_models (nd_inventory s)" "nd_loaded s \<noteq> Some []" "loading_names (ps ! i)"
    using assms(1) i by (auto simp: tracked_def x)
  note names = thread_step_names[OF st tr]
  have "nd_resident s \<subseteq> set_option (nd_loaded s) \<union> swapping [ps ! i] \<union> swapping ps'"
    using assms(1) swapping_update[OF i, of p] unfolding tracked_def x ps' by auto
  then have "nd_resident s' \<subseteq> set_option (nd_loaded s') \<union> swapping ps'"
    using thread_step_resident[OF st tr(2)] swapping_update_in[OF i, of p] unfolding ps' by blast
  moreover have "\<forall>q \<in> set ps'. loading_names q"
    using names assms(1) set_update_subset_insert[of ps i p] unfolding ps' tracked_def x by auto
  ultimately show ?thesis using names tr(1) thread_step_fixed[OF st] by (simp add: tracked_def y)
qed

lemma swapping_idle [simp]: "swapping (replicate n Idle) = {}"
  by (auto simp: swapping_def)

lemma new_node_resident:
  "nd_resident (new_node cards d k) = set_option (nd_loaded (new_node cards d k))"
  by (auto simp: new_node_def load_def load_check_def load_swap_def backend_load_def split: option.splits)

lemma tracked_start: "named_models cards \<Longrightarrow> tracked (new_node cards d k, replicate n Idle)"
  by (auto simp: tracked_def new_node_resident loading_names_def new_node_def load_def load_check_def
      load_swap_def backend_load_def split: option.splits)

lemma tracked_steps: "node_step\<^sup>*\<^sup>* x y \<Longrightarrow> tracked x \<Longrightarrow> tracked y"
  by (induction rule: rtranclp_induct) (auto intro: tracked_step)

text \<open>With a single thread the swap is exact.\<close>

fun swap_exact :: "threads_state \<Rightarrow> bool" where
  "swap_exact (s, [BackendLoad m g]) \<longleftrightarrow> nd_loaded s \<noteq> Some m \<and> nd_resident s = set_option (nd_loaded s)"
| "swap_exact (s, [SwapLoad m g]) \<longleftrightarrow> nd_loaded s \<noteq> Some m \<and> nd_resident s = insert m (set_option (nd_loaded s))"
| "swap_exact (s, _) \<longleftrightarrow> nd_resident s = set_option (nd_loaded s)"

lemma swap_exact_step:
  assumes "thread_step s p s' p'" and "nd_loaded s \<noteq> Some []" and "swap_exact (s, [p])"
  shows "swap_exact (s', [p'])"
  using assms
  by (auto simp: thread_step_def node_defs Let_def after_load_def
      elim!: inner_step.cases outer_step.cases split: if_splits option.splits)

lemma swap_exact_steps:
  "node_step\<^sup>*\<^sup>* x y \<Longrightarrow> tracked x \<Longrightarrow> length (snd x) = 1 \<Longrightarrow> swap_exact x \<Longrightarrow> length (snd y) = 1 \<and> swap_exact y"
proof (induction rule: rtranclp_induct)
  case (step y z)
  obtain s p where y: "y = (s, [p])" using step by (cases y) (auto simp: length_Suc_conv)
  obtain s' ps' where z: "z = (s', ps')" by (cases z)
  have "nd_loaded s \<noteq> Some []" using tracked_steps[OF step.hyps(1) step.prems(1)] by (simp add: tracked_def y)
  then show ?case using step swap_exact_step[of s p s']
    by (auto simp: y z elim!: node_step_thread)
qed simp

text \<open>
  The node keeps track of what occupies the memory of the card: at every moment each model the
  backend holds is the one the node reports or one a thread is just swapping in, so once the calls
  have returned at most the reported model is held. When the calls come one after the other the
  reported model is indeed held, and nothing else.
\<close>
theorem resident_models_tracked:
  assumes "node_reachable cards default_model max_active n (s, ps)" and "named_models cards"
  shows "nd_resident s \<subseteq> set_option (nd_loaded s) \<union> {m. \<exists>g. SwapLoad m g \<in> set ps}
    \<and> (n = 1 \<and> ps = [Idle] \<longrightarrow> nd_resident s = set_option (nd_loaded s))"
proof -
  let ?x = "(new_node cards default_model max_active, replicate n Idle)"
  have steps: "node_step\<^sup>*\<^sup>* ?x (s, ps)" using assms(1) by (simp add: node_reachable_def)
  have start: "tracked ?x" using assms(2) by (rule tracked_start)
  have "nd_resident s = set_option (nd_loaded s)" if "n = 1" "ps = [Idle]"
    using swap_exact_steps[OF steps start] that by (simp add: new_node_resident)
  then show ?thesis using tracked_steps[OF steps start] by (auto simp: tracked_def swapping_def)
qed

lemma pool_inner: "i < length ps \<Longrightarrow> inner_step s (ps ! i) s' p \<Longrightarrow> node_step (s, ps) (s', ps[i := p])"
  unfolding node_step_def finishing_step_def by auto

lemma pool_outer: "i < length ps \<Longrightarrow> outer_step s (ps ! i) s' p \<Longrightarrow> node_step (s, ps) (s', ps[i := p])"
  unfolding node_step_def finishing_step_def by auto

text \<open>Two threads load \<open>m\<close>, each section of the first just before the same section of the second.\<close>

lemma two_loads_interleaved:
  assumes "load_check m s = (None, s1)" and "load_check m s1 = (None, s2)"
  shows "node_step\<^sup>*\<^sup>* (s, [Idle, Idle]) (load_swap m (load_swap m (backend_load m (backend_load m s2))), [Idle, Idle])"
proof -
  let ?L = "CallLoad m False" and ?B = "BackendLoad m False" and ?S = "SwapLoad m False"
  let ?s4 = "backend_load m (backend_load m s2)"
  note rtranclp.rtrancl_into_rtrancl [trans]
  have "node_step\<^sup>*\<^sup>* (s, [Idle, Idle]) (s, [?L, Idle])"
    using pool_outer[of 0 "[Idle, Idle]"] call_load by (simp add: r_into_rtranclp)
  also have "node_step \<dots> (s, [?L, ?L])" using pool_outer[of 1 "[?L, Idle]"] call_load by simp
  also have "node_step \<dots> (s1, [?B, ?L])" using pool_inner[of 0 "[?L, ?L]"] load_begun[OF assms(1)] by simp
  also have "node_step \<dots> (s2, [?B, ?B])" using pool_inner[of 1 "[?B, ?L]"] load_begun[OF assms(2)] by simp
  also have "node_step \<dots> (backend_load m s2, [?S, ?B])" using pool_inner[of 0 "[?B, ?B]"] load_backend by simp
  also have "node_step \<dots> (?s4, [?S, ?S])" using pool_inner[of 1 "[?S, ?B]"] load_backend by simp
  also have "node_step \<dots> (load_swap m ?s4, [Idle, ?S])"
    using pool_inner[of 0 "[?S, ?S]"] load_swapped[of _ m False] by (simp add: after_load_def)
  also have "node_step \<dots> (load_swap m (load_swap m ?s4), [Idle, Idle])"
    using pool_inner[of 1 "[Idle, ?S]"] load_swapped[of _ m False] by (simp add: after_load_def)
  finally show ?thesis .
qed

text \<open>
  Two threads that ask for the same model can both pass the test that it is not loaded: the
  second to finish unloads it as the previous model. The node then reports, with no call under way,
  a model that the backend does not hold, and answers further loads with already_resident.
\<close>
theorem concurrent_loads_evict:
  "\<exists>s. node_reachable DEFAULT_INVENTORY ''qwen3.6-35b-a3b'' 4 2 (s, [Idle, Idle])
     \<and> nd_loaded s = Some ''qwen3.6-27b'' \<and> nd_resident s = {}
     \<and> lr_reason (fst (load ''qwen3.6-27b'' [] s)) = ''already_resident''"
proof -
  let ?m = "''qwen3.6-27b''" and ?s = "new_node DEFAULT_INVENTORY ''qwen3.6-35b-a3b'' 4"
  let ?s1 = "?s\<lparr>nd_loading := True\<rparr>"
  have "load_check ?m ?s = (None, ?s1)" and "load_check ?m ?s1 = (None, ?s1)" by code_simp+
  then have "node_reachable DEFAULT_INVENTORY ''qwen3.6-35b-a3b'' 4 2
      (load_swap ?m (load_swap ?m (backend_load ?m (backend_load ?m ?s1))), [Idle, Idle])"
    using two_loads_interleaved[of ?m ?s ?s1 ?s1] by (simp add: node_reachable_def numeral_2_eq_2)
  moreover have "nd_loaded (load_swap ?m (load_swap ?m (backend_load ?m (backend_load ?m ?s1)))) = Some ?m
      \<and> nd_resident (load_swap ?m (load_swap ?m (backend_load ?m (backend_load ?m ?s1)))) = {}
      \<and> lr_reason (fst (load ?m [] (load_swap ?m (load_swap ?m (backend_load ?m (backend_load ?m ?s1)))))) = ''already_resident''"
    by code_simp
  ultimately show ?thesis by blast
qed


section \<open>One caller\<close>

text \<open>The calls \<open>load\<close> and \<open>generate\<close> of a lone thread are runs of its sections.\<close>

lemma alone_inner: "inner_step s p s' p' \<Longrightarrow> node_step\<^sup>*\<^sup>* (s', [p']) y \<Longrightarrow> node_step\<^sup>*\<^sup>* (s, [p]) y"
  using pool_inner[of 0 "[p]" s s' p'] by (auto intro: converse_rtranclp_into_rtranclp)

lemma alone_outer: "outer_step s p s' p' \<Longrightarrow> node_step\<^sup>*\<^sup>* (s', [p']) y \<Longrightarrow> node_step\<^sup>*\<^sup>* (s, [p]) y"
  using pool_outer[of 0 "[p]" s s' p'] by (auto intro: converse_rtranclp_into_rtranclp)

lemma load_run:
  assumes "node_step\<^sup>*\<^sup>* (snd (load m reason s), [after_load g]) y"
  shows "node_step\<^sup>*\<^sup>* (s, [CallLoad m g]) y"
proof (cases "load_check m s")
  case (Pair a s1)
  show ?thesis
  proof (cases a)
    case None
    with Pair have "node_step\<^sup>*\<^sup>* (load_swap m (backend_load m s1), [after_load g]) y"
      using assms by (simp add: load_def)
    then show ?thesis using Pair None by (blast intro: alone_inner load_begun load_backend load_swapped)
  next
    case (Some r)
    with Pair have "node_step\<^sup>*\<^sup>* (s1, [after_load g]) y" using assms by (simp add: load_def)
    then show ?thesis using Pair Some by (blast intro: alone_inner load_answered)
  qed
qed

lemma slot_cycle:
  assumes "slot_acquire (gen_enqueue s) = Some s2" and "slot_release (gen_finish (gen_admit s2)) = Some s4"
  shows "node_step\<^sup>*\<^sup>* (s, [Enqueue]) (s4, [Idle])"
  by (rule alone_inner[OF enqueued], rule alone_inner[OF slot_acquired[OF assms(1)]], rule alone_inner[OF admitted],
      rule alone_inner[OF generated], rule alone_inner[OF slot_released[OF assms(2)]]) simp

lemma slot_cycle_state:
  assumes "0 < nd_slots s" and "nd_slots s \<le> nd_max_active s"
  obtains s2 where "slot_acquire (gen_enqueue s) = Some s2" and "slot_release (gen_finish (gen_admit s2)) = Some s"
  using assms by (simp add: node_defs)

lemma load_loads: "find_model s m \<noteq> None \<Longrightarrow> nd_loaded (snd (load m reason s)) = Some m"
  by (auto simp: load_def load_check_def load_swap_def split: option.splits)

definition switched :: "generate_request \<Rightarrow> node \<Rightarrow> node" where
  "switched req s = (if nd_loaded s \<noteq> Some (gr_model_id req)
    then snd (load (gr_model_id req) ''on_demand_for_generate'' s) else s)"

lemma generate_run: "node_step\<^sup>*\<^sup>* (switched req s, [Enqueue]) y \<Longrightarrow> node_step\<^sup>*\<^sup>* (s, [Idle]) y"
proof (cases "nd_loaded s = Some (gr_model_id req)")
  case False
  assume "node_step\<^sup>*\<^sup>* (switched req s, [Enqueue]) y"
  with False have "node_step\<^sup>*\<^sup>* (s, [CallLoad (gr_model_id req) True]) y"
    by (intro load_run[where reason = "''on_demand_for_generate''"]) (simp add: switched_def after_load_def)
  then show ?thesis using alone_outer[OF call_generate_switch[OF False]] by blast
qed (auto simp: switched_def intro: alone_outer call_generate)

text \<open>
  A node with one caller always serves it: a generation returns what the backend answers or
  raises, with the counters and slots as before, the requested model resident when it is in the
  inventory and the resident model unchanged when it is not; and its effect on the node is a run
  of the sections of the thread.
\<close>
theorem generate_serial:
  assumes "node_reachable cards default_model max_active 1 (s, [Idle])" and "0 < max_active"
  shows "\<exists>s'. generate backend req s = Some (backend req, s')
    \<and> node_reachable cards default_model max_active 1 (s', [Idle])
    \<and> nd_active s' = 0 \<and> nd_waiting s' = 0 \<and> nd_slots s' = max_active
    \<and> nd_loaded s' = (if find_model s (gr_model_id req) = None then nd_loaded s else Some (gr_model_id req))"
proof -
  let ?s = "switched req s"
  have inv: "node_inv max_active 1 (s, [Idle])" using assms(1) by (rule node_inv_reachable)
  have zero: "nd_active s = 0" "nd_waiting s = 0" "nd_slots s = max_active" "nd_max_active s = max_active"
    using node_inv_slots[OF inv] inv by (auto simp: weight_defs node_inv_def)
  then have same: "nd_active ?s = 0" "nd_waiting ?s = 0" "nd_slots ?s = max_active" "nd_max_active ?s = max_active"
    by (simp_all add: switched_def)
  then obtain s2 where s2: "slot_acquire (gen_enqueue ?s) = Some s2" "slot_release (gen_finish (gen_admit s2)) = Some ?s"
    using slot_cycle_state[of ?s] assms(2) by auto
  have "generate backend req s = Some (backend req, ?s)"
    using s2 by (simp add: generate_def switched_def[symmetric] Let_def)
  moreover have "node_reachable cards default_model max_active 1 (?s, [Idle])"
    using assms(1) generate_run[OF slot_cycle[OF s2]] unfolding node_reachable_def by (rule rtranclp_trans)
  moreover have "nd_loaded ?s = (if find_model s (gr_model_id req) = None then nd_loaded s else Some (gr_model_id req))"
    using load_loads[of s "gr_model_id req"]
    by (auto simp: switched_def load_def load_check_def)
  ultimately show ?thesis using same by blast
qed

section \<open>Concrete runs\<close>

text \<open>A node with one slot, where a generation runs and a second call waits.\<close>

definition demo_node :: node where
  "demo_node = new_node DEFAULT_INVENTORY ''qwen3.6-35b-a3b'' 1"

definition busy_node :: node where
  "busy_node = demo_node\<lparr>nd_slots := 0, nd_waiting := 1, nd_active := 1\<rparr>"

lemma demo_node_loaded: "nd_loaded demo_node = Some ''qwen3.6-35b-a3b''"
  by code_simp

lemma busy_node_reachable:
  "node_reachable DEFAULT_INVENTORY ''qwen3.6-35b-a3b'' 1 2 (busy_node, [Running, Queued])"
proof -
  note rtranclp.rtrancl_into_rtrancl [trans]
  note call = call_generate[OF demo_node_loaded]
  have "node_step\<^sup>*\<^sup>* (demo_node, [Idle, Idle]) (demo_node, [Enqueue, Idle])"
    using pool_outer[of 0 "[Idle, Idle]"] call by (simp add: r_into_rtranclp)
  also have "node_step \<dots> (demo_node, [Enqueue, Enqueue])" using pool_outer[of 1 "[Enqueue, Idle]"] call by simp
  also have "node_step \<dots> (gen_enqueue demo_node, [Queued, Enqueue])"
    using pool_inner[of 0 "[Enqueue, Enqueue]"] enqueued by simp
  also have "node_step \<dots> (gen_enqueue (gen_enqueue demo_node), [Queued, Queued])"
    using pool_inner[of 1 "[Queued, Enqueue]"] enqueued by simp
  also have "node_step \<dots> ((gen_enqueue (gen_enqueue demo_node))\<lparr>nd_slots := 0\<rparr>, [Acquired, Queued])"
    using pool_inner[of 0 "[Queued, Queued]"] slot_acquired[of "gen_enqueue (gen_enqueue demo_node)"]
    by (simp add: slot_acquire_def gen_enqueue_def demo_node_def)
  also have "node_step \<dots> (gen_admit ((gen_enqueue (gen_enqueue demo_node))\<lparr>nd_slots := 0\<rparr>), [Running, Queued])"
    using pool_inner[of 0 "[Acquired, Queued]"] admitted by simp
  finally show ?thesis
    by (simp add: node_reachable_def busy_node_def gen_admit_def gen_enqueue_def demo_node_def numeral_2_eq_2)
qed

theorem gpu_never_oversubscribed_witness: "nd_active busy_node = 1 \<and> nd_waiting busy_node = 1 \<and> nd_slots busy_node = 0"
  using gpu_never_oversubscribed[OF busy_node_reachable] by simp

theorem calls_drain_witness: "\<exists>y. finishing_step (busy_node, [Running, Queued]) y"
  using calls_drain[OF busy_node_reachable, of 0 busy_node "[Running, Queued]"] by simp

theorem resident_models_tracked_witness: "nd_resident busy_node \<subseteq> {''qwen3.6-35b-a3b''}"
proof -
  have "named_models DEFAULT_INVENTORY" by code_simp
  from resident_models_tracked[OF busy_node_reachable this] show ?thesis
    by (simp add: busy_node_def demo_node_loaded)
qed

definition demo_request :: generate_request where
  "demo_request = \<lparr>gr_request_id = ''r1'', gr_task_id = ''t1'', gr_model_id = ''qwen3.6-27b'',
    gr_messages = [(''user'', ''hello'')], gr_max_output_tokens = 100, gr_temperature = 0, gr_priority = PNormal\<rparr>"

theorem generate_serial_witness:
  "\<exists>s'. generate (\<lambda>r. Inr (stub_generate r)) demo_request demo_node = Some (Inr (stub_generate demo_request), s')
    \<and> nd_loaded s' = Some ''qwen3.6-27b''"
proof -
  have "node_reachable DEFAULT_INVENTORY ''qwen3.6-35b-a3b'' 1 1 (demo_node, [Idle])"
    by (simp add: node_reachable_def demo_node_def)
  moreover have "find_model demo_node (gr_model_id demo_request) \<noteq> None" by code_simp
  moreover have "gr_model_id demo_request = ''qwen3.6-27b''" by (simp add: demo_request_def)
  ultimately show ?thesis
    using generate_serial[of DEFAULT_INVENTORY "''qwen3.6-35b-a3b''" 1 demo_node "\<lambda>r. Inr (stub_generate r)" demo_request]
    by auto
qed

end
