(* ===== verification/Safety.thy ===== *)
theory Safety
  imports Prelude "HOL-Library.Char_ord" "HOL-Library.List_Lexorder" "HOL-Library.Product_Lexorder"
begin

text \<open>
  The safety scanner (\<^verbatim>\<open>safety/\<close>): findings of the detection engines, the policies of the surfaces,
  the registry, aggregation, decision and redaction, for one text and for batches. The engines
  themselves (regular expressions, external tools, models) are parameters: whether an engine can
  be built, is available, and what its scan returns or raises.
\<close>

section \<open>Vocabulary\<close>

datatype safety_decision = Allow | Warn | Redact | Quarantine | Block

datatype risk_level = RiskNone | RiskLow | RiskMedium | RiskHigh

datatype category = Secret | Pii | PromptInjection | ToolInstruction | Encoding | ScannerError

datatype capability = Secrets | PiiData | Injections | ToolControl | EncodedContent | RepositorySecrets

datatype engine_status = EngineOk | Unavailable | Failed | Skipped | Timeout

definition POLICY_VERSION :: string where
  "POLICY_VERSION = ''1''"

fun severity_of_decision :: "safety_decision \<Rightarrow> nat" where
  "severity_of_decision Allow = 0"
| "severity_of_decision Warn = 1"
| "severity_of_decision Redact = 2"
| "severity_of_decision Quarantine = 3"
| "severity_of_decision Block = 4"

fun severity_of_risk :: "risk_level \<Rightarrow> nat" where
  "severity_of_risk RiskNone = 0"
| "severity_of_risk RiskLow = 1"
| "severity_of_risk RiskMedium = 2"
| "severity_of_risk RiskHigh = 3"

text \<open>Python's \<open>max\<close> with a key and a default: the first of the largest.\<close>

definition py_max_by :: "('a \<Rightarrow> nat) \<Rightarrow> 'a \<Rightarrow> 'a list \<Rightarrow> 'a" where
  "py_max_by k d xs = (case xs of [] \<Rightarrow> d | x # ys \<Rightarrow> foldl (\<lambda>m y. if k m < k y then y else m) x ys)"

definition strongest :: "safety_decision list \<Rightarrow> safety_decision" where
  "strongest = py_max_by severity_of_decision Allow"

definition highest :: "risk_level list \<Rightarrow> risk_level" where
  "highest = py_max_by severity_of_risk RiskNone"

fun category_value :: "category \<Rightarrow> string" where
  "category_value Secret = ''secret''"
| "category_value Pii = ''pii''"
| "category_value PromptInjection = ''prompt_injection''"
| "category_value ToolInstruction = ''tool_instruction''"
| "category_value Encoding = ''encoding''"
| "category_value ScannerError = ''scanner_error''"

fun CATEGORY_OF_CAPABILITY :: "capability \<Rightarrow> category" where
  "CATEGORY_OF_CAPABILITY Secrets = Secret"
| "CATEGORY_OF_CAPABILITY RepositorySecrets = Secret"
| "CATEGORY_OF_CAPABILITY PiiData = Pii"
| "CATEGORY_OF_CAPABILITY Injections = PromptInjection"
| "CATEGORY_OF_CAPABILITY ToolControl = ToolInstruction"
| "CATEGORY_OF_CAPABILITY EncodedContent = Encoding"

section \<open>Findings and results\<close>

text \<open>Of the metadata of a finding the scanner reads the key \<open>also_detected_by\<close>; the rest is carried along.\<close>

record finding =
  f_rule_id :: string
  f_category :: category
  f_risk_level :: risk_level
  f_message :: string
  f_start :: int
  f_end :: int
  f_engine :: string
  f_engine_version :: string
  f_confidence :: real
  f_also_detected_by :: "(string \<times> string \<times> real) list"
  f_metadata :: "(string \<times> string) list"

definition has_span :: "finding \<Rightarrow> bool" where
  "has_span f \<longleftrightarrow> f_end f > f_start f"

record engine_outcome =
  eo_name :: string
  eo_status :: engine_status
  eo_required :: bool
  eo_findings :: "finding list"
  eo_error :: string
  eo_version :: string

definition looked :: "engine_outcome \<Rightarrow> bool" where
  "looked e \<longleftrightarrow> eo_status e = EngineOk"

definition broke :: "engine_outcome \<Rightarrow> bool" where
  "broke e \<longleftrightarrow> eo_status e = Failed \<or> eo_status e = Timeout"

record safety_result =
  sr_decision :: safety_decision
  sr_risk_level :: risk_level
  sr_findings :: "finding list"
  sr_redacted_content :: string
  sr_labels :: "string list"
  sr_warnings :: "string list"
  sr_policy_version :: string
  sr_scanner_failed :: bool
  sr_engines :: "engine_outcome list"

definition engines_run :: "safety_result \<Rightarrow> string list" where
  "engines_run r = map eo_name (filter looked (sr_engines r))"

definition engines_unavailable :: "safety_result \<Rightarrow> string list" where
  "engines_unavailable r = map eo_name (filter (\<lambda>e. eo_status e = Unavailable) (sr_engines r))"

definition engines_failed :: "safety_result \<Rightarrow> string list" where
  "engines_failed r = map eo_name (filter broke (sr_engines r))"

definition redacted :: "safety_result \<Rightarrow> bool" where
  "redacted r \<longleftrightarrow> (\<exists>f \<in> set (sr_findings r). f_category f = Secret) \<and> sr_decision r = Redact"

definition withheld :: "safety_result \<Rightarrow> bool" where
  "withheld r \<longleftrightarrow> sr_decision r = Quarantine \<or> sr_decision r = Block"

section \<open>Policies\<close>

type_synonym rules = "((category \<times> risk_level) \<times> safety_decision) list"

record policy =
  po_name :: string
  po_rules :: rules
  po_on_scanner_error :: safety_decision
  po_on_optional_engine_error :: safety_decision
  po_capabilities :: "capability list"

definition ARTIFACT_INGEST :: string where "ARTIFACT_INGEST = ''artifact_ingest''"
definition CONTEXT_OUTPUT :: string where "CONTEXT_OUTPUT = ''context_output''"
definition REPOSITORY_SCAN :: string where "REPOSITORY_SCAN = ''repository_scan''"

definition ARTIFACT_RULES :: rules where
  "ARTIFACT_RULES =
    [((Secret, RiskHigh), Redact), ((Secret, RiskMedium), Redact),
     ((Pii, RiskHigh), Redact), ((Pii, RiskMedium), Redact), ((Pii, RiskLow), Warn),
     ((PromptInjection, RiskHigh), Warn), ((PromptInjection, RiskMedium), Warn),
     ((ToolInstruction, RiskHigh), Quarantine), ((ToolInstruction, RiskMedium), Warn),
     ((Encoding, RiskLow), Warn)]"

definition CONTEXT_RULES :: rules where
  "CONTEXT_RULES =
    [((Secret, RiskHigh), Redact), ((Secret, RiskMedium), Redact),
     ((Pii, RiskHigh), Redact), ((Pii, RiskMedium), Redact), ((Pii, RiskLow), Warn),
     ((PromptInjection, RiskHigh), Quarantine), ((PromptInjection, RiskMedium), Warn),
     ((ToolInstruction, RiskHigh), Quarantine), ((ToolInstruction, RiskMedium), Warn),
     ((Encoding, RiskLow), Warn)]"

definition REPOSITORY_RULES :: rules where
  "REPOSITORY_RULES = [((Secret, RiskHigh), Block), ((Secret, RiskMedium), Warn)]"

definition ARTIFACT_CAPABILITIES :: "capability list" where
  "ARTIFACT_CAPABILITIES = [Secrets, RepositorySecrets, PiiData, Injections, ToolControl, EncodedContent]"

definition CONTEXT_CAPABILITIES :: "capability list" where
  "CONTEXT_CAPABILITIES = [Secrets, PiiData, Injections, ToolControl, EncodedContent]"

definition POLICIES :: "(string \<times> policy) list" where
  "POLICIES =
    [(ARTIFACT_INGEST, \<lparr>po_name = ARTIFACT_INGEST, po_rules = ARTIFACT_RULES, po_on_scanner_error = Quarantine,
        po_on_optional_engine_error = Warn, po_capabilities = ARTIFACT_CAPABILITIES\<rparr>),
     (CONTEXT_OUTPUT, \<lparr>po_name = CONTEXT_OUTPUT, po_rules = CONTEXT_RULES, po_on_scanner_error = Quarantine,
        po_on_optional_engine_error = Warn, po_capabilities = CONTEXT_CAPABILITIES\<rparr>),
     (REPOSITORY_SCAN, \<lparr>po_name = REPOSITORY_SCAN, po_rules = REPOSITORY_RULES, po_on_scanner_error = Block,
        po_on_optional_engine_error = Warn, po_capabilities = [RepositorySecrets]\<rparr>)]"

definition policy_named :: "string \<Rightarrow> exc + policy" where
  "policy_named name = (case map_of POLICIES name of
     None \<Rightarrow> Inl (ValueError ''unknown safety policy'') | Some p \<Rightarrow> Inr p)"

definition rule_for :: "policy \<Rightarrow> finding \<Rightarrow> safety_decision option" where
  "rule_for pol f = map_of (po_rules pol) (f_category f, f_risk_level f)"

section \<open>Engines, configuration and registry\<close>

text \<open>What the scan of an engine raises: a \<open>TimeoutError\<close> or any other exception, with its message.\<close>

datatype scan_exc = TimeoutError string | OtherError string

record scan_request =
  sq_text :: string
  sq_surface :: string
  sq_path :: "string option"

record engine =
  eg_version :: string
  eg_capabilities :: "capability list"
  eg_available :: "string + bool"
  eg_scan :: "scan_request \<Rightarrow> scan_exc + finding list"

record engine_config =
  ec_enabled :: bool
  ec_required :: bool
  ec_options :: "(string \<times> string) list"

definition no_engine_config :: engine_config where
  "no_engine_config = \<lparr>ec_enabled = False, ec_required = False, ec_options = []\<rparr>"

definition DEFAULT_ENGINES :: "(string \<times> engine_config) list" where
  "DEFAULT_ENGINES = [(''baseline'', \<lparr>ec_enabled = True, ec_required = True, ec_options = []\<rparr>)]"

record safety_config =
  sc_enabled :: bool
  sc_engines :: "(string \<times> engine_config) list"
  sc_surfaces :: "(string \<times> string list) list"

definition default_config :: safety_config where
  "default_config = \<lparr>sc_enabled = True, sc_engines = DEFAULT_ENGINES, sc_surfaces = []\<rparr>"

definition config_engine :: "safety_config \<Rightarrow> string \<Rightarrow> engine_config" where
  "config_engine cfg name = (case map_of (sc_engines cfg) name of None \<Rightarrow> no_engine_config | Some c \<Rightarrow> c)"

definition enabled_engines :: "safety_config \<Rightarrow> string list" where
  "enabled_engines cfg = map fst (filter (\<lambda>(n, c). ec_enabled c) (sc_engines cfg))"

definition KNOWN_ENGINES :: "string list" where
  "KNOWN_ENGINES = [''baseline'', ''detect_secrets'', ''trufflehog'', ''gitleaks'', ''presidio'', ''gliner'', ''prompt_guard'']"

text \<open>
  The constructor of a known engine returns it or raises a \<open>ValueError\<close> (first component) or
  another exception; only a \<open>ValueError\<close> and an unknown name stop the registry.
\<close>

type_synonym constructor = "string \<Rightarrow> (string \<times> string) list \<Rightarrow> (bool \<times> string) + engine"

definition build_engine :: "constructor \<Rightarrow> string \<Rightarrow> (string \<times> string) list \<Rightarrow> (bool \<times> string) + engine" where
  "build_engine loader name options =
    (if name \<in> set KNOWN_ENGINES then loader name options else Inl (True, ''unknown safety engine''))"

fun build_all :: "constructor \<Rightarrow> safety_config \<Rightarrow> string list \<Rightarrow> exc + (string \<times> engine) list" where
  "build_all loader cfg [] = Inr []"
| "build_all loader cfg (name # names) =
    (case build_engine loader name (ec_options (config_engine cfg name)) of
       Inl (True, msg) \<Rightarrow> Inl (ValueError msg)
     | Inl (False, msg) \<Rightarrow> build_all loader cfg names
     | Inr e \<Rightarrow> (case build_all loader cfg names of Inl x \<Rightarrow> Inl x | Inr es \<Rightarrow> Inr ((name, e) # es)))"

record pipeline =
  pl_config :: safety_config
  pl_engines :: "(string \<times> engine) list"

definition new_pipeline :: "constructor \<Rightarrow> safety_config \<Rightarrow> exc + pipeline" where
  "new_pipeline loader cfg =
    (case build_all loader cfg (enabled_engines cfg) of
       Inl x \<Rightarrow> Inl x | Inr es \<Rightarrow> Inr \<lparr>pl_config = cfg, pl_engines = es\<rparr>)"

definition registry_names :: "pipeline \<Rightarrow> string list" where
  "registry_names pl = sort (map fst (pl_engines pl))"

definition registry_required :: "pipeline \<Rightarrow> string \<Rightarrow> bool" where
  "registry_required pl name = ec_required (config_engine (pl_config pl) name)"

definition engines_with_capability :: "pipeline \<Rightarrow> capability \<Rightarrow> engine list" where
  "engines_with_capability pl c = map snd (filter (\<lambda>(n, e). c \<in> set (eg_capabilities e)) (sort_key fst (pl_engines pl)))"

record engine_row =
  er_engine :: string
  er_enabled :: bool
  er_required :: bool
  er_constructed :: bool
  er_available :: bool
  er_version :: string
  er_capabilities :: "capability list"

definition registry_status :: "pipeline \<Rightarrow> engine_row list" where
  "registry_status pl =
    map (\<lambda>name. let spec = config_engine (pl_config pl) name
        in case map_of (pl_engines pl) name of
             None \<Rightarrow> \<lparr>er_engine = name, er_enabled = ec_enabled spec, er_required = ec_required spec,
               er_constructed = False, er_available = False, er_version = [], er_capabilities = []\<rparr>
           | Some e \<Rightarrow> \<lparr>er_engine = name, er_enabled = ec_enabled spec, er_required = ec_required spec,
               er_constructed = True, er_available = (eg_available e = Inr True), er_version = eg_version e,
               er_capabilities = eg_capabilities e\<rparr>)
      (sort (remdups (map fst (sc_engines (pl_config pl)) @ map fst (pl_engines pl))))"

section \<open>Aggregation\<close>

definition overlaps :: "finding \<Rightarrow> finding \<Rightarrow> bool" where
  "overlaps a b \<longleftrightarrow> has_span a \<and> has_span b \<and> f_start a < f_end b \<and> f_start b < f_end a"

definition absorb :: "finding \<Rightarrow> finding \<Rightarrow> finding" where
  "absorb kept other =
    (let entry = (f_engine other, f_rule_id other, f_confidence other);
         attribution = (if entry \<notin> set (f_also_detected_by kept) \<and> f_engine other \<noteq> f_engine kept
                        then f_also_detected_by kept @ [entry] else f_also_detected_by kept)
     in kept\<lparr>f_risk_level := (if severity_of_risk (f_risk_level other) \<le> severity_of_risk (f_risk_level kept)
                              then f_risk_level kept else f_risk_level other),
             f_start := min (f_start kept) (f_start other),
             f_end := max (f_end kept) (f_end other),
             f_confidence := max (f_confidence kept) (f_confidence other),
             f_also_detected_by := attribution\<rparr>)"

fun absorb_in :: "finding list \<Rightarrow> finding \<Rightarrow> finding list" where
  "absorb_in [] f = [f]"
| "absorb_in (kept # ks) f =
    (if f_category kept = f_category f \<and> overlaps kept f then absorb kept f # ks else kept # absorb_in ks f)"

definition aggregate_key :: "finding \<Rightarrow> string \<times> int \<times> int \<times> int \<times> real" where
  "aggregate_key f = (category_value (f_category f), f_start f, - (f_end f - f_start f),
     - int (severity_of_risk (f_risk_level f)), - f_confidence f)"

definition aggregate :: "finding list \<Rightarrow> finding list" where
  "aggregate findings = foldl absorb_in [] (sort_key aggregate_key findings)"

section \<open>Redaction\<close>

definition marker :: "finding \<Rightarrow> string" where
  "marker f = ''[REDACTED:'' @ category_value (f_category f) @ '':'' @ f_rule_id f @ '']''"

definition merge_span :: "(int \<times> int \<times> finding) list \<Rightarrow> finding \<Rightarrow> (int \<times> int \<times> finding) list" where
  "merge_span merged f =
    (if f_end f \<le> f_start f then merged
     else if merged \<noteq> [] \<and> f_start f < fst (snd (last merged))
     then (case last merged of (s, e, first) \<Rightarrow> butlast merged @ [(s, max e (f_end f), first)])
     else merged @ [(f_start f, f_end f, f)])"

definition merge_spans :: "finding list \<Rightarrow> (int \<times> int \<times> finding) list" where
  "merge_spans findings = foldl merge_span [] (sort_key (\<lambda>f. (f_start f, - f_end f)) findings)"

text \<open>The pieces the rebuilt text is joined from: slices of the text and markers.\<close>

fun redact_pieces :: "string \<Rightarrow> int \<Rightarrow> (int \<times> int \<times> finding) list \<Rightarrow> (string + finding) list" where
  "redact_pieces text cursor [] = [Inl (py_slice text cursor (int (length text)))]"
| "redact_pieces text cursor ((s, e, f) # spans) =
    (if s < cursor then redact_pieces text cursor spans
     else Inl (py_slice text cursor s) # Inr f # redact_pieces text e spans)"

definition render :: "string + finding \<Rightarrow> string" where
  "render p = (case p of Inl t \<Rightarrow> t | Inr f \<Rightarrow> marker f)"

definition safety_redact :: "string \<Rightarrow> finding list \<Rightarrow> string" where
  "safety_redact text findings =
    (if findings = [] then text else concat (map render (redact_pieces text 0 (merge_spans findings))))"

section \<open>Scanning\<close>

definition engines_for :: "pipeline \<Rightarrow> policy \<Rightarrow> (string \<times> engine) list" where
  "engines_for pl pol =
    (case map_of (sc_surfaces (pl_config pl)) (po_name pol) of
       Some names \<Rightarrow> List.map_filter (\<lambda>n. map_option (Pair n) (map_of (pl_engines pl) n)) names
     | None \<Rightarrow> filter (\<lambda>(n, e). set (eg_capabilities e) \<inter> set (po_capabilities pol) \<noteq> {})
         (List.map_filter (\<lambda>n. map_option (Pair n) (map_of (pl_engines pl) n)) (registry_names pl)))"

definition run_engine :: "pipeline \<Rightarrow> scan_request \<Rightarrow> string \<times> engine \<Rightarrow> engine_outcome" where
  "run_engine pl req ne =
    (let (name, e) = ne;
         blank = \<lparr>eo_name = name, eo_status = EngineOk, eo_required = registry_required pl name,
                  eo_findings = [], eo_error = [], eo_version = eg_version e\<rparr>
     in case eg_available e of
          Inl msg \<Rightarrow> blank\<lparr>eo_status := Failed, eo_error := ''available() raised: '' @ msg\<rparr>
        | Inr False \<Rightarrow> blank\<lparr>eo_status := Unavailable\<rparr>
        | Inr True \<Rightarrow> (case eg_scan e req of
            Inl (TimeoutError msg) \<Rightarrow> blank\<lparr>eo_status := Timeout, eo_error := msg\<rparr>
          | Inl (OtherError msg) \<Rightarrow> blank\<lparr>eo_status := Failed, eo_error := msg\<rparr>
          | Inr fs \<Rightarrow> blank\<lparr>eo_findings := fs\<rparr>))"

definition quoted :: "string \<Rightarrow> string" where
  "quoted s = [CHR 39] @ s @ [CHR 39]"

text \<open>What one finding and one outcome contribute: a decision, if any, and a warning, if any.\<close>

definition decide_finding :: "policy \<Rightarrow> finding \<Rightarrow> safety_decision list \<times> string list" where
  "decide_finding pol f =
    (if f_category f = ScannerError then ([], [])
     else let d = (case rule_for pol f of None \<Rightarrow> Allow | Some d \<Rightarrow> d)
          in if d = Redact \<and> \<not> has_span f
             then ([Quarantine], [''safety engine '' @ quoted (f_engine f) @ '' reported '' @ f_rule_id f
               @ '' without a location; content cannot be redacted and was withheld.''])
             else ([d], []))"

definition decide_outcome :: "policy \<Rightarrow> engine_outcome \<Rightarrow> safety_decision list \<times> string list \<times> bool" where
  "decide_outcome pol e =
    (if broke e then
       ([if eo_required e then po_on_scanner_error pol else po_on_optional_engine_error pol],
        [''safety engine '' @ quoted (eo_name e) @ '' '' @ (if eo_status e = Timeout then ''timed out'' else ''failed'')
          @ (if eo_error e \<noteq> [] then '': '' @ eo_error e else []) @ ''; content was not fully scanned.''], True)
     else if eo_status e = Unavailable then
       (if eo_required e then [po_on_scanner_error pol] else [],
        [''safety engine '' @ quoted (eo_name e)
          @ '' is enabled but unavailable (not installed, or its model or binary is missing).''], eo_required e)
     else ([], [], False))"

definition decide :: "finding list \<Rightarrow> engine_outcome list \<Rightarrow> policy \<Rightarrow> safety_decision \<times> risk_level \<times> string list \<times> bool" where
  "decide findings outcomes pol =
    (strongest (concat (map (fst \<circ> decide_finding pol) findings) @ concat (map (fst \<circ> decide_outcome pol) outcomes)),
     highest (map f_risk_level findings),
     concat (map (snd \<circ> decide_finding pol) findings) @ concat (map (fst \<circ> snd \<circ> decide_outcome pol) outcomes),
     (\<exists>e \<in> set outcomes. snd (snd (decide_outcome pol e))))"

definition to_redact :: "policy \<Rightarrow> finding list \<Rightarrow> finding list" where
  "to_redact pol findings =
    filter (\<lambda>f. has_span f \<and> f_category f \<noteq> ScannerError \<and> rule_for pol f = Some Redact) findings"

definition redact_body :: "string \<Rightarrow> finding list \<Rightarrow> policy \<Rightarrow> string" where
  "redact_body text findings pol =
    (if to_redact pol findings \<noteq> [] then safety_redact text (to_redact pol findings) else text)"

text \<open>The keys of a dictionary filled with \<open>setdefault\<close>: first occurrences, in order.\<close>

definition first_seen :: "'a list \<Rightarrow> 'a list" where
  "first_seen xs = rev (remdups (rev xs))"

definition labels :: "finding list \<Rightarrow> string list" where
  "labels findings = first_seen (map (\<lambda>f. ''safety:'' @ category_value (f_category f)) findings
     @ map (\<lambda>f. ''engine:'' @ f_engine f) findings)"

definition scan_with :: "pipeline \<Rightarrow> policy \<Rightarrow> scan_request \<Rightarrow> safety_result" where
  "scan_with pl pol req =
    (let text = sq_text req;
         outcomes = map (run_engine pl req) (engines_for pl pol);
         findings = aggregate (concat (map eo_findings outcomes));
         (d, risk, warnings, failed) = decide findings outcomes pol
     in if findings = [] \<and> warnings = []
        then \<lparr>sr_decision = Allow, sr_risk_level = RiskNone, sr_findings = [], sr_redacted_content = text,
              sr_labels = [], sr_warnings = [], sr_policy_version = POLICY_VERSION, sr_scanner_failed = False,
              sr_engines = outcomes\<rparr>
        else \<lparr>sr_decision = d, sr_risk_level = risk, sr_findings = findings,
              sr_redacted_content = redact_body text findings pol, sr_labels = labels findings,
              sr_warnings = warnings, sr_policy_version = POLICY_VERSION, sr_scanner_failed = failed,
              sr_engines = outcomes\<rparr>)"

definition scan_text :: "pipeline \<Rightarrow> string \<Rightarrow> string \<Rightarrow> string option \<Rightarrow> string option \<Rightarrow> exc + safety_result" where
  "scan_text pl content surface pol_name path =
    (case policy_named (str_or pol_name surface) of
       Inl x \<Rightarrow> Inl x
     | Inr pol \<Rightarrow> Inr (scan_with pl pol \<lparr>sq_text = content, sq_surface = surface, sq_path = path\<rparr>))"

section \<open>Batches\<close>

text \<open>The results by the id of the item, the last one of an id replacing the others in its place.\<close>

type_synonym batch = "(string \<times> safety_result) list"

fun scan_items :: "pipeline \<Rightarrow> (string \<times> string) list \<Rightarrow> string \<Rightarrow> batch \<Rightarrow> exc + batch" where
  "scan_items pl [] pol_name b = Inr b"
| "scan_items pl ((i, text) # items) pol_name b =
    (case scan_text pl text pol_name None None of
       Inl x \<Rightarrow> Inl x
     | Inr r \<Rightarrow> scan_items pl items pol_name (AList.update i r b))"

definition decision_for :: "batch \<Rightarrow> string \<Rightarrow> safety_decision" where
  "decision_for b i = (case map_of b i of None \<Rightarrow> Allow | Some r \<Rightarrow> sr_decision r)"

definition redacted_ids :: "batch \<Rightarrow> string list" where
  "redacted_ids b = map fst (filter (redacted \<circ> snd) b)"

definition withheld_ids :: "batch \<Rightarrow> string list" where
  "withheld_ids b = map fst (filter (withheld \<circ> snd) b)"

definition batch_warnings :: "batch \<Rightarrow> string list" where
  "batch_warnings b =
    (let n = length (redacted_ids b); w = length (withheld_ids b); k = length (filter (sr_scanner_failed \<circ> snd) b)
     in (if n > 0 then [py_str_nat n @ '' context item'' @ (if n > 1 then ''s were'' else '' was'')
           @ '' redacted by AgentConnect safety scanning.''] else [])
      @ (if w > 0 then [py_str_nat w @ '' context item'' @ (if w > 1 then ''s were'' else '' was'')
           @ '' withheld by AgentConnect safety scanning.''] else [])
      @ (if k > 0 then [py_str_nat k @ '' context item'' @ (if k > 1 then ''s'' else []) @ '' could not be scanned and ''
           @ (if k > 1 then ''were'' else ''was'') @ '' withheld; safety scanning failed.''] else []))"

end
