(* ===== verification/Context.thy ===== *)
theory Context
  imports Core_Models Safety
begin

text \<open>
  The memory boundary (\<^verbatim>\<open>core/memory.py\<close>) and the context builder (\<^verbatim>\<open>core/context.py\<close>): labels of
  trust and provenance, visibility, the recall of the four adapters from the parsed answer of their
  backend, profiles and scopes, selection of backends, ranking, and the pack a manager or worker
  receives. The transports of the backends and the task detail of the ledger are parameters; so is
  the rendered handoff. What is sent to a backend is part of the result.
\<close>

section \<open>Items, requests and packs\<close>

definition LEDGER :: string where "LEDGER = ''ledger''"
definition TRUSTED_AUTHORITY :: string where "TRUSTED_AUTHORITY = ''trusted_authority''"
definition BROAD_RETRIEVAL :: string where "BROAD_RETRIEVAL = ''broad_retrieval''"
definition TEMPORAL_GRAPH :: string where "TEMPORAL_GRAPH = ''temporal_graph''"

definition TRUSTED_STATUSES :: "string list" where
  "TRUSTED_STATUSES = [''promoted'']"

definition DEFAULT_MAX_ITEMS :: int where
  "DEFAULT_MAX_ITEMS = 8"

definition TRUSTED_AUTHORITY_NAMES :: "string list" where
  "TRUSTED_AUTHORITY_NAMES = [''brainconnect'', ''wikibrain'']"

text \<open>The aliases of a backend, sorted.\<close>

definition backend_aliases :: "string \<Rightarrow> string list" where
  "backend_aliases name = (if name \<in> set TRUSTED_AUTHORITY_NAMES then TRUSTED_AUTHORITY_NAMES else [name])"

definition resolve_backend :: "(string \<times> 'a) list \<Rightarrow> string \<Rightarrow> 'a option" where
  "resolve_backend adapters name =
    (case map_of adapters name of
       Some a \<Rightarrow> Some a
     | None \<Rightarrow> (case find (\<lambda>a. a \<in> fst ` set adapters) (backend_aliases name) of
         None \<Rightarrow> None | Some a \<Rightarrow> map_of adapters a))"

text \<open>The metadata keys that the code reads or writes are fields; the others are carried along.\<close>

record item_meta =
  im_backend :: "string option"
  im_role :: "string option"
  im_trusted :: "bool option"
  im_authority_trusted :: "bool option"
  im_contradiction_status :: "string option"
  im_also_seen_in :: "string list"
  im_score :: "real option"
  im_kind :: "string option"
  im_safety_labels :: "string list option"
  im_other :: "(string \<times> string) list"

definition no_meta :: item_meta where
  "no_meta = \<lparr>im_backend = None, im_role = None, im_trusted = None, im_authority_trusted = None,
    im_contradiction_status = None, im_also_seen_in = [], im_score = None, im_kind = None,
    im_safety_labels = None, im_other = []\<rparr>"

type_synonym memory_scope = "string \<times> string"

record memory_item =
  mi_text :: string
  mi_status :: string
  mi_confidence :: string
  mi_source_id :: "string option"
  mi_source_url :: "string option"
  mi_scope :: "memory_scope option"
  mi_valid_from :: "string option"
  mi_valid_until :: "string option"
  mi_superseded_by :: "string option"
  mi_safety :: "string option"
  mi_meta :: item_meta
  mi_item_id :: "string option"

definition plain_item :: "string \<Rightarrow> string \<Rightarrow> string \<Rightarrow> string option \<Rightarrow> item_meta \<Rightarrow> memory_item" where
  "plain_item t st conf src md = \<lparr>mi_text = t, mi_status = st, mi_confidence = conf, mi_source_id = src,
    mi_source_url = None, mi_scope = None, mi_valid_from = None, mi_valid_until = None, mi_superseded_by = None,
    mi_safety = None, mi_meta = md, mi_item_id = None\<rparr>"

record recall_request =
  rr_query :: string
  rr_task_id :: "string option"
  rr_profile :: string
  rr_scopes :: "memory_scope list"
  rr_max_items :: int
  rr_trusted_only :: bool
  rr_include_pending :: bool
  rr_include_superseded :: bool

record recall_pack =
  rp_profile :: string
  rp_query :: string
  rp_items :: "memory_item list"
  rp_warnings :: "string list"
  rp_backend :: string

section \<open>Labels and visibility\<close>

definition label :: "memory_item \<Rightarrow> string \<Rightarrow> string \<Rightarrow> bool option \<Rightarrow> memory_item" where
  "label item backend role authority_trusted =
    (let md = mi_meta item;
         verdict = (case authority_trusted of None \<Rightarrow> im_authority_trusted md | Some b \<Rightarrow> Some b);
         trusted = (role \<in> {LEDGER, TRUSTED_AUTHORITY} \<and> mi_status item = ''promoted''
                    \<and> (case verdict of None \<Rightarrow> True | Some b \<Rightarrow> b))
     in item\<lparr>mi_meta := md\<lparr>im_backend := Some backend, im_role := Some role, im_authority_trusted := verdict,
                             im_trusted := Some trusted\<rparr>\<rparr>)"

definition authority_role :: "memory_item \<Rightarrow> bool" where
  "authority_role item \<longleftrightarrow> im_role (mi_meta item) = Some LEDGER \<or> im_role (mi_meta item) = Some TRUSTED_AUTHORITY"

definition is_trusted :: "memory_item \<Rightarrow> bool" where
  "is_trusted item \<longleftrightarrow> im_trusted (mi_meta item) = Some True"

definition is_disputed :: "memory_item \<Rightarrow> bool" where
  "is_disputed item \<longleftrightarrow> authority_role item \<and> mi_status item = ''promoted''
    \<and> im_contradiction_status (mi_meta item) = Some ''open''"

definition is_untrusted_authority_claim :: "memory_item \<Rightarrow> bool" where
  "is_untrusted_authority_claim item \<longleftrightarrow> authority_role item \<and> mi_status item = ''promoted'' \<and> \<not> is_trusted item"

definition visible_item :: "recall_request \<Rightarrow> memory_item \<Rightarrow> bool" where
  "visible_item req item \<longleftrightarrow>
    \<not> (mi_status item = ''superseded'' \<and> \<not> rr_include_superseded req)
    \<and> \<not> (mi_status item = ''pending'' \<and> \<not> rr_include_pending req)
    \<and> mi_status item \<notin> {''rejected'', ''archived'', ''contradicted''}
    \<and> \<not> (rr_trusted_only req \<and> is_untrusted_authority_claim item)
    \<and> \<not> (rr_trusted_only req \<and> mi_status item \<notin> set TRUSTED_STATUSES
         \<and> \<not> (mi_status item = ''pending'' \<and> rr_include_pending req
              \<or> mi_status item = ''superseded'' \<and> rr_include_superseded req))"

definition apply_visibility :: "memory_item list \<Rightarrow> recall_request \<Rightarrow> memory_item list" where
  "apply_visibility items req = take (nat (max 0 (rr_max_items req))) (filter (visible_item req) items)"

text \<open>The last warning ends after the words quoted here with a reminder not to rely on the claims.\<close>

definition label_disputed :: "memory_item list \<Rightarrow> nat \<Rightarrow> nat \<Rightarrow> string list" where
  "label_disputed items dropped_disputed dropped_untrusted =
    (let shown = length (filter is_disputed items)
     in (if dropped_disputed > 0 then [py_str_nat dropped_disputed
          @ '' promoted claim(s) withheld: the trusted authority marked them DISPUTED (open contradiction)''] else [])
      @ (if dropped_untrusted > 0 then [py_str_nat dropped_untrusted
          @ '' promoted claim(s) withheld: the trusted authority did not mark them trusted''] else [])
      @ (if shown > 0 then [py_str_nat shown
          @ '' promoted claim(s) are DISPUTED (open contradiction) and are NOT trusted''] else []))"

definition label_pending :: "memory_item list \<Rightarrow> string list" where
  "label_pending items =
    (let n = length (filter (\<lambda>i. mi_status i = ''pending'') items)
     in if n = 0 then [] else [py_str_nat n @ '' unpromoted (pending) memory item(s) included at explicit request''])"

section \<open>Adapters\<close>

text \<open>A backend: its name, what it is, and what a recall returns or raises.\<close>

record adapter =
  ad_backend_name :: string
  ad_role :: string
  ad_recall :: "recall_request \<Rightarrow> string + recall_pack"

text \<open>
  An item of the answer of the trusted authority; absent keys are \<open>None\<close>. \<open>rw_meta\<close> is its metadata with
  its tags, sources and validity among the keys that are carried along.
\<close>

record raw_claim =
  rw_id :: "string option"
  rw_text :: string
  rw_status :: "string option"
  rw_confidence :: "string option"
  rw_source_id :: "string option"
  rw_source_url :: "string option"
  rw_superseded_by :: "string option"
  rw_valid_from :: "string option"
  rw_valid_until :: "string option"
  rw_scope :: "memory_scope option"
  rw_safety :: "string option"
  rw_contradiction_status :: "string option"
  rw_contradicted :: bool
  rw_trusted :: "bool option"
  rw_meta :: item_meta

definition wikibrain_item :: "string \<Rightarrow> raw_claim \<Rightarrow> memory_item" where
  "wikibrain_item backend raw =
    (let contradiction = (case rw_contradiction_status raw of
           Some c \<Rightarrow> if c \<noteq> [] then Some c else if rw_contradicted raw then Some ''open'' else None
         | None \<Rightarrow> if rw_contradicted raw then Some ''open'' else None);
         md = (case contradiction of None \<Rightarrow> rw_meta raw
               | Some c \<Rightarrow> (rw_meta raw)\<lparr>im_contradiction_status := Some c\<rparr>)
     in label \<lparr>mi_text = rw_text raw,
          mi_status = (case rw_status raw of None \<Rightarrow> ''unknown'' | Some x \<Rightarrow> x),
          mi_confidence = (case rw_confidence raw of None \<Rightarrow> ''unknown'' | Some x \<Rightarrow> x),
          mi_source_id = rw_source_id raw, mi_source_url = rw_source_url raw, mi_scope = rw_scope raw,
          mi_valid_from = rw_valid_from raw, mi_valid_until = rw_valid_until raw,
          mi_superseded_by = rw_superseded_by raw, mi_safety = rw_safety raw, mi_meta = md,
          mi_item_id = rw_id raw\<rparr>
        backend TRUSTED_AUTHORITY (Some (rw_trusted raw = Some True)))"

text \<open>
  The recall of the authority from its answer. Items are told apart by their position: a claim that
  the policy or the bound left out counts as withheld.
\<close>

definition wikibrain_recall ::
  "string \<Rightarrow> (recall_request \<Rightarrow> string + (raw_claim list \<times> string list)) \<Rightarrow> recall_request \<Rightarrow> string + recall_pack" where
  "wikibrain_recall backend call req =
    (case call req of
       Inl x \<Rightarrow> Inl x
     | Inr (raws, warnings) \<Rightarrow>
         let items = map (wikibrain_item backend) raws;
             kept = take (nat (max 0 (rr_max_items req))) (filter (visible_item req \<circ> snd) (enumerate 0 items));
             dropped = map snd (filter (\<lambda>x. x \<notin> set kept \<and> is_untrusted_authority_claim (snd x)) (enumerate 0 items));
             visible = map snd kept;
             n_disputed = length (filter is_disputed dropped)
         in Inr \<lparr>rp_profile = rr_profile req, rp_query = rr_query req, rp_items = visible,
              rp_warnings = warnings @ label_pending visible @ label_disputed visible n_disputed (length dropped - n_disputed),
              rp_backend = backend\<rparr>)"

record raw_hit =
  rh_text :: string
  rh_source_id :: "string option"
  rh_source_url :: "string option"
  rh_score :: "real option"

definition cognee_item :: "raw_hit \<Rightarrow> memory_item" where
  "cognee_item raw =
    label ((plain_item (rh_text raw) ''unknown'' ''unknown'' (rh_source_id raw) (no_meta\<lparr>im_score := rh_score raw\<rparr>))
      \<lparr>mi_source_url := rh_source_url raw\<rparr>) ''cognee'' BROAD_RETRIEVAL None"

definition cognee_recall :: "(recall_request \<Rightarrow> string + raw_hit list) \<Rightarrow> recall_request \<Rightarrow> string + recall_pack" where
  "cognee_recall call req =
    (case call req of
       Inl x \<Rightarrow> Inl x
     | Inr raws \<Rightarrow>
         Inr \<lparr>rp_profile = rr_profile req, rp_query = rr_query req,
              rp_items = take (nat (max 0 (rr_max_items req))) (map cognee_item raws),
              rp_warnings = (if raws \<noteq> [] then [''cognee results are broad retrieval, not trusted claims''] else []),
              rp_backend = ''cognee''\<rparr>)"

record raw_fact =
  rf_text :: string
  rf_source_id :: "string option"
  rf_superseded_by :: "string option"
  rf_invalidated_by :: "string option"
  rf_valid_from :: "string option"
  rf_valid_until :: "string option"
  rf_relation :: "string option"

definition py_or :: "string option \<Rightarrow> string option \<Rightarrow> string option" where
  "py_or a b = (case a of None \<Rightarrow> b | Some x \<Rightarrow> if x = [] then b else a)"

definition nonempty :: "string option \<Rightarrow> bool" where
  "nonempty a = (case a of None \<Rightarrow> False | Some x \<Rightarrow> x \<noteq> [])"

definition graphiti_item :: "raw_fact \<Rightarrow> memory_item" where
  "graphiti_item raw =
    (let superseded_by = py_or (rf_superseded_by raw) (rf_invalidated_by raw)
     in label ((plain_item (rf_text raw) (if nonempty superseded_by then ''superseded'' else ''unknown'') ''unknown''
          (rf_source_id raw) (no_meta\<lparr>im_other := (case rf_relation raw of None \<Rightarrow> [] | Some r \<Rightarrow> [(''relation'', r)])\<rparr>))
          \<lparr>mi_superseded_by := superseded_by, mi_valid_from := rf_valid_from raw, mi_valid_until := rf_valid_until raw\<rparr>)
        ''graphiti'' TEMPORAL_GRAPH None)"

definition graphiti_recall :: "(recall_request \<Rightarrow> string + raw_fact list) \<Rightarrow> recall_request \<Rightarrow> string + recall_pack" where
  "graphiti_recall call req =
    (case call req of
       Inl x \<Rightarrow> Inl x
     | Inr raws \<Rightarrow>
         Inr \<lparr>rp_profile = rr_profile req, rp_query = rr_query req,
              rp_items = apply_visibility (map graphiti_item raws) req,
              rp_warnings = concat (map (\<lambda>raw. case py_or (rf_superseded_by raw) (rf_invalidated_by raw) of
                  None \<Rightarrow> []
                | Some s \<Rightarrow> if s = [] then []
                    else [''temporal graph: '' @ str_or (rf_source_id raw) ''a fact'' @ '' was superseded by '' @ s]) raws),
              rp_backend = ''graphiti''\<rparr>)"

definition noop_recall :: "recall_request \<Rightarrow> string + recall_pack" where
  "noop_recall req = Inr \<lparr>rp_profile = rr_profile req, rp_query = rr_query req, rp_items = [],
     rp_warnings = [''memory is disabled; no context was recalled''], rp_backend = ''none''\<rparr>"

section \<open>Profiles and configuration\<close>

record profile_config =
  pr_backends :: "string list"
  pr_max_items :: int
  pr_include_handoff :: bool
  pr_include_ledger :: bool
  pr_include_superseded :: bool
  pr_scopes :: "string list"

definition mk_profile :: "string list \<Rightarrow> int \<Rightarrow> bool \<Rightarrow> bool \<Rightarrow> string list \<Rightarrow> profile_config" where
  "mk_profile backends n handoff superseded scopes =
    \<lparr>pr_backends = backends, pr_max_items = n, pr_include_handoff = handoff, pr_include_ledger = True,
     pr_include_superseded = superseded, pr_scopes = scopes\<rparr>"

definition SCOPE_ORDER :: "string list" where
  "SCOPE_ORDER = [''global'', ''project'', ''repo'', ''task'', ''manager'', ''worker'', ''model'']"

definition VALID_SCOPE_TYPES :: "string list" where
  "VALID_SCOPE_TYPES = [''global'', ''user'', ''project'', ''repo'', ''task'', ''manager'', ''worker'', ''model'', ''tool'']"

definition DEFAULT_PROFILE :: string where
  "DEFAULT_PROFILE = ''manager_brief''"

definition PROFILES :: "(string \<times> profile_config) list" where
  "PROFILES =
    (let g = [''global'', ''project'', ''repo'', ''task'']
     in [(''manager_brief'', mk_profile [''wikibrain'', ''cognee'', ''graphiti''] 8 True False (g @ [''manager''])),
         (''worker_brief'', mk_profile [''wikibrain'', ''cognee''] 5 False False g),
         (''reviewer_brief'', mk_profile [''wikibrain'', ''graphiti''] 8 True False (g @ [''manager''])),
         (''implementation_constraints'', mk_profile [''wikibrain''] 6 False False g),
         (''known_failures'', mk_profile [''wikibrain'', ''graphiti''] 8 True False g),
         (''model_performance'', mk_profile [''wikibrain'', ''graphiti''] 8 False False
            [''global'', ''project'', ''task'', ''worker'', ''model'']),
         (''project_evolution'', mk_profile [''wikibrain'', ''graphiti''] 10 True True [''global'', ''project'', ''repo'']),
         (''broad_project_rag'', mk_profile [''cognee''] 8 False False [''global'', ''project'', ''repo'']),
         (''hard_policy'', mk_profile [''wikibrain''] 6 False False [''global'', ''project'', ''repo''])])"

record memory_config =
  mg_enabled :: bool
  mg_trusted_authority :: string
  mg_profiles :: "(string \<times> profile_config) list"
  mg_hard_policies :: "string list"
  mg_default_scopes :: "string \<rightharpoonup> string"

definition default_memory_config :: memory_config where
  "default_memory_config = \<lparr>mg_enabled = True, mg_trusted_authority = ''wikibrain'', mg_profiles = PROFILES,
    mg_hard_policies = [], mg_default_scopes = Map.empty\<rparr>"

datatype context_exc = UnknownScope string | NoDefaultProfile | TaskError exc

definition profile_named :: "memory_config \<Rightarrow> string \<Rightarrow> context_exc + profile_config" where
  "profile_named cfg name =
    (case map_of (mg_profiles cfg) name of
       Some p \<Rightarrow> Inr p
     | None \<Rightarrow> (case map_of (mg_profiles cfg) DEFAULT_PROFILE of None \<Rightarrow> Inl NoDefaultProfile | Some p \<Rightarrow> Inr p))"

section \<open>The task\<close>

record constraint_view =
  cv_id :: string
  cv_text :: string

record decision_view =
  dv_id :: string
  dv_decision :: string
  dv_rationale :: "string option"
  dv_locked :: bool
  dv_superseded_by :: "string option"

record task_detail =
  td_id :: string
  td_title :: string
  td_goal :: string
  td_current_manager :: "string option"
  td_project_id :: "string option"
  td_repo_id :: "string option"
  td_privacy :: "string option"
  td_constraints :: "constraint_view list"
  td_decisions :: "decision_view list"
  td_subtask_tiers :: "privacy_tier list"

definition declared_tier :: "string \<Rightarrow> privacy_tier option" where
  "declared_tier d = find (\<lambda>t. privacy_tier_value t = d) [TierPublic, PublicRedacted, RepoSensitive, SecretSensitive, LocalOnly]"

text \<open>A declared value that is no tier is ignored.\<close>

definition declared_tiers :: "task_detail \<Rightarrow> privacy_tier list" where
  "declared_tiers d =
    (case td_privacy d of None \<Rightarrow> []
     | Some p \<Rightarrow> if p = [] then [] else (case declared_tier p of None \<Rightarrow> [] | Some t \<Rightarrow> [t]))"

definition effective_privacy :: "task_detail \<Rightarrow> privacy_tier" where
  "effective_privacy d = strictest (td_subtask_tiers d @ declared_tiers d)"

section \<open>Scopes\<close>

definition scope_value :: "task_detail \<Rightarrow> memory_config \<Rightarrow> string option \<Rightarrow> string option \<Rightarrow> string option \<Rightarrow> string \<Rightarrow> string option" where
  "scope_value d cfg manager_id worker_id model_id kind =
    (if kind = ''project'' then py_or (td_project_id d) (mg_default_scopes cfg ''project'')
     else if kind = ''repo'' then py_or (td_repo_id d) (mg_default_scopes cfg ''repo'')
     else if kind = ''task'' then Some (td_id d)
     else if kind = ''manager'' then py_or manager_id (td_current_manager d)
     else if kind = ''worker'' then worker_id
     else if kind = ''model'' then model_id else None)"

definition resolve_scopes ::
  "profile_config \<Rightarrow> task_detail \<Rightarrow> memory_config \<Rightarrow> string option \<Rightarrow> string option \<Rightarrow> string option
    \<Rightarrow> context_exc + (memory_scope list \<times> string list)" where
  "resolve_scopes p d cfg manager_id worker_id model_id =
    (case sort (filter (\<lambda>k. k \<notin> set VALID_SCOPE_TYPES) (pr_scopes p)) of
       k # _ \<Rightarrow> Inl (UnknownScope k)
     | [] \<Rightarrow>
         let wanted = filter (\<lambda>k. k \<in> set (pr_scopes p)) SCOPE_ORDER;
             val = scope_value d cfg manager_id worker_id model_id
         in Inr (List.map_filter (\<lambda>k. if k = ''global'' then Some (k, [])
                   else case val k of None \<Rightarrow> None | Some v \<Rightarrow> if v = [] then None else Some (k, v)) wanted,
                 filter (\<lambda>k. k \<noteq> ''global'' \<and> \<not> nonempty (val k) \<and> k \<noteq> ''manager'') wanted))"

definition as_strings :: "memory_scope list \<Rightarrow> string list" where
  "as_strings scopes = map (\<lambda>(k, v). if v = [] then k else k @ '':'' @ v) scopes"

fun comma_join :: "string list \<Rightarrow> string" where
  "comma_join [] = []"
| "comma_join [x] = x"
| "comma_join (x # y # xs) = x @ '', '' @ comma_join (y # xs)"

definition scope_warning :: "string list \<Rightarrow> string \<Rightarrow> string list" where
  "scope_warning missing profile =
    (if missing = [] then []
     else [profile @ '': no '' @ comma_join missing @ '' scope is known for this task, so claims filed at that scope cannot surface (set task.metadata or memory.default_scopes)''])"

section \<open>Selecting backends\<close>

definition select_backends :: "memory_config \<Rightarrow> (string \<times> adapter) list \<Rightarrow> profile_config \<Rightarrow> string list" where
  "select_backends cfg adapters p =
    (if \<not> mg_enabled cfg then []
     else let resolved = List.map_filter (\<lambda>n. if n \<in> fst ` set adapters then Some n
                else find (\<lambda>a. a \<in> fst ` set adapters) (backend_aliases n)) (pr_backends p);
              selected = first_seen resolved
          in if selected \<noteq> [] then selected else filter (\<lambda>n. n \<noteq> ''none'') (sort (map fst adapters)))"

section \<open>Ranking\<close>

definition ascii_lower :: "char \<Rightarrow> char" where
  "ascii_lower c = (let n = (of_char c :: nat) in if 65 \<le> n \<and> n \<le> 90 then char_of (n + 32) else c)"

definition word_char :: "char \<Rightarrow> bool" where
  "word_char c \<longleftrightarrow> (let n = (of_char c :: nat) in 48 \<le> n \<and> n \<le> 57 \<or> 97 \<le> n \<and> n \<le> 122)"

text \<open>Runs of other characters become one blank; the flag says whether the last character was in such a run.\<close>

fun squeeze :: "bool \<Rightarrow> string \<Rightarrow> string" where
  "squeeze gap [] = []"
| "squeeze gap (c # cs) =
    (if word_char c then c # squeeze False cs else if gap then squeeze True cs else CHR '' '' # squeeze True cs)"

definition normalize :: "string \<Rightarrow> string" where
  "normalize t = py_strip (squeeze False (map ascii_lower t))"

definition authority :: "memory_item \<Rightarrow> nat" where
  "authority item =
    (let role = (case im_role (mi_meta item) of None \<Rightarrow> BROAD_RETRIEVAL | Some r \<Rightarrow> r)
     in if role = LEDGER then 0
        else if mi_status item = ''pending'' then 5
        else if role = TRUSTED_AUTHORITY \<and> mi_status item = ''promoted'' then
          (if \<not> is_trusted item then 5 else if mi_confidence item = ''verified'' then 1 else 2)
        else if role = TEMPORAL_GRAPH then (if nonempty (mi_source_id item) then 3 else 5)
        else if role = BROAD_RETRIEVAL \<and> nonempty (mi_source_id item) then 4 else 5)"

text \<open>The winner of two copies of a text, with the backend of the other copy noted.\<close>

definition noting :: "memory_item \<Rightarrow> string list \<Rightarrow> memory_item" where
  "noting item names = item\<lparr>mi_meta := (mi_meta item)\<lparr>im_also_seen_in := sort (remdups names)\<rparr>\<rparr>"

definition backend_or_unknown :: "memory_item \<Rightarrow> string" where
  "backend_or_unknown item = (case im_backend (mi_meta item) of None \<Rightarrow> ''unknown'' | Some b \<Rightarrow> b)"

definition merge_copy :: "memory_item \<Rightarrow> memory_item \<Rightarrow> memory_item" where
  "merge_copy incumbent item =
    (if authority item < authority incumbent
     then noting item (im_also_seen_in (mi_meta incumbent) @ [backend_or_unknown incumbent])
     else noting incumbent (im_also_seen_in (mi_meta incumbent) @ [backend_or_unknown item]))"

text \<open>The best copy of each normalized text, in the order of first appearance.\<close>

fun put_best :: "(string \<times> memory_item) list \<Rightarrow> string \<Rightarrow> memory_item \<Rightarrow> (string \<times> memory_item) list" where
  "put_best [] k item = [(k, item)]"
| "put_best ((j, x) # best) k item = (if j = k then (j, merge_copy x item) # best else (j, x) # put_best best k item)"

definition add_item :: "(string \<times> memory_item) list \<Rightarrow> memory_item \<Rightarrow> (string \<times> memory_item) list" where
  "add_item best item = (let k = normalize (mi_text item) in if k = [] then best else put_best best k item)"

definition rank_key :: "memory_item \<Rightarrow> nat \<times> real" where
  "rank_key i = (authority i, - (case im_score (mi_meta i) of None \<Rightarrow> 0 | Some x \<Rightarrow> x))"

fun plus_join :: "string list \<Rightarrow> string" where
  "plus_join [] = []"
| "plus_join [x] = x"
| "plus_join (x # y # xs) = x @ ''+'' @ plus_join (y # xs)"

definition merge_and_rank :: "recall_pack list \<Rightarrow> string \<Rightarrow> int \<Rightarrow> recall_pack" where
  "merge_and_rank packs profile max_items =
    (let best = foldl add_item [] (concat (map rp_items packs));
         backends = plus_join (first_seen (map rp_backend packs))
     in \<lparr>rp_profile = profile, rp_query = [],
         rp_items = take (nat (max 0 max_items)) (sort_key rank_key (map snd best)),
         rp_warnings = first_seen (concat (map rp_warnings packs)),
         rp_backend = (if backends = [] then ''none'' else backends)\<rparr>)"

section \<open>Safety of the items\<close>

definition exc_message :: "exc \<Rightarrow> string" where
  "exc_message x = (case x of ValueError m \<Rightarrow> m | _ \<Rightarrow> [])"

text \<open>The ids of the batch are the positions of the items, so every item has its result.\<close>

definition apply_safety ::
  "bool \<Rightarrow> pipeline \<Rightarrow> memory_item list \<Rightarrow> memory_item list \<times> string list" where
  "apply_safety safety_enabled pl items =
    (if \<not> safety_enabled \<or> items = [] then (items, [])
     else case scan_items pl (map (\<lambda>(i, item). (py_str_nat i, mi_text item)) (enumerate 0 items)) CONTEXT_OUTPUT [] of
       Inl x \<Rightarrow> ([], [''all '' @ py_str_nat (length items)
                 @ '' context items were withheld: AgentConnect safety scanning failed ('' @ exc_message x @ '').''])
     | Inr b \<Rightarrow>
         (List.map_filter (\<lambda>(i, item). case map_of b (py_str_nat i) of
              None \<Rightarrow> None
            | Some r \<Rightarrow>
                if withheld r then None
                else let item1 = (if redacted r then item\<lparr>mi_text := sr_redacted_content r\<rparr> else item)
                     in Some (if sr_labels r \<noteq> [] then item1\<lparr>mi_meta := (mi_meta item1)\<lparr>im_safety_labels := Some (sr_labels r)\<rparr>\<rparr>
                              else item1)) (enumerate 0 items),
          batch_warnings b))"

section \<open>The pack\<close>

record context_pack =
  cp_task_id :: string
  cp_profile :: string
  cp_handoff :: "string option"
  cp_memory :: recall_pack
  cp_backends_queried :: "string list"
  cp_scopes_queried :: "string list"
  cp_warnings :: "string list"

record builder =
  cb_adapters :: "(string \<times> adapter) list"
  cb_config :: memory_config
  cb_safety_enabled :: bool
  cb_pipeline :: pipeline

definition ledger_item :: "string \<Rightarrow> string \<Rightarrow> string \<Rightarrow> memory_item" where
  "ledger_item t src kind = label (plain_item t ''promoted'' ''verified'' (Some src) (no_meta\<lparr>im_kind := Some kind\<rparr>))
     ''agentconnect'' LEDGER None"

definition ledger_items :: "memory_config \<Rightarrow> task_detail \<Rightarrow> memory_item list" where
  "ledger_items cfg d =
    map (\<lambda>p. ledger_item p ''agentconnect_config'' ''hard_policy'') (mg_hard_policies cfg)
    @ map (\<lambda>c. ledger_item (cv_text c) (cv_id c) ''constraint'') (td_constraints d)
    @ map (\<lambda>x. ledger_item (dv_decision x @ (if nonempty (dv_rationale x) then '' ('' @ the (dv_rationale x) @ '')'' else []))
            (dv_id x) ''locked_decision'')
        (filter (\<lambda>x. dv_locked x \<and> dv_superseded_by x = None) (td_decisions d))"

definition recall_from :: "(string \<times> adapter) list \<Rightarrow> string \<Rightarrow> recall_request \<Rightarrow> recall_pack option \<times> string list" where
  "recall_from adapters name req =
    (case map_of adapters name of
       None \<Rightarrow> (None, [])
     | Some a \<Rightarrow>
         (case ad_recall a req of
            Inl x \<Rightarrow> (None, [name @ '' recall failed: '' @ x])
          | Inr pack \<Rightarrow> (Some (pack\<lparr>rp_items := map (\<lambda>i. label i (ad_backend_name a) (ad_role a) None) (rp_items pack)\<rparr>), [])))"

text \<open>The request a backend receives: only the trusted authority is asked to enforce trust.\<close>

definition request_for ::
  "(string \<times> adapter) list \<Rightarrow> profile_config \<Rightarrow> string \<Rightarrow> string \<Rightarrow> string \<Rightarrow> memory_scope list \<Rightarrow> int \<Rightarrow> bool
    \<Rightarrow> string \<Rightarrow> recall_request" where
  "request_for adapters p task_id profile query scopes budget include_pending name =
    \<lparr>rr_query = query, rr_task_id = Some task_id, rr_profile = profile, rr_scopes = scopes, rr_max_items = budget,
     rr_trusted_only = ((case map_of adapters name of None \<Rightarrow> False | Some a \<Rightarrow> ad_role a = TRUSTED_AUTHORITY) \<and> \<not> include_pending),
     rr_include_pending = include_pending, rr_include_superseded = pr_include_superseded p\<rparr>"

record pack_request =
  pq_task_id :: string
  pq_profile :: string
  pq_query :: "string option"
  pq_max_items :: "int option"
  pq_manager_id :: "string option"
  pq_include_pending :: bool
  pq_worker_id :: "string option"
  pq_model_id :: "string option"

definition withheld_warning :: string where
  "withheld_warning = ''memory recall withheld: task is secret_sensitive and its content must not be sent to any memory backend''"

text \<open>
  \<open>build_context_pack\<close>: the pack and the requests that were sent, each with the name of the backend.
  The detail and the handoff of the task come from the service, which may raise.
\<close>

definition build_context_pack ::
  "builder \<Rightarrow> (string \<Rightarrow> exc + task_detail) \<Rightarrow> (string \<Rightarrow> string option \<Rightarrow> exc + string) \<Rightarrow> pack_request
    \<Rightarrow> (context_exc + context_pack) \<times> (string \<times> recall_request) list" where
  "build_context_pack cb get_task get_handoff rq =
    (case profile_named (cb_config cb) (pq_profile rq) of
       Inl x \<Rightarrow> (Inl x, [])
     | Inr p \<Rightarrow>
    (case get_task (pq_task_id rq) of
       Inl x \<Rightarrow> (Inl (TaskError x), [])
     | Inr d \<Rightarrow>
    (case (if pr_include_handoff p then map_sum id Some (get_handoff (pq_task_id rq) (pq_manager_id rq)) else Inr None) of
       Inl x \<Rightarrow> (Inl (TaskError x), [])
     | Inr handoff \<Rightarrow>
    (case resolve_scopes p d (cb_config cb) (pq_manager_id rq) (pq_worker_id rq) (pq_model_id rq) of
       Inl x \<Rightarrow> (Inl x, [])
     | Inr (scopes, missing) \<Rightarrow>
         let budget = (case pq_max_items rq of None \<Rightarrow> pr_max_items p | Some n \<Rightarrow> if n = 0 then pr_max_items p else n);
             query = str_or (pq_query rq) (py_strip (td_title d @ [CHR 10] @ td_goal d));
             recall_withheld = (effective_privacy d = SecretSensitive);
             cfg = cb_config cb;
             backends = (if mg_enabled cfg \<and> \<not> recall_withheld then select_backends cfg (cb_adapters cb) p else []);
             requests = map (\<lambda>n. (n, request_for (cb_adapters cb) p (pq_task_id rq) (pq_profile rq) query scopes budget
                                       (pq_include_pending rq) n)) backends;
             answers = map (\<lambda>(n, r). recall_from (cb_adapters cb) n r) requests;
             ledger = (if pr_include_ledger p then ledger_items cfg d else []);
             packs = (if ledger = [] then [] else [\<lparr>rp_profile = pq_profile rq, rp_query = query, rp_items = ledger,
                        rp_warnings = [], rp_backend = ''agentconnect''\<rparr>]) @ List.map_filter fst answers;
             merged = merge_and_rank packs (pq_profile rq) budget;
             (items, safety_warnings) = apply_safety (cb_safety_enabled cb) (cb_pipeline cb) (rp_items merged);
             warnings = first_seen (rp_warnings merged
               @ (if recall_withheld then [withheld_warning] else []) @ scope_warning missing (pq_profile rq)
               @ (if mg_enabled cfg then [] else [''memory is disabled; context is task state only''])
               @ concat (map snd answers) @ safety_warnings)
         in (Inr \<lparr>cp_task_id = pq_task_id rq, cp_profile = pq_profile rq, cp_handoff = handoff,
               cp_memory = merged\<lparr>rp_query := query, rp_items := items, rp_warnings := warnings\<rparr>,
               cp_backends_queried = backends, cp_scopes_queried = as_strings scopes, cp_warnings = warnings\<rparr>, requests)))))"

end
