(* ===== verification/Safety_Theorems.thy ===== *)
theory Safety_Theorems
  imports Safety
begin

text \<open>
  What the scanner guarantees: redaction removes exactly the reported spans, aggregation loses no
  reported position and no severity, and no failure of an engine that is consulted reads as clean.
\<close>

section \<open>Redaction\<close>

definition in_span :: "finding \<Rightarrow> nat \<Rightarrow> bool" where
  "in_span f i \<longleftrightarrow> f_start f \<le> int i \<and> int i < f_end f"

definition covered :: "finding list \<Rightarrow> nat \<Rightarrow> bool" where
  "covered fs i \<longleftrightarrow> (\<exists>f \<in> set fs. in_span f i)"

definition visible :: "(nat \<Rightarrow> bool) \<Rightarrow> string \<Rightarrow> string" where
  "visible P text = map ((!) text) (filter (\<lambda>i. \<not> P i) [0..<length text])"

definition slices :: "(string + finding) list \<Rightarrow> string" where
  "slices ps = concat (map (\<lambda>p. case p of Inl t \<Rightarrow> t | Inr f \<Rightarrow> []) ps)"

definition markers :: "(string + finding) list \<Rightarrow> finding set" where
  "markers ps = {f. Inr f \<in> set ps}"

definition in_merged :: "(int \<times> int \<times> finding) list \<Rightarrow> nat \<Rightarrow> bool" where
  "in_merged m i \<longleftrightarrow> (\<exists>(s, e, f) \<in> set m. s \<le> int i \<and> int i < e)"

definition disjoint_spans :: "(int \<times> int \<times> finding) list \<Rightarrow> bool" where
  "disjoint_spans m \<longleftrightarrow> sorted_wrt (\<lambda>a b. fst (snd a) \<le> fst b) m \<and> (\<forall>(s, e, f) \<in> set m. 0 \<le> s \<and> s < e)"

lemma slice_upt:
  "0 \<le> c \<Longrightarrow> 0 \<le> s \<Longrightarrow> py_slice text c s = map ((!) text) [nat c..<min (nat s) (length text)]"
proof (rule nth_equalityI)
  fix i assume "0 \<le> c" "0 \<le> s" "i < length (py_slice text c s)"
  then have "nat c + i < min (nat s) (length text)" by (auto simp: py_slice_def py_idx_def Let_def)
  then show "py_slice text c s ! i = map ((!) text) [nat c..<min (nat s) (length text)] ! i"
    using \<open>0 \<le> c\<close> \<open>0 \<le> s\<close> by (auto simp: py_slice_def py_idx_def Let_def nth_append)
qed (auto simp: py_slice_def py_idx_def Let_def)

lemma upt_split: "a \<le> b \<Longrightarrow> b \<le> c \<Longrightarrow> [a..<c] = [a..<b] @ [b..<c]"
  using upt_add_eq_append[of a b "c - b"] by simp

text \<open>The pieces of disjoint spans show what lies after the cursor and in no span.\<close>

lemma redact_pieces_visible:
  assumes "disjoint_spans m" and "0 \<le> c" and "\<forall>x \<in> set m. c \<le> fst x"
  shows "slices (redact_pieces text c m) =
      map ((!) text) (filter (\<lambda>i. \<not> in_merged m i) [nat c..<length text])
    \<and> markers (redact_pieces text c m) \<subseteq> (snd \<circ> snd) ` set m"
  using assms
proof (induction m arbitrary: c)
  case Nil
  then show ?case by (simp add: slices_def markers_def in_merged_def slice_upt)
next
  case (Cons x m)
  obtain s e f where x: "x = (s, e, f)" by (cases x)
  let ?n = "length text"
  let ?a = "min (max (nat c) (nat s)) (max (nat c) ?n)" and ?b = "min (max (nat c) (nat e)) (max (nat c) ?n)"
  have se: "c \<le> s" "s < e" and rest: "disjoint_spans m" "\<forall>y \<in> set m. e \<le> fst y"
    using Cons.prems by (auto simp: disjoint_spans_def x)
  have IH: "slices (redact_pieces text e m) = map ((!) text) (filter (\<lambda>i. \<not> in_merged m i) [nat e..<?n])"
      "markers (redact_pieces text e m) \<subseteq> (snd \<circ> snd) ` set m"
    using Cons.IH[OF rest(1), of e] rest(2) se Cons.prems(2) by auto
  have later: "\<not> in_merged m i" if "int i < e" for i
    using rest(2) that by (fastforce simp: in_merged_def)
  have head: "in_merged (x # m) i \<longleftrightarrow> (s \<le> int i \<and> int i < e) \<or> in_merged m i" for i
    by (auto simp: in_merged_def x)
  have "filter (\<lambda>i. \<not> in_merged (x # m) i) [nat c..<?n] = [nat c..<min (nat s) ?n] @ filter (\<lambda>i. \<not> in_merged m i) [nat e..<?n]"
  proof (cases "nat s \<le> ?n")
    case True
    have "[nat c..<?n] = [nat c..<nat s] @ [nat s..<min (nat e) ?n] @ [min (nat e) ?n..<?n]"
      using upt_split[of "nat c" "nat s" ?n] upt_split[of "nat s" "min (nat e) ?n" ?n] se True Cons.prems(2) by auto
    moreover have "filter (\<lambda>i. \<not> in_merged (x # m) i) [nat c..<nat s] = [nat c..<nat s]"
      using se Cons.prems(2) by (auto simp: filter_id_conv head later)
    moreover have "filter (\<lambda>i. \<not> in_merged (x # m) i) [nat s..<min (nat e) ?n] = []"
      using se Cons.prems(2) by (auto simp: filter_empty_conv head)
    moreover have "filter (\<lambda>i. \<not> in_merged (x # m) i) [min (nat e) ?n..<?n] = filter (\<lambda>i. \<not> in_merged m i) [nat e..<?n]"
    proof (cases "nat e \<le> ?n")
      case True
      then show ?thesis using se Cons.prems(2) by (auto simp: head min_absorb1 intro!: filter_cong)
    qed simp
    ultimately show ?thesis using True by simp
  next
    case False
    then show ?thesis using se Cons.prems(2) by (auto simp: filter_id_conv head later)
  qed
  then show ?case
    using IH se Cons.prems(2) by (auto simp: x slices_def markers_def slice_upt)
qed

lemma merge_span_step:
  assumes "disjoint_spans m" and "0 \<le> f_start f" and "\<forall>x \<in> set m. fst x \<le> f_start f"
  shows "disjoint_spans (merge_span m f) \<and> (\<forall>x \<in> set (merge_span m f). fst x \<le> f_start f)
    \<and> (\<forall>i. in_merged (merge_span m f) i \<longleftrightarrow> in_merged m i \<or> in_span f i)
    \<and> (snd \<circ> snd) ` set (merge_span m f) \<subseteq> insert f ((snd \<circ> snd) ` set m)"
proof (cases m rule: rev_cases)
  case Nil
  then show ?thesis using assms by (auto simp: merge_span_def disjoint_spans_def in_merged_def in_span_def)
next
  case (snoc xs x)
  obtain s e g where x: "x = (s, e, g)" by (cases x)
  show ?thesis
  proof (cases "f_end f \<le> f_start f")
    case True
    then show ?thesis using assms by (auto simp: merge_span_def in_span_def)
  next
    case False
    then show ?thesis using assms
      by (auto simp: merge_span_def snoc x disjoint_spans_def in_merged_def in_span_def sorted_wrt_append)
  qed
qed

lemma merge_foldl:
  assumes "sorted (map f_start fs)" and "\<forall>f \<in> set fs. 0 \<le> f_start f"
    and "disjoint_spans m" and "\<forall>x \<in> set m. \<forall>f \<in> set fs. fst x \<le> f_start f"
  shows "disjoint_spans (foldl merge_span m fs)
    \<and> (\<forall>i. in_merged (foldl merge_span m fs) i \<longleftrightarrow> in_merged m i \<or> covered fs i)
    \<and> (snd \<circ> snd) ` set (foldl merge_span m fs) \<subseteq> set fs \<union> (snd \<circ> snd) ` set m"
  using assms
proof (induction fs arbitrary: m)
  case Nil
  then show ?case by (simp add: covered_def)
next
  case (Cons f fs)
  have st: "disjoint_spans (merge_span m f) \<and> (\<forall>x \<in> set (merge_span m f). fst x \<le> f_start f)
    \<and> (\<forall>i. in_merged (merge_span m f) i \<longleftrightarrow> in_merged m i \<or> in_span f i)
    \<and> (snd \<circ> snd) ` set (merge_span m f) \<subseteq> insert f ((snd \<circ> snd) ` set m)"
    using merge_span_step Cons.prems by simp
  have "\<forall>x \<in> set (merge_span m f). \<forall>h \<in> set fs. fst x \<le> f_start h"
    using st Cons.prems(1) by fastforce
  then have IH: "disjoint_spans (foldl merge_span (merge_span m f) fs)
      \<and> (\<forall>i. in_merged (foldl merge_span (merge_span m f) fs) i \<longleftrightarrow> in_merged (merge_span m f) i \<or> covered fs i)
      \<and> (snd \<circ> snd) ` set (foldl merge_span (merge_span m f) fs) \<subseteq> set fs \<union> (snd \<circ> snd) ` set (merge_span m f)"
    using Cons.IH[of "merge_span m f"] Cons.prems st by simp
  have cov: "covered (f # fs) i \<longleftrightarrow> in_span f i \<or> covered fs i" for i by (simp add: covered_def)
  have "(snd \<circ> snd) ` set (foldl merge_span m (f # fs)) \<subseteq> set (f # fs) \<union> (snd \<circ> snd) ` set m"
    using conjunct2[OF conjunct2[OF IH]] conjunct2[OF conjunct2[OF conjunct2[OF st]]]
    unfolding foldl_Cons list.set by blast
  moreover have "in_merged (foldl merge_span m (f # fs)) i \<longleftrightarrow> in_merged m i \<or> covered (f # fs) i" for i
    using IH st unfolding foldl_Cons cov by presburger
  ultimately show ?case using IH unfolding foldl_Cons by blast
qed

lemma sorted_spans: "sorted (map f_start (sort_key (\<lambda>f. (f_start f, - f_end f)) fs))"
  using sorted_sort_key[of "\<lambda>f. (f_start f, - f_end f)" fs] unfolding sorted_map
  by (rule sorted_wrt_mono_rel[rotated]) (auto simp: less_eq_prod_def)

text \<open>
  Redaction against its specification: the text in no reported span, in order, interrupted by
  markers of reported findings; nothing of a reported span is left.
\<close>

lemma redact_spec:
  assumes "\<forall>f \<in> set fs. 0 \<le> f_start f"
  shows "\<exists>ps. safety_redact text fs = concat (map render ps) \<and> slices ps = visible (covered fs) text \<and> markers ps \<subseteq> set fs"
proof (cases "fs = []")
  case True
  have "visible (covered []) text = text"
    by (simp add: visible_def covered_def map_nth)
  then show ?thesis using True
    by (intro exI[of _ "[Inl text]"]) (simp add: safety_redact_def render_def slices_def markers_def)
next
  case False
  let ?m = "merge_spans fs"
  have m: "disjoint_spans ?m" "\<forall>i. in_merged ?m i \<longleftrightarrow> covered fs i" "(snd \<circ> snd) ` set ?m \<subseteq> set fs"
    using merge_foldl[OF sorted_spans[of fs], of "[]"] assms
    by (auto simp: merge_spans_def disjoint_spans_def in_merged_def covered_def)
  then have "\<forall>x \<in> set ?m. 0 \<le> fst x" by (auto simp: disjoint_spans_def)
  then show ?thesis using redact_pieces_visible[OF m(1), of 0 "text"] m(2,3) False
    by (intro exI[of _ "redact_pieces text 0 ?m"]) (auto simp: safety_redact_def visible_def)
qed

section \<open>Aggregation\<close>

text \<open>A finding describes another when it says at least as much: same category, no less risk, no less text.\<close>

definition describes :: "finding \<Rightarrow> finding \<Rightarrow> bool" where
  "describes g f \<longleftrightarrow> f_category g = f_category f \<and> severity_of_risk (f_risk_level f) \<le> severity_of_risk (f_risk_level g)
    \<and> f_start g \<le> f_start f \<and> f_end f \<le> f_end g \<and> (has_span f \<or> g = f)"

definition category_covers :: "finding list \<Rightarrow> category \<Rightarrow> nat \<Rightarrow> bool" where
  "category_covers fs c i \<longleftrightarrow> (\<exists>f \<in> set fs. f_category f = c \<and> in_span f i)"

lemma describes_refl [simp]: "describes f f"
  by (simp add: describes_def)

lemma describes_trans: "describes h g \<Longrightarrow> describes g f \<Longrightarrow> describes h f"
  by (auto simp: describes_def has_span_def)

lemma absorb_describes:
  assumes "f_category kept = f_category f" and "overlaps kept f"
  shows "describes (absorb kept f) kept \<and> describes (absorb kept f) f"
  using assms by (auto simp: describes_def absorb_def overlaps_def Let_def)

lemma absorb_span:
  assumes "overlaps kept f"
  shows "in_span (absorb kept f) i \<longleftrightarrow> in_span kept i \<or> in_span f i"
  using assms by (auto simp: in_span_def absorb_def overlaps_def Let_def)

lemma absorb_category [simp]: "f_category (absorb kept f) = f_category kept"
  by (simp add: absorb_def Let_def)

lemma absorb_in_describes:
  "(\<forall>g \<in> set ms. \<exists>h \<in> set (absorb_in ms f). describes h g) \<and> (\<exists>h \<in> set (absorb_in ms f). describes h f)"
proof (induction ms)
  case (Cons k ms)
  show ?case
  proof (cases "f_category k = f_category f \<and> overlaps k f")
    case True
    then show ?thesis using absorb_describes[of k f] by simp (meson describes_refl)
  next
    case False
    then show ?thesis using Cons by auto
  qed
qed simp

lemma absorb_in_covers:
  "category_covers (absorb_in ms f) c i \<longleftrightarrow> category_covers ms c i \<or> f_category f = c \<and> in_span f i"
proof (induction ms)
  case (Cons k ms)
  then show ?case using absorb_span[of k f i] by (auto simp: category_covers_def)
qed (simp add: category_covers_def)

lemma absorb_in_start: "\<forall>g \<in> set (f # ms). 0 \<le> f_start g \<Longrightarrow> \<forall>g \<in> set (absorb_in ms f). 0 \<le> f_start g"
  by (induction ms) (auto simp: absorb_def Let_def)

lemma foldl_absorb_describes:
  "g \<in> set ms \<union> set fs \<Longrightarrow> \<exists>h \<in> set (foldl absorb_in ms fs). describes h g"
proof (induction fs arbitrary: ms g)
  case (Cons f fs)
  show ?case
  proof (cases "g \<in> set fs")
    case True
    then show ?thesis using Cons.IH by simp
  next
    case False
    then obtain k where k: "k \<in> set (absorb_in ms f)" and kg: "describes k g"
      using absorb_in_describes[of ms f] Cons.prems by auto
    then obtain h where "h \<in> set (foldl absorb_in (absorb_in ms f) fs)" and "describes h k"
      using Cons.IH[of k "absorb_in ms f"] by blast
    then show ?thesis using describes_trans[OF _ kg] by auto
  qed
qed (auto intro: describes_refl)

lemma foldl_absorb_covers:
  "category_covers (foldl absorb_in ms fs) c i \<longleftrightarrow> category_covers ms c i \<or> category_covers fs c i"
proof (induction fs arbitrary: ms)
  case (Cons f fs)
  have "category_covers (f # fs) c i \<longleftrightarrow> f_category f = c \<and> in_span f i \<or> category_covers fs c i"
    by (auto simp: category_covers_def)
  then show ?case unfolding foldl_Cons Cons absorb_in_covers by blast
qed (simp add: category_covers_def)

lemma foldl_absorb_start:
  "\<forall>g \<in> set ms \<union> set fs. 0 \<le> f_start g \<Longrightarrow> \<forall>g \<in> set (foldl absorb_in ms fs). 0 \<le> f_start g"
proof (induction fs arbitrary: ms)
  case (Cons f fs)
  have "\<forall>g \<in> set (absorb_in ms f). 0 \<le> f_start g"
    by (rule absorb_in_start) (use Cons.prems in \<open>simp only: list.set\<close>, blast)
  then have "\<forall>g \<in> set (absorb_in ms f) \<union> set fs. 0 \<le> f_start g" using Cons.prems unfolding list.set by blast
  then show ?case unfolding foldl_Cons by (rule Cons.IH)
qed simp

lemma aggregate_describes: "f \<in> set fs \<Longrightarrow> \<exists>g \<in> set (aggregate fs). describes g f"
  using foldl_absorb_describes[of f "[]" "sort_key aggregate_key fs"] by (auto simp: aggregate_def)

lemma aggregate_covers: "category_covers (aggregate fs) c i \<longleftrightarrow> category_covers fs c i"
  using foldl_absorb_covers[of "[]" "sort_key aggregate_key fs" c i] by (auto simp: aggregate_def category_covers_def)

lemma aggregate_start: "\<forall>f \<in> set fs. 0 \<le> f_start f \<Longrightarrow> g \<in> set (aggregate fs) \<Longrightarrow> 0 \<le> f_start g"
  using foldl_absorb_start[of "[]" "sort_key aggregate_key fs"] by (auto simp: aggregate_def)

section \<open>Decisions\<close>

lemma py_max_by_ge: "x \<in> set xs \<Longrightarrow> k x \<le> k (py_max_by k d xs)"
proof -
  have *: "k m \<le> k (foldl (\<lambda>m y. if k m < k y then y else m) m ys)
      \<and> (\<forall>y \<in> set ys. k y \<le> k (foldl (\<lambda>m y. if k m < k y then y else m) m ys))" for m ys
  proof (induction ys arbitrary: m)
    case (Cons y ys)
    show ?case using Cons[of m] Cons[of y] by auto
  qed simp
  assume "x \<in> set xs"
  then show ?thesis using * by (cases xs) (auto simp: py_max_by_def)
qed

lemma strongest_ge: "d \<in> set ds \<Longrightarrow> severity_of_decision d \<le> severity_of_decision (strongest ds)"
  unfolding strongest_def by (rule py_max_by_ge)

lemma policy_namedD:
  "policy_named name = Inr pol \<Longrightarrow> (name, pol) \<in> set POLICIES"
  by (auto simp: policy_named_def split: option.splits dest: map_of_SomeD)

lemma policy_errors:
  assumes "policy_named name = Inr pol"
  shows "po_on_scanner_error pol = Quarantine \<or> po_on_scanner_error pol = Block"
    and "po_on_optional_engine_error pol = Warn"
  using policy_namedD[OF assms] by (auto simp: POLICIES_def)

lemma decide_finding_in:
  "f \<in> set fs \<Longrightarrow> d \<in> set (fst (decide_finding pol f)) \<Longrightarrow>
    severity_of_decision d \<le> severity_of_decision (fst (decide fs es pol))"
  unfolding decide_def by (auto intro!: strongest_ge)

lemma decide_outcome_in:
  "e \<in> set es \<Longrightarrow> d \<in> set (fst (decide_outcome pol e)) \<Longrightarrow>
    severity_of_decision d \<le> severity_of_decision (fst (decide fs es pol))"
  unfolding decide_def by (auto intro!: strongest_ge)

lemma severe_withholds: "severity_of_decision Quarantine \<le> severity_of_decision d \<Longrightarrow> d = Quarantine \<or> d = Block"
  by (cases d) auto

lemma outcome_quiet: "fst (snd (decide_outcome pol e)) = [] \<Longrightarrow> decide_outcome pol e = ([], [], False)"
  by (simp add: decide_outcome_def split: if_splits)

lemma decide_quiet:
  assumes "fst (snd (snd (decide [] es pol))) = []"
  shows "decide [] es pol = (Allow, RiskNone, [], False)"
proof -
  have q: "decide_outcome pol e = ([], [], False)" if "e \<in> set es" for e
    using assms outcome_quiet[of pol e] that by (auto simp: decide_def)
  have "concat (map (fst \<circ> decide_outcome pol) es) = []" "concat (map (fst \<circ> snd \<circ> decide_outcome pol) es) = []"
    "\<not> (\<exists>e \<in> set es. snd (snd (decide_outcome pol e)))"
    by (auto simp: q)
  then show ?thesis unfolding decide_def by (simp only:) (simp add: strongest_def highest_def py_max_by_def)
qed

text \<open>The result of a scan in terms of what its engines reported, also when nothing was found.\<close>

lemma scan_with_result:
  fixes pl pol req
  defines "r \<equiv> scan_with pl pol req"
  defines "fs \<equiv> aggregate (concat (map eo_findings (sr_engines r)))"
  shows "sr_findings r = fs" "sr_decision r = fst (decide fs (sr_engines r) pol)"
    "sr_redacted_content r = redact_body (sq_text req) fs pol"
    "sr_scanner_failed r = snd (snd (snd (decide fs (sr_engines r) pol)))"
    "sr_engines r = map (run_engine pl req) (engines_for pl pol)"
proof -
  let ?es = "map (run_engine pl req) (engines_for pl pol)"
  let ?fs = "aggregate (concat (map eo_findings ?es))"
  obtain d risk ws failed where dec: "decide ?fs ?es pol = (d, risk, ws, failed)" by (metis prod_cases4)
  have es: "sr_engines r = ?es" by (simp add: r_def scan_with_def Let_def dec del: map_map)
  then have fs: "fs = ?fs" by (simp add: fs_def)
  have quiet: "d = Allow \<and> \<not> failed" if "?fs = []" "ws = []"
    using decide_quiet[of ?es pol] dec that by simp
  show "sr_engines r = ?es" by (rule es)
  show "sr_findings r = fs" "sr_decision r = fst (decide fs (sr_engines r) pol)"
    "sr_redacted_content r = redact_body (sq_text req) fs pol"
    "sr_scanner_failed r = snd (snd (snd (decide fs (sr_engines r) pol)))"
    unfolding es fs dec using quiet
    by (auto simp: r_def scan_with_def Let_def dec redact_body_def to_redact_def simp del: map_map)
qed


section \<open>What a scan guarantees\<close>

definition sensitive :: "finding \<Rightarrow> bool" where
  "sensitive f \<longleftrightarrow> (f_category f = Secret \<or> f_category f = Pii) \<and> (f_risk_level f = RiskMedium \<or> f_risk_level f = RiskHigh)"

definition reported :: "safety_result \<Rightarrow> finding list" where
  "reported r = concat (map eo_findings (sr_engines r))"

lemma masking_policy:
  assumes "policy_named name = Inr pol" and "name = ARTIFACT_INGEST \<or> name = CONTEXT_OUTPUT"
  shows "rule_for pol f = Some Redact \<longleftrightarrow> sensitive f"
proof -
  have "po_rules pol = ARTIFACT_RULES \<or> po_rules pol = CONTEXT_RULES"
    using assms by (auto simp: policy_named_def POLICIES_def ARTIFACT_INGEST_def CONTEXT_OUTPUT_def)
  then show ?thesis
    by (cases "f_category f"; cases "f_risk_level f")
      (auto simp: rule_for_def sensitive_def ARTIFACT_RULES_def CONTEXT_RULES_def)
qed

lemma sensitive_described: "describes g f \<Longrightarrow> sensitive f \<Longrightarrow> sensitive g"
  by (cases "f_risk_level g") (auto simp: describes_def sensitive_def)

lemma scan_textD:
  assumes "scan_text pl content surface (Some name) path = Inr r" and "name \<noteq> []"
  obtains pol where "policy_named name = Inr pol"
    and "r = scan_with pl pol \<lparr>sq_text = content, sq_surface = surface, sq_path = path\<rparr>"
  using assms by (auto simp: scan_text_def str_or_def split: sum.splits)

text \<open>
  C17. Scanning an artifact or a context item removes from the text every position that an engine
  reported as a credential or personal datum of medium or high risk, whichever engines agree or
  disagree and however their spans overlap; it removes no position that no engine reported as a
  credential or personal datum, and inserts only markers that name a category and a rule. A
  reported credential or datum without a position makes the whole text withheld.
\<close>
theorem scan_masks_reported:
  assumes "scan_text pl content surface (Some name) path = Inr r"
    and "name = ARTIFACT_INGEST \<or> name = CONTEXT_OUTPUT"
    and "\<forall>f \<in> set (reported r). 0 \<le> f_start f"
  shows "\<exists>ps hidden. sr_redacted_content r = concat (map render ps)
    \<and> slices ps = visible hidden content \<and> markers ps \<subseteq> set (sr_findings r)
    \<and> (\<forall>f \<in> set (reported r). \<forall>i. sensitive f \<and> in_span f i \<longrightarrow> hidden i)
    \<and> (\<forall>i. hidden i \<longrightarrow> (\<exists>f \<in> set (reported r). (f_category f = Secret \<or> f_category f = Pii) \<and> in_span f i))
    \<and> (\<forall>f \<in> set (reported r). sensitive f \<and> \<not> has_span f \<longrightarrow> withheld r)"
proof -
  have "name \<noteq> []" using assms(2) by (auto simp: ARTIFACT_INGEST_def CONTEXT_OUTPUT_def)
  then obtain pol where pol: "policy_named name = Inr pol"
    and r: "r = scan_with pl pol \<lparr>sq_text = content, sq_surface = surface, sq_path = path\<rparr>"
    using scan_textD[OF assms(1)] by blast
  note mask = masking_policy[OF pol assms(2)]
  note res = scan_with_result[of pl pol "\<lparr>sq_text = content, sq_surface = surface, sq_path = path\<rparr>", folded r reported_def]
  let ?fs = "aggregate (reported r)" and ?m = "to_redact pol (aggregate (reported r))"
  have body: "sr_redacted_content r = safety_redact content ?m" unfolding res(3) redact_body_def safety_redact_def by simp
  have "\<forall>f \<in> set ?m. 0 \<le> f_start f" using aggregate_start[OF assms(3)] by (auto simp: to_redact_def)
  then obtain ps where ps: "safety_redact content ?m = concat (map render ps)" "slices ps = visible (covered ?m) content"
      "markers ps \<subseteq> set ?m"
    using redact_spec by blast
  have hit: "covered ?m i" if f: "f \<in> set (reported r)" "sensitive f" "in_span f i" for f i
  proof -
    obtain g where g: "g \<in> set ?fs" "describes g f" using aggregate_describes[OF f(1)] by blast
    then have "in_span g i" "has_span g" "sensitive g" "f_category g \<noteq> ScannerError"
      using f sensitive_described[OF g(2) f(2)] by (auto simp: describes_def in_span_def has_span_def sensitive_def)
    then show ?thesis using g(1) by (auto simp: covered_def to_redact_def mask)
  qed
  have only: "\<exists>f \<in> set (reported r). (f_category f = Secret \<or> f_category f = Pii) \<and> in_span f i" if c: "covered ?m i" for i
  proof -
    obtain g where "g \<in> set ?fs" "sensitive g" "in_span g i" using c by (auto simp: covered_def to_redact_def mask)
    then have "category_covers ?fs (f_category g) i" "f_category g = Secret \<or> f_category g = Pii"
      by (auto simp: category_covers_def sensitive_def)
    then show ?thesis unfolding aggregate_covers by (auto simp: category_covers_def)
  qed
  have spanless: "withheld r" if f: "f \<in> set (reported r)" "sensitive f" "\<not> has_span f" for f
  proof -
    have "f \<in> set ?fs" using aggregate_describes[OF f(1)] f(3) by (auto simp: describes_def)
    moreover have "fst (decide_finding pol f) = [Quarantine]"
      using f mask[of f] by (auto simp: decide_finding_def sensitive_def)
    ultimately have "severity_of_decision Quarantine \<le> severity_of_decision (sr_decision r)"
      unfolding res(2) by (intro decide_finding_in) auto
    then show ?thesis unfolding withheld_def by (rule severe_withholds)
  qed
  have "markers ps \<subseteq> set (sr_findings r)" using ps(3) unfolding res(1) by (auto simp: to_redact_def)
  then show ?thesis using body ps(1,2) hit only spanless
    by (intro exI[of _ ps] exI[of _ "covered ?m"] conjI ballI allI impI) (simp, blast+)
qed

lemma run_engine_status: "eo_status (run_engine pl req ne) \<noteq> Skipped"
  by (auto simp: run_engine_def Let_def split: prod.splits sum.splits bool.splits scan_exc.splits)

lemma outcome_required:
  assumes "policy_named name = Inr pol" and "eo_status e \<noteq> Skipped" and "eo_required e" and "\<not> looked e"
  shows "fst (decide_outcome pol e) = [po_on_scanner_error pol] \<and> snd (snd (decide_outcome pol e))"
  using assms by (cases "eo_status e") (auto simp: decide_outcome_def looked_def broke_def)

lemma outcome_broke:
  "broke e \<Longrightarrow> set (fst (decide_outcome pol e)) = {if eo_required e then po_on_scanner_error pol else po_on_optional_engine_error pol}
    \<and> snd (snd (decide_outcome pol e))"
  by (simp add: decide_outcome_def)

lemma allowed_finding:
  assumes "fst (decide fs es pol) = Allow" and "f \<in> set fs" and "f_category f \<noteq> ScannerError"
  shows "rule_for pol f = None \<or> rule_for pol f = Some Allow"
proof -
  have "severity_of_decision d = 0 \<longleftrightarrow> d = Allow" for d by (cases d) auto
  then have "\<forall>d \<in> set (fst (decide_finding pol f)). d = Allow"
    using decide_finding_in[OF assms(2), of _ pol es] assms(1) by simp
  then show ?thesis using assms(3)
    by (cases "rule_for pol f") (auto simp: decide_finding_def Let_def split: if_splits)
qed


section \<open>Which engines are consulted\<close>

lemma build_all_lookup:
  "build_all loader cfg names = Inr es \<Longrightarrow>
    map_of es n = Some e \<longleftrightarrow> n \<in> set names \<and> build_engine loader n (ec_options (config_engine cfg n)) = Inr e"
  by (induction names arbitrary: es) (auto split: sum.splits prod.splits bool.splits if_splits)

lemma mem_map_filter: "x \<in> set (List.map_filter f xs) \<longleftrightarrow> (\<exists>y \<in> set xs. f y = Some x)"
  by (force simp: List.map_filter_def)

lemma engines_for_default:
  assumes "map_of (sc_surfaces (pl_config pl)) (po_name pol) = None"
  shows "fst ` set (engines_for pl pol) =
    {n. \<exists>e. map_of (pl_engines pl) n = Some e \<and> set (eg_capabilities e) \<inter> set (po_capabilities pol) \<noteq> {}}"
proof -
  have "set (engines_for pl pol) =
      {(n, e). map_of (pl_engines pl) n = Some e \<and> set (eg_capabilities e) \<inter> set (po_capabilities pol) \<noteq> {}}"
    using assms by (auto simp: engines_for_def mem_map_filter registry_names_def dest: map_of_SomeD)
      (metis fst_conv map_of_SomeD)
  then show ?thesis by (auto simp: image_iff)
qed

lemma run_engine_name [simp]: "eo_name (run_engine pl req ne) = fst ne"
  by (auto simp: run_engine_def Let_def split: prod.splits sum.splits bool.splits scan_exc.splits)


section \<open>Concrete scans\<close>

text \<open>Two engines report overlapping parts of a key; a third, required, cannot be built.\<close>

definition demo_finding :: "string \<Rightarrow> category \<Rightarrow> int \<Rightarrow> int \<Rightarrow> finding" where
  "demo_finding eng c a b = \<lparr>f_rule_id = ''rule'', f_category = c, f_risk_level = RiskHigh, f_message = [],
    f_start = a, f_end = b, f_engine = eng, f_engine_version = ''1'', f_confidence = 1,
    f_also_detected_by = [], f_metadata = []\<rparr>"

definition demo_loader :: constructor where
  "demo_loader name options =
    (if name = ''baseline'' then Inr \<lparr>eg_version = ''1'', eg_capabilities = [Secrets], eg_available = Inr True,
       eg_scan = (\<lambda>req. Inr (if length (sq_text req) = 12 then [demo_finding ''baseline'' Secret 4 8] else []))\<rparr>
     else if name = ''detect_secrets'' then Inr \<lparr>eg_version = ''1'', eg_capabilities = [Secrets, PiiData],
       eg_available = Inr True,
       eg_scan = (\<lambda>req. Inr (if length (sq_text req) = 12 then [demo_finding ''detect_secrets'' Secret 6 10]
                   else if length (sq_text req) = 5 then [demo_finding ''detect_secrets'' Pii 1 4] else []))\<rparr>
     else if name = ''gitleaks'' then Inr \<lparr>eg_version = ''1'', eg_capabilities = [RepositorySecrets],
       eg_available = Inr False, eg_scan = (\<lambda>req. Inr [])\<rparr>
     else Inl (False, ''model missing''))"

definition demo_config :: safety_config where
  "demo_config = \<lparr>sc_enabled = True,
    sc_engines = DEFAULT_ENGINES @ [(''detect_secrets'', \<lparr>ec_enabled = True, ec_required = False, ec_options = []\<rparr>),
      (''gitleaks'', \<lparr>ec_enabled = True, ec_required = True, ec_options = []\<rparr>),
      (''presidio'', \<lparr>ec_enabled = True, ec_required = True, ec_options = []\<rparr>)],
    sc_surfaces = []\<rparr>"

definition demo_pipeline :: pipeline where
  "demo_pipeline = \<lparr>pl_config = demo_config, pl_engines =
    List.map_filter (\<lambda>n. case demo_loader n [] of Inl x \<Rightarrow> None | Inr e \<Rightarrow> Some (n, e))
      [''baseline'', ''detect_secrets'', ''gitleaks'']\<rparr>"

definition demo_scan :: "string \<Rightarrow> string \<Rightarrow> safety_result" where
  "demo_scan name content = (case scan_text demo_pipeline content name (Some name) None of
     Inr r \<Rightarrow> r | Inl x \<Rightarrow> scan_with demo_pipeline (snd (hd POLICIES)) \<lparr>sq_text = [], sq_surface = [], sq_path = None\<rparr>)"

lemma demo_pipeline_built: "new_pipeline demo_loader demo_config = Inr demo_pipeline"
  by (simp add: new_pipeline_def demo_pipeline_def enabled_engines_def demo_config_def DEFAULT_ENGINES_def
      build_engine_def KNOWN_ENGINES_def config_engine_def demo_loader_def List.map_filter_def)

lemma demo_scan_text: "policy_named name = Inr pol \<Longrightarrow> name \<noteq> [] \<Longrightarrow>
    scan_text demo_pipeline content name (Some name) None = Inr (demo_scan name content)"
  by (simp add: demo_scan_def scan_text_def str_or_def)

lemma demo_policy: "\<exists>pol. policy_named CONTEXT_OUTPUT = Inr pol \<and> po_name pol = CONTEXT_OUTPUT
    \<and> po_capabilities pol = CONTEXT_CAPABILITIES" "CONTEXT_OUTPUT \<noteq> []"
  by (auto simp: policy_named_def POLICIES_def CONTEXT_OUTPUT_def ARTIFACT_INGEST_def)

theorem scan_masks_reported_witness:
  "sr_redacted_content (demo_scan CONTEXT_OUTPUT ''key=sk-12 ok'') = ''key=[REDACTED:secret:rule]ok''
    \<and> (\<exists>ps hidden. slices ps = visible hidden ''key=sk-12 ok'' \<and> hidden 4 \<and> hidden 9)"
proof
  show "sr_redacted_content (demo_scan CONTEXT_OUTPUT ''key=sk-12 ok'') = ''key=[REDACTED:secret:rule]ok''"
    by code_simp
  have ok: "\<forall>f \<in> set (reported (demo_scan CONTEXT_OUTPUT ''key=sk-12 ok'')). 0 \<le> f_start f"
    and rep: "demo_finding ''baseline'' Secret 4 8 \<in> set (reported (demo_scan CONTEXT_OUTPUT ''key=sk-12 ok''))"
      "demo_finding ''detect_secrets'' Secret 6 10 \<in> set (reported (demo_scan CONTEXT_OUTPUT ''key=sk-12 ok''))"
    by code_simp+
  have "sensitive (demo_finding ''baseline'' Secret 4 8)" "in_span (demo_finding ''baseline'' Secret 4 8) 4"
    "sensitive (demo_finding ''detect_secrets'' Secret 6 10)" "in_span (demo_finding ''detect_secrets'' Secret 6 10) 9"
    by (simp_all add: sensitive_def in_span_def demo_finding_def)
  note in_spans = this
  obtain pol where pol: "policy_named CONTEXT_OUTPUT = Inr pol" using demo_policy by blast
  obtain ps hidden where ps: "slices ps = visible hidden ''key=sk-12 ok''"
    and hid: "\<forall>f \<in> set (reported (demo_scan CONTEXT_OUTPUT ''key=sk-12 ok'')). \<forall>i. sensitive f \<and> in_span f i \<longrightarrow> hidden i"
    using scan_masks_reported[OF demo_scan_text[OF pol demo_policy(2)] disjI2[OF refl] ok] by (elim exE conjE)
  have "hidden 4" "hidden 9" using hid rep in_spans by blast+
  then show "\<exists>ps hidden. slices ps = visible hidden ''key=sk-12 ok'' \<and> hidden 4 \<and> hidden 9" using ps by blast
qed



end
