(* ===== verification/Context_Theorems.thy ===== *)
theory Context_Theorems
  imports Context Safety_Theorems
begin

text \<open>
  What a context pack guarantees: trust is never conferred by retrieval, a secret task queries no
  backend, the pack is bounded, ranked and free of duplicates, and a credential that an engine
  reported in an item does not reach the agent.
\<close>

declare py_str_nat.simps [simp del]

section \<open>Trust\<close>

definition trust_sound :: "memory_item \<Rightarrow> bool" where
  "trust_sound i \<longleftrightarrow> im_backend (mi_meta i) \<noteq> None \<and> im_role (mi_meta i) \<noteq> None \<and>
    (is_trusted i \<longrightarrow> authority_role i \<and> mi_status i = ''promoted'' \<and> im_authority_trusted (mi_meta i) \<noteq> Some False)"

lemma label_sound: "trust_sound (label i b r v)"
  by (auto simp: trust_sound_def label_def is_trusted_def authority_role_def Let_def split: option.splits)

lemma label_relabel: "label (label i b r v) b r None = label i b r v"
  by (simp add: label_def Let_def split: option.splits)

text \<open>A second label never restores trust that the authority withheld.\<close>

lemma label_downgrades: "\<not> is_trusted (label i TRUSTED_AUTHORITY b (Some False)) \<and>
    \<not> is_trusted (label (label i b' r' (Some False)) b r None)"
  by (auto simp: label_def is_trusted_def Let_def)

lemma noting_sound [simp]: "trust_sound (noting i ns) = trust_sound i"
  by (simp add: trust_sound_def noting_def is_trusted_def authority_role_def)

lemma merge_copy_sound: "trust_sound x \<Longrightarrow> trust_sound y \<Longrightarrow> trust_sound (merge_copy x y)"
  by (simp add: merge_copy_def)

lemma put_best_all:
  assumes merge: "\<And>x y. P x \<Longrightarrow> P y \<Longrightarrow> P (merge_copy x y)" and "\<forall>x \<in> snd ` set best. P x" and "P item"
  shows "\<forall>x \<in> snd ` set (put_best best k item). P x"
  using assms(2,3) by (induction best k item rule: put_best.induct) (auto intro: merge)

lemma foldl_add_all:
  assumes merge: "\<And>x y. P x \<Longrightarrow> P y \<Longrightarrow> P (merge_copy x y)" and "\<forall>x \<in> snd ` set best. P x" and "\<forall>x \<in> set items. P x"
  shows "\<forall>x \<in> snd ` set (foldl add_item best items). P x"
  using assms(2,3)
proof (induction items arbitrary: best)
  case (Cons x items)
  have "\<forall>y \<in> snd ` set (put_best best (normalize (mi_text x)) x). P y"
  proof (rule put_best_all)
    show "\<And>a b. P a \<Longrightarrow> P b \<Longrightarrow> P (merge_copy a b)" by (rule merge)
    show "\<forall>y \<in> snd ` set best. P y" by (rule Cons.prems(1))
    show "P x" using Cons.prems(2) by simp
  qed
  then have "\<forall>y \<in> snd ` set (add_item best x). P y"
    using Cons.prems(1) unfolding add_item_def Let_def by (simp only: split: if_split) blast
  moreover have "\<forall>y \<in> set items. P y" using Cons.prems(2) by simp
  ultimately show ?case unfolding foldl_Cons by (rule Cons.IH)
qed simp

lemma ranked_from_best:
  "i \<in> set (rp_items (merge_and_rank packs profile n)) \<Longrightarrow> i \<in> snd ` set (foldl add_item [] (concat (map rp_items packs)))"
  by (auto simp: merge_and_rank_def Let_def dest!: in_set_takeD intro: rev_image_eqI)

lemma merge_and_rank_sound:
  assumes "\<forall>p \<in> set packs. \<forall>i \<in> set (rp_items p). trust_sound i" and "i \<in> set (rp_items (merge_and_rank packs profile n))"
  shows "trust_sound i"
proof -
  have "\<forall>x \<in> snd ` set (foldl add_item [] (concat (map rp_items packs))). trust_sound x"
    by (rule foldl_add_all) (use assms(1) merge_copy_sound in auto)
  then show ?thesis using ranked_from_best[OF assms(2)] by blast
qed

section \<open>Scanning the items\<close>

definition digits_value :: "string \<Rightarrow> nat" where
  "digits_value s = foldl (\<lambda>a c. 10 * a + (of_char c - 48)) 0 s"

lemma digits_value_str: "digits_value (py_str_nat n) = n"
proof (induction n rule: py_str_nat.induct)
  case (1 n)
  show ?case
  proof (cases "n < 10")
    case True
    then show ?thesis by (simp add: digits_value_def py_str_nat.simps)
  next
    case False
    have "digits_value (py_str_nat n) = 10 * digits_value (py_str_nat (n div 10)) + n mod 10"
      using False by (simp add: digits_value_def py_str_nat.simps[of n])
    then show ?thesis using 1 False by simp
  qed
qed

lemma inj_py_str_nat: "inj py_str_nat"
  using digits_value_str by (metis injI)

definition context_scan :: "pipeline \<Rightarrow> string \<Rightarrow> safety_result" where
  "context_scan pl t = (case scan_text pl t CONTEXT_OUTPUT None None of
     Inr r \<Rightarrow> r | Inl x \<Rightarrow> scan_with pl (snd (hd POLICIES)) \<lparr>sq_text = t, sq_surface = [], sq_path = None\<rparr>)"

lemma context_scan_text: "scan_text pl t CONTEXT_OUTPUT None None = Inr (context_scan pl t)"
  by (simp add: context_scan_def scan_text_def str_or_def policy_named_def POLICIES_def CONTEXT_OUTPUT_def
      ARTIFACT_INGEST_def)

lemma scan_items_context:
  assumes "distinct (map fst items)"
  shows "\<exists>b'. scan_items pl items CONTEXT_OUTPUT b = Inr b'
    \<and> (\<forall>k t. (k, t) \<in> set items \<longrightarrow> map_of b' k = Some (context_scan pl t))
    \<and> (\<forall>k. k \<notin> fst ` set items \<longrightarrow> map_of b' k = map_of b k)"
  using assms
proof (induction items arbitrary: b)
  case (Cons x items)
  obtain k t where x: "x = (k, t)" by (cases x)
  obtain b' where b': "scan_items pl items CONTEXT_OUTPUT (AList.update k (context_scan pl t) b) = Inr b'"
      "\<forall>j u. (j, u) \<in> set items \<longrightarrow> map_of b' j = Some (context_scan pl u)"
      "\<forall>j. j \<notin> fst ` set items \<longrightarrow> map_of b' j = map_of (AList.update k (context_scan pl t) b) j"
    using Cons.IH[of "AList.update k (context_scan pl t) b"] Cons.prems by auto
  have "k \<notin> fst ` set items" using Cons.prems by (simp add: x)
  then have "map_of b' k = Some (context_scan pl t)" using b'(3) by (simp add: update_conv')
  then show ?case using b' by (intro exI[of _ b']) (auto simp: x context_scan_text update_conv')
qed simp

text \<open>What the scan of an item makes of it.\<close>

definition scanned_item :: "pipeline \<Rightarrow> memory_item \<Rightarrow> memory_item" where
  "scanned_item pl item =
    (let r = context_scan pl (mi_text item);
         item1 = (if redacted r then item\<lparr>mi_text := sr_redacted_content r\<rparr> else item)
     in if sr_labels r \<noteq> [] then item1\<lparr>mi_meta := (mi_meta item1)\<lparr>im_safety_labels := Some (sr_labels r)\<rparr>\<rparr> else item1)"

lemma map_filter_enumerate:
  "(\<And>i. i < length xs \<Longrightarrow> f (n + i, xs ! i) = g (xs ! i)) \<Longrightarrow> List.map_filter f (enumerate n xs) = List.map_filter g xs"
proof (induction xs arbitrary: n)
  case (Cons x xs)
  have "f (n, x) = g x" using Cons.prems[of 0] by simp
  moreover have "List.map_filter f (enumerate (Suc n) xs) = List.map_filter g xs"
    using Cons.IH[of "Suc n"] Cons.prems[of "Suc _"] by simp
  ultimately show ?case by (simp split: option.split)
qed simp

text \<open>\<open>apply_safety\<close> is item by item: items whose scan withholds are left out, the others scanned.\<close>

lemma apply_safety_exact:
  "fst (apply_safety True pl items) =
    List.map_filter (\<lambda>x. if withheld (context_scan pl (mi_text x)) then None else Some (scanned_item pl x)) items"
proof (cases "items = []")
  case False
  let ?ids = "map (\<lambda>(i, item). (py_str_nat i, mi_text item)) (enumerate 0 items)"
  have "map fst ?ids = map py_str_nat [0..<length items]"
  proof -
    have "map fst ?ids = map py_str_nat (map fst (enumerate 0 items))"
      by (simp add: comp_def split_beta del: map_fst_enumerate)
    then show ?thesis by simp
  qed
  then have "distinct (map fst ?ids)" by (metis inj_py_str_nat distinct_map distinct_upt inj_on_subset subset_UNIV)
  then obtain b where b: "scan_items pl ?ids CONTEXT_OUTPUT [] = Inr b"
      "\<forall>k t. (k, t) \<in> set ?ids \<longrightarrow> map_of b k = Some (context_scan pl t)"
    using scan_items_context[of ?ids pl "[]"] by blast
  have "map_of b (py_str_nat i) = Some (context_scan pl (mi_text (items ! i)))" if "i < length items" for i
    using b(2) that by (force simp: in_set_enumerate_eq)
  then show ?thesis using False b(1)
    by (auto simp: apply_safety_def scanned_item_def Let_def intro!: map_filter_enumerate)
qed (simp add: apply_safety_def)

lemma scanned_item_sound: "trust_sound (scanned_item pl i) = trust_sound i"
  by (simp add: scanned_item_def Let_def trust_sound_def is_trusted_def authority_role_def)

section \<open>Ranking\<close>

lemma noting_simps [simp]: "authority (noting i ns) = authority i" "mi_text (noting i ns) = mi_text i"
  by (simp_all add: noting_def authority_def is_trusted_def Let_def)

lemma merge_copy_authority: "authority (merge_copy x y) = min (authority x) (authority y)"
  by (simp add: merge_copy_def)

lemma merge_copy_text: "normalize (mi_text x) = k \<Longrightarrow> normalize (mi_text y) = k \<Longrightarrow> normalize (mi_text (merge_copy x y)) = k"
  by (simp add: merge_copy_def)

definition best_ok :: "(string \<times> memory_item) list \<Rightarrow> bool" where
  "best_ok best \<longleftrightarrow> distinct (map fst best) \<and> (\<forall>kx \<in> set best. normalize (mi_text (snd kx)) = fst kx)"

text \<open>A copy at least as authoritative as \<open>x\<close> is among the items.\<close>

definition represented :: "memory_item list \<Rightarrow> memory_item \<Rightarrow> bool" where
  "represented ys x \<longleftrightarrow> (\<exists>y \<in> set ys. normalize (mi_text y) = normalize (mi_text x) \<and> authority y \<le> authority x)"

lemma represented_Cons:
  "represented (y # ys) x \<longleftrightarrow> (normalize (mi_text y) = normalize (mi_text x) \<and> authority y \<le> authority x) \<or> represented ys x"
  by (auto simp: represented_def)

lemma best_ok_Cons:
  "best_ok ((j, x) # best) \<longleftrightarrow> j \<notin> fst ` set best \<and> normalize (mi_text x) = j \<and> best_ok best"
  by (auto simp: best_ok_def)

lemma put_best_ok:
  assumes "best_ok best" and "normalize (mi_text item) = k"
  shows "best_ok (put_best best k item) \<and> fst ` set (put_best best k item) = insert k (fst ` set best)
    \<and> represented (map snd (put_best best k item)) item
    \<and> (\<forall>x. represented (map snd best) x \<longrightarrow> represented (map snd (put_best best k item)) x)"
  using assms
proof (induction best k item rule: put_best.induct)
  case (1 k item)
  then show ?case by (auto simp: best_ok_def represented_def)
next
  case (2 j x best k item)
  have ok: "best_ok best" and jx: "normalize (mi_text x) = j" "j \<notin> fst ` set best"
    using 2(2) by (auto simp: best_ok_Cons)
  show ?case
  proof (cases "j = k")
    case True
    have m: "normalize (mi_text (merge_copy x item)) = k" using jx 2(3) True by (simp add: merge_copy_text)
    then show ?thesis using True ok jx 2(3)
      by (auto simp: best_ok_Cons represented_Cons merge_copy_authority)
  next
    case False
    then show ?thesis using 2(1)[OF False ok 2(3)] jx
      by (auto simp: best_ok_Cons represented_Cons)
  qed
qed

lemma foldl_add_ok:
  assumes "best_ok best"
  shows "best_ok (foldl add_item best items)
    \<and> (\<forall>x. represented (map snd best) x \<or> x \<in> set items \<and> normalize (mi_text x) \<noteq> []
          \<longrightarrow> represented (map snd (foldl add_item best items)) x)"
  using assms
proof (induction items arbitrary: best)
  case (Cons i items)
  have step: "best_ok (add_item best i)" "\<forall>x. represented (map snd best) x \<longrightarrow> represented (map snd (add_item best i)) x"
    "normalize (mi_text i) \<noteq> [] \<Longrightarrow> represented (map snd (add_item best i)) i"
    using put_best_ok[OF Cons.prems refl, of i] Cons.prems by (auto simp: add_item_def Let_def)
  show ?case unfolding foldl_Cons using Cons.IH[OF step(1)] step(2,3) by auto
qed simp

text \<open>
  C22. The pack is bounded, ordered and says everything once: ranking returns no more items than asked
  for, by authority, no two of them with the same normalized text; and of everything the ledger and
  the backends returned, a copy at least as authoritative is in the pack, unless the pack is full
  of items that are no less authoritative.
\<close>
theorem ranking_exact:
  fixes packs profile n
  defines "items \<equiv> rp_items (merge_and_rank packs profile n)"
  shows "length items \<le> nat n \<and> sorted (map authority items) \<and> distinct (map (normalize \<circ> mi_text) items)
    \<and> (\<forall>p \<in> set packs. \<forall>x \<in> set (rp_items p). normalize (mi_text x) \<noteq> [] \<longrightarrow>
         represented items x \<or> length items = nat n \<and> (\<forall>y \<in> set items. authority y \<le> authority x))"
proof -
  let ?best = "foldl add_item [] (concat (map rp_items packs))"
  let ?ranked = "sort_key rank_key (map snd ?best)"
  have "nat (max 0 n) = nat n" by (cases "0 \<le> n") auto
  then have items: "items = take (nat n) ?ranked" by (simp add: items_def merge_and_rank_def Let_def)
  have best: "best_ok ?best" "\<forall>p \<in> set packs. \<forall>x \<in> set (rp_items p). normalize (mi_text x) \<noteq> [] \<longrightarrow> represented (map snd ?best) x"
    using foldl_add_ok[of "[]" "concat (map rp_items packs)"] by (auto simp: best_ok_def)
  have keys: "map (normalize \<circ> mi_text) (map snd ?best) = map fst ?best"
    using best(1) by (auto simp: best_ok_def)
  have "distinct (map (normalize \<circ> mi_text) ?ranked)"
    using best(1) keys unfolding best_ok_def by (metis distinct_map distinct_sort set_sort)
  moreover have ranks: "sorted (map authority ?ranked)"
    using sorted_sort_key[of rank_key "map snd ?best"] unfolding sorted_map
    by (rule sorted_wrt_mono_rel[rotated]) (auto simp: less_eq_prod_def rank_key_def)
  moreover have "represented items x \<or> length items = nat n \<and> (\<forall>y \<in> set items. authority y \<le> authority x)"
    if rep: "represented (map snd ?best) x" for x
  proof -
    obtain y where y: "y \<in> set ?ranked" "normalize (mi_text y) = normalize (mi_text x)" "authority y \<le> authority x"
      using rep by (auto simp: represented_def)
    show ?thesis
    proof (cases "y \<in> set items")
      case False
      then have "y \<in> set (drop (nat n) ?ranked)" using y(1) items by (metis Un_iff append_take_drop_id set_append)
      moreover from this have "nat n \<le> length ?ranked" by (metis drop_all empty_iff empty_set nat_le_linear)
      moreover have "sorted_wrt (\<lambda>a b. authority a \<le> authority b) (take (nat n) ?ranked @ drop (nat n) ?ranked)"
        using ranks by (simp only: sorted_map append_take_drop_id)
      ultimately have "nat n \<le> length ?ranked" and "\<forall>z \<in> set items. authority z \<le> authority y"
        unfolding items sorted_wrt_append by blast+
      then show ?thesis using y(3) by (auto simp: items intro: order_trans)
    qed (use y in \<open>auto simp: represented_def\<close>)
  qed
  moreover have "length items \<le> nat n" by (simp add: items)
  moreover have "map f items = take (nat n) (map f ?ranked)" for f :: "memory_item \<Rightarrow> 'z" by (simp add: items take_map)
  ultimately show ?thesis using best(2) sorted_wrt_take distinct_take by metis
qed

section \<open>The pack\<close>

lemma ledger_items_sound: "i \<in> set (ledger_items cfg d) \<Longrightarrow> trust_sound i"
  by (auto simp: ledger_items_def ledger_item_def label_sound)

lemma recall_from_sound: "fst (recall_from adapters n r) = Some q \<Longrightarrow> i \<in> set (rp_items q) \<Longrightarrow> trust_sound i"
  by (auto simp: recall_from_def label_sound split: option.splits sum.splits)

text \<open>What a pack is made of.\<close>

lemma pack_parts:
  assumes "build_context_pack cb get_task get_handoff rq = (Inr pack, requests)"
  obtains p d packs where "profile_named (cb_config cb) (pq_profile rq) = Inr p" and "get_task (pq_task_id rq) = Inr d"
    and "\<forall>q \<in> set packs. \<forall>i \<in> set (rp_items q). trust_sound i"
    and "rp_items (cp_memory pack) = fst (apply_safety (cb_safety_enabled cb) (cb_pipeline cb)
      (rp_items (merge_and_rank packs (pq_profile rq)
        (case pq_max_items rq of None \<Rightarrow> pr_max_items p | Some n \<Rightarrow> if n = 0 then pr_max_items p else n))))"
    and "map fst requests = cp_backends_queried pack"
    and "cp_backends_queried pack = (if mg_enabled (cb_config cb) \<and> effective_privacy d \<noteq> SecretSensitive
      then select_backends (cb_config cb) (cb_adapters cb) p else [])"
    and "effective_privacy d = SecretSensitive \<longrightarrow> withheld_warning \<in> set (cp_warnings pack)"
proof -
  obtain p where p: "profile_named (cb_config cb) (pq_profile rq) = Inr p"
    using assms by (auto simp: build_context_pack_def split: sum.splits)
  obtain d where d: "get_task (pq_task_id rq) = Inr d"
    using assms by (auto simp: build_context_pack_def p split: sum.splits)
  obtain h where h: "(if pr_include_handoff p then map_sum id Some (get_handoff (pq_task_id rq) (pq_manager_id rq)) else Inr None) = Inr h"
    using assms by (auto simp: build_context_pack_def p d split: sum.splits)
  obtain scopes missing where sc: "resolve_scopes p d (cb_config cb) (pq_manager_id rq) (pq_worker_id rq) (pq_model_id rq) = Inr (scopes, missing)"
    using assms by (auto simp: build_context_pack_def p d h split: sum.splits)
  let ?budget = "case pq_max_items rq of None \<Rightarrow> pr_max_items p | Some n \<Rightarrow> if n = 0 then pr_max_items p else n"
  let ?query = "str_or (pq_query rq) (py_strip (td_title d @ [CHR 10] @ td_goal d))"
  let ?backends = "if mg_enabled (cb_config cb) \<and> effective_privacy d \<noteq> SecretSensitive
      then select_backends (cb_config cb) (cb_adapters cb) p else []"
  let ?requests = "map (\<lambda>n. (n, request_for (cb_adapters cb) p (pq_task_id rq) (pq_profile rq) ?query scopes ?budget
      (pq_include_pending rq) n)) ?backends"
  let ?answers = "map (\<lambda>(n, r). recall_from (cb_adapters cb) n r) ?requests"
  let ?ledger = "if pr_include_ledger p then ledger_items (cb_config cb) d else []"
  let ?packs = "(if ?ledger = [] then [] else [\<lparr>rp_profile = pq_profile rq, rp_query = ?query, rp_items = ?ledger,
      rp_warnings = [], rp_backend = ''agentconnect''\<rparr>]) @ List.map_filter fst ?answers"
  have sound: "\<forall>q \<in> set ?packs. \<forall>i \<in> set (rp_items q). trust_sound i"
    by (auto simp: mem_map_filter intro: ledger_items_sound dest: recall_from_sound split: if_splits)
  have built: "requests = ?requests \<and> cp_backends_queried pack = ?backends
    \<and> rp_items (cp_memory pack) = fst (apply_safety (cb_safety_enabled cb) (cb_pipeline cb)
        (rp_items (merge_and_rank ?packs (pq_profile rq) ?budget)))
    \<and> (effective_privacy d = SecretSensitive \<longrightarrow> withheld_warning \<in> set (cp_warnings pack))"
    using assms unfolding build_context_pack_def p d h sc sum.case prod.case Let_def
    by (auto simp: first_seen_def split: prod.splits)
  show ?thesis by (rule that[OF p d sound]) (use built in \<open>auto simp: comp_def\<close>)
qed

text \<open>
  C19. A secret task stays inside: when a subtask is secret or the task is declared so, a pack is built
  without a request to any memory backend, names none as queried, and says that recall was
  withheld.
\<close>
theorem secret_task_not_recalled:
  assumes "build_context_pack cb get_task get_handoff rq = (Inr pack, requests)" and "get_task (pq_task_id rq) = Inr d"
    and "SecretSensitive \<in> set (td_subtask_tiers d) \<or> td_privacy d = Some ''secret_sensitive''"
  shows "requests = [] \<and> cp_backends_queried pack = [] \<and> withheld_warning \<in> set (cp_warnings pack)"
proof -
  have "declared_tier ''secret_sensitive'' = Some SecretSensitive" by (simp add: declared_tier_def)
  then have "SecretSensitive \<in> set (td_subtask_tiers d @ declared_tiers d)"
    using assms(3) by (elim disjE) (simp_all add: declared_tiers_def)
  from strictest_bound[OF this] have "effective_privacy d = SecretSensitive"
    unfolding effective_privacy_def by (cases "strictest (td_subtask_tiers d @ declared_tiers d)") auto
  note secret = this
  show ?thesis
  proof (rule pack_parts[OF assms(1)])
    fix p e
    assume "get_task (pq_task_id rq) = Inr e" and names: "map fst requests = cp_backends_queried pack"
      and backends: "cp_backends_queried pack = (if mg_enabled (cb_config cb) \<and> effective_privacy e \<noteq> SecretSensitive
        then select_backends (cb_config cb) (cb_adapters cb) p else [])"
      and warn: "effective_privacy e = SecretSensitive \<longrightarrow> withheld_warning \<in> set (cp_warnings pack)"
    then have "e = d" using assms(2) by simp
    then show ?thesis using names backends warn secret by simp
  qed
qed

lemma delivered_item:
  assumes "i \<in> set (fst (apply_safety enabled pl items))"
  shows "\<exists>x \<in> set items. i = (if enabled then scanned_item pl x else x)
    \<and> (enabled \<longrightarrow> \<not> withheld (context_scan pl (mi_text x)))"
proof (cases enabled)
  case True
  then show ?thesis using assms by (auto simp: apply_safety_exact mem_map_filter split: if_splits)
next
  case False
  then show ?thesis using assms by (simp add: apply_safety_def)
qed


section \<open>What an agent reads\<close>

lemma context_scan_named: "scan_text pl t CONTEXT_OUTPUT (Some CONTEXT_OUTPUT) None = Inr (context_scan pl t)"
  by (simp add: context_scan_def scan_text_def str_or_def policy_named_def POLICIES_def CONTEXT_OUTPUT_def
      ARTIFACT_INGEST_def)

text \<open>
  An item that is delivered although an engine reported a credential of medium or high risk in it
  has been redacted: the decision is then neither weaker nor stronger than to redact.
\<close>

lemma secret_item_redacted:
  assumes "f \<in> set (reported (context_scan pl t))" and "f_category f = Secret" and "sensitive f"
    and "\<not> withheld (context_scan pl t)"
  shows "redacted (context_scan pl t)"
proof -
  let ?r = "context_scan pl t"
  have ne: "CONTEXT_OUTPUT \<noteq> []" by (simp add: CONTEXT_OUTPUT_def)
  obtain pol where pol: "policy_named CONTEXT_OUTPUT = Inr pol"
    and r: "?r = scan_with pl pol \<lparr>sq_text = t, sq_surface = CONTEXT_OUTPUT, sq_path = None\<rparr>"
    using scan_textD[OF context_scan_named ne] by blast
  note res = scan_with_result[of pl pol "\<lparr>sq_text = t, sq_surface = CONTEXT_OUTPUT, sq_path = None\<rparr>", folded r reported_def]
  obtain g where g: "g \<in> set (sr_findings ?r)" "describes g f"
    using aggregate_describes[OF assms(1)] unfolding res(1) by blast
  have gs: "sensitive g" "f_category g = Secret"
    using sensitive_described[OF g(2) assms(3)] g(2) assms(2) by (simp_all add: describes_def)
  then have "rule_for pol g = Some Redact" using masking_policy[OF pol disjI2[OF refl]] by blast
  then have "\<exists>d \<in> set (fst (decide_finding pol g)). 2 \<le> severity_of_decision d"
    using gs(2) by (auto simp: decide_finding_def)
  then obtain d where "d \<in> set (fst (decide_finding pol g))" "2 \<le> severity_of_decision d" by blast
  then have "2 \<le> severity_of_decision (sr_decision ?r)"
    unfolding res(2) using decide_finding_in[OF g(1)[unfolded res(1)]] order_trans by blast
  then have "sr_decision ?r = Redact" using assms(4) by (cases "sr_decision ?r") (auto simp: withheld_def)
  then show ?thesis using g(1) gs(2) by (auto simp: redacted_def)
qed



section \<open>A concrete pack\<close>

text \<open>The trusted authority answers with three claims, of which it trusts the first two.\<close>

definition demo_claim :: "string \<Rightarrow> bool \<Rightarrow> raw_claim" where
  "demo_claim t trusted = \<lparr>rw_id = Some ''claim_1'', rw_text = t, rw_status = Some ''promoted'', rw_confidence = Some ''high'',
    rw_source_id = Some ''s1'', rw_source_url = None, rw_superseded_by = None, rw_valid_from = None, rw_valid_until = None,
    rw_scope = None, rw_safety = None, rw_contradiction_status = None, rw_contradicted = False,
    rw_trusted = Some trusted, rw_meta = no_meta\<rparr>"

definition demo_builder :: builder where
  "demo_builder = \<lparr>cb_adapters = [(''wikibrain'', \<lparr>ad_backend_name = ''wikibrain'', ad_role = TRUSTED_AUTHORITY,
      ad_recall = wikibrain_recall ''wikibrain''
        (\<lambda>req. Inr ([demo_claim ''key=sk-12 ok'' True, demo_claim ''abcde'' True, demo_claim ''disputed'' False], []))\<rparr>)],
    cb_config = default_memory_config, cb_safety_enabled = True, cb_pipeline = demo_pipeline\<rparr>"

definition demo_detail :: "privacy_tier \<Rightarrow> task_detail" where
  "demo_detail tier = \<lparr>td_id = ''t1'', td_title = ''Fix'', td_goal = ''it'', td_current_manager = None, td_project_id = None,
    td_repo_id = Some ''r1'', td_privacy = None, td_constraints = [], td_decisions = [], td_subtask_tiers = [tier]\<rparr>"

definition demo_pack_request :: pack_request where
  "demo_pack_request = \<lparr>pq_task_id = ''t1'', pq_profile = ''worker_brief'', pq_query = None, pq_max_items = None,
    pq_manager_id = None, pq_include_pending = False, pq_worker_id = None, pq_model_id = None\<rparr>"

definition demo_build :: "privacy_tier \<Rightarrow> (context_exc + context_pack) \<times> (string \<times> recall_request) list" where
  "demo_build tier = build_context_pack demo_builder (\<lambda>t. Inr (demo_detail tier)) (\<lambda>t m. Inr ''handoff'') demo_pack_request"

lemma demo_texts: "map_sum id (\<lambda>p. map mi_text (rp_items (cp_memory p))) (fst (demo_build RepoSensitive))
    = Inr [''key=[REDACTED:secret:rule]ok'', ''abcde'']"
  by code_simp


definition demo_pack :: context_pack where
  "demo_pack = (case fst (demo_build RepoSensitive) of Inr p \<Rightarrow> p | Inl x \<Rightarrow>
    \<lparr>cp_task_id = [], cp_profile = [], cp_handoff = None, cp_memory = merge_and_rank [] [] 0,
     cp_backends_queried = [], cp_scopes_queried = [], cp_warnings = []\<rparr>)"

lemma demo_pack_built: "build_context_pack demo_builder (\<lambda>t. Inr (demo_detail RepoSensitive)) (\<lambda>t m. Inr ''handoff'')
    demo_pack_request = (Inr demo_pack, snd (demo_build RepoSensitive))"
  using demo_texts by (cases "demo_build RepoSensitive") (auto simp: demo_build_def demo_pack_def split: sum.splits)

lemma demo_pack_texts: "map mi_text (rp_items (cp_memory demo_pack)) = [''key=[REDACTED:secret:rule]ok'', ''abcde'']"
proof (cases "fst (demo_build RepoSensitive)")
  case (Inr p)
  then show ?thesis using demo_texts by (simp add: demo_pack_def)
qed (use demo_texts in simp)




theorem secret_task_not_recalled_witness: "snd (demo_build SecretSensitive) = []"
proof -
  have "map_sum id (\<lambda>p. ()) (fst (demo_build SecretSensitive)) = Inr ()" by code_simp
  then obtain pack where "demo_build SecretSensitive = (Inr pack, snd (demo_build SecretSensitive))"
    by (cases "demo_build SecretSensitive"; cases "fst (demo_build SecretSensitive)") auto
  from secret_task_not_recalled[OF this[unfolded demo_build_def[of SecretSensitive]] refl] show ?thesis
    by (simp add: demo_detail_def demo_build_def)
qed

text \<open>A claim of the ledger and a search hit with the same words.\<close>

definition demo_packs :: "recall_pack list" where
  "demo_packs = [\<lparr>rp_profile = [], rp_query = [], rp_items = [cognee_item \<lparr>rh_text = ''Use WAL!'', rh_source_id = Some ''d1'',
      rh_source_url = None, rh_score = Some 1\<rparr>], rp_warnings = [], rp_backend = ''cognee''\<rparr>,
    \<lparr>rp_profile = [], rp_query = [], rp_items = [ledger_item ''use wal'' ''c1'' ''constraint''], rp_warnings = [],
      rp_backend = ''agentconnect''\<rparr>]"

theorem ranking_exact_witness:
  "length (rp_items (merge_and_rank demo_packs [] 3)) \<le> 3
    \<and> represented (rp_items (merge_and_rank demo_packs [] 3)) (ledger_item ''use wal'' ''c1'' ''constraint'')"
proof -
  have "\<exists>p \<in> set demo_packs. ledger_item ''use wal'' ''c1'' ''constraint'' \<in> set (rp_items p)" by (simp add: demo_packs_def)
  moreover have "normalize (mi_text (ledger_item ''use wal'' ''c1'' ''constraint'')) \<noteq> []" by code_simp
  moreover have "length (rp_items (merge_and_rank demo_packs [] 3)) = 1" by code_simp
  ultimately show ?thesis using ranking_exact[of demo_packs "[]" 3] by fastforce
qed

end
