(* ===== verification/Http_Authz.thy ===== *)
theory Http_Authz
  imports Sessions
begin

text \<open>
  Authentication and authorization of the HTTP interface (\<^verbatim>\<open>api/authz.py\<close>): the table of the actions of
  the routes, the credential of a request, the check applied to every route, and the actor that a
  handler may record. The web framework gives the method, the template of the matched route, the
  path parameters and the headers; the decision is \<open>authorize\<close>.
\<close>

definition PUBLIC_ROUTES :: "(string \<times> string) list" where
  "PUBLIC_ROUTES = [(''GET'', ''/health''), (''GET'', ''/ready''), (''GET'', ''/observe'')]"

definition ROUTE_ACTIONS :: "((string \<times> string) \<times> string) list" where
  "ROUTE_ACTIONS =
    [((''POST'', ''/tasks''), ''create_task''),
     ((''GET'', ''/tasks''), ''list_tasks''),
     ((''GET'', ''/tasks/{task_id}''), ''get_task''),
     ((''GET'', ''/tasks/{task_id}/handoff''), ''get_task''),
     ((''POST'', ''/tasks/{task_id}/handoff/regenerate''), ''get_handoff_summary''),
     ((''POST'', ''/tasks/{task_id}/claim''), ''claim_task''),
     ((''POST'', ''/tasks/{task_id}/release''), ''release_task''),
     ((''POST'', ''/tasks/{task_id}/constraints''), ''add_constraint''),
     ((''POST'', ''/tasks/{task_id}/decisions''), ''record_decision''),
     ((''POST'', ''/tasks/{task_id}/attempts''), ''record_attempt''),
     ((''POST'', ''/tasks/{task_id}/subtasks''), ''submit_subtask''),
     ((''GET'', ''/subtasks/{subtask_id}''), ''get_subtask_status''),
     ((''POST'', ''/subtasks/{subtask_id}/cancel''), ''cancel_subtask''),
     ((''GET'', ''/subtasks/{subtask_id}/route''), ''explain_route''),
     ((''POST'', ''/route/decide''), ''decide_route''),
     ((''POST'', ''/subtasks/{subtask_id}/approve''), ''approve_subtask''),
     ((''POST'', ''/subtasks/{subtask_id}/deny''), ''deny_subtask''),
     ((''POST'', ''/tasks/{task_id}/reviews''), ''request_review''),
     ((''GET'', ''/reviews/{review_id}''), ''get_review''),
     ((''POST'', ''/reviews/{review_id}/claim''), ''claim_review''),
     ((''POST'', ''/reviews/{review_id}/result''), ''complete_review''),
     ((''POST'', ''/tasks/{task_id}/artifacts''), ''register_artifact''),
     ((''GET'', ''/tasks/{task_id}/artifacts''), ''list_artifacts''),
     ((''GET'', ''/artifacts/{artifact_id}''), ''read_artifact_chunk''),
     ((''GET'', ''/artifacts/{artifact_id}/chunk''), ''read_artifact_chunk''),
     ((''POST'', ''/memory/recall''), ''recall_memory''),
     ((''POST'', ''/memory/capture''), ''capture_memory_candidate''),
     ((''POST'', ''/memory/feedback''), ''record_memory_feedback''),
     ((''GET'', ''/memory/pending''), ''list_pending_memory''),
     ((''POST'', ''/memory/promote''), ''promote_memory_candidate''),
     ((''GET'', ''/memory/health''), ''get_status''),
     ((''GET'', ''/metrics''), ''get_status''),
     ((''GET'', ''/tasks/{task_id}/context-pack''), ''get_task_context_pack''),
     ((''GET'', ''/managers/{manager_id}/inbox''), ''get_inbox''),
     ((''POST'', ''/linear/sync''), ''linear_sync''),
     ((''GET'', ''/linear/tasks/{task_id}''), ''get_task''),
     ((''GET'', ''/workflows/{workflow_id}''), ''get_execution_status''),
     ((''POST'', ''/workflows/{workflow_id}/signal''), ''temporal_signal''),
     ((''POST'', ''/sessions/launch''), ''launch_session''),
     ((''GET'', ''/sessions''), ''list_sessions''),
     ((''GET'', ''/sessions/{session_id}''), ''list_sessions''),
     ((''POST'', ''/sessions/{session_id}/end''), ''end_session''),
     ((''GET'', ''/workspaces''), ''list_workspaces''),
     ((''GET'', ''/workspaces/{workspace_id}''), ''list_workspaces''),
     ((''GET'', ''/tasks/{task_id}/audit''), ''audit_task''),
     ((''GET'', ''/reviews/{review_id}/audit''), ''audit_review''),
     ((''POST'', ''/tasks/{task_id}/complete''), ''complete_task''),
     ((''POST'', ''/tasks/{task_id}/complete/override''), ''force_complete_task''),
     ((''POST'', ''/reviews/{review_id}/complete''), ''complete_review''),
     ((''GET'', ''/events''), ''list_events''),
     ((''GET'', ''/events/stream''), ''list_events''),
     ((''POST'', ''/events''), ''publish_event''),
     ((''GET'', ''/observe/tree''), ''observe_tree'')]"

definition WEBHOOK_ROUTES :: "(string \<times> string) list" where
  "WEBHOOK_ROUTES = [(''POST'', ''/linear/webhook'')]"

record principal =
  pr_actor :: string
  pr_mode :: string
  pr_session_id :: string
  pr_task_id :: "string option"
  pr_review_id :: "string option"
  pr_actions :: "string list"

definition is_operator :: "principal \<Rightarrow> bool" where
  "is_operator who \<longleftrightarrow> pr_mode who = ''operator''"

definition principal_from_scope :: "token_scope \<Rightarrow> principal" where
  "principal_from_scope scope =
    \<lparr>pr_actor = str_or (Some (sc_manager_id scope)) ''unknown'', pr_mode = str_or (Some (sc_mode scope)) ''unknown'',
     pr_session_id = sc_session_id scope, pr_task_id = sc_task_id scope, pr_review_id = sc_review_id scope,
     pr_actions = sc_actions scope\<rparr>"

text \<open>A request as the framework hands it on; \<open>hq_route\<close> is the template of the route, if one matched.\<close>

record http_request =
  hq_method :: string
  hq_route :: "string option"
  hq_authorization :: "string option"
  hq_token :: "string option"
  hq_task_id :: "string option"
  hq_review_id :: "string option"

text \<open>A refusal: a status with its code, or an error of the service.\<close>

datatype http_error = HttpError nat string | ServiceError core_error

definition lower_char :: "char \<Rightarrow> char" where
  "lower_char c = (let n = (of_char c :: nat) in if 65 \<le> n \<and> n \<le> 90 then char_of (n + 32) else c)"

definition bearer_token :: "http_request \<Rightarrow> http_error + string option" where
  "bearer_token rq =
    (if str_or (hq_authorization rq) [] \<noteq> [] then
       (case py_partition (CHR '' '') (str_or (hq_authorization rq) []) of
          (scheme, v) \<Rightarrow>
            if map lower_char scheme \<noteq> ''bearer'' \<or> py_strip v = [] then Inl (HttpError 401 ''unauthenticated'')
            else Inr (Some (py_strip v)))
     else let direct = py_strip (str_or (hq_token rq) []) in Inr (if direct = [] then None else Some direct))"

definition route_key :: "http_request \<Rightarrow> (string \<times> string) option" where
  "route_key rq = (case hq_route rq of None \<Rightarrow> None
     | Some path \<Rightarrow> if path = [] then None else Some (py_upper (hq_method rq), path))"

text \<open>\<open>enforce\<close> lets an exempt route pass without a principal.\<close>

definition enforce ::
  "(string \<Rightarrow> string) \<Rightarrow> token_row list \<Rightarrow> real \<Rightarrow> http_request \<Rightarrow> http_error + principal option" where
  "enforce hash_token rows now rq =
    (case route_key rq of
       None \<Rightarrow> Inr None
     | Some key \<Rightarrow>
         if key \<in> set PUBLIC_ROUTES \<or> key \<in> set WEBHOOK_ROUTES then Inr None
         else case map_of ROUTE_ACTIONS key of
           None \<Rightarrow> Inl (HttpError 500 ''unmapped_route'')
         | Some action \<Rightarrow>
             (case bearer_token rq of
                Inl x \<Rightarrow> Inl x
              | Inr None \<Rightarrow> Inl (HttpError 401 ''unauthenticated'')
              | Inr (Some token) \<Rightarrow>
                  (case authorize hash_token rows now (Some token) action (hq_task_id rq) (hq_review_id rq) None of
                     Inl e \<Rightarrow> Inl (ServiceError e)
                   | Inr (scope, _) \<Rightarrow> Inr (Some (principal_from_scope scope)))))"

definition assert_actor :: "principal option \<Rightarrow> string option \<Rightarrow> http_error + string" where
  "assert_actor found claimed =
    (case found of
       None \<Rightarrow> Inl (HttpError 401 ''unauthenticated'')
     | Some who \<Rightarrow>
         if str_or claimed [] = [] \<or> claimed = Some (pr_actor who) then Inr (pr_actor who)
         else if is_operator who then Inr (str_or claimed [])
         else Inl (ServiceError PolicyViolation))"

section \<open>What a request can reach\<close>

lemma enforce_principalD:
  assumes "enforce h rows now rq = Inr (Some who)"
  obtains key action token scope obs where "route_key rq = Some key" "map_of ROUTE_ACTIONS key = Some action"
    "bearer_token rq = Inr (Some token)" "who = principal_from_scope scope"
    "authorize h rows now (Some token) action (hq_task_id rq) (hq_review_id rq) None = Inr (scope, obs)"
  using assms by (auto simp: enforce_def split: option.splits sum.splits if_splits)

lemma bearer_token_nonempty: "bearer_token rq = Inr (Some token) \<Longrightarrow> token \<noteq> []"
  by (auto simp: bearer_token_def Let_def split: if_splits prod.splits)

text \<open>The scope of a live token is that of an agent bound to a task, of an operator or of a publisher.\<close>

lemma authorized_kind:
  assumes "token_run h [] rows"
    and "authorize h rows now token action task_id review_id sp = Inr (scope, obs)"
  shows "(\<exists>m tsk rv sid mgr. is_managed_agent m \<and> scope = build_scope sid mgr m (Some tsk) rv
        \<and> action \<in> set (actions_for m) \<and> action \<notin> set AGENT_FORBIDDEN_ACTIONS \<and> task_id \<in> {None, Some tsk}
        \<and> (rv = None \<or> review_id \<in> {None, rv}))
    \<or> sc_mode scope = ''operator'' \<and> action \<in> set OPERATOR_ACTIONS
    \<or> sc_mode scope = ''publisher'' \<and> action = PUBLISH_EVENT_ACTION"
proof (rule authorize_OkD[OF assms(2)])
  fix t
  assume t: "t \<in> set rows" "st_scope t = scope" "action \<in> set (sc_actions scope)"
    "sc_mode scope \<noteq> ''operator'' \<longrightarrow> action \<notin> set AGENT_FORBIDDEN_ACTIONS"
    "\<not> out_of_scope (sc_task_id scope) task_id" "\<not> out_of_scope (sc_review_id scope) review_id"
  have "token_inv rows" using token_run_inv[OF assms(1)] by (simp add: token_inv_def)
  then have kinds: "scope_kinds t" using t(1) by (simp add: token_inv_def)
  have mode: "is_managed_agent m \<Longrightarrow> session_mode_value m \<noteq> ''operator''" for m
    by (cases m) (simp_all add: is_managed_agent_def)
  show ?thesis using kinds unfolding scope_kinds_def t(2)
  proof (elim disjE exE conjE bexE)
    fix sid mgr m tsk rv
    assume m: "is_managed_agent m" "scope = build_scope sid mgr m (Some tsk) rv"
    then have "action \<in> set (actions_for m)" "action \<notin> set AGENT_FORBIDDEN_ACTIONS"
      "task_id \<in> {None, Some tsk}" "rv = None \<or> review_id \<in> {None, rv}"
      using t mode by (auto simp: build_scope_def out_of_scope_def)
    with m show ?thesis by blast
  qed (use t in \<open>auto simp: build_operator_scope_def build_publish_scope_def actions_for_def\<close>)
qed

lemma publish_route:
  assumes "map_of ROUTE_ACTIONS key = Some PUBLISH_EVENT_ACTION"
  shows "key = (''POST'', ''/events'')"
proof -
  have "list_all (\<lambda>(k, a). a = PUBLISH_EVENT_ACTION \<longrightarrow> k = (''POST'', ''/events'')) ROUTE_ACTIONS"
    by code_simp
  then show ?thesis using map_of_SomeD[OF assms] by (auto simp: list_all_iff)
qed

lemma str_or_token: "bearer_token rq = Inr (Some token) \<Longrightarrow> str_or (Some token) [] = token"
  by (simp add: str_or_def)

text \<open>A handler of a managed agent's request records the name of the token and no other.\<close>

lemma assert_actor_agent:
  "\<not> is_operator who \<Longrightarrow> assert_actor (Some who) claimed \<in> {Inr (pr_actor who), Inl (ServiceError PolicyViolation)}"
  by (simp add: assert_actor_def)

lemma is_operator_from_scope: "is_operator (principal_from_scope scope) \<longleftrightarrow> sc_mode scope = ''operator''"
  by (simp add: is_operator_def principal_from_scope_def str_or_def)


section \<open>A request of a launched manager\<close>

definition demo_request :: http_request where
  "demo_request = \<lparr>hq_method = ''get'', hq_route = Some ''/tasks/{task_id}'', hq_authorization = Some ''BEARER act_1 '',
     hq_token = None, hq_task_id = Some ''task_1'', hq_review_id = None\<rparr>"

lemma demo_request_parts:
  "route_key demo_request = Some (''GET'', ''/tasks/{task_id}'')" "bearer_token demo_request = Inr (Some ''act_1'')"
  "map_of ROUTE_ACTIONS (''GET'', ''/tasks/{task_id}'') = Some ''get_task''"
  by code_simp+

lemma demo_enforce: "enforce id demo_tokens 10 demo_request
    = Inr (Some (principal_from_scope (build_scope ''ses_1'' ''codex'' SmManager (Some ''task_1'') None)))"
proof -
  have f: "hq_task_id demo_request = Some ''task_1''" "hq_review_id demo_request = None"
    by (simp_all add: demo_request_def)
  show ?thesis
    by (simp add: enforce_def demo_request_parts f demo_authorized PUBLIC_ROUTES_def WEBHOOK_ROUTES_def)
qed


end
