(* ===== verification/Spec2Isabelle.thy ===== *)
theory Spec2Isabelle
  imports Queue_Witnesses Budget_Theorems Routing_Theorems Approval Router_Outcome
    Sessions Core_Cascade Core_Governance Core_Review_Theorems Completion
    Execution_Records Residency Context_Theorems Http_Authz
begin

text \<open>
  \<^bold>\<open>Verification of AgentConnect.\<close>

  AgentConnect hands work to language models and agents under rules about privacy, money and
  accountability. It has two engines. The \<^emph>\<open>router\<close> takes a task, classifies it, decides which
  provider may see it, asks for confirmation of spending, runs it and records the outcome; a
  federated \<^emph>\<open>work queue\<close> lets other machines pull its tickets. The \<^emph>\<open>task ledger\<close> is the
  durable record of tasks with managers, leases, decisions, reviews and subtasks that workers run.
  Both write every status through one \<^emph>\<open>transition authority\<close>. Paths below are relative to
  \<^verbatim>\<open>src/packages/agentconnect-*/src/agentconnect/\<close>.

  \<^bold>\<open>Parts, theories and sources.\<close>
  \<^item> \<open>Prelude\<close>: exceptions as values, SQL tables as lists of rows with guarded updates, Python strings and rounding.
  \<^item> \<open>Transitions\<close> (\<^verbatim>\<open>common/transitions.py\<close>): vocabularies and the verbs \<open>transition\<close>, \<open>advance\<close>,
    \<open>converge\<close>, \<open>cancel\<close> over any locked writer; the locale \<open>locked_writer\<close> is the contract of such a writer.
  \<^item> \<open>Task_State\<close>, \<open>Shared_Memory\<close> (\<^verbatim>\<open>common/state.py\<close>, \<^verbatim>\<open>common/memory.py\<close>): the task machine and the SQLite
    store, whose \<open>transition_task\<close> interprets \<open>locked_writer\<close> with other processes committing in between.
  \<^item> \<open>Privacy\<close> (\<^verbatim>\<open>common/privacy.py\<close>): classification, redaction and the tier rules.
  \<^item> \<open>Work_Queue\<close>, \<open>Queue_Lifecycle\<close>, \<open>Queue_Refinement\<close>, \<open>Queue_Methods\<close>, \<open>Queue_Theorems\<close>, \<open>Queue_Witnesses\<close>
    (\<^verbatim>\<open>common/workqueue.py\<close>): tickets, leases, fencing tokens, dependencies, review and reaper; the abstract life
    cycle and the refinement of every method to it, interleaved with other brokers.
  \<^item> \<open>Providers\<close>, \<open>Quota\<close>, \<open>Quota_Theorems\<close>, \<open>Calendar\<close>, \<open>Budget\<close>, \<open>Budget_Theorems\<close>, \<open>Approval\<close>
    (\<^verbatim>\<open>common/providers.py\<close>, \<^verbatim>\<open>quota.py\<close>, \<^verbatim>\<open>budget.py\<close>, \<^verbatim>\<open>authorization.py\<close>, \<^verbatim>\<open>approval.py\<close>): money and quota.
  \<^item> \<open>Routing\<close>, \<open>Routing_Theorems\<close> (\<^verbatim>\<open>router/routing.py\<close>): eligibility, score and choice of a provider.
  \<^item> \<open>Evaluation\<close>, \<open>Gateway\<close>, \<open>Node_Pool\<close> (\<^verbatim>\<open>common/evaluation.py\<close>, \<^verbatim>\<open>common/tokens.py\<close>, \<^verbatim>\<open>router/gateway.py\<close>,
    \<^verbatim>\<open>router/guard_hook.py\<close>, \<^verbatim>\<open>router/provisioning.py\<close>): learned scores, calls of a model, rented boxes.
  \<^item> \<open>Router_State\<close>, \<open>Router_Dispatch\<close>, \<open>Router_Service\<close> (\<^verbatim>\<open>router/service.py\<close>, \<^verbatim>\<open>router/runtime_dispatch.py\<close>): the
    submission pipeline as a state transformer that may raise; \<open>Router_Effects\<close> is the logic of its
    effects (locale \<open>effect\<close>), \<open>Router_Theorems\<close>, \<open>Router_Settlement\<close>, \<open>Router_Outcome\<close>, \<open>Delegation\<close> and
    \<open>Router_Demo\<close> hold its properties and witnesses.
  \<^item> \<open>Core_Models\<close>, \<open>Core_Ledger\<close> (\<^verbatim>\<open>core/models.py\<close>, \<^verbatim>\<open>core/storage.py\<close>, \<^verbatim>\<open>core/transition_vocab.py\<close>): the rows, the seven
    status vocabularies, \<open>transition_row\<close>; the locale \<open>ledger_table\<close> (a table with a key and a status
    column) gives the contract \<open>locked_writer\<close> by a sublocale and is interpreted for all seven tables.
    Operations are functions \<open>'a lm\<close> from a ledger to an error or a value and a ledger; the locale
    \<open>ledger_effect\<close> gives the rules by which a reflexive and transitive relation between ledgers is
    kept by operations built from kept parts.
  \<^item> \<open>Sessions\<close> (\<^verbatim>\<open>core/sessions.py\<close>, \<^verbatim>\<open>core/workspace.py\<close>): tokens, scopes and the environment of an agent.
  \<^item> \<open>Http_Authz\<close> (\<^verbatim>\<open>api/authz.py\<close>): the check that every HTTP request passes before its handler runs.
  \<^item> \<open>Worker_Routing\<close>, \<open>Tool_Governor\<close> (\<^verbatim>\<open>core/routing.py\<close>, \<^verbatim>\<open>core/workers.py\<close>, \<^verbatim>\<open>core/toolconnect_client.py\<close>): which worker
    may run a subtask, and whether its tools are allowed.
  \<^item> \<open>Core_Claims\<close>, \<open>Core_Reviews\<close>, \<open>Core_Subtasks\<close> (\<^verbatim>\<open>core/service.py\<close>, \<^verbatim>\<open>core/claims.py\<close>, \<^verbatim>\<open>core/decisions.py\<close>,
    \<^verbatim>\<open>core/reviews.py\<close>, \<^verbatim>\<open>core/execution.py\<close>): the operations of the ledger service over the direct backend.
  \<^item> \<open>Core_Lifecycle\<close>, \<open>Core_Cascade\<close>, \<open>Core_Governance\<close>, \<open>Core_Review_Theorems\<close>, \<open>Completion\<close> (\<^verbatim>\<open>core/audit.py\<close>): their
    properties, and the completion audit.
  \<^item> \<open>Execution_Records\<close> (\<^verbatim>\<open>core/execution_records.py\<close>, \<^verbatim>\<open>core/execution_record_store.py\<close>): canonical JSON, sealed records
    and their hash chain; the locale \<open>prefix_code\<close> gives that encodings built from prefix-free parts are injective.
  \<^item> \<open>Safety\<close>, \<open>Safety_Theorems\<close> (\<^verbatim>\<open>safety/\<close>): findings, policies, registry, aggregation, decision and redaction.
  \<^item> \<open>Context\<close>, \<open>Context_Theorems\<close> (\<^verbatim>\<open>core/memory.py\<close>, \<^verbatim>\<open>core/context.py\<close>): recalled memory, its trust labels and ranking,
    and the pack a manager or worker reads, scanned item by item.
  \<^item> \<open>Residency\<close> (\<^verbatim>\<open>model_manager/residency.py\<close>, \<^verbatim>\<open>model_manager/backends.py\<close>): the node that runs local models, as threads
    that interleave between its locked sections; the locale \<open>pool_gauge\<close> says when a shared counter
    equals the number of threads it counts, and is interpreted for the slots and both counters.

  \<^bold>\<open>What is shown.\<close> For the queue: only an admitted tier ever holds a ticket, results are accepted only
  after local review, a lost lease stays lost, dependencies are acyclic, terminal tickets are final,
  and one reaper tick repairs every stranded row. For the router: cloud providers see redacted text
  only, spending follows an approval, agent loops stay on trusted nodes, delegation ends, and no
  reservation outlives its submission. For money: caps hold in every sequential history. For the
  ledger: every operation, whatever happens while a worker runs, refines a board of subtasks that moves
  along the declared transitions and releases nothing before its dependencies have succeeded; failure
  reaches every transitive dependent and the cascade ends; a denied tool keeps its worker from being
  called; a task is completed only when nothing is outstanding; one primary manager at a time; locked
  decisions need an owner; a token never exceeds its mode; what the execution ledger stores always
  verifies, and its last hash determines its history. For what agents read: redaction removes exactly the
  reported spans, no failure of a consulted engine reads as clean, a secret task queries no memory,
  retrieval confers no trust, and a pack is bounded, ranked and free of duplicates. For the node: its
  card is never oversubscribed, its counters are exact, no call is stuck, and no model leaks. Concrete evaluations show where the code
  departs from its own documentation.

  \<^bold>\<open>Conventions and bounds.\<close> Outside code is an argument: detectors, HTTP clients, hashes, the policy
  engine, workers, what other threads and processes do at the points where a lock is free. Times and
  money are reals, identifiers come from a stream in the state. Loops are structural or have a
  measure. Fuel appears in three places. \<open>start_subtask\<close> and \<open>walk_dep\<close> are bounded by the depth of
  the interpreter's stack, and running out is the error \<open>RecursionLimit\<close>. \<open>core_cascade_loop\<close> gets one turn
  more than there are subtasks, which \<open>cascade_settles\<close> proves to be enough. \<open>transition_row_loop\<close>
  makes the three attempts that the code makes. The ledger is that of one process, whose writers hold
  the lock of the store; an operation of the ledger reads its clock once.

  \<^bold>\<open>Not modelled.\<close> The rendered handoff, capture and promotion of memory and the wire formats of its
  backends, the detection engines themselves (regular expressions, subprocesses and trained models, all
  parameters of the scanner), the reading of configuration files, control plane comparison,
  observability, the protocol adapters (the handlers of \<^verbatim>\<open>api\<close>, \<^verbatim>\<open>cli\<close>, \<^verbatim>\<open>mcp\<close>, the web pages of the router and the routes of
  the node), the mirrors to Linear and Temporal, the agent runtime on its graph library, and most texts
  of messages. They adapt, render or call the operations modelled here.
\<close>

end
